(* ===== verification/Domain.thy ===== *)
theory Domain
  imports Prelude
begin

text \<open>
  The data model of \<open>domain.py\<close>: actions, pseudonym scopes, treatments, governance
  contexts, spans, decisions, transformations, requests and results, and the
  text-independent offset check. The relevance levels of \<open>task_analysis/base.py\<close> are here
  too, because every treatment shares them.
\<close>

datatype disclosure_action =
    PRESERVE | PSEUDONYMIZE | GENERALIZE | REMOVE | BLOCK_REQUEST | TASK_DEPENDENT

fun action_value :: "disclosure_action \<Rightarrow> pystr" where
  "action_value PRESERVE = ''preserve''"
| "action_value PSEUDONYMIZE = ''pseudonymize''"
| "action_value GENERALIZE = ''generalize''"
| "action_value REMOVE = ''remove''"
| "action_value BLOCK_REQUEST = ''block_request''"
| "action_value TASK_DEPENDENT = ''task_dependent''"

datatype pseudonym_scope = REQUEST | DOCUMENT | SESSION | ORGANIZATION

fun scope_value :: "pseudonym_scope \<Rightarrow> pystr" where
  "scope_value REQUEST = ''request''"
| "scope_value DOCUMENT = ''document''"
| "scope_value SESSION = ''session''"
| "scope_value ORGANIZATION = ''organization''"

datatype treatment =
    DIRECT | STATIC_SANITIZATION | REVERSIBLE_PSEUDONYMIZATION | TASK_AWARE | POLICY_GOVERNED

fun treatment_value :: "treatment \<Rightarrow> pystr" where
  "treatment_value DIRECT = ''b0''"
| "treatment_value STATIC_SANITIZATION = ''b1''"
| "treatment_value REVERSIBLE_PSEUDONYMIZATION = ''b2''"
| "treatment_value TASK_AWARE = ''b3''"
| "treatment_value POLICY_GOVERNED = ''b4''"

datatype task_relevance =
    NOT_RELEVANT | RELEVANT_WITHOUT_EXACT_VALUE | RELEVANT_WITH_EXACT_VALUE | AMBIGUOUS

fun relevance_value :: "task_relevance \<Rightarrow> pystr" where
  "relevance_value NOT_RELEVANT = ''not_relevant''"
| "relevance_value RELEVANT_WITHOUT_EXACT_VALUE = ''relevant_without_exact_value''"
| "relevance_value RELEVANT_WITH_EXACT_VALUE = ''relevant_with_exact_value''"
| "relevance_value AMBIGUOUS = ''ambiguous''"

record governance_context =
  ctx_domain :: pystr
  ctx_purpose :: pystr
  ctx_requester_role :: "pystr option"
  ctx_requester_id :: "pystr option"
  ctx_provider_class :: pystr
  ctx_policy_version :: pystr
  ctx_requested_scope :: pseudonym_scope
  ctx_request_id :: "pystr option"
  ctx_document_id :: "pystr option"
  ctx_session_id :: "pystr option"

text \<open>
  The offsets of a span are \<open>int option\<close>: \<open>None\<close> stands for any value that is not an
  \<open>int\<close>, which \<open>SensitiveSpan.model_construct\<close> lets through.
\<close>

record sensitive_span =
  sp_category :: pystr
  sp_value :: pystr
  sp_start :: "int option"
  sp_end :: "int option"
  sp_confidence :: "rat option"

text \<open>The validated constructor: a missing or impossible offset, or a confidence outside 0 to 1, is refused.\<close>

definition mk_span ::
  "pystr \<Rightarrow> pystr \<Rightarrow> int option \<Rightarrow> int option \<Rightarrow> rat option \<Rightarrow> sensitive_span result" where
  "mk_span cat val st en conf =
     (if (case conf of None \<Rightarrow> False | Some c \<Rightarrow> c < 0 \<or> 1 < c) then Inl ValueError
      else case (st, en) of
        (Some s, Some e) \<Rightarrow>
          if s < 0 then Inl ValueError
          else if e \<le> s then Inl ValueError
          else Inr \<lparr>sp_category = cat, sp_value = val, sp_start = st, sp_end = en,
                    sp_confidence = conf\<rparr>
      | _ \<Rightarrow> Inl ValueError)"

definition span_offsets_are_structurally_valid :: "sensitive_span \<Rightarrow> bool" where
  "span_offsets_are_structurally_valid sp =
     (case (sp_start sp, sp_end sp) of
        (Some s, Some e) \<Rightarrow> if s < 0 then False else s < e
      | _ \<Rightarrow> False)"

text \<open>The offsets of a structurally valid span, as list positions.\<close>

definition lo :: "sensitive_span \<Rightarrow> nat" where
  "lo sp = (case sp_start sp of Some s \<Rightarrow> nat s | None \<Rightarrow> 0)"

definition hi :: "sensitive_span \<Rightarrow> nat" where
  "hi sp = (case sp_end sp of Some e \<Rightarrow> nat e | None \<Rightarrow> 0)"

record policy_decision =
  pd_category :: pystr
  pd_action :: disclosure_action
  pd_reason :: pystr
  pd_task_required :: "bool option"
  pd_allowed_actions :: "disclosure_action list"
  pd_policy_version :: "pystr option"
  pd_policy_restricted :: "bool option"
  pd_impossible_under_policy :: "bool option"

record transformation =
  tr_category :: pystr
  tr_original :: pystr
  tr_transformed :: "pystr option"
  tr_action :: disclosure_action

record disclosure_request =
  rq_text :: pystr
  rq_task :: pystr
  rq_context :: governance_context

datatype result_status = Allowed | Blocked

record disclosure_result =
  rs_external_payload :: pystr
  rs_decisions :: "policy_decision list"
  rs_transformations :: "transformation list"
  rs_reconstruction_required :: bool
  rs_status :: result_status

text \<open>
  \<open>PolicyDecision(category=..., action=..., reason=..., allowed_actions=[...])\<close> with the
  other fields at their defaults.
\<close>

definition plain_decision ::
  "pystr \<Rightarrow> disclosure_action \<Rightarrow> pystr \<Rightarrow> disclosure_action list \<Rightarrow> policy_decision" where
  "plain_decision cat act reason allowed =
     \<lparr>pd_category = cat, pd_action = act, pd_reason = reason, pd_task_required = None,
      pd_allowed_actions = allowed, pd_policy_version = None, pd_policy_restricted = None,
      pd_impossible_under_policy = None\<rparr>"

definition blocked_with :: "policy_decision list \<Rightarrow> disclosure_result" where
  "blocked_with ds =
     \<lparr>rs_external_payload = '''', rs_decisions = ds, rs_transformations = [],
      rs_reconstruction_required = False, rs_status = Blocked\<rparr>"

subsection \<open>Scopes are ordered by lifetime\<close>

fun scope_rank :: "pseudonym_scope \<Rightarrow> nat" where
  "scope_rank REQUEST = 0"
| "scope_rank DOCUMENT = 1"
| "scope_rank SESSION = 2"
| "scope_rank ORGANIZATION = 3"

instantiation pseudonym_scope :: linorder
begin

definition less_eq_pseudonym_scope :: "pseudonym_scope \<Rightarrow> pseudonym_scope \<Rightarrow> bool" where
  "less_eq_pseudonym_scope a b \<longleftrightarrow> scope_rank a \<le> scope_rank b"

definition less_pseudonym_scope :: "pseudonym_scope \<Rightarrow> pseudonym_scope \<Rightarrow> bool" where
  "less_pseudonym_scope a b \<longleftrightarrow> scope_rank a < scope_rank b"

instance
proof
  fix x y z :: pseudonym_scope
  show "x < y \<longleftrightarrow> x \<le> y \<and> \<not> y \<le> x"
    by (auto simp: less_eq_pseudonym_scope_def less_pseudonym_scope_def)
  show "x \<le> x" by (simp add: less_eq_pseudonym_scope_def)
  show "x \<le> y \<Longrightarrow> y \<le> z \<Longrightarrow> x \<le> z" by (simp add: less_eq_pseudonym_scope_def)
  show "x \<le> y \<Longrightarrow> y \<le> x \<Longrightarrow> x = y"
    by (cases x; cases y) (simp_all add: less_eq_pseudonym_scope_def)
  show "x \<le> y \<or> y \<le> x" by (auto simp: less_eq_pseudonym_scope_def)
qed

end

subsection \<open>Facts about spans\<close>

lemma mk_span_Inr:
  assumes "mk_span cat val st en conf = Inr sp"
  shows "span_offsets_are_structurally_valid sp"
    and "sp_category sp = cat" and "sp_value sp = val" and "sp_start sp = st" and "sp_end sp = en"
  using assms
  by (auto simp: mk_span_def span_offsets_are_structurally_valid_def
      split: option.splits if_splits)

lemma structurally_valid_iff:
  "span_offsets_are_structurally_valid sp \<longleftrightarrow>
     sp_start sp = Some (int (lo sp)) \<and> sp_end sp = Some (int (hi sp)) \<and> lo sp < hi sp"
  by (auto simp: span_offsets_are_structurally_valid_def lo_def hi_def split: option.splits if_splits)

lemma structurally_valid_lo_hi: "span_offsets_are_structurally_valid sp \<Longrightarrow> lo sp < hi sp"
  by (simp add: structurally_valid_iff)

lemma blocked_with_simps [simp]:
  "rs_external_payload (blocked_with ds) = ''''"
  "rs_decisions (blocked_with ds) = ds"
  "rs_transformations (blocked_with ds) = []"
  "rs_reconstruction_required (blocked_with ds) = False"
  "rs_status (blocked_with ds) = Blocked"
  by (simp_all add: blocked_with_def)

lemma plain_decision_simps [simp]:
  "pd_category (plain_decision c a r al) = c"
  "pd_action (plain_decision c a r al) = a"
  "pd_reason (plain_decision c a r al) = r"
  "pd_allowed_actions (plain_decision c a r al) = al"
  "pd_policy_restricted (plain_decision c a r al) = None"
  "pd_impossible_under_policy (plain_decision c a r al) = None"
  "pd_policy_version (plain_decision c a r al) = None"
  by (simp_all add: plain_decision_def)

end
