(* ===== verification/Overlap.thy ===== *)
theory Overlap
  imports Domain
begin

text \<open>
  \<open>detection/overlap.py\<close>: the deterministic resolution of overlapping detections. Every span
  is validated first (a bad one raises \<open>ValueError\<close>), the spans are sorted by a priority key
  (longest, then category precedence, start, category name, value), and a span is kept
  unless it overlaps one already kept; the result is sorted by its bounds.

  The lemmas give the specification: the kept spans are pairwise disjoint and come from the
  input, a span is rejected exactly when it overlaps a kept one that outranks it (\<open>outranks\<close> words the
  documented priority without the sort key), the result is sorted, depends on the set of
  detections only, and resolving twice changes nothing.
\<close>

definition CATEGORY_PRECEDENCE :: "pystr list" where
  "CATEGORY_PRECEDENCE =
     [''medical_data'', ''cnpj'', ''cpf'', ''employee_name'', ''email'', ''phone'', ''salary'',
      ''department'']"

fun list_index :: "'a list \<Rightarrow> 'a \<Rightarrow> nat option" where
  "list_index [] x = None"
| "list_index (y # ys) x = (if y = x then Some 0 else map_option Suc (list_index ys x))"

definition precedence_rank :: "pystr \<Rightarrow> nat" where
  "precedence_rank category =
     (case list_index CATEGORY_PRECEDENCE category of
        Some i \<Rightarrow> i
      | None \<Rightarrow> length CATEGORY_PRECEDENCE)"

definition span_bounds :: "sensitive_span \<Rightarrow> nat \<times> nat" where
  "span_bounds sp = (lo sp, hi sp)"

type_synonym span_key = "int \<times> nat \<times> nat \<times> pystr \<times> pystr"

definition span_sort_key :: "sensitive_span \<Rightarrow> span_key" where
  "span_sort_key sp =
     (- (int (hi sp) - int (lo sp)), precedence_rank (sp_category sp), lo sp, sp_category sp, sp_value sp)"

definition bounds_overlap :: "nat \<times> nat \<Rightarrow> nat \<times> nat \<Rightarrow> bool" where
  "bounds_overlap a b \<longleftrightarrow> fst a < snd b \<and> fst b < snd a"

text \<open>The loop over the ordered candidates; \<open>accepted\<close> is in the order of acceptance.\<close>

fun accept_loop :: "sensitive_span list \<Rightarrow> sensitive_span list \<Rightarrow> sensitive_span list" where
  "accept_loop accepted [] = accepted"
| "accept_loop accepted (sp # rest) =
     (if list_ex (\<lambda>taken. bounds_overlap (span_bounds sp) (span_bounds taken)) accepted
      then accept_loop accepted rest
      else accept_loop (accepted @ [sp]) rest)"

definition resolve_overlaps :: "sensitive_span list \<Rightarrow> sensitive_span list result" where
  "resolve_overlaps spans =
     (if \<not> list_all span_offsets_are_structurally_valid spans then Inl ValueError
      else Inr (sort_key span_bounds (accept_loop [] (sort_key span_sort_key spans))))"

subsection \<open>The acceptance loop\<close>

abbreviation disjoint_spans :: "sensitive_span \<Rightarrow> sensitive_span \<Rightarrow> bool" where
  "disjoint_spans a b \<equiv> \<not> bounds_overlap (span_bounds a) (span_bounds b)"

lemma bounds_overlap_sym: "bounds_overlap a b = bounds_overlap b a"
  by (auto simp: bounds_overlap_def)

lemma disjoint_iff: "disjoint_spans a b \<longleftrightarrow> hi b \<le> lo a \<or> hi a \<le> lo b"
  by (auto simp: bounds_overlap_def span_bounds_def)

lemma accept_loop_prefix: "\<exists>new. accept_loop acc xs = acc @ new \<and> set new \<subseteq> set xs"
proof (induction xs arbitrary: acc)
  case Nil
  then show ?case by simp
next
  case (Cons x xs)
  show ?case
  proof (cases "list_ex (\<lambda>t. bounds_overlap (span_bounds x) (span_bounds t)) acc")
    case True
    with Cons.IH [of acc] show ?thesis by auto
  next
    case False
    from Cons.IH [of "acc @ [x]"] obtain new
      where "accept_loop (acc @ [x]) xs = (acc @ [x]) @ new" and "set new \<subseteq> set xs" by blast
    with False have "accept_loop acc (x # xs) = acc @ (x # new) \<and> set (x # new) \<subseteq> set (x # xs)" by auto
    then show ?thesis by blast
  qed
qed

lemma accept_loop_subset: "set (accept_loop acc xs) \<subseteq> set acc \<union> set xs"
  using accept_loop_prefix [of acc xs] by auto

lemma accept_loop_disjoint:
  "sorted_wrt disjoint_spans acc \<Longrightarrow> sorted_wrt disjoint_spans (accept_loop acc xs)"
proof (induction xs arbitrary: acc)
  case Nil
  then show ?case by simp
next
  case (Cons x xs)
  show ?case
  proof (cases "list_ex (\<lambda>t. bounds_overlap (span_bounds x) (span_bounds t)) acc")
    case True
    with Cons show ?thesis by simp
  next
    case False
    then have "sorted_wrt disjoint_spans (acc @ [x])"
      using Cons.prems by (auto simp: sorted_wrt_append list_ex_iff bounds_overlap_sym)
    with False Cons.IH show ?thesis by simp
  qed
qed

text \<open>Whatever the loop drops overlaps something it kept from no later in the order.\<close>

lemma accept_loop_dominated:
  assumes "sorted_wrt (\<lambda>a b. key a \<le> (key b :: 'k::linorder)) (acc @ xs)"
    and "x \<in> set xs" and "x \<notin> set (accept_loop acc xs)"
  shows "\<exists>y \<in> set (accept_loop acc xs). bounds_overlap (span_bounds x) (span_bounds y) \<and> key y \<le> key x"
  using assms
proof (induction xs arbitrary: acc)
  case Nil
  then show ?case by simp
next
  case (Cons z xs)
  note pre = accept_loop_prefix [of acc xs] accept_loop_prefix [of "acc @ [z]" xs]
  show ?case
  proof (cases "list_ex (\<lambda>t. bounds_overlap (span_bounds z) (span_bounds t)) acc")
    case True
    then obtain t where t: "t \<in> set acc" "bounds_overlap (span_bounds z) (span_bounds t)"
      by (auto simp: list_ex_iff)
    show ?thesis
    proof (cases "x = z")
      case eq: True
      have "key t \<le> key z" using Cons.prems(1) t(1) by (auto simp: sorted_wrt_append)
      with t pre(1) True eq show ?thesis by auto
    next
      case False
      then have "x \<in> set xs" using Cons.prems(2) by simp
      moreover have "sorted_wrt (\<lambda>a b. key a \<le> key b) (acc @ xs)"
        using Cons.prems(1) by (auto simp: sorted_wrt_append)
      ultimately show ?thesis using Cons.IH Cons.prems(3) True by simp
    qed
  next
    case False
    have "x \<noteq> z" using Cons.prems(3) False pre(2) by auto
    then have "x \<in> set xs" using Cons.prems(2) by simp
    then show ?thesis using Cons.IH [of "acc @ [z]"] Cons.prems(1,3) False by simp
  qed
qed

lemma accept_loop_all:
  "sorted_wrt disjoint_spans (acc @ xs) \<Longrightarrow> accept_loop acc xs = acc @ xs"
proof (induction xs arbitrary: acc)
  case Nil
  then show ?case by simp
next
  case (Cons x xs)
  then have "\<not> list_ex (\<lambda>t. bounds_overlap (span_bounds x) (span_bounds t)) acc"
    by (auto simp: sorted_wrt_append list_ex_iff bounds_overlap_sym)
  with Cons.IH [of "acc @ [x]"] Cons.prems show ?case by simp
qed

subsection \<open>Sorting with an injective key is a function of the set\<close>

lemma sort_key_mset_inj:
  fixes f :: "'a \<Rightarrow> 'b::linorder"
  assumes "mset xs = mset ys" and "inj_on f (set xs)"
  shows "sort_key f xs = sort_key f ys"
proof (rule properties_for_sort_key)
  show "mset (sort_key f ys) = mset xs" using assms(1) by simp
  show "filter (\<lambda>x. f k = f x) (sort_key f ys) = filter (\<lambda>x. f k = f x) xs" if "k \<in> set (sort_key f ys)" for k
  proof -
    have k: "k \<in> set xs" using that assms(1) by (metis set_mset_mset set_sort)
    have only: "filter (\<lambda>x. f k = f x) zs = filter (\<lambda>x. x = k) zs" if "set zs \<subseteq> set xs" for zs
      using that assms(2) k by (intro filter_cong) (auto dest: inj_onD)
    have rep: "filter (\<lambda>x. x = k) zs = replicate (count (mset zs) k) k" for zs
      by (induction zs) (auto simp: replicate_append_same)
    have "set ys = set xs" using assms(1) by (metis set_mset_mset)
    then show ?thesis using assms(1) by (simp add: only rep)
  qed
  show "sorted (map f (sort_key f ys))" by simp
qed

subsection \<open>Specification of the resolver\<close>

abbreviation valid_spans :: "sensitive_span list \<Rightarrow> bool" where
  "valid_spans xs \<equiv> list_all span_offsets_are_structurally_valid xs"

lemma resolve_overlaps_InrD:
  assumes "resolve_overlaps xs = Inr ys"
  shows "valid_spans xs" and "ys = sort_key span_bounds (accept_loop [] (sort_key span_sort_key xs))"
  using assms by (auto simp: resolve_overlaps_def split: if_splits)

lemma resolve_overlaps_total: "valid_spans xs \<Longrightarrow> \<exists>ys. resolve_overlaps xs = Inr ys"
  by (simp add: resolve_overlaps_def)

lemma resolve_overlaps_Inl_iff: "(\<exists>e. resolve_overlaps xs = Inl e) \<longleftrightarrow> \<not> valid_spans xs"
  by (simp add: resolve_overlaps_def)

lemma resolve_overlaps_subset:
  assumes "resolve_overlaps xs = Inr ys" shows "set ys \<subseteq> set xs"
  using accept_loop_subset [of "[]" "sort_key span_sort_key xs"] resolve_overlaps_InrD(2) [OF assms]
  by simp

lemma sorted_wrt_symmetric_mset:
  assumes sym: "\<And>a b. P a b = P b a" and "mset xs = mset ys" and "sorted_wrt P xs"
  shows "sorted_wrt P ys"
  using assms(2,3)
proof (induction ys arbitrary: xs)
  case Nil
  then show ?case by simp
next
  case (Cons y ys)
  then have "y \<in> set xs" by (metis list.set_intros(1) set_mset_mset)
  then obtain as bs where xs: "xs = as @ y # bs" by (meson split_list)
  with Cons.prems have "mset (as @ bs) = mset ys" and "sorted_wrt P (as @ bs)"
    by (auto simp: sorted_wrt_append)
  then have "sorted_wrt P ys" by (rule Cons.IH)
  moreover have "\<forall>b \<in> set ys. P y b"
  proof -
    have "set ys = set (as @ bs)" using \<open>mset (as @ bs) = mset ys\<close> by (metis set_mset_mset)
    then show ?thesis using Cons.prems(2) sym by (auto simp: xs sorted_wrt_append)
  qed
  ultimately show ?case by simp
qed

lemma resolve_overlaps_disjoint:
  assumes "resolve_overlaps xs = Inr ys" shows "sorted_wrt disjoint_spans ys"
proof (rule sorted_wrt_symmetric_mset)
  show "disjoint_spans a b = disjoint_spans b a" for a b by (simp add: bounds_overlap_sym)
  show "mset (accept_loop [] (sort_key span_sort_key xs)) = mset ys"
    using resolve_overlaps_InrD(2) [OF assms] by simp
  show "sorted_wrt disjoint_spans (accept_loop [] (sort_key span_sort_key xs))"
    by (rule accept_loop_disjoint) simp
qed

lemma resolve_overlaps_sorted:
  assumes "resolve_overlaps xs = Inr ys" shows "sorted (map span_bounds ys)"
  using resolve_overlaps_InrD(2) [OF assms] by simp

lemma resolve_overlaps_valid:
  assumes "resolve_overlaps xs = Inr ys" shows "valid_spans ys"
  using resolve_overlaps_subset [OF assms] resolve_overlaps_InrD(1) [OF assms]
  by (auto simp: list_all_iff)

text \<open>The shape the payload walk needs: each span ends before the next begins.\<close>

lemma resolve_overlaps_chain:
  assumes "resolve_overlaps xs = Inr ys"
  shows "sorted_wrt (\<lambda>a b. hi a \<le> lo b) ys"
proof -
  have v: "\<forall>y \<in> set ys. lo y < hi y"
    using resolve_overlaps_valid [OF assms] by (auto simp: list_all_iff structurally_valid_lo_hi)
  have "sorted_wrt (\<lambda>a b. span_bounds a \<le> span_bounds b) ys"
    using resolve_overlaps_sorted [OF assms] by (simp add: sorted_map)
  then show ?thesis
    using resolve_overlaps_disjoint [OF assms] v
  proof (induction ys)
    case Nil
    then show ?case by simp
  next
    case (Cons y ys)
    have "hi y \<le> lo z" if "z \<in> set ys" for z
      using that Cons.prems by (fastforce simp: span_bounds_def bounds_overlap_def)
    with Cons show ?case by auto
  qed
qed

lemma resolve_overlaps_dominated:
  assumes "resolve_overlaps xs = Inr ys" and "x \<in> set xs" and "x \<notin> set ys"
  shows "\<exists>y \<in> set ys. bounds_overlap (span_bounds x) (span_bounds y) \<and> span_sort_key y \<le> span_sort_key x"
proof -
  let ?s = "sort_key span_sort_key xs"
  have "sorted (map span_sort_key ?s)" by (rule sorted_sort_key)
  then have "sorted_wrt (\<lambda>a b. span_sort_key a \<le> span_sort_key b) ([] @ ?s)"
    by (simp only: sorted_map append_Nil)
  moreover have "x \<in> set ?s" and "x \<notin> set (accept_loop [] ?s)"
    using assms resolve_overlaps_InrD(2) [OF assms(1)] by simp_all
  ultimately show ?thesis
    using accept_loop_dominated [of span_sort_key "[]" ?s x] resolve_overlaps_InrD(2) [OF assms(1)]
    by simp
qed

lemma resolve_overlaps_order_independent:
  assumes "mset xs = mset ys" and "inj_on span_sort_key (set xs)"
  shows "resolve_overlaps xs = resolve_overlaps ys"
proof -
  have "set xs = set ys" using assms(1) by (metis set_mset_mset)
  then have "valid_spans xs = valid_spans ys" by (simp only: list_all_iff)
  then show ?thesis
    unfolding resolve_overlaps_def sort_key_mset_inj [OF assms] by (simp only: if_True if_False)
qed

lemma inj_on_span_bounds_chain:
  assumes "sorted_wrt disjoint_spans ys" and "valid_spans ys"
  shows "distinct ys" and "inj_on span_bounds (set ys)"
proof -
  have self: "\<not> disjoint_spans a a" if "a \<in> set ys" for a
    using that assms(2) structurally_valid_lo_hi [of a] by (auto simp: list_all_iff disjoint_iff)
  have *: "distinct (map span_bounds ys)"
    using assms(1) self
  proof (induction ys)
    case Nil
    then show ?case by simp
  next
    case (Cons y ys)
    have "span_bounds y \<noteq> span_bounds z" if "z \<in> set ys" for z
      using that Cons.prems(1) Cons.prems(2) [of y] by auto
    with Cons show ?case by auto
  qed
  then show "distinct ys" and "inj_on span_bounds (set ys)" by (simp_all add: distinct_map)
qed

lemma resolve_overlaps_idem:
  assumes "resolve_overlaps xs = Inr ys" shows "resolve_overlaps ys = Inr ys"
proof -
  have v: "valid_spans ys" by (rule resolve_overlaps_valid [OF assms])
  have d: "sorted_wrt disjoint_spans ys" by (rule resolve_overlaps_disjoint [OF assms])
  have "sorted_wrt disjoint_spans (sort_key span_sort_key ys)"
    by (rule sorted_wrt_symmetric_mset [OF _ _ d]) (simp_all add: bounds_overlap_sym)
  then have "accept_loop [] (sort_key span_sort_key ys) = sort_key span_sort_key ys"
    using accept_loop_all [of "[]"] by simp
  moreover have "sort_key span_bounds (sort_key span_sort_key ys) = sort_key span_bounds ys"
    using inj_on_span_bounds_chain(2) [OF d v] by (intro sort_key_mset_inj) simp_all
  moreover have "sort_key span_bounds ys = ys"
    using resolve_overlaps_sorted [OF assms] by (simp add: sort_key_id_if_sorted)
  ultimately show ?thesis using v by (simp add: resolve_overlaps_def)
qed

subsection \<open>Priority, as the documentation words it\<close>

text \<open>
  The rule, without the sort key: the longer span goes first; of two equally long ones the category that is listed earlier
  (a listed one before any other), then the leftmost, then the category name, then the value.
\<close>

definition category_before :: "pystr \<Rightarrow> pystr \<Rightarrow> bool" where
  "category_before c d \<longleftrightarrow> c \<in> set (takeWhile (\<lambda>listed. listed \<noteq> d) CATEGORY_PRECEDENCE)"

definition outranks :: "sensitive_span \<Rightarrow> sensitive_span \<Rightarrow> bool" where
  "outranks a b \<longleftrightarrow>
     hi b - lo b < hi a - lo a \<or>
     hi a - lo a = hi b - lo b \<and>
       (category_before (sp_category a) (sp_category b) \<or>
        \<not> category_before (sp_category b) (sp_category a) \<and>
          (lo a < lo b \<or>
           lo a = lo b \<and>
             (sp_category a < sp_category b \<or> sp_category a = sp_category b \<and> sp_value a < sp_value b)))"

text \<open>No two spans of a list differ in nothing but their confidence.\<close>

definition told_apart :: "sensitive_span list \<Rightarrow> bool" where
  "told_apart xs \<longleftrightarrow>
     (\<forall>a \<in> set xs. \<forall>b \<in> set xs.
        sp_start a = sp_start b \<and> sp_end a = sp_end b \<and> sp_category a = sp_category b \<and> sp_value a = sp_value b \<longrightarrow>
          sp_confidence a = sp_confidence b)"

lemma index_before:
  "(case list_index ys c of Some i \<Rightarrow> i | None \<Rightarrow> length ys) < (case list_index ys d of Some i \<Rightarrow> i | None \<Rightarrow> length ys) \<longleftrightarrow>
     c \<in> set (takeWhile (\<lambda>y. y \<noteq> d) ys)"
  by (induction ys) (auto split: option.splits)

lemma precedence_rank_less: "precedence_rank c < precedence_rank d \<longleftrightarrow> category_before c d"
  unfolding precedence_rank_def category_before_def by (rule index_before)

lemma outranks_key:
  assumes "span_offsets_are_structurally_valid a" and "span_offsets_are_structurally_valid b"
  shows "outranks a b \<longleftrightarrow> span_sort_key a < span_sort_key b"
proof -
  have "lo a < hi a" "lo b < hi b" using assms by (simp_all add: structurally_valid_lo_hi)
  then have "hi b - lo b < hi a - lo a \<longleftrightarrow> - (int (hi a) - int (lo a)) < - (int (hi b) - int (lo b))"
    and "hi a - lo a = hi b - lo b \<longleftrightarrow> - (int (hi a) - int (lo a)) = - (int (hi b) - int (lo b))"
    by linarith+
  moreover have "precedence_rank (sp_category a) \<le> precedence_rank (sp_category b) \<longleftrightarrow>
      \<not> category_before (sp_category b) (sp_category a)"
    unfolding precedence_rank_less [symmetric] by (rule not_less [symmetric])
  ultimately show ?thesis
    unfolding outranks_def span_sort_key_def less_prod_def' fst_conv snd_conv precedence_rank_less [symmetric]
    by (auto simp: not_less order_le_less)
qed

lemma same_key:
  assumes "told_apart xs" and "a \<in> set xs" and "b \<in> set xs" and "valid_spans xs"
    and "span_sort_key a = span_sort_key b"
  shows "a = b"
proof -
  have v: "span_offsets_are_structurally_valid a" "span_offsets_are_structurally_valid b"
    using assms(2-4) by (auto simp: list_all_iff)
  have k: "int (hi a) - int (lo a) = int (hi b) - int (lo b)" "lo a = lo b" "sp_category a = sp_category b"
    "sp_value a = sp_value b"
    using assms(5) by (simp_all add: span_sort_key_def)
  then have "hi a = hi b" by simp
  with k v have "sp_start a = sp_start b \<and> sp_end a = sp_end b \<and> sp_category a = sp_category b \<and> sp_value a = sp_value b"
    by (simp only: structurally_valid_iff simp_thms)
  moreover from this have "sp_confidence a = sp_confidence b"
    using assms(1-3) unfolding told_apart_def by blast
  ultimately show ?thesis by simp
qed

lemma resolve_overlaps_kept_iff:
  assumes "resolve_overlaps xs = Inr zs" and "told_apart xs" and "x \<in> set xs"
  shows "x \<in> set zs \<longleftrightarrow> \<not> (\<exists>y \<in> set zs. bounds_overlap (span_bounds x) (span_bounds y) \<and> outranks y x)"
proof
  have v: "valid_spans xs" by (rule resolve_overlaps_InrD(1) [OF assms(1)])
  have sub: "set zs \<subseteq> set xs" by (rule resolve_overlaps_subset [OF assms(1)])
  have rank: "outranks y x \<longleftrightarrow> span_sort_key y < span_sort_key x" if "y \<in> set zs" for y
    using that sub v assms(3) by (intro outranks_key) (auto simp: list_all_iff)
  have d: "sorted_wrt disjoint_spans zs" by (rule resolve_overlaps_disjoint [OF assms(1)])
  show "\<not> (\<exists>y \<in> set zs. bounds_overlap (span_bounds x) (span_bounds y) \<and> outranks y x)" if x: "x \<in> set zs"
  proof
    assume "\<exists>y \<in> set zs. bounds_overlap (span_bounds x) (span_bounds y) \<and> outranks y x"
    then obtain y where y: "y \<in> set zs" "bounds_overlap (span_bounds x) (span_bounds y)" "outranks y x" by blast
    then have "x \<noteq> y" using rank by auto
    with d x y(1,2) show False
      by (auto simp: sorted_wrt_iff_nth_less in_set_conv_nth bounds_overlap_sym) (metis bounds_overlap_sym linorder_neqE_nat)
  qed
  show "x \<in> set zs" if "\<not> (\<exists>y \<in> set zs. bounds_overlap (span_bounds x) (span_bounds y) \<and> outranks y x)"
  proof (rule ccontr)
    assume "x \<notin> set zs"
    from resolve_overlaps_dominated [OF assms(1,3) this] obtain y where
      y: "y \<in> set zs" "bounds_overlap (span_bounds x) (span_bounds y)" "span_sort_key y \<le> span_sort_key x" by blast
    then have "span_sort_key y = span_sort_key x" using that rank [OF y(1)] by auto
    with same_key [OF assms(2) _ assms(3) v] y(1) sub \<open>x \<notin> set zs\<close> show False by blast
  qed
qed

subsection \<open>Properties\<close>

text \<open>
  what overlap resolution returns. It raises exactly on structurally invalid spans. Its result keeps only
  spans of the input, each ending before the next begins, and a span that it drops overlaps a kept one that comes
  no later in the order of priority.
\<close>

theorem overlaps_resolved:
  "case resolve_overlaps xs of
     Inl e \<Rightarrow> \<not> valid_spans xs
   | Inr ys \<Rightarrow> valid_spans xs \<and> set ys \<subseteq> set xs \<and> sorted_wrt (\<lambda>a b. hi a \<le> lo b) ys \<and>
       (\<forall>x \<in> set xs. x \<in> set ys \<or>
          (\<exists>y \<in> set ys. bounds_overlap (span_bounds x) (span_bounds y) \<and> span_sort_key y \<le> span_sort_key x))"
proof (cases "resolve_overlaps xs")
  case (Inl e)
  then show ?thesis using resolve_overlaps_Inl_iff [of xs] by auto
next
  case (Inr ys)
  then show ?thesis
    using resolve_overlaps_InrD(1) [OF Inr] resolve_overlaps_subset [OF Inr] resolve_overlaps_chain [OF Inr]
      resolve_overlaps_dominated [OF Inr]
    by auto
qed

definition sample_span :: "pystr \<Rightarrow> pystr \<Rightarrow> int \<Rightarrow> int \<Rightarrow> sensitive_span" where
  "sample_span category val st en =
     \<lparr>sp_category = category, sp_value = val, sp_start = Some st, sp_end = Some en, sp_confidence = None\<rparr>"

theorem overlaps_resolved_witness:
  "valid_spans [sample_span ''phone'' ''9'' 3 4]"
  using overlaps_resolved [of "[sample_span ''phone'' ''9'' 3 4]"]
  by (simp add: resolve_overlaps_def sample_span_def span_offsets_are_structurally_valid_def)

text \<open>
  C25: the resolution of overlaps follows the documented priority and depends on the set of detections, not on the order in
  which the rules found them, provided no two of them differ in nothing but their confidence. It fails exactly on spans with
  invalid offsets. Otherwise its result, in the order of the text, has no overlaps, and a detection is dropped exactly
  when it overlaps a kept one that outranks it: a longer one, or an equally long one with an earlier category, an earlier
  start, a smaller category name or a smaller value, in this order. Resolving a second time changes nothing.
\<close>

theorem overlaps_order_independent:
  assumes "mset xs = mset ys" and "told_apart xs"
  shows "resolve_overlaps xs = resolve_overlaps ys \<and>
    (case resolve_overlaps xs of
       Inl e \<Rightarrow> \<not> valid_spans xs
     | Inr zs \<Rightarrow> valid_spans xs \<and> set zs \<subseteq> set xs \<and> sorted_wrt (\<lambda>a b. hi a \<le> lo b) zs \<and>
         (\<forall>x \<in> set xs. x \<in> set zs \<longleftrightarrow>
            \<not> (\<exists>y \<in> set zs. bounds_overlap (span_bounds x) (span_bounds y) \<and> outranks y x)) \<and>
         resolve_overlaps zs = Inr zs)"
proof
  show "resolve_overlaps xs = resolve_overlaps ys"
  proof (cases "valid_spans xs")
    case True
    then have "inj_on span_sort_key (set xs)" using same_key [OF assms(2)] by (auto intro: inj_onI)
    then show ?thesis by (rule resolve_overlaps_order_independent [OF assms(1)])
  next
    case False
    have "set xs = set ys" using assms(1) by (metis set_mset_mset)
    with False show ?thesis by (simp add: resolve_overlaps_def list_all_iff)
  qed
  show "case resolve_overlaps xs of
       Inl e \<Rightarrow> \<not> valid_spans xs
     | Inr zs \<Rightarrow> valid_spans xs \<and> set zs \<subseteq> set xs \<and> sorted_wrt (\<lambda>a b. hi a \<le> lo b) zs \<and>
         (\<forall>x \<in> set xs. x \<in> set zs \<longleftrightarrow>
            \<not> (\<exists>y \<in> set zs. bounds_overlap (span_bounds x) (span_bounds y) \<and> outranks y x)) \<and>
         resolve_overlaps zs = Inr zs"
  proof (cases "resolve_overlaps xs")
    case (Inl e)
    then show ?thesis using resolve_overlaps_Inl_iff [of xs] by auto
  next
    case (Inr zs)
    from resolve_overlaps_InrD(1) [OF Inr] resolve_overlaps_subset [OF Inr] resolve_overlaps_chain [OF Inr]
      resolve_overlaps_kept_iff [OF Inr assms(2)] resolve_overlaps_idem [OF Inr]
    show ?thesis by (simp only: Inr sum.case) blast
  qed
qed

theorem overlaps_order_independent_witness:
  "\<exists>zs. resolve_overlaps [sample_span ''phone'' ''12'' 1 3, sample_span ''cpf'' ''23'' 2 4] = Inr zs \<and>
     resolve_overlaps [sample_span ''cpf'' ''23'' 2 4, sample_span ''phone'' ''12'' 1 3] = Inr zs \<and>
     sample_span ''phone'' ''12'' 1 3 \<notin> set zs"
proof -
  let ?phone = "sample_span ''phone'' ''12'' 1 3" and ?cpf = "sample_span ''cpf'' ''23'' 2 4"
  have "told_apart [?phone, ?cpf]" by (simp add: told_apart_def sample_span_def)
  from overlaps_order_independent [OF _ this, of "[?cpf, ?phone]"]
  have same: "resolve_overlaps [?phone, ?cpf] = resolve_overlaps [?cpf, ?phone]" by simp
  have "resolve_overlaps [?cpf, ?phone] = Inr [?cpf]" by code_simp
  moreover have "?phone \<notin> set [?cpf]" by (simp add: sample_span_def)
  ultimately show ?thesis using same by auto
qed

end
