(* ===== verification/Regex.thy ===== *)
theory Regex
  imports Prelude
begin

text \<open>
  The part of Python's \<open>re\<close> that the program uses: a backtracking matcher. \<open>matches r s i\<close>
  lists every way \<open>r\<close> can match \<open>s\<close> from position \<open>i\<close>, in the order in which the
  backtracking engine tries them, each with its end position and its named groups; \<open>match\<close>
  takes the first, \<open>fullmatch\<close> the first that ends at the end of the text, \<open>search\<close> the first
  position that matches, \<open>finditer\<close> all non-overlapping matches from left to right.
  Every repeated pattern of the program consumes at least one character per iteration, so an
  iteration that consumes nothing is left out, and no pattern matches the empty string.

  The lemmas bound where a match can lie and show that a group that must consume is never empty.
\<close>

type_synonym captures = "(pystr \<times> (nat \<times> nat)) list"

datatype re =
    Eps
  | Chr "char \<Rightarrow> bool"
  | Sq re re
  | Al re re
  | Rp bool nat "nat option" re
  | Gr pystr re
  | LineStart
  | LineEnd
  | WordBound

subsection \<open>Character classes\<close>

definition one_of :: "pystr \<Rightarrow> char \<Rightarrow> bool" where
  "one_of cs c \<longleftrightarrow> c \<in> set cs"

definition none_of :: "pystr \<Rightarrow> char \<Rightarrow> bool" where
  "none_of cs c \<longleftrightarrow> c \<notin> set cs"

definition is_upper :: "char \<Rightarrow> bool" where
  "is_upper c \<longleftrightarrow> 65 \<le> (of_char c :: nat) \<and> (of_char c :: nat) \<le> 90"

definition is_lower :: "char \<Rightarrow> bool" where
  "is_lower c \<longleftrightarrow> 97 \<le> (of_char c :: nat) \<and> (of_char c :: nat) \<le> 122"

definition is_space :: "char \<Rightarrow> bool" where
  "is_space c \<longleftrightarrow>
     (let n = (of_char c :: nat) in 9 \<le> n \<and> n \<le> 13 \<or> 28 \<le> n \<and> n \<le> 32 \<or> n = 133 \<or> n = 160)"

definition is_word :: "char \<Rightarrow> bool" where
  "is_word c \<longleftrightarrow> is_upper c \<or> is_lower c \<or> is_digit c \<or>
     (let n = (of_char c :: nat) in
        n = 95 \<or> n = 170 \<or> n = 178 \<or> n = 179 \<or> n = 181 \<or> n = 185 \<or> n = 186 \<or>
        188 \<le> n \<and> n \<le> 190 \<or> 192 \<le> n \<and> n \<noteq> 215 \<and> n \<noteq> 247)"

text \<open>\<open>str.lower()\<close> on one character; it never changes the length here.\<close>

definition lower_char :: "char \<Rightarrow> char" where
  "lower_char c =
     (let n = (of_char c :: nat) in
        if 65 \<le> n \<and> n \<le> 90 \<or> 192 \<le> n \<and> n \<le> 222 \<and> n \<noteq> 215 then char_of (n + 32) else c)"

definition str_lower :: "pystr \<Rightarrow> pystr" where
  "str_lower s = map lower_char s"

subsection \<open>Building patterns\<close>

primrec lit :: "pystr \<Rightarrow> re" where
  "lit [] = Eps"
| "lit (c # cs) = Sq (Chr (\<lambda>x. x = c)) (lit cs)"

text \<open>A literal under \<open>re.IGNORECASE\<close>.\<close>

primrec lit_ci :: "pystr \<Rightarrow> re" where
  "lit_ci [] = Eps"
| "lit_ci (c # cs) = Sq (Chr (\<lambda>x. lower_char x = lower_char c)) (lit_ci cs)"

primrec sqs :: "re list \<Rightarrow> re" where
  "sqs [] = Eps"
| "sqs (r # rs) = Sq r (sqs rs)"

definition times :: "nat \<Rightarrow> re \<Rightarrow> re" where
  "times n r = Rp True n (Some n) r"

definition between :: "nat \<Rightarrow> nat \<Rightarrow> re \<Rightarrow> re" where
  "between m n r = Rp True m (Some n) r"

definition at_least :: "nat \<Rightarrow> re \<Rightarrow> re" where
  "at_least m r = Rp True m None r"

definition at_least_lazy :: "nat \<Rightarrow> re \<Rightarrow> re" where
  "at_least_lazy m r = Rp False m None r"

definition opt :: "re \<Rightarrow> re" where
  "opt r = Rp True 0 (Some 1) r"

definition digit :: re where "digit = Chr is_digit"

subsection \<open>The matcher\<close>

fun reps ::
  "(nat \<Rightarrow> (nat \<times> captures) list) \<Rightarrow> bool \<Rightarrow> nat \<Rightarrow> nat \<Rightarrow> nat \<Rightarrow> (nat \<times> captures) list" where
  "reps f greedy mn 0 i = (if mn = 0 then [(i, [])] else [])"
| "reps f greedy mn (Suc n) i =
     (let more = concat (map (\<lambda>(j, c). map (\<lambda>(k, d). (k, d @ c)) (reps f greedy (mn - 1) n j))
                          (filter (\<lambda>(j, c). i < j) (f i)));
          stop = (if mn = 0 then [(i, [])] else [])
      in if greedy then more @ stop else stop @ more)"

definition line_start_at :: "pystr \<Rightarrow> nat \<Rightarrow> bool" where
  "line_start_at s i \<longleftrightarrow> i = 0 \<or> i \<le> length s \<and> s ! (i - 1) = CHR 0x0A"

definition line_end_at :: "pystr \<Rightarrow> nat \<Rightarrow> bool" where
  "line_end_at s i \<longleftrightarrow> i = length s \<or> i < length s \<and> s ! i = CHR 0x0A"

definition word_at :: "pystr \<Rightarrow> nat \<Rightarrow> bool" where
  "word_at s i \<longleftrightarrow> i < length s \<and> is_word (s ! i)"

definition word_bound_at :: "pystr \<Rightarrow> nat \<Rightarrow> bool" where
  "word_bound_at s i \<longleftrightarrow> (0 < i \<and> word_at s (i - 1)) \<noteq> word_at s i"

primrec matches :: "re \<Rightarrow> pystr \<Rightarrow> nat \<Rightarrow> (nat \<times> captures) list" where
  "matches Eps s i = [(i, [])]"
| "matches (Chr p) s i = (if i < length s \<and> p (s ! i) then [(Suc i, [])] else [])"
| "matches (Sq a b) s i =
     concat (map (\<lambda>(j, c). map (\<lambda>(k, d). (k, d @ c)) (matches b s j)) (matches a s i))"
| "matches (Al a b) s i = matches a s i @ matches b s i"
| "matches (Rp greedy mn mx r) s i =
     reps (matches r s) greedy mn (case mx of None \<Rightarrow> length s - i | Some x \<Rightarrow> x) i"
| "matches (Gr g r) s i = map (\<lambda>(j, c). (j, (g, (i, j)) # c)) (matches r s i)"
| "matches LineStart s i = (if line_start_at s i then [(i, [])] else [])"
| "matches LineEnd s i = (if line_end_at s i then [(i, [])] else [])"
| "matches WordBound s i = (if word_bound_at s i then [(i, [])] else [])"

definition re_match :: "re \<Rightarrow> pystr \<Rightarrow> nat \<Rightarrow> (nat \<times> captures) option" where
  "re_match r s i = (case matches r s i of [] \<Rightarrow> None | m # _ \<Rightarrow> Some m)"

definition re_fullmatch :: "re \<Rightarrow> pystr \<Rightarrow> captures option" where
  "re_fullmatch r s = map_option snd (find (\<lambda>(j, c). j = length s) (matches r s 0))"

function re_search_from :: "re \<Rightarrow> pystr \<Rightarrow> nat \<Rightarrow> (nat \<times> nat \<times> captures) option" where
  "re_search_from r s i =
     (if length s < i then None
      else case re_match r s i of
             Some (j, c) \<Rightarrow> Some (i, j, c)
           | None \<Rightarrow> re_search_from r s (Suc i))"
  by pat_completeness auto
termination
  by (relation "measure (\<lambda>(r, s, i). Suc (length s) - i)") auto

declare re_search_from.simps [simp del]

definition re_search :: "re \<Rightarrow> pystr \<Rightarrow> (nat \<times> nat \<times> captures) option" where
  "re_search r s = re_search_from r s 0"

lemma re_search_from_SomeD:
  "re_search_from r s i = Some (a, b, c) \<Longrightarrow> i \<le> a \<and> a \<le> length s \<and> (b, c) \<in> set (matches r s a)"
proof (induction r s i rule: re_search_from.induct)
  case (1 r s i)
  show ?case
  proof (cases "length s < i")
    case True
    with "1.prems" show ?thesis by (simp add: re_search_from.simps [of r s i])
  next
    case False
    show ?thesis
    proof (cases "re_match r s i")
      case None
      with False "1.prems" have "re_search_from r s (Suc i) = Some (a, b, c)"
        by (simp add: re_search_from.simps [of r s i])
      with "1.IH" [OF False None] show ?thesis by simp
    next
      case (Some m)
      with False "1.prems" have "a = i \<and> m = (b, c)"
        by (cases m) (simp add: re_search_from.simps [of r s i])
      with Some False show ?thesis by (auto simp: re_match_def split: list.splits)
    qed
  qed
qed

function re_finditer_from :: "re \<Rightarrow> pystr \<Rightarrow> nat \<Rightarrow> (nat \<times> nat \<times> captures) list" where
  "re_finditer_from r s i =
     (case re_search_from r s i of
        None \<Rightarrow> []
      | Some (a, b, c) \<Rightarrow> (a, b, c) # re_finditer_from r s (if a < b then b else Suc a))"
  by pat_completeness auto
termination
proof (relation "measure (\<lambda>(r, s, i). Suc (length s) - i)", goal_cases)
  case 1
  show ?case by simp
next
  case (2 r s i m a bc b c)
  then show ?case
    using re_search_from_SomeD [of r s i a b c] by auto
qed

declare re_finditer_from.simps [simp del]

definition re_finditer :: "re \<Rightarrow> pystr \<Rightarrow> (nat \<times> nat \<times> captures) list" where
  "re_finditer r s = re_finditer_from r s 0"

subsection \<open>Where a match can lie\<close>

text \<open>A lower bound on what a pattern consumes.\<close>

primrec minlen :: "re \<Rightarrow> nat" where
  "minlen Eps = 0"
| "minlen (Chr p) = 1"
| "minlen (Sq a b) = minlen a + minlen b"
| "minlen (Al a b) = min (minlen a) (minlen b)"
| "minlen (Rp greedy mn mx r) = mn * minlen r"
| "minlen (Gr g r) = minlen r"
| "minlen LineStart = 0"
| "minlen LineEnd = 0"
| "minlen WordBound = 0"

primrec groups_consume :: "re \<Rightarrow> bool" where
  "groups_consume Eps = True"
| "groups_consume (Chr p) = True"
| "groups_consume (Sq a b) = (groups_consume a \<and> groups_consume b)"
| "groups_consume (Al a b) = (groups_consume a \<and> groups_consume b)"
| "groups_consume (Rp greedy mn mx r) = groups_consume r"
| "groups_consume (Gr g r) = (0 < minlen r \<and> groups_consume r)"
| "groups_consume LineStart = True"
| "groups_consume LineEnd = True"
| "groups_consume WordBound = True"

definition well_placed :: "pystr \<Rightarrow> nat \<Rightarrow> nat \<Rightarrow> nat \<times> captures \<Rightarrow> bool" where
  "well_placed s len i m \<longleftrightarrow>
     i + len \<le> fst m \<and> fst m \<le> length s \<and>
     (\<forall>(g, a, b) \<in> set (snd m). i \<le> a \<and> a \<le> b \<and> b \<le> fst m)"

lemma well_placed_trans:
  "well_placed s l i (j, c) \<Longrightarrow> well_placed s l' j (k, d) \<Longrightarrow> well_placed s (l + l') i (k, d @ c)"
  by (fastforce simp: well_placed_def)

lemma well_placed_mono: "well_placed s l i m \<Longrightarrow> l' \<le> l \<Longrightarrow> well_placed s l' i m"
  by (auto simp: well_placed_def)

lemma reps_cases:
  assumes "m \<in> set (reps f g mn n i)"
  obtains (stop) "mn = 0" "m = (i, [])"
  | (more) j c k d n' where "n = Suc n'" "(j, c) \<in> set (f i)" "i < j"
      "(k, d) \<in> set (reps f g (mn - 1) n' j)" "m = (k, d @ c)"
  using assms by (cases n) (auto simp: Let_def split: if_splits)

lemma reps_well_placed:
  assumes step: "\<And>i m. i \<le> length s \<Longrightarrow> m \<in> set (f i) \<Longrightarrow> well_placed s l i m"
  shows "i \<le> length s \<Longrightarrow> m \<in> set (reps f g mn n i) \<Longrightarrow> well_placed s (mn * l) i m"
proof (induction n arbitrary: mn i m)
  case 0
  then show ?case by (auto simp: well_placed_def split: if_splits)
next
  case (Suc n)
  from Suc.prems(2) show ?case
  proof (cases rule: reps_cases)
    case stop
    with Suc.prems(1) show ?thesis by (simp add: well_placed_def)
  next
    case (more j c k d n')
    have first: "well_placed s l i (j, c)" using step Suc.prems(1) more(2) by blast
    then have "j \<le> length s" by (simp add: well_placed_def)
    then have "well_placed s ((mn - 1) * l) j (k, d)" using Suc.IH more(1,4) by blast
    with first have "well_placed s (l + (mn - 1) * l) i m"
      unfolding more(5) by (rule well_placed_trans)
    moreover have "mn * l \<le> l + (mn - 1) * l" by (cases mn) simp_all
    ultimately show ?thesis by (rule well_placed_mono)
  qed
qed

lemma matches_well_placed:
  "i \<le> length s \<Longrightarrow> m \<in> set (matches r s i) \<Longrightarrow> well_placed s (minlen r) i m"
proof (induction r arbitrary: i m)
  case (Sq a b)
  then obtain j c k d where "(j, c) \<in> set (matches a s i)" "(k, d) \<in> set (matches b s j)" "m = (k, d @ c)"
    by auto
  moreover from this Sq have "well_placed s (minlen a) i (j, c)" by blast
  moreover from this have "j \<le> length s" by (simp add: well_placed_def)
  ultimately show ?case using Sq.IH(2) [of j "(k, d)"] by (auto intro: well_placed_trans)
next
  case (Al a b)
  then consider "m \<in> set (matches a s i)" | "m \<in> set (matches b s i)" by auto
  then show ?case
  proof cases
    case 1
    from Al.IH(1) [OF Al.prems(1) this] show ?thesis by (rule well_placed_mono) simp
  next
    case 2
    from Al.IH(2) [OF Al.prems(1) this] show ?thesis by (rule well_placed_mono) simp
  qed
next
  case (Rp g mn mx r)
  then show ?case using reps_well_placed [where f = "matches r s" and l = "minlen r"] by simp
next
  case (Gr g r)
  then show ?case by (fastforce simp: well_placed_def)
qed (auto simp: well_placed_def split: if_splits)

definition captures_consume :: "nat \<times> captures \<Rightarrow> bool" where
  "captures_consume m \<longleftrightarrow> (\<forall>(g, a, b) \<in> set (snd m). a < b)"

lemma reps_captures_consume:
  assumes step: "\<And>i m. i \<le> length s \<Longrightarrow> m \<in> set (f i) \<Longrightarrow> captures_consume m \<and> fst m \<le> length s"
  shows "i \<le> length s \<Longrightarrow> m \<in> set (reps f g mn n i) \<Longrightarrow> captures_consume m"
proof (induction n arbitrary: mn i m)
  case 0
  then show ?case by (auto simp: captures_consume_def split: if_splits)
next
  case (Suc n)
  from Suc.prems(2) show ?case
  proof (cases rule: reps_cases)
    case stop
    then show ?thesis by (simp add: captures_consume_def)
  next
    case (more j c k d n')
    have "captures_consume (j, c)" "j \<le> length s" using step [OF Suc.prems(1) more(2)] by simp_all
    moreover have "captures_consume (k, d)" using Suc.IH more(1,4) \<open>j \<le> length s\<close> by blast
    ultimately show ?thesis by (auto simp: captures_consume_def more(5))
  qed
qed

lemma matches_captures_consume:
  "groups_consume r \<Longrightarrow> i \<le> length s \<Longrightarrow> m \<in> set (matches r s i) \<Longrightarrow> captures_consume m"
proof (induction r arbitrary: i m)
  case (Sq a b)
  from Sq.prems(3) obtain j c k d
    where jk: "(j, c) \<in> set (matches a s i)" "(k, d) \<in> set (matches b s j)" "m = (k, d @ c)"
    by auto
  have "j \<le> length s" using matches_well_placed [OF Sq.prems(2) jk(1)] by (simp add: well_placed_def)
  then have "captures_consume (j, c)" "captures_consume (k, d)"
    using Sq.IH Sq.prems jk by auto
  then show ?case by (auto simp: captures_consume_def jk(3))
next
  case (Rp g mn mx r)
  have "captures_consume m' \<and> fst m' \<le> length s"
    if "i' \<le> length s" "m' \<in> set (matches r s i')" for i' m'
    using Rp.IH [OF _ that] Rp.prems(1) matches_well_placed [OF that] by (simp add: well_placed_def)
  then show ?case using reps_captures_consume [where f = "matches r s" and s = s] Rp.prems(2,3)
    by (metis (no_types, lifting) matches.simps(5))
next
  case (Al a b)
  then show ?case by (metis UnE groups_consume.simps(4) matches.simps(4) set_append)
next
  case (Gr g r)
  then obtain j c where "(j, c) \<in> set (matches r s i)" "m = (j, (g, (i, j)) # c)" by auto
  moreover from this Gr have "captures_consume (j, c)" by simp
  moreover have "i < j" using matches_well_placed [OF Gr.prems(2) calculation(1)] Gr.prems(1)
    by (simp add: well_placed_def)
  ultimately show ?case by (auto simp: captures_consume_def)
qed (auto simp: captures_consume_def split: if_splits)

lemma re_finditer_from_mem:
  "(a, b, c) \<in> set (re_finditer_from r s i) \<Longrightarrow> a \<le> length s \<and> (b, c) \<in> set (matches r s a)"
proof (induction r s i rule: re_finditer_from.induct)
  case (1 r s i)
  show ?case
  proof (cases "re_search_from r s i")
    case None
    with "1.prems" show ?thesis by (simp add: re_finditer_from.simps [of r s i])
  next
    case (Some m)
    obtain a' b' c' where m: "m = (a', b', c')" by (cases m)
    show ?thesis
    proof (cases "(a, b, c) = (a', b', c')")
      case True
      with Some m re_search_from_SomeD [of r s i a' b' c'] show ?thesis by simp
    next
      case False
      with Some m "1.prems" have "(a, b, c) \<in> set (re_finditer_from r s (if a' < b' then b' else Suc a'))"
        by (auto simp: re_finditer_from.simps [of r s i])
      with "1.IH" [OF Some m [symmetric] refl] show ?thesis by blast
    qed
  qed
qed

lemmas re_finditer_mem = re_finditer_from_mem [where i = 0, folded re_finditer_def]

end
