(* ===== verification/Detection.thy ===== *)
theory Detection
  imports Overlap Regex
begin

text \<open>
  \<open>detection/rules.py\<close> and \<open>detection/detector.py\<close>: the regular-expression rules for
  structured identifiers and labelled lines, the search of one rule, and the detector that
  runs every rule and resolves the overlaps; and the text-relative validation of
  \<open>transformations/span_validation.py\<close>. The detector is total on every text, and whatever it
  returns passes that validation.
\<close>

subsection \<open>Text-relative validation\<close>

definition span_matches_text :: "sensitive_span \<Rightarrow> pystr \<Rightarrow> bool" where
  "span_matches_text sp text =
     (if \<not> span_offsets_are_structurally_valid sp then False
      else if hi sp > length text then False
      else slice (lo sp) (hi sp) text = sp_value sp)"

definition spans_are_valid :: "sensitive_span list \<Rightarrow> pystr \<Rightarrow> bool" where
  "spans_are_valid spans text = list_all (\<lambda>sp. span_matches_text sp text) spans"

lemma spans_are_valid_structural: "spans_are_valid spans text \<Longrightarrow> valid_spans spans"
  by (auto simp: spans_are_valid_def span_matches_text_def list_all_iff split: if_splits)

lemma spans_are_valid_subset: "spans_are_valid xs text \<Longrightarrow> set ys \<subseteq> set xs \<Longrightarrow> spans_are_valid ys text"
  by (auto simp: spans_are_valid_def list_all_iff)

subsection \<open>Rules\<close>

record detection_rule =
  dr_category :: pystr
  dr_pattern :: re
  dr_group :: "pystr option"
  dr_confidence :: rat

text \<open>\<open>match.span(group)\<close>: the whole match for group 0, else the group, \<open>None\<close> for the \<open>-1\<close> of an unmatched group.\<close>

definition group_span :: "pystr option \<Rightarrow> nat \<times> nat \<times> captures \<Rightarrow> (nat \<times> nat) option" where
  "group_span g m = (case g of None \<Rightarrow> Some (fst m, fst (snd m)) | Some name \<Rightarrow> map_of (snd (snd m)) name)"

fun find_spans :: "detection_rule \<Rightarrow> pystr \<Rightarrow> (nat \<times> nat \<times> captures) list \<Rightarrow> sensitive_span list result" where
  "find_spans rule text [] = Inr []"
| "find_spans rule text (m # ms) =
     (case group_span (dr_group rule) m of
        None \<Rightarrow> find_spans rule text ms
      | Some (st, en) \<Rightarrow>
          (case mk_span (dr_category rule) (slice st en text) (Some (int st)) (Some (int en))
                  (Some (dr_confidence rule)) of
             Inl e \<Rightarrow> Inl e
           | Inr sp \<Rightarrow>
               (case find_spans rule text ms of Inl e \<Rightarrow> Inl e | Inr sps \<Rightarrow> Inr (sp # sps))))"

definition rule_find :: "detection_rule \<Rightarrow> pystr \<Rightarrow> sensitive_span list result" where
  "rule_find rule text = find_spans rule text (re_finditer (dr_pattern rule) text)"

definition CPF_PATTERN :: re where
  "CPF_PATTERN = sqs [times 3 digit, lit ''.'', times 3 digit, lit ''.'', times 3 digit, lit ''-'', times 2 digit]"

definition CNPJ_PATTERN :: re where
  "CNPJ_PATTERN =
     sqs [times 2 digit, lit ''.'', times 3 digit, lit ''.'', times 3 digit, lit ''/'', times 4 digit,
          lit ''-'', times 2 digit]"

definition is_alpha :: "char \<Rightarrow> bool" where
  "is_alpha c \<longleftrightarrow> is_upper c \<or> is_lower c"

definition EMAIL_PATTERN :: re where
  "EMAIL_PATTERN =
     sqs [at_least 1 (Chr (\<lambda>c. is_alpha c \<or> is_digit c \<or> one_of ''._%+-'' c)), lit ''@'',
          at_least 1 (Chr (\<lambda>c. is_alpha c \<or> is_digit c \<or> one_of ''.-'' c)), lit ''.'',
          at_least 2 (Chr is_alpha)]"

definition PHONE_PATTERN :: re where
  "PHONE_PATTERN =
     sqs [opt (lit ''(''), times 2 digit, opt (lit '')''),
          opt (Chr (\<lambda>c. is_space c \<or> one_of ''.-'' c)), between 4 5 digit, lit ''-'', times 4 digit]"

definition whole_rule :: "pystr \<Rightarrow> re \<Rightarrow> detection_rule" where
  "whole_rule category pattern =
     \<lparr>dr_category = category, dr_pattern = pattern, dr_group = None, dr_confidence = 1\<rparr>"

definition STRUCTURED_RULES :: "detection_rule list" where
  "STRUCTURED_RULES =
     [whole_rule ''cnpj'' CNPJ_PATTERN, whole_rule ''cpf'' CPF_PATTERN,
      whole_rule ''email'' EMAIL_PATTERN, whole_rule ''phone'' PHONE_PATTERN]"

definition labeled_pattern :: "pystr \<Rightarrow> re" where
  "labeled_pattern label =
     sqs [LineStart, lit label, lit '':'', at_least 0 (Chr (one_of [CHR '' '', CHR 0x09])),
          Gr ''value'' (at_least_lazy 1 (Chr (none_of [CHR 0x0D, CHR 0x0A]))),
          at_least 0 (Chr (one_of [CHR '' '', CHR 0x09])), opt (lit [CHR 0x0D]), LineEnd]"

definition labeled_rule :: "pystr \<times> pystr \<Rightarrow> detection_rule" where
  "labeled_rule cl =
     \<lparr>dr_category = fst cl, dr_pattern = labeled_pattern (snd cl), dr_group = Some ''value'',
      dr_confidence = 1\<rparr>"

definition HR_LABELS :: "(pystr \<times> pystr) list" where
  "HR_LABELS =
     [(''employee_name'', ''Employee''), (''salary'', ''Salary''), (''department'', ''Department''),
      (''medical_data'', ''Medical notes'')]"

definition LABELED_HR_RULES :: "detection_rule list" where
  "LABELED_HR_RULES = map labeled_rule HR_LABELS"

definition CONTRACTS_LABELS :: "(pystr \<times> pystr) list" where
  "CONTRACTS_LABELS =
     [(''party_name'', ''Contracting party''), (''party_name'', ''Contracted party''),
      (''representative_name'', ''Representative''), (''bank_account'', ''Bank account''),
      (''contract_value'', ''Contract value''), (''penalty_amount'', ''Penalty''),
      (''deadline'', ''Deadline'')]"

definition LABELED_CONTRACTS_RULES :: "detection_rule list" where
  "LABELED_CONTRACTS_RULES = map labeled_rule CONTRACTS_LABELS"

definition BUILT_IN_RULES :: "detection_rule list" where
  "BUILT_IN_RULES = STRUCTURED_RULES @ LABELED_HR_RULES @ LABELED_CONTRACTS_RULES"

subsection \<open>The detector\<close>

fun collect_raw_spans :: "detection_rule list \<Rightarrow> pystr \<Rightarrow> sensitive_span list result" where
  "collect_raw_spans [] text = Inr []"
| "collect_raw_spans (rule # rules) text =
     (case rule_find rule text of
        Inl e \<Rightarrow> Inl e
      | Inr sps \<Rightarrow> (case collect_raw_spans rules text of Inl e \<Rightarrow> Inl e | Inr rest \<Rightarrow> Inr (sps @ rest)))"

definition detect :: "detection_rule list \<Rightarrow> pystr \<Rightarrow> sensitive_span list result" where
  "detect rules text =
     (case collect_raw_spans rules text of Inl e \<Rightarrow> Inl e | Inr raw \<Rightarrow> resolve_overlaps raw)"

subsection \<open>A well-formed rule never raises and finds only valid spans\<close>

text \<open>A rule whose reported group always consumes, with a confidence in range.\<close>

definition rule_ok :: "detection_rule \<Rightarrow> bool" where
  "rule_ok rule \<longleftrightarrow> 0 \<le> dr_confidence rule \<and> dr_confidence rule \<le> 1 \<and>
     (case dr_group rule of
        None \<Rightarrow> 0 < minlen (dr_pattern rule)
      | Some g \<Rightarrow> groups_consume (dr_pattern rule))"

lemma group_span_bounds:
  assumes "rule_ok rule" and "(a, b, c) \<in> set (re_finditer (dr_pattern rule) text)"
    and "group_span (dr_group rule) (a, b, c) = Some (st, en)"
  shows "st < en \<and> en \<le> length text"
proof -
  have m: "a \<le> length text" "(b, c) \<in> set (matches (dr_pattern rule) text a)"
    using re_finditer_mem [OF assms(2)] by simp_all
  note wp = matches_well_placed [OF m]
  show ?thesis
  proof (cases "dr_group rule")
    case None
    with assms(1,3) wp show ?thesis by (auto simp: rule_ok_def group_span_def well_placed_def)
  next
    case (Some g)
    with assms(1) have "groups_consume (dr_pattern rule)" by (simp add: rule_ok_def)
    then have "captures_consume (b, c)" using m by (rule matches_captures_consume)
    moreover have "(g, st, en) \<in> set c" using assms(3) Some by (auto simp: group_span_def dest: map_of_SomeD)
    ultimately show ?thesis using wp by (fastforce simp: captures_consume_def well_placed_def)
  qed
qed

lemma mk_span_ok:
  assumes "st < en" and "0 \<le> conf" and "conf \<le> 1"
  shows "mk_span cat val (Some (int st)) (Some (int en)) (Some conf) =
           Inr \<lparr>sp_category = cat, sp_value = val, sp_start = Some (int st), sp_end = Some (int en),
                sp_confidence = Some conf\<rparr>"
  using assms by (simp add: mk_span_def not_less)

lemma find_spans_ok:
  assumes "rule_ok rule" and "set ms \<subseteq> set (re_finditer (dr_pattern rule) text)"
  shows "\<exists>sps. find_spans rule text ms = Inr sps \<and>
           list_all (\<lambda>sp. span_matches_text sp text \<and> sp_category sp = dr_category rule) sps"
  using assms(2)
proof (induction ms)
  case Nil
  then show ?case by simp
next
  case (Cons m ms)
  then obtain sps where ih: "find_spans rule text ms = Inr sps"
    "list_all (\<lambda>sp. span_matches_text sp text \<and> sp_category sp = dr_category rule) sps" by auto
  obtain a b c where m: "m = (a, b, c)" by (cases m)
  show ?case
  proof (cases "group_span (dr_group rule) m")
    case None
    with ih show ?thesis by simp
  next
    case (Some se)
    obtain st en where se: "se = (st, en)" by (cases se)
    have b: "st < en" "en \<le> length text"
      using group_span_bounds [OF assms(1), of a b c "text" st en] Cons.prems Some m se by auto
    have "0 \<le> dr_confidence rule" "dr_confidence rule \<le> 1" using assms(1) by (auto simp: rule_ok_def)
    then show ?thesis using ih Some se b
      by (simp add: mk_span_ok span_matches_text_def span_offsets_are_structurally_valid_def lo_def hi_def)
  qed
qed

lemma rule_find_ok:
  assumes "rule_ok rule"
  obtains sps where "rule_find rule text = Inr sps" and "spans_are_valid sps text"
    and "\<forall>sp \<in> set sps. sp_category sp = dr_category rule"
  using find_spans_ok [OF assms order_refl, of "text"] that
  by (auto simp: rule_find_def spans_are_valid_def list_all_iff)

lemma collect_raw_spans_ok:
  assumes "list_all rule_ok rules"
  obtains raw where "collect_raw_spans rules text = Inr raw" and "spans_are_valid raw text"
    and "sp_category ` set raw \<subseteq> dr_category ` set rules"
  using assms
proof (induction rules arbitrary: thesis)
  case Nil
  then show ?case by (simp add: spans_are_valid_def)
next
  case (Cons rule rules)
  obtain raw where raw: "collect_raw_spans rules text = Inr raw" "spans_are_valid raw text"
    "sp_category ` set raw \<subseteq> dr_category ` set rules"
    using Cons.IH Cons.prems(2) by auto
  obtain sps where sps: "rule_find rule text = Inr sps" "spans_are_valid sps text"
    "\<forall>sp \<in> set sps. sp_category sp = dr_category rule"
    using Cons.prems(2) rule_find_ok [of rule "text"] by auto
  show ?case
    by (rule Cons.prems(1) [of "sps @ raw"]) (use raw sps in \<open>auto simp: spans_are_valid_def\<close>)
qed

lemma detect_ok:
  assumes "list_all rule_ok rules"
  obtains sps where "detect rules text = Inr sps" and "spans_are_valid sps text"
    and "resolve_overlaps sps = Inr sps" and "sp_category ` set sps \<subseteq> dr_category ` set rules"
proof -
  obtain raw where raw: "collect_raw_spans rules text = Inr raw" "spans_are_valid raw text"
    "sp_category ` set raw \<subseteq> dr_category ` set rules"
    by (rule collect_raw_spans_ok [OF assms])
  obtain sps where sps: "resolve_overlaps raw = Inr sps"
    using resolve_overlaps_total spans_are_valid_structural [OF raw(2)] by blast
  show ?thesis
  proof (rule that)
    show "detect rules text = Inr sps" by (simp add: detect_def raw(1) sps)
    show "spans_are_valid sps text"
      using raw(2) resolve_overlaps_subset [OF sps] by (rule spans_are_valid_subset)
    show "resolve_overlaps sps = Inr sps" by (rule resolve_overlaps_idem [OF sps])
    show "sp_category ` set sps \<subseteq> dr_category ` set rules"
      using raw(3) resolve_overlaps_subset [OF sps] by blast
  qed
qed

lemma minlen_lit [simp]: "minlen (lit s) = length s"
  by (induction s) simp_all

lemma groups_consume_lit [simp]: "groups_consume (lit s)"
  by (induction s) simp_all

lemmas pattern_defs =
  CPF_PATTERN_def CNPJ_PATTERN_def EMAIL_PATTERN_def PHONE_PATTERN_def labeled_pattern_def
  times_def between_def at_least_def at_least_lazy_def opt_def digit_def

lemma built_in_rules_ok: "list_all rule_ok BUILT_IN_RULES"
  by (simp add: BUILT_IN_RULES_def STRUCTURED_RULES_def LABELED_HR_RULES_def LABELED_CONTRACTS_RULES_def
      HR_LABELS_def CONTRACTS_LABELS_def labeled_rule_def whole_rule_def rule_ok_def pattern_defs)

subsection \<open>Properties\<close>

text \<open>
  on every text the built-in detector returns, and what it returns are spans of the text: each has a category
  one of the rules reports, its value is the text between its offsets, and each span ends before the next begins.
\<close>

theorem detector_total:
  "\<exists>sps. detect BUILT_IN_RULES text = Inr sps \<and> spans_are_valid sps text \<and>
     sorted_wrt (\<lambda>a b. hi a \<le> lo b) sps \<and> sp_category ` set sps \<subseteq> dr_category ` set BUILT_IN_RULES"
proof -
  obtain sps where "detect BUILT_IN_RULES text = Inr sps" "spans_are_valid sps text"
    "resolve_overlaps sps = Inr sps" "sp_category ` set sps \<subseteq> dr_category ` set BUILT_IN_RULES"
    by (rule detect_ok [OF built_in_rules_ok])
  with resolve_overlaps_chain show ?thesis by blast
qed

end
