(* ===== verification/Policies.thy ===== *)
theory Policies
  imports Domain
begin

text \<open>
  \<open>policies.py\<close>: the policy documents, the repository that loads them, the decision per
  category, the authorization of reconstruction and the resolution of the pseudonym scope.
  Parsing a YAML file and validating it against the models is done by third-party code, so
  the reading of one file is a parameter: it yields a document, or raises one of the four exceptions that the loop
  catches and records by its message, or raises another one, which leaves \<open>from_directory\<close> with nothing loaded.
\<close>

record policy_override =
  ov_action :: disclosure_action
  ov_purpose :: "pystr option"
  ov_requester_role :: "pystr option"
  ov_provider_class :: "pystr option"
  ov_allowed_actions :: "disclosure_action list"

record policy_rule =
  ru_default :: disclosure_action
  ru_allowed_actions :: "disclosure_action list"
  ru_purpose_actions :: "(pystr, disclosure_action list) dict"
  ru_overrides :: "policy_override list"

record pseudonym_scope_policy =
  sc_default :: pseudonym_scope
  sc_role_max :: "(pystr, pseudonym_scope) dict"
  sc_user_max :: "(pystr, pseudonym_scope) dict"

record policy_document =
  po_version :: pystr
  po_domain :: pystr
  po_rules :: "(pystr, policy_rule) dict"
  po_pseudonym_scope :: pseudonym_scope_policy

record policy_repository =
  re_policies :: "(pystr, policy_document) dict"
  re_load_errors :: "(pystr, pystr) dict"

definition override_matches :: "policy_override \<Rightarrow> governance_context \<Rightarrow> bool" where
  "override_matches ov ctx \<longleftrightarrow>
     (ov_purpose ov = None \<or> ov_purpose ov = Some (ctx_purpose ctx)) \<and>
     (ov_requester_role ov = None \<or> ov_requester_role ov = ctx_requester_role ctx) \<and>
     (ov_provider_class ov = None \<or> ov_provider_class ov = Some (ctx_provider_class ctx))"

subsection \<open>Loading a directory\<close>

datatype policy_reading =
    Policy_Read policy_document
  | Policy_Recorded pystr
  | Policy_Raises reading_error

definition load_one ::
  "('f \<Rightarrow> policy_reading) \<Rightarrow> policy_repository \<Rightarrow> pystr \<times> 'f \<Rightarrow> reading_error + policy_repository" where
  "load_one loader repo file =
     (case loader (snd file) of
        Policy_Raises e \<Rightarrow> Inl e
      | Policy_Recorded err \<Rightarrow> Inr (repo\<lparr>re_load_errors := dict_set (re_load_errors repo) (fst file) err\<rparr>)
      | Policy_Read doc \<Rightarrow>
          if dict_has (re_policies repo) (po_version doc) then
            Inr (repo\<lparr>re_load_errors := dict_set (re_load_errors repo) (fst file)
                                          (''duplicate policy version: '' @ po_version doc),
                      re_policies := dict_pop (re_policies repo) (po_version doc)\<rparr>)
          else Inr (repo\<lparr>re_policies := dict_set (re_policies repo) (po_version doc) doc\<rparr>))"

fun load_policies ::
  "('f \<Rightarrow> policy_reading) \<Rightarrow> policy_repository \<Rightarrow> (pystr \<times> 'f) list \<Rightarrow> reading_error + policy_repository" where
  "load_policies loader repo [] = Inr repo"
| "load_policies loader repo (file # files) =
     (case load_one loader repo file of
        Inl e \<Rightarrow> Inl e
      | Inr repo' \<Rightarrow> load_policies loader repo' files)"

definition from_directory ::
  "('f \<Rightarrow> policy_reading) \<Rightarrow> (pystr \<times> 'f) list \<Rightarrow> reading_error + policy_repository" where
  "from_directory loader files =
     load_policies loader \<lparr>re_policies = [], re_load_errors = []\<rparr> (sort_key fst files)"

subsection \<open>Decisions\<close>

definition policy_block :: "pystr \<Rightarrow> governance_context \<Rightarrow> pystr \<Rightarrow> policy_decision" where
  "policy_block category ctx reason =
     (plain_decision category BLOCK_REQUEST reason [])\<lparr>pd_policy_version := Some (ctx_policy_version ctx)\<rparr>"

definition decide :: "policy_repository \<Rightarrow> governance_context \<Rightarrow> pystr \<Rightarrow> policy_decision" where
  "decide repo ctx category =
     (case dict_get (re_policies repo) (ctx_policy_version ctx) of
        None \<Rightarrow> policy_block category ctx ''Policy version is missing or failed to load''
      | Some policy \<Rightarrow>
      if po_domain policy \<noteq> ctx_domain ctx then
        policy_block category ctx ''Policy domain does not match governance context''
      else case dict_get (po_rules policy) category of
        None \<Rightarrow> policy_block category ctx ''Missing rule for sensitive category''
      | Some rule \<Rightarrow>
      let matching = filter (\<lambda>ov. override_matches ov ctx) (ru_overrides rule) in
      if length matching > 1 then policy_block category ctx ''Ambiguous policy overrides''
      else
        let (action, allowed, reason) =
              (case matching of
                 ov # _ \<Rightarrow> (ov_action ov, ov_allowed_actions ov,
                            ''Matched explicit contextual policy override'')
               | [] \<Rightarrow> (ru_default rule, ru_allowed_actions rule,
                         ''Applied deterministic default policy rule''))
        in if action = TASK_DEPENDENT then
             (let allowed' = dict_get_default (ru_purpose_actions rule) (ctx_purpose ctx) allowed in
              if allowed' = [] then
                policy_block category ctx ''Task-dependent rule has no permitted action space''
              else (plain_decision category action
                      ''Task-dependent decision constrained to policy-permitted actions'' allowed')
                   \<lparr>pd_policy_version := Some (po_version policy)\<rparr>)
           else (plain_decision category action reason allowed)
                \<lparr>pd_policy_version := Some (po_version policy)\<rparr>)"

definition is_reconstruction_authorized :: "policy_repository \<Rightarrow> governance_context \<Rightarrow> bool" where
  "is_reconstruction_authorized repo ctx =
     (case dict_get (re_policies repo) (ctx_policy_version ctx) of
        None \<Rightarrow> False
      | Some policy \<Rightarrow> po_domain policy = ctx_domain ctx)"

definition scope_ceiling :: "pseudonym_scope_policy \<Rightarrow> governance_context \<Rightarrow> pseudonym_scope" where
  "scope_ceiling sp ctx =
     (let c0 = sc_default sp;
          c1 = (case ctx_requester_role ctx of
                  None \<Rightarrow> c0 | Some role \<Rightarrow> dict_get_default (sc_role_max sp) role c0)
      in case ctx_requester_id ctx of
           None \<Rightarrow> c1 | Some uid \<Rightarrow> dict_get_default (sc_user_max sp) uid c1)"

definition resolve_pseudonym_scope :: "policy_repository \<Rightarrow> governance_context \<Rightarrow> pseudonym_scope" where
  "resolve_pseudonym_scope repo ctx =
     (case dict_get (re_policies repo) (ctx_policy_version ctx) of
        None \<Rightarrow> REQUEST
      | Some policy \<Rightarrow>
          if po_domain policy \<noteq> ctx_domain ctx then REQUEST
          else
            let ceiling = scope_ceiling (po_pseudonym_scope policy) ctx;
                requested = ctx_requested_scope ctx
            in if scope_rank requested \<le> scope_rank ceiling then requested else ceiling)"

subsection \<open>Facts\<close>

text \<open>The rule that governs a category in a context, when the repository resolves one.\<close>

definition governing_rule :: "policy_repository \<Rightarrow> governance_context \<Rightarrow> pystr \<Rightarrow> policy_rule option" where
  "governing_rule repo ctx category =
     (case dict_get (re_policies repo) (ctx_policy_version ctx) of
        None \<Rightarrow> None
      | Some policy \<Rightarrow>
          if po_domain policy = ctx_domain ctx then dict_get (po_rules policy) category else None)"

text \<open>What a rule says in a context: the one matching override, or else the default.\<close>

definition rule_choice ::
  "policy_rule \<Rightarrow> governance_context \<Rightarrow> (disclosure_action \<times> disclosure_action list) option" where
  "rule_choice rule ctx =
     (case filter (\<lambda>ov. override_matches ov ctx) (ru_overrides rule) of
        [] \<Rightarrow> Some (ru_default rule, ru_allowed_actions rule)
      | [ov] \<Rightarrow> Some (ov_action ov, ov_allowed_actions ov)
      | _ \<Rightarrow> None)"

definition task_space :: "policy_rule \<Rightarrow> governance_context \<Rightarrow> disclosure_action list \<Rightarrow> disclosure_action list" where
  "task_space rule ctx allowed = dict_get_default (ru_purpose_actions rule) (ctx_purpose ctx) allowed"

lemma policy_block_simps [simp]:
  "pd_category (policy_block c ctx r) = c"
  "pd_action (policy_block c ctx r) = BLOCK_REQUEST"
  "pd_allowed_actions (policy_block c ctx r) = []"
  "pd_reason (policy_block c ctx r) = r"
  "pd_policy_version (policy_block c ctx r) = Some (ctx_policy_version ctx)"
  by (simp_all add: policy_block_def plain_decision_def)

lemma decide_category [simp]: "pd_category (decide repo ctx category) = category"
  by (simp add: decide_def Let_def plain_decision_def split: option.splits list.splits)

lemma decide_version_present: "pd_policy_version (decide repo ctx category) \<noteq> None"
  by (simp add: decide_def Let_def plain_decision_def split: option.splits list.splits)

lemma decide_no_rule:
  "governing_rule repo ctx category = None \<Longrightarrow> pd_action (decide repo ctx category) = BLOCK_REQUEST"
  by (auto simp: governing_rule_def decide_def split: option.splits if_splits)

lemma governing_ruleE:
  assumes "governing_rule repo ctx category = Some rule"
  obtains policy where "dict_get (re_policies repo) (ctx_policy_version ctx) = Some policy"
    and "po_domain policy = ctx_domain ctx" and "dict_get (po_rules policy) category = Some rule"
  using assms by (auto simp: governing_rule_def split: option.splits if_splits)

text \<open>What \<open>decide\<close> returns once a rule governs the category, by the choice the rule makes.\<close>

lemma decide_ambiguous:
  assumes "governing_rule repo ctx category = Some rule" and "rule_choice rule ctx = None"
  shows "decide repo ctx category = policy_block category ctx ''Ambiguous policy overrides''"
proof -
  obtain policy where p: "dict_get (re_policies repo) (ctx_policy_version ctx) = Some policy"
    "po_domain policy = ctx_domain ctx" "dict_get (po_rules policy) category = Some rule"
    by (rule governing_ruleE [OF assms(1)])
  have "length (filter (\<lambda>ov. override_matches ov ctx) (ru_overrides rule)) > 1"
    using assms(2) by (auto simp: rule_choice_def split: list.splits)
  with p show ?thesis by (simp add: decide_def Let_def)
qed

lemma decide_chosen:
  assumes "governing_rule repo ctx category = Some rule" and "rule_choice rule ctx = Some (a, al)"
  shows "pd_action (decide repo ctx category) =
           (if a = TASK_DEPENDENT \<and> task_space rule ctx al = [] then BLOCK_REQUEST else a)"
    and "pd_allowed_actions (decide repo ctx category) =
           (if a = TASK_DEPENDENT then task_space rule ctx al else al)"
proof -
  obtain policy where p: "dict_get (re_policies repo) (ctx_policy_version ctx) = Some policy"
    "po_domain policy = ctx_domain ctx" "dict_get (po_rules policy) category = Some rule"
    by (rule governing_ruleE [OF assms(1)])
  consider
    (default) "filter (\<lambda>ov. override_matches ov ctx) (ru_overrides rule) = []"
      "a = ru_default rule" "al = ru_allowed_actions rule"
  | (one) ov where "filter (\<lambda>ov. override_matches ov ctx) (ru_overrides rule) = [ov]"
      "a = ov_action ov" "al = ov_allowed_actions ov"
    using assms(2) by (auto simp: rule_choice_def split: list.splits)
  note split = this
  show "pd_action (decide repo ctx category) =
           (if a = TASK_DEPENDENT \<and> task_space rule ctx al = [] then BLOCK_REQUEST else a)"
    using p by (cases rule: split) (simp_all add: decide_def Let_def task_space_def plain_decision_def)
  show "pd_allowed_actions (decide repo ctx category) =
           (if a = TASK_DEPENDENT then task_space rule ctx al else al)"
    using p by (cases rule: split) (simp_all add: decide_def Let_def task_space_def plain_decision_def)
qed

lemma decide_not_blockE:
  assumes "pd_action (decide repo ctx category) \<noteq> BLOCK_REQUEST"
  obtains rule a al where "governing_rule repo ctx category = Some rule"
    and "rule_choice rule ctx = Some (a, al)" and "pd_action (decide repo ctx category) = a"
    and "pd_allowed_actions (decide repo ctx category) =
           (if a = TASK_DEPENDENT then task_space rule ctx al else al)"
    and "a = TASK_DEPENDENT \<Longrightarrow> task_space rule ctx al \<noteq> []"
proof -
  obtain rule where r: "governing_rule repo ctx category = Some rule"
    using assms decide_no_rule by (cases "governing_rule repo ctx category") auto
  obtain a al where c: "rule_choice rule ctx = Some (a, al)"
    using assms decide_ambiguous [OF r] by (cases "rule_choice rule ctx") auto
  show ?thesis
    using that [OF r c] decide_chosen [OF r c] assms by (auto split: if_splits)
qed

lemma decide_task_dependent_space:
  "pd_action (decide repo ctx category) = TASK_DEPENDENT \<Longrightarrow>
     pd_allowed_actions (decide repo ctx category) \<noteq> []"
  by (rule decide_not_blockE [of repo ctx category]) (auto split: if_splits)

lemma resolve_scope_unauthorized:
  "\<not> is_reconstruction_authorized repo ctx \<Longrightarrow> resolve_pseudonym_scope repo ctx = REQUEST"
  by (auto simp: is_reconstruction_authorized_def resolve_pseudonym_scope_def split: option.splits)

lemma resolve_scope_le_requested: "resolve_pseudonym_scope repo ctx \<le> ctx_requested_scope ctx"
  by (cases "ctx_requested_scope ctx")
    (auto simp: resolve_pseudonym_scope_def less_eq_pseudonym_scope_def Let_def split: option.splits)

lemma resolve_scope_le_ceiling:
  assumes "dict_get (re_policies repo) (ctx_policy_version ctx) = Some policy"
    and "po_domain policy = ctx_domain ctx"
  shows "resolve_pseudonym_scope repo ctx \<le> scope_ceiling (po_pseudonym_scope policy) ctx"
  using assms
  by (auto simp: resolve_pseudonym_scope_def less_eq_pseudonym_scope_def Let_def)

subsection \<open>Facts about loading\<close>

text \<open>How many of the files carry a document of the given version.\<close>

definition version_count :: "('f \<Rightarrow> policy_reading) \<Rightarrow> pystr \<Rightarrow> (pystr \<times> 'f) list \<Rightarrow> nat" where
  "version_count loader v files =
     length (filter (\<lambda>f. case loader (snd f) of Policy_Read d \<Rightarrow> po_version d = v | _ \<Rightarrow> False) files)"

lemma load_one_get:
  "load_one loader repo f = Inr repo' \<Longrightarrow>
   dict_get (re_policies repo') v =
     (case loader (snd f) of
        Policy_Read d \<Rightarrow>
          if po_version d = v then
            (if dict_get (re_policies repo) v = None then Some d else None)
          else dict_get (re_policies repo) v
      | _ \<Rightarrow> dict_get (re_policies repo) v)"
  by (auto simp: load_one_def dict_has_get split: policy_reading.splits if_splits)

lemma load_policies_parity:
  "load_policies loader repo files = Inr repo' \<Longrightarrow>
   (dict_get (re_policies repo') v \<noteq> None) =
     (odd (version_count loader v files) \<noteq> (dict_get (re_policies repo) v \<noteq> None))"
proof (induction files arbitrary: repo)
  case Nil
  then show ?case by (simp add: version_count_def)
next
  case (Cons f files)
  obtain mid where mid: "load_one loader repo f = Inr mid" and rest: "load_policies loader mid files = Inr repo'"
    using Cons.prems by (auto split: sum.splits)
  show ?case
    using Cons.IH [OF rest] load_one_get [OF mid, of v]
    by (auto simp: version_count_def split: policy_reading.splits if_splits)
qed

text \<open>A load is given up exactly when the reading of some file raises what the loop does not catch.\<close>

lemma load_one_raises: "load_one loader repo f = Inl e \<longleftrightarrow> loader (snd f) = Policy_Raises e"
  by (auto simp: load_one_def split: policy_reading.splits)

lemma load_policies_total:
  "(\<exists>repo'. load_policies loader repo files = Inr repo') \<longleftrightarrow> (\<forall>f \<in> set files. \<forall>e. loader (snd f) \<noteq> Policy_Raises e)"
proof (induction files arbitrary: repo)
  case (Cons f files)
  show ?case
  proof (cases "load_one loader repo f")
    case (Inl e)
    then have "loader (snd f) = Policy_Raises e" by (simp only: load_one_raises)
    with Inl show ?thesis by simp
  next
    case (Inr mid)
    then have "loader (snd f) \<noteq> Policy_Raises e" for e
      using load_one_raises [of loader repo f e] by auto
    with Inr Cons.IH [of mid] show ?thesis by simp
  qed
qed simp

lemma load_policies_raises:
  "load_policies loader repo files = Inl e \<Longrightarrow> \<exists>f \<in> set files. loader (snd f) = Policy_Raises e"
  by (induction files arbitrary: repo) (auto simp: load_one_raises split: sum.splits)

lemma from_directory_total:
  "(\<exists>repo. from_directory loader files = Inr repo) \<longleftrightarrow> (\<forall>f \<in> set files. \<forall>e. loader (snd f) \<noteq> Policy_Raises e)"
  by (simp add: from_directory_def load_policies_total)

lemma from_directory_raises:
  "from_directory loader files = Inl e \<Longrightarrow> \<exists>f \<in> set files. loader (snd f) = Policy_Raises e"
  using load_policies_raises [of loader _ "sort_key fst files" e] by (simp add: from_directory_def)

lemma version_count_sort_key [simp]: "version_count loader v (sort_key fst files) = version_count loader v files"
proof -
  have "mset (filter P (sort_key fst files)) = mset (filter P files)" for P :: "pystr \<times> 'a \<Rightarrow> bool"
    by simp
  then show ?thesis
    unfolding version_count_def by (rule mset_eq_length)
qed

lemma from_directory_parity:
  "from_directory loader files = Inr repo \<Longrightarrow>
     (dict_get (re_policies repo) v \<noteq> None) = odd (version_count loader v files)"
  unfolding from_directory_def by (drule load_policies_parity [of _ _ _ _ v]) simp

subsection \<open>Properties\<close>

text \<open>
  C21: policy resolution fails closed. A category is not blocked only if the named version is loaded, its domain is
  the context's, it has a rule for the category, and the rule makes one choice in the context (its default, or the
  single override that matches); the action is then that choice, and a task-dependent choice comes with a
  nonempty action space. In every other case the action is \<open>BLOCK_REQUEST\<close>.
\<close>

theorem decide_fails_closed:
  "case governing_rule repo ctx category of
     None \<Rightarrow> pd_action (decide repo ctx category) = BLOCK_REQUEST
   | Some rule \<Rightarrow>
       (case rule_choice rule ctx of
          None \<Rightarrow> pd_action (decide repo ctx category) = BLOCK_REQUEST
        | Some (a, al) \<Rightarrow>
            pd_action (decide repo ctx category) =
              (if a = TASK_DEPENDENT \<and> task_space rule ctx al = [] then BLOCK_REQUEST else a) \<and>
            pd_allowed_actions (decide repo ctx category) = (if a = TASK_DEPENDENT then task_space rule ctx al else al))"
proof (cases "governing_rule repo ctx category")
  case None
  then show ?thesis by (simp add: decide_no_rule)
next
  case (Some rule)
  then show ?thesis
    using decide_chosen [OF Some] decide_ambiguous [OF Some] by (simp split: option.split)
qed

text \<open>
  C22: the pseudonym scope never exceeds what was requested nor the ceiling of the policy for the requester, and
  is the narrowest one when no policy of the context's domain is loaded.
\<close>

theorem pseudonym_scope_bounded:
  "resolve_pseudonym_scope repo ctx \<le> ctx_requested_scope ctx \<and>
   (case dict_get (re_policies repo) (ctx_policy_version ctx) of
      None \<Rightarrow> resolve_pseudonym_scope repo ctx = REQUEST
    | Some policy \<Rightarrow>
        if po_domain policy = ctx_domain ctx
        then resolve_pseudonym_scope repo ctx \<le> scope_ceiling (po_pseudonym_scope policy) ctx
        else resolve_pseudonym_scope repo ctx = REQUEST)"
  using resolve_scope_le_requested [of repo ctx] resolve_scope_le_ceiling [of repo ctx]
    resolve_scope_unauthorized [of repo ctx]
  by (auto simp: is_reconstruction_authorized_def split: option.split)

text \<open>
  after loading a directory, a policy version resolves exactly when an odd number of the files carry it: two
  files of one version cancel each other, as intended, but a third one brings the version back.
\<close>

theorem duplicate_versions_parity:
  "from_directory loader files = Inr repo \<Longrightarrow>
     (dict_get (re_policies repo) v \<noteq> None) \<longleftrightarrow> odd (version_count loader v files)"
  by (rule from_directory_parity)

text \<open>
  a policy file that is not UTF-8 is not recorded as a load error: nothing is loaded, whatever the other files are.
\<close>

theorem undecodable_policy_stops_the_load:
  "from_directory loader files = Inr repo \<Longrightarrow> f \<in> set files \<Longrightarrow> loader (snd f) \<noteq> Policy_Raises Unicode_Decode_Error"
  using from_directory_total [of loader files] by blast

end
