(* ===== verification/Regex_Language.thy ===== *)
theory Regex_Language
  imports Regex
begin

text \<open>
  The declarative meaning of a pattern, and the proof that the backtracking matcher of \<open>Regex\<close>
  implements it: every match spells a word of the language, every capture a word of its
  group's language, and a pattern without anchors finds every word of its language.
\<close>

primrec lang :: "re \<Rightarrow> pystr set" where
  "lang Eps = {[]}"
| "lang (Chr p) = {[c] |c. p c}"
| "lang (Sq a b) = {u @ v |u v. u \<in> lang a \<and> v \<in> lang b}"
| "lang (Al a b) = lang a \<union> lang b"
| "lang (Rp greedy mn mx r) =
     {concat ws |ws. set ws \<subseteq> lang r - {[]} \<and> mn \<le> length ws \<and>
        (case mx of None \<Rightarrow> True | Some x \<Rightarrow> length ws \<le> x)}"
| "lang (Gr g r) = lang r"
| "lang LineStart = {[]}"
| "lang LineEnd = {[]}"
| "lang WordBound = {[]}"

primrec anchor_free :: "re \<Rightarrow> bool" where
  "anchor_free Eps = True"
| "anchor_free (Chr p) = True"
| "anchor_free (Sq a b) = (anchor_free a \<and> anchor_free b)"
| "anchor_free (Al a b) = (anchor_free a \<and> anchor_free b)"
| "anchor_free (Rp greedy mn mx r) = anchor_free r"
| "anchor_free (Gr g r) = anchor_free r"
| "anchor_free LineStart = False"
| "anchor_free LineEnd = False"
| "anchor_free WordBound = False"

primrec groups :: "re \<Rightarrow> (pystr \<times> re) list" where
  "groups Eps = []"
| "groups (Chr p) = []"
| "groups (Sq a b) = groups a @ groups b"
| "groups (Al a b) = groups a @ groups b"
| "groups (Rp greedy mn mx r) = groups r"
| "groups (Gr g r) = (g, r) # groups r"
| "groups LineStart = []"
| "groups LineEnd = []"
| "groups WordBound = []"

subsection \<open>Every match spells a word\<close>

lemma matches_SqE:
  assumes "(j, c) \<in> set (matches (Sq a b) s i)"
  obtains k d e where "(k, d) \<in> set (matches a s i)" and "(j, e) \<in> set (matches b s k)" and "c = e @ d"
  using assms by auto

lemma matches_ChrE:
  assumes "(j, c) \<in> set (matches (Chr p) s i)"
  obtains "i < length s" and "p (s ! i)" and "j = Suc i" and "c = []"
  using assms by (auto split: if_splits)

lemma matches_end: "i \<le> length s \<Longrightarrow> (j, c) \<in> set (matches r s i) \<Longrightarrow> i \<le> j \<and> j \<le> length s"
  using matches_well_placed [of i s "(j, c)" r] by (simp add: well_placed_def)

lemma slice_snoc_nth: "i < length s \<Longrightarrow> slice i (Suc i) s = [s ! i]"
  by (simp add: slice_def take_Suc_conv_app_nth Suc_diff_le hd_drop_conv_nth [symmetric] drop_eq_Nil take_Suc)

lemma reps_spells:
  assumes step: "\<And>i j c. i \<le> length s \<Longrightarrow> (j, c) \<in> set (f i) \<Longrightarrow> slice i j s \<in> A \<and> j \<le> length s"
  shows "i \<le> length s \<Longrightarrow> (j, c) \<in> set (reps f g mn n i) \<Longrightarrow>
    \<exists>ws. slice i j s = concat ws \<and> set ws \<subseteq> A - {[]} \<and> mn \<le> length ws \<and> length ws \<le> n \<and> i \<le> j"
proof (induction n arbitrary: mn i j c)
  case 0
  then show ?case by (auto split: if_splits)
next
  case (Suc n)
  from Suc.prems(2) show ?case
  proof (cases rule: reps_cases)
    case stop
    then show ?thesis by (intro exI [of _ "[]"]) simp
  next
    case (more k e j' d n')
    have k: "slice i k s \<in> A" "k \<le> length s" using step [OF Suc.prems(1) more(2)] by simp_all
    have "(j, d) \<in> set (reps f g (mn - 1) n k)" using more by simp
    from Suc.IH [OF k(2) this] obtain ws where ws: "slice k j s = concat ws" "set ws \<subseteq> A - {[]}"
      "mn - 1 \<le> length ws" "length ws \<le> n" "k \<le> j" by blast
    have "slice i k s \<noteq> []"
      using more(3) k(2) by (metis length_slice list.size(3) not_le diff_is_0_eq)
    moreover have "slice i j s = slice i k s @ slice k j s"
      using more(3) ws(5) by (simp add: slice_append_slice)
    ultimately have "slice i j s = concat (slice i k s # ws) \<and> set (slice i k s # ws) \<subseteq> A - {[]} \<and>
        mn \<le> length (slice i k s # ws) \<and> length (slice i k s # ws) \<le> Suc n \<and> i \<le> j"
      using ws k more(3) by auto
    then show ?thesis by blast
  qed
qed

lemma matches_lang: "i \<le> length s \<Longrightarrow> (j, c) \<in> set (matches r s i) \<Longrightarrow> slice i j s \<in> lang r"
proof (induction r arbitrary: i j c)
  case (Sq a b)
  from Sq.prems(2) obtain k d e where kd: "(k, d) \<in> set (matches a s i)" "(j, e) \<in> set (matches b s k)"
    by auto
  have k: "i \<le> k" "k \<le> length s" using matches_end [OF Sq.prems(1) kd(1)] by simp_all
  have "k \<le> j" using matches_end [OF k(2) kd(2)] by simp
  then have "slice i j s = slice i k s @ slice k j s" using k by (simp add: slice_append_slice)
  moreover have "slice i k s \<in> lang a" "slice k j s \<in> lang b"
    using Sq.IH kd k(2) Sq.prems(1) by blast+
  ultimately show ?case by auto
next
  case (Rp g mn mx r)
  have step: "\<And>i j c. i \<le> length s \<Longrightarrow> (j, c) \<in> set (matches r s i) \<Longrightarrow> slice i j s \<in> lang r \<and> j \<le> length s"
    using Rp.IH matches_end by blast
  from Rp.prems(2) have "(j, c) \<in> set (reps (matches r s) g mn (case mx of None \<Rightarrow> length s - i | Some x \<Rightarrow> x) i)"
    by simp
  then have "\<exists>ws. slice i j s = concat ws \<and> set ws \<subseteq> lang r - {[]} \<and> mn \<le> length ws \<and>
      length ws \<le> (case mx of None \<Rightarrow> length s - i | Some x \<Rightarrow> x) \<and> i \<le> j"
    using reps_spells [of s "matches r s" "lang r"] step Rp.prems(1) by blast
  then obtain ws where "slice i j s = concat ws" "set ws \<subseteq> lang r - {[]}" "mn \<le> length ws"
    "length ws \<le> (case mx of None \<Rightarrow> length s - i | Some x \<Rightarrow> x)" by blast
  then show ?case unfolding lang.simps
    by (intro CollectI exI [of _ ws]) (simp split: option.splits)
qed (auto simp: slice_snoc_nth split: if_splits)

lemma fullmatch_lang:
  assumes "re_fullmatch r s = Some c"
  shows "s \<in> lang r" and "(length s, c) \<in> set (matches r s 0)"
proof -
  from assms obtain m where m: "find (\<lambda>(j, c). j = length s) (matches r s 0) = Some m" "snd m = c"
    by (auto simp: re_fullmatch_def)
  then show mem: "(length s, c) \<in> set (matches r s 0)"
    by (auto simp: find_Some_iff) (metis nth_mem prod.collapse)
  from matches_lang [OF _ mem] show "s \<in> lang r" by (simp add: slice_def)
qed

subsection \<open>Every capture spells a word of its group\<close>

lemma reps_captures:
  assumes step: "\<And>i j c. i \<le> length s \<Longrightarrow> (j, c) \<in> set (f i) \<Longrightarrow> set c \<subseteq> B \<and> j \<le> length s"
  shows "i \<le> length s \<Longrightarrow> (j, c) \<in> set (reps f g mn n i) \<Longrightarrow> set c \<subseteq> B"
proof (induction n arbitrary: mn i j c)
  case 0
  then show ?case by (auto split: if_splits)
next
  case (Suc n)
  from Suc.prems(2) show ?case
  proof (cases rule: reps_cases)
    case stop
    then show ?thesis by simp
  next
    case (more k e j' d n')
    have k: "set e \<subseteq> B" "k \<le> length s" using step [OF Suc.prems(1) more(2)] by simp_all
    have "(j, d) \<in> set (reps f g (mn - 1) n k)" using more by simp
    from Suc.IH [OF k(2) this] show ?thesis using k more by auto
  qed
qed

lemma matches_captures:
  assumes "i \<le> length s" and "(j, c) \<in> set (matches r s i)"
  shows "set c \<subseteq> {(g, a, b). \<exists>r'. (g, r') \<in> set (groups r) \<and> slice a b s \<in> lang r'}"
  using assms
proof (induction r arbitrary: i j c)
  case (Sq a b)
  from Sq.prems(2) obtain k d e where kd: "(k, d) \<in> set (matches a s i)" "(j, e) \<in> set (matches b s k)"
    "c = e @ d" by auto
  have k: "k \<le> length s" using matches_end [OF Sq.prems(1) kd(1)] by simp
  show ?case using Sq.IH(1) [OF Sq.prems(1) kd(1)] Sq.IH(2) [OF k kd(2)] kd(3) by fastforce
next
  case (Rp g mn mx r)
  have step: "set c' \<subseteq> {(g, a, b). \<exists>r'. (g, r') \<in> set (groups r) \<and> slice a b s \<in> lang r'} \<and> j' \<le> length s"
    if "i' \<le> length s" "(j', c') \<in> set (matches r s i')" for i' j' c'
    using Rp.IH [OF that] matches_end [OF that] by simp
  from Rp.prems(2) have "(j, c) \<in> set (reps (matches r s) g mn (case mx of None \<Rightarrow> length s - i | Some x \<Rightarrow> x) i)"
    by simp
  from reps_captures [OF step Rp.prems(1) this] show ?case by simp
next
  case (Gr g r)
  from Gr.prems(2) obtain d where d: "(j, d) \<in> set (matches r s i)" "c = (g, i, j) # d" by auto
  show ?case using Gr.IH [OF Gr.prems(1) d(1)] matches_lang [OF Gr.prems(1) d(1)] d(2) by fastforce
next
  case (Al a b)
  from Al.prems(2) consider "(j, c) \<in> set (matches a s i)" | "(j, c) \<in> set (matches b s i)" by auto
  then show ?case
    using Al.IH Al.prems(1) by cases fastforce+
qed (auto split: if_splits)

subsection \<open>Every word is found\<close>

lemma slice_append_split:
  assumes "slice i j s = u @ v" and "i \<le> j" and "j \<le> length s"
  shows "slice i (i + length u) s = u" and "slice (i + length u) j s = v" and "i + length u \<le> j"
proof -
  have len: "length u + length v = j - i" using arg_cong [OF assms(1), of length] assms(2,3)
    by (simp add: length_slice)
  then show le: "i + length u \<le> j" using assms(2) by simp
  have "slice i (i + length u) s @ slice (i + length u) j s = u @ v"
    using assms(1) le by (simp add: slice_append_slice)
  moreover have "length (slice i (i + length u) s) = length u"
    using le assms(3) by (simp add: length_slice)
  ultimately show "slice i (i + length u) s = u" "slice (i + length u) j s = v" by simp_all
qed

lemma reps_finds:
  assumes step: "\<And>i j. i \<le> j \<Longrightarrow> j \<le> length s \<Longrightarrow> slice i j s \<in> A \<Longrightarrow> \<exists>c. (j, c) \<in> set (f i)"
  shows "slice i j s = concat ws \<Longrightarrow> set ws \<subseteq> A - {[]} \<Longrightarrow> mn \<le> length ws \<Longrightarrow> length ws \<le> n \<Longrightarrow>
    i \<le> j \<Longrightarrow> j \<le> length s \<Longrightarrow> \<exists>c. (j, c) \<in> set (reps f g mn n i)"
proof (induction ws arbitrary: mn n i)
  case Nil
  then have "i = j" by (metis concat.simps(1) diff_is_0_eq le_antisym length_slice list.size(3))
  with Nil.prems(3) show ?case by (cases n) (auto simp: Let_def)
next
  case (Cons w ws)
  obtain n' where n: "n = Suc n'" using Cons.prems(4) by (cases n) auto
  have "slice i j s = w @ concat ws" using Cons.prems(1) by simp
  note sp = slice_append_split [OF this Cons.prems(5,6)]
  have "w \<in> A" "w \<noteq> []" using Cons.prems(2) by auto
  have "\<exists>c. (i + length w, c) \<in> set (f i)"
    using step [of i "i + length w"] sp Cons.prems(6) \<open>w \<in> A\<close> by auto
  then obtain c where c: "(i + length w, c) \<in> set (f i)" ..
  have "\<exists>d. (j, d) \<in> set (reps f g (mn - 1) n' (i + length w))"
    using Cons.IH [of "i + length w" "mn - 1" n'] sp Cons.prems n by auto
  then obtain d where d: "(j, d) \<in> set (reps f g (mn - 1) n' (i + length w))" ..
  have "(j, d @ c) \<in> set (concat (map (\<lambda>(j, c). map (\<lambda>(k, d). (k, d @ c)) (reps f g (mn - 1) n' j))
           (filter (\<lambda>(j, c). i < j) (f i))))"
    using c d \<open>w \<noteq> []\<close> by force
  then have "(j, d @ c) \<in> set (reps f g mn n i)"
    unfolding n reps.simps Let_def by (cases g) (auto simp del: set_concat)
  then show ?case ..
qed

lemma length_concat_nonempty: "set ws \<subseteq> A - {[]} \<Longrightarrow> length ws \<le> length (concat ws)"
proof (induction ws)
  case (Cons w ws)
  then have "1 \<le> length w" by (cases w) auto
  with Cons show ?case by simp
qed simp

lemma lang_matches:
  "anchor_free r \<Longrightarrow> slice i j s \<in> lang r \<Longrightarrow> i \<le> j \<Longrightarrow> j \<le> length s \<Longrightarrow>
     \<exists>c. (j, c) \<in> set (matches r s i)"
proof (induction r arbitrary: i j)
  case (Sq a b)
  from Sq.prems(2) obtain u v where uv: "slice i j s = u @ v" "u \<in> lang a" "v \<in> lang b" by auto
  note sp = slice_append_split [OF uv(1) Sq.prems(3,4)]
  obtain c where c: "(i + length u, c) \<in> set (matches a s i)"
    using Sq.IH(1) [of i "i + length u"] sp uv Sq.prems by auto
  obtain d where d: "(j, d) \<in> set (matches b s (i + length u))"
    using Sq.IH(2) [of "i + length u" j] sp uv Sq.prems by auto
  have "(j, d @ c) \<in> set (matches (Sq a b) s i)" using c d by force
  then show ?case ..
next
  case (Rp g mn mx r)
  have step: "\<exists>c. (j', c) \<in> set (matches r s i')" if "i' \<le> j'" "j' \<le> length s" "slice i' j' s \<in> lang r" for i' j'
    using Rp.IH [of i' j'] Rp.prems(1) that by simp
  from Rp.prems(2) obtain ws where ws: "slice i j s = concat ws" "set ws \<subseteq> lang r - {[]}" "mn \<le> length ws"
    "case mx of None \<Rightarrow> True | Some x \<Rightarrow> length ws \<le> x" by auto
  have "length ws \<le> length (concat ws)"
    using ws(2) by (rule length_concat_nonempty)
  also have "\<dots> \<le> length s - i" using Rp.prems(3,4) ws(1) by (metis diff_le_mono length_slice)
  finally have "length ws \<le> length s - i" .
  then have "length ws \<le> (case mx of None \<Rightarrow> length s - i | Some x \<Rightarrow> x)" using ws(4) by (cases mx) auto
  from reps_finds [OF step ws(1,2,3) this Rp.prems(3,4)] show ?case by simp
next
  case (Chr p)
  then obtain c where c: "slice i j s = [c]" "p c" by auto
  have "j - i = length (slice i j s)" using Chr.prems(4) by (simp add: length_slice)
  then have "j = Suc i" using Chr.prems(3) c(1) by simp
  then show ?case using c Chr.prems(4) slice_snoc_nth [of i s] by auto
next
  case Eps
  have "j - i = length (slice i j s)" using Eps.prems(4) by (simp add: length_slice)
  then have "i = j" using Eps.prems by simp
  then show ?case by simp
next
  case (Al a b)
  have "slice i j s \<in> lang a \<or> slice i j s \<in> lang b" using Al.prems(2) by simp
  moreover have "anchor_free a" "anchor_free b" using Al.prems(1) by simp_all
  ultimately have "(\<exists>c. (j, c) \<in> set (matches a s i)) \<or> (\<exists>c. (j, c) \<in> set (matches b s i))"
    using Al.IH Al.prems(3,4) by blast
  then show ?case by auto
next
  case (Gr g r)
  then obtain c where "(j, c) \<in> set (matches r s i)" using Gr.IH [of i j] by auto
  then have "(j, (g, i, j) # c) \<in> set (matches (Gr g r) s i)" by force
  then show ?case ..
qed simp_all

lemma fullmatch_iff_lang: "anchor_free r \<Longrightarrow> (\<exists>c. re_fullmatch r s = Some c) \<longleftrightarrow> s \<in> lang r"
proof
  assume "anchor_free r" and "s \<in> lang r"
  then obtain c where "(length s, c) \<in> set (matches r s 0)"
    using lang_matches [of r 0 "length s" s] by (auto simp: slice_def)
  then have "find (\<lambda>(j, c). j = length s) (matches r s 0) \<noteq> None"
    unfolding find_None_iff by auto
  then show "\<exists>c. re_fullmatch r s = Some c" by (auto simp: re_fullmatch_def)
qed (auto dest: fullmatch_lang)

subsection \<open>The languages of the building blocks\<close>

lemma lang_lit [simp]: "lang (lit w) = {w}"
  by (induction w) auto

lemma lang_sqs_Nil [simp]: "lang (sqs []) = {[]}"
  by simp

lemma lang_Rp_Chr:
  "lang (Rp g mn mx (Chr p)) =
     {w. list_all p w \<and> mn \<le> length w \<and> (case mx of None \<Rightarrow> True | Some x \<Rightarrow> length w \<le> x)}"
proof -
  have single: "concat ws = map hd ws" "list_all p (map hd ws)"
    if "set ws \<subseteq> {[c] |c. p c}" for ws
    using that by (induction ws) auto
  have "w \<in> lang (Rp g mn mx (Chr p))"
    if w: "list_all p w" "mn \<le> length w" "case mx of None \<Rightarrow> True | Some x \<Rightarrow> length w \<le> x" for w
  proof -
    have "concat (map (\<lambda>c. [c]) w) = w" by simp
    moreover have "set (map (\<lambda>c. [c]) w) \<subseteq> {[c] |c. p c} - {[]}"
      using w(1) by (auto simp: list_all_iff)
    ultimately show ?thesis using w(2,3) unfolding lang.simps
      by (intro CollectI exI [of _ "map (\<lambda>c. [c]) w"]) (simp split: option.splits)
  qed
  moreover have "list_all p w \<and> mn \<le> length w \<and> (case mx of None \<Rightarrow> True | Some x \<Rightarrow> length w \<le> x)"
    if w: "w \<in> lang (Rp g mn mx (Chr p))" for w
  proof -
    obtain ws where "w = concat ws" "set ws \<subseteq> {[c] |c. p c}" "mn \<le> length ws"
      "case mx of None \<Rightarrow> True | Some x \<Rightarrow> length ws \<le> x" using w by auto
    with single [of ws] show ?thesis by (simp split: option.splits)
  qed
  ultimately show ?thesis by blast
qed

subsection \<open>Properties\<close>

text \<open>
  the backtracking matcher decides the regular language. For a pattern without anchors, \<open>fullmatch\<close> finds
  a match of a string exactly when the string is in the language of the pattern, greedy or lazy as its loops may be.
\<close>

theorem fullmatch_decides_language:
  assumes "anchor_free r"
  shows "(\<exists>c. re_fullmatch r s = Some c) \<longleftrightarrow> s \<in> lang r"
  by (rule fullmatch_iff_lang [OF assms])

theorem fullmatch_decides_language_witness:
  "''7'' \<in> lang digit"
  using fullmatch_decides_language [of digit "''7''"] by (simp add: digit_def re_fullmatch_def is_digit_def)

end
