(* ===== verification/Generalization.thy ===== *)
theory Generalization
  imports Regex_Language
begin

text \<open>
  \<open>transformations/generalization.py\<close>: the closed grammar of monetary amounts, the numeric
  bands, the month-and-year dates, the registry of strategies and \<open>generalize\<close>.

  A \<open>Decimal\<close> with two decimals is kept as its number of cents, so the arithmetic is exact
  as in the code. \<open>datetime.strptime\<close> with \<open>%Y-%m-%d\<close> is the standard library's: it matches the
  pattern built from the three directives at the start of the text, refuses unconverted
  text, and refuses a day the calendar does not have.

  The lemmas show that a band contains the amount and tells nothing else about it, that a date is
  reduced to its year and month, and that the output is never the input.
\<close>

definition MIN_NUMERIC_BAND_WIDTH :: rat where
  "MIN_NUMERIC_BAND_WIDTH = 1000"

subsection \<open>Amounts\<close>

definition nonzero_digit :: re where
  "nonzero_digit = Chr (\<lambda>c. is_digit c \<and> c \<noteq> CHR ''0'')"

definition DOTTED_AMOUNT :: re where
  "DOTTED_AMOUNT =
     sqs [Al (lit ''0'') (Sq nonzero_digit (between 0 14 digit)), lit ''.'', times 2 digit]"

definition BRAZIL_AMOUNT :: re where
  "BRAZIL_AMOUNT =
     sqs [Al (lit ''0'')
            (Al (sqs [nonzero_digit, between 0 2 digit, between 0 4 (Sq (lit ''.'') (times 3 digit))])
                (Sq nonzero_digit (between 3 14 digit))),
          lit '','', times 2 digit]"

definition AMOUNT_PATTERN :: re where
  "AMOUNT_PATTERN =
     sqs [lit ''R$'', Chr (one_of [CHR '' '', CHR 0xA0]),
          Al (Gr ''dotted'' DOTTED_AMOUNT) (Gr ''brazil'' BRAZIL_AMOUNT)]"

text \<open>\<open>s.partition(c)\<close>, without the separator.\<close>

definition partition_at :: "char \<Rightarrow> pystr \<Rightarrow> pystr \<times> pystr" where
  "partition_at c s = (takeWhile (\<lambda>x. x \<noteq> c) s, drop 1 (dropWhile (\<lambda>x. x \<noteq> c) s))"

text \<open>\<open>Decimal(s)\<close> for \<open>s\<close> an integer part, a point and two digits, in cents.\<close>

definition decimal_cents :: "pystr \<Rightarrow> nat" where
  "decimal_cents s =
     (let (units, cents) = partition_at (CHR ''.'') s in 100 * int_of_digits units + int_of_digits cents)"

definition captured :: "captures \<Rightarrow> pystr \<Rightarrow> pystr \<Rightarrow> pystr option" where
  "captured caps g s = map_option (\<lambda>(a, b). slice a b s) (map_of caps g)"

definition parse_amount :: "pystr \<Rightarrow> nat result" where
  "parse_amount val =
     (case re_fullmatch AMOUNT_PATTERN val of
        None \<Rightarrow> Inl GeneralizationError
      | Some caps \<Rightarrow>
          (case captured caps ''dotted'' val of
             Some dotted \<Rightarrow> Inr (decimal_cents dotted)
           | None \<Rightarrow>
               (let brazil = the_default '''' (captured caps ''brazil'' val);
                    (integer_part, cents) = partition_at (CHR '','') brazil
                in Inr (decimal_cents (filter (\<lambda>c. c \<noteq> CHR ''.'') integer_part @ ''.'' @ cents)))))"

subsection \<open>Strategies\<close>

datatype generalization_strategy =
    NumericBandStrategy rat pystr
  | MonthYearDateStrategy

text \<open>The checks a \<open>NumericBandStrategy\<close> makes when it is built.\<close>

definition mk_numeric_band :: "rat \<Rightarrow> pystr \<Rightarrow> generalization_strategy result" where
  "mk_numeric_band band_width pre =
     (if band_width < MIN_NUMERIC_BAND_WIDTH then Inl ValueError
      else if band_width \<noteq> of_int (floor band_width) then Inl ValueError
      else Inr (NumericBandStrategy band_width pre))"

definition band_of :: "nat \<Rightarrow> nat \<Rightarrow> pystr \<Rightarrow> pystr" where
  "band_of width cents pre =
     (let units = cents div 100;
          lower = (units div width) * width;
          upper = lower + width
      in pre @ str_nat lower @ ''-'' @ str_nat upper)"

definition generalize_numeric :: "rat \<Rightarrow> pystr \<Rightarrow> pystr \<Rightarrow> pystr result" where
  "generalize_numeric band_width pre val =
     (case parse_amount val of
        Inl e \<Rightarrow> Inl e
      | Inr amount \<Rightarrow> Inr (band_of (nat (floor band_width)) amount pre))"

definition is_leap :: "nat \<Rightarrow> bool" where
  "is_leap y \<longleftrightarrow> y mod 4 = 0 \<and> (y mod 100 \<noteq> 0 \<or> y mod 400 = 0)"

definition days_in_month :: "nat \<Rightarrow> nat \<Rightarrow> nat" where
  "days_in_month y m =
     (if m = 2 then (if is_leap y then 29 else 28)
      else if m = 4 \<or> m = 6 \<or> m = 9 \<or> m = 11 then 30 else 31)"

definition valid_date :: "nat \<Rightarrow> nat \<Rightarrow> nat \<Rightarrow> bool" where
  "valid_date y m d \<longleftrightarrow> 1 \<le> y \<and> y \<le> 9999 \<and> 1 \<le> m \<and> m \<le> 12 \<and> 1 \<le> d \<and> d \<le> days_in_month y m"

definition ISO_DATE_PATTERN :: re where
  "ISO_DATE_PATTERN =
     sqs [Gr ''Y'' (times 4 digit), lit ''-'',
          Gr ''m'' (Al (Sq (lit ''1'') (Chr (one_of ''012'')))
                       (Al (Sq (lit ''0'') nonzero_digit) nonzero_digit)), lit ''-'',
          Gr ''d'' (Al (Sq (lit ''3'') (Chr (one_of ''01'')))
                   (Al (Sq (Chr (one_of ''12'')) digit)
                   (Al (Sq (lit ''0'') nonzero_digit)
                   (Al nonzero_digit (Sq (lit '' '') nonzero_digit)))))]"

text \<open>\<open>int(s)\<close> ignores the spaces around the digits.\<close>

definition int_field :: "captures \<Rightarrow> pystr \<Rightarrow> pystr \<Rightarrow> nat" where
  "int_field caps g s = int_of_digits (filter is_digit (the_default '''' (captured caps g s)))"

definition strptime_iso :: "pystr \<Rightarrow> (nat \<times> nat \<times> nat) result" where
  "strptime_iso val =
     (case re_match ISO_DATE_PATTERN val 0 of
        None \<Rightarrow> Inl ValueError
      | Some (j, caps) \<Rightarrow>
          if j \<noteq> length val then Inl ValueError
          else (let y = int_field caps ''Y'' val; m = int_field caps ''m'' val; d = int_field caps ''d'' val
                in if valid_date y m d then Inr (y, m, d) else Inl ValueError))"

text \<open>\<open>f"{n:0wd}"\<close>.\<close>

definition zero_pad :: "nat \<Rightarrow> nat \<Rightarrow> pystr" where
  "zero_pad w n = replicate (w - length (str_nat n)) (CHR ''0'') @ str_nat n"

definition generalize_month_year :: "pystr \<Rightarrow> pystr result" where
  "generalize_month_year val =
     (case strptime_iso val of
        Inl _ \<Rightarrow> Inl GeneralizationError
      | Inr (y, m, d) \<Rightarrow> Inr (zero_pad 4 y @ ''-'' @ zero_pad 2 m))"

primrec strategy_generalize :: "generalization_strategy \<Rightarrow> pystr \<Rightarrow> pystr result" where
  "strategy_generalize (NumericBandStrategy band_width pre) val = generalize_numeric band_width pre val"
| "strategy_generalize MonthYearDateStrategy val = generalize_month_year val"

definition GENERALIZATION_STRATEGIES :: "(pystr, generalization_strategy) dict" where
  "GENERALIZATION_STRATEGIES =
     [(''salary'', NumericBandStrategy 5000 ''R$ ''),
      (''birth_date'', MonthYearDateStrategy),
      (''contract_value'', NumericBandStrategy 50000 ''R$ ''),
      (''penalty_amount'', NumericBandStrategy 5000 ''R$ ''),
      (''deadline'', MonthYearDateStrategy)]"

definition is_configured :: "pystr \<Rightarrow> bool" where
  "is_configured category = dict_has GENERALIZATION_STRATEGIES category"

definition generalize :: "pystr \<Rightarrow> pystr \<Rightarrow> pystr result" where
  "generalize category val =
     (case dict_get GENERALIZATION_STRATEGIES category of
        None \<Rightarrow> Inl GeneralizationError
      | Some strategy \<Rightarrow>
          (case strategy_generalize strategy val of
             Inl GeneralizationError \<Rightarrow> Inl GeneralizationError
           | Inl e \<Rightarrow> Inl e
           | Inr r \<Rightarrow> if r = val then Inl GeneralizationError else Inr r))"


subsection \<open>The grammar of amounts\<close>

definition plain_units :: "pystr \<Rightarrow> bool" where
  "plain_units u \<longleftrightarrow>
     u = ''0'' \<or> u \<noteq> [] \<and> list_all is_digit u \<and> hd u \<noteq> CHR ''0'' \<and> length u \<le> 15"

definition grouped_units :: "pystr \<Rightarrow> bool" where
  "grouped_units u \<longleftrightarrow>
     (\<exists>h gs. u = h @ concat (map (\<lambda>g. ''.'' @ g) gs) \<and> h \<noteq> [] \<and> list_all is_digit h \<and>
        hd h \<noteq> CHR ''0'' \<and> length h \<le> 3 \<and> length gs \<le> 4 \<and>
        list_all (\<lambda>g. length g = 3 \<and> list_all is_digit g) gs)"

definition amount_sep :: "char \<Rightarrow> bool" where
  "amount_sep c \<longleftrightarrow> c = CHR '' '' \<or> c = CHR 0xA0"

definition two_digits :: "pystr \<Rightarrow> bool" where
  "two_digits c \<longleftrightarrow> length c = 2 \<and> list_all is_digit c"

lemma no_groups_no_captures:
  assumes "groups r = []" and "i \<le> length s" and "(j, c) \<in> set (matches r s i)"
  shows "c = []"
proof -
  have "x \<notin> set c" for x using matches_captures [OF assms(2,3)] unfolding assms(1) by (cases x) auto
  then show ?thesis by (cases c) auto
qed

lemma groups_lit [simp]: "groups (lit w) = []"
  by (induction w) simp_all

lemma anchor_free_lit [simp]: "anchor_free (lit w)"
  by (induction w) simp_all

lemma matches_lit:
  assumes "i \<le> length s" and "(j, c) \<in> set (matches (lit w) s i)"
  shows "j = i + length w" and "slice i j s = w" and "c = []"
proof -
  show w: "slice i j s = w" using matches_lang [OF assms] by simp
  have "i \<le> j" "j \<le> length s" using matches_end [OF assms] by simp_all
  with w show "j = i + length w" by (metis add_diff_inverse_nat length_slice not_le)
  show "c = []" using no_groups_no_captures [OF _ assms] by simp
qed

lemma groups_amount: "groups DOTTED_AMOUNT = []" "groups BRAZIL_AMOUNT = []"
  by (simp_all add: DOTTED_AMOUNT_def BRAZIL_AMOUNT_def nonzero_digit_def between_def times_def digit_def)

lemma anchor_free_amount: "anchor_free AMOUNT_PATTERN"
  by (simp add: AMOUNT_PATTERN_def DOTTED_AMOUNT_def BRAZIL_AMOUNT_def nonzero_digit_def between_def
      times_def digit_def)

lemma amount_match:
  assumes "re_fullmatch AMOUNT_PATTERN v = Some c"
  obtains sep w where "v = ''R$'' @ sep # w" and "amount_sep sep"
    and "w \<in> lang DOTTED_AMOUNT \<and> captured c ''dotted'' v = Some w \<or>
         w \<in> lang BRAZIL_AMOUNT \<and> captured c ''dotted'' v = None \<and> captured c ''brazil'' v = Some w"
proof -
  have m: "(length v, c) \<in> set (matches AMOUNT_PATTERN v 0)" by (rule fullmatch_lang [OF assms])
  obtain j d e1 where j: "(j, d) \<in> set (matches (lit ''R$'') v 0)" and c1: "c = e1 @ d"
    and r1: "(length v, e1) \<in> set (matches (Sq (Chr (one_of [CHR '' '', CHR 0xA0]))
               (Sq (Al (Gr ''dotted'' DOTTED_AMOUNT) (Gr ''brazil'' BRAZIL_AMOUNT)) Eps)) v j)"
    using m unfolding AMOUNT_PATTERN_def sqs.simps by (rule matches_SqE)
  obtain k d2 e2 where k: "(k, d2) \<in> set (matches (Chr (one_of [CHR '' '', CHR 0xA0])) v j)" and c2: "e1 = e2 @ d2"
    and r2: "(length v, e2) \<in> set (matches (Sq (Al (Gr ''dotted'' DOTTED_AMOUNT) (Gr ''brazil'' BRAZIL_AMOUNT)) Eps) v k)"
    using r1 by (rule matches_SqE)
  have j': "j < length v" "one_of [CHR '' '', CHR 0xA0] (v ! j)" "k = Suc j" "d2 = []"
    using k by (auto elim: matches_ChrE)
  obtain e where e: "(length v, e) \<in> set (matches (Al (Gr ''dotted'' DOTTED_AMOUNT) (Gr ''brazil'' BRAZIL_AMOUNT)) v k)"
    and c3: "e2 = e"
    using r2 by (rule matches_SqE) auto
  note jl = matches_lit [OF le0 j]
  have j2: "j = 2" and c: "c = e" using jl c1 c2 c3 j'(4) by simp_all
  have v: "v = ''R$'' @ v ! 2 # drop 3 v"
    using jl(2) j'(1) unfolding j2 slice_def
    by (metis append_take_drop_id Cons_nth_drop_Suc drop0 diff_zero eval_nat_numeral(3))
  have k3: "k = 3" "k \<le> length v" using j' j2 by simp_all
  have whole: "slice k (length v) v = drop 3 v" using k3 by (simp add: slice_beyond)
  from e consider e' where "(length v, e') \<in> set (matches DOTTED_AMOUNT v k)" "e = (''dotted'', k, length v) # e'"
    | e' where "(length v, e') \<in> set (matches BRAZIL_AMOUNT v k)" "e = (''brazil'', k, length v) # e'"
    by auto
  then show thesis
  proof cases
    case 1
    have "e' = []" by (rule no_groups_no_captures [OF groups_amount(1) k3(2) 1(1)])
    then show ?thesis using that [OF v] matches_lang [OF k3(2) 1(1)] whole 1(2) c j'(2) j2
      by (simp add: captured_def amount_sep_def one_of_def)
  next
    case 2
    have "e' = []" by (rule no_groups_no_captures [OF groups_amount(2) k3(2) 2(1)])
    then show ?thesis using that [OF v] matches_lang [OF k3(2) 2(1)] whole 2(2) c j'(2) j2
      by (simp add: captured_def amount_sep_def one_of_def)
  qed
qed

lemma lang_digits: "lang (between m n digit) = {w. list_all is_digit w \<and> m \<le> length w \<and> length w \<le> n}"
  by (simp only: between_def digit_def lang_Rp_Chr option.case)

lemma lang_times_digits: "lang (times n digit) = {w. list_all is_digit w \<and> length w = n}"
  unfolding times_def digit_def lang_Rp_Chr by auto

lemma lang_nonzero_digits:
  "lang (Sq nonzero_digit (between m n digit)) =
     {w. w \<noteq> [] \<and> list_all is_digit w \<and> hd w \<noteq> CHR ''0'' \<and> Suc m \<le> length w \<and> length w \<le> Suc n}"
  (is "?L = ?R")
proof
  show "?L \<subseteq> ?R" by (auto simp: nonzero_digit_def lang_digits)
  show "?R \<subseteq> ?L"
  proof
    fix w assume w: "w \<in> ?R"
    then obtain c u where "w = c # u" by (cases w) auto
    with w have "[c] \<in> lang nonzero_digit" "u \<in> lang (between m n digit)"
      by (simp_all add: nonzero_digit_def lang_digits)
    then show "w \<in> ?L" unfolding \<open>w = c # u\<close> lang.simps by (metis (mono_tags, lifting) CollectI append_Cons append_Nil)
  qed
qed

lemma lang_groups:
  "lang (between 0 4 (Sq (lit ''.'') (times 3 digit))) =
     {concat (map (\<lambda>g. ''.'' @ g) gs) |gs. length gs \<le> 4 \<and> list_all (\<lambda>g. length g = 3 \<and> list_all is_digit g) gs}"
  (is "?L = ?R")
proof
  have lang1: "lang (Sq (lit ''.'') (times 3 digit)) = {''.'' @ g |g. length g = 3 \<and> list_all is_digit g}"
    unfolding lang.simps lang_lit lang_times_digits by auto
  show "?L \<subseteq> ?R"
  proof
    fix w assume "w \<in> ?L"
    then obtain ws where ws: "w = concat ws" "set ws \<subseteq> lang (Sq (lit ''.'') (times 3 digit))" "length ws \<le> 4"
      unfolding between_def lang.simps(5) by auto
    have "map (\<lambda>g. ''.'' @ g) (map tl ws) = ws"
      using ws(2) unfolding lang1 by (induction ws) auto
    moreover have "list_all (\<lambda>g. length g = 3 \<and> list_all is_digit g) (map tl ws)"
      using ws(2) unfolding lang1 by (induction ws) auto
    ultimately show "w \<in> ?R" using ws(1,3)
      by (intro CollectI exI [of _ "map tl ws"]) simp
  qed
  show "?R \<subseteq> ?L"
  proof
    fix w assume "w \<in> ?R"
    then obtain gs where gs: "w = concat (map (\<lambda>g. ''.'' @ g) gs)" "length gs \<le> 4"
      "list_all (\<lambda>g. length g = 3 \<and> list_all is_digit g) gs" by blast
    have "set (map (\<lambda>g. ''.'' @ g) gs) \<subseteq> lang (Sq (lit ''.'') (times 3 digit)) - {[]}"
      using gs(3) unfolding lang1 by (auto simp: list_all_iff)
    then show "w \<in> ?L" unfolding between_def lang.simps(5)
      using gs by (intro CollectI exI [of _ "map (\<lambda>g. ''.'' @ g) gs"]) simp
  qed
qed

lemma mem_Sq: "w \<in> lang (Sq a b) \<longleftrightarrow> (\<exists>u v. w = u @ v \<and> u \<in> lang a \<and> v \<in> lang b)"
  by auto

lemma lang_plain: "u \<in> lang (Al (lit ''0'') (Sq nonzero_digit (between 0 14 digit))) \<longleftrightarrow> plain_units u"
  unfolding lang.simps(4) Un_iff lang_nonzero_digits lang_lit plain_units_def
  by (auto simp: Suc_le_eq)

lemma lang_cents: "w \<in> lang (sqs [r, lit [d], times 2 digit]) \<longleftrightarrow> (\<exists>u c. w = u @ d # c \<and> u \<in> lang r \<and> two_digits c)"
  unfolding sqs.simps mem_Sq lang_lit lang_times_digits two_digits_def by auto

lemma lang_DOTTED: "w \<in> lang DOTTED_AMOUNT \<longleftrightarrow> (\<exists>u c. w = u @ CHR ''.'' # c \<and> plain_units u \<and> two_digits c)"
  unfolding DOTTED_AMOUNT_def lang_cents lang_plain by simp

lemma lang_grouped:
  "u \<in> lang (sqs [nonzero_digit, between 0 2 digit, between 0 4 (Sq (lit ''.'') (times 3 digit))]) \<longleftrightarrow>
     grouped_units u"
proof -
  have split: "u \<in> lang (sqs [nonzero_digit, between 0 2 digit, r]) \<longleftrightarrow>
      (\<exists>h v. u = h @ v \<and> h \<in> lang (Sq nonzero_digit (between 0 2 digit)) \<and> v \<in> lang r)" for r
    unfolding sqs.simps mem_Sq by (metis append.assoc append_Nil2 lang.simps(1) singleton_iff)
  show ?thesis unfolding split lang_nonzero_digits lang_groups grouped_units_def by (auto simp: Suc_le_eq)
qed

lemma lang_brazil_units:
  "u \<in> lang (Al (lit ''0'')
          (Al (sqs [nonzero_digit, between 0 2 digit, between 0 4 (Sq (lit ''.'') (times 3 digit))])
              (Sq nonzero_digit (between 3 14 digit)))) \<longleftrightarrow> plain_units u \<or> grouped_units u"
proof -
  have "grouped_units u" if "u \<noteq> []" "list_all is_digit u" "hd u \<noteq> CHR ''0''" "\<not> 4 \<le> length u"
    unfolding grouped_units_def using that by (intro exI [of _ u] exI [of _ "[]"]) simp
  then show ?thesis
    unfolding lang.simps(4) Un_iff lang_grouped lang_nonzero_digits lang_lit plain_units_def by auto
qed

lemma lang_BRAZIL:
  "w \<in> lang BRAZIL_AMOUNT \<longleftrightarrow>
     (\<exists>u c. w = u @ CHR '','' # c \<and> (plain_units u \<or> grouped_units u) \<and> two_digits c)"
  unfolding BRAZIL_AMOUNT_def lang_cents lang_brazil_units by simp

text \<open>The reading of an amount: separator, units, decimal mark, cents.\<close>

definition reads_amount :: "pystr \<Rightarrow> pystr \<Rightarrow> pystr \<Rightarrow> bool" where
  "reads_amount v u c \<longleftrightarrow>
     (\<exists>sep mark. v = ''R$'' @ sep # u @ mark # c \<and> amount_sep sep \<and> two_digits c \<and>
        (mark = CHR ''.'' \<and> plain_units u \<or> mark = CHR '','' \<and> (plain_units u \<or> grouped_units u)))"

definition amount_value :: "pystr \<Rightarrow> pystr \<Rightarrow> nat" where
  "amount_value u c = 100 * int_of_digits (filter (\<lambda>x. x \<noteq> CHR ''.'') u) + int_of_digits c"

lemma reads_amount_unique: "reads_amount v u c \<Longrightarrow> reads_amount v u' c' \<Longrightarrow> u = u' \<and> c = c'"
  by (auto simp: reads_amount_def two_digits_def)

lemma not_digit_mark [simp]: "\<not> is_digit (CHR ''.'')" "\<not> is_digit (CHR '','')" "\<not> is_digit (CHR ''-'')"
  by (simp_all add: is_digit_def)

lemma digits_no_mark: "list_all is_digit u \<Longrightarrow> x \<in> set u \<Longrightarrow> x \<noteq> CHR ''.'' \<and> x \<noteq> CHR '','' \<and> x \<noteq> CHR ''-''"
  by (auto simp: list_all_iff)

lemma plain_units_digits: "plain_units u \<Longrightarrow> list_all is_digit u"
  by (auto simp: plain_units_def is_digit_def)

lemma grouped_units_no_comma: "grouped_units u \<Longrightarrow> CHR '','' \<notin> set u"
proof -
  assume "grouped_units u"
  then obtain h gs where u: "u = h @ concat (map (\<lambda>g. ''.'' @ g) gs)" "list_all is_digit h"
    "list_all (\<lambda>g. length g = 3 \<and> list_all is_digit g) gs" by (auto simp: grouped_units_def)
  have "x = CHR ''.'' \<or> is_digit x" if "x \<in> set u" for x
    using that u by (auto simp: list_all_iff split: if_splits)
  then show ?thesis using not_digit_mark by fastforce
qed

lemma partition_at_append: "c \<notin> set u \<Longrightarrow> partition_at c (u @ c # w) = (u, w)"
  by (simp add: partition_at_def takeWhile_upto dropWhile_upto)

lemma decimal_cents_append: "CHR ''.'' \<notin> set u \<Longrightarrow>
    decimal_cents (u @ CHR ''.'' # c) = 100 * int_of_digits u + int_of_digits c"
  by (simp add: decimal_cents_def partition_at_append)

lemma filter_no_mark: "list_all is_digit u \<Longrightarrow> filter (\<lambda>x. x \<noteq> CHR ''.'') u = u"
  by (auto simp: filter_id_conv list_all_iff)

lemma parse_amount_reads:
  assumes "parse_amount v = Inr n"
  shows "\<exists>u c. reads_amount v u c \<and> n = amount_value u c"
proof -
  obtain caps where caps: "re_fullmatch AMOUNT_PATTERN v = Some caps"
    using assms by (auto simp: parse_amount_def split: option.splits)
  obtain sep w where v: "v = ''R$'' @ sep # w" "amount_sep sep"
    and w: "w \<in> lang DOTTED_AMOUNT \<and> captured caps ''dotted'' v = Some w \<or>
         w \<in> lang BRAZIL_AMOUNT \<and> captured caps ''dotted'' v = None \<and> captured caps ''brazil'' v = Some w"
    by (rule amount_match [OF caps])
  from w consider
    (dotted) u c where "w = u @ CHR ''.'' # c" "plain_units u" "two_digits c" "captured caps ''dotted'' v = Some w"
  | (brazil) u c where "w = u @ CHR '','' # c" "plain_units u \<or> grouped_units u" "two_digits c"
      "captured caps ''dotted'' v = None" "captured caps ''brazil'' v = Some w"
    unfolding lang_DOTTED lang_BRAZIL by blast
  then show ?thesis
  proof cases
    case dotted
    have "CHR ''.'' \<notin> set u" using plain_units_digits [OF dotted(2)] digits_no_mark by blast
    then have "n = amount_value u c"
      using assms caps dotted(4) filter_no_mark [OF plain_units_digits [OF dotted(2)]]
      by (simp add: parse_amount_def dotted(1) decimal_cents_append amount_value_def)
    moreover have "reads_amount v u c" using v dotted by (auto simp: reads_amount_def)
    ultimately show ?thesis by blast
  next
    case brazil
    have "CHR '','' \<notin> set u"
      using brazil(2) plain_units_digits digits_no_mark grouped_units_no_comma by blast
    then have "n = amount_value u c"
      using assms caps brazil(4,5)
      by (simp add: parse_amount_def brazil(1) partition_at_append decimal_cents_append amount_value_def)
    moreover have "reads_amount v u c" using v brazil by (auto simp: reads_amount_def)
    ultimately show ?thesis by blast
  qed
qed

lemma amount_words:
  assumes "amount_sep sep" and "w \<in> lang DOTTED_AMOUNT \<or> w \<in> lang BRAZIL_AMOUNT"
  shows "''R$'' @ sep # w \<in> lang AMOUNT_PATTERN"
proof -
  have "[sep] \<in> lang (Chr (one_of [CHR '' '', CHR 0xA0]))"
    using assms(1) by (auto simp: amount_sep_def one_of_def)
  moreover have "w \<in> lang (sqs [Al (Gr ''dotted'' DOTTED_AMOUNT) (Gr ''brazil'' BRAZIL_AMOUNT)])"
    using assms(2) by simp
  ultimately have "[sep] @ w \<in> lang (Sq (Chr (one_of [CHR '' '', CHR 0xA0]))
      (sqs [Al (Gr ''dotted'' DOTTED_AMOUNT) (Gr ''brazil'' BRAZIL_AMOUNT)]))"
    unfolding mem_Sq by blast
  then show ?thesis
    unfolding AMOUNT_PATTERN_def sqs.simps(2) [of "lit _"] sqs.simps(2) [of "Chr _"] mem_Sq [of _ "lit _"] lang_lit
    by auto
qed

lemma reads_amount_parses:
  assumes "reads_amount v u c"
  shows "parse_amount v = Inr (amount_value u c)"
proof -
  obtain sep mark where r: "v = ''R$'' @ sep # u @ mark # c" "amount_sep sep" "two_digits c"
    "mark = CHR ''.'' \<and> plain_units u \<or> mark = CHR '','' \<and> (plain_units u \<or> grouped_units u)"
    using assms unfolding reads_amount_def by blast
  then have "u @ mark # c \<in> lang DOTTED_AMOUNT \<or> u @ mark # c \<in> lang BRAZIL_AMOUNT"
    unfolding lang_DOTTED lang_BRAZIL by blast
  with r(2) have "v \<in> lang AMOUNT_PATTERN" unfolding r(1) by (rule amount_words)
  then obtain caps where "re_fullmatch AMOUNT_PATTERN v = Some caps"
    using fullmatch_iff_lang [OF anchor_free_amount] by blast
  then have "parse_amount v \<noteq> Inl e" for e
    by (auto simp: parse_amount_def Let_def split: option.splits prod.splits)
  then obtain n where n: "parse_amount v = Inr n" by (cases "parse_amount v") auto
  from parse_amount_reads [OF n] obtain u' c' where "reads_amount v u' c'" "n = amount_value u' c'" by blast
  with reads_amount_unique [OF assms] n show ?thesis by blast
qed

lemma parse_amount_error: "parse_amount v = Inl e \<Longrightarrow> e = GeneralizationError"
  by (auto simp: parse_amount_def Let_def split: option.splits prod.splits)

text \<open>An amount carries a decimal mark, which no band does.\<close>

lemma parsed_has_mark: "parse_amount v = Inr n \<Longrightarrow> CHR ''.'' \<in> set v \<or> CHR '','' \<in> set v"
  using parse_amount_reads by (fastforce simp: reads_amount_def)

subsection \<open>Bands\<close>

lemma str_nat_no_mark: "CHR ''.'' \<notin> set (str_nat n)" "CHR '','' \<notin> set (str_nat n)" "CHR ''-'' \<notin> set (str_nat n)"
  using str_nat_digits not_digit_mark by blast+

lemma band_contains:
  assumes "0 < width"
  obtains lower where "band_of width cents pre = pre @ str_nat lower @ ''-'' @ str_nat (lower + width)"
    and "width dvd lower" and "100 * lower \<le> cents" and "cents < 100 * (lower + width)"
proof
  let ?l = "(cents div 100) div width * width"
  show "band_of width cents pre = pre @ str_nat ?l @ ''-'' @ str_nat (?l + width)"
    by (simp add: band_of_def Let_def)
  show "width dvd ?l" by simp
  have "?l \<le> cents div 100" by simp
  then show "100 * ?l \<le> cents" by linarith
  have "cents div 100 < ?l + width"
    using assms by (metis add.commute dividend_less_times_div mult.commute)
  then show "cents < 100 * (?l + width)" by (simp add: div_less_iff_less_mult mult.commute)
qed

lemma band_of_eq_iff:
  assumes "0 < width"
  shows "band_of width a pre = band_of width b pre \<longleftrightarrow> (a div 100) div width = (b div 100) div width"
proof
  assume eq: "band_of width a pre = band_of width b pre"
  have tw: "takeWhile (\<lambda>c. c \<noteq> CHR ''-'') (str_nat m @ CHR ''-'' # w) = str_nat m" for m w
    using str_nat_no_mark(3) [of m] by (rule takeWhile_upto)
  have "str_nat ((a div 100) div width * width) = str_nat ((b div 100) div width * width)"
    using arg_cong [OF eq, of "\<lambda>w. takeWhile (\<lambda>c. c \<noteq> CHR ''-'') (drop (length pre) w)"]
    by (simp add: band_of_def Let_def tw)
  with assms show "(a div 100) div width = (b div 100) div width" by simp
qed (simp add: band_of_def)

subsection \<open>Dates\<close>

lemma strptime_iso_valid: "strptime_iso v = Inr (y, m, d) \<Longrightarrow> valid_date y m d"
  by (auto simp: strptime_iso_def Let_def split: option.splits if_splits)

lemma strptime_iso_long: "strptime_iso v = Inr t \<Longrightarrow> 8 \<le> length v"
proof -
  assume "strptime_iso v = Inr t"
  then obtain caps where "re_match ISO_DATE_PATTERN v 0 = Some (length v, caps)"
    by (auto simp: strptime_iso_def split: option.splits if_splits)
  then have "(length v, caps) \<in> set (matches ISO_DATE_PATTERN v 0)"
    by (auto simp: re_match_def split: list.splits)
  from matches_well_placed [OF le0 this] show ?thesis
    by (simp add: well_placed_def ISO_DATE_PATTERN_def times_def digit_def nonzero_digit_def)
qed

lemma length_zero_pad: "n < 10 ^ w \<Longrightarrow> 0 < w \<Longrightarrow> length (zero_pad w n) = w"
  using length_str_nat [of n w] by (simp add: zero_pad_def)

lemma zero_pad_digits: "list_all is_digit (zero_pad w n)"
  using str_nat_digits [of _ n] by (auto simp: zero_pad_def list_all_iff is_digit_def)

lemma int_of_digits_zeros: "int_of_digits (replicate k (CHR ''0'') @ s) = int_of_digits s"
proof -
  have "foldl (\<lambda>acc c. 10 * acc + digit_val c) 0 (replicate k (CHR ''0'')) = 0"
    by (induction k) (simp_all add: digit_val_def)
  then show ?thesis by (simp add: int_of_digits_def)
qed

lemma int_of_zero_pad [simp]: "int_of_digits (zero_pad w n) = n"
  by (simp add: zero_pad_def int_of_digits_zeros)

lemma matches_assoc: "matches (Sq a (Sq b c)) s i = matches (Sq (Sq a b) c) s i"
proof -
  have "concat (map (\<lambda>(j, c'). map (\<lambda>(k, d). (k, d @ c'))
            (concat (map (\<lambda>(j, c'). map (\<lambda>(k, d). (k, d @ c')) (matches c s j)) (matches b s j)))) xs) =
        concat (map (\<lambda>(j, c'). map (\<lambda>(k, d). (k, d @ c')) (matches c s j))
            (concat (map (\<lambda>(j, c'). map (\<lambda>(k, d). (k, d @ c')) (matches b s j)) xs)))" for xs :: "(nat \<times> captures) list"
    by (induction xs) (simp_all add: map_concat comp_def split_def)
  then show ?thesis by simp
qed

lemma matches_Sq_single:
  "matches a s i = [(j, c)] \<Longrightarrow> matches (Sq a b) s i = map (\<lambda>(k, d). (k, d @ c)) (matches b s j)"
  by simp

lemma iso_match:
  assumes s: "s = [y1, y2, y3, y4, CHR ''-'', a, b, CHR ''-'', c, d]"
    and y: "is_digit y1" "is_digit y2" "is_digit y3" "is_digit y4"
    and m: "a = CHR ''0'' \<and> is_digit b \<and> b \<noteq> CHR ''0'' \<or> a = CHR ''1'' \<and> b \<in> set ''012''"
    and dd: "c = CHR ''0'' \<and> is_digit d \<and> d \<noteq> CHR ''0'' \<or> c \<in> set ''12'' \<and> is_digit d \<or> c = CHR ''3'' \<and> d \<in> set ''01''"
  shows "re_match ISO_DATE_PATTERN s 0 = Some (10, [(''d'', (8, 10)), (''m'', (5, 7)), (''Y'', (0, 4))])"
proof -
  have Y: "matches (times 4 digit) s 0 = [(4, [])]"
    using y by (simp add: s times_def digit_def eval_nat_numeral)
  have M: "concat (map (\<lambda>(j, c). map (\<lambda>(k, d). (k, d @ c)) (matches (lit ''-'') s j))
        (matches (Gr ''m'' (Al (Sq (lit ''1'') (Chr (one_of ''012'')))
                       (Al (Sq (lit ''0'') nonzero_digit) nonzero_digit))) s 5)) = [(8, [(''m'', (5, 7))])]"
    using m by (auto simp: s nonzero_digit_def one_of_def is_digit_def)
  have D: "\<exists>rest. matches (Gr ''d'' (Al (Sq (lit ''3'') (Chr (one_of ''01'')))
                   (Al (Sq (Chr (one_of ''12'')) digit)
                   (Al (Sq (lit ''0'') nonzero_digit)
                   (Al nonzero_digit (Sq (lit '' '') nonzero_digit)))))) s 8 = (10, [(''d'', (8, 10))]) # rest"
    using dd by (auto simp: s nonzero_digit_def one_of_def digit_def is_digit_def)
  let ?Y = "Gr ''Y'' (times 4 digit)" and ?M = "Gr ''m'' (Al (Sq (lit ''1'') (Chr (one_of ''012'')))
                       (Al (Sq (lit ''0'') nonzero_digit) nonzero_digit))"
    and ?D = "Gr ''d'' (Al (Sq (lit ''3'') (Chr (one_of ''01'')))
                   (Al (Sq (Chr (one_of ''12'')) digit)
                   (Al (Sq (lit ''0'') nonzero_digit)
                   (Al nonzero_digit (Sq (lit '' '') nonzero_digit)))))"
  have YH: "matches (Sq ?Y (lit ''-'')) s 0 = [(5, [(''Y'', (0, 4))])]"
    unfolding matches.simps(3,6) Y by (simp add: s)
  have MH: "matches (Sq ?M (lit ''-'')) s 5 = [(8, [(''m'', (5, 7))])]"
    unfolding matches.simps(3) by (rule M)
  have "matches ISO_DATE_PATTERN s 0 = matches (Sq (Sq ?Y (lit ''-'')) (Sq ?M (Sq (lit ''-'') (Sq ?D Eps)))) s 0"
    unfolding ISO_DATE_PATTERN_def sqs.simps by (rule matches_assoc)
  also have "\<dots> = map (\<lambda>(k, d). (k, d @ [(''Y'', (0, 4))])) (matches (Sq ?M (Sq (lit ''-'') (Sq ?D Eps))) s 5)"
    by (rule matches_Sq_single [OF YH])
  also have "matches (Sq ?M (Sq (lit ''-'') (Sq ?D Eps))) s 5 = matches (Sq (Sq ?M (lit ''-'')) (Sq ?D Eps)) s 5"
    by (rule matches_assoc)
  also have "\<dots> = map (\<lambda>(k, d). (k, d @ [(''m'', (5, 7))])) (matches (Sq ?D Eps) s 8)"
    by (rule matches_Sq_single [OF MH])
  finally have whole: "matches ISO_DATE_PATTERN s 0 =
      map (\<lambda>(k, d). (k, d @ [(''Y'', (0, 4))])) (map (\<lambda>(k, d). (k, d @ [(''m'', (5, 7))])) (matches (Sq ?D Eps) s 8))" .
  obtain rest where "matches (Sq ?D Eps) s 8 = (10, [(''d'', (8, 10))]) # rest"
    using D unfolding matches.simps(3) by (elim exE) (simp only: list.map concat.simps prod.case append_Nil append_Cons matches.simps(1))
  then show ?thesis unfolding re_match_def whole by (simp only: list.map prod.case list.case append_Cons append_Nil)
qed

lemma list_of_four: "length xs = 4 \<Longrightarrow> \<exists>a b c d. xs = [a, b, c, d]"
  by (cases xs; cases "tl xs"; cases "tl (tl xs)"; cases "tl (tl (tl xs))") auto

lemma digit_char_eq: "a < 10 \<Longrightarrow> b < 10 \<Longrightarrow> digit_char a = digit_char b \<longleftrightarrow> a = b"
  using of_char_digit_char by (metis add_left_cancel)

lemma digit_char_numerals:
  "CHR ''0'' = digit_char 0" "CHR ''1'' = digit_char 1" "CHR ''2'' = digit_char 2" "CHR ''3'' = digit_char 3"
  by code_simp+

lemma zero_pad_2: "n < 100 \<Longrightarrow> zero_pad 2 n = [digit_char (n div 10), digit_char (n mod 10)]"
  by (cases "n < 10") (simp_all add: zero_pad_def str_nat.simps [of n] str_nat.simps [of "n div 10"] digit_char_numerals)

lemma iso_month_digits:
  assumes "q = 0 \<and> r \<noteq> 0 \<or> q = 1 \<and> (r = 0 \<or> r = 1 \<or> r = 2)" and "r < 10"
  shows "digit_char q = CHR ''0'' \<and> is_digit (digit_char r) \<and> digit_char r \<noteq> CHR ''0'' \<or>
    digit_char q = CHR ''1'' \<and> digit_char r \<in> set ''012''"
  unfolding digit_char_numerals using assms by (auto simp: digit_char_eq is_digit_digit_char)

lemma iso_day_digits:
  assumes "q = 0 \<and> r \<noteq> 0 \<or> q = 1 \<or> q = 2 \<or> q = 3 \<and> (r = 0 \<or> r = 1)" and "r < 10"
  shows "digit_char q = CHR ''0'' \<and> is_digit (digit_char r) \<and> digit_char r \<noteq> CHR ''0'' \<or>
    digit_char q \<in> set ''12'' \<and> is_digit (digit_char r) \<or>
    digit_char q = CHR ''3'' \<and> digit_char r \<in> set ''01''"
  unfolding digit_char_numerals using assms by (auto simp: digit_char_eq is_digit_digit_char)

lemma iso_month_chars:
  assumes "1 \<le> m" and "m \<le> 12"
  shows "digit_char (m div 10) = CHR ''0'' \<and> is_digit (digit_char (m mod 10)) \<and> digit_char (m mod 10) \<noteq> CHR ''0'' \<or>
    digit_char (m div 10) = CHR ''1'' \<and> digit_char (m mod 10) \<in> set ''012''"
proof -
  have "m div 10 = 0 \<and> m mod 10 \<noteq> 0 \<or> m div 10 = 1 \<and> (m mod 10 = 0 \<or> m mod 10 = 1 \<or> m mod 10 = 2)"
    using assms by presburger
  moreover have "m mod 10 < 10" by simp
  ultimately show ?thesis by (rule iso_month_digits)
qed

lemma iso_day_chars:
  assumes "1 \<le> d" and "d \<le> 31"
  shows "digit_char (d div 10) = CHR ''0'' \<and> is_digit (digit_char (d mod 10)) \<and> digit_char (d mod 10) \<noteq> CHR ''0'' \<or>
    digit_char (d div 10) \<in> set ''12'' \<and> is_digit (digit_char (d mod 10)) \<or>
    digit_char (d div 10) = CHR ''3'' \<and> digit_char (d mod 10) \<in> set ''01''"
proof -
  consider "d < 10" | "10 \<le> d" "d < 20" | "20 \<le> d" "d < 30" | "d = 30" | "d = 31" using assms by linarith
  then have "d div 10 = 0 \<and> d mod 10 \<noteq> 0 \<or> d div 10 = 1 \<or> d div 10 = 2 \<or> d div 10 = 3 \<and> (d mod 10 = 0 \<or> d mod 10 = 1)"
    using assms(1) by cases auto
  moreover have "d mod 10 < 10" by simp
  ultimately show ?thesis by (rule iso_day_digits)
qed

text \<open>\<open>date.isoformat()\<close>, and that \<open>strptime\<close> reads it back.\<close>

definition iso_date :: "nat \<Rightarrow> nat \<Rightarrow> nat \<Rightarrow> pystr" where
  "iso_date y m d = zero_pad 4 y @ ''-'' @ zero_pad 2 m @ ''-'' @ zero_pad 2 d"

lemma days_in_month_le: "days_in_month y m \<le> 31"
  by (simp add: days_in_month_def)

lemma strptime_iso_date:
  assumes v: "valid_date y m d"
  shows "strptime_iso (iso_date y m d) = Inr (y, m, d)"
proof -
  have b: "y < 10 ^ 4" "1 \<le> m" "m \<le> 12" "1 \<le> d" "d \<le> 31"
    using v days_in_month_le [of y m] by (simp_all add: valid_date_def)
  obtain a1 a2 a3 a4 where y4: "zero_pad 4 y = [a1, a2, a3, a4]"
    using list_of_four [OF length_zero_pad [OF b(1)]] by auto
  have dig: "is_digit a1" "is_digit a2" "is_digit a3" "is_digit a4"
    using zero_pad_digits [of 4 y] unfolding y4 by simp_all
  let ?s = "[a1, a2, a3, a4, CHR ''-'', digit_char (m div 10), digit_char (m mod 10), CHR ''-'',
    digit_char (d div 10), digit_char (d mod 10)]"
  have s: "iso_date y m d = ?s"
    using b by (simp add: iso_date_def y4 zero_pad_2)
  have m2: "is_digit (digit_char (m div 10))" "is_digit (digit_char (m mod 10))"
    "is_digit (digit_char (d div 10))" "is_digit (digit_char (d mod 10))"
    using b by (simp_all add: is_digit_digit_char)
  have match: "re_match ISO_DATE_PATTERN ?s 0 = Some (10, [(''d'', (8, 10)), (''m'', (5, 7)), (''Y'', (0, 4))])"
    by (rule iso_match [OF refl dig iso_month_chars [OF b(2,3)] iso_day_chars [OF b(4,5)]])
  have "int_of_digits [a1, a2, a3, a4] = y" using int_of_zero_pad [of 4 y] unfolding y4 .
  moreover have "int_of_digits [digit_char (m div 10), digit_char (m mod 10)] = m"
    using int_of_zero_pad [of 2 m] b by (simp add: zero_pad_2 del: int_of_zero_pad)
  moreover have "int_of_digits [digit_char (d div 10), digit_char (d mod 10)] = d"
    using int_of_zero_pad [of 2 d] b by (simp add: zero_pad_2 del: int_of_zero_pad)
  ultimately show ?thesis
    using v dig m2 by (simp add: s strptime_iso_def match int_field_def captured_def slice_def)
qed

subsection \<open>The registry\<close>

lemma month_year_output:
  assumes "generalize_month_year v = Inr r"
  obtains y m d where "strptime_iso v = Inr (y, m, d)" and "valid_date y m d"
    and "r = zero_pad 4 y @ ''-'' @ zero_pad 2 m" and "length r = 7"
proof -
  obtain y m d where t: "strptime_iso v = Inr (y, m, d)" "r = zero_pad 4 y @ ''-'' @ zero_pad 2 m"
    using assms by (auto simp: generalize_month_year_def split: sum.splits)
  have "valid_date y m d" by (rule strptime_iso_valid [OF t(1)])
  moreover from this have "length r = 7"
    unfolding t(2) by (simp add: valid_date_def length_zero_pad)
  ultimately show thesis using that t by blast
qed

lemma numeric_band_output:
  assumes "generalize_numeric w pre v = Inr r"
  obtains n where "parse_amount v = Inr n" and "r = band_of (nat (floor w)) n pre"
  using assms by (auto simp: generalize_numeric_def split: sum.splits)

text \<open>Every registered strategy: a band of a positive integral width whose prefix has no decimal mark, or a date.\<close>

definition strategy_ok :: "generalization_strategy \<Rightarrow> bool" where
  "strategy_ok st =
     (case st of
        NumericBandStrategy w pre \<Rightarrow>
          mk_numeric_band w pre = Inr st \<and> CHR ''.'' \<notin> set pre \<and> CHR '','' \<notin> set pre
      | MonthYearDateStrategy \<Rightarrow> True)"

lemma registry_ok: "dict_get GENERALIZATION_STRATEGIES category = Some st \<Longrightarrow> strategy_ok st"
  by (auto simp: GENERALIZATION_STRATEGIES_def dict_get_def strategy_ok_def mk_numeric_band_def
      MIN_NUMERIC_BAND_WIDTH_def split: if_splits)

lemma strategy_never_identity:
  assumes ok: "strategy_ok st" and out: "strategy_generalize st v = Inr r"
  shows "r \<noteq> v"
proof (cases st)
  case (NumericBandStrategy w pre)
  with out obtain n where n: "parse_amount v = Inr n" "r = band_of (nat (floor w)) n pre"
    by (auto elim: numeric_band_output)
  have "CHR ''.'' \<notin> set r" "CHR '','' \<notin> set r"
    using ok NumericBandStrategy str_nat_no_mark by (auto simp: n(2) band_of_def Let_def strategy_ok_def)
  with parsed_has_mark [OF n(1)] show ?thesis by blast
next
  case MonthYearDateStrategy
  with out have "generalize_month_year v = Inr r" by simp
  then obtain y m d where "strptime_iso v = Inr (y, m, d)" "length r = 7" by (rule month_year_output)
  with strptime_iso_long [of v] show ?thesis by force
qed

lemma strategy_error: "strategy_generalize st v = Inl e \<Longrightarrow> e = GeneralizationError"
  by (cases st) (auto simp: generalize_numeric_def generalize_month_year_def parse_amount_error split: sum.splits)

text \<open>\<open>generalize\<close> is the configured strategy: its last check never fires for a registered one.\<close>

lemma generalize_Inr_iff:
  "generalize category v = Inr r \<longleftrightarrow>
     (\<exists>st. dict_get GENERALIZATION_STRATEGIES category = Some st \<and> strategy_generalize st v = Inr r)"
  using strategy_never_identity [OF registry_ok] strategy_error
  by (auto simp: generalize_def split: option.splits sum.splits py_error.splits)

lemma generalize_error: "generalize category v = Inl e \<Longrightarrow> e = GeneralizationError"
  by (auto simp: generalize_def dest: strategy_error split: option.splits sum.splits py_error.splits if_splits)

lemma generalize_not_identity: "generalize category v = Inr r \<Longrightarrow> r \<noteq> v"
  unfolding generalize_Inr_iff using registry_ok strategy_never_identity by blast

lemma not_configured: "\<not> is_configured category \<Longrightarrow> generalize category v = Inl GeneralizationError"
  by (simp add: is_configured_def dict_has_get generalize_def)

lemma nested_div_eq:
  assumes "0 < (w::nat)"
  shows "(m div 100) div w = k \<longleftrightarrow> 100 * (w * k) \<le> m \<and> m < 100 * (w * k + w)"
proof -
  have "(m div 100) div w = m div (100 * w)" by (simp add: div_mult2_eq)
  also have "\<dots> = k \<longleftrightarrow> 100 * w * k \<le> m \<and> m < 100 * w * Suc k"
    using assms by (metis Suc_eq_plus1 add.commute div_nat_eqI dividend_less_div_times dividend_less_times_div
        mult.commute mult_Suc_right nat_0_less_mult_iff times_div_less_eq_dividend zero_less_numeral)
  finally show ?thesis by (simp add: algebra_simps)
qed

subsection \<open>Properties\<close>

text \<open>
  the amounts that are accepted, exactly: a value is read as \<open>n\<close> cents if and only if it is \<open>R$\<close>, a separator,
  whole units (plain, or in groups of three), the decimal mark and two digits, and \<open>n\<close> is the number they write.
\<close>

theorem amounts_read_exactly:
  "parse_amount v = Inr n \<longleftrightarrow> (\<exists>u c. reads_amount v u c \<and> n = amount_value u c)"
  using parse_amount_reads [of v n] reads_amount_parses [of v] by auto

text \<open>
  a banded amount discloses its band and nothing else. The text names a band of the strategy's width that
  contains the value, and another amount is generalized to the same text exactly when it lies in the same band.
\<close>

theorem band_discloses_band_only:
  assumes "dict_get GENERALIZATION_STRATEGIES category = Some (NumericBandStrategy w pre)"
    and "generalize category v = Inr r" and "parse_amount v' = Inr n'"
  shows "\<exists>n lower width. parse_amount v = Inr n \<and> w = of_nat width \<and>
    r = pre @ str_nat lower @ ''-'' @ str_nat (lower + width) \<and> width dvd lower \<and>
    100 * lower \<le> n \<and> n < 100 * (lower + width) \<and>
    (generalize category v' = Inr r \<longleftrightarrow> 100 * lower \<le> n' \<and> n' < 100 * (lower + width))"
proof -
  have ok: "strategy_ok (NumericBandStrategy w pre)" by (rule registry_ok [OF assms(1)])
  obtain width where w: "w = of_nat width" "0 < width"
  proof
    have w: "\<not> w < MIN_NUMERIC_BAND_WIDTH" "w = of_int (floor w)"
      using ok by (simp_all add: strategy_ok_def mk_numeric_band_def split: if_splits)
    then have "0 < w" by (simp add: MIN_NUMERIC_BAND_WIDTH_def)
    with w(2) have "0 < floor w" by (metis of_int_0_less_iff)
    with w(2) show "w = of_nat (nat (floor w))" and "0 < nat (floor w)" by simp_all
  qed
  have gen: "generalize category x = Inr s \<longleftrightarrow> (\<exists>m. parse_amount x = Inr m \<and> s = band_of width m pre)" for x s
    unfolding generalize_Inr_iff using assms(1) w(1) by (auto simp: generalize_numeric_def split: sum.splits)
  obtain n where n: "parse_amount v = Inr n" "r = band_of width n pre" using assms(2) gen by blast
  obtain lower where l: "band_of width n pre = pre @ str_nat lower @ ''-'' @ str_nat (lower + width)"
    "width dvd lower" "100 * lower \<le> n" "n < 100 * (lower + width)"
    by (rule band_contains [OF w(2)])
  obtain k where k: "lower = width * k" using l(2) by (elim dvdE)
  have band: "(m div 100) div width = k \<longleftrightarrow> 100 * lower \<le> m \<and> m < 100 * (lower + width)" for m
    using nested_div_eq [OF w(2)] by (simp add: k)
  have "generalize category v' = Inr r \<longleftrightarrow> (n' div 100) div width = (n div 100) div width"
    using band_of_eq_iff [OF w(2), of n' pre n] assms(3) by (auto simp: gen n(2))
  also have "(n div 100) div width = k" using band l(3,4) by blast
  finally show ?thesis using band n l w(1) by blast
qed

theorem band_discloses_band_only_witness:
  "generalize ''salary'' ''R$ 8.500,00'' = Inr ''R$ 5000-10000'' \<and>
   generalize ''salary'' ''R$ 7000.50'' = Inr ''R$ 5000-10000''"
proof -
  have g: "generalize ''salary'' ''R$ 8.500,00'' = Inr ''R$ 5000-10000''" by code_simp
  have p: "parse_amount ''R$ 7000.50'' = Inr 700050" by code_simp
  have n: "parse_amount ''R$ 8.500,00'' = Inr 850000" by code_simp
  have st: "dict_get GENERALIZATION_STRATEGIES ''salary'' = Some (NumericBandStrategy 5000 ''R$ '')" by code_simp
  obtain m lower width where b: "parse_amount ''R$ 8.500,00'' = Inr m" "(5000::rat) = of_nat width" "width dvd lower"
    "100 * lower \<le> m" "m < 100 * (lower + width)"
    "generalize ''salary'' ''R$ 7000.50'' = Inr ''R$ 5000-10000'' \<longleftrightarrow>
       100 * lower \<le> 700050 \<and> 700050 < 100 * (lower + width)"
    using band_discloses_band_only [OF st g p] by blast
  have m: "m = 850000" using b(1) n by simp
  have w: "width = 5000" using b(2) by (metis of_nat_eq_iff of_nat_numeral)
  obtain k where k: "lower = 5000 * k" using b(3) w by (elim dvdE) simp
  have "k = 1" using b(4,5) by (simp add: m w k)
  then show ?thesis using b(6) g by (simp add: w k)
qed

text \<open>
  a date is generalized to its year and month. The ISO form of every valid date is accepted and its day is
  dropped; and whatever is accepted denotes a valid date of which only the year and the month are disclosed.
\<close>

theorem dates_lose_their_day:
  assumes "dict_get GENERALIZATION_STRATEGIES category = Some MonthYearDateStrategy"
  shows "(valid_date y m d \<longrightarrow> generalize category (iso_date y m d) = Inr (zero_pad 4 y @ ''-'' @ zero_pad 2 m)) \<and>
    (generalize category v = Inr r \<longrightarrow>
       (\<exists>y m d. strptime_iso v = Inr (y, m, d) \<and> valid_date y m d \<and> r = zero_pad 4 y @ ''-'' @ zero_pad 2 m))"
proof
  show "valid_date y m d \<longrightarrow> generalize category (iso_date y m d) = Inr (zero_pad 4 y @ ''-'' @ zero_pad 2 m)"
    unfolding generalize_Inr_iff using assms strptime_iso_date by (auto simp: generalize_month_year_def)
  show "generalize category v = Inr r \<longrightarrow>
      (\<exists>y m d. strptime_iso v = Inr (y, m, d) \<and> valid_date y m d \<and> r = zero_pad 4 y @ ''-'' @ zero_pad 2 m)"
    unfolding generalize_Inr_iff using assms by (auto elim!: month_year_output)
qed

theorem dates_lose_their_day_witness:
  "generalize ''deadline'' (iso_date 2024 2 29) = Inr ''2024-02''"
proof -
  have "zero_pad 4 2024 @ ''-'' @ zero_pad 2 2 = ''2024-02''" by code_simp
  moreover have "valid_date 2024 2 29" by code_simp
  moreover have "dict_get GENERALIZATION_STRATEGIES ''deadline'' = Some MonthYearDateStrategy" by code_simp
  ultimately show ?thesis using dates_lose_their_day [of "''deadline''" 2024 2 29] by simp
qed

text \<open>
  \<open>generalize\<close> never returns the value it was given and raises nothing but \<open>GeneralizationError\<close>, which it
  does for every category without a strategy.
\<close>

theorem generalization_hides:
  "case generalize category v of
     Inr r \<Rightarrow> r \<noteq> v \<and> is_configured category
   | Inl e \<Rightarrow> e = GeneralizationError"
proof (cases "generalize category v")
  case (Inl e)
  then show ?thesis using generalize_error by simp
next
  case (Inr r)
  then have "is_configured category" using not_configured by force
  with Inr show ?thesis using generalize_not_identity by simp
qed

end
