(* ===== verification/Vault.thy ===== *)
theory Vault
  imports Domain
begin

text \<open>
  \<open>vault/base.py\<close> and \<open>vault/in_memory.py\<close>. The abstract class \<open>Vault\<close> is a record of its two
  operations over a state; its documented contract is the locale \<open>vault_contract\<close> (stability,
  reconstruction of what was issued, no pseudonym shared by two values, nothing lost, no
  effect on other partitions). \<open>InMemoryVault\<close> is the state record below: the token factory is
  the sequence of strings its successive calls return, with the number of calls made so far.

  The lemmas prove the collision loop terminates for every token factory, bound its calls,
  and show that every operation keeps the invariant; the interpretation \<open>in_memory\<close>
  discharges the contract.
\<close>

subsection \<open>The interface\<close>

record 'v vault_ops =
  vo_pseudonymize :: "'v \<Rightarrow> pseudonym_scope \<Rightarrow> pystr \<Rightarrow> pystr \<Rightarrow> pystr \<Rightarrow> pystr \<times> 'v"
  vo_reconstruct :: "'v \<Rightarrow> pseudonym_scope \<Rightarrow> pystr \<Rightarrow> pystr \<Rightarrow> pystr option"

locale vault_contract =
  fixes ops :: "'v vault_ops"
    and inv :: "'v \<Rightarrow> bool"
    and issued :: "'v \<Rightarrow> pseudonym_scope \<Rightarrow> pystr \<Rightarrow> pystr \<Rightarrow> pystr \<Rightarrow> pystr \<Rightarrow> bool"
  assumes inv_pseudonymize: "inv v \<Longrightarrow> inv (snd (vo_pseudonymize ops v s k c x))"
    and issued_pseudonymize: "inv v \<Longrightarrow>
      issued (snd (vo_pseudonymize ops v s k c x)) s' k' c' x' p \<longleftrightarrow>
        issued v s' k' c' x' p \<or>
        (s' = s \<and> k' = k \<and> c' = c \<and> x' = x \<and> p = fst (vo_pseudonymize ops v s k c x))"
    and issued_stable: "inv v \<Longrightarrow> issued v s k c x p \<Longrightarrow> fst (vo_pseudonymize ops v s k c x) = p"
    and issued_injective: "inv v \<Longrightarrow> issued v s k c x p \<Longrightarrow> issued v s k c' x' p \<Longrightarrow> c' = c \<and> x' = x"
    and reconstruct_iff: "inv v \<Longrightarrow> vo_reconstruct ops v s k p = Some x \<longleftrightarrow> (\<exists>c. issued v s k c x p)"
begin

lemma pseudonymize_issues:
  "inv v \<Longrightarrow> issued (snd (vo_pseudonymize ops v s k c x)) s k c x (fst (vo_pseudonymize ops v s k c x))"
  by (simp add: issued_pseudonymize)

lemma reconstruct_pseudonymize:
  "inv v \<Longrightarrow>
     vo_reconstruct ops (snd (vo_pseudonymize ops v s k c x)) s k (fst (vo_pseudonymize ops v s k c x)) = Some x"
  using reconstruct_iff inv_pseudonymize pseudonymize_issues by blast

lemma pseudonymize_stable:
  assumes "inv v" and "vo_pseudonymize ops v s k c x = (p, v')"
  shows "fst (vo_pseudonymize ops v' s k c x) = p"
  using assms issued_stable [OF inv_pseudonymize pseudonymize_issues, of v s k c x]
  by (metis fst_conv snd_conv)

lemma reconstruct_mono:
  assumes "inv v" and "vo_reconstruct ops v s' k' p = Some y"
  shows "vo_reconstruct ops (snd (vo_pseudonymize ops v s k c x)) s' k' p = Some y"
  using assms reconstruct_iff inv_pseudonymize issued_pseudonymize by metis

lemma reconstruct_other_partition:
  assumes "inv v" and "(s', k') \<noteq> (s, k)"
  shows "vo_reconstruct ops (snd (vo_pseudonymize ops v s k c x)) s' k' p = vo_reconstruct ops v s' k' p"
proof -
  have "issued (snd (vo_pseudonymize ops v s k c x)) s' k' c' y p \<longleftrightarrow> issued v s' k' c' y p" for c' y
    using assms by (auto simp: issued_pseudonymize)
  then have "vo_reconstruct ops (snd (vo_pseudonymize ops v s k c x)) s' k' p = Some y \<longleftrightarrow>
      vo_reconstruct ops v s' k' p = Some y" for y
    using assms(1) by (simp add: reconstruct_iff inv_pseudonymize)
  then show ?thesis by (metis option.exhaust)
qed

end

subsection \<open>The in-memory vault\<close>

type_synonym partition = "pystr \<times> pystr"

record in_memory_vault =
  token_factory :: "nat \<Rightarrow> pystr"
  token_calls :: nat
  vt_forward :: "(partition, (pystr \<times> pystr, pystr) dict) dict"
  vt_reverse :: "(partition, (pystr, pystr) dict) dict"

definition new_vault :: "(nat \<Rightarrow> pystr) \<Rightarrow> in_memory_vault" where
  "new_vault factory = \<lparr>token_factory = factory, token_calls = 0, vt_forward = [], vt_reverse = []\<rparr>"

definition make_pseudonym :: "pystr \<Rightarrow> pystr \<Rightarrow> nat \<Rightarrow> pystr" where
  "make_pseudonym category token n =
     (if n = 0 then ''PSEUDO-'' @ category @ ''-'' @ token
      else ''PSEUDO-'' @ category @ ''-'' @ token @ ''-'' @ str_nat n)"

text \<open>The suffixes for which some key of the reverse map could still collide.\<close>

definition taken_suffixes :: "(pystr, pystr) dict \<Rightarrow> nat set" where
  "taken_suffixes reverse = {k. \<exists>p \<in> fst ` set reverse. suffix (''-'' @ str_nat k) p}"

lemma dash_suffix_inj:
  assumes "suffix (''-'' @ str_nat j) p" and "suffix (''-'' @ str_nat k) p"
  shows "j = k"
proof -
  have no_dash: "CHR ''-'' \<notin> set (str_nat n)" for n
    using str_nat_digits [of "CHR ''-''" n] by (auto simp: is_digit_def)
  have tail: "takeWhile (\<lambda>c. c \<noteq> CHR ''-'') (rev p) = rev (str_nat n)"
    if ends: "suffix (''-'' @ str_nat n) p" for n
  proof -
    obtain q where "p = q @ CHR ''-'' # str_nat n" using ends by (auto simp: suffix_def)
    then show ?thesis using no_dash [of n] by (auto simp: takeWhile_append)
  qed
  have "rev (str_nat j) = rev (str_nat k)" using tail [OF assms(1)] tail [OF assms(2)] by simp
  then show ?thesis by simp
qed

lemma finite_taken_suffixes: "finite (taken_suffixes reverse)"
  and card_taken_suffixes: "card (taken_suffixes reverse) \<le> length reverse"
proof -
  define f where "f k = (SOME p. p \<in> fst ` set reverse \<and> suffix (''-'' @ str_nat k) p)" for k
  have f: "f k \<in> fst ` set reverse \<and> suffix (''-'' @ str_nat k) (f k)" if "k \<in> taken_suffixes reverse" for k
  proof -
    have "\<exists>p. p \<in> fst ` set reverse \<and> suffix (''-'' @ str_nat k) p"
      using that by (auto simp: taken_suffixes_def)
    then show ?thesis unfolding f_def by (rule someI_ex)
  qed
  then have inj: "inj_on f (taken_suffixes reverse)"
    by (intro inj_onI) (metis dash_suffix_inj)
  have sub: "f ` taken_suffixes reverse \<subseteq> fst ` set reverse" using f by blast
  show "finite (taken_suffixes reverse)"
    using inj sub by (rule inj_on_finite) simp
  have "card (taken_suffixes reverse) \<le> card (fst ` set reverse)"
    using card_inj_on_le [OF inj sub] by simp
  also have "\<dots> \<le> length reverse"
    by (metis card_length length_map set_map)
  finally show "card (taken_suffixes reverse) \<le> length reverse" .
qed

text \<open>
  The collision loop, from the suffix that is tried next. What shrinks: the first try aside,
  a collision at suffix \<open>k\<close> needs a key that ends in \<open>-k\<close>, and every key ends in one such
  numeral at most.
\<close>

definition collision_measure :: "(pystr, pystr) dict \<Rightarrow> nat \<Rightarrow> nat" where
  "collision_measure reverse n = card {k \<in> taken_suffixes reverse. n \<le> k} + (if n = 0 then 1 else 0)"

lemma collision_measure_decreases:
  assumes "dict_has reverse (make_pseudonym category token n)"
  shows "collision_measure reverse (Suc n) < collision_measure reverse n"
proof -
  have fin: "finite {k \<in> taken_suffixes reverse. n \<le> k}" using finite_taken_suffixes by simp
  have sub: "{k \<in> taken_suffixes reverse. Suc n \<le> k} \<subseteq> {k \<in> taken_suffixes reverse. n \<le> k}" by auto
  show ?thesis
  proof (cases "n = 0")
    case True
    with card_mono [OF fin sub] show ?thesis by (simp add: collision_measure_def)
  next
    case False
    have "make_pseudonym category token n = (''PSEUDO-'' @ category @ ''-'' @ token) @ (''-'' @ str_nat n)"
      using False by (simp add: make_pseudonym_def)
    then have "suffix (''-'' @ str_nat n) (make_pseudonym category token n)" by (metis suffixI)
    then have "n \<in> taken_suffixes reverse"
      using assms unfolding taken_suffixes_def dict_has_def by force
    then have "n \<in> {k \<in> taken_suffixes reverse. n \<le> k} - {k \<in> taken_suffixes reverse. Suc n \<le> k}"
      by simp
    with sub have "{k \<in> taken_suffixes reverse. Suc n \<le> k} \<subset> {k \<in> taken_suffixes reverse. n \<le> k}"
      by blast
    then show ?thesis using psubset_card_mono [OF fin] False by (simp add: collision_measure_def)
  qed
qed

function fresh_pseudonym ::
  "(nat \<Rightarrow> pystr) \<Rightarrow> (pystr, pystr) dict \<Rightarrow> pystr \<Rightarrow> nat \<Rightarrow> nat \<Rightarrow> pystr \<times> nat" where
  "fresh_pseudonym factory reverse category calls n =
     (let candidate = make_pseudonym category (factory calls) n in
      if dict_has reverse candidate then fresh_pseudonym factory reverse category (Suc calls) (Suc n)
      else (candidate, Suc calls))"
  by pat_completeness auto
termination
  by (relation "measure (\<lambda>(factory, reverse, category, calls, n). collision_measure reverse n)")
    (auto simp: collision_measure_decreases)

declare fresh_pseudonym.simps [simp del]

definition part_of :: "pseudonym_scope \<Rightarrow> pystr \<Rightarrow> partition" where
  "part_of scope scope_key = (scope_value scope, scope_key)"

definition submap :: "('k, ('a, 'b) dict) dict \<Rightarrow> 'k \<Rightarrow> ('a, 'b) dict" where
  "submap d k = dict_get_default d k []"

definition pseudonymize ::
  "in_memory_vault \<Rightarrow> pseudonym_scope \<Rightarrow> pystr \<Rightarrow> pystr \<Rightarrow> pystr \<Rightarrow> pystr \<times> in_memory_vault" where
  "pseudonymize v scope scope_key category val =
     (let part = part_of scope scope_key;
          forward = submap (vt_forward v) part;
          reverse = submap (vt_reverse v) part;
          v1 = v\<lparr>vt_forward := dict_set (vt_forward v) part forward,
                 vt_reverse := dict_set (vt_reverse v) part reverse\<rparr>
      in case dict_get forward (category, val) of
           Some existing \<Rightarrow> (existing, v1)
         | None \<Rightarrow>
             let (candidate, calls) =
                   fresh_pseudonym (token_factory v) reverse category (token_calls v) 0
             in (candidate,
                 v1\<lparr>token_calls := calls,
                    vt_forward := dict_set (vt_forward v) part (dict_set forward (category, val) candidate),
                    vt_reverse := dict_set (vt_reverse v) part (dict_set reverse candidate val)\<rparr>))"

definition vault_reconstruct ::
  "in_memory_vault \<Rightarrow> pseudonym_scope \<Rightarrow> pystr \<Rightarrow> pystr \<Rightarrow> pystr option" where
  "vault_reconstruct v scope scope_key pseudonym =
     dict_get (submap (vt_reverse v) (part_of scope scope_key)) pseudonym"

definition in_memory_ops :: "in_memory_vault vault_ops" where
  "in_memory_ops = \<lparr>vo_pseudonymize = pseudonymize, vo_reconstruct = vault_reconstruct\<rparr>"

subsection \<open>The loop finds a fresh pseudonym, within a bound\<close>

lemma fresh_pseudonym_spec:
  "fresh_pseudonym factory reverse category calls n = (p, calls') \<Longrightarrow>
     dict_get reverse p = None \<and> calls < calls' \<and>
     calls' \<le> calls + collision_measure reverse n + 1 \<and>
     p = make_pseudonym category (factory (calls' - 1)) (n + (calls' - calls - 1))"
proof (induction factory reverse category calls n rule: fresh_pseudonym.induct)
  case (1 factory reverse category calls n)
  let ?c = "make_pseudonym category (factory calls) n"
  show ?case
  proof (cases "dict_has reverse ?c")
    case True
    with "1.prems" have "fresh_pseudonym factory reverse category (Suc calls) (Suc n) = (p, calls')"
      by (simp add: fresh_pseudonym.simps [of factory reverse category calls n] Let_def)
    with "1.IH" [OF refl True] collision_measure_decreases [OF True] show ?thesis
      by (auto simp: Suc_diff_Suc)
  next
    case False
    with "1.prems" show ?thesis
      by (auto simp: fresh_pseudonym.simps [of factory reverse category calls n] Let_def dict_has_get)
  qed
qed

lemma collision_measure_bound: "collision_measure reverse 0 \<le> length reverse + 1"
  using card_taken_suffixes [of reverse] by (simp add: collision_measure_def)

subsection \<open>Invariant: the two maps are inverse to each other in every partition\<close>

definition vault_inv :: "in_memory_vault \<Rightarrow> bool" where
  "vault_inv v \<longleftrightarrow>
     (\<forall>part p x. dict_get (submap (vt_reverse v) part) p = Some x \<longleftrightarrow>
        (\<exists>c. dict_get (submap (vt_forward v) part) (c, x) = Some p)) \<and>
     (\<forall>part c x c' x' p. dict_get (submap (vt_forward v) part) (c, x) = Some p \<longrightarrow>
        dict_get (submap (vt_forward v) part) (c', x') = Some p \<longrightarrow> c' = c \<and> x' = x)"

definition vault_issued ::
  "in_memory_vault \<Rightarrow> pseudonym_scope \<Rightarrow> pystr \<Rightarrow> pystr \<Rightarrow> pystr \<Rightarrow> pystr \<Rightarrow> bool" where
  "vault_issued v s k c x p \<longleftrightarrow> dict_get (submap (vt_forward v) (part_of s k)) (c, x) = Some p"

lemma submap_set [simp]: "submap (dict_set d k m) j = (if j = k then m else submap d j)"
  by (simp add: submap_def dict_get_default_def dict_set_def update_conv')

lemma submap_Nil [simp]: "submap [] k = []"
  by (simp add: submap_def dict_get_default_def)

lemma vault_inv_new: "vault_inv (new_vault factory)"
  by (simp add: vault_inv_def new_vault_def)

text \<open>The effect of one call on the two maps, in both branches.\<close>

lemma pseudonymize_known:
  assumes "dict_get (submap (vt_forward v) (part_of s k)) (c, x) = Some q"
    and "pseudonymize v s k c x = (p, v')"
  shows "p = q" and "submap (vt_forward v') part = submap (vt_forward v) part"
    and "submap (vt_reverse v') part = submap (vt_reverse v) part" and "token_calls v' = token_calls v"
  using assms by (auto simp: pseudonymize_def Let_def)

lemma pseudonymize_new:
  assumes "dict_get (submap (vt_forward v) (part_of s k)) (c, x) = None"
    and "pseudonymize v s k c x = (p, v')"
  shows "fresh_pseudonym (token_factory v) (submap (vt_reverse v) (part_of s k)) c (token_calls v) 0 =
           (p, token_calls v')"
    and "submap (vt_forward v') part =
           (if part = part_of s k then dict_set (submap (vt_forward v) part) (c, x) p
            else submap (vt_forward v) part)"
    and "submap (vt_reverse v') part =
           (if part = part_of s k then dict_set (submap (vt_reverse v) part) p x
            else submap (vt_reverse v) part)"
  using assms by (auto simp: pseudonymize_def Let_def split: prod.splits)

lemma part_of_inj [simp]: "part_of s k = part_of s' k' \<longleftrightarrow> s = s' \<and> k = k'"
  by (cases s; cases s') (simp_all add: part_of_def)

lemma pseudonymize_inv:
  assumes "vault_inv v" and "pseudonymize v s k c x = (p, v')"
  shows "vault_inv v'"
proof (cases "dict_get (submap (vt_forward v) (part_of s k)) (c, x)")
  case (Some q)
  with assms show ?thesis
    using pseudonymize_known [OF Some assms(2)] by (simp add: vault_inv_def)
next
  case None
  note new = pseudonymize_new [OF None assms(2)]
  have fresh: "dict_get (submap (vt_reverse v) (part_of s k)) p = None"
    using fresh_pseudonym_spec [OF new(1)] by blast
  then have unused: "dict_get (submap (vt_forward v) (part_of s k)) (c', x') \<noteq> Some p" for c' x'
    using assms(1) unfolding vault_inv_def by (metis option.distinct(1))
  show ?thesis
    using assms(1) None fresh unused unfolding vault_inv_def new(2,3)
    by (auto split: if_splits) (metis+)?
qed

interpretation in_memory: vault_contract in_memory_ops vault_inv vault_issued
proof unfold_locales
  fix v s k c x p s' k' c' x'
  assume inv: "vault_inv v"
  obtain q v' where q: "pseudonymize v s k c x = (q, v')" by (cases "pseudonymize v s k c x")
  show "vault_inv (snd (vo_pseudonymize in_memory_ops v s k c x))"
    using pseudonymize_inv [OF inv q] q by (simp add: in_memory_ops_def)
  show "vault_issued (snd (vo_pseudonymize in_memory_ops v s k c x)) s' k' c' x' p \<longleftrightarrow>
      vault_issued v s' k' c' x' p \<or>
      (s' = s \<and> k' = k \<and> c' = c \<and> x' = x \<and> p = fst (vo_pseudonymize in_memory_ops v s k c x))"
  proof (cases "dict_get (submap (vt_forward v) (part_of s k)) (c, x)")
    case (Some r)
    then show ?thesis using pseudonymize_known [OF Some q] q
      by (auto simp: vault_issued_def in_memory_ops_def)
  next
    case None
    then show ?thesis using pseudonymize_new [OF None q] q
      by (auto simp: vault_issued_def in_memory_ops_def)
  qed
next
  fix v s k c x p
  assume "vault_inv v" and issued: "vault_issued v s k c x p"
  obtain q v' where q: "pseudonymize v s k c x = (q, v')" by (cases "pseudonymize v s k c x")
  show "fst (vo_pseudonymize in_memory_ops v s k c x) = p"
    using pseudonymize_known(1) [OF issued [unfolded vault_issued_def] q] q by (simp add: in_memory_ops_def)
next
  fix v s k c x p c' x'
  assume "vault_inv v" and "vault_issued v s k c x p" and "vault_issued v s k c' x' p"
  then show "c' = c \<and> x' = x" unfolding vault_inv_def vault_issued_def by blast
next
  fix v s k p x
  assume "vault_inv v"
  then show "vo_reconstruct in_memory_ops v s k p = Some x \<longleftrightarrow> (\<exists>c. vault_issued v s k c x p)"
    unfolding vault_inv_def vault_issued_def vault_reconstruct_def in_memory_ops_def
      vault_ops.simps by (elim conjE) blast
qed

subsection \<open>The states a vault can reach\<close>

inductive vault_step :: "in_memory_vault \<Rightarrow> in_memory_vault \<Rightarrow> bool" where
  issue: "pseudonymize v s k c x = (p, v') \<Longrightarrow> vault_step v v'"

inductive_cases vault_stepE: "vault_step v v'"

inductive reachable_vault :: "(nat \<Rightarrow> pystr) \<Rightarrow> in_memory_vault \<Rightarrow> bool" for factory where
  start: "reachable_vault factory (new_vault factory)"
| step: "reachable_vault factory v \<Longrightarrow> vault_step v v' \<Longrightarrow> reachable_vault factory v'"

lemma vault_step_inv: "vault_inv v \<Longrightarrow> vault_step v v' \<Longrightarrow> vault_inv v'"
  by (auto elim: vault_stepE dest: pseudonymize_inv)

lemma reachable_inv: "reachable_vault factory v \<Longrightarrow> vault_inv v"
  by (induction rule: reachable_vault.induct) (auto simp: vault_inv_new dest: vault_step_inv)

lemma vault_step_issued: "vault_inv v \<Longrightarrow> vault_step v v' \<Longrightarrow> vault_issued v s k c x p \<Longrightarrow> vault_issued v' s k c x p"
proof (erule vault_stepE)
  fix s' k' c' x' q
  assume "vault_inv v" and "vault_issued v s k c x p" and "pseudonymize v s' k' c' x' = (q, v')"
  then show "vault_issued v' s k c x p"
    using in_memory.issued_pseudonymize [of v s' k' c' x' s k c x p] by (simp add: in_memory_ops_def)
qed

lemma vault_reconstruct_new [simp]: "vault_reconstruct (new_vault factory) s k p = None"
  by (simp add: vault_reconstruct_def new_vault_def)

lemma vault_steps_issued:
  assumes "vault_step\<^sup>*\<^sup>* v v'" and "vault_inv v" and "vault_issued v s k c x p"
  shows "vault_inv v' \<and> vault_issued v' s k c x p"
  using assms by (induction rule: rtranclp_induct) (auto dest: vault_step_inv vault_step_issued)

lemma pseudonymize_issued:
  assumes "vault_inv v" and "pseudonymize v s k c x = (p, v')"
  shows "vault_issued v' s k c x p"
  using in_memory.pseudonymize_issues [OF assms(1), of s k c x] assms(2) by (simp add: in_memory_ops_def)

lemma issued_pseudonymize_same:
  assumes "vault_issued v s k c x p"
  obtains v' where "pseudonymize v s k c x = (p, v')"
  using assms by (auto simp: vault_issued_def pseudonymize_def Let_def)

subsection \<open>Properties\<close>

text \<open>
  one call of \<open>pseudonymize\<close> keeps the invariant and changes what the vault reconstructs at one
  place only: in its own partition, at the pseudonym it returned, which now reconstructs to the value.
  Every other pseudonym of every partition reconstructs as before.
\<close>

theorem pseudonymize_effect:
  assumes "vault_inv v" and "pseudonymize v s k c x = (p, v')"
  shows "vault_inv v' \<and>
    vault_reconstruct v' s' k' q =
      (if s' = s \<and> k' = k \<and> q = p then Some x else vault_reconstruct v s' k' q)"
proof
  show "vault_inv v'" by (rule pseudonymize_inv [OF assms])
  show "vault_reconstruct v' s' k' q = (if s' = s \<and> k' = k \<and> q = p then Some x else vault_reconstruct v s' k' q)"
  proof (cases "dict_get (submap (vt_forward v) (part_of s k)) (c, x)")
    case (Some r)
    then have "vault_reconstruct v s k r = Some x"
      using in_memory.reconstruct_iff [OF assms(1)] by (auto simp: vault_issued_def in_memory_ops_def)
    with pseudonymize_known [OF Some assms(2)] show ?thesis by (simp add: vault_reconstruct_def)
  next
    case None
    from pseudonymize_new(3) [OF None assms(2)] show ?thesis by (simp add: vault_reconstruct_def)
  qed
qed

definition counting_vault :: in_memory_vault where
  "counting_vault = new_vault str_nat"

theorem pseudonymize_effect_witness:
  "vault_inv (snd (pseudonymize counting_vault REQUEST ''r1'' ''cpf'' ''111'')) \<and>
   vault_reconstruct (snd (pseudonymize counting_vault REQUEST ''r1'' ''cpf'' ''111'')) REQUEST ''r2'' ''PSEUDO-cpf-0'' = None"
  using pseudonymize_effect [OF vault_inv_new prod.collapse [symmetric],
      of str_nat REQUEST "''r1''" "''cpf''" "''111''" REQUEST "''r2''" "''PSEUDO-cpf-0''"]
  by (simp add: counting_vault_def)

text \<open>
  C18: in every vault that can be reached from an empty one, a pseudonym once returned for a category and a
  value stays with them whatever is issued afterwards: the same call returns it again, it reconstructs to the
  value, and no other category or value of its partition ever gets it.
\<close>

theorem pseudonym_for_good:
  assumes "reachable_vault factory v" and "pseudonymize v s k c x = (p, v1)" and "vault_step\<^sup>*\<^sup>* v1 v2"
  shows "vault_reconstruct v2 s k p = Some x \<and> fst (pseudonymize v2 s k c x) = p \<and>
    (fst (pseudonymize v2 s k c' x') = p \<longrightarrow> c' = c \<and> x' = x)"
proof -
  have inv: "vault_inv v1" by (rule pseudonymize_inv [OF reachable_inv [OF assms(1)] assms(2)])
  from vault_steps_issued [OF assms(3) inv pseudonymize_issued [OF reachable_inv [OF assms(1)] assms(2)]]
  have v2: "vault_inv v2" "vault_issued v2 s k c x p" by simp_all
  obtain q v3 where q: "pseudonymize v2 s k c' x' = (q, v3)" by force
  have v3: "vault_inv v3" "vault_issued v3 s k c x p" "vault_issued v3 s k c' x' q"
    using pseudonymize_inv [OF v2(1) q] vault_step_issued [OF v2(1) issue [OF q] v2(2)] pseudonymize_issued [OF v2(1) q]
    by simp_all
  have "vault_reconstruct v2 s k p = Some x"
    using in_memory.reconstruct_iff [OF v2(1), of s k p x] v2(2) by (auto simp: in_memory_ops_def)
  moreover have "fst (pseudonymize v2 s k c x) = p" by (rule issued_pseudonymize_same [OF v2(2)]) simp
  moreover have "c' = c \<and> x' = x" if "q = p"
    using in_memory.issued_injective [OF v3(1,2)] v3(3) that by blast
  ultimately show ?thesis using q by simp
qed

theorem pseudonym_for_good_witness:
  "fst (pseudonymize (snd (pseudonymize counting_vault REQUEST ''r1'' ''cpf'' ''111'')) REQUEST ''r1'' ''cpf'' ''111'') =
     fst (pseudonymize counting_vault REQUEST ''r1'' ''cpf'' ''111'')"
  using pseudonym_for_good [OF start prod.collapse [symmetric] rtranclp.rtrancl_refl,
      of str_nat REQUEST "''r1''" "''cpf''" "''111''" "''cpf''" "''111''"]
  by (simp add: counting_vault_def)

text \<open>
  C39: the collision loop of \<open>pseudonymize\<close> ends for every token factory, even one that returns the same token
  for ever: it returns a pseudonym that is not yet in the partition, after at most two calls of the factory more
  than the partition has pseudonyms.
\<close>

theorem collision_loop_ends:
  assumes "dict_get (submap (vt_forward v) (part_of s k)) (c, x) = None" and "pseudonymize v s k c x = (p, v')"
  shows "vault_reconstruct v s k p = None \<and> token_calls v < token_calls v' \<and>
    token_calls v' \<le> token_calls v + length (submap (vt_reverse v) (part_of s k)) + 2 \<and>
    (\<exists>n. p = make_pseudonym c (token_factory v (token_calls v' - 1)) n)"
  using fresh_pseudonym_spec [OF pseudonymize_new(1) [OF assms]]
    collision_measure_bound [of "submap (vt_reverse v) (part_of s k)"]
  by (auto simp: vault_reconstruct_def)

definition stuck_vault :: in_memory_vault where
  "stuck_vault = snd (pseudonymize (new_vault (\<lambda>_. ''same'')) REQUEST ''r1'' ''cpf'' ''111'')"

lemma stuck_vault_eq:
  "stuck_vault = \<lparr>token_factory = (\<lambda>_. ''same''), token_calls = 1,
     vt_forward = [((''request'', ''r1''), [((''cpf'', ''111''), ''PSEUDO-cpf-same'')])],
     vt_reverse = [((''request'', ''r1''), [(''PSEUDO-cpf-same'', ''111'')])]\<rparr>"
  by (simp add: stuck_vault_def new_vault_def pseudonymize_def part_of_def submap_def dict_get_default_def
      dict_get_def fresh_pseudonym.simps [of _ "[]"] make_pseudonym_def dict_has_def dict_set_def Let_def)

theorem collision_loop_ends_witness:
  "vault_reconstruct stuck_vault REQUEST ''r1'' (fst (pseudonymize stuck_vault REQUEST ''r1'' ''cpf'' ''222'')) = None"
  using collision_loop_ends [OF _ prod.collapse [symmetric], of stuck_vault REQUEST "''r1''" "''cpf''" "''222''"]
  by (simp add: stuck_vault_eq part_of_def submap_def dict_get_default_def dict_get_def)

end
