(* ===== verification/Decision_Application.thy ===== *)
theory Decision_Application
  imports Policies Generalization Vault Detection
begin

text \<open>
  \<open>transformations/decision_application.py\<close>: what B2, B3 and B4 share once the action of every
  span is decided. GENERALIZE is attempted first, and a failure downgrades that span to
  BLOCK_REQUEST; any block empties the result; otherwise the pseudonym scope and its key are
  resolved and the payload is laid out from left to right, the vault being called for every
  PSEUDONYMIZE span. Reconstruction replaces the issued pseudonyms in a response.

  A callback \<open>decide\<close> may raise, so it returns a \<open>result\<close>. The vault is its \<open>vault_ops\<close> record with
  the state threaded through the walk. The lemmas about the vault are proved in the
  context of \<open>vault_contract\<close>, hence for every vault that keeps the contract.
\<close>

record action_decision =
  ad_action :: disclosure_action
  ad_reason :: pystr
  ad_task_required :: "bool option"
  ad_allowed_actions :: "disclosure_action list option"
  ad_policy_version :: "pystr option"
  ad_policy_restricted :: "bool option"
  ad_impossible_under_policy :: "bool option"

definition plain_action :: "disclosure_action \<Rightarrow> pystr \<Rightarrow> action_decision" where
  "plain_action act reason =
     \<lparr>ad_action = act, ad_reason = reason, ad_task_required = None, ad_allowed_actions = None,
      ad_policy_version = None, ad_policy_restricted = None, ad_impossible_under_policy = None\<rparr>"

record treatment_reasons =
  tre_invalid_spans :: pystr
  tre_missing_scope_identifier :: pystr

record apply_outcome =
  ao_result :: disclosure_result
  ao_blocked :: bool
  ao_pseudonym_scope :: "pseudonym_scope option"

record reconstruction_outcome =
  ro_text :: pystr
  ro_pseudonym_count :: nat
  ro_authorized :: bool

definition scope_identifier :: "pseudonym_scope \<Rightarrow> governance_context \<Rightarrow> pystr option" where
  "scope_identifier scope ctx =
     (case scope of
        REQUEST \<Rightarrow> ctx_request_id ctx
      | DOCUMENT \<Rightarrow> ctx_document_id ctx
      | SESSION \<Rightarrow> ctx_session_id ctx
      | ORGANIZATION \<Rightarrow> None)"

definition scope_key :: "pseudonym_scope \<Rightarrow> governance_context \<Rightarrow> pystr option" where
  "scope_key scope ctx =
     (if scope = ORGANIZATION then Some (''organization:'' @ ctx_domain ctx)
      else case scope_identifier scope ctx of
             None \<Rightarrow> None
           | Some ident \<Rightarrow> Some (scope_value scope @ '':'' @ ctx_domain ctx @ '':'' @ ident))"

definition GENERALIZE_FAILED :: pystr where
  "GENERALIZE_FAILED =
     '' -- but no generalization strategy is configured for this category, or the configured strategy could not parse this value, so the category fails closed instead of disclosing it''"

fun resolve_generalize_downgrades ::
  "(sensitive_span \<Rightarrow> action_decision result) \<Rightarrow> nat \<Rightarrow> sensitive_span list \<Rightarrow>
     (action_decision list \<times> (nat, pystr) dict) result" where
  "resolve_generalize_downgrades dec index [] = Inr ([], [])"
| "resolve_generalize_downgrades dec index (sp # sps) =
     (case dec sp of
        Inl e \<Rightarrow> Inl e
      | Inr d \<Rightarrow>
          (case (if ad_action d = GENERALIZE then
                   (case generalize (sp_category sp) (sp_value sp) of
                      Inr g \<Rightarrow> Inr (d, [(index, g)])
                    | Inl GeneralizationError \<Rightarrow>
                        Inr ((plain_action BLOCK_REQUEST (ad_reason d @ GENERALIZE_FAILED))
                               \<lparr>ad_task_required := ad_task_required d\<rparr>, [])
                    | Inl e \<Rightarrow> Inl e)
                 else Inr (d, [])) of
             Inl e \<Rightarrow> Inl e
           | Inr (d', entry) \<Rightarrow>
               (case resolve_generalize_downgrades dec (Suc index) sps of
                  Inl e \<Rightarrow> Inl e
                | Inr (ds, values) \<Rightarrow> Inr (d' # ds, entry @ values))))"

definition blocking_decision :: "pystr \<Rightarrow> pystr \<Rightarrow> policy_decision" where
  "blocking_decision reason category = plain_decision category BLOCK_REQUEST reason [BLOCK_REQUEST]"

definition invalid_span_result :: "sensitive_span list \<Rightarrow> treatment_reasons \<Rightarrow> disclosure_result" where
  "invalid_span_result spans reasons =
     blocked_with (map (blocking_decision (tre_invalid_spans reasons)) (sorted_set (map sp_category spans)))"

fun setdefault :: "('k, 'v) dict \<Rightarrow> 'k \<Rightarrow> 'v \<Rightarrow> ('k, 'v) dict" where
  "setdefault d k v = (if dict_has d k then d else dict_set d k v)"

definition blocked_result :: "sensitive_span list \<Rightarrow> action_decision list \<Rightarrow> disclosure_result" where
  "blocked_result ordered decisions =
     (let by_category =
            foldl (\<lambda>d (sp, dec). if ad_action dec = BLOCK_REQUEST then setdefault d (sp_category sp) (ad_reason dec)
                                 else d) [] (zip ordered decisions)
      in blocked_with (map (\<lambda>(category, reason). blocking_decision reason category) (sort by_category)))"

definition missing_scope_identifier_result ::
  "sensitive_span list \<Rightarrow> treatment_reasons \<Rightarrow> disclosure_result" where
  "missing_scope_identifier_result ordered reasons =
     blocked_with
       (map (blocking_decision (tre_missing_scope_identifier reasons)) (sorted_set (map sp_category ordered)))"

definition allowed_decision :: "pystr \<Rightarrow> action_decision \<Rightarrow> policy_decision" where
  "allowed_decision category d =
     \<lparr>pd_category = category, pd_action = ad_action d, pd_reason = ad_reason d,
      pd_task_required = ad_task_required d,
      pd_allowed_actions = the_default [ad_action d] (ad_allowed_actions d),
      pd_policy_version = ad_policy_version d, pd_policy_restricted = ad_policy_restricted d,
      pd_impossible_under_policy = ad_impossible_under_policy d\<rparr>"

text \<open>What one span becomes, with the vault after the call.\<close>

definition transform_span ::
  "'v vault_ops \<Rightarrow> pseudonym_scope \<Rightarrow> pystr \<Rightarrow> (nat, pystr) dict \<Rightarrow> nat \<Rightarrow> 'v \<Rightarrow>
     sensitive_span \<Rightarrow> disclosure_action \<Rightarrow> (pystr option \<times> 'v) result" where
  "transform_span ops scope key values index v sp act =
     (if act = REMOVE then Inr (None, v)
      else if act = GENERALIZE then
        (case dict_get values index of None \<Rightarrow> Inl KeyError | Some g \<Rightarrow> Inr (Some g, v))
      else if act = PSEUDONYMIZE then
        (let (p, v') = vo_pseudonymize ops v scope key (sp_category sp) (sp_value sp) in Inr (Some p, v'))
      else Inr (Some (sp_value sp), v))"

record 'v walk =
  wk_parts :: "pystr list"
  wk_transformations :: "transformation list"
  wk_decisions :: "policy_decision list"
  wk_any_pseudonymized :: bool
  wk_vault :: 'v

fun allowed_walk ::
  "'v vault_ops \<Rightarrow> pseudonym_scope \<Rightarrow> pystr \<Rightarrow> pystr \<Rightarrow> (nat, pystr) dict \<Rightarrow> nat \<Rightarrow> nat \<Rightarrow>
     pystr list \<Rightarrow> 'v \<Rightarrow> (sensitive_span \<times> action_decision) list \<Rightarrow> 'v walk result" where
  "allowed_walk ops scope key text values index cursor seen v [] =
     Inr \<lparr>wk_parts = [drop cursor text], wk_transformations = [], wk_decisions = [],
          wk_any_pseudonymized = False, wk_vault = v\<rparr>"
| "allowed_walk ops scope key text values index cursor seen v ((sp, d) # rest) =
     (case transform_span ops scope key values index v sp (ad_action d) of
        Inl e \<Rightarrow> Inl e
      | Inr (transformed, v') \<Rightarrow>
          (case allowed_walk ops scope key text values (Suc index) (hi sp)
                  (if sp_category sp \<in> set seen then seen else sp_category sp # seen) v' rest of
             Inl e \<Rightarrow> Inl e
           | Inr w \<Rightarrow>
               Inr \<lparr>wk_parts = slice cursor (lo sp) text # the_default '''' transformed # wk_parts w,
                    wk_transformations =
                      \<lparr>tr_category = sp_category sp, tr_original = sp_value sp,
                       tr_transformed = transformed, tr_action = ad_action d\<rparr> # wk_transformations w,
                    wk_decisions =
                      (if sp_category sp \<in> set seen then wk_decisions w
                       else allowed_decision (sp_category sp) d # wk_decisions w),
                    wk_any_pseudonymized = (ad_action d = PSEUDONYMIZE \<or> wk_any_pseudonymized w),
                    wk_vault = wk_vault w\<rparr>))"

definition allowed_result ::
  "'v vault_ops \<Rightarrow> 'v \<Rightarrow> pystr \<Rightarrow> sensitive_span list \<Rightarrow> action_decision list \<Rightarrow> (nat, pystr) dict \<Rightarrow>
     pseudonym_scope \<Rightarrow> pystr \<Rightarrow> (disclosure_result \<times> 'v) result" where
  "allowed_result ops v text ordered decisions values scope key =
     (case allowed_walk ops scope key text values 0 0 [] v (zip ordered decisions) of
        Inl e \<Rightarrow> Inl e
      | Inr w \<Rightarrow>
          Inr (\<lparr>rs_external_payload = concat (wk_parts w), rs_decisions = wk_decisions w,
                rs_transformations = wk_transformations w,
                rs_reconstruction_required = wk_any_pseudonymized w, rs_status = Allowed\<rparr>, wk_vault w))"

definition apply_decisions ::
  "'v vault_ops \<Rightarrow> 'v \<Rightarrow> policy_repository \<Rightarrow> treatment_reasons \<Rightarrow> pystr \<Rightarrow> sensitive_span list \<Rightarrow>
     (sensitive_span \<Rightarrow> action_decision result) \<Rightarrow> governance_context \<Rightarrow> (apply_outcome \<times> 'v) result" where
  "apply_decisions ops v repo reasons text ordered dec ctx =
     (case resolve_generalize_downgrades dec 0 ordered of
        Inl e \<Rightarrow> Inl e
      | Inr (decisions, values) \<Rightarrow>
      if list_ex (\<lambda>d. ad_action d = BLOCK_REQUEST) decisions then
        Inr (\<lparr>ao_result = blocked_result ordered decisions, ao_blocked = True,
              ao_pseudonym_scope = None\<rparr>, v)
      else
        (let scope = resolve_pseudonym_scope repo ctx in
         case scope_key scope ctx of
           None \<Rightarrow>
             Inr (\<lparr>ao_result = missing_scope_identifier_result ordered reasons, ao_blocked = True,
                   ao_pseudonym_scope = Some scope\<rparr>, v)
         | Some key \<Rightarrow>
             (case allowed_result ops v text ordered decisions values scope key of
                Inl e \<Rightarrow> Inl e
              | Inr (res, v') \<Rightarrow>
                  Inr (\<lparr>ao_result = res, ao_blocked = False, ao_pseudonym_scope = Some scope\<rparr>, v'))))"

subsection \<open>Reconstruction\<close>

text \<open>\<open>s.replace(old, new)\<close>: from left to right, without overlaps; an empty \<open>old\<close> matches everywhere.\<close>

function replace_nonempty :: "pystr \<Rightarrow> pystr \<Rightarrow> pystr \<Rightarrow> pystr" where
  "replace_nonempty old new s =
     (if old = [] then s
      else if s = [] then []
      else if take (length old) s = old then new @ replace_nonempty old new (drop (length old) s)
      else hd s # replace_nonempty old new (tl s))"
  by pat_completeness auto
termination
  by (relation "measure (\<lambda>(old, new, s). length s)") (auto simp: neq_Nil_conv)

declare replace_nonempty.simps [simp del]

definition str_replace :: "pystr \<Rightarrow> pystr \<Rightarrow> pystr \<Rightarrow> pystr" where
  "str_replace old new s =
     (if old = [] then new @ concat (map (\<lambda>c. c # new) s) else replace_nonempty old new s)"

definition replace_ordered :: "pystr \<Rightarrow> (pystr \<times> pystr) list \<Rightarrow> pystr" where
  "replace_ordered text pairs = foldl (\<lambda>s (token, replacement). str_replace token replacement s) text pairs"

text \<open>\<open>sorted(xs, key=len, reverse=True)\<close>: stable, the longest first.\<close>

definition longest_first :: "pystr list \<Rightarrow> pystr list" where
  "longest_first xs = sort_key (\<lambda>x. - int (length x)) xs"

definition pseudonymized_tokens :: "disclosure_result \<Rightarrow> pystr list" where
  "pseudonymized_tokens res =
     List.map_filter tr_transformed (filter (\<lambda>t. tr_action t = PSEUDONYMIZE) (rs_transformations res))"

definition reconstruct ::
  "'v vault_ops \<Rightarrow> 'v \<Rightarrow> policy_repository \<Rightarrow> pystr \<Rightarrow> disclosure_result \<Rightarrow> governance_context \<Rightarrow>
     reconstruction_outcome" where
  "reconstruct ops v repo response res ctx =
     (let n = length (filter (\<lambda>t. tr_action t = PSEUDONYMIZE) (rs_transformations res)) in
      if \<not> is_reconstruction_authorized repo ctx then
        \<lparr>ro_text = response, ro_pseudonym_count = n, ro_authorized = False\<rparr>
      else
        (let scope = resolve_pseudonym_scope repo ctx in
         case scope_key scope ctx of
           None \<Rightarrow> \<lparr>ro_text = response, ro_pseudonym_count = n, ro_authorized = True\<rparr>
         | Some key \<Rightarrow>
             (let pairs = List.map_filter (\<lambda>p. map_option (Pair p) (vo_reconstruct ops v scope key p))
                            (longest_first (pseudonymized_tokens res))
              in \<lparr>ro_text = replace_ordered response pairs, ro_pseudonym_count = n,
                  ro_authorized = True\<rparr>)))"

lemma plain_action_action [simp]: "ad_action (plain_action a r) = a"
  by (simp add: plain_action_def)

subsection \<open>The payload is the text with every span replaced\<close>

text \<open>Replace the segments of a text, in order, and keep everything else.\<close>

fun splice_text :: "pystr \<Rightarrow> nat \<Rightarrow> (nat \<times> nat \<times> pystr) list \<Rightarrow> pystr" where
  "splice_text text cursor [] = drop cursor text"
| "splice_text text cursor ((a, b, r) # segs) = slice cursor a text @ r @ splice_text text b segs"

definition segment :: "sensitive_span \<Rightarrow> transformation \<Rightarrow> nat \<times> nat \<times> pystr" where
  "segment sp t = (lo sp, hi sp, the_default '''' (tr_transformed t))"

definition describes :: "sensitive_span \<times> action_decision \<Rightarrow> transformation \<Rightarrow> bool" where
  "describes sd t \<longleftrightarrow>
     tr_category t = sp_category (fst sd) \<and> tr_original t = sp_value (fst sd) \<and> tr_action t = ad_action (snd sd)"

lemma allowed_walk_ConsE:
  assumes "allowed_walk ops scope key text values index cursor seen v ((sp, d) # rest) = Inr w"
  obtains transformed v' w' where
    "transform_span ops scope key values index v sp (ad_action d) = Inr (transformed, v')"
    and "allowed_walk ops scope key text values (Suc index) (hi sp)
           (if sp_category sp \<in> set seen then seen else sp_category sp # seen) v' rest = Inr w'"
    and "wk_parts w = slice cursor (lo sp) text # the_default '''' transformed # wk_parts w'"
    and "wk_transformations w =
           \<lparr>tr_category = sp_category sp, tr_original = sp_value sp, tr_transformed = transformed,
            tr_action = ad_action d\<rparr> # wk_transformations w'"
    and "wk_decisions w = (if sp_category sp \<in> set seen then wk_decisions w'
                           else allowed_decision (sp_category sp) d # wk_decisions w')"
    and "wk_any_pseudonymized w = (ad_action d = PSEUDONYMIZE \<or> wk_any_pseudonymized w')"
    and "wk_vault w = wk_vault w'"
  using assms by (auto split: sum.splits prod.splits)

declare allowed_walk.simps(2) [simp del]

lemma allowed_walk_layout:
  "allowed_walk ops scope key text values index cursor seen v pairs = Inr w \<Longrightarrow>
     concat (wk_parts w) = splice_text text cursor (map2 segment (map fst pairs) (wk_transformations w)) \<and>
     list_all2 describes pairs (wk_transformations w) \<and>
     wk_any_pseudonymized w = list_ex (\<lambda>t. tr_action t = PSEUDONYMIZE) (wk_transformations w)"
proof (induction pairs arbitrary: index cursor seen v w)
  case (Cons sd rest)
  obtain sp d where sd: "sd = (sp, d)" by (cases sd)
  from Cons.prems [unfolded sd] show ?case
  proof (cases rule: allowed_walk_ConsE)
    case (1 transformed v' w')
    from Cons.IH [OF 1(2)] show ?thesis by (simp add: 1(3,4,6) sd segment_def describes_def)
  qed
qed auto

text \<open>The decisions list each category once, at its first span.\<close>

fun first_decisions :: "pystr list \<Rightarrow> (sensitive_span \<times> action_decision) list \<Rightarrow> policy_decision list" where
  "first_decisions seen [] = []"
| "first_decisions seen ((sp, d) # rest) =
     (if sp_category sp \<in> set seen then first_decisions seen rest
      else allowed_decision (sp_category sp) d # first_decisions (sp_category sp # seen) rest)"

lemma allowed_walk_decisions:
  "allowed_walk ops scope key text values index cursor seen v pairs = Inr w \<Longrightarrow>
     wk_decisions w = first_decisions seen pairs"
proof (induction pairs arbitrary: index cursor seen v w)
  case (Cons sd rest)
  obtain sp d where sd: "sd = (sp, d)" by (cases sd)
  from Cons.prems [unfolded sd] show ?case
  proof (cases rule: allowed_walk_ConsE)
    case (1 transformed v' w')
    from Cons.IH [OF 1(2)] show ?thesis by (simp add: 1(5) sd)
  qed
qed auto

lemma first_decisions_categories:
  "distinct (map pd_category (first_decisions seen pairs)) \<and>
   pd_category ` set (first_decisions seen pairs) = sp_category ` fst ` set pairs - set seen"
proof (induction seen pairs rule: first_decisions.induct)
  case (2 seen sp d rest)
  then show ?case by (cases "sp_category sp \<in> set seen") (auto simp: allowed_decision_def)
qed simp

subsection \<open>Downgrades\<close>

definition downgrade :: "action_decision \<Rightarrow> sensitive_span \<Rightarrow> action_decision" where
  "downgrade d sp =
     (if ad_action d = GENERALIZE \<and> (\<exists>e. generalize (sp_category sp) (sp_value sp) = Inl e)
      then (plain_action BLOCK_REQUEST (ad_reason d @ GENERALIZE_FAILED))\<lparr>ad_task_required := ad_task_required d\<rparr>
      else d)"

lemma downgrade_action:
  "ad_action (downgrade d sp) =
     (if ad_action d = GENERALIZE \<and> (\<exists>e. generalize (sp_category sp) (sp_value sp) = Inl e)
      then BLOCK_REQUEST else ad_action d)"
  by (simp add: downgrade_def plain_action_def)

text \<open>A decider that returns on every span makes the whole pass return.\<close>

definition values_for :: "(nat, pystr) dict \<Rightarrow> nat \<Rightarrow> (sensitive_span \<times> action_decision) list \<Rightarrow> bool" where
  "values_for values index pairs \<longleftrightarrow>
     (\<forall>k < length pairs. ad_action (snd (pairs ! k)) = GENERALIZE \<longrightarrow>
        (\<exists>g. generalize (sp_category (fst (pairs ! k))) (sp_value (fst (pairs ! k))) = Inr g \<and>
             dict_get values (index + k) = Some g))"

lemma values_for_Cons:
  "values_for values index ((sp, d) # pairs) \<longleftrightarrow>
     (ad_action d = GENERALIZE \<longrightarrow>
        (\<exists>g. generalize (sp_category sp) (sp_value sp) = Inr g \<and> dict_get values index = Some g)) \<and>
     values_for values (Suc index) pairs"
  by (auto simp: values_for_def nth_Cons' less_Suc_eq_0_disj)

lemma values_for_later: "values_for values (Suc index) pairs \<Longrightarrow> values_for ((index, g) # values) (Suc index) pairs"
  by (simp add: values_for_def dict_get_def)

lemma resolve_total:
  assumes "\<And>sp. sp \<in> set sps \<Longrightarrow> dec sp = Inr (f sp)"
  shows "\<exists>values. resolve_generalize_downgrades dec index sps = Inr (map (\<lambda>sp. downgrade (f sp) sp) sps, values) \<and>
    values_for values index (map (\<lambda>sp. (sp, downgrade (f sp) sp)) sps)"
  using assms
proof (induction sps arbitrary: index)
  case Nil
  then show ?case by (simp add: values_for_def)
next
  case (Cons sp sps)
  have "dec x = Inr (f x)" if "x \<in> set sps" for x using Cons.prems that by simp
  from Cons.IH [OF this, of "Suc index"] obtain vals where
    v: "resolve_generalize_downgrades dec (Suc index) sps = Inr (map (\<lambda>sp. downgrade (f sp) sp) sps, vals)"
      "values_for vals (Suc index) (map (\<lambda>sp. (sp, downgrade (f sp) sp)) sps)"
    by auto
  have d: "dec sp = Inr (f sp)" using Cons.prems by simp
  show ?case
  proof (cases "ad_action (downgrade (f sp) sp) = GENERALIZE")
    case True
    then obtain g where g: "ad_action (f sp) = GENERALIZE" "generalize (sp_category sp) (sp_value sp) = Inr g"
      by (cases "generalize (sp_category sp) (sp_value sp)") (auto simp: downgrade_action split: if_splits)
    have "downgrade (f sp) sp = f sp" using g by (simp add: downgrade_def)
    then show ?thesis using v d g values_for_later [OF v(2), of g]
      by (intro exI [of _ "(index, g) # vals"]) (simp add: values_for_Cons dict_get_def)
  next
    case False
    have "resolve_generalize_downgrades dec index (sp # sps) =
        Inr (map (\<lambda>sp. downgrade (f sp) sp) (sp # sps), vals)"
      using False v(1) d generalize_error [of "sp_category sp" "sp_value sp"]
      by (auto simp: downgrade_def plain_action_def split: sum.splits if_splits)
    then show ?thesis using False v(2)
      by (intro exI [of _ vals]) (simp add: values_for_Cons)
  qed
qed

subsection \<open>The walk always returns, and what each span becomes\<close>

definition becomes :: "sensitive_span \<times> action_decision \<Rightarrow> transformation \<Rightarrow> bool" where
  "becomes sd t \<longleftrightarrow>
     (case ad_action (snd sd) of
        REMOVE \<Rightarrow> tr_transformed t = None
      | GENERALIZE \<Rightarrow>
          (\<exists>g. tr_transformed t = Some g \<and> generalize (sp_category (fst sd)) (sp_value (fst sd)) = Inr g)
      | PSEUDONYMIZE \<Rightarrow> tr_transformed t \<noteq> None
      | _ \<Rightarrow> tr_transformed t = Some (sp_value (fst sd)))"

lemma transform_span_total:
  assumes "ad_action d = GENERALIZE \<longrightarrow>
      (\<exists>g. generalize (sp_category sp) (sp_value sp) = Inr g \<and> dict_get values index = Some g)"
  shows "\<exists>transformed v'. transform_span ops scope key values index v sp (ad_action d) = Inr (transformed, v') \<and>
    becomes (sp, d) \<lparr>tr_category = c, tr_original = x, tr_transformed = transformed, tr_action = a\<rparr>"
  using assms
  by (cases "ad_action d") (auto simp: transform_span_def becomes_def Let_def split: prod.splits)

lemma allowed_walk_total:
  assumes "values_for values index pairs"
  shows "\<exists>w. allowed_walk ops scope key text values index cursor seen v pairs = Inr w \<and>
    list_all2 becomes pairs (wk_transformations w)"
  using assms
proof (induction pairs arbitrary: index cursor seen v)
  case (Cons sd rest)
  obtain sp d where sd: "sd = (sp, d)" by (cases sd)
  note vf = Cons.prems [unfolded sd values_for_Cons]
  obtain transformed v' where t: "transform_span ops scope key values index v sp (ad_action d) = Inr (transformed, v')"
    "becomes (sp, d) \<lparr>tr_category = sp_category sp, tr_original = sp_value sp, tr_transformed = transformed,
       tr_action = ad_action d\<rparr>"
    using transform_span_total [where ops = ops and scope = scope and key = key and v = v and c = "sp_category sp" and
        x = "sp_value sp" and a = "ad_action d", of d sp "values" index] vf by blast
  obtain w where w: "allowed_walk ops scope key text values (Suc index) (hi sp)
      (if sp_category sp \<in> set seen then seen else sp_category sp # seen) v' rest = Inr w"
    "list_all2 becomes rest (wk_transformations w)"
    using Cons.IH vf by blast
  show ?case using t w by (simp add: sd allowed_walk.simps(2))
qed simp

lemma allowed_walk_becomes:
  assumes "values_for values index pairs"
    and "allowed_walk ops scope key text values index cursor seen v pairs = Inr w"
  shows "list_all2 becomes pairs (wk_transformations w)"
  using allowed_walk_total [OF assms(1), of ops scope key "text" cursor seen v] assms(2) by auto

subsection \<open>The vault through a walk\<close>

context vault_contract
begin

definition tokens_issued :: "'v \<Rightarrow> pseudonym_scope \<Rightarrow> pystr \<Rightarrow> transformation list \<Rightarrow> bool" where
  "tokens_issued v scope key ts \<longleftrightarrow>
     (\<forall>t \<in> set ts. tr_action t = PSEUDONYMIZE \<longrightarrow>
        (\<exists>p. tr_transformed t = Some p \<and> issued v scope key (tr_category t) (tr_original t) p))"

lemma transform_span_vault:
  assumes "inv v" and "transform_span ops scope key values index v sp act = Inr (transformed, v')"
  shows "inv v'" and "issued v s k c x p \<Longrightarrow> issued v' s k c x p"
    and "act = PSEUDONYMIZE \<Longrightarrow>
      \<exists>p. transformed = Some p \<and> issued v' scope key (sp_category sp) (sp_value sp) p"
    and "issued v' s k c x p \<Longrightarrow> issued v s k c x p \<or>
      act = PSEUDONYMIZE \<and> s = scope \<and> k = key \<and> c = sp_category sp \<and> x = sp_value sp \<and> transformed = Some p"
  using assms inv_pseudonymize [OF assms(1), of scope key "sp_category sp" "sp_value sp"]
    issued_pseudonymize [OF assms(1), of scope key "sp_category sp" "sp_value sp"]
  by (auto simp: transform_span_def split: if_splits option.splits prod.splits)

lemma walk_vault:
  assumes "inv v" and "allowed_walk ops scope key text values index cursor seen v pairs = Inr w"
  shows "inv (wk_vault w) \<and> (\<forall>s k c x p. issued v s k c x p \<longrightarrow> issued (wk_vault w) s k c x p) \<and>
    tokens_issued (wk_vault w) scope key (wk_transformations w)"
  using assms
proof (induction pairs arbitrary: index cursor seen v w)
  case Nil
  then show ?case by (auto simp: tokens_issued_def)
next
  case (Cons sd rest)
  obtain sp d where sd: "sd = (sp, d)" by (cases sd)
  from Cons.prems(2) [unfolded sd] show ?case
  proof (cases rule: allowed_walk_ConsE)
    case (1 transformed v' w')
    note tv = transform_span_vault [OF Cons.prems(1) 1(1)]
    note ih = Cons.IH [OF tv(1) 1(2)]
    have "\<exists>p. transformed = Some p \<and> issued (wk_vault w) scope key (sp_category sp) (sp_value sp) p"
      if "ad_action d = PSEUDONYMIZE"
      using tv(3) [OF that] ih by (auto simp: 1(7))
    moreover have "tokens_issued (wk_vault w) scope key (wk_transformations w')" using ih by (simp add: 1(7))
    ultimately have "tokens_issued (wk_vault w) scope key (wk_transformations w)"
      by (simp add: 1(4) tokens_issued_def)
    then show ?thesis using ih tv(2) by (simp add: 1(7))
  qed
qed

text \<open>Nothing else is issued: what a walk adds to the vault is in its transformations.\<close>

lemma walk_issues_only:
  assumes "inv v" and "allowed_walk ops scope key text values index cursor seen v pairs = Inr w"
    and "issued (wk_vault w) s k c x p"
  shows "issued v s k c x p \<or> s = scope \<and> k = key \<and>
    (\<exists>t \<in> set (wk_transformations w). tr_action t = PSEUDONYMIZE \<and> tr_category t = c \<and> tr_original t = x \<and>
       tr_transformed t = Some p)"
  using assms
proof (induction pairs arbitrary: index cursor seen v w)
  case (Cons sd rest)
  obtain sp d where sd: "sd = (sp, d)" by (cases sd)
  from Cons.prems(2) [unfolded sd] show ?case
  proof (cases rule: allowed_walk_ConsE)
    case (1 transformed v' w')
    note tv = transform_span_vault [OF Cons.prems(1) 1(1)]
    from Cons.IH [OF tv(1) 1(2)] Cons.prems(3) tv(4) [of s k c x p] show ?thesis
      by (auto simp: 1(4,7))
  qed
qed auto

text \<open>Two pseudonymized spans share their token exactly when they share category and value.\<close>

lemma tokens_injective:
  assumes "inv v" and "tokens_issued v scope key ts" and "t \<in> set ts" and "u \<in> set ts"
    and "tr_action t = PSEUDONYMIZE" and "tr_action u = PSEUDONYMIZE"
  shows "tr_transformed t = tr_transformed u \<longleftrightarrow> tr_category t = tr_category u \<and> tr_original t = tr_original u"
proof -
  obtain p q where "tr_transformed t = Some p" "issued v scope key (tr_category t) (tr_original t) p"
    "tr_transformed u = Some q" "issued v scope key (tr_category u) (tr_original u) q"
    using assms(2-6) unfolding tokens_issued_def by blast
  then show ?thesis
    using issued_injective [OF assms(1)] issued_stable [OF assms(1)] by (metis option.inject)
qed

end

subsection \<open>Applying the decisions\<close>

text \<open>The block a total decider leads to, if any.\<close>

definition some_block :: "(sensitive_span \<Rightarrow> action_decision) \<Rightarrow> sensitive_span list \<Rightarrow> bool" where
  "some_block f ordered = list_ex (\<lambda>sp. ad_action (downgrade (f sp) sp) = BLOCK_REQUEST) ordered"

definition decided :: "(sensitive_span \<Rightarrow> action_decision) \<Rightarrow> sensitive_span list \<Rightarrow> (sensitive_span \<times> action_decision) list" where
  "decided f ordered = map (\<lambda>sp. (sp, downgrade (f sp) sp)) ordered"

lemma zip_decided: "zip ordered (map (\<lambda>sp. downgrade (f sp) sp) ordered) = decided f ordered"
  by (induction ordered) (simp_all add: decided_def)

text \<open>The three ends of \<open>apply_decisions\<close> for a decider that never raises on the spans.\<close>

lemma apply_decisions_cases:
  assumes "\<forall>sp \<in> set ordered. dec sp = Inr (f sp)"
  obtains
    (blocked) "some_block f ordered"
      "apply_decisions ops v repo reasons text ordered dec ctx =
         Inr (\<lparr>ao_result = blocked_result ordered (map (\<lambda>sp. downgrade (f sp) sp) ordered), ao_blocked = True,
               ao_pseudonym_scope = None\<rparr>, v)"
  | (no_key) "\<not> some_block f ordered" "scope_key (resolve_pseudonym_scope repo ctx) ctx = None"
      "apply_decisions ops v repo reasons text ordered dec ctx =
         Inr (\<lparr>ao_result = missing_scope_identifier_result ordered reasons, ao_blocked = True,
               ao_pseudonym_scope = Some (resolve_pseudonym_scope repo ctx)\<rparr>, v)"
  | (allowed) key vals w where "\<not> some_block f ordered"
      "scope_key (resolve_pseudonym_scope repo ctx) ctx = Some key"
      "values_for vals 0 (decided f ordered)"
      "allowed_walk ops (resolve_pseudonym_scope repo ctx) key text vals 0 0 [] v (decided f ordered) = Inr w"
      "apply_decisions ops v repo reasons text ordered dec ctx =
         Inr (\<lparr>ao_result = \<lparr>rs_external_payload = concat (wk_parts w), rs_decisions = wk_decisions w,
                 rs_transformations = wk_transformations w,
                 rs_reconstruction_required = wk_any_pseudonymized w, rs_status = Allowed\<rparr>,
               ao_blocked = False, ao_pseudonym_scope = Some (resolve_pseudonym_scope repo ctx)\<rparr>, wk_vault w)"
proof -
  obtain vals where v: "resolve_generalize_downgrades dec 0 ordered = Inr (map (\<lambda>sp. downgrade (f sp) sp) ordered, vals)"
    "values_for vals 0 (decided f ordered)"
    using resolve_total [of ordered dec f 0] assms by (auto simp: decided_def)
  have ex: "list_ex (\<lambda>d. ad_action d = BLOCK_REQUEST) (map (\<lambda>sp. downgrade (f sp) sp) ordered) = some_block f ordered"
    by (simp add: some_block_def list_ex_iff)
  consider "some_block f ordered"
    | "\<not> some_block f ordered" "scope_key (resolve_pseudonym_scope repo ctx) ctx = None"
    | key where "\<not> some_block f ordered" "scope_key (resolve_pseudonym_scope repo ctx) ctx = Some key"
    by (cases "scope_key (resolve_pseudonym_scope repo ctx) ctx") auto
  then show thesis
  proof cases
    case 1
    with blocked v(1) ex show ?thesis by (simp add: apply_decisions_def)
  next
    case 2
    with no_key v(1) ex show ?thesis by (simp add: apply_decisions_def Let_def)
  next
    case (3 key)
    obtain w where "allowed_walk ops (resolve_pseudonym_scope repo ctx) key text vals 0 0 [] v (decided f ordered) = Inr w"
      using allowed_walk_total [OF v(2), of ops "resolve_pseudonym_scope repo ctx" key "text" 0 "[]"] by blast
    with allowed [OF 3 v(2)] v(1) ex 3 show ?thesis
      by (simp add: apply_decisions_def Let_def allowed_result_def zip_decided)
  qed
qed

subsection \<open>What a payload is made of\<close>

text \<open>The untouched segments of a text around some spans, and the text woven from them.\<close>

fun gaps :: "pystr \<Rightarrow> nat \<Rightarrow> sensitive_span list \<Rightarrow> pystr list" where
  "gaps text cursor [] = [drop cursor text]"
| "gaps text cursor (sp # sps) = slice cursor (lo sp) text # gaps text (hi sp) sps"

fun weave :: "pystr list \<Rightarrow> pystr list \<Rightarrow> pystr" where
  "weave (g # gs) (r # rs) = g @ r @ weave gs rs"
| "weave gs rs = concat gs"

lemma splice_weave:
  "length ts = length sps \<Longrightarrow>
     splice_text text cursor (map2 segment sps ts) =
     weave (gaps text cursor sps) (map (\<lambda>t. the_default '''' (tr_transformed t)) ts)"
proof (induction sps ts arbitrary: cursor rule: list_induct2')
  case (4 sp sps t ts)
  then show ?case by (simp add: segment_def)
qed simp_all

text \<open>The spans put back into the gaps give the text.\<close>

lemma weave_values:
  assumes "spans_are_valid sps text" and "sorted_wrt (\<lambda>a b. hi a \<le> lo b) sps"
    and "cursor \<le> length text" and "\<And>sp. sp \<in> set sps \<Longrightarrow> cursor \<le> lo sp"
  shows "weave (gaps text cursor sps) (map sp_value sps) = drop cursor text"
  using assms
proof (induction sps arbitrary: cursor)
  case (Cons sp sps)
  have v: "spans_are_valid [sp] text" "spans_are_valid sps text"
    using Cons.prems(1) by (simp_all add: spans_are_valid_def)
  have sp: "lo sp < hi sp" "hi sp \<le> length text" "sp_value sp = slice (lo sp) (hi sp) text"
    using v(1) structurally_valid_lo_hi [of sp] by (auto simp: spans_are_valid_def span_matches_text_def Let_def split: if_splits)
  have ih: "weave (gaps text (hi sp) sps) (map sp_value sps) = drop (hi sp) text"
    using Cons.IH [OF v(2), of "hi sp"] Cons.prems(2) sp(2) by simp
  have "cursor \<le> lo sp" using Cons.prems(4) by simp
  then show ?case using sp(1)
    by (simp add: ih sp(3) slice_append_drop less_imp_le)
qed simp

lemma walk_payload:
  assumes "values_for vals 0 (decided f ordered)"
    and "allowed_walk ops scope key text vals 0 0 [] v (decided f ordered) = Inr w"
  shows "concat (wk_parts w) =
           weave (gaps text 0 ordered) (map (\<lambda>t. the_default '''' (tr_transformed t)) (wk_transformations w))"
    and "list_all2 describes (decided f ordered) (wk_transformations w)"
    and "list_all2 becomes (decided f ordered) (wk_transformations w)"
    and "length (wk_transformations w) = length ordered"
    and "wk_decisions w = first_decisions [] (decided f ordered)"
proof -
  note layout = allowed_walk_layout [OF assms(2)]
  show d: "list_all2 describes (decided f ordered) (wk_transformations w)" using layout by simp
  then show len: "length (wk_transformations w) = length ordered"
    by (auto simp: decided_def dest: list_all2_lengthD)
  have "map fst (decided f ordered) = ordered" by (simp add: decided_def comp_def)
  then show "concat (wk_parts w) =
      weave (gaps text 0 ordered) (map (\<lambda>t. the_default '''' (tr_transformed t)) (wk_transformations w))"
    using layout splice_weave [OF len] by simp
  show "list_all2 becomes (decided f ordered) (wk_transformations w)"
    by (rule allowed_walk_becomes [OF assms])
  show "wk_decisions w = first_decisions [] (decided f ordered)"
    by (rule allowed_walk_decisions [OF assms(2)])
qed

text \<open>
  Two spans that a decider treats alike: same category, same decision, and the same
  disclosed form unless nothing of the value is disclosed.
\<close>

definition alike :: "(sensitive_span \<Rightarrow> action_decision) \<Rightarrow> sensitive_span \<Rightarrow> sensitive_span \<Rightarrow> bool" where
  "alike f a b \<longleftrightarrow>
     sp_category a = sp_category b \<and> downgrade (f a) a = downgrade (f b) b \<and>
     (case ad_action (downgrade (f a) a) of
        REMOVE \<Rightarrow> True
      | BLOCK_REQUEST \<Rightarrow> True
      | GENERALIZE \<Rightarrow> generalize (sp_category a) (sp_value a) = generalize (sp_category b) (sp_value b)
      | _ \<Rightarrow> sp_value a = sp_value b)"

lemma alike_decisions:
  "list_all2 (alike f) xs ys \<Longrightarrow> first_decisions seen (decided f xs) = first_decisions seen (decided f ys)"
  by (induction arbitrary: seen rule: list_all2_induct) (auto simp: decided_def alike_def)

lemma alike_block: "list_all2 (alike f) xs ys \<Longrightarrow> some_block f xs = some_block f ys"
  by (induction rule: list_all2_induct) (auto simp: some_block_def alike_def)

lemma alike_becomes:
  assumes "alike f a b" and "becomes (a, downgrade (f a) a) t" and "becomes (b, downgrade (f b) b) u"
    and "ad_action (downgrade (f a) a) \<notin> {BLOCK_REQUEST, PSEUDONYMIZE}"
  shows "tr_transformed t = tr_transformed u"
  using assms by (auto simp: alike_def becomes_def split: disclosure_action.splits)

lemma alike_replacements:
  assumes "list_all2 (alike f) xs ys"
    and "list_all2 becomes (decided f xs) ts" and "list_all2 becomes (decided f ys) us"
    and "\<And>x. x \<in> set xs \<Longrightarrow> ad_action (downgrade (f x) x) \<notin> {BLOCK_REQUEST, PSEUDONYMIZE}"
  shows "map tr_transformed ts = map tr_transformed us"
  using assms
proof (induction arbitrary: ts us rule: list_all2_induct)
  case Nil
  then show ?case by (simp add: decided_def)
next
  case (Cons a xs b ys)
  obtain t ts' u us' where "ts = t # ts'" "us = u # us'"
    and h: "becomes (a, downgrade (f a) a) t" "becomes (b, downgrade (f b) b) u"
    and r: "list_all2 becomes (decided f xs) ts'" "list_all2 becomes (decided f ys) us'"
    using Cons.prems(1,2) by (auto simp: decided_def list_all2_Cons1)
  moreover have "tr_transformed t = tr_transformed u"
    using alike_becomes [OF Cons.hyps(1) h] Cons.prems(3) by simp
  moreover have "map tr_transformed ts' = map tr_transformed us'"
    using Cons.IH [OF r] Cons.prems(3) by simp
  ultimately show ?case by simp
qed

subsection \<open>The frame that B2, B3 and B4 share\<close>

text \<open>Validate the spans, resolve the overlaps, decide on what remains, apply.\<close>

definition sanitize_with ::
  "'v vault_ops \<Rightarrow> 'v \<Rightarrow> policy_repository \<Rightarrow> treatment_reasons \<Rightarrow>
     (sensitive_span list \<Rightarrow> sensitive_span \<Rightarrow> action_decision result) \<Rightarrow> disclosure_request \<Rightarrow>
     sensitive_span list \<Rightarrow> (disclosure_result \<times> 'v) result" where
  "sanitize_with ops v repo reasons dec request spans =
     (if \<not> spans_are_valid spans (rq_text request) then Inr (invalid_span_result spans reasons, v)
      else
        (case resolve_overlaps spans of
           Inl e \<Rightarrow> Inl e
         | Inr ordered \<Rightarrow>
             (case apply_decisions ops v repo reasons (rq_text request) ordered (dec ordered) (rq_context request) of
                Inl e \<Rightarrow> Inl e
              | Inr (outcome, v') \<Rightarrow> Inr (ao_result outcome, v'))))"

lemma sanitize_with_cases:
  assumes "\<forall>ordered. resolve_overlaps spans = Inr ordered \<longrightarrow> (\<forall>sp \<in> set ordered. dec ordered sp = Inr (f ordered sp))"
  obtains
    (invalid) "\<not> spans_are_valid spans (rq_text request)"
      "sanitize_with ops v repo reasons dec request spans = Inr (invalid_span_result spans reasons, v)"
  | (blocked) ordered where "spans_are_valid spans (rq_text request)" "resolve_overlaps spans = Inr ordered"
      "some_block (f ordered) ordered"
      "sanitize_with ops v repo reasons dec request spans =
         Inr (blocked_result ordered (map (\<lambda>sp. downgrade (f ordered sp) sp) ordered), v)"
  | (no_key) ordered where "spans_are_valid spans (rq_text request)" "resolve_overlaps spans = Inr ordered"
      "\<not> some_block (f ordered) ordered"
      "scope_key (resolve_pseudonym_scope repo (rq_context request)) (rq_context request) = None"
      "sanitize_with ops v repo reasons dec request spans =
         Inr (missing_scope_identifier_result ordered reasons, v)"
  | (allowed) ordered key vals w where "spans_are_valid spans (rq_text request)" "resolve_overlaps spans = Inr ordered"
      "\<not> some_block (f ordered) ordered"
      "scope_key (resolve_pseudonym_scope repo (rq_context request)) (rq_context request) = Some key"
      "values_for vals 0 (decided (f ordered) ordered)"
      "allowed_walk ops (resolve_pseudonym_scope repo (rq_context request)) key (rq_text request) vals 0 0 [] v
         (decided (f ordered) ordered) = Inr w"
      "sanitize_with ops v repo reasons dec request spans =
         Inr (\<lparr>rs_external_payload = concat (wk_parts w), rs_decisions = wk_decisions w,
               rs_transformations = wk_transformations w,
               rs_reconstruction_required = wk_any_pseudonymized w, rs_status = Allowed\<rparr>, wk_vault w)"
proof (cases "spans_are_valid spans (rq_text request)")
  case False
  with invalid show thesis by (simp add: sanitize_with_def)
next
  case valid: True
  obtain ordered where ord: "resolve_overlaps spans = Inr ordered"
    using resolve_overlaps_total [OF spans_are_valid_structural [OF valid]] by blast
  have dec: "\<forall>sp \<in> set ordered. dec ordered sp = Inr (f ordered sp)" using assms ord by blast
  show thesis
  proof (cases rule: apply_decisions_cases [where ops = ops and v = v and repo = repo and reasons = reasons and
        ctx = "rq_context request", OF dec, of "rq_text request"])
    case 1
    with that(2) [OF valid ord] valid ord show ?thesis by (simp add: sanitize_with_def)
  next
    case 2
    with that(3) [OF valid ord] valid ord show ?thesis by (simp add: sanitize_with_def)
  next
    case (3 key vals w)
    with that(4) [OF valid ord] valid ord show ?thesis by (simp add: sanitize_with_def)
  qed
qed

subsection \<open>What the frame returns\<close>

lemmas shared_blocked_results = invalid_span_result_def blocked_result_def missing_scope_identifier_result_def Let_def

text \<open>A blocked request leaves the vault as it was, and an allowed one comes from a walk.\<close>

lemma sanitize_with_outcomes:
  assumes "\<forall>ordered. resolve_overlaps spans = Inr ordered \<longrightarrow> (\<forall>sp \<in> set ordered. dec ordered sp = Inr (f ordered sp))"
    and "sanitize_with ops v repo reasons dec request spans = Inr (res, v')"
  obtains (stopped) ds where "res = blocked_with ds" "v' = v"
  | (walked) ordered key vals w where "spans_are_valid spans (rq_text request)" "resolve_overlaps spans = Inr ordered"
      "\<not> some_block (f ordered) ordered"
      "scope_key (resolve_pseudonym_scope repo (rq_context request)) (rq_context request) = Some key"
      "values_for vals 0 (decided (f ordered) ordered)"
      "allowed_walk ops (resolve_pseudonym_scope repo (rq_context request)) key (rq_text request) vals 0 0 [] v
         (decided (f ordered) ordered) = Inr w" "v' = wk_vault w"
      "res = \<lparr>rs_external_payload = concat (wk_parts w), rs_decisions = wk_decisions w,
         rs_transformations = wk_transformations w, rs_reconstruction_required = wk_any_pseudonymized w,
         rs_status = Allowed\<rparr>"
proof (cases rule: sanitize_with_cases [where ops = ops and v = v and repo = repo and reasons = reasons
      and request = request, OF assms(1)])
  case 1
  with stopped assms(2) show thesis by (auto simp: shared_blocked_results)
next
  case (2 ordered)
  with stopped assms(2) show thesis by (auto simp: shared_blocked_results)
next
  case (3 ordered)
  with stopped assms(2) show thesis by (auto simp: shared_blocked_results)
next
  case (4 ordered key vals w)
  with assms(2) show thesis by (intro walked [of ordered key vals w]) auto
qed

lemma rs_status_blocked_with [simp]: "rs_status (blocked_with ds) = Blocked"
  by (simp add: blocked_with_def)

lemma downgrade_allowed: "ad_action (downgrade d sp) \<noteq> BLOCK_REQUEST \<Longrightarrow> downgrade d sp = d"
  by (auto simp: downgrade_def plain_action_def split: if_splits)

lemma list_all2_memE: "list_all2 P xs ys \<Longrightarrow> y \<in> set ys \<Longrightarrow> (\<And>x. x \<in> set xs \<Longrightarrow> P x y \<Longrightarrow> thesis) \<Longrightarrow> thesis"
  by (induction rule: list_all2_induct) auto

text \<open>Every transformation of a result is what the decision for one of the resolved spans makes of it.\<close>

lemma sanitize_with_transformation:
  assumes "\<forall>ordered. resolve_overlaps spans = Inr ordered \<longrightarrow> (\<forall>sp \<in> set ordered. dec ordered sp = Inr (f ordered sp))"
    and "sanitize_with ops v repo reasons dec request spans = Inr (res, v')" and "t \<in> set (rs_transformations res)"
  obtains ordered sp where "resolve_overlaps spans = Inr ordered" "sp \<in> set ordered"
    "tr_category t = sp_category sp" "tr_original t = sp_value sp" "tr_action t = ad_action (f ordered sp)"
    "tr_action t \<noteq> BLOCK_REQUEST" "becomes (sp, f ordered sp) t"
proof (cases rule: sanitize_with_outcomes [OF assms(1,2)])
  case (1 ds)
  with assms(3) show thesis by simp
next
  case (2 ordered key vals w)
  note payload = walk_payload [OF 2(5,6)]
  have "list_all2 (\<lambda>sd t. describes sd t \<and> becomes sd t) (decided (f ordered) ordered) (wk_transformations w)"
    using payload(2,3) by (simp add: list_all2_conv_all_nth)
  moreover have "t \<in> set (wk_transformations w)" using assms(3) 2(8) by simp
  ultimately obtain sd where sd: "sd \<in> set (decided (f ordered) ordered)" "describes sd t" "becomes sd t"
    by (blast elim: list_all2_memE)
  then obtain sp where sp: "sp \<in> set ordered" "sd = (sp, downgrade (f ordered sp) sp)" by (auto simp: decided_def)
  have "ad_action (downgrade (f ordered sp) sp) \<noteq> BLOCK_REQUEST"
    using 2(3) sp(1) by (auto simp: some_block_def list_ex_iff)
  then have "downgrade (f ordered sp) sp = f ordered sp" "ad_action (f ordered sp) \<noteq> BLOCK_REQUEST"
    using downgrade_allowed by force+
  with sp sd 2(2) that [of ordered sp] show thesis by (auto simp: describes_def)
qed

text \<open>The payload of an allowed result: the text outside the resolved spans, each span replaced by its transformation.\<close>

lemma sanitize_with_layout:
  assumes "\<forall>ordered. resolve_overlaps spans = Inr ordered \<longrightarrow> (\<forall>sp \<in> set ordered. dec ordered sp = Inr (f ordered sp))"
    and "sanitize_with ops v repo reasons dec request spans = Inr (res, v')" and "rs_status res = Allowed"
  obtains ordered where "resolve_overlaps spans = Inr ordered"
    "rs_external_payload res =
       weave (gaps (rq_text request) 0 ordered) (map (\<lambda>t. the_default '''' (tr_transformed t)) (rs_transformations res))"
    "list_all2 describes (decided (f ordered) ordered) (rs_transformations res)"
    "list_all2 becomes (decided (f ordered) ordered) (rs_transformations res)"
proof (cases rule: sanitize_with_outcomes [OF assms(1,2)])
  case (1 ds)
  with assms(3) show thesis by simp
next
  case (2 ordered key vals w)
  with walk_payload [OF 2(5,6)] that [of ordered] show thesis by simp
qed

subsection \<open>A small case\<close>

text \<open>One policy, one context and one request with a detected salary, for the theorems that are applied to a case.\<close>

definition sample_policy :: policy_document where
  "sample_policy =
     \<lparr>po_version = ''v1'', po_domain = ''hr'',
      po_rules =
        [(''salary'',
          \<lparr>ru_default = TASK_DEPENDENT, ru_allowed_actions = [PRESERVE, REMOVE], ru_purpose_actions = [],
           ru_overrides = []\<rparr>)],
      po_pseudonym_scope = \<lparr>sc_default = SESSION, sc_role_max = [], sc_user_max = []\<rparr>\<rparr>"

definition sample_repository :: policy_repository where
  "sample_repository = \<lparr>re_policies = [(''v1'', sample_policy)], re_load_errors = []\<rparr>"

definition sample_context :: governance_context where
  "sample_context =
     \<lparr>ctx_domain = ''hr'', ctx_purpose = ''payroll'', ctx_requester_role = None, ctx_requester_id = None,
      ctx_provider_class = ''fake'', ctx_policy_version = ''v1'', ctx_requested_scope = REQUEST,
      ctx_request_id = Some ''r1'', ctx_document_id = None, ctx_session_id = None\<rparr>"

definition sample_request :: "pystr \<Rightarrow> disclosure_request" where
  "sample_request text = \<lparr>rq_text = text, rq_task = ''sum up'', rq_context = sample_context\<rparr>"

definition one_span :: "pystr \<Rightarrow> pystr \<Rightarrow> nat \<Rightarrow> sensitive_span" where
  "one_span category val pos =
     \<lparr>sp_category = category, sp_value = val, sp_start = Some (int pos), sp_end = Some (int (pos + length val)),
      sp_confidence = None\<rparr>"

end
