(* ===== verification/Static_Sanitization.thy ===== *)
theory Static_Sanitization
  imports Detection Decision_Application
begin

text \<open>
  \<open>transformations/static_sanitization.py\<close> (B1) and \<open>transformations/direct_disclosure.py\<close>
  (B0). B1 applies a fixed map from categories to actions with a layout loop of its own; B0
  discloses the text as it is.

  The lemmas show that \<open>sanitize\<close> never raises, that B1's own loop computes what the shared one of
  \<open>Decision_Application\<close> does at B1's map, and what an allowed payload is made of.
\<close>

definition STATIC_ACTIONS :: "(pystr, disclosure_action) dict" where
  "STATIC_ACTIONS =
     [(''employee_name'', REMOVE), (''cpf'', REMOVE), (''cnpj'', REMOVE), (''email'', REMOVE), (''phone'', REMOVE),
      (''salary'', GENERALIZE), (''department'', PRESERVE), (''medical_data'', BLOCK_REQUEST),
      (''party_name'', REMOVE), (''representative_name'', REMOVE), (''bank_account'', BLOCK_REQUEST),
      (''contract_value'', GENERALIZE), (''penalty_amount'', GENERALIZE), (''deadline'', GENERALIZE)]"

definition static_resolve_action :: "pystr \<Rightarrow> disclosure_action" where
  "static_resolve_action category =
     (let act = dict_get_default STATIC_ACTIONS category BLOCK_REQUEST in
      if act = GENERALIZE \<and> \<not> is_configured category then BLOCK_REQUEST else act)"

fun resolve_actions_and_generalized_values ::
  "nat \<Rightarrow> sensitive_span list \<Rightarrow> (disclosure_action list \<times> (nat, pystr) dict) result" where
  "resolve_actions_and_generalized_values index [] = Inr ([], [])"
| "resolve_actions_and_generalized_values index (sp # sps) =
     (let act = static_resolve_action (sp_category sp) in
      case (if act = GENERALIZE then
              (case generalize (sp_category sp) (sp_value sp) of
                 Inr g \<Rightarrow> Inr (act, [(index, g)])
               | Inl GeneralizationError \<Rightarrow> Inr (BLOCK_REQUEST, [])
               | Inl e \<Rightarrow> Inl e)
            else Inr (act, [])) of
        Inl e \<Rightarrow> Inl e
      | Inr (act', entry) \<Rightarrow>
          (case resolve_actions_and_generalized_values (Suc index) sps of
             Inl e \<Rightarrow> Inl e
           | Inr (acts, values) \<Rightarrow> Inr (act' # acts, entry @ values)))"

definition B1_BLOCKS :: pystr where
  "B1_BLOCKS = ''B1 static baseline blocks this category unconditionally''"

definition B1_INVALID :: pystr where
  "B1_INVALID = ''B1 static baseline blocks: span offsets are missing, out of bounds, or do not match the source text''"

definition B1_MAPPING :: pystr where
  "B1_MAPPING = ''B1 static baseline mapping''"

definition static_blocked_result :: "sensitive_span list \<Rightarrow> disclosure_action list \<Rightarrow> disclosure_result" where
  "static_blocked_result ordered actions =
     blocked_with
       (map (blocking_decision B1_BLOCKS)
         (sorted_set (map (sp_category \<circ> fst) (filter (\<lambda>(sp, act). act = BLOCK_REQUEST) (zip ordered actions)))))"

definition static_invalid_span_result :: "sensitive_span list \<Rightarrow> disclosure_result" where
  "static_invalid_span_result spans =
     blocked_with (map (blocking_decision B1_INVALID) (sorted_set (map sp_category spans)))"

definition static_transform :: "(nat, pystr) dict \<Rightarrow> nat \<Rightarrow> sensitive_span \<Rightarrow> disclosure_action \<Rightarrow> pystr option result" where
  "static_transform values index sp act =
     (if act = REMOVE then Inr None
      else if act = GENERALIZE then
        (case dict_get values index of None \<Rightarrow> Inl KeyError | Some g \<Rightarrow> Inr (Some g))
      else Inr (Some (sp_value sp)))"

fun static_walk ::
  "pystr \<Rightarrow> (nat, pystr) dict \<Rightarrow> nat \<Rightarrow> nat \<Rightarrow> pystr list \<Rightarrow> (sensitive_span \<times> disclosure_action) list \<Rightarrow>
     (pystr list \<times> transformation list \<times> policy_decision list) result" where
  "static_walk text values index cursor seen [] = Inr ([drop cursor text], [], [])"
| "static_walk text values index cursor seen ((sp, act) # rest) =
     (case static_transform values index sp act of
        Inl e \<Rightarrow> Inl e
      | Inr transformed \<Rightarrow>
          (case static_walk text values (Suc index) (hi sp)
                  (if sp_category sp \<in> set seen then seen else sp_category sp # seen) rest of
             Inl e \<Rightarrow> Inl e
           | Inr (parts, ts, ds) \<Rightarrow>
               Inr (slice cursor (lo sp) text # the_default '''' transformed # parts,
                    \<lparr>tr_category = sp_category sp, tr_original = sp_value sp, tr_transformed = transformed,
                     tr_action = act\<rparr> # ts,
                    if sp_category sp \<in> set seen then ds
                    else plain_decision (sp_category sp) act B1_MAPPING [act] # ds)))"

definition static_allowed_result ::
  "pystr \<Rightarrow> sensitive_span list \<Rightarrow> disclosure_action list \<Rightarrow> (nat, pystr) dict \<Rightarrow> disclosure_result result" where
  "static_allowed_result text ordered actions values =
     (case static_walk text values 0 0 [] (zip ordered actions) of
        Inl e \<Rightarrow> Inl e
      | Inr (parts, ts, ds) \<Rightarrow>
          Inr \<lparr>rs_external_payload = concat parts, rs_decisions = ds, rs_transformations = ts,
               rs_reconstruction_required = False, rs_status = Allowed\<rparr>)"

definition static_sanitize :: "disclosure_request \<Rightarrow> sensitive_span list \<Rightarrow> disclosure_result result" where
  "static_sanitize request spans =
     (if \<not> spans_are_valid spans (rq_text request) then Inr (static_invalid_span_result spans)
      else
        (case resolve_overlaps spans of
           Inl e \<Rightarrow> Inl e
         | Inr ordered \<Rightarrow>
             (case resolve_actions_and_generalized_values 0 ordered of
                Inl e \<Rightarrow> Inl e
              | Inr (actions, values) \<Rightarrow>
                  if BLOCK_REQUEST \<in> set actions then Inr (static_blocked_result ordered actions)
                  else static_allowed_result (rq_text request) ordered actions values)))"

subsection \<open>B0\<close>

definition AUDIT_CATEGORY :: pystr where
  "AUDIT_CATEGORY = ''direct_disclosure''"

definition direct_sanitize :: "disclosure_request \<Rightarrow> sensitive_span list \<Rightarrow> disclosure_result" where
  "direct_sanitize request spans =
     \<lparr>rs_external_payload = rq_text request,
      rs_decisions =
        [plain_decision AUDIT_CATEGORY PRESERVE
           ''B0 direct baseline: no detection or transformation applied, the full input is disclosed unchanged''
           [PRESERVE]],
      rs_transformations =
        [\<lparr>tr_category = AUDIT_CATEGORY, tr_original = rq_text request,
          tr_transformed = Some (rq_text request), tr_action = PRESERVE\<rparr>],
      rs_reconstruction_required = False, rs_status = Allowed\<rparr>"

subsection \<open>B1's loop is the shared loop at B1's map\<close>

definition static_decision :: "sensitive_span \<Rightarrow> action_decision" where
  "static_decision sp = plain_action (static_resolve_action (sp_category sp)) B1_MAPPING"

lemma static_action_cases: "static_resolve_action c \<in> {REMOVE, GENERALIZE, PRESERVE, BLOCK_REQUEST}"
  by (auto simp: static_resolve_action_def Let_def STATIC_ACTIONS_def dict_get_default_def)

lemma static_resolve_total:
  "\<exists>values. resolve_actions_and_generalized_values index sps =
       Inr (map (\<lambda>sp. ad_action (downgrade (static_decision sp) sp)) sps, values) \<and>
     values_for values index (decided static_decision sps)"
proof (induction sps arbitrary: index)
  case Nil
  then show ?case by (simp add: values_for_def decided_def)
next
  case (Cons sp sps)
  obtain vals where v: "resolve_actions_and_generalized_values (Suc index) sps =
       Inr (map (\<lambda>sp. ad_action (downgrade (static_decision sp) sp)) sps, vals)"
    "values_for vals (Suc index) (decided static_decision sps)"
    using Cons.IH by blast
  show ?case
  proof (cases "static_resolve_action (sp_category sp) = GENERALIZE")
    case gen: True
    show ?thesis
    proof (cases "generalize (sp_category sp) (sp_value sp)")
      case (Inl e)
      with gen v show ?thesis
        by (intro exI [of _ vals])
          (simp add: generalize_error [OF Inl] downgrade_action static_decision_def values_for_Cons decided_def)
    next
      case (Inr g)
      with gen v values_for_later [OF v(2), of g] show ?thesis
        by (intro exI [of _ "(index, g) # vals"])
          (simp add: downgrade_action static_decision_def values_for_Cons decided_def dict_get_def)
    qed
  next
    case False
    with v show ?thesis
      by (intro exI [of _ vals])
        (simp add: downgrade_action static_decision_def values_for_Cons decided_def Let_def)
  qed
qed

lemma static_walk_shared:
  assumes "\<And>sp d. (sp, d) \<in> set pairs \<Longrightarrow> d = plain_action (ad_action d) B1_MAPPING \<and> ad_action d \<noteq> PSEUDONYMIZE"
    and "allowed_walk ops scope key text values index cursor seen v pairs = Inr w"
  shows "static_walk text values index cursor seen (map (\<lambda>(sp, d). (sp, ad_action d)) pairs) =
    Inr (wk_parts w, wk_transformations w, wk_decisions w)"
  using assms
proof (induction pairs arbitrary: index cursor seen v w)
  case Nil
  then show ?case by auto
next
  case (Cons sd rest)
  obtain sp d where sd: "sd = (sp, d)" by (cases sd)
  have d: "d = plain_action (ad_action d) B1_MAPPING" "ad_action d \<noteq> PSEUDONYMIZE"
    using Cons.prems(1) [of sp d] by (simp_all add: sd)
  from Cons.prems(2) [unfolded sd] show ?case
  proof (cases rule: allowed_walk_ConsE)
    case (1 transformed v' w')
    have "static_transform values index sp (ad_action d) = Inr transformed"
      using 1(1) d(2) by (auto simp: static_transform_def transform_span_def dest: sym split: if_splits option.splits)
    moreover have "allowed_decision (sp_category sp) d = plain_decision (sp_category sp) (ad_action d) B1_MAPPING [ad_action d]"
      by (subst d(1)) (simp add: allowed_decision_def plain_decision_def plain_action_def)
    moreover have "static_walk text values (Suc index) (hi sp)
        (if sp_category sp \<in> set seen then seen else sp_category sp # seen) (map (\<lambda>(sp, d). (sp, ad_action d)) rest) =
        Inr (wk_parts w', wk_transformations w', wk_decisions w')"
      using Cons.prems(1) by (intro Cons.IH [OF _ 1(2)]) (meson list.set_intros(2))
    ultimately show ?thesis by (simp add: sd 1(3-5))
  qed
qed
text \<open>A vault that is never called.\<close>

definition no_vault :: "unit vault_ops" where
  "no_vault = \<lparr>vo_pseudonymize = (\<lambda>v s k c x. ('''', v)), vo_reconstruct = (\<lambda>v s k p. None)\<rparr>"

lemma static_never_pseudonymizes: "ad_action (downgrade (static_decision sp) sp) \<noteq> PSEUDONYMIZE"
  using static_action_cases [of "sp_category sp"] by (auto simp: downgrade_action static_decision_def)

lemma downgrade_static:
  "ad_action (downgrade (static_decision sp) sp) \<noteq> BLOCK_REQUEST \<Longrightarrow> downgrade (static_decision sp) sp = static_decision sp"
  by (auto simp: downgrade_def plain_action_def split: if_splits)

text \<open>The ends of B1's \<open>sanitize\<close>: it never raises.\<close>

lemma static_sanitize_cases:
  obtains
    (invalid) "\<not> spans_are_valid spans (rq_text request)"
      "static_sanitize request spans = Inr (static_invalid_span_result spans)"
  | (blocked) ordered where "spans_are_valid spans (rq_text request)" "resolve_overlaps spans = Inr ordered"
      "some_block static_decision ordered"
      "static_sanitize request spans =
         Inr (static_blocked_result ordered (map (\<lambda>sp. ad_action (downgrade (static_decision sp) sp)) ordered))"
  | (allowed) ordered vals w where "spans_are_valid spans (rq_text request)" "resolve_overlaps spans = Inr ordered"
      "\<not> some_block static_decision ordered" "values_for vals 0 (decided static_decision ordered)"
      "allowed_walk no_vault REQUEST '''' (rq_text request) vals 0 0 [] () (decided static_decision ordered) = Inr w"
      "static_sanitize request spans =
         Inr \<lparr>rs_external_payload = concat (wk_parts w), rs_decisions = wk_decisions w,
              rs_transformations = wk_transformations w, rs_reconstruction_required = False, rs_status = Allowed\<rparr>"
proof (cases "spans_are_valid spans (rq_text request)")
  case False
  with invalid show thesis by (simp add: static_sanitize_def)
next
  case True
  obtain ordered where ord: "resolve_overlaps spans = Inr ordered"
    using resolve_overlaps_total [OF spans_are_valid_structural [OF True]] by blast
  obtain vals where v: "resolve_actions_and_generalized_values 0 ordered =
       Inr (map (\<lambda>sp. ad_action (downgrade (static_decision sp) sp)) ordered, vals)"
    "values_for vals 0 (decided static_decision ordered)"
    using static_resolve_total by blast
  have blk: "BLOCK_REQUEST \<in> set (map (\<lambda>sp. ad_action (downgrade (static_decision sp) sp)) ordered) \<longleftrightarrow>
      some_block static_decision ordered"
    by (force simp: some_block_def list_ex_iff)
  show thesis
  proof (cases "some_block static_decision ordered")
    case blk': True
    show ?thesis by (rule blocked [OF True ord blk']) (simp add: static_sanitize_def True ord v(1) blk blk' del: set_map)
  next
    case nblk: False
    obtain w where w: "allowed_walk no_vault REQUEST '''' (rq_text request) vals 0 0 [] () (decided static_decision ordered) = Inr w"
      using allowed_walk_total [OF v(2), of no_vault REQUEST "''''" "rq_text request" 0 "[]" "()"] by blast
    have plain: "d = plain_action (ad_action d) B1_MAPPING \<and> ad_action d \<noteq> PSEUDONYMIZE"
      if "(sp, d) \<in> set (decided static_decision ordered)" for sp d
    proof -
      have d: "d = downgrade (static_decision sp) sp" "sp \<in> set ordered" using that by (auto simp: decided_def)
      then have "ad_action d \<noteq> BLOCK_REQUEST" using nblk by (auto simp: some_block_def list_ex_iff)
      then show ?thesis using d downgrade_static [of sp] static_never_pseudonymizes [of sp]
        by (simp add: static_decision_def)
    qed
    have "map (\<lambda>(sp, d). (sp, ad_action d)) (decided static_decision ordered) =
        zip ordered (map (\<lambda>sp. ad_action (downgrade (static_decision sp) sp)) ordered)"
      by (induction ordered) (simp_all add: decided_def)
    with static_walk_shared [OF plain w] have
      "static_walk (rq_text request) vals 0 0 [] (zip ordered (map (\<lambda>sp. ad_action (downgrade (static_decision sp) sp)) ordered)) =
        Inr (wk_parts w, wk_transformations w, wk_decisions w)" by simp
    then have "static_sanitize request spans =
         Inr \<lparr>rs_external_payload = concat (wk_parts w), rs_decisions = wk_decisions w,
              rs_transformations = wk_transformations w, rs_reconstruction_required = False, rs_status = Allowed\<rparr>"
      using blk nblk by (simp add: static_sanitize_def True ord v(1) static_allowed_result_def del: set_map)
    then show ?thesis by (rule allowed [OF True ord nblk v(2) w])
  qed
qed

lemma static_sanitize_total: "\<exists>r. static_sanitize request spans = Inr r"
  by (rule static_sanitize_cases [of spans request]) auto

subsection \<open>What B1 discloses\<close>

lemma static_blocked_categories:
  "list_all2 (alike static_decision) xs ys \<Longrightarrow>
     map (sp_category \<circ> fst) (filter (\<lambda>(sp, act). act = BLOCK_REQUEST)
       (zip xs (map (\<lambda>sp. ad_action (downgrade (static_decision sp) sp)) xs))) =
     map (sp_category \<circ> fst) (filter (\<lambda>(sp, act). act = BLOCK_REQUEST)
       (zip ys (map (\<lambda>sp. ad_action (downgrade (static_decision sp) sp)) ys)))"
  by (induction rule: list_all2_induct) (auto simp: alike_def)

lemma static_only_disclosed:
  assumes v1: "spans_are_valid s1 (rq_text r1)" "resolve_overlaps s1 = Inr o1" "static_sanitize r1 s1 = Inr a"
    and v2: "spans_are_valid s2 (rq_text r2)" "resolve_overlaps s2 = Inr o2" "static_sanitize r2 s2 = Inr b"
    and gaps: "gaps (rq_text r1) 0 o1 = gaps (rq_text r2) 0 o2"
    and alike: "list_all2 (alike static_decision) o1 o2"
  shows "rs_external_payload a = rs_external_payload b \<and> rs_status a = rs_status b \<and> rs_decisions a = rs_decisions b"
proof (cases "some_block static_decision o1")
  case True
  then have "some_block static_decision o2" using alike_block [OF alike] by simp
  then have "static_sanitize r2 s2 =
      Inr (static_blocked_result o2 (map (\<lambda>sp. ad_action (downgrade (static_decision sp) sp)) o2))"
    by (cases rule: static_sanitize_cases [of s2 r2]) (use v2 in auto)
  moreover have "static_sanitize r1 s1 =
      Inr (static_blocked_result o1 (map (\<lambda>sp. ad_action (downgrade (static_decision sp) sp)) o1))"
    by (cases rule: static_sanitize_cases [of s1 r1]) (use v1 True in auto)
  ultimately show ?thesis
    using v1(3) v2(3) static_blocked_categories [OF alike] by (simp add: static_blocked_result_def)
next
  case False
  then have nb2: "\<not> some_block static_decision o2" using alike_block [OF alike] by simp
  obtain vals1 w1 where w1: "values_for vals1 0 (decided static_decision o1)"
    "allowed_walk no_vault REQUEST '''' (rq_text r1) vals1 0 0 [] () (decided static_decision o1) = Inr w1"
    "a = \<lparr>rs_external_payload = concat (wk_parts w1), rs_decisions = wk_decisions w1,
          rs_transformations = wk_transformations w1, rs_reconstruction_required = False, rs_status = Allowed\<rparr>"
    by (cases rule: static_sanitize_cases [of s1 r1]) (use v1 False in auto)
  obtain vals2 w2 where w2: "values_for vals2 0 (decided static_decision o2)"
    "allowed_walk no_vault REQUEST '''' (rq_text r2) vals2 0 0 [] () (decided static_decision o2) = Inr w2"
    "b = \<lparr>rs_external_payload = concat (wk_parts w2), rs_decisions = wk_decisions w2,
          rs_transformations = wk_transformations w2, rs_reconstruction_required = False, rs_status = Allowed\<rparr>"
    by (cases rule: static_sanitize_cases [of s2 r2]) (use v2 nb2 in auto)
  note f1 = walk_payload [OF w1(1,2)] and f2 = walk_payload [OF w2(1,2)]
  have "map tr_transformed (wk_transformations w1) = map tr_transformed (wk_transformations w2)"
    using alike_replacements [OF alike f1(3) f2(3)] False static_never_pseudonymizes
    by (auto simp: some_block_def list_ex_iff)
  then have "map (the_default '''' \<circ> tr_transformed) (wk_transformations w1) =
      map (the_default '''' \<circ> tr_transformed) (wk_transformations w2)"
    by (metis map_map)
  then show ?thesis
    using f1(1,5) f2(1,5) gaps alike_decisions [OF alike] by (simp add: w1(3) w2(3) comp_def)
qed

end
