(* ===== verification/Reversible_Pseudonymization.thy ===== *)
theory Reversible_Pseudonymization
  imports Static_Sanitization
begin

text \<open>
  \<open>transformations/reversible_pseudonymization.py\<close> (B2): B1's map with PSEUDONYMIZE in the place of
  REMOVE, applied through the shared machinery and a vault.
\<close>

definition REVERSIBLE_ACTIONS :: "(pystr, disclosure_action) dict" where
  "REVERSIBLE_ACTIONS =
     [(''employee_name'', PSEUDONYMIZE), (''cpf'', PSEUDONYMIZE), (''cnpj'', PSEUDONYMIZE),
      (''email'', PSEUDONYMIZE), (''phone'', PSEUDONYMIZE), (''salary'', GENERALIZE),
      (''department'', PRESERVE), (''medical_data'', BLOCK_REQUEST), (''party_name'', PSEUDONYMIZE),
      (''representative_name'', PSEUDONYMIZE), (''bank_account'', BLOCK_REQUEST),
      (''contract_value'', GENERALIZE), (''penalty_amount'', GENERALIZE), (''deadline'', GENERALIZE)]"

definition reversible_resolve_action :: "pystr \<Rightarrow> disclosure_action" where
  "reversible_resolve_action category =
     (let act = dict_get_default REVERSIBLE_ACTIONS category BLOCK_REQUEST in
      if act = GENERALIZE \<and> \<not> is_configured category then BLOCK_REQUEST else act)"

definition REVERSIBLE_REASONS :: treatment_reasons where
  "REVERSIBLE_REASONS =
     \<lparr>tre_invalid_spans =
        ''B2 reversible pseudonymization blocks: span offsets are missing, out of bounds, or do not match the source text'',
      tre_missing_scope_identifier =
        ''B2 reversible pseudonymization blocks: the resolved pseudonym scope requires a lifecycle identifier the governance context does not provide''\<rparr>"

definition reversible_decide :: "sensitive_span \<Rightarrow> action_decision" where
  "reversible_decide sp =
     (let act = reversible_resolve_action (sp_category sp) in
      plain_action act
        (if act = BLOCK_REQUEST then ''B2 reversible pseudonymization blocks this category unconditionally''
         else ''B2 reversible pseudonymization: static category mapping''))"

definition reversible_sanitize ::
  "'v vault_ops \<Rightarrow> policy_repository \<Rightarrow> 'v \<Rightarrow> disclosure_request \<Rightarrow> sensitive_span list \<Rightarrow>
     (disclosure_result \<times> 'v) result" where
  "reversible_sanitize ops repo v request spans =
     (if \<not> spans_are_valid spans (rq_text request) then
        Inr (invalid_span_result spans REVERSIBLE_REASONS, v)
      else
        (case resolve_overlaps spans of
           Inl e \<Rightarrow> Inl e
         | Inr ordered \<Rightarrow>
             (case apply_decisions ops v repo REVERSIBLE_REASONS (rq_text request) ordered
                     (\<lambda>sp. Inr (reversible_decide sp)) (rq_context request) of
                Inl e \<Rightarrow> Inl e
              | Inr (outcome, v') \<Rightarrow> Inr (ao_result outcome, v'))))"

definition reversible_reconstruct ::
  "'v vault_ops \<Rightarrow> policy_repository \<Rightarrow> 'v \<Rightarrow> pystr \<Rightarrow> disclosure_result \<Rightarrow> governance_context \<Rightarrow> pystr" where
  "reversible_reconstruct ops repo v response res ctx = ro_text (reconstruct ops v repo response res ctx)"

lemma reversible_sanitize_with:
  "reversible_sanitize ops repo v request spans =
     sanitize_with ops v repo REVERSIBLE_REASONS (\<lambda>_ sp. Inr (reversible_decide sp)) request spans"
  by (simp add: reversible_sanitize_def sanitize_with_def)

text \<open>The one difference between the two maps.\<close>

lemma reversible_action_static:
  "reversible_resolve_action c =
     (if static_resolve_action c = REMOVE then PSEUDONYMIZE else static_resolve_action c)"
  by (simp add: reversible_resolve_action_def static_resolve_action_def REVERSIBLE_ACTIONS_def STATIC_ACTIONS_def
      dict_get_default_def Let_def is_configured_def GENERALIZATION_STRATEGIES_def dict_has_def)

lemma reversible_decide_action [simp]: "ad_action (reversible_decide sp) = reversible_resolve_action (sp_category sp)"
  by (simp add: reversible_decide_def Let_def)

lemma reversible_block_static: "some_block reversible_decide xs = some_block static_decision xs"
proof -
  have "ad_action (downgrade (reversible_decide sp) sp) = BLOCK_REQUEST \<longleftrightarrow>
      ad_action (downgrade (static_decision sp) sp) = BLOCK_REQUEST" for sp
    by (simp add: downgrade_action static_decision_def reversible_action_static)
  then show ?thesis by (simp add: some_block_def)
qed

end
