(* ===== verification/Relevance_Selection.thy ===== *)
theory Relevance_Selection
  imports Domain
begin

text \<open>
  \<open>transformations/relevance_selection.py\<close>: the ladder of disclosure levels, the ordering of an
  action space and the choice of an action for a relevance level. The lemmas show that the
  choice is a member of the space and the least disclosing one that serves the level.
\<close>

definition CANONICAL_DISCLOSURE_ORDER :: "disclosure_action list" where
  "CANONICAL_DISCLOSURE_ORDER = [REMOVE, PSEUDONYMIZE, GENERALIZE, PRESERVE]"

definition order_action_space :: "disclosure_action list \<Rightarrow> disclosure_action list" where
  "order_action_space actions = filter (\<lambda>a. a \<in> set actions) CANONICAL_DISCLOSURE_ORDER"

definition select_action_for_relevance :: "task_relevance \<Rightarrow> disclosure_action list \<Rightarrow> disclosure_action result" where
  "select_action_for_relevance level action_space =
     (case level of
        NOT_RELEVANT \<Rightarrow> (case action_space of [] \<Rightarrow> Inl IndexError | a # _ \<Rightarrow> Inr a)
      | RELEVANT_WITHOUT_EXACT_VALUE \<Rightarrow>
          (case find (\<lambda>a. a \<noteq> REMOVE) action_space of
             Some a \<Rightarrow> Inr a
           | None \<Rightarrow> (case action_space of [] \<Rightarrow> Inl IndexError | a # _ \<Rightarrow> Inr a))
      | RELEVANT_WITH_EXACT_VALUE \<Rightarrow>
          if PRESERVE \<in> set action_space then Inr PRESERVE
          else if action_space = [] then Inl IndexError else Inr (last action_space)
      | AMBIGUOUS \<Rightarrow> Inl AssertionError)"

subsection \<open>Exposure\<close>

text \<open>The rank of an action in the ladder; \<open>None\<close> for an action that is not a disclosure level.\<close>

fun exposure_rank :: "disclosure_action \<Rightarrow> nat option" where
  "exposure_rank REMOVE = Some 0"
| "exposure_rank PSEUDONYMIZE = Some 1"
| "exposure_rank GENERALIZE = Some 2"
| "exposure_rank PRESERVE = Some 3"
| "exposure_rank BLOCK_REQUEST = None"
| "exposure_rank TASK_DEPENDENT = None"

definition is_level :: "disclosure_action \<Rightarrow> bool" where
  "is_level a \<longleftrightarrow> exposure_rank a \<noteq> None"

definition exposure :: "disclosure_action \<Rightarrow> nat" where
  "exposure a = the_default 0 (exposure_rank a)"

text \<open>An action space in the canonical order, without repetition.\<close>

definition canonical_space :: "disclosure_action list \<Rightarrow> bool" where
  "canonical_space sp \<longleftrightarrow> list_all is_level sp \<and> sorted_wrt (\<lambda>a b. exposure a < exposure b) sp"

definition serves :: "task_relevance \<Rightarrow> disclosure_action \<Rightarrow> bool" where
  "serves level a \<longleftrightarrow>
     (case level of
        NOT_RELEVANT \<Rightarrow> True
      | RELEVANT_WITHOUT_EXACT_VALUE \<Rightarrow> a \<noteq> REMOVE
      | RELEVANT_WITH_EXACT_VALUE \<Rightarrow> a = PRESERVE
      | AMBIGUOUS \<Rightarrow> False)"

lemma order_action_space_mem [simp]: "a \<in> set (order_action_space xs) \<longleftrightarrow> is_level a \<and> a \<in> set xs"
  by (cases a) (simp_all add: order_action_space_def CANONICAL_DISCLOSURE_ORDER_def is_level_def)

lemma order_action_space_nonempty: "xs \<noteq> [] \<Longrightarrow> list_all is_level xs \<Longrightarrow> order_action_space xs \<noteq> []"
proof -
  assume "xs \<noteq> []" and "list_all is_level xs"
  then have "hd xs \<in> set (order_action_space xs)" by (simp add: list_all_iff)
  then show ?thesis by (metis empty_iff list.set(1))
qed

lemma order_action_space_canonical: "canonical_space (order_action_space xs)"
  unfolding canonical_space_def order_action_space_def CANONICAL_DISCLOSURE_ORDER_def
  by (auto simp: is_level_def exposure_def)

lemma order_action_space_cong: "set xs = set ys \<Longrightarrow> order_action_space xs = order_action_space ys"
  by (simp add: order_action_space_def)

lemma order_action_space_drops:
  "length (order_action_space xs) = card (set xs) \<longleftrightarrow> list_all is_level xs"
proof -
  have d: "distinct (order_action_space xs)"
    by (simp add: order_action_space_def CANONICAL_DISCLOSURE_ORDER_def)
  have s: "set (order_action_space xs) = {a \<in> set xs. is_level a}" by auto
  have c: "length (order_action_space xs) = card {a \<in> set xs. is_level a}"
    using distinct_card [OF d] s by simp
  show ?thesis
  proof
    assume "length (order_action_space xs) = card (set xs)"
    then have "{a \<in> set xs. is_level a} = set xs" using c by (intro card_subset_eq) auto
    then show "list_all is_level xs" by (auto simp: list_all_iff)
  next
    assume "list_all is_level xs"
    then have "{a \<in> set xs. is_level a} = set xs" by (auto simp: list_all_iff)
    then show "length (order_action_space xs) = card (set xs)" using c by simp
  qed
qed

lemma canonical_hd_least: "canonical_space (a # sp) \<Longrightarrow> b \<in> set (a # sp) \<Longrightarrow> exposure a \<le> exposure b"
  by (auto simp: canonical_space_def)

lemma canonical_last_most:
  assumes "canonical_space sp" and "b \<in> set sp"
  shows "exposure b \<le> exposure (last sp)"
proof -
  have "sp \<noteq> []" using assms(2) by auto
  then have sp: "sp = butlast sp @ [last sp]" by simp
  then have "sorted_wrt (\<lambda>a b. exposure a < exposure b) (butlast sp @ [last sp])"
    using assms(1) by (simp add: canonical_space_def)
  then have "\<forall>c \<in> set (butlast sp). exposure c < exposure (last sp)" by (simp add: sorted_wrt_append)
  moreover have "b \<in> set (butlast sp) \<or> b = last sp" using assms(2) sp by (metis Un_iff empty_iff insert_iff list.set set_append)
  ultimately show ?thesis by auto
qed

lemma find_SomeD: "find P xs = Some a \<Longrightarrow> a \<in> set xs \<and> P a"
  by (induction xs) (auto split: if_splits)

lemma select_member:
  "select_action_for_relevance level action_space = Inr a \<Longrightarrow> a \<in> set action_space"
  by (cases level)
    (auto simp: select_action_for_relevance_def dest: find_SomeD split: option.splits list.splits if_splits)

lemma select_total:
  "action_space \<noteq> [] \<Longrightarrow> level \<noteq> AMBIGUOUS \<Longrightarrow> \<exists>a. select_action_for_relevance level action_space = Inr a"
  by (cases level) (auto simp: select_action_for_relevance_def split: option.splits list.splits)

lemma find_canonical_least:
  assumes "canonical_space sp" and "find P sp = Some a" and "b \<in> set sp" and "P b"
  shows "exposure a \<le> exposure b"
  using assms
proof (induction sp)
  case (Cons c sp)
  show ?case
  proof (cases "P c")
    case True
    with Cons.prems show ?thesis using canonical_hd_least by simp
  next
    case False
    with Cons.prems Cons.IH show ?thesis by (auto simp: canonical_space_def)
  qed
qed simp

text \<open>When some permitted action serves the level, the choice does, and discloses least among those that do.\<close>

lemma select_serves:
  assumes "canonical_space sp" and "select_action_for_relevance level sp = Inr a"
    and "b \<in> set sp" and "serves level b"
  shows "serves level a \<and> exposure a \<le> exposure b"
proof (cases level)
  case NOT_RELEVANT
  with assms canonical_hd_least show ?thesis
    by (auto simp: select_action_for_relevance_def serves_def split: list.splits)
next
  case RELEVANT_WITHOUT_EXACT_VALUE
  with assms have "find (\<lambda>a. a \<noteq> REMOVE) sp \<noteq> None" by (auto simp: serves_def find_None_iff)
  then obtain c where c: "find (\<lambda>a. a \<noteq> REMOVE) sp = Some c" by blast
  with assms(2) RELEVANT_WITHOUT_EXACT_VALUE have "a = c" by (simp add: select_action_for_relevance_def)
  then show ?thesis
    using c assms RELEVANT_WITHOUT_EXACT_VALUE find_canonical_least [OF assms(1) c assms(3)]
    by (auto simp: serves_def dest: find_SomeD)
next
  case RELEVANT_WITH_EXACT_VALUE
  with assms show ?thesis by (auto simp: serves_def select_action_for_relevance_def)
next
  case AMBIGUOUS
  with assms show ?thesis by (simp add: serves_def)
qed

text \<open>When none does, the choice is the least disclosing or, for an exact value, the most disclosing permitted action.\<close>

lemma select_fallback:
  assumes "canonical_space sp" and "select_action_for_relevance level sp = Inr a"
    and "\<And>c. c \<in> set sp \<Longrightarrow> \<not> serves level c" and "b \<in> set sp"
  shows "if level = RELEVANT_WITH_EXACT_VALUE then exposure b \<le> exposure a else exposure a \<le> exposure b"
proof (cases level)
  case NOT_RELEVANT
  with assms show ?thesis by (auto simp: serves_def)
next
  case RELEVANT_WITHOUT_EXACT_VALUE
  then have all: "\<And>c. c \<in> set sp \<Longrightarrow> c = REMOVE" using assms(3) by (auto simp: serves_def)
  have "a \<in> set sp" using assms(2) by (rule select_member)
  then show ?thesis using all [of a] all [OF assms(4)] RELEVANT_WITHOUT_EXACT_VALUE by simp
next
  case RELEVANT_WITH_EXACT_VALUE
  then have "PRESERVE \<notin> set sp" using assms(3) by (auto simp: serves_def)
  with assms(2) RELEVANT_WITH_EXACT_VALUE have "a = last sp"
    by (auto simp: select_action_for_relevance_def split: if_splits)
  with canonical_last_most [OF assms(1,4)] RELEVANT_WITH_EXACT_VALUE show ?thesis by simp
next
  case AMBIGUOUS
  with assms(2) show ?thesis by (simp add: select_action_for_relevance_def)
qed

end
