(* ===== verification/Task_Aware.thy ===== *)
theory Task_Aware
  imports Relevance_Selection Decision_Application
begin

text \<open>
  \<open>transformations/task_aware.py\<close> (B3): the fixed action space of each category, the reading of a
  task analysis, the decider and \<open>sanitize\<close>. A task analyzer is a parameter (the shipped one
  is in \<open>Task_Analysis\<close>): it may raise, and a level it reports may be no \<open>TaskRelevance\<close> (\<open>None\<close>).

  The lemmas show that the decider never raises on the spans it is given, for any analyzer, and that
  every action it chooses lies in the category's space.
\<close>

type_synonym task_analysis = "(pystr, task_relevance option) dict"
type_synonym task_analyzer = "pystr \<Rightarrow> pystr list \<Rightarrow> task_analysis result"
type_synonym relevance_map = "(pystr, task_relevance) dict"

definition TASK_AWARE_ACTION_SPACES :: "(pystr, disclosure_action list) dict" where
  "TASK_AWARE_ACTION_SPACES =
     [(''employee_name'', [REMOVE, PSEUDONYMIZE]), (''cpf'', [REMOVE, PSEUDONYMIZE]),
      (''cnpj'', [REMOVE, PSEUDONYMIZE]), (''email'', [REMOVE, PSEUDONYMIZE]),
      (''phone'', [REMOVE, PSEUDONYMIZE]), (''salary'', [REMOVE, GENERALIZE, PRESERVE]),
      (''department'', [REMOVE, PRESERVE]), (''medical_data'', [BLOCK_REQUEST]),
      (''party_name'', [REMOVE, PSEUDONYMIZE]), (''representative_name'', [REMOVE, PSEUDONYMIZE]),
      (''bank_account'', [BLOCK_REQUEST]), (''contract_value'', [REMOVE, GENERALIZE, PRESERVE]),
      (''penalty_amount'', [REMOVE, GENERALIZE, PRESERVE]), (''deadline'', [REMOVE, GENERALIZE, PRESERVE])]"

definition TASK_AWARE_REASONS :: treatment_reasons where
  "TASK_AWARE_REASONS =
     \<lparr>tre_invalid_spans =
        ''B3 task-aware blocks: span offsets are missing, out of bounds, or do not match the source text'',
      tre_missing_scope_identifier =
        ''B3 task-aware blocks: the resolved pseudonym scope requires a lifecycle identifier the governance context does not provide''\<rparr>"

definition B3_ANALYZER_FAILURE :: pystr where
  "B3_ANALYZER_FAILURE =
     ''B3 task-aware blocks: the task analyzer raised an exception or reported an unrecognized relevance level for a detected category, so the whole request fails closed rather than trusting any of its per-category decisions''"

definition B3_OUT_OF_SPACE :: pystr where
  "B3_OUT_OF_SPACE =
     ''B3 task-aware blocks: this category has no entry in the generic task-aware action space''"

definition B3_AMBIGUOUS :: pystr where
  "B3_AMBIGUOUS =
     ''B3 task-aware: task analyzer reported an ambiguous relevance for this category; the least-disclosing action in its action space was chosen''"

text \<open>The loop over the categories, which stops at the first one without a recognised level.\<close>

fun collect_relevance :: "task_analysis \<Rightarrow> relevance_map \<Rightarrow> pystr list \<Rightarrow> relevance_map \<times> bool" where
  "collect_relevance analysis acc [] = (acc, False)"
| "collect_relevance analysis acc (c # cs) =
     (case dict_get analysis c of
        Some (Some level) \<Rightarrow> collect_relevance analysis (dict_set acc c level) cs
      | _ \<Rightarrow> (acc, True))"

text \<open>The guarded call of the analyzer: any exception means that the analysis failed.\<close>

definition analyze_relevance :: "task_analyzer \<Rightarrow> pystr \<Rightarrow> pystr list \<Rightarrow> relevance_map \<times> bool" where
  "analyze_relevance analyze task categories =
     (case analyze task categories of
        Inl _ \<Rightarrow> ([], True)
      | Inr analysis \<Rightarrow> collect_relevance analysis [] categories)"

definition task_aware_decide :: "relevance_map \<Rightarrow> bool \<Rightarrow> sensitive_span \<Rightarrow> action_decision result" where
  "task_aware_decide relevance analysis_failed sp =
     (if analysis_failed then Inr (plain_action BLOCK_REQUEST B3_ANALYZER_FAILURE)
      else
        (case dict_get TASK_AWARE_ACTION_SPACES (sp_category sp) of
           None \<Rightarrow> Inr (plain_action BLOCK_REQUEST B3_OUT_OF_SPACE)
         | Some action_space \<Rightarrow>
             (case dict_get relevance (sp_category sp) of
                None \<Rightarrow> Inl KeyError
              | Some level \<Rightarrow>
                  if level = AMBIGUOUS then
                    (case action_space of
                       [] \<Rightarrow> Inl IndexError
                     | a # _ \<Rightarrow> Inr (plain_action a B3_AMBIGUOUS))
                  else
                    (case select_action_for_relevance level action_space of
                       Inl e \<Rightarrow> Inl e
                     | Inr act \<Rightarrow>
                         Inr ((plain_action act (''B3 task-aware: task relevance resolved to '' @ relevance_value level))
                                \<lparr>ad_task_required := Some (level \<noteq> NOT_RELEVANT)\<rparr>)))))"

definition task_aware_sanitize ::
  "'v vault_ops \<Rightarrow> policy_repository \<Rightarrow> task_analyzer \<Rightarrow> 'v \<Rightarrow> disclosure_request \<Rightarrow> sensitive_span list \<Rightarrow>
     (disclosure_result \<times> 'v) result" where
  "task_aware_sanitize ops repo analyze v request spans =
     (if \<not> spans_are_valid spans (rq_text request) then Inr (invalid_span_result spans TASK_AWARE_REASONS, v)
      else
        (case resolve_overlaps spans of
           Inl e \<Rightarrow> Inl e
         | Inr ordered \<Rightarrow>
             (let categories = sorted_set (map sp_category ordered);
                  (relevance, analysis_failed) = analyze_relevance analyze (rq_task request) categories
              in case apply_decisions ops v repo TASK_AWARE_REASONS (rq_text request) ordered
                        (task_aware_decide relevance analysis_failed) (rq_context request) of
                   Inl e \<Rightarrow> Inl e
                 | Inr (outcome, v') \<Rightarrow> Inr (ao_result outcome, v'))))"

definition task_aware_reconstruct ::
  "'v vault_ops \<Rightarrow> policy_repository \<Rightarrow> 'v \<Rightarrow> pystr \<Rightarrow> disclosure_result \<Rightarrow> governance_context \<Rightarrow> pystr" where
  "task_aware_reconstruct ops repo v response res ctx = ro_text (reconstruct ops v repo response res ctx)"

subsection \<open>Reading an analysis\<close>

lemma collect_relevance_ok:
  "collect_relevance analysis acc cs = (relevance, False) \<Longrightarrow>
     (\<forall>c \<in> set cs. \<exists>level. dict_get analysis c = Some (Some level) \<and> dict_get relevance c = Some level) \<and>
     (\<forall>c. c \<notin> set cs \<longrightarrow> dict_get relevance c = dict_get acc c)"
proof (induction cs arbitrary: acc)
  case (Cons c cs)
  then obtain level where l: "dict_get analysis c = Some (Some level)"
    by (auto split: option.splits)
  with Cons.prems have "collect_relevance analysis (dict_set acc c level) cs = (relevance, False)" by simp
  from Cons.IH [OF this] show ?case using l by (cases "c \<in> set cs") auto
qed simp

lemma analyze_relevance_ok:
  assumes "analyze_relevance analyze task categories = (relevance, False)" and "c \<in> set categories"
  obtains analysis level where "analyze task categories = Inr analysis"
    and "dict_get analysis c = Some (Some level)" and "dict_get relevance c = Some level"
proof -
  obtain analysis where a: "analyze task categories = Inr analysis"
    using assms(1) by (cases "analyze task categories") (auto simp: analyze_relevance_def)
  with assms(1) have "collect_relevance analysis [] categories = (relevance, False)"
    by (simp add: analyze_relevance_def)
  with collect_relevance_ok assms(2) a that show thesis by blast
qed

subsection \<open>The decider is total, and stays in the space\<close>

lemma space_cases:
  "dict_get TASK_AWARE_ACTION_SPACES c = Some action_space \<Longrightarrow>
     action_space \<noteq> [] \<and> (action_space = [BLOCK_REQUEST] \<or> canonical_space action_space)"
  by (auto simp: TASK_AWARE_ACTION_SPACES_def dict_get_def canonical_space_def is_level_def exposure_def
      split: if_splits)

definition covers :: "relevance_map \<Rightarrow> sensitive_span \<Rightarrow> bool" where
  "covers relevance sp \<longleftrightarrow> dict_get relevance (sp_category sp) \<noteq> None"

lemma task_aware_decide_total:
  assumes "\<not> analysis_failed \<Longrightarrow> covers relevance sp"
  shows "\<exists>d. task_aware_decide relevance analysis_failed sp = Inr d"
proof (cases "analysis_failed \<or> dict_get TASK_AWARE_ACTION_SPACES (sp_category sp) = None")
  case True
  then show ?thesis by (auto simp: task_aware_decide_def)
next
  case False
  then obtain action_space level where s: "dict_get TASK_AWARE_ACTION_SPACES (sp_category sp) = Some action_space"
    "dict_get relevance (sp_category sp) = Some level"
    using assms by (auto simp: covers_def)
  have ne: "action_space \<noteq> []" using space_cases [OF s(1)] by simp
  show ?thesis
  proof (cases "level = AMBIGUOUS")
    case True
    with s ne False show ?thesis by (auto simp: task_aware_decide_def split: list.splits)
  next
    case nam: False
    from select_total [OF ne nam] obtain a where "select_action_for_relevance level action_space = Inr a" ..
    with s False nam show ?thesis by (simp add: task_aware_decide_def)
  qed
qed

lemma task_aware_decide_space:
  assumes "task_aware_decide relevance analysis_failed sp = Inr d" and "ad_action d \<noteq> BLOCK_REQUEST"
  obtains action_space where "\<not> analysis_failed"
    and "dict_get TASK_AWARE_ACTION_SPACES (sp_category sp) = Some action_space"
    and "ad_action d \<in> set action_space" and "canonical_space action_space"
proof -
  have nf: "\<not> analysis_failed" using assms by (auto simp: task_aware_decide_def)
  then obtain action_space where s: "dict_get TASK_AWARE_ACTION_SPACES (sp_category sp) = Some action_space"
    using assms by (auto simp: task_aware_decide_def split: option.splits)
  obtain level where "dict_get relevance (sp_category sp) = Some level"
    using assms nf s by (auto simp: task_aware_decide_def split: option.splits)
  then have mem: "ad_action d \<in> set action_space"
    using assms(1) nf s
    by (auto simp: task_aware_decide_def dest: select_member split: if_splits list.splits sum.splits)
  with space_cases [OF s] assms(2) have "canonical_space action_space" by auto
  with that nf s mem show thesis by blast
qed

text \<open>The total decider behind \<open>sanitize\<close>, for the spans that are left after overlap resolution.\<close>

definition outcome_of :: "'a result \<Rightarrow> 'a" where
  "outcome_of r = projr r"

definition task_aware_decider :: "task_analyzer \<Rightarrow> disclosure_request \<Rightarrow> sensitive_span list \<Rightarrow> sensitive_span \<Rightarrow>
    action_decision result" where
  "task_aware_decider analyze request ordered =
     (case analyze_relevance analyze (rq_task request) (sorted_set (map sp_category ordered)) of
        (relevance, analysis_failed) \<Rightarrow> task_aware_decide relevance analysis_failed)"

lemma task_aware_sanitize_with:
  "task_aware_sanitize ops repo analyze v request spans =
     sanitize_with ops v repo TASK_AWARE_REASONS (task_aware_decider analyze request) request spans"
  by (simp add: task_aware_sanitize_def sanitize_with_def task_aware_decider_def Let_def split_def
      cong: sum.case_cong)

lemma analyze_relevance_covers:
  assumes "analyze_relevance analyze task (sorted_set (map sp_category ordered)) = (relevance, False)"
    and "sp \<in> set ordered"
  shows "covers relevance sp"
proof -
  have "sp_category sp \<in> set (sorted_set (map sp_category ordered))" using assms(2) by simp
  from analyze_relevance_ok [OF assms(1) this] show ?thesis by (metis covers_def option.distinct(1))
qed

lemma task_aware_decider_total:
  assumes "sp \<in> set ordered"
  shows "task_aware_decider analyze request ordered sp = Inr (outcome_of (task_aware_decider analyze request ordered sp))"
proof -
  obtain relevance failed where r: "analyze_relevance analyze (rq_task request) (sorted_set (map sp_category ordered)) =
      (relevance, failed)" by force
  have "covers relevance sp" if "\<not> failed"
    using analyze_relevance_covers [of analyze "rq_task request" ordered relevance sp] r that assms by simp
  from task_aware_decide_total [OF this] obtain d where "task_aware_decide relevance failed sp = Inr d" ..
  with r show ?thesis by (simp add: task_aware_decider_def outcome_of_def)
qed

subsection \<open>Properties\<close>

text \<open>
  what B3 lets through, for every analyzer's answer. The action on a category that is not blocked belongs to
  the category's action space; an ambiguous category gets the least disclosing action; otherwise the action
  serves the relevance level whenever some action of the space does, and no action that serves it discloses less.
\<close>

theorem task_aware_least_disclosing:
  assumes "task_aware_decide relevance failed sp = Inr d" and "ad_action d \<noteq> BLOCK_REQUEST"
  shows "\<not> failed \<and>
    (\<exists>action_space level. dict_get TASK_AWARE_ACTION_SPACES (sp_category sp) = Some action_space \<and>
       dict_get relevance (sp_category sp) = Some level \<and> ad_action d \<in> set action_space \<and>
       (\<forall>b \<in> set action_space. level = AMBIGUOUS \<or> serves level b \<longrightarrow> exposure (ad_action d) \<le> exposure b) \<and>
       ((\<exists>b \<in> set action_space. serves level b) \<longrightarrow> serves level (ad_action d)))"
proof -
  obtain action_space where s: "\<not> failed" "dict_get TASK_AWARE_ACTION_SPACES (sp_category sp) = Some action_space"
    "ad_action d \<in> set action_space" "canonical_space action_space"
    by (rule task_aware_decide_space [OF assms])
  obtain level where l: "dict_get relevance (sp_category sp) = Some level"
    using assms s by (auto simp: task_aware_decide_def split: option.splits)
  have "(\<forall>b \<in> set action_space. level = AMBIGUOUS \<or> serves level b \<longrightarrow> exposure (ad_action d) \<le> exposure b) \<and>
      ((\<exists>b \<in> set action_space. serves level b) \<longrightarrow> serves level (ad_action d))"
  proof (cases "level = AMBIGUOUS")
    case True
    with assms(1) s l have "ad_action d = hd action_space" "action_space \<noteq> []"
      by (auto simp: task_aware_decide_def split: list.splits)
    then obtain rest where "action_space = ad_action d # rest" by (cases action_space) auto
    then show ?thesis using canonical_hd_least s(4) True by (auto simp: serves_def)
  next
    case False
    with assms(1) s l have "select_action_for_relevance level action_space = Inr (ad_action d)"
      by (auto simp: task_aware_decide_def split: sum.splits)
    then show ?thesis using select_serves [OF s(4)] False by blast
  qed
  with s l show ?thesis by blast
qed

theorem task_aware_least_disclosing_witness:
  "task_aware_decide [(''salary'', RELEVANT_WITHOUT_EXACT_VALUE)] False (one_span ''salary'' ''x'' 0) \<noteq> Inl KeyError \<and>
   exposure GENERALIZE \<le> exposure PRESERVE"
proof -
  have "\<exists>d. task_aware_decide [(''salary'', RELEVANT_WITHOUT_EXACT_VALUE)] False (one_span ''salary'' ''x'' 0) = Inr d \<and>
      ad_action d = GENERALIZE"
    by (simp add: task_aware_decide_def TASK_AWARE_ACTION_SPACES_def dict_get_def select_action_for_relevance_def
        one_span_def)
  then obtain d where d: "task_aware_decide [(''salary'', RELEVANT_WITHOUT_EXACT_VALUE)] False (one_span ''salary'' ''x'' 0) = Inr d"
    "ad_action d = GENERALIZE" by blast
  have "dict_get TASK_AWARE_ACTION_SPACES ''salary'' = Some [REMOVE, GENERALIZE, PRESERVE]"
    by (simp add: TASK_AWARE_ACTION_SPACES_def dict_get_def)
  with task_aware_least_disclosing [OF d(1)] d show ?thesis by (auto simp: dict_get_def serves_def one_span_def)
qed

end
