(* ===== verification/Policy_Governed.thy ===== *)
theory Policy_Governed
  imports Task_Aware
begin

text \<open>
  \<open>transformations/policy_governed.py\<close> (B4): the comparison with B3's choice, the identifier of a
  cell of the governance matrix, the decider and \<open>sanitize\<close>.

  The lemmas show that the decider never raises for any repository and analyzer, that every action it
  lets through is one the policy permits, and when the two audit flags are set.
\<close>

definition POLICY_GOVERNED_REASONS :: treatment_reasons where
  "POLICY_GOVERNED_REASONS =
     \<lparr>tre_invalid_spans =
        ''B4 policy-governed blocks: span offsets are missing, out of bounds, or do not match the source text'',
      tre_missing_scope_identifier =
        ''B4 policy-governed blocks: the resolved pseudonym scope requires a lifecycle identifier the governance context does not provide''\<rparr>"

definition B4_ANALYZER_FAILURE :: pystr where
  "B4_ANALYZER_FAILURE =
     ''B4 policy-governed blocks: the task analyzer raised an exception or reported an unrecognized relevance level for a detected category, so the whole request fails closed rather than trusting any of its per-category decisions''"

definition B4_INVALID_SPACE :: pystr where
  "B4_INVALID_SPACE =
     ''B4 policy-governed blocks: the policy-resolved action space for this task-dependent category is empty or contains an action that is not a valid disclosure level''"

definition B4_AMBIGUOUS :: pystr where
  "B4_AMBIGUOUS =
     ''B4 policy-governed: task analyzer reported an ambiguous relevance for this category; the least-disclosing policy-permitted action was chosen''"

definition exposure_rank_of :: "disclosure_action \<Rightarrow> nat result" where
  "exposure_rank_of act = (case exposure_rank act of None \<Rightarrow> Inl KeyError | Some r \<Rightarrow> Inr r)"

definition b3_baseline_action :: "pystr \<Rightarrow> task_relevance option \<Rightarrow> disclosure_action option result" where
  "b3_baseline_action category level =
     (let sp = order_action_space (dict_get_default TASK_AWARE_ACTION_SPACES category []) in
      if sp = [] \<or> sp = [BLOCK_REQUEST] then Inr None
      else
        (case level of
           None \<Rightarrow> Inr None
         | Some AMBIGUOUS \<Rightarrow> Inr (Some (hd sp))
         | Some l \<Rightarrow>
             (case select_action_for_relevance l sp of Inl e \<Rightarrow> Inl e | Inr a \<Rightarrow> Inr (Some a))))"

definition policy_effect ::
  "pystr \<Rightarrow> task_relevance option \<Rightarrow> disclosure_action \<Rightarrow> (bool option \<times> bool option) result" where
  "policy_effect category level chosen =
     (case b3_baseline_action category level of
        Inl e \<Rightarrow> Inl e
      | Inr None \<Rightarrow> Inr (None, None)
      | Inr (Some baseline) \<Rightarrow>
          (case (exposure_rank_of chosen, exposure_rank_of baseline) of
             (Inr c, Inr b) \<Rightarrow>
               Inr (Some (c < b),
                    Some (level = Some RELEVANT_WITH_EXACT_VALUE \<and> baseline = PRESERVE \<and> chosen \<noteq> PRESERVE))
           | (Inl e, _) \<Rightarrow> Inl e
           | (_, Inl e) \<Rightarrow> Inl e))"

text \<open>\<open>x or '<none>'\<close>: the empty string counts as absent.\<close>

definition or_none :: "pystr \<Rightarrow> pystr" where
  "or_none s = (if s = [] then ''<none>'' else s)"

definition matrix_cell :: "governance_context \<Rightarrow> pystr \<Rightarrow> pystr \<Rightarrow> pystr" where
  "matrix_cell ctx category policy_version =
     ''domain='' @ ctx_domain ctx @ ''|policy='' @ policy_version @ ''|category='' @ category @
     ''|purpose='' @ or_none (ctx_purpose ctx) @ ''|role='' @ or_none (the_default '''' (ctx_requester_role ctx)) @
     ''|provider='' @ or_none (ctx_provider_class ctx)"

definition policy_governed_decide ::
  "policy_repository \<Rightarrow> governance_context \<Rightarrow> relevance_map \<Rightarrow> bool \<Rightarrow> sensitive_span \<Rightarrow> action_decision result" where
  "policy_governed_decide repo ctx relevance analysis_failed sp =
     (let category = sp_category sp in
      if analysis_failed then Inr (plain_action BLOCK_REQUEST B4_ANALYZER_FAILURE)
      else
        (let pd = decide repo ctx category in
         if pd_action pd = BLOCK_REQUEST then
           Inr ((plain_action BLOCK_REQUEST (''B4 policy-governed blocks: '' @ pd_reason pd))
                  \<lparr>ad_policy_version := pd_policy_version pd\<rparr>)
         else
           (let level = dict_get relevance category in
            if pd_action pd \<noteq> TASK_DEPENDENT then
              (case policy_effect category level (pd_action pd) of
                 Inl e \<Rightarrow> Inl e
               | Inr (restricted, impossible) \<Rightarrow>
                   Inr \<lparr>ad_action = pd_action pd,
                        ad_reason = ''B4 policy-governed: hard policy action -- '' @ pd_reason pd,
                        ad_task_required = None, ad_allowed_actions = Some [pd_action pd],
                        ad_policy_version = pd_policy_version pd, ad_policy_restricted = restricted,
                        ad_impossible_under_policy = impossible\<rparr>)
            else
              (let ordered_space = order_action_space (pd_allowed_actions pd) in
               if ordered_space = [] \<or> length ordered_space \<noteq> card (set (pd_allowed_actions pd)) then
                 Inr (plain_action BLOCK_REQUEST B4_INVALID_SPACE)
               else
                 (case level of
                    None \<Rightarrow> Inr (plain_action BLOCK_REQUEST B4_ANALYZER_FAILURE)
                  | Some l \<Rightarrow>
                      if l = AMBIGUOUS then
                        Inr ((plain_action (hd ordered_space) B4_AMBIGUOUS)
                               \<lparr>ad_allowed_actions := Some ordered_space,
                                ad_policy_version := pd_policy_version pd\<rparr>)
                      else
                        (case select_action_for_relevance l ordered_space of
                           Inl e \<Rightarrow> Inl e
                         | Inr chosen \<Rightarrow>
                             (case policy_effect category level chosen of
                                Inl e \<Rightarrow> Inl e
                              | Inr (restricted, impossible) \<Rightarrow>
                                  Inr \<lparr>ad_action = chosen,
                                       ad_reason = ''B4 policy-governed: task relevance resolved to '' @
                                         relevance_value l @ '', minimized within the policy-permitted action space'',
                                       ad_task_required = Some (l \<noteq> NOT_RELEVANT),
                                       ad_allowed_actions = Some ordered_space,
                                       ad_policy_version = pd_policy_version pd,
                                       ad_policy_restricted = restricted,
                                       ad_impossible_under_policy = impossible\<rparr>)))))))"

definition policy_governed_sanitize ::
  "'v vault_ops \<Rightarrow> policy_repository \<Rightarrow> task_analyzer \<Rightarrow> 'v \<Rightarrow> disclosure_request \<Rightarrow> sensitive_span list \<Rightarrow>
     (disclosure_result \<times> 'v) result" where
  "policy_governed_sanitize ops repo analyze v request spans =
     (if \<not> spans_are_valid spans (rq_text request) then Inr (invalid_span_result spans POLICY_GOVERNED_REASONS, v)
      else
        (case resolve_overlaps spans of
           Inl e \<Rightarrow> Inl e
         | Inr ordered \<Rightarrow>
             (let categories = sorted_set (map sp_category ordered);
                  (relevance, analysis_failed) = analyze_relevance analyze (rq_task request) categories
              in case apply_decisions ops v repo POLICY_GOVERNED_REASONS (rq_text request) ordered
                        (policy_governed_decide repo (rq_context request) relevance analysis_failed)
                        (rq_context request) of
                   Inl e \<Rightarrow> Inl e
                 | Inr (outcome, v') \<Rightarrow> Inr (ao_result outcome, v'))))"

definition policy_governed_reconstruct ::
  "'v vault_ops \<Rightarrow> policy_repository \<Rightarrow> 'v \<Rightarrow> pystr \<Rightarrow> disclosure_result \<Rightarrow> governance_context \<Rightarrow> pystr" where
  "policy_governed_reconstruct ops repo v response res ctx = ro_text (reconstruct ops v repo response res ctx)"

subsection \<open>The comparison with B3 never raises\<close>

lemma exposure_rank_of_level: "is_level a \<Longrightarrow> exposure_rank_of a = Inr (exposure a)"
  by (auto simp: exposure_rank_of_def is_level_def exposure_def)

lemma is_level_iff: "is_level a \<longleftrightarrow> a \<noteq> BLOCK_REQUEST \<and> a \<noteq> TASK_DEPENDENT"
  by (cases a) (simp_all add: is_level_def)

lemma b3_baseline_cases:
  obtains (none) "b3_baseline_action category level = Inr None"
  | (some) l a where "level = Some l" "b3_baseline_action category level = Inr (Some a)" "is_level a"
      "a \<in> set (dict_get_default TASK_AWARE_ACTION_SPACES category [])"
proof -
  let ?s = "order_action_space (dict_get_default TASK_AWARE_ACTION_SPACES category [])"
  show thesis
  proof (cases "?s = [] \<or> ?s = [BLOCK_REQUEST] \<or> level = None")
    case True
    then have "b3_baseline_action category level = Inr None"
      by (auto simp: b3_baseline_action_def Let_def)
    then show ?thesis by (rule none)
  next
    case False
    then obtain l where l: "level = Some l" "?s \<noteq> []" "?s \<noteq> [BLOCK_REQUEST]" by auto
    show ?thesis
    proof (cases "l = AMBIGUOUS")
      case True
      have "hd ?s \<in> set ?s" using l(2) by (rule hd_in_set)
      then have "is_level (hd ?s)" "hd ?s \<in> set (dict_get_default TASK_AWARE_ACTION_SPACES category [])"
        unfolding order_action_space_mem by blast+
      then show ?thesis using l True by (intro some [of l "hd ?s"]) (simp_all add: b3_baseline_action_def Let_def)
    next
      case nam: False
      from select_total [OF l(2) nam] obtain a where a: "select_action_for_relevance l ?s = Inr a" ..
      have "a \<in> set ?s" using select_member [OF a] .
      moreover have "b3_baseline_action category level = Inr (Some a)"
        using l nam a by (cases l) (simp_all add: b3_baseline_action_def Let_def)
      ultimately show ?thesis using l by (intro some [of l a]) auto
    qed
  qed
qed

lemma policy_effect_total:
  assumes "is_level chosen"
  shows "\<exists>r i. policy_effect category level chosen = Inr (r, i)"
proof (cases rule: b3_baseline_cases [of category level])
  case none
  then show ?thesis by (simp add: policy_effect_def)
next
  case (some l a)
  then show ?thesis using assms by (simp add: policy_effect_def exposure_rank_of_level)
qed

lemma policy_effect_flags:
  assumes "policy_effect category level chosen = Inr (r, i)" and "is_level chosen"
  shows "b3_baseline_action category level = Inr None \<and> r = None \<and> i = None \<or>
    (\<exists>b. b3_baseline_action category level = Inr (Some b) \<and> r = Some (exposure chosen < exposure b) \<and>
       i = Some (level = Some RELEVANT_WITH_EXACT_VALUE \<and> b = PRESERVE \<and> chosen \<noteq> PRESERVE))"
proof (cases rule: b3_baseline_cases [of category level])
  case none
  with assms show ?thesis by (simp add: policy_effect_def)
next
  case (some l a)
  with assms show ?thesis by (auto simp: policy_effect_def exposure_rank_of_level)
qed

lemma level_below_preserve: "is_level a \<Longrightarrow> a \<noteq> PRESERVE \<Longrightarrow> exposure a < exposure PRESERVE"
  by (cases a) (simp_all add: is_level_def exposure_def)

lemma impossible_is_restricted:
  assumes "policy_effect category level chosen = Inr (r, Some True)" and "is_level chosen"
  shows "r = Some True"
  using policy_effect_flags [OF assms] level_below_preserve [OF assms(2)] by auto

subsection \<open>The decider\<close>

text \<open>
  What the decider returns, by what the policy says of the category: a block, a hard action, or
  a task-dependent space, minimized for the relevance level.
\<close>

lemma policy_governed_failed:
  "policy_governed_decide repo ctx relevance True sp = Inr (plain_action BLOCK_REQUEST B4_ANALYZER_FAILURE)"
  by (simp add: policy_governed_decide_def Let_def)

lemma policy_governed_blocked:
  assumes "pd_action (decide repo ctx (sp_category sp)) = BLOCK_REQUEST"
  shows "\<exists>d. policy_governed_decide repo ctx relevance failed sp = Inr d \<and> ad_action d = BLOCK_REQUEST"
  using assms by (auto simp: policy_governed_decide_def Let_def plain_action_def)

lemma policy_governed_hard:
  assumes "pd_action (decide repo ctx (sp_category sp)) = a" and "is_level a"
  shows "\<exists>d. policy_governed_decide repo ctx relevance False sp = Inr d \<and> ad_action d = a \<and>
    ad_allowed_actions d = Some [a] \<and>
    policy_effect (sp_category sp) (dict_get relevance (sp_category sp)) a =
      Inr (ad_policy_restricted d, ad_impossible_under_policy d)"
proof -
  obtain r i where "policy_effect (sp_category sp) (dict_get relevance (sp_category sp)) a = Inr (r, i)"
    using policy_effect_total [OF assms(2)] by blast
  with assms show ?thesis by (auto simp: policy_governed_decide_def Let_def is_level_iff)
qed

lemma policy_governed_invalid_space:
  assumes "pd_action (decide repo ctx (sp_category sp)) = TASK_DEPENDENT"
    and "\<not> list_all is_level (pd_allowed_actions (decide repo ctx (sp_category sp)))"
  shows "policy_governed_decide repo ctx relevance False sp = Inr (plain_action BLOCK_REQUEST B4_INVALID_SPACE)"
  using assms order_action_space_drops by (simp add: policy_governed_decide_def Let_def)

lemma policy_governed_task_dependent:
  assumes "pd_action (decide repo ctx (sp_category sp)) = TASK_DEPENDENT"
    and "list_all is_level (pd_allowed_actions (decide repo ctx (sp_category sp)))"
    and "dict_get relevance (sp_category sp) = Some l"
  shows "\<exists>d. policy_governed_decide repo ctx relevance False sp = Inr d \<and>
    ad_allowed_actions d = Some (order_action_space (pd_allowed_actions (decide repo ctx (sp_category sp)))) \<and>
    (if l = AMBIGUOUS then ad_action d = hd (order_action_space (pd_allowed_actions (decide repo ctx (sp_category sp))))
     else select_action_for_relevance l (order_action_space (pd_allowed_actions (decide repo ctx (sp_category sp)))) =
            Inr (ad_action d) \<and>
          policy_effect (sp_category sp) (Some l) (ad_action d) =
            Inr (ad_policy_restricted d, ad_impossible_under_policy d))"
proof -
  let ?al = "pd_allowed_actions (decide repo ctx (sp_category sp))"
  have ne: "order_action_space ?al \<noteq> []"
    by (rule order_action_space_nonempty [OF decide_task_dependent_space [OF assms(1)] assms(2)])
  have len: "length (order_action_space ?al) = card (set ?al)" using order_action_space_drops assms(2) by blast
  show ?thesis
  proof (cases "l = AMBIGUOUS")
    case True
    with assms ne len show ?thesis by (simp add: policy_governed_decide_def Let_def plain_action_def)
  next
    case False
    from select_total [OF ne False] obtain a where a: "select_action_for_relevance l (order_action_space ?al) = Inr a" ..
    have "is_level a" using select_member [OF a] by simp
    then obtain r i where "policy_effect (sp_category sp) (Some l) a = Inr (r, i)"
      using policy_effect_total by blast
    with assms ne len a False show ?thesis by (simp add: policy_governed_decide_def Let_def)
  qed
qed

lemma policy_governed_decide_total:
  assumes "\<not> failed \<Longrightarrow> covers relevance sp"
  shows "\<exists>d. policy_governed_decide repo ctx relevance failed sp = Inr d"
proof (cases failed)
  case True
  then show ?thesis by (simp add: policy_governed_failed)
next
  case False
  then obtain l where l: "dict_get relevance (sp_category sp) = Some l" using assms by (auto simp: covers_def)
  consider "pd_action (decide repo ctx (sp_category sp)) = BLOCK_REQUEST"
    | "is_level (pd_action (decide repo ctx (sp_category sp)))"
    | "pd_action (decide repo ctx (sp_category sp)) = TASK_DEPENDENT"
    by (auto simp: is_level_iff)
  then show ?thesis
  proof cases
    case 1
    then show ?thesis using policy_governed_blocked by blast
  next
    case 2
    then show ?thesis using policy_governed_hard [OF refl 2] False by auto
  next
    case 3
    then show ?thesis
      using policy_governed_task_dependent [OF 3 _ l] policy_governed_invalid_space [OF 3] False by force
  qed
qed

text \<open>The actions a policy decision permits on a category.\<close>

definition permitted :: "policy_decision \<Rightarrow> disclosure_action set" where
  "permitted pd = (if pd_action pd = TASK_DEPENDENT then set (pd_allowed_actions pd) else {pd_action pd})"

lemma policy_governed_permitted:
  assumes "policy_governed_decide repo ctx relevance failed sp = Inr d" and "ad_action d \<noteq> BLOCK_REQUEST"
  shows "ad_action d \<in> permitted (decide repo ctx (sp_category sp)) \<and> is_level (ad_action d)"
proof -
  have nf: "\<not> failed" using assms policy_governed_failed by (cases failed) auto
  let ?pd = "decide repo ctx (sp_category sp)"
  consider "pd_action ?pd = BLOCK_REQUEST" | "is_level (pd_action ?pd)" | "pd_action ?pd = TASK_DEPENDENT"
    by (auto simp: is_level_iff)
  then show ?thesis
  proof cases
    case 1
    from policy_governed_blocked [OF this, of relevance failed] assms show ?thesis by auto
  next
    case 2
    then show ?thesis using policy_governed_hard [OF refl 2, of relevance] nf assms(1)
      by (auto simp: permitted_def is_level_iff)
  next
    case 3
    have lv: "list_all is_level (pd_allowed_actions ?pd)"
      using policy_governed_invalid_space [OF 3] nf assms by force
    obtain l where l: "dict_get relevance (sp_category sp) = Some l"
    proof (cases "dict_get relevance (sp_category sp)")
      case None
      then have "ad_action d = BLOCK_REQUEST"
        using assms(1) 3 nf by (auto simp: policy_governed_decide_def Let_def split: if_splits)
      with assms(2) show ?thesis by simp
    qed
    let ?os = "order_action_space (pd_allowed_actions ?pd)"
    have ne: "?os \<noteq> []"
      by (rule order_action_space_nonempty [OF decide_task_dependent_space [OF 3] lv])
    have "if l = AMBIGUOUS then ad_action d = hd ?os else select_action_for_relevance l ?os = Inr (ad_action d)"
      using policy_governed_task_dependent [OF 3 lv l] nf assms(1) by (auto split: if_splits)
    then have "ad_action d \<in> set ?os"
      using select_member [of l ?os] hd_in_set [OF ne] by (metis (full_types))
    then show ?thesis using 3 by (auto simp: permitted_def)
  qed
qed

subsection \<open>Within the frame\<close>

definition policy_governed_decider ::
  "policy_repository \<Rightarrow> task_analyzer \<Rightarrow> disclosure_request \<Rightarrow> sensitive_span list \<Rightarrow> sensitive_span \<Rightarrow>
     action_decision result" where
  "policy_governed_decider repo analyze request ordered =
     (case analyze_relevance analyze (rq_task request) (sorted_set (map sp_category ordered)) of
        (relevance, analysis_failed) \<Rightarrow>
          policy_governed_decide repo (rq_context request) relevance analysis_failed)"

lemma policy_governed_sanitize_with:
  "policy_governed_sanitize ops repo analyze v request spans =
     sanitize_with ops v repo POLICY_GOVERNED_REASONS (policy_governed_decider repo analyze request) request spans"
  by (simp add: policy_governed_sanitize_def sanitize_with_def policy_governed_decider_def Let_def split_def
      cong: sum.case_cong)

lemma policy_governed_decider_total:
  assumes "sp \<in> set ordered"
  shows "policy_governed_decider repo analyze request ordered sp =
    Inr (outcome_of (policy_governed_decider repo analyze request ordered sp))"
proof -
  obtain relevance failed where r: "analyze_relevance analyze (rq_task request) (sorted_set (map sp_category ordered)) =
      (relevance, failed)" by force
  have "covers relevance sp" if "\<not> failed"
    using analyze_relevance_covers [of analyze "rq_task request" ordered relevance sp] r that assms by simp
  from policy_governed_decide_total [OF this] obtain d
    where "policy_governed_decide repo (rq_context request) relevance failed sp = Inr d" by blast
  with r show ?thesis by (simp add: policy_governed_decider_def outcome_of_def)
qed

lemma policy_governed_sanitize_total:
  "\<exists>res v'. policy_governed_sanitize ops repo analyze v request spans = Inr (res, v')"
proof -
  have total: "\<forall>ordered. resolve_overlaps spans = Inr ordered \<longrightarrow> (\<forall>sp \<in> set ordered.
      policy_governed_decider repo analyze request ordered sp =
        Inr (outcome_of (policy_governed_decider repo analyze request ordered sp)))"
    using policy_governed_decider_total by blast
  show ?thesis unfolding policy_governed_sanitize_with
    by (cases rule: sanitize_with_cases [where ops = ops and v = v and repo = repo and reasons = POLICY_GOVERNED_REASONS
        and request = request, OF total]) auto
qed

text \<open>What a B4 result does to a span.\<close>

lemma policy_governed_transformation:
  assumes "policy_governed_sanitize ops repo analyze v request spans = Inr (res, v')"
    and "t \<in> set (rs_transformations res)"
  shows "tr_action t \<in> permitted (decide repo (rq_context request) (tr_category t)) \<and> is_level (tr_action t)"
proof -
  have total: "\<forall>ordered. resolve_overlaps spans = Inr ordered \<longrightarrow> (\<forall>sp \<in> set ordered.
      policy_governed_decider repo analyze request ordered sp =
        Inr (outcome_of (policy_governed_decider repo analyze request ordered sp)))"
    using policy_governed_decider_total by blast
  from assms(1) have run: "sanitize_with ops v repo POLICY_GOVERNED_REASONS (policy_governed_decider repo analyze request)
      request spans = Inr (res, v')" by (simp add: policy_governed_sanitize_with)
  obtain ordered sp where sp: "sp \<in> set ordered" "tr_category t = sp_category sp" "tr_action t \<noteq> BLOCK_REQUEST"
    "tr_action t = ad_action (outcome_of (policy_governed_decider repo analyze request ordered sp))"
    by (rule sanitize_with_transformation [OF total run assms(2)])
  obtain relevance failed where "policy_governed_decide repo (rq_context request) relevance failed sp =
      Inr (outcome_of (policy_governed_decider repo analyze request ordered sp))"
    using policy_governed_decider_total [OF sp(1), of repo analyze request]
    by (auto simp: policy_governed_decider_def split: prod.splits)
  from policy_governed_permitted [OF this] sp show ?thesis by simp
qed

subsection \<open>Properties\<close>

text \<open>
  C23: B4 never goes beyond policy. Whatever the analyzer says, every span that an allowed result transforms gets
  an action the policy permits for its category in this context: the policy's own action, or one of the actions of
  the space of a task-dependent decision.
\<close>

theorem result_within_policy:
  assumes "policy_governed_sanitize ops repo analyze v request spans = Inr (res, v')"
    and "t \<in> set (rs_transformations res)"
  shows "tr_action t \<in> permitted (decide repo (rq_context request) (tr_category t)) \<and> is_level (tr_action t)"
  using policy_governed_transformation [OF assms] .

definition sample_b4_run :: "task_analysis result \<Rightarrow> (disclosure_result \<times> in_memory_vault) result" where
  "sample_b4_run analysis =
     policy_governed_sanitize in_memory_ops sample_repository (\<lambda>_ _. analysis) (new_vault str_nat)
       (sample_request ''pay 100 today'') [one_span ''salary'' ''100'' 4]"

theorem result_within_policy_witness:
  "PRESERVE \<in> permitted (decide sample_repository sample_context ''salary'')"
proof -
  have run: "case sample_b4_run (Inr [(''salary'', Some RELEVANT_WITH_EXACT_VALUE)]) of
      Inl _ \<Rightarrow> False
    | Inr (res, v') \<Rightarrow> map (\<lambda>t. (tr_category t, tr_action t)) (rs_transformations res) = [(''salary'', PRESERVE)]"
    by code_simp
  then obtain res v' t where r: "sample_b4_run (Inr [(''salary'', Some RELEVANT_WITH_EXACT_VALUE)]) = Inr (res, v')"
    "t \<in> set (rs_transformations res)" "tr_action t = PRESERVE" "tr_category t = ''salary''"
    by (auto split: sum.splits)
  from result_within_policy [OF r(1) [unfolded sample_b4_run_def] r(2)] r(3,4) show ?thesis
    by (simp add: sample_request_def)
qed

text \<open>
  the two audit flags of a B4 decision mean what they say. They are unset together, exactly when B3 has no
  action of its own for the category; otherwise \<open>policy_restricted\<close> says that the chosen action discloses less than
  B3's, and \<open>impossible_under_policy\<close>, that the task needs the exact value, B3 would preserve it and B4 does not.
  An impossible decision is always a restricted one.
\<close>

theorem policy_flags_truthful:
  assumes "policy_effect category level chosen = Inr (restricted, impossible)" and "is_level chosen"
  shows "(case b3_baseline_action category level of
      Inr (Some b) \<Rightarrow> restricted = Some (exposure chosen < exposure b) \<and>
        impossible = Some (level = Some RELEVANT_WITH_EXACT_VALUE \<and> b = PRESERVE \<and> chosen \<noteq> PRESERVE)
    | _ \<Rightarrow> restricted = None \<and> impossible = None) \<and>
    (impossible = Some True \<longrightarrow> restricted = Some True)"
  using policy_effect_flags [OF assms] impossible_is_restricted [OF _ assms(2), of category level restricted] assms(1)
  by auto

theorem policy_flags_truthful_witness:
  "b3_baseline_action ''salary'' (Some RELEVANT_WITH_EXACT_VALUE) = Inr (Some PRESERVE)"
proof -
  have "policy_effect ''salary'' (Some RELEVANT_WITH_EXACT_VALUE) GENERALIZE = Inr (Some True, Some True)"
    by code_simp
  from policy_flags_truthful [OF this] show ?thesis
    by (auto simp: is_level_def exposure_def split: sum.splits option.splits)
qed

text \<open>
  a failing analyzer fails the whole request closed. If the analyzer raises, or leaves out or does not recognise
  the level of a single detected category, then a B4 request with a detected span is blocked: it sends
  nothing and changes nothing in the vault.
\<close>

theorem analyzer_failure_blocks_all:
  assumes "spans \<noteq> []" and "resolve_overlaps spans = Inr ordered"
    and "snd (analyze_relevance analyze (rq_task request) (sorted_set (map sp_category ordered)))"
    and "policy_governed_sanitize ops repo analyze v request spans = Inr (res, v')"
  shows "rs_status res = Blocked \<and> rs_external_payload res = '''' \<and> v' = v"
proof -
  have total: "\<forall>ordered. resolve_overlaps spans = Inr ordered \<longrightarrow> (\<forall>sp \<in> set ordered.
      policy_governed_decider repo analyze request ordered sp =
        Inr (outcome_of (policy_governed_decider repo analyze request ordered sp)))"
    using policy_governed_decider_total by blast
  from assms(4) have run: "sanitize_with ops v repo POLICY_GOVERNED_REASONS (policy_governed_decider repo analyze request)
      request spans = Inr (res, v')" by (simp add: policy_governed_sanitize_with)
  obtain x where "x \<in> set spans" using assms(1) by (cases spans) auto
  then obtain sp where sp: "sp \<in> set ordered"
    using resolve_overlaps_dominated [OF assms(2)] by (cases "x \<in> set ordered") auto
  show ?thesis
  proof (cases rule: sanitize_with_outcomes [OF total run])
    case (2 ordered' key vals w)
    have "policy_governed_decider repo analyze request ordered sp = Inr (plain_action BLOCK_REQUEST B4_ANALYZER_FAILURE)"
      using assms(3) by (cases "analyze_relevance analyze (rq_task request) (sorted_set (map sp_category ordered))")
        (simp add: policy_governed_decider_def policy_governed_failed)
    then have "some_block (\<lambda>sp. outcome_of (policy_governed_decider repo analyze request ordered sp)) ordered"
      using sp by (auto simp: some_block_def list_ex_iff outcome_of_def downgrade_action plain_action_def intro!: bexI)
    with 2(2,3) assms(2) show ?thesis by simp
  qed simp
qed

theorem analyzer_failure_blocks_all_witness:
  "\<exists>res v'. sample_b4_run (Inl ValueError) = Inr (res, v') \<and> rs_status res = Blocked"
proof -
  have o: "resolve_overlaps [one_span ''salary'' ''100'' 4] = Inr [one_span ''salary'' ''100'' 4]" by code_simp
  obtain res v' where r: "sample_b4_run (Inl ValueError) = Inr (res, v')"
    using policy_governed_sanitize_total [of in_memory_ops sample_repository "\<lambda>_ _. Inl ValueError" "new_vault str_nat"
        "sample_request ''pay 100 today''" "[one_span ''salary'' ''100'' 4]"]
    unfolding sample_b4_run_def by blast
  from analyzer_failure_blocks_all [OF _ o _ r [unfolded sample_b4_run_def]] r show ?thesis
    by (simp add: analyze_relevance_def)
qed

text \<open>
  the label of a policy-matrix cell is not injective: an absent role, an empty one and one named \<open><none>\<close>
  all give the same label, and a separator inside a field can move text from one field to the next.
\<close>

theorem matrix_cell_collisions:
  "matrix_cell (ctx\<lparr>ctx_requester_role := None\<rparr>) category version =
     matrix_cell (ctx\<lparr>ctx_requester_role := Some ''''\<rparr>) category version \<and>
   matrix_cell (ctx\<lparr>ctx_requester_role := None\<rparr>) category version =
     matrix_cell (ctx\<lparr>ctx_requester_role := Some ''<none>''\<rparr>) category version \<and>
   matrix_cell (ctx\<lparr>ctx_domain := ''a|policy=b''\<rparr>) category ''c'' =
     matrix_cell (ctx\<lparr>ctx_domain := ''a''\<rparr>) category ''b|policy=c''"
  by (simp add: matrix_cell_def or_none_def)

end
