(* ===== verification/Python_Text.thy ===== *)
theory Python_Text
  imports Regex
begin

text \<open>
  The text functions of Python that the configuration of the program goes through: \<open>str.strip\<close>, \<open>str.split\<close> on one
  character, \<open>int(text)\<close> and \<open>float(text)\<close>, and the float values that a configuration can hold.

  \<open>float(text)\<close> yields the rational number that the numeral denotes, or an infinity where that number exceeds every finite
  double and zero where it is too small for one; within the range the rounding to the nearest double is left out, which
  changes no comparison with zero.
\<close>

definition str_strip :: "pystr \<Rightarrow> pystr" where
  "str_strip s = rev (dropWhile is_space (rev (dropWhile is_space s)))"

text \<open>\<open>not s.strip()\<close>\<close>

definition is_blank :: "pystr \<Rightarrow> bool" where
  "is_blank s \<longleftrightarrow> list_all is_space s"

text \<open>\<open>s.split(c)\<close> for a single character.\<close>

fun split_on :: "char \<Rightarrow> pystr \<Rightarrow> pystr list" where
  "split_on c [] = [[]]"
| "split_on c (x # xs) =
     (if x = c then [] # split_on c xs
      else (case split_on c xs of [] \<Rightarrow> [[x]] | p # ps \<Rightarrow> (x # p) # ps))"

lemma str_strip_blank: "str_strip s = [] \<longleftrightarrow> is_blank s"
proof -
  have "(\<forall>c \<in> set (dropWhile is_space s). is_space c) \<longleftrightarrow> (\<forall>c \<in> set s. is_space c)"
    by (metis Un_iff set_append set_takeWhileD takeWhile_dropWhile_id)
  then show ?thesis by (simp add: str_strip_def is_blank_def list_all_iff)
qed

lemma str_strip_idem [simp]: "str_strip (str_strip s) = str_strip s"
proof -
  define r where "r = dropWhile is_space s"
  have "dropWhile is_space (rev (dropWhile is_space (rev r))) = rev (dropWhile is_space (rev r))"
  proof (cases "dropWhile is_space (rev r)" rule: rev_cases)
    case (snoc ys y)
    have "y = hd r"
      using snoc takeWhile_dropWhile_id [of is_space "rev r"] by (metis append_assoc hd_rev last_snoc rev_rev_ident)
    moreover have "r \<noteq> []" using snoc by auto
    ultimately have "\<not> is_space y" using hd_dropWhile [of is_space s] by (simp add: r_def)
    with snoc show ?thesis by simp
  qed (simp only: rev.simps dropWhile.simps)
  then show ?thesis by (simp add: str_strip_def r_def)
qed

subsection \<open>\<open>int(text)\<close>\<close>

text \<open>Digits with single underscores between them; the flag says whether the character before is a digit.\<close>

fun grouped_digits :: "bool \<Rightarrow> pystr \<Rightarrow> pystr option" where
  "grouped_digits after_digit [] = (if after_digit then Some [] else None)"
| "grouped_digits after_digit (c # cs) =
     (if is_digit c then map_option (Cons c) (grouped_digits True cs)
      else if c = CHR ''_'' \<and> after_digit then grouped_digits False cs
      else None)"

definition signed_text :: "pystr \<Rightarrow> bool \<times> pystr" where
  "signed_text s =
     (case s of
        [] \<Rightarrow> (False, [])
      | c # cs \<Rightarrow> if c = CHR ''-'' then (True, cs) else if c = CHR ''+'' then (False, cs) else (False, s))"

text \<open>Absent: \<open>int\<close> raises a \<open>ValueError\<close>. The text has no spaces around it.\<close>

definition int_of_text :: "pystr \<Rightarrow> int option" where
  "int_of_text s =
     (case signed_text s of
        (negative, digits) \<Rightarrow>
          (case grouped_digits False digits of
             None \<Rightarrow> None
           | Some ds \<Rightarrow>
               if MAX_INT_DIGITS < length ds then None
               else Some (if negative then - int (int_of_digits ds) else int (int_of_digits ds))))"

definition py_int :: "pystr \<Rightarrow> int option" where
  "py_int s = int_of_text (str_strip s)"

lemma grouped_digits_plain: "list_all is_digit ds \<Longrightarrow> ds \<noteq> [] \<or> b \<Longrightarrow> grouped_digits b ds = Some ds"
  by (induction ds arbitrary: b) auto

subsection \<open>\<open>float(text)\<close>\<close>

datatype py_float = Finite rat | Infinite | Minus_Infinite | Not_A_Number

text \<open>\<open>x <= 0\<close> and \<open>x > 0\<close>: a not-a-number is neither.\<close>

definition nonpositive :: "py_float \<Rightarrow> bool" where
  "nonpositive x = (case x of Finite q \<Rightarrow> q \<le> 0 | Infinite \<Rightarrow> False | Minus_Infinite \<Rightarrow> True | Not_A_Number \<Rightarrow> False)"

definition positive :: "py_float \<Rightarrow> bool" where
  "positive x = (case x of Finite q \<Rightarrow> 0 < q | Infinite \<Rightarrow> True | Minus_Infinite \<Rightarrow> False | Not_A_Number \<Rightarrow> False)"

text \<open>Underscores are allowed between two digits only; \<open>prev\<close> is the character before.\<close>

fun drop_underscores :: "char \<Rightarrow> pystr \<Rightarrow> pystr option" where
  "drop_underscores prev [] = (if prev = CHR ''_'' then None else Some [])"
| "drop_underscores prev (c # cs) =
     (if c = CHR ''_'' then (if is_digit prev then drop_underscores c cs else None)
      else if prev = CHR ''_'' \<and> \<not> is_digit c then None
      else map_option (Cons c) (drop_underscores c cs))"

definition power_of_ten :: "int \<Rightarrow> rat" where
  "power_of_ten e = (if 0 \<le> e then 10 ^ nat e else 1 / 10 ^ nat (- e))"

definition exponent_of :: "pystr \<Rightarrow> int option" where
  "exponent_of s =
     (case s of
        [] \<Rightarrow> Some 0
      | c # cs \<Rightarrow>
          if lower_char c \<noteq> CHR ''e'' then None
          else (case signed_text cs of
                  (negative, ds) \<Rightarrow>
                    if ds = [] \<or> \<not> list_all is_digit ds then None
                    else Some (if negative then - int (int_of_digits ds) else int (int_of_digits ds))))"

definition decimal_of :: "pystr \<Rightarrow> rat option" where
  "decimal_of s =
     (let whole = takeWhile is_digit s;
          rest = dropWhile is_digit s;
          point = (rest \<noteq> [] \<and> hd rest = CHR ''.'');
          frac = (if point then takeWhile is_digit (tl rest) else []);
          tail = (if point then dropWhile is_digit (tl rest) else rest)
      in if whole @ frac = [] then None
         else map_option (\<lambda>e. of_nat (int_of_digits (whole @ frac)) * power_of_ten (e - int (length frac))) (exponent_of tail))"

text \<open>The range of a double: what rounds to no finite one is an infinity, what rounds to zero is zero.\<close>

definition in_double_range :: "bool \<Rightarrow> rat \<Rightarrow> py_float" where
  "in_double_range negative q =
     (if 2 ^ 1024 - 2 ^ 970 \<le> q then (if negative then Minus_Infinite else Infinite)
      else if q * 2 ^ 1075 \<le> 1 then Finite 0
      else Finite (if negative then - q else q))"

definition py_float :: "pystr \<Rightarrow> py_float option" where
  "py_float s =
     (case drop_underscores CHR 0x00 (str_strip s) of
        None \<Rightarrow> None
      | Some t \<Rightarrow>
          (case signed_text t of
             (negative, u) \<Rightarrow>
               (let word = str_lower u in
                  if word = ''inf'' \<or> word = ''infinity'' then Some (if negative then Minus_Infinite else Infinite)
                  else if word = ''nan'' then Some Not_A_Number
                  else map_option (in_double_range negative) (decimal_of u))))"

lemma in_double_range_positive: "positive (in_double_range negative q) \<Longrightarrow> \<not> negative \<and> 0 < q"
  by (auto simp: in_double_range_def positive_def zero_less_mult_iff split: if_splits)
     (meson less_le_trans zero_less_power zero_less_numeral diff_gt_0_iff_gt power_strict_increasing_iff)?

end
