(* ===== verification/Task_Analysis.thy ===== *)
theory Task_Analysis
  imports Task_Aware Python_Text
begin

text \<open>
  \<open>task_analysis/deterministic.py\<close>: the shipped task analyzer. It splits a task into clauses,
  positive or negated, looks for the indicator terms of each category in both, and binds an
  exactness cue to the nearest category of its clause.

  The lemmas show that it always reports on every category it is asked about, that its answer does not
  depend on the order of the categories, and that the most revealing level needs a cue in a
  positive clause that mentions the category.
\<close>

definition CATEGORY_INDICATORS :: "(pystr, pystr list) dict" where
  "CATEGORY_INDICATORS =
     [(''employee_name'',
        [''identity'', ''identify'', ''identifying'', ''identified'', ''named'', ''employee name'',
         ''employee's name'', ''by name'', ''full name'', ''person's name'', ''name of the employee'']),
      (''cpf'', [''cpf'']),
      (''cnpj'', [''cnpj'']),
      (''email'', [''email'', ''e-mail'']),
      (''phone'', [''phone'', ''telephone'']),
      (''salary'',
        [''salary'', ''compensation'', ''wage'', ''wages'', ''remuneration'', ''pay band'', ''pay range'',
         ''pay grade'', ''pay rate'', ''payroll'', ''paycheck'', ''take-home pay'']),
      (''department'',
        [''department'', ''which team'', ''what team'', ''their team'', ''employee's team'',
         ''which division'', ''employee's division'']),
      (''medical_data'', [''medical'', ''diagnosis'', ''health condition'', ''illness'']),
      (''party_name'',
        [''contracting party'', ''contracting parties'', ''contracted party'', ''contracted parties'',
         ''counterparty'', ''counterparties'', ''party name'', ''names of the parties'', ''which companies'',
         ''which organizations'']),
      (''representative_name'',
        [''legal representative'', ''legal representatives'', ''representative name'', ''signatory'',
         ''signatories'', ''who signed'']),
      (''bank_account'', [''bank account'', ''banking details'', ''account number'', ''payment account'']),
      (''contract_value'',
        [''contract value'', ''contract amount'', ''contract price'', ''total value'', ''financial terms'',
         ''monetary value'']),
      (''penalty_amount'',
        [''penalty'', ''penalties'', ''penalty amount'', ''penalty clause'', ''late fee'', ''late fees'',
         ''liquidated damages'']),
      (''deadline'',
        [''deadline'', ''deadlines'', ''due date'', ''due dates'', ''delivery date'', ''payment date'',
         ''expiry date'', ''expiration date'', ''term of the contract''])]"

definition EXACT_VALUE_INDICATORS :: "pystr list" where
  "EXACT_VALUE_INDICATORS =
     [''exact'', ''exactly'', ''precise'', ''precisely'', ''verbatim'', ''specific figure'', ''individual value'']"

definition EXACT_VALUE_WRAPPERS :: "(pystr \<times> pystr) list" where
  "EXACT_VALUE_WRAPPERS = [(''specific'', ''figure'')]"

definition WRAPPER_MAX_SPAN :: nat where "WRAPPER_MAX_SPAN = 4"

definition EXACT_VALUE_WINDOW :: int where "EXACT_VALUE_WINDOW = 3"

definition WHOLE_SENTENCE_NEGATION_CUES :: "pystr list" where
  "WHOLE_SENTENCE_NEGATION_CUES =
     [''not needed'', ''not required'', ''not necessary'', ''must not'', ''should not'', ''cannot'', ''can not'']"

definition PREFIX_NEGATION_CUES :: "pystr list" where
  "PREFIX_NEGATION_CUES =
     [''without'', ''do not'', ''does not'', ''don't'', ''doesn't'', ''avoid'', ''refrain from'']"

primrec alternatives :: "re list \<Rightarrow> re" where
  "alternatives [] = Chr (\<lambda>_. False)"
| "alternatives (r # rs) = (if rs = [] then r else Al r (alternatives rs))"

definition WHOLE_SENTENCE_PATTERN :: re where
  "WHOLE_SENTENCE_PATTERN = alternatives (map lit_ci WHOLE_SENTENCE_NEGATION_CUES)"

definition PREFIX_PATTERN :: re where
  "PREFIX_PATTERN = alternatives (map lit_ci PREFIX_NEGATION_CUES)"

subsection \<open>Clauses\<close>

text \<open>
  \<open>_SENTENCE_SPLIT_PATTERN.split\<close>: cut at every run of white space that follows \<open>.\<close>, \<open>!\<close> or \<open>?\<close>.
  The arguments are whether the last character was one of the three, and the sentence so far.
\<close>

function sentence_split :: "bool \<Rightarrow> pystr \<Rightarrow> pystr \<Rightarrow> pystr list" where
  "sentence_split stop acc [] = [rev acc]"
| "sentence_split stop acc (c # cs) =
     (if stop \<and> is_space c then rev acc # sentence_split False [] (dropWhile is_space cs)
      else sentence_split (one_of ''.!?'' c) (c # acc) cs)"
  by pat_completeness auto
termination
  by (relation "measure (\<lambda>(stop, acc, s). length s)") (auto simp: le_imp_less_Suc length_dropWhile_le)

definition clauses_of_sentence :: "pystr \<Rightarrow> (pystr \<times> bool) list" where
  "clauses_of_sentence sentence =
     (if sentence = [] then []
      else if re_search WHOLE_SENTENCE_PATTERN sentence \<noteq> None then [(sentence, False)]
      else
        (case re_search PREFIX_PATTERN sentence of
           Some (start, _, _) \<Rightarrow> [(take start sentence, True), (drop start sentence, False)]
         | None \<Rightarrow> [(sentence, True)]))"

definition split_into_clauses :: "pystr \<Rightarrow> (pystr \<times> bool) list" where
  "split_into_clauses task = concat (map clauses_of_sentence (sentence_split False [] (str_strip task)))"

text \<open>\<open>" ".join(parts)\<close>.\<close>

fun join_spaces :: "pystr list \<Rightarrow> pystr" where
  "join_spaces [] = []"
| "join_spaces [p] = p"
| "join_spaces (p # ps) = p @ '' '' @ join_spaces ps"

definition split_positive_and_negated :: "pystr \<Rightarrow> pystr \<times> pystr" where
  "split_positive_and_negated task =
     (let clauses = split_into_clauses task in
      (join_spaces (map fst (filter snd clauses)), join_spaces (map fst (filter (\<lambda>c. \<not> snd c) clauses))))"

definition contains_term :: "pystr \<Rightarrow> pystr \<Rightarrow> bool" where
  "contains_term term text = (re_search (sqs [WordBound, lit_ci term, WordBound]) text \<noteq> None)"

subsection \<open>Tokens\<close>

text \<open>The maximal runs of characters of a class, from left to right.\<close>

function runs_of :: "(char \<Rightarrow> bool) \<Rightarrow> pystr \<Rightarrow> pystr list" where
  "runs_of p [] = []"
| "runs_of p (c # cs) =
     (if p c then (c # takeWhile p cs) # runs_of p (dropWhile p cs) else runs_of p cs)"
  by pat_completeness auto
termination
  by (relation "measure (\<lambda>(p, s). length s)") (auto simp: le_imp_less_Suc length_dropWhile_le)

definition tokenize :: "pystr \<Rightarrow> pystr list" where
  "tokenize text = runs_of (\<lambda>c. is_lower c \<or> c = CHR 0x27) (str_lower text)"

definition split_words :: "pystr \<Rightarrow> pystr list" where
  "split_words phrase = runs_of (\<lambda>c. \<not> is_space c) phrase"

definition phrase_positions :: "pystr list \<Rightarrow> pystr \<Rightarrow> (nat \<times> nat) list" where
  "phrase_positions tokens phrase =
     (let words = split_words phrase; span = length words in
      map (\<lambda>i. (i, i + span - 1))
        (filter (\<lambda>i. slice i (i + span) tokens = words) [0..<length tokens + 1 - span]))"

definition token_positions :: "pystr list \<Rightarrow> pystr \<Rightarrow> nat list" where
  "token_positions tokens token = filter (\<lambda>i. tokens ! i = token) [0..<length tokens]"

subsection \<open>Binding an exactness cue to a category\<close>

definition encloses :: "pystr list \<Rightarrow> nat \<Rightarrow> nat \<Rightarrow> pystr list \<Rightarrow> bool" where
  "encloses tokens p s indicators =
     list_ex (\<lambda>term. list_ex (\<lambda>(st, en). p < st \<and> en < s) (phrase_positions tokens term)) indicators"

definition wrapper_occurrence :: "pystr list \<Rightarrow> pystr list \<Rightarrow> nat list \<Rightarrow> nat \<Rightarrow> pystr list" where
  "wrapper_occurrence tokens categories suffix_positions p =
     (let candidates = filter (\<lambda>s. p < s \<and> s \<le> p + WRAPPER_MAX_SPAN) suffix_positions in
      if candidates = [] then []
      else
        (let s = min_list candidates;
             enclosed = map fst (filter (\<lambda>(category, indicators).
                          category \<in> set categories \<and> encloses tokens p s indicators) CATEGORY_INDICATORS)
         in if length enclosed = 1 then enclosed else []))"

definition wrapper_bound_categories :: "pystr \<Rightarrow> pystr list \<Rightarrow> pystr list" where
  "wrapper_bound_categories clause categories =
     (let tokens = tokenize clause in
      concat (map (\<lambda>(pre, suf).
        concat (map (wrapper_occurrence tokens categories (token_positions tokens suf)) (token_positions tokens pre)))
        EXACT_VALUE_WRAPPERS))"

definition token_distance :: "nat \<times> nat \<Rightarrow> nat \<times> nat \<Rightarrow> int" where
  "token_distance cue_span term_span =
     (if snd term_span < fst cue_span then int (fst cue_span) - int (snd term_span) - 1
      else int (fst term_span) - int (snd cue_span) - 1)"

definition term_spans :: "pystr list \<Rightarrow> pystr \<Rightarrow> (nat \<times> nat) list" where
  "term_spans tokens category =
     concat (map (phrase_positions tokens) (dict_get_default CATEGORY_INDICATORS category []))"

definition cue_nearest :: "(pystr \<times> (nat \<times> nat) list) list \<Rightarrow> nat \<times> nat \<Rightarrow> pystr list" where
  "cue_nearest category_spans cue_span =
     (let distances = map (\<lambda>(category, spans). (category, min_list (map (token_distance cue_span) spans))) category_spans
      in if distances = [] then []
         else
           (let nearest_distance = min_list (map snd distances) in
            if nearest_distance > EXACT_VALUE_WINDOW then []
            else
              (let nearest = map fst (filter (\<lambda>(_, d). d = nearest_distance) distances) in
               if length nearest = 1 then nearest else [])))"

definition nearest_bound_categories :: "pystr \<Rightarrow> pystr list \<Rightarrow> pystr list" where
  "nearest_bound_categories clause categories =
     (let tokens = tokenize clause;
          cue_spans = concat (map (phrase_positions tokens) EXACT_VALUE_INDICATORS);
          category_spans = filter (\<lambda>(_, spans). spans \<noteq> [])
                             (map (\<lambda>c. (c, term_spans tokens c)) (remdups categories))
      in concat (map (cue_nearest category_spans) cue_spans))"

definition exact_value_bound_categories :: "pystr \<Rightarrow> pystr list \<Rightarrow> pystr list" where
  "exact_value_bound_categories task categories =
     concat (map (\<lambda>(clause, positive).
       if positive then nearest_bound_categories clause categories @ wrapper_bound_categories clause categories
       else []) (split_into_clauses task))"

subsection \<open>The analyzer\<close>

definition category_level :: "pystr \<Rightarrow> pystr list \<Rightarrow> pystr \<Rightarrow> task_relevance" where
  "category_level task categories category =
     (let (positive_text, negated_text) = split_positive_and_negated task;
          indicators = dict_get_default CATEGORY_INDICATORS category []
      in if indicators = [] then NOT_RELEVANT
         else
           (let found_positive = list_ex (\<lambda>term. contains_term term positive_text) indicators;
                found_negated = list_ex (\<lambda>term. contains_term term negated_text) indicators
            in if found_positive \<and> found_negated then AMBIGUOUS
               else if found_positive then
                 (if category \<in> set (exact_value_bound_categories task categories)
                  then RELEVANT_WITH_EXACT_VALUE else RELEVANT_WITHOUT_EXACT_VALUE)
               else NOT_RELEVANT))"

definition deterministic_analyze :: "pystr \<Rightarrow> pystr list \<Rightarrow> task_analysis result" where
  "deterministic_analyze task categories =
     Inr (foldl (\<lambda>d c. dict_set d c (Some (category_level task categories c))) [] categories)"



subsection \<open>The analyzer reports on every category\<close>

lemma foldl_dict_set:
  "dict_get (foldl (\<lambda>d c. dict_set d c (f c)) acc cs) c = (if c \<in> set cs then Some (f c) else dict_get acc c)"
  by (induction cs arbitrary: acc) auto

lemma collect_relevance_total:
  assumes "\<forall>c \<in> set cs. dict_get analysis c = Some (Some (f c))"
  shows "\<exists>rel. collect_relevance analysis acc cs = (rel, False) \<and> (\<forall>c \<in> set cs. dict_get rel c = Some (f c))"
proof -
  have "snd (collect_relevance analysis acc cs) = False"
    using assms by (induction cs arbitrary: acc) auto
  then obtain rel where r: "collect_relevance analysis acc cs = (rel, False)"
    by (metis prod.collapse)
  with collect_relevance_ok [OF r] assms show ?thesis by fastforce
qed

lemma deterministic_reports:
  "\<exists>rel. analyze_relevance deterministic_analyze task categories = (rel, False) \<and>
     (\<forall>c \<in> set categories. dict_get rel c = Some (category_level task categories c))"
  unfolding analyze_relevance_def deterministic_analyze_def sum.case
  by (rule collect_relevance_total) (simp add: foldl_dict_set)

subsection \<open>The order of the categories does not matter\<close>

lemma min_list_mset:
  fixes xs :: "'a::linorder list"
  assumes "mset xs = mset ys"
  shows "min_list xs = min_list ys"
proof (cases "xs = []")
  case True
  with assms show ?thesis by simp
next
  case False
  with assms have "ys \<noteq> []" by auto
  with False mset_eq_setD [OF assms] show ?thesis by (simp add: min_list_Min)
qed

lemma singleton_mset:
  assumes "mset xs = mset ys"
  shows "(if length xs = 1 then xs else []) = (if length ys = 1 then ys else [])"
proof (cases "length xs = 1")
  case True
  then obtain x where "xs = [x]" by (cases xs) auto
  with assms show ?thesis by simp
next
  case False
  with mset_eq_length [OF assms] show ?thesis by simp
qed

lemma cue_nearest_mset:
  assumes "mset as = mset bs"
  shows "cue_nearest as cue = cue_nearest bs cue"
proof -
  define dist where "dist = (\<lambda>(category :: pystr, spans). (category, min_list (map (token_distance cue) spans)))"
  have m: "mset (map dist as) = mset (map dist bs)" using assms by simp
  then have snd: "min_list (map snd (map dist as)) = min_list (map snd (map dist bs))"
    by (intro min_list_mset) (metis mset_map)
  have nil: "map dist as = [] \<longleftrightarrow> map dist bs = []" using m by (metis mset_zero_iff)
  let ?near = "\<lambda>xs. map fst (filter (\<lambda>(_, d). d = min_list (map snd (map dist as))) (map dist xs))"
  have "mset (?near as) = mset (?near bs)" using assms by simp
  from singleton_mset [OF this] show ?thesis
    unfolding cue_nearest_def dist_def [symmetric] Let_def nil snd [symmetric] by (simp only:)
qed

lemma mset_remdups_set: "set xs = set ys \<Longrightarrow> mset (remdups xs) = mset (remdups ys)"
  using set_eq_iff_mset_eq_distinct [of "remdups xs" "remdups ys"] by simp

lemma nearest_bound_order:
  assumes "set cs = set ds"
  shows "nearest_bound_categories clause cs = nearest_bound_categories clause ds"
proof -
  have "mset (filter (\<lambda>(_, spans). spans \<noteq> []) (map (\<lambda>c. (c, term_spans (tokenize clause) c)) (remdups cs))) =
      mset (filter (\<lambda>(_, spans). spans \<noteq> []) (map (\<lambda>c. (c, term_spans (tokenize clause) c)) (remdups ds)))"
    using mset_remdups_set [OF assms] by simp
  then have "cue_nearest (filter (\<lambda>(_, spans). spans \<noteq> []) (map (\<lambda>c. (c, term_spans (tokenize clause) c)) (remdups cs))) =
      cue_nearest (filter (\<lambda>(_, spans). spans \<noteq> []) (map (\<lambda>c. (c, term_spans (tokenize clause) c)) (remdups ds)))"
    by (intro ext cue_nearest_mset)
  then show ?thesis unfolding nearest_bound_categories_def Let_def by (simp only:)
qed

lemma category_level_order:
  assumes "set cs = set ds"
  shows "category_level task cs c = category_level task ds c"
proof -
  have "wrapper_occurrence tokens cs = wrapper_occurrence tokens ds" for tokens
    unfolding wrapper_occurrence_def assms ..
  then have "wrapper_bound_categories clause cs = wrapper_bound_categories clause ds" for clause
    unfolding wrapper_bound_categories_def by (simp only:)
  with nearest_bound_order [OF assms]
  have "exact_value_bound_categories task cs = exact_value_bound_categories task ds"
    unfolding exact_value_bound_categories_def by (simp only:)
  then show ?thesis by (simp add: category_level_def)
qed

subsection \<open>The most revealing level needs evidence in a positive clause\<close>

lemma indicators_of: "(c, ts) \<in> set CATEGORY_INDICATORS \<Longrightarrow> dict_get_default CATEGORY_INDICATORS c [] = ts"
proof -
  have "distinct (map fst CATEGORY_INDICATORS)" by (simp add: CATEGORY_INDICATORS_def)
  moreover assume "(c, ts) \<in> set CATEGORY_INDICATORS"
  ultimately show ?thesis by (simp add: dict_get_default_def)
qed

lemma mem_if_Nil:
  "c \<in> set (if b then [] else xs) \<Longrightarrow> c \<in> set xs"
  "c \<in> set (if b then xs else []) \<Longrightarrow> c \<in> set xs"
  by (simp_all split: if_splits)

lemma cue_nearest_member: "c \<in> set (cue_nearest spans cue_span) \<Longrightarrow> c \<in> fst ` set spans"
proof -
  assume c: "c \<in> set (cue_nearest spans cue_span)"
  let ?d = "map (\<lambda>(category, spans). (category, min_list (map (token_distance cue_span) spans))) spans"
  have sub: "set (map fst (filter P ?d)) \<subseteq> fst ` set spans" for P by force
  have "\<exists>P. c \<in> set (map fst (filter P ?d))"
    using c unfolding cue_nearest_def Let_def
    by - (drule mem_if_Nil(1), drule mem_if_Nil(1), drule mem_if_Nil(2), rule exI)
  with sub show ?thesis by blast
qed

lemma nearest_bound_evidence:
  assumes "c \<in> set (nearest_bound_categories clause cs)"
  shows "term_spans (tokenize clause) c \<noteq> [] \<and>
    (\<exists>cue \<in> set EXACT_VALUE_INDICATORS. phrase_positions (tokenize clause) cue \<noteq> [])"
proof -
  let ?spans = "filter (\<lambda>(_, spans). spans \<noteq> []) (map (\<lambda>c. (c, term_spans (tokenize clause) c)) (remdups cs))"
  obtain cue_span where cs: "cue_span \<in> set (concat (map (phrase_positions (tokenize clause)) EXACT_VALUE_INDICATORS))"
    "c \<in> set (cue_nearest ?spans cue_span)"
    using assms by (auto simp: nearest_bound_categories_def Let_def)
  have "c \<in> fst ` set ?spans"
    using cs(2) by (rule cue_nearest_member)
  then have "term_spans (tokenize clause) c \<noteq> []" by auto
  moreover obtain cue where "cue \<in> set EXACT_VALUE_INDICATORS" "cue_span \<in> set (phrase_positions (tokenize clause) cue)"
    using cs(1) by auto
  then have "\<exists>cue \<in> set EXACT_VALUE_INDICATORS. phrase_positions (tokenize clause) cue \<noteq> []"
    by (metis empty_iff list.set(1))
  ultimately show ?thesis ..
qed

lemma wrapper_bound_evidence:
  assumes "c \<in> set (wrapper_bound_categories clause cs)"
  shows "term_spans (tokenize clause) c \<noteq> [] \<and>
    (\<exists>(pre, suf) \<in> set EXACT_VALUE_WRAPPERS. pre \<in> set (tokenize clause) \<and> suf \<in> set (tokenize clause))"
proof -
  let ?t = "tokenize clause"
  obtain pre suf p where w: "(pre, suf) \<in> set EXACT_VALUE_WRAPPERS" "p \<in> set (token_positions ?t pre)"
    "c \<in> set (wrapper_occurrence ?t cs (token_positions ?t suf) p)"
    using assms by (auto simp: wrapper_bound_categories_def Let_def)
  have pre: "pre \<in> set ?t" using w(2) by (auto simp: token_positions_def)
  have "token_positions ?t suf \<noteq> []" using w(3) by (auto simp: wrapper_occurrence_def Let_def split: if_splits)
  then have suf: "suf \<in> set ?t" by (auto simp: token_positions_def filter_empty_conv)
  obtain s ts where ts: "(c, ts) \<in> set CATEGORY_INDICATORS" "encloses ?t p s ts"
    using w(3) by (auto simp: wrapper_occurrence_def Let_def split: if_splits)
  then have "term_spans ?t c \<noteq> []"
    unfolding term_spans_def indicators_of [OF ts(1)] encloses_def list_ex_iff by fastforce
  with pre suf w(1) show ?thesis by blast
qed

lemma exact_needs_evidence:
  assumes "category_level task cs c = RELEVANT_WITH_EXACT_VALUE"
  obtains clause where "(clause, True) \<in> set (split_into_clauses task)"
    and "term_spans (tokenize clause) c \<noteq> []"
    and "(\<exists>cue \<in> set EXACT_VALUE_INDICATORS. phrase_positions (tokenize clause) cue \<noteq> []) \<or>
         (\<exists>(pre, suf) \<in> set EXACT_VALUE_WRAPPERS. pre \<in> set (tokenize clause) \<and> suf \<in> set (tokenize clause))"
proof -
  have "c \<in> set (exact_value_bound_categories task cs)"
    using assms by (auto simp: category_level_def Let_def split: prod.splits if_splits)
  then obtain clause where "(clause, True) \<in> set (split_into_clauses task)"
    "c \<in> set (nearest_bound_categories clause cs) \<or> c \<in> set (wrapper_bound_categories clause cs)"
    by (auto simp: exact_value_bound_categories_def split: if_splits)
  then show thesis using that nearest_bound_evidence wrapper_bound_evidence by blast
qed

text \<open>A negated mention never makes a category relevant.\<close>

lemma negated_only:
  assumes "\<not> list_ex (\<lambda>term. contains_term term (fst (split_positive_and_negated task)))
      (dict_get_default CATEGORY_INDICATORS c [])"
  shows "category_level task cs c = NOT_RELEVANT"
  using assms by (auto simp: category_level_def Let_def split: prod.splits)

subsection \<open>Properties\<close>

text \<open>
  the deterministic analyzer always answers, and its answer is complete: every requested category gets a
  recognised level, so it never makes a treatment fail closed. The level of a category depends on the set of the
  requested categories and not on their order or repetition.
\<close>

theorem analyzer_complete:
  assumes "c \<in> set categories" and "set categories = set categories'"
  shows "\<exists>rel rel'. analyze_relevance deterministic_analyze task categories = (rel, False) \<and>
    analyze_relevance deterministic_analyze task categories' = (rel', False) \<and>
    dict_get rel c = Some (category_level task categories c) \<and> dict_get rel' c = dict_get rel c"
  using deterministic_reports [of task categories] deterministic_reports [of task categories']
    category_level_order [OF assms(2), of task c] assms
  by auto

theorem analyzer_complete_witness:
  "category_level ''sum'' [''cpf'', ''salary''] ''cpf'' = category_level ''sum'' [''salary'', ''cpf'', ''salary''] ''cpf''"
proof -
  obtain rel rel' where "dict_get rel ''cpf'' = Some (category_level ''sum'' [''cpf'', ''salary''] ''cpf'')"
    "dict_get rel' ''cpf'' = dict_get rel ''cpf''"
    "analyze_relevance deterministic_analyze ''sum'' [''salary'', ''cpf'', ''salary''] = (rel', False)"
    using analyzer_complete [of "''cpf''" "[''cpf'', ''salary'']" "[''salary'', ''cpf'', ''salary'']" "''sum''"]
    by (auto simp: insert_commute)
  with deterministic_reports [of "''sum''" "[''salary'', ''cpf'', ''salary'']"] show ?thesis by auto
qed

text \<open>
  the most revealing level needs evidence. A category is reported as needed with its exact value only if some
  clause of the task that is not negated contains one of the category's terms together with an exactness cue or
  with both halves of an exactness wrapper.
\<close>

theorem exact_level_needs_evidence:
  assumes "category_level task cs c = RELEVANT_WITH_EXACT_VALUE"
  shows "\<exists>clause. (clause, True) \<in> set (split_into_clauses task) \<and> term_spans (tokenize clause) c \<noteq> [] \<and>
    ((\<exists>cue \<in> set EXACT_VALUE_INDICATORS. phrase_positions (tokenize clause) cue \<noteq> []) \<or>
     (\<exists>(pre, suf) \<in> set EXACT_VALUE_WRAPPERS. pre \<in> set (tokenize clause) \<and> suf \<in> set (tokenize clause)))"
  by (rule exact_needs_evidence [OF assms]) blast

theorem exact_level_needs_evidence_witness:
  "\<exists>clause. (clause, True) \<in> set (split_into_clauses ''exact wage'') \<and> term_spans (tokenize clause) ''salary'' \<noteq> []"
proof -
  have "category_level ''exact wage'' [''salary''] ''salary'' = RELEVANT_WITH_EXACT_VALUE" by code_simp
  from exact_level_needs_evidence [OF this] show ?thesis by blast
qed

text \<open>
  a category that the task mentions in negated clauses only is not relevant, and neither is one the analyzer
  has no terms for.
\<close>

theorem negated_mention_not_relevant:
  assumes "list_all (\<lambda>term. \<not> contains_term term (fst (split_positive_and_negated task)))
      (dict_get_default CATEGORY_INDICATORS c [])"
  shows "category_level task cs c = NOT_RELEVANT"
  using negated_only [of task c cs] assms by (simp add: list_ex_iff list_all_iff)

theorem negated_mention_not_relevant_witness:
  "category_level ''Do not use the salary.'' [''salary''] ''salary'' = NOT_RELEVANT"
  by (rule negated_mention_not_relevant) code_simp

end
