(* ===== verification/Providers.thy ===== *)
theory Providers
  imports Domain
begin

text \<open>
  \<open>providers/base.py\<close> and \<open>providers/fake.py\<close>: the two-field request, the response with its
  metadata, the failures, the byte count, the deadline a caller uses, the one entry point
  \<open>invoke_provider\<close>, and the offline \<open>FakeProvider\<close>.

  A provider is a record of what the entry point reads of it. Its \<open>generate\<close> yields how long the
  call takes (\<open>None\<close>: for ever) and what comes of it. \<open>invoke_provider\<close> returns its outcome
  together with the requests it submitted, so that what was transmitted can be stated.
\<close>

definition DEFAULT_TIMEOUT_SECONDS :: rat where "DEFAULT_TIMEOUT_SECONDS = 30"
definition CALLER_TIMEOUT_GRACE_SECONDS :: rat where "CALLER_TIMEOUT_GRACE_SECONDS = 10"

record provider_request =
  pq_payload :: pystr
  pq_task :: pystr

datatype config_value = Config_Number rat | Config_Text pystr | Config_Bool bool | Config_None

record provider_response =
  pr_text :: pystr
  pr_model_id :: pystr
  pr_model_snapshot :: pystr
  pr_decoding_config :: "(pystr, config_value) dict"
  pr_transmitted_bytes :: nat
  pr_input_tokens :: "int option"
  pr_output_tokens :: "int option"
  pr_cache_creation_input_tokens :: "int option"
  pr_cache_read_input_tokens :: "int option"

text \<open>A \<open>ProviderError\<close> as its handlers see it: the name of its class and \<open>provider_invoked\<close>.\<close>

record provider_failure =
  pf_kind :: pystr
  pf_invoked :: bool

text \<open>What \<open>generate\<close> does: respond, raise a \<open>ProviderError\<close>, raise a \<open>TimeoutError\<close>, or raise anything else.\<close>

datatype generated =
    Responds provider_response
  | Raises_Provider_Error provider_failure
  | Raises_Timeout
  | Raises_Other

record provider =
  pv_class :: pystr
  pv_native_timeout_seconds :: "rat option"
  pv_generate :: "provider_request \<Rightarrow> rat option \<times> generated"

definition count_transmitted_bytes :: "pystr \<Rightarrow> nat" where
  "count_transmitted_bytes payload = utf8_len payload"

definition caller_timeout_for_provider :: "provider \<Rightarrow> rat \<Rightarrow> rat" where
  "caller_timeout_for_provider p fallback =
     (case pv_native_timeout_seconds p of
        Some native \<Rightarrow> if 0 < native then native + CALLER_TIMEOUT_GRACE_SECONDS else fallback
      | None \<Rightarrow> fallback)"

definition class_mismatch :: provider_failure where
  "class_mismatch = \<lparr>pf_kind = ''ProviderClassMismatchError'', pf_invoked = False\<rparr>"

definition timed_out :: provider_failure where
  "timed_out = \<lparr>pf_kind = ''ProviderTimeoutError'', pf_invoked = True\<rparr>"

definition call_failed :: provider_failure where
  "call_failed = \<lparr>pf_kind = ''ProviderError'', pf_invoked = True\<rparr>"

text \<open>\<open>future.result(timeout)\<close>: the outcome, or nothing when the deadline passes first.\<close>

definition awaited :: "rat option \<times> generated \<Rightarrow> rat \<Rightarrow> generated option" where
  "awaited call timeout =
     (case fst call of
        None \<Rightarrow> None
      | Some t \<Rightarrow> if timeout < t then None else Some (snd call))"

definition invoke_provider ::
  "provider \<Rightarrow> provider_request \<Rightarrow> pystr \<Rightarrow> rat \<Rightarrow> (provider_failure + provider_response) \<times> provider_request list" where
  "invoke_provider p request expected_provider_class timeout =
     (if pv_class p \<noteq> expected_provider_class then (Inl class_mismatch, [])
      else
        ((case awaited (pv_generate p request) timeout of
            None \<Rightarrow> Inl timed_out
          | Some Raises_Timeout \<Rightarrow> Inl timed_out
          | Some (Raises_Provider_Error e) \<Rightarrow> Inl (e\<lparr>pf_invoked := True\<rparr>)
          | Some Raises_Other \<Rightarrow> Inl call_failed
          | Some (Responds r) \<Rightarrow> Inr r),
         [request]))"

subsection \<open>The offline provider\<close>

definition fake_decoding_config :: "(pystr, config_value) dict" where
  "fake_decoding_config =
     [(''temperature'', Config_Number 0), (''max_tokens'', Config_Number 512), (''sampling'', Config_Text ''greedy'')]"

text \<open>The digest and \<open>repr\<close> of a string are library functions, given as parameters.\<close>

definition fake_generate ::
  "(pystr \<Rightarrow> pystr) \<Rightarrow> (pystr \<Rightarrow> pystr) \<Rightarrow> provider_request \<Rightarrow> provider_response" where
  "fake_generate sha256_hex repr_of request =
     \<lparr>pr_text =
        ''[fake:'' @ take 16 (sha256_hex (pq_task request @ [CHR 0x1F] @ pq_payload request)) @
        ''] acknowledged task '' @ repr_of (pq_task request) @ '' over '' @
        str_nat (length (pq_payload request)) @ '' chars'',
      pr_model_id = ''fake-provider'', pr_model_snapshot = ''fake-provider-2026-09-07'',
      pr_decoding_config = fake_decoding_config,
      pr_transmitted_bytes = count_transmitted_bytes (pq_payload request),
      pr_input_tokens = None, pr_output_tokens = None, pr_cache_creation_input_tokens = None,
      pr_cache_read_input_tokens = None\<rparr>"

definition fake_provider :: "(pystr \<Rightarrow> pystr) \<Rightarrow> (pystr \<Rightarrow> pystr) \<Rightarrow> provider" where
  "fake_provider sha256_hex repr_of =
     \<lparr>pv_class = ''fake'', pv_native_timeout_seconds = None,
      pv_generate = (\<lambda>request. (Some 0, Responds (fake_generate sha256_hex repr_of request)))\<rparr>"

subsection \<open>Facts\<close>

lemma invoke_provider_cases:
  obtains (mismatch) "pv_class p \<noteq> expected" "invoke_provider p request expected timeout = (Inl class_mismatch, [])"
  | (failed) e where "pv_class p = expected" "pf_invoked e" "invoke_provider p request expected timeout = (Inl e, [request])"
  | (answered) r t where "pv_class p = expected" "pv_generate p request = (Some t, Responds r)" "t \<le> timeout"
      "invoke_provider p request expected timeout = (Inr r, [request])"
proof (cases "pv_class p = expected")
  case False
  with mismatch show thesis by (simp add: invoke_provider_def)
next
  case True
  obtain d g where dg: "pv_generate p request = (d, g)" by (cases "pv_generate p request")
  show thesis
  proof (cases "awaited (d, g) timeout")
    case None
    with True dg failed [of timed_out] show ?thesis by (simp add: invoke_provider_def timed_out_def)
  next
    case (Some g')
    then obtain t where t: "d = Some t" "g' = g" "t \<le> timeout"
      by (auto simp: awaited_def split: option.splits if_splits)
    show ?thesis
    proof (cases g)
      case (Responds r)
      with True dg Some t answered [of t r] show ?thesis by (simp add: invoke_provider_def)
    next
      case (Raises_Provider_Error e)
      with True dg Some t failed [of "e\<lparr>pf_invoked := True\<rparr>"] show ?thesis by (simp add: invoke_provider_def)
    next
      case Raises_Timeout
      with True dg Some t failed [of timed_out] show ?thesis by (simp add: invoke_provider_def timed_out_def)
    next
      case Raises_Other
      with True dg Some t failed [of call_failed] show ?thesis by (simp add: invoke_provider_def call_failed_def)
    qed
  qed
qed

text \<open>\<open>provider_invoked\<close> tells the truth: it is set exactly when the request was submitted.\<close>

lemma invoked_iff_submitted:
  assumes "invoke_provider p request expected timeout = (Inl e, sent)"
  shows "pf_invoked e \<longleftrightarrow> sent = [request]"
  using assms by (cases rule: invoke_provider_cases [of p expected request timeout]) (auto simp: class_mismatch_def)

lemma caller_timeout_exceeds_native:
  assumes "pv_native_timeout_seconds p = Some native" and "0 < native"
  shows "native < caller_timeout_for_provider p fallback"
  using assms by (simp add: caller_timeout_for_provider_def CALLER_TIMEOUT_GRACE_SECONDS_def)

subsection \<open>Properties\<close>

text \<open>
  one entry point, at most one call, and an honest account of it. A provider of another class than policy
  evaluated is never handed the request; otherwise the request is submitted exactly once, whatever then happens.
  A response comes only from a call that finished in time, and a failure says that the provider was invoked
  exactly when the request was submitted.
\<close>

theorem one_honest_call:
  "snd (invoke_provider p request expected timeout) = (if pv_class p = expected then [request] else []) \<and>
   (case fst (invoke_provider p request expected timeout) of
      Inl e \<Rightarrow> pf_invoked e \<longleftrightarrow> pv_class p = expected
    | Inr r \<Rightarrow> \<exists>t. pv_generate p request = (Some t, Responds r) \<and> t \<le> timeout)"
  by (cases rule: invoke_provider_cases [of p expected request timeout]) (auto simp: class_mismatch_def)

text \<open>
  the deadline a caller derives from a provider's own does not cut that provider off: a call that ends within
  the provider's native timeout is never reported as timed out by the caller, and its response is returned.
\<close>

theorem native_timeout_suffices:
  assumes "pv_native_timeout_seconds p = Some native" and "0 < native"
    and "pv_generate p request = (Some t, Responds r)" and "t \<le> native"
  shows "fst (invoke_provider p request (pv_class p) (caller_timeout_for_provider p fallback)) = Inr r"
proof -
  have "\<not> caller_timeout_for_provider p fallback < t"
    using caller_timeout_exceeds_native [OF assms(1,2), of fallback] assms(4) by simp
  with assms(3) show ?thesis by (simp add: invoke_provider_def awaited_def)
qed

definition slow_provider :: provider where
  "slow_provider =
     \<lparr>pv_class = ''external'', pv_native_timeout_seconds = Some 60,
      pv_generate = (\<lambda>request. (Some 45, Responds (fake_generate id id request)))\<rparr>"

theorem native_timeout_suffices_witness:
  "fst (invoke_provider slow_provider \<lparr>pq_payload = ''p'', pq_task = ''t''\<rparr> ''external''
     (caller_timeout_for_provider slow_provider DEFAULT_TIMEOUT_SECONDS)) =
   Inr (fake_generate id id \<lparr>pq_payload = ''p'', pq_task = ''t''\<rparr>)"
  using native_timeout_suffices [of slow_provider 60 "\<lparr>pq_payload = ''p'', pq_task = ''t''\<rparr>" 45
      "fake_generate id id \<lparr>pq_payload = ''p'', pq_task = ''t''\<rparr>" DEFAULT_TIMEOUT_SECONDS]
  by (simp add: slow_provider_def)

end
