(* ===== verification/Audit_Record.thy ===== *)
theory Audit_Record
  imports Providers
begin

text \<open>
  \<open>audit.py\<close>: the stages of an audit record and \<open>build_audit_record\<close>. The keyed hash is HMAC-SHA256,
  library code and so a parameter \<open>hmac key content\<close>; the key of the process is passed as \<open>default_key\<close>.
  The lemmas show what a record without raw capture can depend on.
\<close>

type_synonym 'k keyed_hash = "'k \<Rightarrow> pystr \<Rightarrow> pystr"

record detection_stage =
  ds_span_count :: nat
  ds_categories :: "pystr list"

record transformation_stage =
  ts_status :: result_status
  ts_transformation_count :: nat
  ts_actions_by_category :: "(pystr, pystr) dict"
  ts_payload_byte_count :: nat
  ts_payload_hash :: pystr

record provider_stage =
  ps_called :: bool
  ps_provider_class :: "pystr option"
  ps_model_id :: "pystr option"
  ps_model_snapshot :: "pystr option"
  ps_decoding_config :: "(pystr, config_value) dict option"
  ps_transmitted_bytes :: "nat option"
  ps_response_hash :: "pystr option"
  ps_failed :: bool
  ps_failure_kind :: "pystr option"

record reconstruction_stage =
  rc_attempted :: bool
  rc_reconstructed_hash :: "pystr option"
  rc_changed_from_provider_response :: "bool option"

record raw_value_capture =
  rv_raw_input_text :: pystr
  rv_external_payload :: pystr
  rv_provider_response_text :: "pystr option"
  rv_reconstructed_text :: "pystr option"

record audit_record =
  ar_treatment :: treatment
  ar_domain :: pystr
  ar_purpose :: pystr
  ar_status :: result_status
  ar_detection :: detection_stage
  ar_decisions :: "policy_decision list"
  ar_transformation :: transformation_stage
  ar_provider :: provider_stage
  ar_reconstruction :: reconstruction_stage
  ar_raw :: "raw_value_capture option"

definition content_hash :: "'k keyed_hash \<Rightarrow> 'k \<Rightarrow> pystr \<Rightarrow> pystr" where
  "content_hash hmac key val = hmac key val"

definition actions_by_category :: "policy_decision list \<Rightarrow> (pystr, pystr) dict" where
  "actions_by_category ds = foldl (\<lambda>d pd. dict_set d (pd_category pd) (action_value (pd_action pd))) [] ds"

definition build_audit_record ::
  "'k keyed_hash \<Rightarrow> 'k \<Rightarrow> disclosure_request \<Rightarrow> sensitive_span list \<Rightarrow> disclosure_result \<Rightarrow> treatment \<Rightarrow>
     provider_response option \<Rightarrow> pystr option \<Rightarrow> pystr option \<Rightarrow> bool option \<Rightarrow> pystr option \<Rightarrow> bool \<Rightarrow>
     'k option \<Rightarrow> audit_record" where
  "build_audit_record hmac default_key request spans res treatment response provider_class reconstructed
     provider_attempted failure_kind capture_raw audit_hash_key =
     (let key = the_default default_key audit_hash_key;
          attempted = the_default (response \<noteq> None) provider_attempted
      in \<lparr>ar_treatment = treatment, ar_domain = ctx_domain (rq_context request),
          ar_purpose = ctx_purpose (rq_context request), ar_status = rs_status res,
          ar_detection =
            \<lparr>ds_span_count = length spans, ds_categories = sorted_set (map sp_category spans)\<rparr>,
          ar_decisions = rs_decisions res,
          ar_transformation =
            \<lparr>ts_status = rs_status res, ts_transformation_count = length (rs_transformations res),
             ts_actions_by_category = actions_by_category (rs_decisions res),
             ts_payload_byte_count = utf8_len (rs_external_payload res),
             ts_payload_hash = content_hash hmac key (rs_external_payload res)\<rparr>,
          ar_provider =
            \<lparr>ps_called = attempted, ps_provider_class = (if attempted then provider_class else None),
             ps_model_id = map_option pr_model_id response,
             ps_model_snapshot = map_option pr_model_snapshot response,
             ps_decoding_config = map_option pr_decoding_config response,
             ps_transmitted_bytes = map_option pr_transmitted_bytes response,
             ps_response_hash = map_option (\<lambda>r. content_hash hmac key (pr_text r)) response,
             ps_failed = (failure_kind \<noteq> None), ps_failure_kind = failure_kind\<rparr>,
          ar_reconstruction =
            \<lparr>rc_attempted = (reconstructed \<noteq> None),
             rc_reconstructed_hash = map_option (content_hash hmac key) reconstructed,
             rc_changed_from_provider_response =
               (case (reconstructed, response) of
                  (Some t, Some r) \<Rightarrow> Some (t \<noteq> pr_text r)
                | _ \<Rightarrow> None)\<rparr>,
          ar_raw =
            (if capture_raw then
               Some \<lparr>rv_raw_input_text = rq_text request, rv_external_payload = rs_external_payload res,
                     rv_provider_response_text = map_option pr_text response,
                     rv_reconstructed_text = reconstructed\<rparr>
             else None)\<rparr>)"

subsection \<open>Properties\<close>

text \<open>
  without raw capture an audit record is metadata. Two requests give the same record as soon as they agree on
  domain and purpose, the categories of their spans, the status, the decisions, the number of transformations
  and the length and keyed hash of what was sent: the texts, the values and the payload itself do not enter it.
\<close>

theorem audit_is_metadata:
  assumes "ctx_domain (rq_context r1) = ctx_domain (rq_context r2)"
    and "ctx_purpose (rq_context r1) = ctx_purpose (rq_context r2)"
    and "map sp_category s1 = map sp_category s2"
    and "rs_status a = rs_status b" and "rs_decisions a = rs_decisions b"
    and "length (rs_transformations a) = length (rs_transformations b)"
    and "utf8_len (rs_external_payload a) = utf8_len (rs_external_payload b)"
    and "hmac (the_default dk ak) (rs_external_payload a) = hmac (the_default dk ak) (rs_external_payload b)"
  shows "build_audit_record hmac dk r1 s1 a t response pc reconstructed att fk False ak =
    build_audit_record hmac dk r2 s2 b t response pc reconstructed att fk False ak"
proof -
  have "length s1 = length s2" using arg_cong [OF assms(3), of length] by simp
  then show ?thesis
    using assms by (simp add: build_audit_record_def Let_def content_hash_def)
qed

definition removed_result :: "pystr \<Rightarrow> disclosure_result" where
  "removed_result val =
     \<lparr>rs_external_payload = ''cpf: '', rs_decisions = [],
      rs_transformations =
        [\<lparr>tr_category = ''cpf'', tr_original = val, tr_transformed = None, tr_action = REMOVE\<rparr>],
      rs_reconstruction_required = False, rs_status = Allowed\<rparr>"

definition cpf_request :: "pystr \<Rightarrow> disclosure_request" where
  "cpf_request val =
     \<lparr>rq_text = ''cpf: '' @ val, rq_task = ''t'',
      rq_context =
        \<lparr>ctx_domain = ''hr'', ctx_purpose = ''p'', ctx_requester_role = None, ctx_requester_id = None,
         ctx_provider_class = ''fake'', ctx_policy_version = ''v'', ctx_requested_scope = REQUEST,
         ctx_request_id = None, ctx_document_id = None, ctx_session_id = None\<rparr>\<rparr>"

theorem audit_is_metadata_witness:
  "build_audit_record (\<lambda>k c. k @ c) ''key'' (cpf_request ''111'') [] (removed_result ''111'') STATIC_SANITIZATION
     None None None None None False None =
   build_audit_record (\<lambda>k c. k @ c) ''key'' (cpf_request ''222'') [] (removed_result ''222'') STATIC_SANITIZATION
     None None None None None False None"
  by (rule audit_is_metadata) (simp_all add: cpf_request_def removed_result_def)

end
