(* ===== verification/Pipeline.thy ===== *)
theory Pipeline
  imports Static_Sanitization Reversible_Pseudonymization Policy_Governed Task_Analysis Audit_Record
begin

text \<open>
  \<open>pipeline.py\<close> and \<open>treatment_factory.py\<close>: the decision phase (detect, sanitize, inspect the task), the
  execution of a decision (provider, reconstruction, audit) and their composition
  \<open>run_disclosure_case\<close>. A treatment is a record: its label, its \<open>sanitize\<close> over the vault's state,
  whether it is the unsafe control, and its \<open>reconstruct\<close> when it has one. A detector is its list
  of rules. The execution returns, beside its result, the requests submitted to the provider.

  The lemmas give the outcomes of an execution, the transmission discipline (what may reach a provider, and
  when), and that a run of any of the five treatments never raises.
\<close>

record 'v disclosure_treatment =
  dt_treatment :: treatment
  dt_unsafe_control_baseline :: bool
  dt_sanitize :: "'v \<Rightarrow> disclosure_request \<Rightarrow> sensitive_span list \<Rightarrow> (disclosure_result \<times> 'v) result"
  dt_reconstruct :: "('v \<Rightarrow> pystr \<Rightarrow> disclosure_result \<Rightarrow> governance_context \<Rightarrow> pystr) option"

record execution_result =
  ex_disclosure_result :: disclosure_result
  ex_spans :: "sensitive_span list"
  ex_provider_response :: "provider_response option"
  ex_reconstructed_text :: "pystr option"
  ex_audit :: audit_record

record disclosure_decision =
  dd_spans :: "sensitive_span list"
  dd_result :: disclosure_result

subsection \<open>The five treatments\<close>

definition stateless :: "'v \<Rightarrow> 'a result \<Rightarrow> ('a \<times> 'v) result" where
  "stateless v r = (case r of Inl e \<Rightarrow> Inl e | Inr x \<Rightarrow> Inr (x, v))"

definition analyzer_of :: "task_analyzer option \<Rightarrow> task_analyzer" where
  "analyzer_of analyzer = the_default deterministic_analyze analyzer"

fun build_treatment ::
  "'v vault_ops \<Rightarrow> policy_repository \<Rightarrow> task_analyzer option \<Rightarrow> treatment \<Rightarrow> 'v disclosure_treatment" where
  "build_treatment ops repo analyzer DIRECT =
     \<lparr>dt_treatment = DIRECT, dt_unsafe_control_baseline = True,
      dt_sanitize = (\<lambda>v request spans. Inr (direct_sanitize request spans, v)), dt_reconstruct = None\<rparr>"
| "build_treatment ops repo analyzer STATIC_SANITIZATION =
     \<lparr>dt_treatment = STATIC_SANITIZATION, dt_unsafe_control_baseline = False,
      dt_sanitize = (\<lambda>v request spans. stateless v (static_sanitize request spans)), dt_reconstruct = None\<rparr>"
| "build_treatment ops repo analyzer REVERSIBLE_PSEUDONYMIZATION =
     \<lparr>dt_treatment = REVERSIBLE_PSEUDONYMIZATION, dt_unsafe_control_baseline = False,
      dt_sanitize = reversible_sanitize ops repo, dt_reconstruct = Some (reversible_reconstruct ops repo)\<rparr>"
| "build_treatment ops repo analyzer TASK_AWARE =
     \<lparr>dt_treatment = TASK_AWARE, dt_unsafe_control_baseline = False,
      dt_sanitize = task_aware_sanitize ops repo (analyzer_of analyzer),
      dt_reconstruct = Some (task_aware_reconstruct ops repo)\<rparr>"
| "build_treatment ops repo analyzer POLICY_GOVERNED =
     \<lparr>dt_treatment = POLICY_GOVERNED, dt_unsafe_control_baseline = False,
      dt_sanitize = policy_governed_sanitize ops repo (analyzer_of analyzer),
      dt_reconstruct = Some (policy_governed_reconstruct ops repo)\<rparr>"

subsection \<open>The decision phase\<close>

definition TASK_SENSITIVE_REASON :: pystr where
  "TASK_SENSITIVE_REASON =
     ''request.task contains detected sensitive content in this category; the shared pipeline fails '' @
     ''the whole request closed rather than silently sanitizing the task -- only request.text goes '' @
     ''through a treatment's own sanitize() detection/action mapping''"

definition blocked_for_sensitive_task :: "sensitive_span list \<Rightarrow> disclosure_result" where
  "blocked_for_sensitive_task task_spans =
     blocked_with (map (blocking_decision TASK_SENSITIVE_REASON) (sorted_set (map sp_category task_spans)))"

definition active_rules :: "detection_rule list option \<Rightarrow> detection_rule list" where
  "active_rules detector = the_default BUILT_IN_RULES detector"

definition decide_disclosure ::
  "'v disclosure_treatment \<Rightarrow> detection_rule list option \<Rightarrow> 'v \<Rightarrow> disclosure_request \<Rightarrow>
     (disclosure_decision \<times> 'v) result" where
  "decide_disclosure trt detector v request =
     (case detect (active_rules detector) (rq_text request) of
        Inl e \<Rightarrow> Inl e
      | Inr spans \<Rightarrow>
          (case dt_sanitize trt v request spans of
             Inl e \<Rightarrow> Inl e
           | Inr (res, v') \<Rightarrow>
               if rs_status res = Allowed \<and> \<not> dt_unsafe_control_baseline trt then
                 (case detect (active_rules detector) (rq_task request) of
                    Inl e \<Rightarrow> Inl e
                  | Inr task_spans \<Rightarrow>
                      Inr (\<lparr>dd_spans = spans,
                            dd_result =
                              (if task_spans \<noteq> [] then blocked_for_sensitive_task task_spans else res)\<rparr>, v'))
               else Inr (\<lparr>dd_spans = spans, dd_result = res\<rparr>, v')))"

subsection \<open>The execution of a decision\<close>

definition execute_disclosure_decision ::
  "'k keyed_hash \<Rightarrow> 'k \<Rightarrow> 'v disclosure_treatment \<Rightarrow> 'v \<Rightarrow> disclosure_request \<Rightarrow> provider \<Rightarrow>
     disclosure_decision \<Rightarrow> rat \<Rightarrow> bool \<Rightarrow> execution_result \<times> provider_request list" where
  "execute_disclosure_decision hmac key trt v request p decision timeout capture =
     (let spans = dd_spans decision;
          res = dd_result decision;
          audit = build_audit_record hmac key request spans res (dt_treatment trt);
          finished = (\<lambda>response reconstructed provider_class attempted failure.
            \<lparr>ex_disclosure_result = res, ex_spans = spans, ex_provider_response = response,
             ex_reconstructed_text = reconstructed,
             ex_audit = audit response provider_class reconstructed (Some attempted) failure capture None\<rparr>)
      in if rs_status res = Allowed then
           (case invoke_provider p \<lparr>pq_payload = rs_external_payload res, pq_task = rq_task request\<rparr>
                   (ctx_provider_class (rq_context request)) timeout of
              (Inl e, sent) \<Rightarrow>
                (finished None None (Some (pv_class p)) (pf_invoked e) (Some (pf_kind e)), sent)
            | (Inr response, sent) \<Rightarrow>
                (finished (Some response)
                   (map_option (\<lambda>f. f v (pr_text response) res (rq_context request)) (dt_reconstruct trt))
                   (Some (pv_class p)) True None, sent))
         else (finished None None None False None, []))"

definition run_disclosure_case ::
  "'k keyed_hash \<Rightarrow> 'k \<Rightarrow> 'v disclosure_treatment \<Rightarrow> detection_rule list option \<Rightarrow> 'v \<Rightarrow> disclosure_request \<Rightarrow>
     provider \<Rightarrow> rat \<Rightarrow> bool \<Rightarrow> (execution_result \<times> provider_request list \<times> 'v) result" where
  "run_disclosure_case hmac key trt detector v request p timeout capture =
     (case decide_disclosure trt detector v request of
        Inl e \<Rightarrow> Inl e
      | Inr (decision, v') \<Rightarrow>
          (case execute_disclosure_decision hmac key trt v' request p decision timeout capture of
             (execution, sent) \<Rightarrow> Inr (execution, sent, v')))"

subsection \<open>The contract of a treatment\<close>

text \<open>
  What the pipeline asks of a treatment over a vault that satisfies \<open>inv\<close>: on spans that are valid for the
  text it returns, keeps \<open>inv\<close>, and a blocked result carries nothing out.
\<close>

definition carries_nothing :: "disclosure_result \<Rightarrow> bool" where
  "carries_nothing res \<longleftrightarrow>
     rs_external_payload res = '''' \<and> rs_transformations res = [] \<and> \<not> rs_reconstruction_required res"

locale treatment_contract =
  fixes trt :: "'v disclosure_treatment"
    and inv :: "'v \<Rightarrow> bool"
  assumes sanitize_returns: "inv v \<Longrightarrow> spans_are_valid spans (rq_text request) \<Longrightarrow>
      \<exists>res v'. dt_sanitize trt v request spans = Inr (res, v') \<and> inv v' \<and>
        (rs_status res = Blocked \<longrightarrow> carries_nothing res)"
begin

lemma decide_returns:
  assumes "inv v" and "list_all rule_ok (active_rules detector)"
  obtains decision v' where "decide_disclosure trt detector v request = Inr (decision, v')" and "inv v'"
    and "rs_status (dd_result decision) = Blocked \<longrightarrow> carries_nothing (dd_result decision)"
    and "detect (active_rules detector) (rq_text request) = Inr (dd_spans decision)"
    and "rs_status (dd_result decision) = Allowed \<and> \<not> dt_unsafe_control_baseline trt \<longrightarrow>
      detect (active_rules detector) (rq_task request) = Inr []"
proof -
  obtain spans where spans: "detect (active_rules detector) (rq_text request) = Inr spans"
    "spans_are_valid spans (rq_text request)"
    by (rule detect_ok [OF assms(2)])
  obtain task_spans where task: "detect (active_rules detector) (rq_task request) = Inr task_spans"
    by (rule detect_ok [OF assms(2)])
  obtain res v' where res: "dt_sanitize trt v request spans = Inr (res, v')" "inv v'"
    "rs_status res = Blocked \<longrightarrow> carries_nothing res"
    using sanitize_returns [OF assms(1) spans(2)] by blast
  show thesis
    by (rule that [of "\<lparr>dd_spans = spans, dd_result =
          if rs_status res = Allowed \<and> \<not> dt_unsafe_control_baseline trt \<and> task_spans \<noteq> []
          then blocked_for_sensitive_task task_spans else res\<rparr>" v'])
      (use res in \<open>auto simp: decide_disclosure_def spans(1) task blocked_for_sensitive_task_def carries_nothing_def
         split: if_splits\<close>)
qed

lemma run_returns:
  assumes "inv v" and "list_all rule_ok (active_rules detector)"
  shows "\<exists>execution sent v'. run_disclosure_case hmac key trt detector v request p timeout capture =
    Inr (execution, sent, v') \<and> inv v'"
proof -
  obtain decision v' where "decide_disclosure trt detector v request = Inr (decision, v')" and "inv v'"
    by (rule decide_returns [OF assms])
  then show ?thesis by (simp add: run_disclosure_case_def split: prod.split)
qed

text \<open>What a run can send: nothing, or the payload of an allowed decision with a task in which nothing is detected.\<close>

lemma run_sends:
  assumes "inv v" and "list_all rule_ok (active_rules detector)"
    and "run_disclosure_case hmac key trt detector v request p timeout capture = Inr (execution, sent, v')"
    and "m \<in> set sent"
  shows "rs_status (ex_disclosure_result execution) = Allowed \<and>
    pv_class p = ctx_provider_class (rq_context request) \<and>
    m = \<lparr>pq_payload = rs_external_payload (ex_disclosure_result execution), pq_task = rq_task request\<rparr> \<and>
    (\<not> dt_unsafe_control_baseline trt \<longrightarrow> detect (active_rules detector) (rq_task request) = Inr [])"
proof -
  obtain decision v'' where d: "decide_disclosure trt detector v request = Inr (decision, v'')"
    "rs_status (dd_result decision) = Allowed \<and> \<not> dt_unsafe_control_baseline trt \<longrightarrow>
      detect (active_rules detector) (rq_task request) = Inr []"
    by (rule decide_returns [OF assms(1,2)])
  from assms(3) d(1) have "execute_disclosure_decision hmac key trt v'' request p decision timeout capture = (execution, sent)"
    by (simp add: run_disclosure_case_def split: prod.splits)
  then show ?thesis using assms(4) d(2)
    by (auto simp: execute_disclosure_decision_def Let_def invoke_provider_def split: if_splits sum.splits prod.splits)
qed

end

subsection \<open>The outcomes of an execution\<close>

lemma execute_cases:
  assumes "execute_disclosure_decision hmac key trt v request p decision timeout capture = (execution, sent)"
  obtains
    (blocked) "rs_status (dd_result decision) = Blocked" "sent = []" "ex_provider_response execution = None"
      "ex_reconstructed_text execution = None" "\<not> ps_called (ar_provider (ex_audit execution))"
      "ps_failure_kind (ar_provider (ex_audit execution)) = None"
  | (mismatch) "rs_status (dd_result decision) = Allowed" "pv_class p \<noteq> ctx_provider_class (rq_context request)"
      "sent = []" "ex_provider_response execution = None" "ex_reconstructed_text execution = None"
      "\<not> ps_called (ar_provider (ex_audit execution))"
      "ps_failure_kind (ar_provider (ex_audit execution)) = Some ''ProviderClassMismatchError''"
  | (failed) kind where "rs_status (dd_result decision) = Allowed"
      "pv_class p = ctx_provider_class (rq_context request)"
      "sent = [\<lparr>pq_payload = rs_external_payload (dd_result decision), pq_task = rq_task request\<rparr>]"
      "ex_provider_response execution = None" "ex_reconstructed_text execution = None"
      "ps_called (ar_provider (ex_audit execution))"
      "ps_failure_kind (ar_provider (ex_audit execution)) = Some kind"
  | (answered) response t where "rs_status (dd_result decision) = Allowed"
      "pv_class p = ctx_provider_class (rq_context request)"
      "sent = [\<lparr>pq_payload = rs_external_payload (dd_result decision), pq_task = rq_task request\<rparr>]"
      "pv_generate p \<lparr>pq_payload = rs_external_payload (dd_result decision), pq_task = rq_task request\<rparr> =
         (Some t, Responds response)" "t \<le> timeout"
      "ex_provider_response execution = Some response"
      "ex_reconstructed_text execution =
         map_option (\<lambda>f. f v (pr_text response) (dd_result decision) (rq_context request)) (dt_reconstruct trt)"
      "ps_called (ar_provider (ex_audit execution))"
      "ps_failure_kind (ar_provider (ex_audit execution)) = None"
proof (cases "rs_status (dd_result decision)")
  case Blocked
  then show thesis by (intro blocked) (use assms in \<open>auto simp: execute_disclosure_decision_def Let_def build_audit_record_def\<close>)
next
  case Allowed
  let ?req = "\<lparr>pq_payload = rs_external_payload (dd_result decision), pq_task = rq_task request\<rparr>"
  note run = assms [unfolded execute_disclosure_decision_def Let_def, simplified Allowed if_True simp_thms]
  show thesis
  proof (cases rule: invoke_provider_cases [of p "ctx_provider_class (rq_context request)" ?req timeout])
    case mismatch
    then show thesis using run Allowed that(2) by (auto simp: class_mismatch_def build_audit_record_def Let_def)
  next
    case (failed e)
    then show thesis using run Allowed that(3) by (auto simp: build_audit_record_def Let_def)
  next
    case (answered r t)
    then show thesis using run Allowed that(4) [of t r] by (auto simp: build_audit_record_def Let_def)
  qed
qed

lemma execute_carries [simp]:
  assumes "execute_disclosure_decision hmac key trt v request p decision timeout capture = (execution, sent)"
  shows "ex_disclosure_result execution = dd_result decision" and "ex_spans execution = dd_spans decision"
  using assms by (auto simp: execute_disclosure_decision_def Let_def split: if_splits prod.splits sum.splits)

lemma run_caseE:
  assumes "run_disclosure_case hmac key trt detector v request p timeout capture = Inr (execution, sent, v')"
  obtains decision where "decide_disclosure trt detector v request = Inr (decision, v')"
    and "execute_disclosure_decision hmac key trt v' request p decision timeout capture = (execution, sent)"
  using assms by (auto simp: run_disclosure_case_def split: sum.splits prod.splits)

subsection \<open>The five treatments keep the contract\<close>

lemma carries_nothing_blocked [simp]: "carries_nothing (blocked_with ds)"
  by (simp add: carries_nothing_def)

lemmas blocked_results = blocked_result_def invalid_span_result_def missing_scope_identifier_result_def
  static_blocked_result_def static_invalid_span_result_def Let_def

lemma shared_sanitize_returns:
  assumes "vault_inv v" and "\<And>ordered sp. sp \<in> set ordered \<Longrightarrow> dec ordered sp = Inr (f ordered sp)"
  shows "\<exists>res v'. sanitize_with in_memory_ops v repo reasons dec request spans = Inr (res, v') \<and> vault_inv v' \<and>
    (rs_status res = Blocked \<longrightarrow> carries_nothing res)"
proof -
  have dec: "\<forall>ordered. resolve_overlaps spans = Inr ordered \<longrightarrow> (\<forall>sp \<in> set ordered. dec ordered sp = Inr (f ordered sp))"
    using assms(2) by blast
  show ?thesis
  proof (cases rule: sanitize_with_cases [where ops = in_memory_ops and v = v and repo = repo and reasons = reasons
        and request = request, OF dec])
    case (4 ordered key vals w)
    then show ?thesis using in_memory.walk_vault [OF assms(1) 4(6)] by simp
  qed (use assms(1) in \<open>simp_all add: blocked_results\<close>)
qed

interpretation built_treatment:
  treatment_contract "build_treatment in_memory_ops repo analyzer trt" vault_inv for repo analyzer trt
proof unfold_locales
  fix v :: in_memory_vault and request :: disclosure_request and spans
  assume v: "vault_inv v" and "spans_are_valid spans (rq_text request)"
  note shared = shared_sanitize_returns [OF v]
  show "\<exists>res v'. dt_sanitize (build_treatment in_memory_ops repo analyzer trt) v request spans = Inr (res, v') \<and>
      vault_inv v' \<and> (rs_status res = Blocked \<longrightarrow> carries_nothing res)"
  proof (cases trt)
    case DIRECT
    then show ?thesis using v by (simp add: direct_sanitize_def)
  next
    case STATIC_SANITIZATION
    show ?thesis
      by (cases rule: static_sanitize_cases [of spans request])
        (use v STATIC_SANITIZATION in \<open>simp_all add: stateless_def blocked_results\<close>)
  next
    case REVERSIBLE_PSEUDONYMIZATION
    then show ?thesis
      using shared [of "\<lambda>_ sp. Inr (reversible_decide sp)" "\<lambda>_. reversible_decide"]
      by (simp add: reversible_sanitize_with)
  next
    case TASK_AWARE
    then show ?thesis
      using shared [OF task_aware_decider_total] by (simp add: task_aware_sanitize_with)
  next
    case POLICY_GOVERNED
    then show ?thesis
      using shared [OF policy_governed_decider_total] by (simp add: policy_governed_sanitize_with)
  qed
qed

lemma active_rules_default [simp]: "active_rules None = BUILT_IN_RULES"
  by (simp add: active_rules_def)

end
