(* ===== verification/Reconstruction.thy ===== *)
theory Reconstruction
  imports Reversible_Pseudonymization
begin

text \<open>
  What \<open>replace_ordered\<close> and \<open>reconstruct\<close> do to a response that quotes pseudonyms: every token is
  replaced by its original and nothing else changes, whatever the order of the pairs, as long as
  the tokens carry the \<open>PSEUDO-\<close> marker once, none is a prefix of another, and the restored text
  does not contain the marker. A response is a list of pieces, literal text or a token.
\<close>

datatype piece = Lit pystr | Tok pystr

definition marker :: pystr where
  "marker = ''PSEUDO-''"

definition token_ok :: "pystr \<Rightarrow> bool" where
  "token_ok t \<longleftrightarrow> (\<exists>body. t = marker @ body \<and> CHR ''P'' \<notin> set body)"

primrec piece_text :: "(pystr \<Rightarrow> pystr) \<Rightarrow> piece \<Rightarrow> pystr" where
  "piece_text f (Lit s) = s"
| "piece_text f (Tok t) = f t"

definition render :: "(pystr \<Rightarrow> pystr) \<Rightarrow> piece list \<Rightarrow> pystr" where
  "render f ps = concat (map (piece_text f) ps)"

definition tokens_of :: "piece list \<Rightarrow> pystr set" where
  "tokens_of ps = {t. Tok t \<in> set ps}"

primrec substitute :: "pystr \<Rightarrow> pystr \<Rightarrow> piece \<Rightarrow> piece" where
  "substitute t r (Lit s) = Lit s"
| "substitute t r (Tok u) = (if u = t then Lit r else Tok u)"

definition incomparable :: "pystr \<Rightarrow> pystr set \<Rightarrow> bool" where
  "incomparable t T \<longleftrightarrow> (\<forall>u \<in> T. u \<noteq> t \<longrightarrow> \<not> prefix t u \<and> \<not> prefix u t)"

lemma render_simps [simp]:
  "render f [] = []" "render f (Lit s # ps) = s @ render f ps" "render f (Tok t # ps) = f t @ render f ps"
  by (simp_all add: render_def)

lemma tokens_of_simps [simp]:
  "tokens_of [] = {}" "tokens_of (Lit s # ps) = tokens_of ps" "tokens_of (Tok t # ps) = insert t (tokens_of ps)"
  by (auto simp: tokens_of_def)

subsection \<open>One replacement\<close>

lemma replace_skip:
  assumes "t \<noteq> []" and "\<not> prefix t (c # s)"
  shows "replace_nonempty t r (c # s) = c # replace_nonempty t r s"
proof -
  have "take (length t) (c # s) \<noteq> t" using assms(2) by (metis take_is_prefix)
  with assms(1) show ?thesis by (simp add: replace_nonempty.simps [of t r "c # s"])
qed

lemma replace_hit: "t \<noteq> [] \<Longrightarrow> replace_nonempty t r (t @ s) = r @ replace_nonempty t r s"
  by (simp add: replace_nonempty.simps [of t r "t @ s"])

lemma token_ok_hd: "token_ok t \<Longrightarrow> t \<noteq> [] \<and> hd t = CHR ''P''"
  by (auto simp: token_ok_def marker_def)

lemma replace_skip_all:
  assumes "token_ok t" and "CHR ''P'' \<notin> set b"
  shows "replace_nonempty t r (b @ s) = b @ replace_nonempty t r s"
  using assms(2)
proof (induction b)
  case (Cons c b)
  have "\<not> prefix t (c # b @ s)" using Cons.prems token_ok_hd [OF assms(1)] by (cases t) auto
  with Cons token_ok_hd [OF assms(1)] show ?case by (simp add: replace_skip)
qed simp

text \<open>The literal text a rendering starts with, up to the first token.\<close>

lemma literal_run:
  assumes "\<forall>t \<in> tokens_of ps. token_ok t"
  shows "\<exists>l rest rest'. render (\<lambda>t. t) ps = l @ rest \<and> render f ps = l @ rest' \<and> (rest = [] \<or> hd rest = CHR ''P'')"
  using assms
proof (induction ps)
  case (Cons p ps)
  show ?case
  proof (cases p)
    case (Lit s)
    with Cons obtain l rest rest' where "render (\<lambda>t. t) ps = l @ rest" "render f ps = l @ rest'"
      "rest = [] \<or> hd rest = CHR ''P''" by auto
    with Lit show ?thesis
      by (intro exI [of _ "s @ l"] exI [of _ rest] exI [of _ rest']) simp
  next
    case (Tok t)
    with Cons.prems token_ok_hd [of t] show ?thesis
      by (intro exI [of _ "[]"] exI [of _ "render (\<lambda>t. t) (p # ps)"] exI [of _ "render f (p # ps)"]) auto
  qed
qed auto

lemma no_marker_at_literal:
  assumes "\<forall>t \<in> tokens_of ps. token_ok t" and "\<not> sublist marker (render f (Lit (c # s) # ps))"
  shows "\<not> prefix marker (c # s @ render (\<lambda>t. t) ps)"
proof
  assume pre: "prefix marker (c # s @ render (\<lambda>t. t) ps)"
  obtain l rest rest' where l: "render (\<lambda>t. t) ps = l @ rest" "render f ps = l @ rest'" "rest = [] \<or> hd rest = CHR ''P''"
    using literal_run [OF assms(1), of f] by blast
  let ?run = "c # s @ l"
  have pre': "prefix marker (?run @ rest)" using pre l(1) by simp
  show False
  proof (cases "length marker \<le> length ?run")
    case True
    then have "prefix marker ?run" using pre' by (metis prefix_length_prefix prefixI)
    then obtain z where "?run = marker @ z" by (auto simp: prefix_def)
    then have "render f (Lit (c # s) # ps) = marker @ z @ rest'" using l(2) by simp
    with assms(2) show False by (metis append_Nil sublist_appendI)
  next
    case False
    then have "prefix ?run marker" using pre' by (metis nat_le_linear prefix_length_prefix prefixI)
    then obtain z where z: "marker = ?run @ z" by (auto simp: prefix_def)
    have "z \<noteq> []"
    proof
      assume "z = []"
      then have "length marker = length ?run" using z by simp
      with False show False by simp
    qed
    then obtain d z' where dz: "z = d # z'" by (cases z) auto
    have "prefix z rest" using pre' unfolding z by simp
    with dz l(3) have "d = CHR ''P''" by (cases rest) auto
    have "tl marker = s @ l @ d # z'" unfolding z dz by simp
    then have "CHR ''P'' \<in> set (tl marker)" using \<open>d = CHR ''P''\<close> by simp
    then show False by (simp add: marker_def)
  qed
qed

lemma replace_literal:
  assumes "token_ok t" and "\<forall>u \<in> tokens_of ps. token_ok u"
    and "\<not> sublist marker (render f (Lit s # ps))"
  shows "replace_nonempty t r (s @ render (\<lambda>t. t) ps) = s @ replace_nonempty t r (render (\<lambda>t. t) ps)"
  using assms(3)
proof (induction s)
  case (Cons c s)
  have "\<not> prefix t (c # s @ render (\<lambda>t. t) ps)"
    using no_marker_at_literal [OF assms(2) Cons.prems] assms(1)
    by (auto simp: token_ok_def dest: append_prefixD)
  moreover have "\<not> sublist marker (render f (Lit s # ps))"
    using Cons.prems by (metis append_Cons render_simps(2) sublist_Cons_right)
  ultimately show ?case using Cons.IH token_ok_hd [OF assms(1)] by (simp add: replace_skip)
qed simp

text \<open>Replacing one token of a rendering.\<close>

lemma replace_token:
  assumes "token_ok t" and "\<forall>u \<in> tokens_of ps. token_ok u" and "incomparable t (tokens_of ps)"
    and "\<not> sublist marker (render f ps)"
  shows "replace_nonempty t r (render (\<lambda>t. t) ps) = render (\<lambda>t. t) (map (substitute t r) ps)"
  using assms(2-)
proof (induction ps)
  case Nil
  then show ?case by (simp add: replace_nonempty.simps)
next
  case (Cons p ps)
  have ih: "replace_nonempty t r (render (\<lambda>t. t) ps) = render (\<lambda>t. t) (map (substitute t r) ps)"
  proof (rule Cons.IH)
    show "\<forall>u \<in> tokens_of ps. token_ok u" using Cons.prems(1) by (cases p) auto
    show "incomparable t (tokens_of ps)" using Cons.prems(2) by (cases p) (auto simp: incomparable_def)
    show "\<not> sublist marker (render f ps)"
      using Cons.prems(3) by (cases p) (auto simp: sublist_append_rightI sublist_append)
  qed
  show ?case
  proof (cases p)
    case (Lit s)
    have "\<forall>u \<in> tokens_of ps. token_ok u" using Cons.prems(1) Lit by simp
    then show ?thesis using replace_literal [OF assms(1) _ Cons.prems(3) [unfolded Lit]] ih by (simp add: Lit)
  next
    case (Tok u)
    show ?thesis
    proof (cases "u = t")
      case True
      with ih Tok token_ok_hd [OF assms(1)] show ?thesis by (simp add: replace_hit)
    next
      case False
      have u: "token_ok u" "\<not> prefix t u" "\<not> prefix u t"
        using Cons.prems(1,2) Tok False by (auto simp: incomparable_def)
      then obtain b where b: "u = CHR ''P'' # b" "CHR ''P'' \<notin> set b" by (auto simp: token_ok_def marker_def)
      have "\<not> prefix t (u @ render (\<lambda>t. t) ps)" using u(2,3) by (metis prefix_same_cases prefixI)
      then have "replace_nonempty t r (u @ render (\<lambda>t. t) ps) = u @ replace_nonempty t r (render (\<lambda>t. t) ps)"
        using replace_skip [of t "CHR ''P''" "b @ render (\<lambda>t. t) ps"] replace_skip_all [OF assms(1) b(2)] token_ok_hd [OF assms(1)]
        by (simp add: b(1))
      with ih Tok False show ?thesis by simp
    qed
  qed
qed

subsection \<open>All replacements\<close>

lemma substitute_tokens: "tokens_of (map (substitute t r) ps) = tokens_of ps - {t}"
proof (induction ps)
  case (Cons p ps)
  then show ?case by (cases p) auto
qed simp

lemma render_substitute: "f t = r \<Longrightarrow> render f (map (substitute t r) ps) = render f ps"
proof (induction ps)
  case (Cons p ps)
  then show ?case by (cases p) auto
qed simp

lemma render_no_tokens: "tokens_of ps = {} \<Longrightarrow> render f ps = render g ps"
proof (induction ps)
  case (Cons p ps)
  then show ?case by (cases p) auto
qed simp

definition prefix_free :: "pystr set \<Rightarrow> bool" where
  "prefix_free T \<longleftrightarrow> (\<forall>t \<in> T. \<forall>u \<in> T. t \<noteq> u \<longrightarrow> \<not> prefix t u)"

lemma prefix_freeD: "prefix_free T \<Longrightarrow> t \<in> T \<Longrightarrow> u \<in> T \<Longrightarrow> t \<noteq> u \<Longrightarrow> \<not> prefix t u"
  by (simp add: prefix_free_def)

lemma replace_ordered_restores:
  assumes "\<forall>(t, r) \<in> set pairs. r = f t" and "tokens_of ps \<subseteq> fst ` set pairs"
    and "\<forall>t \<in> fst ` set pairs. token_ok t" and "prefix_free (fst ` set pairs)"
    and "\<not> sublist marker (render f ps)"
  shows "replace_ordered (render (\<lambda>t. t) ps) pairs = render f ps"
proof -
  have "replace_ordered (render (\<lambda>t. t) ps) qs = render f ps"
    if "set qs \<subseteq> set pairs" "tokens_of ps \<subseteq> fst ` set qs" "\<not> sublist marker (render f ps)" for qs ps
    using that
  proof (induction qs arbitrary: ps)
    case Nil
    then show ?case by (simp add: replace_ordered_def render_no_tokens [of ps "\<lambda>t. t" f])
  next
    case (Cons q qs)
    obtain t r where q: "q = (t, r)" by (cases q)
    have r: "r = f t" using Cons.prems(1) assms(1) q by auto
    have T: "tokens_of ps \<subseteq> fst ` set pairs" using Cons.prems(1,2) by auto
    have t: "t \<in> fst ` set pairs" using Cons.prems(1) q by force
    have ok: "token_ok t" "\<forall>u \<in> tokens_of ps. token_ok u" using assms(3) t T by blast+
    have inc: "incomparable t (tokens_of ps)"
      unfolding incomparable_def
      using prefix_freeD [OF assms(4) t] prefix_freeD [OF assms(4) _ t] T by (metis subsetD)
    have step: "str_replace t r (render (\<lambda>t. t) ps) = render (\<lambda>t. t) (map (substitute t r) ps)"
      using replace_token [OF ok inc Cons.prems(3)] token_ok_hd [OF ok(1)] by (simp add: str_replace_def)
    have "replace_ordered (render (\<lambda>t. t) (map (substitute t r) ps)) qs = render f (map (substitute t r) ps)"
    proof (rule Cons.IH)
      show "set qs \<subseteq> set pairs" using Cons.prems(1) by simp
      show "tokens_of (map (substitute t r) ps) \<subseteq> fst ` set qs"
        using Cons.prems(2) q by (auto simp: substitute_tokens)
      show "\<not> sublist marker (render f (map (substitute t r) ps))"
        using Cons.prems(3) r by (simp add: render_substitute)
    qed
    then have "replace_ordered (render (\<lambda>t. t) (map (substitute t r) ps)) qs = render f ps"
      unfolding render_substitute [of f t r, OF r [symmetric]] .
    then show ?case unfolding q replace_ordered_def by (simp add: step)
  qed
  from this [OF subset_refl assms(2,5)] show ?thesis .
qed

subsection \<open>Reconstructing a response\<close>

lemma set_longest_first [simp]: "set (longest_first xs) = set xs"
  by (simp add: longest_first_def)

lemma map_filter_all: "\<forall>x \<in> set xs. g x = Some (f x) \<Longrightarrow> List.map_filter g xs = map f xs"
  by (induction xs) (simp_all add: List.map_filter_simps)

lemma reconstruct_restores:
  assumes "is_reconstruction_authorized repo ctx"
    and "scope_key (resolve_pseudonym_scope repo ctx) ctx = Some key"
    and "\<forall>t \<in> set (pseudonymized_tokens res).
           vo_reconstruct ops v (resolve_pseudonym_scope repo ctx) key t = Some (f t) \<and> token_ok t"
    and "prefix_free (set (pseudonymized_tokens res))"
    and "tokens_of ps \<subseteq> set (pseudonymized_tokens res)" and "\<not> sublist marker (render f ps)"
  shows "ro_text (reconstruct ops v repo (render (\<lambda>t. t) ps) res ctx) = render f ps"
proof -
  let ?toks = "longest_first (pseudonymized_tokens res)"
  have "List.map_filter (\<lambda>p. map_option (Pair p) (vo_reconstruct ops v (resolve_pseudonym_scope repo ctx) key p)) ?toks =
      map (\<lambda>t. (t, f t)) ?toks"
    using assms(3) by (intro map_filter_all) simp
  then have "ro_text (reconstruct ops v repo (render (\<lambda>t. t) ps) res ctx) =
      replace_ordered (render (\<lambda>t. t) ps) (map (\<lambda>t. (t, f t)) ?toks)"
    using assms(1,2) by (simp add: reconstruct_def Let_def)
  also have "\<dots> = render f ps"
    by (rule replace_ordered_restores) (use assms(3-6) in \<open>auto simp: image_image\<close>)
  finally show ?thesis .
qed

text \<open>An unauthorized or keyless context leaves the response as it is.\<close>

lemma reconstruct_unauthorized:
  "\<not> is_reconstruction_authorized repo ctx \<Longrightarrow>
     ro_text (reconstruct ops v repo response res ctx) = response \<and>
     \<not> ro_authorized (reconstruct ops v repo response res ctx)"
  by (simp add: reconstruct_def Let_def)

subsection \<open>The payload of an allowed result, as pieces\<close>

definition piece_of :: "transformation \<Rightarrow> piece" where
  "piece_of t =
     (case tr_transformed t of
        None \<Rightarrow> Lit ''''
      | Some p \<Rightarrow> if tr_action t = PSEUDONYMIZE then Tok p else Lit p)"

text \<open>What reconstruction should make of a span: the original for a pseudonym, else what was disclosed.\<close>

definition restored :: "transformation \<Rightarrow> pystr" where
  "restored t = (if tr_action t = PSEUDONYMIZE then tr_original t else the_default '''' (tr_transformed t))"

fun weave_pieces :: "pystr list \<Rightarrow> piece list \<Rightarrow> piece list" where
  "weave_pieces (g # gs) (p # ps) = Lit g # p # weave_pieces gs ps"
| "weave_pieces gs ps = map Lit gs"

lemma render_weave: "length gs = Suc (length ps) \<Longrightarrow> render f (weave_pieces gs ps) = weave gs (map (piece_text f) ps)"
proof (induction gs ps rule: weave_pieces.induct)
  case (1 g gs p ps)
  then show ?case by (cases p) auto
qed (auto simp: length_Suc_conv)

lemma tokens_weave: "tokens_of (weave_pieces gs ps) \<subseteq> {t. Tok t \<in> set ps}"
proof (induction gs ps rule: weave_pieces.induct)
  case (1 g gs p ps)
  then show ?case by (cases p) auto
qed (auto simp: tokens_of_def)

lemma length_gaps [simp]: "length (gaps text cursor sps) = Suc (length sps)"
  by (induction sps arbitrary: cursor) simp_all

lemma piece_of_text: "piece_text (\<lambda>t. t) (piece_of t) = the_default '''' (tr_transformed t)"
  by (simp add: piece_of_def split: option.splits)

lemma pseudonymized_tokens_iff:
  "p \<in> set (pseudonymized_tokens res) \<longleftrightarrow>
     (\<exists>t \<in> set (rs_transformations res). tr_action t = PSEUDONYMIZE \<and> tr_transformed t = Some p)"
proof -
  have "p \<in> set (List.map_filter g xs) \<longleftrightarrow> (\<exists>x \<in> set xs. g x = Some p)" for g :: "transformation \<Rightarrow> pystr option" and xs
    by (induction xs) (auto simp: List.map_filter_simps split: option.splits)
  then show ?thesis by (auto simp: pseudonymized_tokens_def)
qed

context vault_contract
begin

text \<open>
  The round trip: reconstructing the payload that a walk produced gives the text with its
  pseudonymized spans back in place.
\<close>

lemma walk_reconstruct:
  assumes "inv v" and "values_for vals 0 (decided f ordered)"
    and walk: "allowed_walk ops (resolve_pseudonym_scope repo ctx) key text vals 0 0 [] v (decided f ordered) = Inr w"
    and res: "rs_transformations res = wk_transformations w"
    and "is_reconstruction_authorized repo ctx"
    and "scope_key (resolve_pseudonym_scope repo ctx) ctx = Some key"
    and tok: "\<forall>t \<in> set (pseudonymized_tokens res). token_ok t" "prefix_free (set (pseudonymized_tokens res))"
    and clean: "\<not> sublist marker (weave (gaps text 0 ordered) (map restored (wk_transformations w)))"
  shows "ro_text (reconstruct ops (wk_vault w) repo (concat (wk_parts w)) res ctx) =
    weave (gaps text 0 ordered) (map restored (wk_transformations w))"
proof -
  let ?scope = "resolve_pseudonym_scope repo ctx"
  define original where "original p = the_default '''' (vo_reconstruct ops (wk_vault w) ?scope key p)" for p
  let ?ps = "weave_pieces (gaps text 0 ordered) (map piece_of (wk_transformations w))"
  note payload = walk_payload [OF assms(2) walk]
  note vault = walk_vault [OF assms(1) walk]
  have len: "length (gaps text 0 ordered) = Suc (length (map piece_of (wk_transformations w)))"
    using payload(4) by simp
  have original: "vo_reconstruct ops (wk_vault w) ?scope key p = Some (tr_original t)"
    if "t \<in> set (wk_transformations w)" "tr_action t = PSEUDONYMIZE" "tr_transformed t = Some p" for t p
    using vault that reconstruct_iff unfolding tokens_issued_def by (metis option.inject)
  have resolved: "\<forall>p \<in> set (pseudonymized_tokens res).
      vo_reconstruct ops (wk_vault w) ?scope key p = Some (original p) \<and> token_ok p"
    using original tok(1) by (auto simp: pseudonymized_tokens_iff res original_def)
  have issued: "tr_transformed t \<noteq> None" if "t \<in> set (wk_transformations w)" "tr_action t = PSEUDONYMIZE" for t
    using vault that by (auto simp: tokens_issued_def)
  have "piece_text original (piece_of t) = restored t" if "t \<in> set (wk_transformations w)" for t
    using original [OF that] issued [OF that] by (auto simp: piece_of_def restored_def original_def split: option.splits)
  then have "map (piece_text original) (map piece_of (wk_transformations w)) = map restored (wk_transformations w)"
    by simp
  with render_weave [OF len, of original]
  have render: "render original ?ps = weave (gaps text 0 ordered) (map restored (wk_transformations w))"
    by (simp only:)
  have quoted: "render (\<lambda>t. t) ?ps = concat (wk_parts w)"
    using render_weave [OF len, of "\<lambda>t. t"] payload(1) by (simp add: comp_def piece_of_text)
  have "p \<in> set (pseudonymized_tokens res)" if "Tok p = piece_of t" "t \<in> set (wk_transformations w)" for p t
    using that by (auto simp: pseudonymized_tokens_iff res piece_of_def split: option.splits if_splits)
  then have "{p. Tok p \<in> set (map piece_of (wk_transformations w))} \<subseteq> set (pseudonymized_tokens res)"
    by auto
  then have tokens: "tokens_of ?ps \<subseteq> set (pseudonymized_tokens res)"
    using tokens_weave [of "gaps text 0 ordered" "map piece_of (wk_transformations w)"] by blast
  show ?thesis
    using reconstruct_restores [OF assms(5,6) resolved tok(2) tokens] clean unfolding render quoted by simp
qed

end

text \<open>When every span is pseudonymized or preserved, what comes back is the text.\<close>

lemma restored_text:
  assumes "spans_are_valid ordered text" and "sorted_wrt (\<lambda>a b. hi a \<le> lo b) ordered"
    and "list_all2 describes (decided f ordered) ts" and "list_all2 becomes (decided f ordered) ts"
    and "\<forall>sp \<in> set ordered. ad_action (downgrade (f sp) sp) \<in> {PRESERVE, PSEUDONYMIZE}"
  shows "weave (gaps text 0 ordered) (map restored ts) = text"
proof -
  have "map restored ts = map sp_value ordered"
    using assms(3-5)
  proof (induction ordered arbitrary: ts)
    case (Cons sp sps)
    then obtain t ts' where "ts = t # ts'" "describes (sp, downgrade (f sp) sp) t" "becomes (sp, downgrade (f sp) sp) t"
      "list_all2 describes (decided f sps) ts'" "list_all2 becomes (decided f sps) ts'"
      by (auto simp: decided_def list_all2_Cons1)
    moreover from this Cons.prems(3) have "restored t = sp_value sp"
      by (auto simp: restored_def describes_def becomes_def)
    moreover have "map restored ts' = map sp_value sps"
      using Cons.IH [of ts'] calculation Cons.prems(3) by simp
    ultimately show ?case by simp
  qed (simp add: decided_def)
  moreover have "weave (gaps text 0 ordered) (map sp_value ordered) = drop 0 text"
    by (rule weave_values [OF assms(1,2)]) simp_all
  ultimately show ?thesis by simp
qed

end
