(* ===== verification/Treatments.thy ===== *)
theory Treatments
  imports Pipeline Reconstruction
begin

text \<open>
  What holds of the treatments that \<open>build_treatment\<close> constructs, whichever it is: B2, B3 and B4 are one frame at
  three deciders, so their outcomes, the layout of their payloads and their effect on the vault are shared; B1's
  payload has the same layout.
\<close>

subsection \<open>The three treatments that share the decision application\<close>

text \<open>Their \<open>sanitize\<close> is the shared frame at a decider that returns on every span of a request.\<close>

definition shares_frame :: "treatment \<Rightarrow> bool" where
  "shares_frame trt \<longleftrightarrow> trt = REVERSIBLE_PSEUDONYMIZATION \<or> trt = TASK_AWARE \<or> trt = POLICY_GOVERNED"

lemma shared_frame:
  assumes "shares_frame trt"
  obtains reasons dec f where
    "\<And>v. dt_sanitize (build_treatment ops repo analyzer trt) v request spans =
       sanitize_with ops v repo reasons dec request spans"
    "\<forall>ordered. resolve_overlaps spans = Inr ordered \<longrightarrow> (\<forall>sp \<in> set ordered. dec ordered sp = Inr (f ordered sp))"
proof -
  consider "trt = REVERSIBLE_PSEUDONYMIZATION" | "trt = TASK_AWARE" | "trt = POLICY_GOVERNED"
    using assms by (auto simp: shares_frame_def)
  then show thesis
  proof cases
    case 1
    then show thesis
      by (intro that [of REVERSIBLE_REASONS "\<lambda>_ sp. Inr (reversible_decide sp)" "\<lambda>_. reversible_decide"])
        (simp_all add: reversible_sanitize_with)
  next
    case 2
    then show thesis
      using task_aware_decider_total by (intro that) (auto simp: task_aware_sanitize_with)
  next
    case 3
    then show thesis
      using policy_governed_decider_total by (intro that) (auto simp: policy_governed_sanitize_with)
  qed
qed

lemma shared_reconstruct:
  "shares_frame trt \<Longrightarrow> dt_reconstruct (build_treatment ops repo analyzer trt) = Some rec \<Longrightarrow>
     rec v response res ctx = ro_text (reconstruct ops v repo response res ctx)"
  by (auto simp: shares_frame_def reversible_reconstruct_def task_aware_reconstruct_def policy_governed_reconstruct_def)

text \<open>What a transformation may show of its span.\<close>

definition shown_as :: "sensitive_span \<Rightarrow> transformation \<Rightarrow> bool" where
  "shown_as sp t \<longleftrightarrow> tr_category t = sp_category sp \<and> tr_original t = sp_value sp \<and>
     (case tr_action t of
        REMOVE \<Rightarrow> tr_transformed t = None
      | GENERALIZE \<Rightarrow> \<exists>g. tr_transformed t = Some g \<and> generalize (sp_category sp) (sp_value sp) = Inr g
      | PSEUDONYMIZE \<Rightarrow> tr_transformed t \<noteq> None
      | BLOCK_REQUEST \<Rightarrow> False
      | _ \<Rightarrow> tr_transformed t = Some (sp_value sp))"

lemma decided_shown:
  assumes "list_all2 describes (decided f ordered) ts" and "list_all2 becomes (decided f ordered) ts"
    and "\<not> some_block f ordered"
  shows "list_all2 shown_as ordered ts"
proof -
  have "shown_as sp t" if "describes (sp, downgrade (f sp) sp) t" "becomes (sp, downgrade (f sp) sp) t" "sp \<in> set ordered"
    for sp t
    using that assms(3)
    by (auto simp: shown_as_def describes_def becomes_def some_block_def list_ex_iff split: disclosure_action.splits)
  then show ?thesis using assms(1,2)
    by (auto simp: decided_def list_all2_conv_all_nth)
qed

lemma decided_described:
  assumes "list_all2 describes (decided f ordered) ts" and "sp \<in> set ordered"
  shows "\<exists>t \<in> set ts. describes (sp, downgrade (f sp) sp) t"
proof -
  have "(sp, downgrade (f sp) sp) \<in> set (decided f ordered)" using assms(2) by (auto simp: decided_def)
  with assms(1) show ?thesis by (induction rule: list_all2_induct) auto
qed

lemma built_layout:
  assumes "trt \<noteq> DIRECT" and "dt_sanitize (build_treatment ops repo analyzer trt) v request spans = Inr (res, v')"
    and "rs_status res = Allowed"
  obtains ordered where "spans_are_valid spans (rq_text request)" "resolve_overlaps spans = Inr ordered"
    "rs_external_payload res = weave (gaps (rq_text request) 0 ordered)
       (map (\<lambda>t. the_default '''' (tr_transformed t)) (rs_transformations res))"
    "list_all2 shown_as ordered (rs_transformations res)"
proof (cases "shares_frame trt")
  case True
  obtain reasons dec f where frame: "sanitize_with ops v repo reasons dec request spans = Inr (res, v')"
    and total: "\<forall>ordered. resolve_overlaps spans = Inr ordered \<longrightarrow> (\<forall>sp \<in> set ordered. dec ordered sp = Inr (f ordered sp))"
    by (rule shared_frame [OF True, of ops repo analyzer request spans]) (use assms(2) in auto)
  show thesis
  proof (cases rule: sanitize_with_outcomes [OF total frame])
    case (1 ds)
    with assms(3) show thesis by simp
  next
    case (2 ordered key vals w)
    with walk_payload [OF 2(5,6)] decided_shown [of "f ordered" ordered "wk_transformations w"] that [of ordered]
    show thesis by simp
  qed
next
  case False
  with assms(1) have trt: "trt = STATIC_SANITIZATION" by (cases trt) (auto simp: shares_frame_def)
  then have run: "static_sanitize request spans = Inr res"
    using assms(2) by (simp add: stateless_def split: sum.splits)
  show thesis
  proof (cases rule: static_sanitize_cases [of spans request])
    case (allowed ordered vals w)
    with walk_payload [OF allowed(4,5)] decided_shown [of static_decision ordered "wk_transformations w"] run that [of ordered]
    show thesis by auto
  qed (use run assms(3) in \<open>auto simp: blocked_results\<close>)
qed

lemma shared_outcomes:
  assumes "shares_frame trt" and "dt_sanitize (build_treatment ops repo analyzer trt) v request spans = Inr (res, v')"
  obtains (stopped) ds where "res = blocked_with ds" "v' = v"
  | (walked) f ordered key vals w where "spans_are_valid spans (rq_text request)" "resolve_overlaps spans = Inr ordered"
      "\<not> some_block f ordered" "scope_key (resolve_pseudonym_scope repo (rq_context request)) (rq_context request) = Some key"
      "values_for vals 0 (decided f ordered)"
      "allowed_walk ops (resolve_pseudonym_scope repo (rq_context request)) key (rq_text request) vals 0 0 [] v
         (decided f ordered) = Inr w" "v' = wk_vault w"
      "rs_external_payload res = concat (wk_parts w)" "rs_transformations res = wk_transformations w"
      "rs_status res = Allowed"
proof -
  obtain reasons dec f where frame: "sanitize_with ops v repo reasons dec request spans = Inr (res, v')"
    and total: "\<forall>ordered. resolve_overlaps spans = Inr ordered \<longrightarrow> (\<forall>sp \<in> set ordered. dec ordered sp = Inr (f ordered sp))"
    by (rule shared_frame [OF assms(1), of ops repo analyzer request spans]) (use assms(2) in auto)
  show thesis
  proof (cases rule: sanitize_with_outcomes [OF total frame])
    case (1 ds)
    then show thesis by (rule stopped)
  next
    case (2 ordered key vals w)
    then show thesis by (intro walked [of ordered "f ordered" key vals w]) simp_all
  qed
qed

end
