(* ===== verification/Encoding.thy ===== *)
theory Encoding
  imports Prelude
begin

text \<open>
  The encodings of the standard library that tokens and handles use: UTF-8, and URL-safe base64 as the helpers
  \<open>_b64\<close> and \<open>_unb64\<close> of \<open>application/preview_confirmation.py\<close> and \<open>application/restore_handle.py\<close> call it. Bytes
  are strings, a character per byte. \<open>a2b\<close> is the loop of \<open>binascii.a2b_base64\<close> in its default, lenient mode: characters
  outside the alphabet are skipped. The lemmas show that both encodings can be undone.
\<close>

subsection \<open>UTF-8\<close>

definition utf8_char :: "char \<Rightarrow> pystr" where
  "utf8_char c =
     (let n = of_char c :: nat in
      if n < 128 then [c] else [char_of (192 + n div 64), char_of (128 + n mod 64)])"

definition utf8 :: "pystr \<Rightarrow> pystr" where
  "utf8 s = concat (map utf8_char s)"

text \<open>A longer sequence stands for a code point that strings do not have here; it does not decode.\<close>

fun utf8_decode :: "pystr \<Rightarrow> pystr option" where
  "utf8_decode [] = Some []"
| "utf8_decode (b # bs) =
     (let n = of_char b :: nat in
      if n < 128 then map_option (Cons b) (utf8_decode bs)
      else if n = 194 \<or> n = 195 then
        (case bs of
           [] \<Rightarrow> None
         | b' # bs' \<Rightarrow>
             let m = of_char b' :: nat in
             if 128 \<le> m \<and> m < 192 then map_option (Cons (char_of (64 * (n - 192) + (m - 128)))) (utf8_decode bs')
             else None)
      else None)"

lemma of_char_less [simp]: "(of_char c :: nat) < 256"
  using of_char_mod_256 [of c] by (metis mod_less_divisor zero_less_numeral)

lemma utf8_decode_char: "utf8_decode (utf8_char c @ bs) = map_option (Cons c) (utf8_decode bs)"
proof -
  let ?n = "of_char c :: nat"
  show ?thesis
  proof (cases "?n < 128")
    case True
    then show ?thesis by (simp add: utf8_char_def)
  next
    case False
    have "2 \<le> ?n div 64" using False by (simp add: less_eq_div_iff_mult_less_eq)
    moreover have "?n div 64 < 4" using of_char_less [of c] by (simp add: div_less_iff_less_mult)
    ultimately have q: "?n div 64 = 2 \<or> ?n div 64 = 3" by linarith
    have m: "64 * (?n div 64) + ?n mod 64 = ?n" by simp
    have "(192 + ?n div 64) mod 256 = 192 + ?n div 64" "(128 + ?n mod 64) mod 256 = 128 + ?n mod 64"
      using q by auto
    with False q m show ?thesis by (auto simp: utf8_char_def Let_def)
  qed
qed

lemma utf8_decode_utf8 [simp]: "utf8_decode (utf8 s) = Some s"
  by (induction s) (simp_all add: utf8_def utf8_decode_char)

lemma utf8_inj [simp]: "utf8 s = utf8 t \<longleftrightarrow> s = t"
  by (metis option.inject utf8_decode_utf8)

lemma length_utf8: "length (utf8 s) = utf8_len s"
  by (induction s) (simp_all add: utf8_def utf8_len_def utf8_char_def Let_def)

lemma utf8_ascii: "list_all (\<lambda>c. (of_char c :: nat) < 128) s \<Longrightarrow> utf8 s = s"
  by (induction s) (simp_all add: utf8_def utf8_char_def)

subsection \<open>Base64\<close>

definition b64_char :: "nat \<Rightarrow> char" where
  "b64_char n =
     char_of (if n < 26 then 65 + n else if n < 52 then 71 + n else if n < 62 then n - 4 else if n = 62 then 45 else 95)"

text \<open>\<open>urlsafe_b64encode(raw).rstrip("=")\<close>\<close>

fun b64 :: "pystr \<Rightarrow> pystr" where
  "b64 [] = []"
| "b64 [x] = [b64_char (of_char x div 4), b64_char (of_char x mod 4 * 16)]"
| "b64 [x, y] =
     [b64_char (of_char x div 4), b64_char (of_char x mod 4 * 16 + of_char y div 16), b64_char (of_char y mod 16 * 4)]"
| "b64 (x # y # z # rest) =
     [b64_char (of_char x div 4), b64_char (of_char x mod 4 * 16 + of_char y div 16),
      b64_char (of_char y mod 16 * 4 + of_char z div 64), b64_char (of_char z mod 64)] @ b64 rest"

definition b64_value :: "char \<Rightarrow> nat option" where
  "b64_value c =
     (let n = of_char c :: nat in
      if 65 \<le> n \<and> n \<le> 90 then Some (n - 65)
      else if 97 \<le> n \<and> n \<le> 122 then Some (n - 71)
      else if 48 \<le> n \<and> n \<le> 57 then Some (n + 4)
      else if n = 43 \<or> n = 45 then Some 62
      else if n = 47 \<or> n = 95 then Some 63
      else None)"

text \<open>The position in the current group of four, the bits left over and the padding seen; \<open>None\<close> for \<open>binascii.Error\<close>.\<close>

fun a2b :: "nat \<Rightarrow> nat \<Rightarrow> nat \<Rightarrow> pystr \<Rightarrow> pystr option" where
  "a2b quad left pads [] = (if quad = 0 then Some [] else None)"
| "a2b quad left pads (c # cs) =
     (if c = CHR ''='' then
        (if 2 \<le> quad \<and> 4 \<le> quad + Suc pads then Some []
         else a2b quad left (if 2 \<le> quad then Suc pads else pads) cs)
      else
        (case b64_value c of
           None \<Rightarrow> a2b quad left pads cs
         | Some v \<Rightarrow>
             if quad = 0 then a2b 1 v 0 cs
             else if quad = 1 then map_option (Cons (char_of (left * 4 + v div 16))) (a2b 2 (v mod 16) 0 cs)
             else if quad = 2 then map_option (Cons (char_of (left * 16 + v div 4))) (a2b 3 (v mod 4) 0 cs)
             else map_option (Cons (char_of (left * 64 + v))) (a2b 0 0 0 cs)))"

definition padding_for :: "nat \<Rightarrow> pystr" where
  "padding_for n = replicate ((4 - n mod 4) mod 4) (CHR ''='')"

definition unb64 :: "pystr \<Rightarrow> pystr option" where
  "unb64 segment =
     (if list_ex (\<lambda>c. 128 \<le> (of_char c :: nat)) segment then None
      else a2b 0 0 0 (segment @ padding_for (length segment)))"

lemma b64_value_char: "n < 64 \<Longrightarrow> b64_value (b64_char n) = Some n \<and> b64_char n \<noteq> CHR ''=''"
proof -
  assume n: "n < 64"
  have "list_all (\<lambda>n. b64_value (b64_char n) = Some n \<and> b64_char n \<noteq> CHR ''='') [0..<64]" by code_simp
  with n show ?thesis by (simp add: list_all_iff)
qed

lemma b64_char_ascii: "n < 64 \<Longrightarrow> (of_char (b64_char n) :: nat) < 128"
proof -
  assume n: "n < 64"
  have "list_all (\<lambda>n. (of_char (b64_char n) :: nat) < 128) [0..<64]" by code_simp
  with n show ?thesis by (simp add: list_all_iff)
qed

lemma sextets:
  "(of_char x :: nat) div 4 < 64" "(of_char x :: nat) mod 4 * 16 < 64" "(of_char x :: nat) mod 16 * 4 < 64"
  "(of_char x :: nat) mod 4 * 16 + of_char y div 16 < 64" "(of_char x :: nat) mod 16 * 4 + of_char y div 64 < 64"
  "(of_char x :: nat) mod 64 < 64"
proof -
  have x: "(of_char x :: nat) < 256" and y: "(of_char y :: nat) < 256" by simp_all
  show "(of_char x :: nat) div 4 < 64" "(of_char x :: nat) mod 4 * 16 < 64" "(of_char x :: nat) mod 16 * 4 < 64"
    "(of_char x :: nat) mod 64 < 64" using x by linarith+
  have "(of_char y :: nat) div 16 < 16" "(of_char y :: nat) div 64 < 4" using y by linarith+
  then show "(of_char x :: nat) mod 4 * 16 + of_char y div 16 < 64" "(of_char x :: nat) mod 16 * 4 + of_char y div 64 < 64"
    by linarith+
qed

text \<open>One step of the loop on a character of the alphabet.\<close>

lemma a2b_char:
  "n < 64 \<Longrightarrow> a2b 0 left pads (b64_char n # cs) = a2b 1 n 0 cs"
  "n < 64 \<Longrightarrow> a2b (Suc 0) left pads (b64_char n # cs) = map_option (Cons (char_of (left * 4 + n div 16))) (a2b 2 (n mod 16) 0 cs)"
  "n < 64 \<Longrightarrow> a2b 2 left pads (b64_char n # cs) = map_option (Cons (char_of (left * 16 + n div 4))) (a2b 3 (n mod 4) 0 cs)"
  "n < 64 \<Longrightarrow> a2b 3 left pads (b64_char n # cs) = map_option (Cons (char_of (left * 64 + n))) (a2b 0 0 0 cs)"
  by (simp_all add: b64_value_char)

lemma replicate_small: "replicate (Suc 0) c = [c]" "replicate 2 c = [c, c]" "replicate 3 c = [c, c, c]"
  by (simp_all add: replicate_def eval_nat_numeral)

lemma padding_cases:
  "padding_for n = (if n mod 4 = 0 then '''' else if n mod 4 = 1 then ''==='' else if n mod 4 = 2 then ''=='' else ''='')"
proof -
  have "n mod 4 < 4" by simp
  then consider "n mod 4 = 0" | "n mod 4 = 1" | "n mod 4 = 2" | "n mod 4 = 3" by linarith
  then show ?thesis
    by cases (simp_all add: padding_for_def replicate_small)
qed

lemma padding_step [simp]: "padding_for (Suc (Suc (Suc (Suc n)))) = padding_for n"
proof -
  have "Suc (Suc (Suc (Suc n))) = n + 4" by simp
  then have "Suc (Suc (Suc (Suc n))) mod 4 = n mod 4" by (simp only: mod_add_self2)
  then show ?thesis by (simp add: padding_for_def)
qed

lemma a2b_pad: "a2b 2 left 0 ''=='' = Some []" "a2b 3 left 0 ''='' = Some []"
  by simp_all

lemma octets:
  fixes x y z :: nat
  shows "x div 4 * 4 + (x mod 4 * 16 + y div 16) div 16 = x + y div 16 div 16"
    and "x div 4 * 4 + x mod 4 * 16 div 16 = x"
    and "(x mod 4 * 16 + y div 16) mod 16 * 16 + (y mod 16 * 4 + z div 64) div 4 =
      (y div 16) mod 16 * 16 + (y mod 16 + z div 64 div 4)"
    and "(x mod 4 * 16 + y div 16) mod 16 * 16 + y mod 16 * 4 div 4 = (y div 16) mod 16 * 16 + y mod 16"
    and "(y mod 16 * 4 + z div 64) mod 4 * 64 + z mod 64 = (z div 64) mod 4 * 64 + z mod 64"
  by (simp_all add: mod_add_eq)

lemma octets_of_char:
  "(of_char y :: nat) div 16 div 16 = 0" "(of_char y :: nat) div 64 div 4 = 0"
  "(of_char y :: nat) div 16 mod 16 = of_char y div 16" "(of_char y :: nat) div 64 mod 4 = of_char y div 64"
  using of_char_less [of y] by (simp_all add: div_mult2_eq [symmetric] less_mult_imp_div_less)

lemma a2b_b64: "a2b 0 0 0 (b64 bs @ padding_for (length (b64 bs))) = Some bs"
proof (induction bs rule: b64.induct)
  case 1
  show ?case by (simp add: padding_cases)
next
  case (2 x)
  show ?case
    by (simp add: a2b_char sextets padding_cases a2b_pad octets octets_of_char del: a2b.simps)
next
  case (3 x y)
  show ?case
    by (simp add: a2b_char sextets padding_cases a2b_pad octets octets_of_char del: a2b.simps)
next
  case (4 x y z rest)
  then show ?case
    by (simp add: a2b_char sextets octets octets_of_char del: a2b.simps)
qed

definition in_alphabet :: "char \<Rightarrow> bool" where
  "in_alphabet c \<longleftrightarrow> (\<exists>n < 64. c = b64_char n)"

lemma in_alphabet_char: "n < 64 \<Longrightarrow> in_alphabet (b64_char n)"
  by (auto simp: in_alphabet_def)

lemma b64_alphabet: "list_all in_alphabet (b64 bs)"
  by (induction bs rule: b64.induct) (simp_all add: in_alphabet_char sextets)

lemma b64_chars: "c \<in> set (b64 bs) \<Longrightarrow> \<exists>n < 64. c = b64_char n"
  using b64_alphabet [of bs] by (auto simp: list_all_iff in_alphabet_def)

lemma b64_char_not_dot: "n < 64 \<Longrightarrow> b64_char n \<noteq> CHR ''.''"
proof -
  assume n: "n < 64"
  have "list_all (\<lambda>n. b64_char n \<noteq> CHR ''.'') [0..<64]" by code_simp
  with n show ?thesis by (simp add: list_all_iff)
qed

lemma b64_no_dot [simp]: "CHR ''.'' \<notin> set (b64 bs)"
  using b64_chars b64_char_not_dot by fastforce

lemma unb64_b64 [simp]: "unb64 (b64 bs) = Some bs"
proof -
  have "\<not> list_ex (\<lambda>c. 128 \<le> (of_char c :: nat)) (b64 bs)"
    using b64_chars b64_char_ascii by (fastforce simp: list_ex_iff)
  then show ?thesis by (simp add: unb64_def a2b_b64)
qed

lemma b64_Nil_iff [simp]: "b64 bs = [] \<longleftrightarrow> bs = []"
  by (cases bs rule: b64.cases) simp_all

end
