(* ===== verification/Ingestion.thy ===== *)
theory Ingestion
  imports Python_Text Encoding
begin

text \<open>
  Normalization of the caller's input (\<open>application/ingestion.py\<close>): direct text, UTF-8 text files and documents. A document
  is parsed by an adapter around a third-party converter: the parameter \<open>parser\<close> gives the text of a document under the
  safe name, or \<open>None\<close> when it raises; the parser itself is \<open>None\<close> when the converter is not installed. The blocks that the
  adapter derives from the converter's Markdown are structural metadata that no treatment reads; they are not kept in
  \<open>normalized_content\<close> and modelled in \<open>Markdown_Blocks\<close>.

  The lemmas bound what gets past the boundary: the text is not blank, is the submitted or decoded text unchanged, and keeps
  to the two limits.
\<close>

definition TEXT_FILE_MEDIA_TYPES :: "(pystr, pystr) dict" where
  "TEXT_FILE_MEDIA_TYPES = [(''.txt'', ''text/plain''), (''.md'', ''text/markdown'')]"

definition DOCUMENT_FILE_MEDIA_TYPES :: "(pystr, pystr) dict" where
  "DOCUMENT_FILE_MEDIA_TYPES =
     [(''.pdf'', ''application/pdf''),
      (''.docx'', ''application/vnd.openxmlformats-officedocument.wordprocessingml.document''),
      (''.xlsx'', ''application/vnd.openxmlformats-officedocument.spreadsheetml.sheet''),
      (''.png'', ''image/png''), (''.jpg'', ''image/jpeg''), (''.jpeg'', ''image/jpeg''), (''.tif'', ''image/tiff''),
      (''.tiff'', ''image/tiff''), (''.bmp'', ''image/bmp'')]"

definition MAX_INPUT_BYTES :: nat where
  "MAX_INPUT_BYTES = 10 * 1024 * 1024"

definition MAX_NORMALIZED_CHARACTERS :: nat where
  "MAX_NORMALIZED_CHARACTERS = 2000000"

datatype source_kind = Direct_Text | Text_File | Document_File

record normalized_content =
  nc_text :: pystr
  nc_source_kind :: source_kind
  nc_source_name :: "pystr option"
  nc_media_type :: pystr
  nc_character_count :: nat
  nc_byte_count :: nat
  nc_parser_name :: pystr
  nc_parser_version :: pystr
  nc_ingestion_version :: pystr

text \<open>Every rejection is an \<open>IngestionError\<close>; the constructors are the raise sites with what their messages name.\<close>

datatype ingestion_error =
    Empty_Direct_Text
  | Empty_Text_File pystr nat
  | Empty_Document pystr nat
  | Too_Many_Bytes pystr nat
  | Too_Many_Characters pystr nat
  | Not_UTF8 pystr nat
  | Unsupported_Extension pystr nat
  | Parser_Missing pystr nat
  | Not_Parsed pystr nat

record document_parser =
  dp_name :: pystr
  dp_version :: pystr
  dp_parse :: "pystr \<Rightarrow> pystr \<Rightarrow> pystr option"

text \<open>\<open>PurePosixPath(filename).suffix.lower()\<close>: from the last dot of the last component, if it is neither first nor last.\<close>

fun path_components :: "pystr \<Rightarrow> pystr \<Rightarrow> pystr list" where
  "path_components acc [] = [rev acc]"
| "path_components acc (c # cs) = (if c = CHR ''/'' then rev acc # path_components [] cs else path_components (c # acc) cs)"

definition path_name :: "pystr \<Rightarrow> pystr" where
  "path_name filename =
     (let parts = filter (\<lambda>p. p \<noteq> '''' \<and> p \<noteq> ''.'') (path_components [] filename)
      in if parts = [] then '''' else last parts)"

definition extension :: "pystr \<Rightarrow> pystr" where
  "extension filename =
     (let name = path_name filename;
          tail = takeWhile (\<lambda>c. c \<noteq> CHR ''.'') (rev name)
      in if tail = [] \<or> length name \<le> Suc (length tail) then ''''
         else str_lower (CHR ''.'' # rev tail))"

definition safe_parser_name :: "pystr \<Rightarrow> pystr" where
  "safe_parser_name ext = ''uploaded'' @ ext"

definition enforce_input_byte_limit :: "pystr \<Rightarrow> nat \<Rightarrow> ingestion_error option" where
  "enforce_input_byte_limit kind n = (if MAX_INPUT_BYTES < n then Some (Too_Many_Bytes kind n) else None)"

definition exceeds_normalized_character_limit :: "nat \<Rightarrow> bool" where
  "exceeds_normalized_character_limit n \<longleftrightarrow> MAX_NORMALIZED_CHARACTERS < n"

definition enforce_normalized_character_limit :: "pystr \<Rightarrow> nat \<Rightarrow> ingestion_error option" where
  "enforce_normalized_character_limit kind n =
     (if exceeds_normalized_character_limit n then Some (Too_Many_Characters kind n) else None)"

definition normalize_text :: "pystr \<Rightarrow> ingestion_error + normalized_content" where
  "normalize_text txt =
     (case enforce_normalized_character_limit ''direct text'' (length txt) of
        Some e \<Rightarrow> Inl e
      | None \<Rightarrow>
          if is_blank txt then Inl Empty_Direct_Text
          else
            (let encoded = utf8 txt in
             case enforce_input_byte_limit ''direct text'' (length encoded) of
               Some e \<Rightarrow> Inl e
             | None \<Rightarrow>
                 Inr \<lparr>nc_text = txt, nc_source_kind = Direct_Text, nc_source_name = None, nc_media_type = ''text/plain'',
                      nc_character_count = length txt, nc_byte_count = length encoded, nc_parser_name = ''direct_text'',
                      nc_parser_version = ''builtin'', nc_ingestion_version = ''direct-text-v1''\<rparr>))"

definition normalize_document_file ::
  "pystr \<Rightarrow> pystr \<Rightarrow> pystr \<Rightarrow> document_parser option \<Rightarrow> ingestion_error + normalized_content" where
  "normalize_document_file filename data ext parser =
     (case dict_get DOCUMENT_FILE_MEDIA_TYPES ext of
        None \<Rightarrow> Inl (Unsupported_Extension ext (length data))
      | Some media_type \<Rightarrow>
          (case parser of
             None \<Rightarrow> Inl (Parser_Missing ext (length data))
           | Some p \<Rightarrow>
               (case dp_parse p (safe_parser_name ext) data of
                  None \<Rightarrow> Inl (Not_Parsed ext (length data))
                | Some txt \<Rightarrow>
                    if is_blank txt then Inl (Empty_Document ext (length data))
                    else (case enforce_normalized_character_limit ''document file'' (length txt) of
                            Some e \<Rightarrow> Inl e
                          | None \<Rightarrow>
                              Inr \<lparr>nc_text = txt, nc_source_kind = Document_File, nc_source_name = Some filename,
                                   nc_media_type = media_type, nc_character_count = length txt, nc_byte_count = length data,
                                   nc_parser_name = dp_name p, nc_parser_version = dp_version p,
                                   nc_ingestion_version = ''docling-structured-markdown-v1''\<rparr>))))"

definition normalize_text_file ::
  "document_parser option \<Rightarrow> pystr \<Rightarrow> pystr \<Rightarrow> ingestion_error + normalized_content" where
  "normalize_text_file parser filename data =
     (let ext = extension filename in
      case enforce_input_byte_limit ''file'' (length data) of
        Some e \<Rightarrow> Inl e
      | None \<Rightarrow>
          (case dict_get TEXT_FILE_MEDIA_TYPES ext of
             None \<Rightarrow> normalize_document_file filename data ext parser
           | Some media_type \<Rightarrow>
               (case utf8_decode data of
                  None \<Rightarrow> Inl (Not_UTF8 ext (length data))
                | Some txt \<Rightarrow>
                    if is_blank txt then Inl (Empty_Text_File ext (length data))
                    else (case enforce_normalized_character_limit ''text file'' (length txt) of
                            Some e \<Rightarrow> Inl e
                          | None \<Rightarrow>
                              Inr \<lparr>nc_text = txt, nc_source_kind = Text_File, nc_source_name = Some filename,
                                   nc_media_type = media_type, nc_character_count = length txt, nc_byte_count = length data,
                                   nc_parser_name = ''utf8_text'', nc_parser_version = ''builtin'',
                                   nc_ingestion_version = ''utf8-text-file-v1''\<rparr>))))"

subsection \<open>What gets past the boundary\<close>

definition within_limits :: "normalized_content \<Rightarrow> bool" where
  "within_limits c \<longleftrightarrow>
     \<not> is_blank (nc_text c) \<and> length (nc_text c) \<le> MAX_NORMALIZED_CHARACTERS \<and> nc_byte_count c \<le> MAX_INPUT_BYTES \<and>
     nc_character_count c = length (nc_text c)"

lemmas limits_defs = enforce_normalized_character_limit_def exceeds_normalized_character_limit_def enforce_input_byte_limit_def

lemma normalize_text_Inr:
  assumes "normalize_text txt = Inr c"
  shows "within_limits c" and "nc_text c = txt" and "nc_byte_count c = utf8_len txt"
  using assms
  by (auto simp: normalize_text_def within_limits_def limits_defs Let_def length_utf8 split: if_splits option.splits)

lemma normalize_text_file_Inr:
  assumes "normalize_text_file parser filename data = Inr c"
  shows "within_limits c" and "nc_source_name c = Some filename" and "nc_byte_count c = length data"
    and "nc_source_kind c = Text_File \<Longrightarrow> utf8_decode data = Some (nc_text c)"
  using assms
  by (auto simp: normalize_text_file_def normalize_document_file_def within_limits_def limits_defs Let_def
      split: if_splits option.splits)

text \<open>A text survives being written to a text file and read back.\<close>

lemma text_file_roundtrip:
  assumes "\<not> is_blank txt" and "length txt \<le> MAX_NORMALIZED_CHARACTERS" and "extension filename = ''.txt''"
    and "utf8_len txt \<le> MAX_INPUT_BYTES"
  shows "\<exists>c. normalize_text_file parser filename (utf8 txt) = Inr c \<and> nc_text c = txt"
  using assms
  by (auto simp: normalize_text_file_def limits_defs Let_def length_utf8 TEXT_FILE_MEDIA_TYPES_def dict_get_def)

lemma extension_examples:
  "extension ''a/b.c/report.TXT'' = ''.txt''" "extension ''.txt'' = ''''" "extension ''x.'' = ''''" "extension ''dir.txt/'' = ''.txt''"
  by code_simp+

end
