(* ===== verification/Corpus.thy ===== *)
theory Corpus
  imports Treatments Python_Text
begin

text \<open>
  The evaluation corpora (\<open>corpus/models.py\<close>, \<open>corpus/oracle.py\<close>, \<open>corpus/case_input.py\<close>, \<open>corpus/loader.py\<close>).

  What the file system, the YAML loader and pydantic's reading of the fields by their declared types yield is a
  parameter: a file is unreadable, not YAML, not a mapping, or a mapping from keys to values, or reading it raises what the loader
  does not catch (it is not UTF-8, say), and two readers turn a value into the fields of an input or of an oracle. The constraints of the fields and the validators of the models
  are the definitions below. A key of a mapping is a text, a number or null.

  The lemmas show that a loaded corpus is coherent: every constraint that ties the two halves of a case and a case to its file and
  to its domain holds.
\<close>

subsection \<open>Vocabulary\<close>

definition FROZEN_HR_CATEGORIES :: "pystr list" where
  "FROZEN_HR_CATEGORIES = [''employee_name'', ''cpf'', ''salary'', ''department'', ''medical_data'']"

definition FROZEN_CONTRACTS_CATEGORIES :: "pystr list" where
  "FROZEN_CONTRACTS_CATEGORIES =
     [''party_name'', ''representative_name'', ''cnpj'', ''cpf'', ''bank_account'', ''contract_value'', ''penalty_amount'',
      ''deadline'']"

definition CORPUS_CATEGORIES :: "pystr list" where
  "CORPUS_CATEGORIES =
     [''employee_name'', ''cpf'', ''salary'', ''department'', ''medical_data'', ''party_name'', ''representative_name'',
      ''cnpj'', ''bank_account'', ''contract_value'', ''penalty_amount'', ''deadline'']"

definition CORPUS_SCHEMA_VERSION :: pystr where
  "CORPUS_SCHEMA_VERSION = ''corpus-case-schema-v3''"

definition NUMERIC_REFERENCE_CATEGORIES :: "pystr list" where
  "NUMERIC_REFERENCE_CATEGORIES = [''salary'', ''contract_value'', ''penalty_amount'']"

datatype reference_operator = GREATER_THAN | GREATER_THAN_OR_EQUAL | LESS_THAN | LESS_THAN_OR_EQUAL

datatype task_necessity = NECESSITY_REQUIRED | NECESSITY_NOT_REQUIRED

datatype task_family =
    AUTHORIZED_SALARY_ANALYSIS
  | TEAM_SUMMARY_WITHOUT_SALARY
  | DEPARTMENT_AGGREGATION_WITHOUT_IDENTITY
  | MEDICAL_OR_PROHIBITED_BLOCK

fun task_family_value :: "task_family \<Rightarrow> pystr" where
  "task_family_value AUTHORIZED_SALARY_ANALYSIS = ''authorized_salary_analysis''"
| "task_family_value TEAM_SUMMARY_WITHOUT_SALARY = ''team_summary_without_salary''"
| "task_family_value DEPARTMENT_AGGREGATION_WITHOUT_IDENTITY = ''department_aggregation_without_identity''"
| "task_family_value MEDICAL_OR_PROHIBITED_BLOCK = ''medical_or_prohibited_block''"

datatype contracts_task_family =
    CONTRACT_SUMMARY_WITHOUT_IDENTITY
  | CONTRACT_VALUE_AUDIT
  | PENALTY_COMPLIANCE_REVIEW
  | DEADLINE_TRACKING
  | PAYMENT_DETAILS_BLOCK
  | OBLIGATION_RELATION_PRESERVATION

fun contracts_task_family_value :: "contracts_task_family \<Rightarrow> pystr" where
  "contracts_task_family_value CONTRACT_SUMMARY_WITHOUT_IDENTITY = ''contract_summary_without_identity''"
| "contracts_task_family_value CONTRACT_VALUE_AUDIT = ''contract_value_audit''"
| "contracts_task_family_value PENALTY_COMPLIANCE_REVIEW = ''penalty_compliance_review''"
| "contracts_task_family_value DEADLINE_TRACKING = ''deadline_tracking''"
| "contracts_task_family_value PAYMENT_DETAILS_BLOCK = ''payment_details_block''"
| "contracts_task_family_value OBLIGATION_RELATION_PRESERVATION = ''obligation_relation_preservation''"

datatype corpus_task_family = Hr_Family task_family | Contracts_Family contracts_task_family

fun family_name :: "corpus_task_family \<Rightarrow> pystr" where
  "family_name (Hr_Family f) = task_family_value f"
| "family_name (Contracts_Family f) = contracts_task_family_value f"

definition FROZEN_CATEGORIES_BY_DOMAIN :: "(pystr, pystr list) dict" where
  "FROZEN_CATEGORIES_BY_DOMAIN = [(''hr'', FROZEN_HR_CATEGORIES), (''contracts'', FROZEN_CONTRACTS_CATEGORIES)]"

definition TASK_FAMILIES_BY_DOMAIN :: "(pystr, pystr list) dict" where
  "TASK_FAMILIES_BY_DOMAIN =
     [(''hr'', map task_family_value
         [AUTHORIZED_SALARY_ANALYSIS, TEAM_SUMMARY_WITHOUT_SALARY, DEPARTMENT_AGGREGATION_WITHOUT_IDENTITY,
          MEDICAL_OR_PROHIBITED_BLOCK]),
      (''contracts'', map contracts_task_family_value
         [CONTRACT_SUMMARY_WITHOUT_IDENTITY, CONTRACT_VALUE_AUDIT, PENALTY_COMPLIANCE_REVIEW, DEADLINE_TRACKING,
          PAYMENT_DETAILS_BLOCK, OBLIGATION_RELATION_PRESERVATION])]"

subsection \<open>Models\<close>

record numeric_utility_reference =
  nr_category :: pystr
  nr_operator :: reference_operator
  nr_value :: pystr

text \<open>\<open>_CANONICAL_DECIMAL_PATTERN\<close>: no leading zero, two decimals. The engine's \<open>$\<close> is the end of the text.\<close>

definition canonical_decimal :: "pystr \<Rightarrow> bool" where
  "canonical_decimal s \<longleftrightarrow>
     (let whole = takeWhile is_digit s; rest = dropWhile is_digit s in
      whole \<noteq> [] \<and> (whole = ''0'' \<or> hd whole \<noteq> CHR ''0'') \<and>
      length rest = 3 \<and> hd rest = CHR ''.'' \<and> list_all is_digit (tl rest))"

text \<open>\<open>Decimal(self.value)\<close> of such a text.\<close>

definition reference_amount :: "numeric_utility_reference \<Rightarrow> rat" where
  "reference_amount r =
     of_nat (int_of_digits (takeWhile is_digit (nr_value r) @ tl (dropWhile is_digit (nr_value r)))) / 100"

definition reference_ok :: "numeric_utility_reference \<Rightarrow> bool" where
  "reference_ok r \<longleftrightarrow>
     nr_category r \<in> set CORPUS_CATEGORIES \<and> canonical_decimal (nr_value r) \<and>
     nr_category r \<in> set NUMERIC_REFERENCE_CATEGORIES"

record expected_span =
  xs_category :: pystr
  xs_value :: pystr
  xs_start :: int
  xs_end :: int
  xs_task_necessity :: task_necessity
  xs_expected_actions :: "disclosure_action list"
  xs_helpful :: bool

definition expected_span_ok :: "expected_span \<Rightarrow> bool" where
  "expected_span_ok sp \<longleftrightarrow>
     xs_category sp \<in> set CORPUS_CATEGORIES \<and> xs_value sp \<noteq> [] \<and> 0 \<le> xs_start sp \<and>
     xs_expected_actions sp \<noteq> [] \<and> xs_start sp < xs_end sp"

record reconstruction_expectation =
  re_category :: pystr
  re_expected_reconstructable :: bool

definition reconstruction_expectation_ok :: "reconstruction_expectation \<Rightarrow> bool" where
  "reconstruction_expectation_ok e \<longleftrightarrow> re_category e \<in> set CORPUS_CATEGORIES"

record obligation_relation =
  or_obligor_role :: pystr
  or_obligee_role :: pystr
  or_obligation :: pystr
  or_depends_on_categories :: "pystr list"

definition obligation_relation_ok :: "obligation_relation \<Rightarrow> bool" where
  "obligation_relation_ok r \<longleftrightarrow>
     or_obligor_role r \<noteq> [] \<and> or_obligee_role r \<noteq> [] \<and> or_obligation r \<noteq> [] \<and>
     or_depends_on_categories r \<noteq> [] \<and> set (or_depends_on_categories r) \<subseteq> set CORPUS_CATEGORIES \<and>
     or_obligor_role r \<noteq> or_obligee_role r"

subsection \<open>The oracle\<close>

record case_oracle =
  oc_sample_id :: pystr
  oc_expected_spans :: "expected_span list"
  oc_expected_block_request :: bool
  oc_expected_answer :: "pystr option"
  oc_reconstruction :: "reconstruction_expectation list"
  oc_answer_depends_on_categories :: "pystr list option"
  oc_obligation_relations :: "obligation_relation list"
  oc_utility_references :: "numeric_utility_reference list option"

definition oracle_fields_ok :: "case_oracle \<Rightarrow> bool" where
  "oracle_fields_ok o' \<longleftrightarrow>
     oc_sample_id o' \<noteq> [] \<and> oc_expected_spans o' \<noteq> [] \<and> list_all expected_span_ok (oc_expected_spans o') \<and>
     list_all reconstruction_expectation_ok (oc_reconstruction o') \<and>
     set (the_default [] (oc_answer_depends_on_categories o')) \<subseteq> set CORPUS_CATEGORIES \<and>
     list_all obligation_relation_ok (oc_obligation_relations o') \<and>
     list_all reference_ok (the_default [] (oc_utility_references o'))"

text \<open>The loop of \<open>_check_utility_references\<close> over the triples seen.\<close>

fun references_distinct ::
  "pystr list \<Rightarrow> (pystr \<times> reference_operator \<times> pystr) list \<Rightarrow> numeric_utility_reference list \<Rightarrow> bool" where
  "references_distinct depends_on seen [] = True"
| "references_distinct depends_on seen (r # rs) =
     (nr_category r \<in> set depends_on \<and> (nr_category r, nr_operator r, nr_value r) \<notin> set seen \<and>
      references_distinct depends_on ((nr_category r, nr_operator r, nr_value r) # seen) rs)"

definition check_utility_references :: "case_oracle \<Rightarrow> bool" where
  "check_utility_references o' \<longleftrightarrow>
     (if oc_expected_block_request o' then the_default [] (oc_utility_references o') = []
      else (case oc_utility_references o' of
              None \<Rightarrow> True
            | Some references \<Rightarrow>
                references_distinct (the_default [] (oc_answer_depends_on_categories o')) [] references))"

definition check_block_consistency :: "case_oracle \<Rightarrow> bool" where
  "check_block_consistency o' \<longleftrightarrow>
     (if oc_expected_block_request o' then
        oc_expected_answer o' = None \<and> oc_reconstruction o' = [] \<and> oc_answer_depends_on_categories o' = None \<and>
        oc_obligation_relations o' = [] \<and>
        list_ex (\<lambda>sp. BLOCK_REQUEST \<in> set (xs_expected_actions sp)) (oc_expected_spans o')
      else oc_expected_answer o' \<noteq> None \<and> oc_answer_depends_on_categories o' \<noteq> None)"

definition oracle_ok :: "case_oracle \<Rightarrow> bool" where
  "oracle_ok o' \<longleftrightarrow> oracle_fields_ok o' \<and> check_utility_references o' \<and> check_block_consistency o'"

subsection \<open>The input\<close>

record corpus_case_input =
  ci_sample_id :: pystr
  ci_text :: pystr
  ci_task :: pystr
  ci_task_family :: corpus_task_family
  ci_domain :: pystr
  ci_purpose :: pystr
  ci_requester_role :: "pystr option"
  ci_requester_id :: "pystr option"
  ci_provider_class :: pystr
  ci_policy_version :: pystr
  ci_requested_pseudonym_scope :: pseudonym_scope
  ci_request_id :: "pystr option"
  ci_document_id :: "pystr option"
  ci_session_id :: "pystr option"

definition input_ok :: "corpus_case_input \<Rightarrow> bool" where
  "input_ok c \<longleftrightarrow> ci_sample_id c \<noteq> [] \<and> ci_domain c \<noteq> [] \<and> ci_purpose c \<noteq> [] \<and> ci_policy_version c \<noteq> []"

definition to_disclosure_request :: "corpus_case_input \<Rightarrow> disclosure_request" where
  "to_disclosure_request c =
     \<lparr>rq_text = ci_text c, rq_task = ci_task c,
      rq_context =
        \<lparr>ctx_domain = ci_domain c, ctx_purpose = ci_purpose c, ctx_requester_role = ci_requester_role c,
         ctx_requester_id = ci_requester_id c, ctx_provider_class = ci_provider_class c,
         ctx_policy_version = ci_policy_version c, ctx_requested_scope = ci_requested_pseudonym_scope c,
         ctx_request_id = ci_request_id c, ctx_document_id = ci_document_id c, ctx_session_id = ci_session_id c\<rparr>\<rparr>"

subsection \<open>Loading\<close>

record corpus_case =
  cc_input :: corpus_case_input
  cc_oracle :: case_oracle

datatype yaml_key = Key_Text pystr | Key_Number int | Key_Null

datatype 'y file_contents =
    Os_Error
  | Yaml_Error
  | Reading_Raises reading_error
  | Not_A_Mapping
  | Yaml_Mapping "(yaml_key \<times> 'y) list"

record 'y corpus_file =
  cf_stem :: pystr
  cf_contents :: "'y file_contents"

record 'y model_readers =
  mr_input :: "'y \<Rightarrow> corpus_case_input option"
  mr_oracle :: "'y \<Rightarrow> case_oracle option"

text \<open>
  What a failed load raises: a \<open>CorpusLoadError\<close> with what its message names, or the exception of the standard library that
  no handler of the loader catches.
\<close>

datatype corpus_load_error =
    Could_Not_Read
  | Invalid_Yaml
  | No_Mapping
  | Unknown_Top_Level_Keys "pystr list"
  | Missing_Top_Level_Keys "pystr list"
  | Input_Schema
  | Oracle_Schema
  | Sample_Ids_Differ
  | Domain_Not_Registered pystr
  | Family_Of_Another_Domain pystr pystr
  | Categories_Of_Another_Domain "pystr list"
  | File_Name_Differs pystr
  | Duplicate_Sample_Id pystr

datatype load_failure = Corpus_Load_Error corpus_load_error | Reading_Error reading_error | Type_Error

definition annotated_categories :: "case_oracle \<Rightarrow> (pystr \<times> pystr) list" where
  "annotated_categories o' =
     map (\<lambda>sp. (''oracle.expected_spans'', xs_category sp)) (oc_expected_spans o') @
     map (\<lambda>e. (''oracle.reconstruction'', re_category e)) (oc_reconstruction o') @
     map (\<lambda>c. (''oracle.answer_depends_on_categories'', c)) (the_default [] (oc_answer_depends_on_categories o')) @
     concat (map (\<lambda>r. map (\<lambda>c. (''oracle.obligation_relations'', c)) (or_depends_on_categories r))
       (oc_obligation_relations o')) @
     map (\<lambda>r. (''oracle.utility_references'', nr_category r)) (the_default [] (oc_utility_references o'))"

definition check_domain_consistency :: "corpus_case_input \<Rightarrow> case_oracle \<Rightarrow> load_failure option" where
  "check_domain_consistency c o' =
     (case (dict_get FROZEN_CATEGORIES_BY_DOMAIN (ci_domain c), dict_get TASK_FAMILIES_BY_DOMAIN (ci_domain c)) of
        (Some allowed_categories, Some allowed_families) \<Rightarrow>
          (let family = family_name (ci_task_family c) in
           if family \<notin> set allowed_families
           then Some (Corpus_Load_Error (Family_Of_Another_Domain family (ci_domain c)))
           else
             (let foreign = sort (remdups (map (\<lambda>(field, category). field @ '':'' @ category)
                (filter (\<lambda>(field, category). category \<notin> set allowed_categories) (annotated_categories o')))) in
              if foreign \<noteq> [] then Some (Corpus_Load_Error (Categories_Of_Another_Domain foreign)) else None))
      | _ \<Rightarrow> Some (Corpus_Load_Error (Domain_Not_Registered (ci_domain c))))"

definition TOP_LEVEL_KEYS :: "yaml_key list" where
  "TOP_LEVEL_KEYS = [Key_Text ''input'', Key_Text ''oracle'']"

text \<open>\<open>sorted\<close> of a set of keys, shown as texts; it raises when it has to compare keys of different kinds.\<close>

definition key_text :: "yaml_key \<Rightarrow> pystr" where
  "key_text k = (case k of Key_Text s \<Rightarrow> s | Key_Number n \<Rightarrow> (if n < 0 then ''-'' else []) @ str_nat (nat \<bar>n\<bar>) | Key_Null \<Rightarrow> ''None'')"

definition sorted_keys :: "yaml_key list \<Rightarrow> pystr list option" where
  "sorted_keys ks =
     (if list_all (\<lambda>k. case k of Key_Text _ \<Rightarrow> True | _ \<Rightarrow> False) ks then Some (sort (map key_text ks))
      else if list_all (\<lambda>k. case k of Key_Number _ \<Rightarrow> True | _ \<Rightarrow> False) ks
        then Some (map key_text (map Key_Number (sort (map (\<lambda>k. case k of Key_Number n \<Rightarrow> n | _ \<Rightarrow> 0) ks))))
      else if length ks = 1 then Some (map key_text ks)
      else None)"

definition load_case :: "'y model_readers \<Rightarrow> 'y corpus_file \<Rightarrow> load_failure + corpus_case" where
  "load_case readers file =
     (case cf_contents file of
        Os_Error \<Rightarrow> Inl (Corpus_Load_Error Could_Not_Read)
      | Reading_Raises e \<Rightarrow> Inl (Reading_Error e)
      | Yaml_Error \<Rightarrow> Inl (Corpus_Load_Error Invalid_Yaml)
      | Not_A_Mapping \<Rightarrow> Inl (Corpus_Load_Error No_Mapping)
      | Yaml_Mapping raw \<Rightarrow>
          (case sorted_keys (remdups (filter (\<lambda>k. k \<notin> set TOP_LEVEL_KEYS) (map fst raw))) of
             None \<Rightarrow> Inl Type_Error
           | Some (unknown # others) \<Rightarrow> Inl (Corpus_Load_Error (Unknown_Top_Level_Keys (unknown # others)))
           | Some [] \<Rightarrow>
               (case (map_of raw (Key_Text ''input''), map_of raw (Key_Text ''oracle'')) of
                  (Some raw_input, Some raw_oracle) \<Rightarrow>
                    (case mr_input readers raw_input of
                       None \<Rightarrow> Inl (Corpus_Load_Error Input_Schema)
                     | Some c \<Rightarrow>
                         if \<not> input_ok c then Inl (Corpus_Load_Error Input_Schema)
                         else (case mr_oracle readers raw_oracle of
                                 None \<Rightarrow> Inl (Corpus_Load_Error Oracle_Schema)
                               | Some o' \<Rightarrow>
                                   if \<not> oracle_ok o' then Inl (Corpus_Load_Error Oracle_Schema)
                                   else if ci_sample_id c \<noteq> oc_sample_id o' then Inl (Corpus_Load_Error Sample_Ids_Differ)
                                   else (case check_domain_consistency c o' of
                                           Some failure \<Rightarrow> Inl failure
                                         | None \<Rightarrow>
                                             if cf_stem file \<noteq> ci_sample_id c
                                             then Inl (Corpus_Load_Error (File_Name_Differs (ci_sample_id c)))
                                             else Inr \<lparr>cc_input = c, cc_oracle = o'\<rparr>)))
                | _ \<Rightarrow>
                    Inl (Corpus_Load_Error (Missing_Top_Level_Keys
                      (map key_text (filter (\<lambda>k. k \<notin> set (map fst raw)) TOP_LEVEL_KEYS)))))))"

text \<open>The loop over the files in the order of their names.\<close>

fun load_files ::
  "'y model_readers \<Rightarrow> pystr list \<Rightarrow> 'y corpus_file list \<Rightarrow> load_failure + corpus_case list" where
  "load_files readers seen [] = Inr []"
| "load_files readers seen (file # files) =
     (case load_case readers file of
        Inl failure \<Rightarrow> Inl failure
      | Inr c \<Rightarrow>
          if ci_sample_id (cc_input c) \<in> set seen
          then Inl (Corpus_Load_Error (Duplicate_Sample_Id (ci_sample_id (cc_input c))))
          else (case load_files readers (ci_sample_id (cc_input c) # seen) files of
                  Inl failure \<Rightarrow> Inl failure
                | Inr cs \<Rightarrow> Inr (c # cs)))"

definition load_corpus :: "'y model_readers \<Rightarrow> 'y corpus_file list \<Rightarrow> load_failure + corpus_case list" where
  "load_corpus readers files = load_files readers [] (sort_key (\<lambda>file. cf_stem file @ ''.yaml'') files)"

subsection \<open>Facts\<close>

text \<open>What a case that loads satisfies beyond its models.\<close>

definition coherent_case :: "corpus_case \<Rightarrow> bool" where
  "coherent_case c \<longleftrightarrow>
     input_ok (cc_input c) \<and> oracle_ok (cc_oracle c) \<and>
     oc_sample_id (cc_oracle c) = ci_sample_id (cc_input c) \<and>
     (\<exists>allowed families. dict_get FROZEN_CATEGORIES_BY_DOMAIN (ci_domain (cc_input c)) = Some allowed \<and>
        dict_get TASK_FAMILIES_BY_DOMAIN (ci_domain (cc_input c)) = Some families \<and>
        family_name (ci_task_family (cc_input c)) \<in> set families \<and>
        snd ` set (annotated_categories (cc_oracle c)) \<subseteq> set allowed)"

lemma consistent_domain:
  assumes "check_domain_consistency c o' = None"
  obtains allowed families where "dict_get FROZEN_CATEGORIES_BY_DOMAIN (ci_domain c) = Some allowed"
    and "dict_get TASK_FAMILIES_BY_DOMAIN (ci_domain c) = Some families"
    and "family_name (ci_task_family c) \<in> set families"
    and "snd ` set (annotated_categories o') \<subseteq> set allowed"
proof -
  obtain allowed families where a: "dict_get FROZEN_CATEGORIES_BY_DOMAIN (ci_domain c) = Some allowed"
    "dict_get TASK_FAMILIES_BY_DOMAIN (ci_domain c) = Some families"
    using assms by (auto simp: check_domain_consistency_def split: option.splits)
  have f: "family_name (ci_task_family c) \<in> set families"
    using assms a by (auto simp: check_domain_consistency_def Let_def split: if_splits)
  have none: "remdups (map (\<lambda>(field, category). field @ '':'' @ category)
      (filter (\<lambda>(field, category). category \<notin> set allowed) (annotated_categories o'))) = []"
  proof (rule ccontr)
    assume "\<not> ?thesis"
    then have "set (sort (remdups (map (\<lambda>(field, category). field @ '':'' @ category)
      (filter (\<lambda>(field, category). category \<notin> set allowed) (annotated_categories o'))))) \<noteq> {}"
      by (simp only: set_sort set_remdups set_empty) simp
    then have "sort (remdups (map (\<lambda>(field, category). field @ '':'' @ category)
      (filter (\<lambda>(field, category). category \<notin> set allowed) (annotated_categories o')))) \<noteq> []" by (metis set_empty)
    with assms a f show False by (simp add: check_domain_consistency_def Let_def)
  qed
  have "snd ` set (annotated_categories o') \<subseteq> set allowed"
    using none by (auto simp: filter_empty_conv)
  with a f show thesis by (rule that)
qed

lemma load_caseE:
  assumes "load_case readers file = Inr c"
  shows "coherent_case c \<and> cf_stem file = ci_sample_id (cc_input c)"
proof -
  obtain raw i o' where l: "cf_contents file = Yaml_Mapping raw" "input_ok i" "oracle_ok o'"
      "ci_sample_id i = oc_sample_id o'" "check_domain_consistency i o' = None" "cf_stem file = ci_sample_id i"
      "c = \<lparr>cc_input = i, cc_oracle = o'\<rparr>"
    using assms by (auto simp: load_case_def split: file_contents.splits option.splits list.splits if_splits)
  show ?thesis
    by (rule consistent_domain [OF l(5)]) (use l in \<open>auto simp: coherent_case_def\<close>)
qed

lemma load_files_cases:
  assumes "load_files readers seen files = Inr cases"
  shows "list_all2 (\<lambda>file c. load_case readers file = Inr c) files cases \<and>
    distinct (map (\<lambda>c. ci_sample_id (cc_input c)) cases) \<and>
    (\<forall>c \<in> set cases. ci_sample_id (cc_input c) \<notin> set seen)"
  using assms
proof (induction files arbitrary: seen cases)
  case (Cons f fs)
  then show ?case by (fastforce split: sum.splits if_splits)
qed simp


text \<open>What the constraints on an oracle mean.\<close>

lemma references_distinct_iff:
  "references_distinct deps seen rs \<longleftrightarrow>
     (\<forall>r \<in> set rs. nr_category r \<in> set deps \<and> (nr_category r, nr_operator r, nr_value r) \<notin> set seen) \<and>
     distinct (map (\<lambda>r. (nr_category r, nr_operator r, nr_value r)) rs)"
  by (induction rs arbitrary: seen) (auto simp: image_iff)

lemma canonical_decimal_amount_nonneg: "0 \<le> reference_amount r"
  by (simp add: reference_amount_def)

subsection \<open>Properties\<close>

text \<open>
  C36: a corpus that loads is coherent, or nothing loads. The cases are those of all files in the order of their names, each
  named by its file, and no two have the same name. In each case both halves pass their validators and have the same name;
  every annotated category and the task family belong to the registered domain of the input; a case that must be blocked has
  a span that may be blocked and nothing that only an answer could have, every other case has an answer with the
  categories it depends on; and every numeric reference is of a category that the answer depends on, without repetition.
\<close>

theorem loaded_corpora_are_coherent:
  assumes "load_corpus readers files = Inr cases"
  shows "map (\<lambda>c. ci_sample_id (cc_input c)) cases = map cf_stem (sort_key (\<lambda>file. cf_stem file @ ''.yaml'') files) \<and>
    distinct (map (\<lambda>c. ci_sample_id (cc_input c)) cases) \<and>
    (\<forall>c \<in> set cases. \<exists>allowed families.
       input_ok (cc_input c) \<and> oracle_ok (cc_oracle c) \<and> oc_sample_id (cc_oracle c) = ci_sample_id (cc_input c) \<and>
       dict_get FROZEN_CATEGORIES_BY_DOMAIN (ci_domain (cc_input c)) = Some allowed \<and>
       dict_get TASK_FAMILIES_BY_DOMAIN (ci_domain (cc_input c)) = Some families \<and>
       family_name (ci_task_family (cc_input c)) \<in> set families \<and>
       snd ` set (annotated_categories (cc_oracle c)) \<subseteq> set allowed \<and>
       (if oc_expected_block_request (cc_oracle c)
        then oc_expected_answer (cc_oracle c) = None \<and> oc_reconstruction (cc_oracle c) = [] \<and>
          (\<exists>sp \<in> set (oc_expected_spans (cc_oracle c)). BLOCK_REQUEST \<in> set (xs_expected_actions sp))
        else \<exists>answer deps. oc_expected_answer (cc_oracle c) = Some answer \<and>
          oc_answer_depends_on_categories (cc_oracle c) = Some deps \<and>
          (\<forall>rs. oc_utility_references (cc_oracle c) = Some rs \<longrightarrow> (\<forall>r \<in> set rs. nr_category r \<in> set deps) \<and>
             distinct (map (\<lambda>r. (nr_category r, nr_operator r, nr_value r)) rs))))"
proof -
  note l = load_files_cases [OF assms [unfolded load_corpus_def]]
  have names: "map (\<lambda>c. ci_sample_id (cc_input c)) cases = map cf_stem (sort_key (\<lambda>file. cf_stem file @ ''.yaml'') files)"
    using conjunct1 [OF l] by (induction rule: list_all2_induct) (auto dest: load_caseE)
  have each: "coherent_case c" if "c \<in> set cases" for c
    using conjunct1 [OF l] that by (auto simp: list_all2_conv_all_nth in_set_conv_nth dest: load_caseE)
  show ?thesis
  proof (intro conjI ballI)
    fix c
    assume "c \<in> set cases"
    then have c: "coherent_case c" by (rule each)
    then have "oracle_ok (cc_oracle c)" by (simp add: coherent_case_def)
    with c show "\<exists>allowed families.
       input_ok (cc_input c) \<and> oracle_ok (cc_oracle c) \<and> oc_sample_id (cc_oracle c) = ci_sample_id (cc_input c) \<and>
       dict_get FROZEN_CATEGORIES_BY_DOMAIN (ci_domain (cc_input c)) = Some allowed \<and>
       dict_get TASK_FAMILIES_BY_DOMAIN (ci_domain (cc_input c)) = Some families \<and>
       family_name (ci_task_family (cc_input c)) \<in> set families \<and>
       snd ` set (annotated_categories (cc_oracle c)) \<subseteq> set allowed \<and>
       (if oc_expected_block_request (cc_oracle c)
        then oc_expected_answer (cc_oracle c) = None \<and> oc_reconstruction (cc_oracle c) = [] \<and>
          (\<exists>sp \<in> set (oc_expected_spans (cc_oracle c)). BLOCK_REQUEST \<in> set (xs_expected_actions sp))
        else \<exists>answer deps. oc_expected_answer (cc_oracle c) = Some answer \<and>
          oc_answer_depends_on_categories (cc_oracle c) = Some deps \<and>
          (\<forall>rs. oc_utility_references (cc_oracle c) = Some rs \<longrightarrow> (\<forall>r \<in> set rs. nr_category r \<in> set deps) \<and>
             distinct (map (\<lambda>r. (nr_category r, nr_operator r, nr_value r)) rs)))"
      by (auto simp: coherent_case_def oracle_ok_def check_block_consistency_def check_utility_references_def
          references_distinct_iff list_ex_iff split: option.splits)
  qed (use names l in auto)
qed

definition sample_input :: corpus_case_input where
  "sample_input =
     \<lparr>ci_sample_id = ''hr_1'', ci_text = ''CPF: 1'', ci_task = ''sum up'', ci_task_family = Hr_Family TEAM_SUMMARY_WITHOUT_SALARY,
      ci_domain = ''hr'', ci_purpose = ''payroll'', ci_requester_role = None, ci_requester_id = None,
      ci_provider_class = ''fake'', ci_policy_version = ''v1'', ci_requested_pseudonym_scope = REQUEST,
      ci_request_id = Some ''r1'', ci_document_id = None, ci_session_id = None\<rparr>"

definition sample_oracle :: case_oracle where
  "sample_oracle =
     \<lparr>oc_sample_id = ''hr_1'',
      oc_expected_spans =
        [\<lparr>xs_category = ''cpf'', xs_value = ''1'', xs_start = 5, xs_end = 6, xs_task_necessity = NECESSITY_NOT_REQUIRED,
          xs_expected_actions = [PSEUDONYMIZE, REMOVE], xs_helpful = False\<rparr>],
      oc_expected_block_request = False, oc_expected_answer = Some ''ok'', oc_reconstruction = [],
      oc_answer_depends_on_categories = Some [], oc_obligation_relations = [], oc_utility_references = Some []\<rparr>"

definition sample_readers :: "nat model_readers" where
  "sample_readers = \<lparr>mr_input = (\<lambda>y. Some sample_input), mr_oracle = (\<lambda>y. Some sample_oracle)\<rparr>"

definition sample_file :: "nat corpus_file" where
  "sample_file = \<lparr>cf_stem = ''hr_1'', cf_contents = Yaml_Mapping [(Key_Text ''oracle'', 0), (Key_Text ''input'', 1)]\<rparr>"

theorem loaded_corpora_are_coherent_witness:
  "\<exists>cases. load_corpus sample_readers [sample_file] = Inr cases \<and>
     map (\<lambda>c. ci_sample_id (cc_input c)) cases = [''hr_1'']"
proof -
  have "case load_corpus sample_readers [sample_file] of Inl _ \<Rightarrow> False | Inr cases \<Rightarrow> True" by code_simp
  then obtain cases where c: "load_corpus sample_readers [sample_file] = Inr cases" by (auto split: sum.splits)
  from loaded_corpora_are_coherent [OF c] c show ?thesis by (simp add: sample_file_def)
qed

text \<open>
  a case file that is not UTF-8, or that has unknown keys of different kinds, does not make the loader raise its own
  error.
\<close>

theorem loader_lets_other_errors_through:
  "load_corpus readers [\<lparr>cf_stem = name, cf_contents = Reading_Raises Unicode_Decode_Error\<rparr>] =
     Inl (Reading_Error Unicode_Decode_Error) \<and>
   load_corpus readers [\<lparr>cf_stem = name, cf_contents = Yaml_Mapping [(Key_Number 1, y), (Key_Text ''notes'', y)]\<rparr>] = Inl Type_Error"
  by (simp add: load_corpus_def load_case_def sorted_keys_def TOP_LEVEL_KEYS_def)

end
