(* ===== verification/Application_Contracts.thy ===== *)
theory Application_Contracts
  imports Treatments Ingestion Corpus
begin

text \<open>
  The data of the application layer (\<open>application/contracts.py\<close>), the server-side governance presets
  (\<open>application/presets.py\<close>), the layering of governance overrides (\<open>application/requests.py\<close> and
  \<open>_merge_overrides\<close> of \<open>application/service.py\<close>) and the disclosure summary (\<open>application/summaries.py\<close>).

  The lemmas show that a caller of the document surface can only select a listed purpose, and that the summary of every
  decision of the pipeline can be built and says what crosses the boundary.
\<close>

subsection \<open>Strategies\<close>

datatype disclosure_strategy = RECOMMENDED | S_B0 | S_B1 | S_B2 | S_B3 | S_B4

fun strategy_value :: "disclosure_strategy \<Rightarrow> pystr" where
  "strategy_value RECOMMENDED = ''recommended''"
| "strategy_value S_B0 = ''b0''"
| "strategy_value S_B1 = ''b1''"
| "strategy_value S_B2 = ''b2''"
| "strategy_value S_B3 = ''b3''"
| "strategy_value S_B4 = ''b4''"

fun resolve_treatment :: "disclosure_strategy \<Rightarrow> treatment" where
  "resolve_treatment S_B0 = DIRECT"
| "resolve_treatment S_B1 = STATIC_SANITIZATION"
| "resolve_treatment S_B2 = REVERSIBLE_PSEUDONYMIZATION"
| "resolve_treatment S_B3 = TASK_AWARE"
| "resolve_treatment S_B4 = POLICY_GOVERNED"
| "resolve_treatment RECOMMENDED = POLICY_GOVERNED"

definition CANONICAL_COMPARISON_ORDER :: "disclosure_strategy list" where
  "CANONICAL_COMPARISON_ORDER = [S_B0, S_B1, S_B2, S_B3, S_B4]"

record strategy_option =
  so_strategy :: disclosure_strategy
  so_treatment :: treatment
  so_recommended :: bool

definition list_strategy_options :: "strategy_option list" where
  "list_strategy_options =
     map (\<lambda>s. \<lparr>so_strategy = s, so_treatment = resolve_treatment s, so_recommended = (s = RECOMMENDED)\<rparr>)
       [RECOMMENDED, S_B0, S_B1, S_B2, S_B3, S_B4]"

subsection \<open>Requests\<close>

record governance_overrides =
  go_purpose :: "pystr option"
  go_requester_role :: "pystr option"
  go_requester_id :: "pystr option"
  go_provider_class :: "pystr option"
  go_policy_version :: "pystr option"
  go_requested_scope :: "pseudonym_scope option"
  go_session_id :: "pystr option"
  go_document_id :: "pystr option"
  go_request_id :: "pystr option"
  go_domain :: "pystr option"

definition no_overrides :: governance_overrides where
  "no_overrides =
     \<lparr>go_purpose = None, go_requester_role = None, go_requester_id = None, go_provider_class = None,
      go_policy_version = None, go_requested_scope = None, go_session_id = None, go_document_id = None,
      go_request_id = None, go_domain = None\<rparr>"

text \<open>A field that is \<open>None\<close> keeps the default; one that is set replaces it.\<close>

definition or_keep :: "'a option \<Rightarrow> 'a option \<Rightarrow> 'a option" where
  "or_keep new old = (case new of None \<Rightarrow> old | Some x \<Rightarrow> Some x)"

definition merge_overrides :: "governance_context \<Rightarrow> governance_overrides \<Rightarrow> governance_context" where
  "merge_overrides ctx o' =
     \<lparr>ctx_domain = the_default (ctx_domain ctx) (go_domain o'),
      ctx_purpose = the_default (ctx_purpose ctx) (go_purpose o'),
      ctx_requester_role = or_keep (go_requester_role o') (ctx_requester_role ctx),
      ctx_requester_id = or_keep (go_requester_id o') (ctx_requester_id ctx),
      ctx_provider_class = the_default (ctx_provider_class ctx) (go_provider_class o'),
      ctx_policy_version = the_default (ctx_policy_version ctx) (go_policy_version o'),
      ctx_requested_scope = the_default (ctx_requested_scope ctx) (go_requested_scope o'),
      ctx_request_id = or_keep (go_request_id o') (ctx_request_id ctx),
      ctx_document_id = or_keep (go_document_id o') (ctx_document_id ctx),
      ctx_session_id = or_keep (go_session_id o') (ctx_session_id ctx)\<rparr>"

record document_request_descriptor =
  dr_document_type :: pystr
  dr_analysis_mode :: pystr

record application_request =
  ap_content :: normalized_content
  ap_task :: pystr
  ap_strategy :: disclosure_strategy
  ap_governance :: governance_overrides
  ap_document :: "document_request_descriptor option"

definition apply_example_governance_defaults :: "corpus_case_input \<Rightarrow> governance_overrides \<Rightarrow> governance_overrides" where
  "apply_example_governance_defaults example o' =
     o'\<lparr>go_domain := or_keep (go_domain o') (Some (ci_domain example)),
        go_purpose := or_keep (go_purpose o') (Some (ci_purpose example)),
        go_policy_version := or_keep (go_policy_version o') (Some (ci_policy_version example)),
        go_requester_role := or_keep (go_requester_role o') (ci_requester_role example),
        go_requested_scope := or_keep (go_requested_scope o') (Some (ci_requested_pseudonym_scope example))\<rparr>"

record safe_governance =
  sv_domain :: pystr
  sv_purpose :: pystr
  sv_policy_version :: pystr
  sv_provider_class :: pystr
  sv_requester_role :: "pystr option"
  sv_requested_scope :: pseudonym_scope

definition safe_governance_view :: "governance_context \<Rightarrow> safe_governance" where
  "safe_governance_view ctx =
     \<lparr>sv_domain = ctx_domain ctx, sv_purpose = ctx_purpose ctx, sv_policy_version = ctx_policy_version ctx,
      sv_provider_class = ctx_provider_class ctx, sv_requester_role = ctx_requester_role ctx,
      sv_requested_scope = ctx_requested_scope ctx\<rparr>"

subsection \<open>Presets\<close>

record document_analysis_preset =
  pr_document_type :: pystr
  pr_domain :: pystr
  pr_policy_version :: pystr
  pr_requester_role :: pystr
  pr_analysis_modes :: "pystr list"

definition default_analysis_mode :: "document_analysis_preset \<Rightarrow> pystr" where
  "default_analysis_mode p = hd (pr_analysis_modes p)"

definition CONTRACT_PRESET :: document_analysis_preset where
  "CONTRACT_PRESET =
     \<lparr>pr_document_type = ''contract'', pr_domain = ''contracts'', pr_policy_version = ''contracts-v1'',
      pr_requester_role = ''contract_analyst'',
      pr_analysis_modes = [''contract_summary'', ''financial_audit'', ''compliance_review'']\<rparr>"

definition HR_RECORD_PRESET :: document_analysis_preset where
  "HR_RECORD_PRESET =
     \<lparr>pr_document_type = ''hr_record'', pr_domain = ''hr'', pr_policy_version = ''hr-v1'',
      pr_requester_role = ''hr_analyst'',
      pr_analysis_modes = [''team_summary'', ''salary_analysis'', ''compensation_review'']\<rparr>"

definition PRESETS :: "(pystr, document_analysis_preset) dict" where
  "PRESETS = map (\<lambda>p. (pr_document_type p, p)) [CONTRACT_PRESET, HR_RECORD_PRESET]"

datatype preset_error = Unsupported_Document_Type | Unsupported_Analysis_Mode "pystr list"

definition list_document_presets :: "document_analysis_preset list" where
  "list_document_presets = map snd PRESETS"

definition get_document_preset :: "pystr \<Rightarrow> preset_error + document_analysis_preset" where
  "get_document_preset document_type =
     (case dict_get PRESETS document_type of None \<Rightarrow> Inl Unsupported_Document_Type | Some p \<Rightarrow> Inr p)"

definition resolve_analysis_mode :: "pystr \<Rightarrow> pystr option \<Rightarrow> preset_error + pystr" where
  "resolve_analysis_mode document_type analysis_mode =
     (case get_document_preset document_type of
        Inl e \<Rightarrow> Inl e
      | Inr preset \<Rightarrow>
          (case analysis_mode of
             None \<Rightarrow> Inr (default_analysis_mode preset)
           | Some mode \<Rightarrow>
               if mode \<in> set (pr_analysis_modes preset) then Inr mode else Inl (Unsupported_Analysis_Mode (pr_analysis_modes preset))))"

definition resolve_governance_preset :: "pystr \<Rightarrow> pystr option \<Rightarrow> preset_error + governance_overrides" where
  "resolve_governance_preset document_type analysis_mode =
     (case get_document_preset document_type of
        Inl e \<Rightarrow> Inl e
      | Inr preset \<Rightarrow>
          (case resolve_analysis_mode document_type analysis_mode of
             Inl e \<Rightarrow> Inl e
           | Inr purpose \<Rightarrow>
               Inr (no_overrides\<lparr>go_domain := Some (pr_domain preset), go_policy_version := Some (pr_policy_version preset),
                      go_purpose := Some purpose, go_requester_role := Some (pr_requester_role preset)\<rparr>)))"

subsection \<open>The disclosure summary\<close>

datatype disclosure_outcome = REMOVED | PSEUDONYMIZED | GENERALIZED | PRESERVED | BLOCKED

fun outcome_for_action :: "disclosure_action \<Rightarrow> (disclosure_outcome \<times> bool) result" where
  "outcome_for_action PRESERVE = Inr (PRESERVED, True)"
| "outcome_for_action PSEUDONYMIZE = Inr (PSEUDONYMIZED, True)"
| "outcome_for_action GENERALIZE = Inr (GENERALIZED, True)"
| "outcome_for_action REMOVE = Inr (REMOVED, False)"
| "outcome_for_action BLOCK_REQUEST = Inr (BLOCKED, False)"
| "outcome_for_action TASK_DEPENDENT = Inl ValueError"

record category_summary =
  cs_category :: pystr
  cs_outcome :: disclosure_outcome
  cs_action :: disclosure_action
  cs_crosses_trust_boundary :: bool
  cs_occurrence_count :: nat
  cs_required_for_task :: "bool option"
  cs_technical_reason :: pystr
  cs_policy_version :: "pystr option"
  cs_policy_restricted :: "bool option"
  cs_impossible_under_policy :: "bool option"

record disclosure_summary =
  ds_status :: result_status
  ds_categories :: "category_summary list"
  ds_detected_span_count :: nat
  ds_detected_categories :: "pystr list"

text \<open>The counting loop over the categories of spans and of transformations.\<close>

definition counts_by_category :: "pystr list \<Rightarrow> (pystr, nat) dict" where
  "counts_by_category cats = foldl (\<lambda>d c. dict_set d c (dict_get_default d c 0 + 1)) [] cats"

definition summarize_decision ::
  "(pystr, nat) dict \<Rightarrow> (pystr, nat) dict \<Rightarrow> policy_decision \<Rightarrow> category_summary result" where
  "summarize_decision span_counts transformation_counts d =
     (case outcome_for_action (pd_action d) of
        Inl e \<Rightarrow> Inl e
      | Inr (outcome, crosses) \<Rightarrow>
          (let count = (case dict_get transformation_counts (pd_category d) of
                          Some n \<Rightarrow> n
                        | None \<Rightarrow> dict_get_default span_counts (pd_category d) 0)
           in Inr \<lparr>cs_category = pd_category d, cs_outcome = outcome, cs_action = pd_action d,
                   cs_crosses_trust_boundary = crosses, cs_occurrence_count = count,
                   cs_required_for_task = pd_task_required d, cs_technical_reason = pd_reason d,
                   cs_policy_version = pd_policy_version d, cs_policy_restricted = pd_policy_restricted d,
                   cs_impossible_under_policy = pd_impossible_under_policy d\<rparr>))"

fun sequence_results :: "'a result list \<Rightarrow> 'a list result" where
  "sequence_results [] = Inr []"
| "sequence_results (r # rs) =
     (case r of
        Inl e \<Rightarrow> Inl e
      | Inr x \<Rightarrow> (case sequence_results rs of Inl e \<Rightarrow> Inl e | Inr xs \<Rightarrow> Inr (x # xs)))"

definition build_disclosure_summary :: "disclosure_decision \<Rightarrow> disclosure_summary result" where
  "build_disclosure_summary decision =
     (let res = dd_result decision;
          span_counts = counts_by_category (map sp_category (dd_spans decision));
          transformation_counts = counts_by_category (map tr_category (rs_transformations res))
      in case sequence_results (map (summarize_decision span_counts transformation_counts) (rs_decisions res)) of
           Inl e \<Rightarrow> Inl e
         | Inr categories \<Rightarrow>
             Inr \<lparr>ds_status = rs_status res, ds_categories = categories,
                  ds_detected_span_count = length (dd_spans decision),
                  ds_detected_categories = sorted_set (map sp_category (dd_spans decision))\<rparr>)"


subsection \<open>No decision of the pipeline is left unresolved\<close>

definition resolved :: "disclosure_result \<Rightarrow> bool" where
  "resolved res \<longleftrightarrow> list_all (\<lambda>d. pd_action d \<noteq> TASK_DEPENDENT) (rs_decisions res)"

lemma resolved_blocking: "resolved (blocked_with (map (blocking_decision reason) cats))"
  by (simp add: resolved_def blocking_decision_def list_all_iff)

lemma resolved_blocked_results:
  "resolved (invalid_span_result spans reasons)" "resolved (missing_scope_identifier_result ordered reasons)"
  "resolved (blocked_result ordered decisions)" "resolved (blocked_for_sensitive_task task_spans)"
  "resolved (static_invalid_span_result spans)" "resolved (static_blocked_result ordered acts)"
  by (auto simp: resolved_def blocking_decision_def list_all_iff invalid_span_result_def missing_scope_identifier_result_def
      blocked_result_def blocked_for_sensitive_task_def static_invalid_span_result_def static_blocked_result_def Let_def)

lemma resolved_first_decisions:
  "(\<And>sp d. (sp, d) \<in> set pairs \<Longrightarrow> ad_action d \<noteq> TASK_DEPENDENT) \<Longrightarrow>
     list_all (\<lambda>d. pd_action d \<noteq> TASK_DEPENDENT) (first_decisions seen pairs)"
  by (induction seen pairs rule: first_decisions.induct) (auto simp: allowed_decision_def)

lemma resolved_decided:
  assumes "\<And>sp. sp \<in> set ordered \<Longrightarrow> ad_action (f sp) \<noteq> TASK_DEPENDENT"
  shows "list_all (\<lambda>d. pd_action d \<noteq> TASK_DEPENDENT) (first_decisions [] (decided f ordered))"
  by (rule resolved_first_decisions) (use assms in \<open>auto simp: decided_def downgrade_action split: if_split_asm\<close>)

lemma resolved_sanitize_with:
  assumes "\<forall>ordered. resolve_overlaps spans = Inr ordered \<longrightarrow> (\<forall>sp \<in> set ordered. dec ordered sp = Inr (f ordered sp))"
    and "\<And>ordered sp d. dec ordered sp = Inr d \<Longrightarrow> ad_action d \<noteq> TASK_DEPENDENT"
    and "sanitize_with ops v repo reasons dec request spans = Inr (res, v')"
  shows "resolved res"
proof (cases rule: sanitize_with_cases [where ops = ops and v = v and repo = repo and reasons = reasons
      and request = request, OF assms(1)])
  case (4 ordered key vals w)
  have "list_all (\<lambda>d. pd_action d \<noteq> TASK_DEPENDENT) (first_decisions [] (decided (f ordered) ordered))"
    by (rule resolved_decided) (use assms(1,2) 4(2) in metis)
  then show ?thesis
    using 4(7) assms(3) allowed_walk_decisions [OF 4(6)] by (auto simp: resolved_def)
qed (use assms(3) in \<open>auto simp: resolved_blocked_results\<close>)

lemma dict_get_all: "list_all (\<lambda>(k, v). P v) d \<Longrightarrow> dict_get d k = Some v \<Longrightarrow> P v"
  using dict_get_mem [of d k v] by (auto simp: list_all_iff)

lemma dict_get_default_all: "list_all (\<lambda>(k, v). P v) d \<Longrightarrow> P w \<Longrightarrow> P (dict_get_default d k w)"
  by (auto simp: dict_get_default_def list_all_iff dest: map_of_SomeD split: option.split)

lemma reversible_resolves: "ad_action (reversible_decide sp) \<noteq> TASK_DEPENDENT"
proof -
  have "dict_get_default REVERSIBLE_ACTIONS c BLOCK_REQUEST \<noteq> TASK_DEPENDENT" for c
    by (rule dict_get_default_all) (simp_all add: REVERSIBLE_ACTIONS_def)
  then show ?thesis by (simp add: reversible_decide_def reversible_resolve_action_def plain_action_def Let_def)
qed

lemma static_resolves: "ad_action (static_decision sp) \<noteq> TASK_DEPENDENT"
proof -
  have "dict_get_default STATIC_ACTIONS c BLOCK_REQUEST \<noteq> TASK_DEPENDENT" for c
    by (rule dict_get_default_all) (simp_all add: STATIC_ACTIONS_def)
  then show ?thesis by (simp add: static_decision_def static_resolve_action_def plain_action_def Let_def)
qed

lemma task_aware_resolves:
  assumes "task_aware_decide relevance failed sp = Inr d"
  shows "ad_action d \<noteq> TASK_DEPENDENT"
proof -
  have space: "TASK_DEPENDENT \<notin> set space" if "dict_get TASK_AWARE_ACTION_SPACES c = Some space" for c space
    using dict_get_all [OF _ that, where P = "\<lambda>s. TASK_DEPENDENT \<notin> set s"] by (simp add: TASK_AWARE_ACTION_SPACES_def)
  show ?thesis
    using assms space select_member
    by (fastforce simp: task_aware_decide_def plain_action_def split: if_splits option.splits list.splits sum.splits)
qed

lemma built_resolved:
  assumes "dt_sanitize (build_treatment ops repo analyzer trt) v request spans = Inr (res, v')"
  shows "resolved res"
proof (cases trt)
  case DIRECT
  then show ?thesis using assms by (auto simp: direct_sanitize_def resolved_def)
next
  case STATIC_SANITIZATION
  then have run: "static_sanitize request spans = Inr res" using assms by (simp add: stateless_def split: sum.splits)
  show ?thesis
  proof (cases rule: static_sanitize_cases [of spans request])
    case (allowed ordered vals w)
    then show ?thesis
      using run resolved_decided [of ordered static_decision] static_resolves allowed_walk_decisions [OF allowed(5)]
      by (auto simp: resolved_def)
  qed (use run in \<open>auto simp: resolved_blocked_results\<close>)
next
  case REVERSIBLE_PSEUDONYMIZATION
  then show ?thesis
    using assms resolved_sanitize_with [where dec = "\<lambda>_ sp. Inr (reversible_decide sp)" and f = "\<lambda>_. reversible_decide"] reversible_resolves
    by (auto simp: reversible_sanitize_with)
next
  case TASK_AWARE
  have "ad_action d \<noteq> TASK_DEPENDENT" if "task_aware_decider (analyzer_of analyzer) request ordered sp = Inr d" for ordered sp d
    using that task_aware_resolves by (auto simp: task_aware_decider_def split: prod.splits)
  note no_td = this
  have "\<forall>ordered. resolve_overlaps spans = Inr ordered \<longrightarrow> (\<forall>sp \<in> set ordered.
      task_aware_decider (analyzer_of analyzer) request ordered sp = Inr (outcome_of (task_aware_decider (analyzer_of analyzer) request ordered sp)))"
    using task_aware_decider_total by blast
  from resolved_sanitize_with [OF this no_td] show ?thesis
    using assms TASK_AWARE by (simp add: task_aware_sanitize_with)
next
  case POLICY_GOVERNED
  have "ad_action d \<noteq> TASK_DEPENDENT" if "policy_governed_decider repo (analyzer_of analyzer) request ordered sp = Inr d" for ordered sp d
    using that policy_governed_permitted is_level_iff
    by (fastforce simp: policy_governed_decider_def split: prod.splits)
  note no_td = this
  have "\<forall>ordered. resolve_overlaps spans = Inr ordered \<longrightarrow> (\<forall>sp \<in> set ordered.
      policy_governed_decider repo (analyzer_of analyzer) request ordered sp = Inr (outcome_of (policy_governed_decider repo (analyzer_of analyzer) request ordered sp)))"
    using policy_governed_decider_total by blast
  from resolved_sanitize_with [OF this no_td] show ?thesis
    using assms POLICY_GOVERNED by (simp add: policy_governed_sanitize_with)
qed

lemma decision_resolved:
  assumes "decide_disclosure (build_treatment ops repo analyzer trt) detector v request = Inr (decision, v')"
  shows "resolved (dd_result decision)"
  using assms built_resolved resolved_blocked_results(4)
  by (fastforce simp: decide_disclosure_def split: sum.splits prod.splits if_splits)


subsection \<open>The summary of a decision\<close>

lemma counts_by_category_get:
  "dict_get (counts_by_category cats) c = (if c \<in> set cats then Some (count_list cats c) else None)"
proof (induction cats arbitrary: c rule: rev_induct)
  case Nil
  then show ?case by (simp add: counts_by_category_def)
next
  case (snoc x cats)
  have step: "counts_by_category (cats @ [x]) =
      dict_set (counts_by_category cats) x (dict_get_default (counts_by_category cats) x 0 + 1)"
    by (simp add: counts_by_category_def)
  have "dict_get_default (counts_by_category cats) x 0 = count_list cats x"
    using snoc [of x]
    by (auto simp add: dict_get_default_def dict_get_def split: option.splits if_splits)
  then show ?case using snoc by (simp add: step)
qed

lemma outcome_for_action_crosses:
  "outcome_for_action a = Inr (outcome, crosses) \<Longrightarrow> crosses \<longleftrightarrow> a \<noteq> REMOVE \<and> a \<noteq> BLOCK_REQUEST"
  by (cases a) auto

definition occurrences :: "disclosure_decision \<Rightarrow> pystr \<Rightarrow> nat" where
  "occurrences decision category =
     (let ts = map tr_category (rs_transformations (dd_result decision))
      in if category \<in> set ts then count_list ts category else count_list (map sp_category (dd_spans decision)) category)"

definition describes_decision :: "disclosure_decision \<Rightarrow> policy_decision \<Rightarrow> category_summary \<Rightarrow> bool" where
  "describes_decision decision d c \<longleftrightarrow>
     cs_category c = pd_category d \<and> cs_action c = pd_action d \<and>
     (cs_crosses_trust_boundary c \<longleftrightarrow> pd_action d \<noteq> REMOVE \<and> pd_action d \<noteq> BLOCK_REQUEST) \<and>
     cs_occurrence_count c = occurrences decision (pd_category d)"

lemma summarize_resolved:
  assumes "pd_action d \<noteq> TASK_DEPENDENT"
  shows "\<exists>c. summarize_decision (counts_by_category (map sp_category (dd_spans decision)))
      (counts_by_category (map tr_category (rs_transformations (dd_result decision)))) d = Inr c \<and> describes_decision decision d c"
proof -
  obtain outcome crosses where o: "outcome_for_action (pd_action d) = Inr (outcome, crosses)"
    using assms by (cases "pd_action d") auto
  have default: "dict_get_default (counts_by_category cats) x 0 = count_list cats x" for cats x
    using counts_by_category_get [of cats x]
    by (auto simp: dict_get_default_def dict_get_def count_list_0_iff split: option.splits if_splits)
  show ?thesis
    using outcome_for_action_crosses [OF o]
    by (auto simp: summarize_decision_def describes_decision_def occurrences_def o Let_def counts_by_category_get default)
qed

lemma sequence_results_total:
  "list_all (\<lambda>x. \<exists>y. f x = Inr y \<and> P x y) xs \<Longrightarrow> \<exists>ys. sequence_results (map f xs) = Inr ys \<and> list_all2 P xs ys"
  by (induction xs) auto

lemma summary_of_resolved:
  assumes "resolved (dd_result decision)"
  shows "\<exists>s. build_disclosure_summary decision = Inr s \<and> ds_status s = rs_status (dd_result decision) \<and>
    list_all2 (describes_decision decision) (rs_decisions (dd_result decision)) (ds_categories s)"
proof -
  have "list_all (\<lambda>d. \<exists>c. summarize_decision (counts_by_category (map sp_category (dd_spans decision)))
      (counts_by_category (map tr_category (rs_transformations (dd_result decision)))) d = Inr c \<and> describes_decision decision d c)
      (rs_decisions (dd_result decision))"
    using assms summarize_resolved by (auto simp: resolved_def list_all_iff)
  from sequence_results_total [OF this] show ?thesis
    by (auto simp: build_disclosure_summary_def Let_def)
qed

subsection \<open>What a preset can select\<close>

lemma preset_selects:
  assumes "resolve_governance_preset document_type analysis_mode = Inr o'"
  shows "\<exists>p \<in> set list_document_presets. pr_document_type p = document_type \<and>
    merge_overrides ctx o' = ctx\<lparr>ctx_domain := pr_domain p, ctx_policy_version := pr_policy_version p,
      ctx_purpose := ctx_purpose (merge_overrides ctx o'), ctx_requester_role := Some (pr_requester_role p)\<rparr> \<and>
    ctx_purpose (merge_overrides ctx o') \<in> set (pr_analysis_modes p)"
proof -
  obtain p where p: "dict_get PRESETS document_type = Some p" "get_document_preset document_type = Inr p"
    using assms by (auto simp: resolve_governance_preset_def get_document_preset_def split: sum.splits option.splits)
  have mem: "p \<in> set list_document_presets" "pr_document_type p = document_type" "pr_analysis_modes p \<noteq> []"
    using dict_get_mem [OF p(1)]
    by (auto simp: PRESETS_def list_document_presets_def CONTRACT_PRESET_def HR_RECORD_PRESET_def)
  obtain purpose where r: "resolve_analysis_mode document_type analysis_mode = Inr purpose"
    and o': "o' = no_overrides\<lparr>go_domain := Some (pr_domain p), go_policy_version := Some (pr_policy_version p),
       go_purpose := Some purpose, go_requester_role := Some (pr_requester_role p)\<rparr>"
    using assms by (auto simp: resolve_governance_preset_def p(2) split: sum.splits)
  have "purpose \<in> set (pr_analysis_modes p)"
    using r mem(3) by (auto simp: resolve_analysis_mode_def p(2) default_analysis_mode_def split: option.splits if_splits)
  then show ?thesis using mem o'
    by (intro bexI [of _ p]) (simp_all add: merge_overrides_def no_overrides_def or_keep_def)
qed

end
