(* ===== verification/Inspection.thy ===== *)
theory Inspection
  imports Treatments
begin

text \<open>
  The before/after view of a disclosure decision (\<open>application/inspection.py\<close>): the source text and the disclosed payload
  cut into the same sequence of segments. An exception raised while the view is built is the branch that gives no
  alignment; on spans with valid offsets nothing else in the code can raise.

  The lemmas show that a view that is available reproduces both texts, and that one is available for every allowed decision
  that the pipeline makes.
\<close>

record inspection_segment =
  sg_action :: "disclosure_action option"
  sg_category :: "pystr option"
  sg_original :: pystr
  sg_disclosed :: pystr

datatype unavailable_reason = Decision_Blocked | Alignment_Failed

record disclosure_inspection =
  in_available :: bool
  in_unavailable_reason :: "unavailable_reason option"
  in_segments :: "inspection_segment list"

definition INSPECTION_BLOCKED :: disclosure_inspection where
  "INSPECTION_BLOCKED = \<lparr>in_available = False, in_unavailable_reason = Some Decision_Blocked, in_segments = []\<rparr>"

definition ALIGNMENT_FAILED :: disclosure_inspection where
  "ALIGNMENT_FAILED = \<lparr>in_available = False, in_unavailable_reason = Some Alignment_Failed, in_segments = []\<rparr>"

definition untouched :: "pystr \<Rightarrow> inspection_segment" where
  "untouched segment_text =
     \<lparr>sg_action = None, sg_category = None, sg_original = segment_text, sg_disclosed = segment_text\<rparr>"

definition touched :: "transformation \<Rightarrow> inspection_segment" where
  "touched t =
     \<lparr>sg_action = Some (tr_action t), sg_category = Some (tr_category t), sg_original = tr_original t,
      sg_disclosed = the_default '''' (tr_transformed t)\<rparr>"

text \<open>The loop over the spans and their transformations, from a cursor on.\<close>

fun align_segments :: "pystr \<Rightarrow> nat \<Rightarrow> (sensitive_span \<times> transformation) list \<Rightarrow> inspection_segment list option" where
  "align_segments txt cursor [] = Some (if cursor < length txt then [untouched (drop cursor txt)] else [])"
| "align_segments txt cursor ((sp, t) # rest) =
     (if sp_category sp \<noteq> tr_category t then None
      else if sp_value sp \<noteq> tr_original t then None
      else if lo sp < cursor then None
      else if slice (lo sp) (hi sp) txt \<noteq> sp_value sp then None
      else map_option (\<lambda>segs. (if cursor < lo sp then [untouched (slice cursor (lo sp) txt)] else []) @ touched t # segs)
             (align_segments txt (hi sp) rest))"

definition structured_alignment ::
  "pystr \<Rightarrow> sensitive_span list \<Rightarrow> transformation list \<Rightarrow> pystr \<Rightarrow> inspection_segment list option" where
  "structured_alignment txt spans transformations external_payload =
     (case resolve_overlaps spans of
        Inl e \<Rightarrow> None
      | Inr ordered \<Rightarrow>
          if length ordered \<noteq> length transformations then None
          else (case align_segments txt 0 (zip ordered transformations) of
                  None \<Rightarrow> None
                | Some segs \<Rightarrow>
                    if concat (map sg_original segs) \<noteq> txt \<or> concat (map sg_disclosed segs) \<noteq> external_payload then None
                    else Some segs))"

definition build_inspection :: "pystr \<Rightarrow> disclosure_decision \<Rightarrow> disclosure_inspection" where
  "build_inspection txt decision =
     (let res = dd_result decision in
      if rs_status res \<noteq> Allowed then INSPECTION_BLOCKED
      else (case structured_alignment txt (dd_spans decision) (rs_transformations res) (rs_external_payload res) of
              Some segs \<Rightarrow> \<lparr>in_available = True, in_unavailable_reason = None, in_segments = segs\<rparr>
            | None \<Rightarrow>
                if rs_external_payload res = txt then
                  \<lparr>in_available = True, in_unavailable_reason = None,
                   in_segments = (if txt = '''' then [] else [untouched txt])\<rparr>
                else ALIGNMENT_FAILED))"

subsection \<open>What a view shows\<close>

lemma build_inspection_available:
  assumes "in_available (build_inspection txt decision)"
  shows "rs_status (dd_result decision) = Allowed"
    and "concat (map sg_original (in_segments (build_inspection txt decision))) = txt"
    and "concat (map sg_disclosed (in_segments (build_inspection txt decision))) = rs_external_payload (dd_result decision)"
  using assms
  by (auto simp: build_inspection_def structured_alignment_def INSPECTION_BLOCKED_def ALIGNMENT_FAILED_def untouched_def Let_def
      split: if_splits option.splits sum.splits)

text \<open>The loop succeeds on the layout of a payload and gives back the text and the payload.\<close>

lemma align_segments_layout:
  assumes "list_all2 shown_as sps ts" and "spans_are_valid sps txt" and "sorted_wrt (\<lambda>a b. hi a \<le> lo b) sps"
    and "\<And>sp. sp \<in> set sps \<Longrightarrow> cursor \<le> lo sp"
  shows "\<exists>segs. align_segments txt cursor (zip sps ts) = Some segs \<and>
    concat (map sg_original segs) = weave (gaps txt cursor sps) (map sp_value sps) \<and>
    concat (map sg_disclosed segs) = weave (gaps txt cursor sps) (map (\<lambda>t. the_default '''' (tr_transformed t)) ts)"
  using assms
proof (induction arbitrary: cursor rule: list_all2_induct)
  case Nil
  then show ?case by (simp add: untouched_def)
next
  case (Cons sp sps t ts)
  have v: "spans_are_valid [sp] txt" "spans_are_valid sps txt"
    using Cons.prems(1) by (simp_all add: spans_are_valid_def)
  have sp: "sp_value sp = slice (lo sp) (hi sp) txt"
    using v(1) by (auto simp: spans_are_valid_def span_matches_text_def Let_def split: if_splits)
  obtain segs where "align_segments txt (hi sp) (zip sps ts) = Some segs"
    "concat (map sg_original segs) = weave (gaps txt (hi sp) sps) (map sp_value sps)"
    "concat (map sg_disclosed segs) = weave (gaps txt (hi sp) sps) (map (\<lambda>t. the_default '''' (tr_transformed t)) ts)"
    using Cons.IH [OF v(2), of "hi sp"] Cons.prems(2) by auto
  moreover have "cursor \<le> lo sp" using Cons.prems(3) by simp
  moreover have "slice cursor (lo sp) txt = []" if "\<not> cursor < lo sp" using that by (simp add: slice_def)
  ultimately show ?case
    using Cons.hyps(1) sp by (auto simp: shown_as_def touched_def untouched_def)
qed

lemma decision_inspected:
  assumes "decide_disclosure (build_treatment ops repo analyzer trt) detector v request = Inr (decision, v')"
    and "rs_status (dd_result decision) = Allowed"
  shows "in_available (build_inspection (rq_text request) decision)"
proof -
  obtain spans res where d: "dd_spans decision = spans" "dd_result decision = res"
    "dt_sanitize (build_treatment ops repo analyzer trt) v request spans = Inr (res, v')"
    using assms
    by (auto simp: decide_disclosure_def blocked_for_sensitive_task_def split: sum.splits prod.splits if_splits)
  show ?thesis
  proof (cases "trt = DIRECT")
    case True
    then have "rs_external_payload res = rq_text request" using d(3) by (auto simp: direct_sanitize_def)
    then show ?thesis using assms(2) d by (simp add: build_inspection_def Let_def split: option.split)
  next
    case False
    obtain ordered where o: "spans_are_valid spans (rq_text request)" "resolve_overlaps spans = Inr ordered"
      "rs_external_payload res = weave (gaps (rq_text request) 0 ordered)
         (map (\<lambda>t. the_default '''' (tr_transformed t)) (rs_transformations res))"
      "list_all2 shown_as ordered (rs_transformations res)"
      using built_layout [OF False d(3)] assms(2) d(2) by auto
    have valid: "spans_are_valid ordered (rq_text request)"
      using resolve_overlaps_subset [OF o(2)] o(1) by (auto simp: spans_are_valid_def list_all_iff)
    obtain segs where segs: "align_segments (rq_text request) 0 (zip ordered (rs_transformations res)) = Some segs"
      "concat (map sg_original segs) = weave (gaps (rq_text request) 0 ordered) (map sp_value ordered)"
      "concat (map sg_disclosed segs) = rs_external_payload res"
      using align_segments_layout [OF o(4) valid resolve_overlaps_chain [OF o(2)], of 0] o(3) by auto
    have "concat (map sg_original segs) = rq_text request"
      using segs(2) weave_values [OF valid resolve_overlaps_chain [OF o(2)], of 0] by simp
    then have "structured_alignment (rq_text request) spans (rs_transformations res) (rs_external_payload res) = Some segs"
      using segs o(2) list_all2_lengthD [OF o(4)] by (simp add: structured_alignment_def)
    then show ?thesis using assms(2) d by (simp add: build_inspection_def Let_def)
  qed
qed

end
