(* ===== verification/Json.thy ===== *)
theory Json
  imports Encoding
begin

text \<open>
  JSON as \<open>application/preview_confirmation.py\<close> and \<open>application/restore_handle.py\<close> use it: \<open>canonical_json\<close>
  (sorted keys, compact separators, no ASCII escaping) and \<open>json.loads\<close>, a recursive-descent scanner over the
  remaining text that follows the scanner of the standard library: numbers, strict strings, the constants
  \<open>NaN\<close> and \<open>Infinity\<close>, the last of two equal keys wins, an integer of more than 4300 digits is refused, and a nesting
  deeper than the interpreter's limit raises \<open>RecursionError\<close>, which is not a \<open>ValueError\<close>.

  The scanner is bounded by fuel, and \<open>loads_never_starves\<close> shows that the fuel it is given is always enough;
  \<open>loads_canonical_json\<close> shows that it reads back what \<open>canonical_json\<close> writes.
\<close>

datatype json =
    JNull
  | JBool bool
  | JInt int
  | JFloat pystr
  | JStr pystr
  | JArray "json list"
  | JObject "(pystr \<times> json) list"

datatype json_error = JSON_Value_Error | JSON_Recursion_Error | JSON_Starved

subsection \<open>Writing\<close>

definition hex_digit :: "nat \<Rightarrow> char" where
  "hex_digit n = char_of (if n < 10 then 48 + n else 87 + n)"

definition escape_char :: "char \<Rightarrow> pystr" where
  "escape_char c =
     (let n = of_char c :: nat in
      if n = 34 then [CHR 0x5C, CHR 0x22]
      else if n = 92 then [CHR 0x5C, CHR 0x5C]
      else if n = 8 then [CHR 0x5C, CHR ''b'']
      else if n = 9 then [CHR 0x5C, CHR ''t'']
      else if n = 10 then [CHR 0x5C, CHR ''n'']
      else if n = 12 then [CHR 0x5C, CHR ''f'']
      else if n = 13 then [CHR 0x5C, CHR ''r'']
      else if n < 32 then [CHR 0x5C, CHR ''u'', CHR ''0'', CHR ''0'', hex_digit (n div 16), hex_digit (n mod 16)]
      else [c])"

definition quote :: "pystr \<Rightarrow> pystr" where
  "quote s = CHR 0x22 # concat (map escape_char s) @ [CHR 0x22]"

definition str_int :: "int \<Rightarrow> pystr" where
  "str_int i = (if i < 0 then CHR ''-'' # str_nat (nat (- i)) else str_nat (nat i))"

fun comma_list :: "pystr list \<Rightarrow> pystr" where
  "comma_list [] = []"
| "comma_list [x] = x"
| "comma_list (x # xs) = x @ CHR '','' # comma_list xs"

fun canonical_json :: "json \<Rightarrow> pystr" where
  "canonical_json JNull = ''null''"
| "canonical_json (JBool b) = (if b then ''true'' else ''false'')"
| "canonical_json (JInt i) = str_int i"
| "canonical_json (JFloat lit) = lit"
| "canonical_json (JStr s) = quote s"
| "canonical_json (JArray xs) = CHR ''['' # comma_list (map canonical_json xs) @ '']''"
| "canonical_json (JObject kvs) =
     CHR ''{'' # comma_list (map (\<lambda>(k, v). quote k @ CHR '':'' # v)
       (sort_key fst (map (\<lambda>(k, v). (k, canonical_json v)) kvs))) @ ''}''"

subsection \<open>Reading\<close>

definition skip_ws :: "pystr \<Rightarrow> pystr" where
  "skip_ws s = dropWhile (\<lambda>c. c \<in> {CHR '' '', CHR 0x09, CHR 0x0A, CHR 0x0D}) s"

definition hex_value :: "char \<Rightarrow> nat option" where
  "hex_value c =
     (let n = of_char c :: nat in
      if 48 \<le> n \<and> n \<le> 57 then Some (n - 48)
      else if 97 \<le> n \<and> n \<le> 102 then Some (n - 87)
      else if 65 \<le> n \<and> n \<le> 70 then Some (n - 55)
      else None)"

definition simple_escape :: "char \<Rightarrow> char option" where
  "simple_escape c =
     map_of [(CHR 0x22, CHR 0x22), (CHR 0x5C, CHR 0x5C), (CHR ''/'', CHR ''/''), (CHR ''b'', CHR 0x08),
       (CHR ''f'', CHR 0x0C), (CHR ''n'', CHR 0x0A), (CHR ''r'', CHR 0x0D), (CHR ''t'', CHR 0x09)] c"

definition prepend :: "'c \<Rightarrow> json_error + 'c list \<times> pystr \<Rightarrow> json_error + 'c list \<times> pystr" where
  "prepend c r = (case r of Inl e \<Rightarrow> Inl e | Inr (cs, rest) \<Rightarrow> Inr (c # cs, rest))"

text \<open>After the opening quote: the string and what follows its closing quote.\<close>

fun scan_string :: "pystr \<Rightarrow> json_error + pystr \<times> pystr" where
  "scan_string [] = Inl JSON_Value_Error"
| "scan_string (c # cs) =
     (if c = CHR 0x22 then Inr ([], cs)
      else if c = CHR 0x5C then
        (case cs of
           [] \<Rightarrow> Inl JSON_Value_Error
         | e # r \<Rightarrow>
             if e = CHR ''u'' then
               (case r of
                  h1 # h2 # h3 # h4 # r' \<Rightarrow>
                    (case (hex_value h1, hex_value h2, hex_value h3, hex_value h4) of
                       (Some a, Some b, Some x, Some y) \<Rightarrow>
                         if a = 0 \<and> b = 0 then prepend (char_of (16 * x + y)) (scan_string r')
                         else Inl JSON_Value_Error
                     | _ \<Rightarrow> Inl JSON_Value_Error)
                | _ \<Rightarrow> Inl JSON_Value_Error)
             else
               (case simple_escape e of
                  None \<Rightarrow> Inl JSON_Value_Error
                | Some d \<Rightarrow> prepend d (scan_string r)))
      else if (of_char c :: nat) < 32 then Inl JSON_Value_Error
      else prepend c (scan_string cs))"

definition starts_with :: "char \<Rightarrow> pystr \<Rightarrow> bool" where
  "starts_with c s \<longleftrightarrow> (case s of [] \<Rightarrow> False | x # _ \<Rightarrow> x = c)"

definition scan_fraction :: "pystr \<Rightarrow> pystr" where
  "scan_fraction s =
     (if starts_with (CHR ''.'') s \<and> takeWhile is_digit (tl s) \<noteq> [] then CHR ''.'' # takeWhile is_digit (tl s) else [])"

definition scan_exponent :: "pystr \<Rightarrow> pystr" where
  "scan_exponent s =
     (if starts_with (CHR ''e'') s \<or> starts_with (CHR ''E'') s then
        (let sign = (if starts_with (CHR ''+'') (tl s) \<or> starts_with (CHR ''-'') (tl s) then take 1 (tl s) else []);
             digits = takeWhile is_digit (drop (Suc (length sign)) s)
         in if digits = [] then [] else take 1 s @ sign @ digits)
      else [])"

definition scan_number :: "pystr \<Rightarrow> json_error + json \<times> pystr" where
  "scan_number s =
     (let minus = starts_with (CHR ''-'') s;
          body = (if minus then tl s else s);
          digits = (if starts_with (CHR ''0'') body then ''0'' else takeWhile is_digit body);
          r = drop (length digits) body;
          fraction = scan_fraction r;
          expo = scan_exponent (drop (length fraction) r)
      in if digits = [] then Inl JSON_Value_Error
         else if fraction = [] \<and> expo = [] then
           (if MAX_INT_DIGITS < length digits then Inl JSON_Value_Error
            else Inr (JInt (if minus then - int (int_of_digits digits) else int (int_of_digits digits)), r))
         else Inr (JFloat ((if minus then ''-'' else []) @ digits @ fraction @ expo),
                   drop (length fraction + length expo) r))"

definition scan_constants :: "(pystr \<times> json) list" where
  "scan_constants =
     [(''null'', JNull), (''true'', JBool True), (''false'', JBool False), (''NaN'', JFloat ''NaN''),
      (''Infinity'', JFloat ''Infinity''), (''-Infinity'', JFloat ''-Infinity'')]"

definition scan_atom :: "pystr \<Rightarrow> json_error + json \<times> pystr" where
  "scan_atom s =
     (case find (\<lambda>(word, _). prefix word s) scan_constants of
        Some (word, v) \<Rightarrow> Inr (v, drop (length word) s)
      | None \<Rightarrow> scan_number s)"

text \<open>A dict built from the pairs in order.\<close>

definition as_dict :: "(pystr \<times> json) list \<Rightarrow> (pystr \<times> json) list" where
  "as_dict kvs = foldl (\<lambda>d (k, v). dict_set d k v) [] kvs"

fun parse_value :: "nat \<Rightarrow> nat \<Rightarrow> pystr \<Rightarrow> json_error + json \<times> pystr"
  and parse_members :: "nat \<Rightarrow> nat \<Rightarrow> pystr \<Rightarrow> json_error + (pystr \<times> json) list \<times> pystr"
  and parse_elements :: "nat \<Rightarrow> nat \<Rightarrow> pystr \<Rightarrow> json_error + json list \<times> pystr" where
  "parse_value 0 depth s = Inl JSON_Starved"
| "parse_value (Suc n) depth s =
     (if starts_with (CHR 0x22) s then
        (case scan_string (tl s) of Inl e \<Rightarrow> Inl e | Inr (v, r) \<Rightarrow> Inr (JStr v, r))
      else if starts_with (CHR ''{'') s then
        (if depth = 0 then Inl JSON_Recursion_Error
         else if starts_with (CHR ''}'') (skip_ws (tl s)) then Inr (JObject [], tl (skip_ws (tl s)))
         else (case parse_members n (depth - 1) (skip_ws (tl s)) of
                 Inl e \<Rightarrow> Inl e
               | Inr (kvs, r) \<Rightarrow> Inr (JObject (as_dict kvs), r)))
      else if starts_with (CHR ''['') s then
        (if depth = 0 then Inl JSON_Recursion_Error
         else if starts_with (CHR '']'') (skip_ws (tl s)) then Inr (JArray [], tl (skip_ws (tl s)))
         else (case parse_elements n (depth - 1) (skip_ws (tl s)) of
                 Inl e \<Rightarrow> Inl e
               | Inr (vs, r) \<Rightarrow> Inr (JArray vs, r)))
      else scan_atom s)"
| "parse_members 0 depth s = Inl JSON_Starved"
| "parse_members (Suc n) depth s =
     (if \<not> starts_with (CHR 0x22) s then Inl JSON_Value_Error
      else
        (case scan_string (tl s) of
           Inl e \<Rightarrow> Inl e
         | Inr (k, r1) \<Rightarrow>
             if \<not> starts_with (CHR '':'') (skip_ws r1) then Inl JSON_Value_Error
             else
               (case parse_value n depth (skip_ws (tl (skip_ws r1))) of
                  Inl e \<Rightarrow> Inl e
                | Inr (v, r2) \<Rightarrow>
                    if starts_with (CHR ''}'') (skip_ws r2) then Inr ([(k, v)], tl (skip_ws r2))
                    else if starts_with (CHR '','') (skip_ws r2) then
                      prepend (k, v) (parse_members n depth (skip_ws (tl (skip_ws r2))))
                    else Inl JSON_Value_Error)))"
| "parse_elements 0 depth s = Inl JSON_Starved"
| "parse_elements (Suc n) depth s =
     (case parse_value n depth s of
        Inl e \<Rightarrow> Inl e
      | Inr (v, r) \<Rightarrow>
          if starts_with (CHR '']'') (skip_ws r) then Inr ([v], tl (skip_ws r))
          else if starts_with (CHR '','') (skip_ws r) then
            prepend v (parse_elements n depth (skip_ws (tl (skip_ws r))))
          else Inl JSON_Value_Error)"

definition loads :: "nat \<Rightarrow> pystr \<Rightarrow> json_error + json" where
  "loads depth s =
     (case parse_value (2 * length s + 2) depth (skip_ws s) of
        Inl e \<Rightarrow> Inl e
      | Inr (v, r) \<Rightarrow> if skip_ws r = [] then Inr v else Inl JSON_Value_Error)"


subsection \<open>The fuel is always enough\<close>

lemma prepend_Inr: "prepend c x = Inr (cs, r) \<longleftrightarrow> (\<exists>cs'. cs = c # cs' \<and> x = Inr (cs', r))"
  by (auto simp: prepend_def split: sum.splits)

lemma prepend_Inl: "prepend c x = Inl e \<longleftrightarrow> x = Inl e"
  by (auto simp: prepend_def split: sum.splits)

lemma starts_with_Cons [simp]: "starts_with c (x # xs) \<longleftrightarrow> x = c"
  by (simp add: starts_with_def)

lemma starts_with_Nil [simp]: "\<not> starts_with c []"
  by (simp add: starts_with_def)

lemma starts_with_conv: "starts_with c s \<longleftrightarrow> (\<exists>t. s = c # t)"
  by (cases s) auto

lemma skip_ws_Nil [simp]: "skip_ws [] = []"
  by (simp add: skip_ws_def)

lemma length_skip_ws: "length (skip_ws s) \<le> length s"
  by (simp add: skip_ws_def length_dropWhile_le)

lemma scan_string_shorter: "scan_string s = Inr (v, r) \<Longrightarrow> length r < length s"
proof (induction s arbitrary: v r rule: measure_induct_rule [where f = length])
  case (less s)
  have IH: "length r < n" if "scan_string t = Inr (w, r)" "length t < length s" "length t \<le> n" for t w n
    using less.IH that by fastforce
  from less.prems show ?case
    by (cases s) (auto simp: prepend_Inr split: if_split_asm list.split_asm option.split_asm intro!: IH)
qed

lemma scan_string_no_starve: "scan_string s = Inl e \<Longrightarrow> e = JSON_Value_Error"
proof (induction s arbitrary: e rule: scan_string.induct)
  case (2 c cs)
  then show ?case
    by (auto simp: prepend_Inl split: if_split_asm list.split_asm option.split_asm)
qed simp

lemma scan_number_shorter: "scan_number s = Inr (v, r) \<Longrightarrow> length r < length s"
  apply (cases s)
  by (auto simp: scan_number_def Let_def split: if_splits)

lemma scan_atom_shorter: "scan_atom s = Inr (v, r) \<Longrightarrow> length r < length s"
proof -
  assume r: "scan_atom s = Inr (v, r)"
  show ?thesis
  proof (cases "find (\<lambda>(word, _). prefix word s) scan_constants")
    case None
    then show ?thesis using r scan_number_shorter by (simp add: scan_atom_def)
  next
    case (Some wv)
    then have "prefix (fst wv) s" "fst wv \<noteq> []"
      by (auto simp: scan_constants_def split: if_split_asm)
    then have "length (fst wv) \<le> length s" "0 < length (fst wv)" by (simp_all add: prefix_length_le)
    moreover have "r = drop (length (fst wv)) s" using r Some by (cases wv) (simp add: scan_atom_def)
    ultimately show ?thesis by (simp only: length_drop)
  qed
qed

lemma scan_atom_no_starve: "scan_atom s = Inl e \<Longrightarrow> e = JSON_Value_Error"
  by (auto simp: scan_atom_def scan_number_def Let_def split: option.splits if_splits)

lemma length_tl_less: "starts_with c s \<Longrightarrow> length (skip_ws (tl s)) < length s"
  using length_skip_ws [of "tl s"] by (auto simp: starts_with_conv)


lemma length_skip_tl: "length (tl (skip_ws t)) \<le> length t"
  using length_skip_ws [of t] by simp

lemma length_skip_skip: "starts_with c (skip_ws t) \<Longrightarrow> length (skip_ws (tl (skip_ws t))) < length t"
  using length_tl_less [of c "skip_ws t"] length_skip_ws [of t] by simp

lemma length_tl_skip_less: "starts_with c s \<Longrightarrow> length (tl (skip_ws (tl s))) < length s"
  using length_tl_less [of c s] by simp

text \<open>What a scanner has read is gone: the text that is left is shorter.\<close>

lemma parse_shorter:
  "parse_value n d s = Inr (v, r) \<Longrightarrow> length r < length s"
  "parse_members n d s = Inr (kvs, r) \<Longrightarrow> length r < length s"
  "parse_elements n d s = Inr (vs, r) \<Longrightarrow> length r < length s"
proof (induction n arbitrary: d s v r kvs vs)
  case (Suc n)
  {
    case 1
    then show ?case
      using scan_string_shorter [of "tl s"] scan_atom_shorter [of s] length_tl_less [of _ s] length_tl_skip_less [of _ s]
        Suc.IH(2,3) [of "d - 1" "skip_ws (tl s)"]
      by (auto split: if_split_asm sum.split_asm simp: starts_with_conv)
  next
    case 2
    then obtain k r1 w r2 where s: "starts_with (CHR 0x22) s" "scan_string (tl s) = Inr (k, r1)"
      "starts_with (CHR '':'') (skip_ws r1)" "parse_value n d (skip_ws (tl (skip_ws r1))) = Inr (w, r2)"
      by (auto split: if_split_asm sum.split_asm)
    have "length r1 < length s"
      using scan_string_shorter [OF s(2)] by simp
    then have r2: "length r2 < length s"
      using length_skip_skip [OF s(3)] Suc.IH(1) [OF s(4)] by linarith
    show ?case
    proof (cases "starts_with (CHR ''}'') (skip_ws r2)")
      case True
      then show ?thesis using 2 s r2 length_skip_tl [of r2] by auto
    next
      case False
      then show ?thesis
        using 2 s r2 length_skip_skip [of "CHR '',''" r2] Suc.IH(2) [of d "skip_ws (tl (skip_ws r2))"]
        by (fastforce simp: prepend_Inr split: if_split_asm)
    qed
  next
    case 3
    then obtain w r2 where s: "parse_value n d s = Inr (w, r2)"
      by (auto split: sum.split_asm)
    have r2: "length r2 < length s" by (rule Suc.IH(1) [OF s])
    show ?case
    proof (cases "starts_with (CHR '']'') (skip_ws r2)")
      case True
      then show ?thesis using 3 s r2 length_skip_tl [of r2] by auto
    next
      case False
      then show ?thesis
        using 3 s r2 length_skip_skip [of "CHR '',''" r2] Suc.IH(3) [of d "skip_ws (tl (skip_ws r2))"]
        by (fastforce simp: prepend_Inr split: if_split_asm)
    qed
  }
qed simp_all


lemma parse_fed:
  "2 * length s < n \<Longrightarrow> parse_value n d s \<noteq> Inl JSON_Starved"
  "2 * length s < n \<Longrightarrow> parse_members n d s \<noteq> Inl JSON_Starved"
  "2 * length s + 1 < n \<Longrightarrow> parse_elements n d s \<noteq> Inl JSON_Starved"
proof (induction n arbitrary: d s)
  case (Suc n)
  {
    case 1
    have inner: "2 * length (skip_ws (tl s)) + 1 < n" if "starts_with c s" for c
      using length_tl_less [OF that] 1 by linarith
    then show ?case
      using Suc.IH(2,3) [of "skip_ws (tl s)" "d - 1"] scan_string_no_starve [of "tl s"] scan_atom_no_starve [of s]
      by (auto split: sum.splits dest: inner)
  next
    case 2
    show ?case
    proof
      assume starved: "parse_members (Suc n) d s = Inl JSON_Starved"
      then obtain k r1 where s: "starts_with (CHR 0x22) s" "scan_string (tl s) = Inr (k, r1)"
        "starts_with (CHR '':'') (skip_ws r1)"
        using scan_string_no_starve [of "tl s"] by (auto split: if_split_asm sum.split_asm)
      have "length r1 < length (tl s)" by (rule scan_string_shorter [OF s(2)])
      then have x: "2 * length (skip_ws (tl (skip_ws r1))) < n"
        using length_skip_skip [OF s(3)] 2 by simp
      then obtain w r2 where v: "parse_value n d (skip_ws (tl (skip_ws r1))) = Inr (w, r2)"
        "starts_with (CHR '','') (skip_ws r2)" "parse_members n d (skip_ws (tl (skip_ws r2))) = Inl JSON_Starved"
        using starved s Suc.IH(1) [OF x] by (auto simp: prepend_Inl split: if_split_asm sum.split_asm)
      have "2 * length (skip_ws (tl (skip_ws r2))) < n"
        using length_skip_skip [OF v(2)] parse_shorter(1) [OF v(1)] x by linarith
      then show False using Suc.IH(2) v(3) by blast
    qed
  next
    case 3
    show ?case
    proof
      assume starved: "parse_elements (Suc n) d s = Inl JSON_Starved"
      have x: "2 * length s < n" using 3 by simp
      then obtain w r2 where v: "parse_value n d s = Inr (w, r2)"
        "starts_with (CHR '','') (skip_ws r2)" "parse_elements n d (skip_ws (tl (skip_ws r2))) = Inl JSON_Starved"
        using starved Suc.IH(1) [OF x] by (auto simp: prepend_Inl split: if_split_asm sum.split_asm)
      have "2 * length (skip_ws (tl (skip_ws r2))) + 1 < n"
        using length_skip_skip [OF v(2)] parse_shorter(1) [OF v(1)] x by linarith
      then show False using Suc.IH(3) v(3) by blast
    qed
  }
qed simp_all

declare parse_value.simps [simp del] parse_members.simps [simp del] parse_elements.simps [simp del]

theorem loads_never_starves: "loads depth s \<noteq> Inl JSON_Starved"
proof -
  have "parse_value (2 * length s + 2) depth (skip_ws s) \<noteq> Inl JSON_Starved"
    by (rule parse_fed(1)) (use length_skip_ws [of s] in linarith)
  then show ?thesis by (auto simp: loads_def split: sum.splits)
qed


subsection \<open>Reading back what was written\<close>

lemma of_char_eq_iff: "n < 256 \<Longrightarrow> (of_char c :: nat) = n \<longleftrightarrow> c = char_of n"
  by (metis char_of_char mod_less of_char_of)

lemma named_codes:
  "char_of (34 :: nat) = CHR 0x22" "char_of (92 :: nat) = CHR 0x5C" "char_of (8 :: nat) = CHR 0x08"
  "char_of (9 :: nat) = CHR 0x09" "char_of (10 :: nat) = CHR 0x0A" "char_of (12 :: nat) = CHR 0x0C"
  "char_of (13 :: nat) = CHR 0x0D"
  by code_simp+

lemma hex_value_digit: "n < 16 \<Longrightarrow> hex_value (hex_digit n) = Some n"
proof -
  assume n: "n < 16"
  have "list_all (\<lambda>n. hex_value (hex_digit n) = Some n) [0..<16]" by code_simp
  with n show ?thesis by (simp add: list_all_iff)
qed

lemma hex_value_zero: "hex_value (CHR ''0'') = Some 0"
  by (simp add: hex_value_def)

lemma scan_string_unicode:
  "a < 16 \<Longrightarrow> b < 16 \<Longrightarrow>
   scan_string ([CHR 0x5C, CHR ''u'', CHR ''0'', CHR ''0'', hex_digit a, hex_digit b] @ t) =
     prepend (char_of (16 * a + b)) (scan_string t)"
  by (simp add: hex_value_digit hex_value_zero)

lemma scan_string_simple:
  "simple_escape e = Some c \<Longrightarrow> e \<noteq> CHR ''u'' \<Longrightarrow> scan_string ([CHR 0x5C, e] @ t) = prepend c (scan_string t)"
  by simp

lemma scan_string_plain:
  "c \<noteq> CHR 0x22 \<Longrightarrow> c \<noteq> CHR 0x5C \<Longrightarrow> 32 \<le> (of_char c :: nat) \<Longrightarrow> scan_string ([c] @ t) = prepend c (scan_string t)"
  by simp

lemma scan_string_escape: "scan_string (escape_char c @ t) = prepend c (scan_string t)"
proof -
  let ?n = "of_char c :: nat"
  consider (plain) "32 \<le> ?n" "?n \<noteq> 34" "?n \<noteq> 92"
    | (named) "?n \<in> {34, 92, 8, 9, 10, 12, 13}"
    | (control) "?n < 32" "?n \<notin> {34, 92, 8, 9, 10, 12, 13}"
    by (cases "32 \<le> ?n") auto
  then show ?thesis
  proof cases
    case plain
    then have e: "escape_char c = [c]" by (simp add: escape_char_def)
    show ?thesis unfolding e by (rule scan_string_plain) (use plain in auto)
  next
    case named
    then obtain e where "escape_char c = [CHR 0x5C, e]" "simple_escape e = Some c" "e \<noteq> CHR ''u''"
      by (auto simp: escape_char_def simple_escape_def of_char_eq_iff named_codes)
    then show ?thesis using scan_string_simple by metis
  next
    case control
    then have e: "escape_char c = [CHR 0x5C, CHR ''u'', CHR ''0'', CHR ''0'', hex_digit (?n div 16), hex_digit (?n mod 16)]"
      by (simp add: escape_char_def Let_def)
    have "?n div 16 < 16" "?n mod 16 < 16" using control by simp_all
    then show ?thesis by (simp only: e scan_string_unicode) simp
  qed
qed


lemma prepend_Inr_Inr [simp]: "prepend c (Inr (cs, r)) = Inr (c # cs, r)"
  by (simp add: prepend_def)

lemma scan_string_quote: "scan_string (concat (map escape_char s) @ CHR 0x22 # r) = Inr (s, r)"
  by (induction s) (simp_all add: scan_string_escape del: scan_string.simps(2), simp)

lemma quote_append: "quote s @ r = CHR 0x22 # concat (map escape_char s) @ CHR 0x22 # r"
  by (simp add: quote_def)

text \<open>What can follow a value inside a document.\<close>

definition ends :: "pystr \<Rightarrow> bool" where
  "ends r \<longleftrightarrow> (case r of [] \<Rightarrow> True | c # _ \<Rightarrow> c \<in> {CHR '','', CHR '']'', CHR ''}''})"

lemma ends_simps [simp]: "ends []" "ends (CHR '','' # r)" "ends (CHR '']'' # r)" "ends (CHR ''}'' # r)"
  by (simp_all add: ends_def)

lemma is_digit_code: "is_digit c \<Longrightarrow> c \<notin> {CHR '','', CHR '']'', CHR ''}'', CHR ''-'', CHR 0x22, CHR ''{'', CHR ''['',
    CHR ''n'', CHR ''t'', CHR ''f'', CHR ''N'', CHR ''I'', CHR '' '', CHR 0x09, CHR 0x0A, CHR 0x0D}"
  by (auto simp: is_digit_def)

lemma ends_not_digit: "ends r \<Longrightarrow> takeWhile is_digit r = []"
  by (cases r) (auto simp: ends_def is_digit_def)

lemma ends_no_point: "ends r \<Longrightarrow> scan_fraction r = []" "ends r \<Longrightarrow> scan_exponent r = []"
  by (cases r; auto simp: ends_def scan_fraction_def scan_exponent_def)+

lemma hd_str_nat_zero: "hd (str_nat n) = CHR ''0'' \<Longrightarrow> n = 0"
proof (induction n rule: str_nat.induct)
  case (1 n)
  show ?case
  proof (cases "n < 10")
    case True
    then show ?thesis
      using 1 of_char_digit_char [OF True] by (simp add: str_nat.simps [of n])
  next
    case False
    then show ?thesis
      using 1 by (simp add: str_nat.simps [of n])
  qed
qed

lemma str_nat_Cons: "\<exists>c t. str_nat n = c # t \<and> is_digit c \<and> list_all is_digit t \<and> (c = CHR ''0'' \<longrightarrow> n = 0 \<and> t = [])"
proof (cases "str_nat n")
  case Nil
  then show ?thesis by simp
next
  case (Cons c t)
  have "n = 0" "t = []" if "c = CHR ''0''"
  proof -
    show "n = 0" using hd_str_nat_zero [of n] Cons that by simp
    then show "t = []" using Cons by (simp add: str_nat.simps [of 0])
  qed
  moreover have "is_digit c" "list_all is_digit t"
    using str_nat_digits [of _ n] Cons by (auto simp: list_all_iff)
  ultimately show ?thesis using Cons by blast
qed

lemma scan_number_nat:
  assumes "length (str_nat m) \<le> MAX_INT_DIGITS" and "ends r"
  shows "scan_number ((if neg then ''-'' else []) @ str_nat m @ r) = Inr (JInt (if neg then - int m else int m), r)"
proof -
  obtain c t where ct: "str_nat m = c # t" "is_digit c" "list_all is_digit t" "c = CHR ''0'' \<longrightarrow> m = 0 \<and> t = []"
    using str_nat_Cons [of m] by blast
  have "takeWhile is_digit (c # t @ r) = c # t"
    using ct(2,3) ends_not_digit [OF assms(2)] by (simp add: takeWhile_append2 list_all_iff)
  moreover have "c \<noteq> CHR ''-''" using is_digit_code [OF ct(2)] by simp
  moreover have "int_of_digits (c # t) = m" using int_of_digits_str_nat [of m] ct(1) by simp
  moreover have "int_of_digits ''0'' = 0" by (simp add: int_of_digits_def digit_val_def)
  ultimately show ?thesis
    using ct assms ends_no_point [OF assms(2)]
    by (auto simp: scan_number_def Let_def)
qed

lemma scan_atom_int:
  assumes "length (str_nat (nat \<bar>i\<bar>)) \<le> MAX_INT_DIGITS" and "ends r"
  shows "scan_atom (str_int i @ r) = Inr (JInt i, r)"
proof -
  obtain c t where ct: "str_nat (nat \<bar>i\<bar>) = c # t" "is_digit c"
    using str_nat_Cons [of "nat \<bar>i\<bar>"] by blast
  have s: "str_int i @ r = (if i < 0 then ''-'' else []) @ str_nat (nat \<bar>i\<bar>) @ r"
    by (simp add: str_int_def)
  have "find (\<lambda>(word, _). prefix word (str_int i @ r)) scan_constants = None"
    using ct(1) is_digit_code [OF ct(2)] by (auto simp: s scan_constants_def)
  then show ?thesis
    using scan_number_nat [OF assms, of "i < 0"] by (simp add: scan_atom_def s)
qed


text \<open>
  The values that can be written and read back: no float, integers the interpreter converts, dicts as their keys sorted
  strictly, and no deeper than \<open>depth\<close>.
\<close>

fun writable :: "nat \<Rightarrow> json \<Rightarrow> bool" where
  "writable depth (JInt i) = (length (str_nat (nat \<bar>i\<bar>)) \<le> MAX_INT_DIGITS)"
| "writable depth (JFloat lit) = False"
| "writable depth (JArray xs) = (0 < depth \<and> list_all (writable (depth - 1)) xs)"
| "writable depth (JObject kvs) =
     (0 < depth \<and> sorted_wrt (<) (map fst kvs) \<and> list_all (\<lambda>(k, v). writable (depth - 1) v) kvs)"
| "writable depth _ = True"

definition opens :: "pystr \<Rightarrow> bool" where
  "opens s \<longleftrightarrow> (case s of [] \<Rightarrow> False
     | c # _ \<Rightarrow> c \<notin> {CHR '','', CHR '']'', CHR ''}'', CHR '' '', CHR 0x09, CHR 0x0A, CHR 0x0D})"

lemma opens_append: "opens s \<Longrightarrow> opens (s @ t)"
  by (cases s) (simp_all add: opens_def)

lemma opens_skip_ws [simp]: "opens s \<Longrightarrow> skip_ws s = s"
  by (cases s) (auto simp: opens_def skip_ws_def)

lemma opens_starts: "opens s \<Longrightarrow> \<not> starts_with (CHR '']'') s" "opens s \<Longrightarrow> \<not> starts_with (CHR ''}'') s"
  by (cases s; auto simp: opens_def)+

lemma skip_ws_mark [simp]: "c \<in> {CHR '','', CHR '']'', CHR ''}'', CHR '':'', CHR 0x22} \<Longrightarrow> skip_ws (c # t) = c # t"
  by (auto simp: skip_ws_def)

lemma opens_canonical: "writable d j \<Longrightarrow> opens (canonical_json j)"
proof (cases j)
  case (JInt i)
  moreover obtain c t where "str_nat (nat \<bar>i\<bar>) = c # t" "is_digit c"
    using str_nat_Cons by blast
  ultimately show ?thesis
    using is_digit_code [of c] by (auto simp: opens_def str_int_def split: if_splits)
qed (auto simp: opens_def quote_def)

lemma opens_quote: "opens (quote k)"
  by (simp add: opens_def quote_def)


lemma comma_list_Cons: "xs \<noteq> [] \<Longrightarrow> comma_list (x # xs) = x @ CHR '','' # comma_list xs"
  by (cases xs) simp_all

lemma opens_comma_list: "xs \<noteq> [] \<Longrightarrow> opens (hd xs) \<Longrightarrow> opens (comma_list xs @ r)"
  by (cases xs; cases "tl xs") (simp_all add: opens_append)

lemma parse_elements_written:
  assumes "xs \<noteq> []"
    and "\<And>x n r. x \<in> set xs \<Longrightarrow> ends r \<Longrightarrow> 2 * length (f x @ r) < n \<Longrightarrow> parse_value n d (f x @ r) = Inr (x, r)"
    and "\<And>x. x \<in> set xs \<Longrightarrow> opens (f x)"
    and "2 * length (comma_list (map f xs) @ CHR '']'' # r) + 1 < n"
  shows "parse_elements n d (comma_list (map f xs) @ CHR '']'' # r) = Inr (xs, r)"
  using assms
proof (induction xs arbitrary: n rule: list_nonempty_induct)
  case (single x)
  then obtain m where n: "n = Suc m" by (cases n) simp_all
  with single have "parse_value m d (f x @ CHR '']'' # r) = Inr (x, CHR '']'' # r)" by simp
  then show ?case by (simp add: n parse_elements.simps)
next
  case (cons x xs)
  then obtain m where n: "n = Suc m" by (cases n) simp_all
  let ?t = "comma_list (map f xs) @ CHR '']'' # r"
  have t: "opens ?t" using cons by (intro opens_comma_list) (simp_all add: hd_map)
  have e: "comma_list (map f (x # xs)) @ CHR '']'' # r = f x @ CHR '','' # ?t"
    using cons by (simp add: comma_list_Cons)
  have len: "2 * length (f x @ CHR '','' # ?t) < m"
    using cons.prems(3) unfolding e n by simp
  have "parse_value m d (f x @ CHR '','' # ?t) = Inr (x, CHR '','' # ?t)"
    by (rule cons.prems(1)) (use len in simp_all)
  moreover have "parse_elements m d ?t = Inr (xs, r)"
    by (rule cons.IH) (use cons.prems(1,2) len in simp_all)
  ultimately show ?case unfolding e n by (simp add: parse_elements.simps t)
qed

lemma parse_members_written:
  assumes "kvs \<noteq> []"
    and "\<And>k v n r. (k, v) \<in> set kvs \<Longrightarrow> ends r \<Longrightarrow> 2 * length (f v @ r) < n \<Longrightarrow> parse_value n d (f v @ r) = Inr (v, r)"
    and "\<And>k v. (k, v) \<in> set kvs \<Longrightarrow> opens (f v)"
    and "2 * length (comma_list (map (\<lambda>(k, v). quote k @ CHR '':'' # f v) kvs) @ CHR ''}'' # r) < n"
  shows "parse_members n d (comma_list (map (\<lambda>(k, v). quote k @ CHR '':'' # f v) kvs) @ CHR ''}'' # r) = Inr (kvs, r)"
  using assms
proof (induction kvs arbitrary: n rule: list_nonempty_induct)
  case (single kv)
  obtain k v where kv: "kv = (k, v)" by fastforce
  from single obtain m where n: "n = Suc m" by (cases n) simp_all
  have "parse_value m d (f v @ CHR ''}'' # r) = Inr (v, CHR ''}'' # r)"
    using single.prems(1) [of k v "CHR ''}'' # r" m] single.prems(3) by (simp add: kv n)
  then show ?case
    using single.prems(2) [of k v] opens_append [of "f v" "CHR ''}'' # r"]
    by (simp add: kv n parse_members.simps quote_append scan_string_quote)
next
  case (cons kv kvs)
  obtain k v where kv: "kv = (k, v)" by fastforce
  let ?t = "comma_list (map (\<lambda>(k, v). quote k @ CHR '':'' # f v) kvs) @ CHR ''}'' # r"
  from cons obtain m where n: "n = Suc m" by (cases n) simp_all
  have t: "opens ?t" using cons(1) by (intro opens_comma_list) (simp_all add: hd_map opens_append opens_quote split_def)
  have e: "comma_list (map (\<lambda>(k, v). quote k @ CHR '':'' # f v) (kv # kvs)) @ CHR ''}'' # r =
      quote k @ CHR '':'' # f v @ CHR '','' # ?t"
    using cons(1) by (simp add: comma_list_Cons kv)
  have len: "2 * length (quote k @ CHR '':'' # f v @ CHR '','' # ?t) < n"
    using cons.prems(3) unfolding e by simp
  have "parse_value m d (f v @ CHR '','' # ?t) = Inr (v, CHR '','' # ?t)"
    by (rule cons.prems(1) [of k]) (use len in \<open>simp_all add: n kv\<close>)
  moreover have "parse_members m d ?t = Inr (kvs, r)"
  proof (rule cons.IH)
    show "2 * length ?t < m" using len by (simp add: n)
  qed (blast intro: cons.prems(1,2) list.set_intros)+
  moreover have "opens (f v @ CHR '','' # ?t)"
    using cons.prems(2) [of k v] by (intro opens_append) (simp add: kv)
  ultimately show ?case
    unfolding e n by (simp add: kv parse_members.simps quote_append [of k] scan_string_quote t)
qed

lemma foldl_dict_set_fresh: "distinct (map fst (d @ kvs)) \<Longrightarrow> foldl (\<lambda>d (k, v). dict_set d k v) d kvs = d @ kvs"
proof (induction kvs arbitrary: d)
  case (Cons kv kvs)
  obtain k v where kv: "kv = (k, v)" by fastforce
  have fresh: "AList.update k v d = d @ [(k, v)]" if "k \<notin> set (map fst d)" for d :: "('a \<times> 'b) list"
    using that by (induction d) auto
  show ?case using Cons by (auto simp: kv dict_set_def fresh)
qed simp

lemma as_dict_distinct: "distinct (map fst kvs) \<Longrightarrow> as_dict kvs = kvs"
  using foldl_dict_set_fresh [of "[]" kvs] by (simp add: as_dict_def)

lemma canonical_object:
  assumes "sorted_wrt (<) (map fst kvs)"
  shows "canonical_json (JObject kvs) =
    CHR ''{'' # comma_list (map (\<lambda>(k, v). quote k @ CHR '':'' # canonical_json v) kvs) @ ''}''"
proof -
  have "sorted (map fst (map (\<lambda>(k, v). (k, canonical_json v)) kvs))"
    using assms by (simp add: strict_sorted_imp_sorted split_def comp_def)
  then have "sort_key fst (map (\<lambda>(k, v). (k, canonical_json v)) kvs) = map (\<lambda>(k, v). (k, canonical_json v)) kvs"
    by (rule sort_key_id_if_sorted)
  then show ?thesis by (simp add: split_def comp_def)
qed


lemma parse_canonical:
  "writable d j \<Longrightarrow> ends r \<Longrightarrow> 2 * length (canonical_json j @ r) < n \<Longrightarrow>
   parse_value n d (canonical_json j @ r) = Inr (j, r)"
proof (induction j arbitrary: d n r)
  case JNull
  then obtain m where "n = Suc m" by (cases n) simp_all
  then show ?case by (simp add: parse_value.simps scan_atom_def scan_constants_def)
next
  case (JBool b)
  then obtain m where "n = Suc m" by (cases n) simp_all
  then show ?case by (simp add: parse_value.simps scan_atom_def scan_constants_def)
next
  case (JInt i)
  then obtain m where n: "n = Suc m" by (cases n) simp_all
  obtain c t where ct: "str_nat (nat \<bar>i\<bar>) = c # t" "is_digit c"
    using str_nat_Cons by blast
  have "str_int i = (if i < 0 then ''-'' else []) @ c # t"
    unfolding ct(1) [symmetric] by (simp add: str_int_def)
  then have "\<not> starts_with x (str_int i @ r)" if "x \<in> {CHR 0x22, CHR ''{'', CHR ''[''}" for x
    using is_digit_code [OF ct(2)] that by auto
  then show ?case
    using JInt scan_atom_int [of i r] by (simp add: n parse_value.simps)
next
  case (JFloat lit)
  then show ?case by simp
next
  case (JStr s)
  then obtain m where "n = Suc m" by (cases n) simp_all
  then show ?case by (simp add: parse_value.simps quote_append scan_string_quote)
next
  case (JArray xs)
  then obtain m where n: "n = Suc m" by (cases n) simp_all
  show ?case
  proof (cases "xs = []")
    case True
    then show ?thesis using JArray by (simp add: n parse_value.simps)
  next
    case False
    let ?t = "comma_list (map canonical_json xs) @ CHR '']'' # r"
    have w: "writable (d - 1) x" if "x \<in> set xs" for x
      using JArray.prems(1) that by (simp add: list_all_iff)
    have opened: "opens (canonical_json x)" if "x \<in> set xs" for x
      using opens_canonical [OF w [OF that]] .
    have t: "opens ?t"
      using False opened [of "hd xs"] by (intro opens_comma_list) (simp_all add: hd_map)
    have "parse_elements m (d - 1) ?t = Inr (xs, r)"
      by (rule parse_elements_written [OF False])
        (use JArray w opened in \<open>auto simp: n\<close>)
    then show ?thesis
      using JArray t opens_starts [OF t] by (simp add: n parse_value.simps)
  qed
next
  case (JObject kvs)
  then obtain m where n: "n = Suc m" by (cases n) simp_all
  have sorted: "sorted_wrt (<) (map fst kvs)" using JObject.prems(1) by simp
  then have dist: "as_dict kvs = kvs"
    by (intro as_dict_distinct) (simp add: strict_sorted_iff)
  note c = canonical_object [OF sorted]
  show ?case
  proof (cases "kvs = []")
    case True
    then show ?thesis using JObject by (simp add: n parse_value.simps)
  next
    case False
    let ?t = "comma_list (map (\<lambda>(k, v). quote k @ CHR '':'' # canonical_json v) kvs) @ CHR ''}'' # r"
    have w: "writable (d - 1) v" if "(k, v) \<in> set kvs" for k v
      using JObject.prems(1) that by (auto simp: list_all_iff)
    have t: "opens ?t"
      using False by (intro opens_comma_list) (simp_all add: hd_map opens_append opens_quote split_def)
    have len: "2 * length ?t < m"
      using JObject.prems(3) unfolding c n by simp
    have "parse_members m (d - 1) ?t = Inr (kvs, r)"
      by (rule parse_members_written [OF False])
        (use JObject.IH JObject.prems(2) w len in \<open>fastforce intro: opens_canonical\<close>)+
    then show ?thesis
      using JObject.prems(1) t opens_starts [OF t] unfolding c by (simp add: n parse_value.simps dist)
  qed
qed

theorem loads_canonical_json: "writable depth j \<Longrightarrow> loads depth (canonical_json j) = Inr j"
proof -
  assume w: "writable depth j"
  have "parse_value (2 * length (canonical_json j) + 2) depth (canonical_json j @ []) = Inr (j, [])"
    by (rule parse_canonical [OF w]) simp_all
  then show ?thesis
    using opens_canonical [OF w] by (simp add: loads_def)
qed

corollary canonical_json_inj:
  "writable d j \<Longrightarrow> writable d k \<Longrightarrow> canonical_json j = canonical_json k \<longleftrightarrow> j = k"
  by (metis loads_canonical_json sum.inject(2))

end
