(* ===== verification/Preview_Confirmation.thy ===== *)
theory Preview_Confirmation
  imports Json Python_Text
begin

text \<open>
  Preview confirmations (\<open>application/preview_confirmation.py\<close>): the signer that issues a token for a reviewed state and
  verifies a presented token against the state of the request to be executed.

  The keyed hash is a parameter \<open>mac key message\<close> that returns the digest's bytes. The clock is read by the caller and
  passed as a rational number of seconds (a float is one). \<open>depth\<close> is the nesting the interpreter allows to the JSON
  scanner. The messages of the exceptions are constants and left out.

  The lemmas show that a token is accepted for exactly the state it was issued for, until it expires, unless two different
  messages have the same keyed hash, and which inputs make \<open>verify\<close> raise something else than its own exception.
\<close>

datatype confirmation_error = PreviewConfirmationError | PreviewConfirmationConfigurationError | RecursionError

definition CONFIRMATION_SEMANTICS_VERSION :: pystr where
  "CONFIRMATION_SEMANTICS_VERSION = ''document-preview-confirmation-v1''"

definition DEFAULT_CONFIRMATION_TTL_SECONDS :: int where
  "DEFAULT_CONFIRMATION_TTL_SECONDS = 900"

definition MIN_SECRET_BYTES :: nat where
  "MIN_SECRET_BYTES = 32"

definition SEPARATOR :: pystr where
  "SEPARATOR = [CHR 0x1F]"

record confirmation_state =
  cf_normalized_document :: pystr
  cf_task :: pystr
  cf_document_type :: pystr
  cf_analysis_mode :: pystr
  cf_domain :: pystr
  cf_policy_version :: pystr
  cf_purpose :: pystr
  cf_requester_role :: "pystr option"
  cf_requested_pseudonym_scope :: pystr
  cf_governance_provider_class :: pystr
  cf_provider_class :: pystr
  cf_strategy :: pystr
  cf_treatment :: pystr
  cf_external_payload :: pystr

record confirmation_signer =
  sg_secret :: pystr
  sg_ttl_seconds :: int
  sg_durable :: bool

text \<open>\<open>bytes | str\<close>\<close>

datatype key_material = Raw_Bytes pystr | Text pystr

definition key_bytes :: "key_material \<Rightarrow> pystr" where
  "key_bytes m = (case m of Raw_Bytes b \<Rightarrow> b | Text t \<Rightarrow> utf8 t)"

definition mk_signer :: "key_material \<Rightarrow> int \<Rightarrow> bool \<Rightarrow> confirmation_error + confirmation_signer" where
  "mk_signer secret ttl_seconds durable =
     (let key = key_bytes secret in
      if length key < MIN_SECRET_BYTES then Inl PreviewConfirmationConfigurationError
      else if ttl_seconds \<le> 0 then Inl PreviewConfirmationConfigurationError
      else Inr \<lparr>sg_secret = key, sg_ttl_seconds = ttl_seconds, sg_durable = durable\<rparr>)"

text \<open>\<open>int(x)\<close> of a float.\<close>

definition trunc :: "rat \<Rightarrow> int" where
  "trunc x = (if 0 \<le> x then \<lfloor>x\<rfloor> else \<lceil>x\<rceil>)"

definition hexdigest :: "pystr \<Rightarrow> pystr" where
  "hexdigest raw = concat (map (\<lambda>c. [hex_digit (of_char c div 16), hex_digit (of_char c mod 16)]) raw)"

subsection \<open>What is signed\<close>

definition digest_material :: "pystr \<Rightarrow> pystr \<Rightarrow> pystr" where
  "digest_material field_name content =
     CONFIRMATION_SEMANTICS_VERSION @ SEPARATOR @ field_name @ SEPARATOR @ content"

definition digest :: "(pystr \<Rightarrow> pystr \<Rightarrow> pystr) \<Rightarrow> confirmation_signer \<Rightarrow> pystr \<Rightarrow> pystr \<Rightarrow> pystr" where
  "digest mac sg field_name content = hexdigest (mac (sg_secret sg) (utf8 (digest_material field_name content)))"

text \<open>\<open>claims[name]\<close>; every mapping the code passes has the name.\<close>

definition claim :: "(pystr \<times> json) list \<Rightarrow> pystr \<Rightarrow> json" where
  "claim claims name = dict_get_default claims name JNull"

definition signed_fields ::
  "(pystr \<Rightarrow> pystr \<Rightarrow> pystr) \<Rightarrow> confirmation_signer \<Rightarrow> confirmation_state \<Rightarrow> (pystr \<times> json) list \<Rightarrow> (pystr \<times> json) list" where
  "signed_fields mac sg st claims =
     [(''analysis_mode'', JStr (cf_analysis_mode st)),
      (''document_digest'', JStr (digest mac sg ''normalized_document'' (cf_normalized_document st))),
      (''document_type'', JStr (cf_document_type st)),
      (''domain'', JStr (cf_domain st)),
      (''expires_at'', claim claims ''expires_at''),
      (''external_payload_digest'', JStr (digest mac sg ''external_payload'' (cf_external_payload st))),
      (''governance_provider_class'', JStr (cf_governance_provider_class st)),
      (''issued_at'', claim claims ''issued_at''),
      (''policy_version'', JStr (cf_policy_version st)),
      (''provider_class'', JStr (cf_provider_class st)),
      (''purpose'', JStr (cf_purpose st)),
      (''requested_pseudonym_scope'', JStr (cf_requested_pseudonym_scope st)),
      (''requester_role'', (case cf_requester_role st of None \<Rightarrow> JNull | Some r \<Rightarrow> JStr r)),
      (''strategy'', JStr (cf_strategy st)),
      (''task_digest'', JStr (digest mac sg ''task'' (cf_task st))),
      (''treatment'', JStr (cf_treatment st)),
      (''version'', JStr CONFIRMATION_SEMANTICS_VERSION)]"

definition signed_document ::
  "(pystr \<Rightarrow> pystr \<Rightarrow> pystr) \<Rightarrow> confirmation_signer \<Rightarrow> confirmation_state \<Rightarrow> (pystr \<times> json) list \<Rightarrow> pystr" where
  "signed_document mac sg st claims = canonical_json (JObject (signed_fields mac sg st claims))"

definition mac_of :: "(pystr \<Rightarrow> pystr \<Rightarrow> pystr) \<Rightarrow> confirmation_signer \<Rightarrow> pystr \<Rightarrow> pystr" where
  "mac_of mac sg document = mac (sg_secret sg) (utf8 document)"

subsection \<open>Issuing and verifying\<close>

definition claims_issued :: "confirmation_signer \<Rightarrow> rat \<Rightarrow> (pystr \<times> json) list" where
  "claims_issued sg now =
     [(''expires_at'', JInt (trunc now + sg_ttl_seconds sg)), (''issued_at'', JInt (trunc now))]"

definition issue :: "(pystr \<Rightarrow> pystr \<Rightarrow> pystr) \<Rightarrow> confirmation_signer \<Rightarrow> rat \<Rightarrow> confirmation_state \<Rightarrow> pystr" where
  "issue mac sg now st =
     (let claims = claims_issued sg now
      in CONFIRMATION_SEMANTICS_VERSION @ ''.'' @ b64 (utf8 (canonical_json (JObject claims))) @ ''.'' @
         b64 (mac_of mac sg (signed_document mac sg st claims)))"

text \<open>\<open>isinstance(v, int)\<close>, which a bool satisfies, and the number it is.\<close>

definition int_of_json :: "json \<Rightarrow> int option" where
  "int_of_json v = (case v of JInt i \<Rightarrow> Some i | JBool b \<Rightarrow> Some (if b then 1 else 0) | _ \<Rightarrow> None)"

definition decode_json :: "nat \<Rightarrow> pystr \<Rightarrow> confirmation_error + json" where
  "decode_json depth segment =
     (case unb64 segment of
        None \<Rightarrow> Inl PreviewConfirmationError
      | Some raw \<Rightarrow>
          (case utf8_decode raw of
             None \<Rightarrow> Inl PreviewConfirmationError
           | Some txt \<Rightarrow>
               (case loads depth txt of
                  Inl e \<Rightarrow> Inl (if e = JSON_Recursion_Error then RecursionError else PreviewConfirmationError)
                | Inr v \<Rightarrow> Inr v)))"

definition parse_token :: "nat \<Rightarrow> pystr \<Rightarrow> confirmation_error + (pystr \<times> json) list \<times> pystr" where
  "parse_token depth token =
     (case split_on (CHR ''.'') token of
        [version, payload, tag] \<Rightarrow>
          if version \<noteq> CONFIRMATION_SEMANTICS_VERSION then Inl PreviewConfirmationError
          else (case decode_json depth payload of
                  Inl e \<Rightarrow> Inl e
                | Inr decoded \<Rightarrow>
                    (case unb64 tag of
                       None \<Rightarrow> Inl PreviewConfirmationError
                     | Some presented_mac \<Rightarrow>
                         (case decoded of
                            JObject kvs \<Rightarrow>
                              if set (map fst kvs) \<noteq> {''issued_at'', ''expires_at''} then Inl PreviewConfirmationError
                              else if list_all (\<lambda>name. int_of_json (claim kvs name) \<noteq> None) [''issued_at'', ''expires_at'']
                              then Inr (kvs, presented_mac)
                              else Inl PreviewConfirmationError
                          | _ \<Rightarrow> Inl PreviewConfirmationError)))
      | _ \<Rightarrow> Inl PreviewConfirmationError)"

definition verify ::
  "(pystr \<Rightarrow> pystr \<Rightarrow> pystr) \<Rightarrow> confirmation_signer \<Rightarrow> nat \<Rightarrow> rat \<Rightarrow> pystr \<Rightarrow> confirmation_state \<Rightarrow>
   confirmation_error + unit" where
  "verify mac sg depth now token st =
     (case parse_token depth token of
        Inl e \<Rightarrow> Inl e
      | Inr (claims, presented_mac) \<Rightarrow>
          if mac_of mac sg (signed_document mac sg st claims) \<noteq> presented_mac then Inl PreviewConfirmationError
          else (case int_of_json (claim claims ''expires_at'') of
                  None \<Rightarrow> Inl PreviewConfirmationError
                | Some expires_at \<Rightarrow>
                    if of_int expires_at < now then Inl PreviewConfirmationError else Inr ()))"


subsection \<open>Splitting a token\<close>

lemma split_on_none: "c \<notin> set s \<Longrightarrow> split_on c s = [s]"
  by (induction s) auto

lemma split_on_append: "c \<notin> set a \<Longrightarrow> split_on c (a @ c # b) = a # split_on c b"
  by (induction a) auto

lemma version_no_dot: "CHR ''.'' \<notin> set CONFIRMATION_SEMANTICS_VERSION"
  by (simp add: CONFIRMATION_SEMANTICS_VERSION_def)

lemma split_token:
  "split_on (CHR ''.'') (CONFIRMATION_SEMANTICS_VERSION @ CHR ''.'' # b64 x @ CHR ''.'' # b64 y) =
     [CONFIRMATION_SEMANTICS_VERSION, b64 x, b64 y]"
  using split_on_append [OF version_no_dot, of "b64 x @ CHR ''.'' # b64 y"]
  by (simp add: split_on_append split_on_none)

subsection \<open>A token approves one state\<close>

lemma hex_digit_inj: "a < 16 \<Longrightarrow> b < 16 \<Longrightarrow> hex_digit a = hex_digit b \<longleftrightarrow> a = b"
  by (metis hex_value_digit option.inject)

lemma hexdigest_inj [simp]: "hexdigest a = hexdigest b \<longleftrightarrow> a = b"
proof
  have nibbles: "c = d" if "(of_char c :: nat) div 16 = of_char d div 16" "(of_char c :: nat) mod 16 = of_char d mod 16" for c d
    using that by (metis char_of_char div_mult_mod_eq)
  have less: "(of_char c :: nat) div 16 < 16" "(of_char c :: nat) mod 16 < 16" for c
    using of_char_less [of c] by linarith+
  assume "hexdigest a = hexdigest b"
  then show "a = b"
  proof (induction a arbitrary: b)
    case Nil
    then show ?case by (cases b) (simp_all add: hexdigest_def)
  next
    case (Cons c a)
    then obtain d b' where b: "b = d # b'" by (cases b) (simp_all add: hexdigest_def)
    with Cons.prems have same: "c = d" "hexdigest a = hexdigest b'"
      using nibbles [of c d] by (simp_all add: hexdigest_def hex_digit_inj less)
    from Cons.IH [OF same(2)] show ?case using b same(1) by simp
  qed
qed simp

text \<open>What is hashed for a state, in order: the three sensitive fields and the document that holds their digests.\<close>

definition hashed_messages ::
  "(pystr \<Rightarrow> pystr \<Rightarrow> pystr) \<Rightarrow> confirmation_signer \<Rightarrow> rat \<Rightarrow> confirmation_state \<Rightarrow> pystr list" where
  "hashed_messages mac sg now st = map utf8
     [digest_material ''normalized_document'' (cf_normalized_document st),
      digest_material ''external_payload'' (cf_external_payload st),
      digest_material ''task'' (cf_task st),
      signed_document mac sg st (claims_issued sg now)]"

text \<open>No two messages at the same place are different and hashed alike.\<close>

definition no_collision :: "(pystr \<Rightarrow> pystr \<Rightarrow> pystr) \<Rightarrow> pystr \<Rightarrow> pystr list \<Rightarrow> pystr list \<Rightarrow> bool" where
  "no_collision mac key ms ms' = list_all2 (\<lambda>m m'. mac key m = mac key m' \<longrightarrow> m = m') ms ms'"

lemma signed_fields_sorted: "sorted_wrt (<) (map fst (signed_fields mac sg st claims))"
  by (simp add: signed_fields_def)

lemma signed_document_inj:
  assumes "list_all (\<lambda>name. writable 0 (claim claims name)) [''expires_at'', ''issued_at'']"
  shows "signed_document mac sg st claims = signed_document mac sg st' claims \<longleftrightarrow>
    signed_fields mac sg st claims = signed_fields mac sg st' claims"
proof -
  have "writable 1 (JObject (signed_fields mac sg s claims))" for s
    using assms signed_fields_sorted [of mac sg s claims]
    by (auto simp: signed_fields_def split: option.split)
  then show ?thesis by (simp add: signed_document_def canonical_json_inj [of 1] del: canonical_json.simps)
qed

lemma same_fields_same_state:
  assumes "signed_fields mac sg st claims = signed_fields mac sg st' claims"
    and "no_collision mac (sg_secret sg) (hashed_messages mac sg now st) (hashed_messages mac sg now st')"
  shows "st = st'"
proof -
  have "cf_normalized_document st = cf_normalized_document st'" "cf_external_payload st = cf_external_payload st'"
    "cf_task st = cf_task st'"
    using assms by (simp_all add: signed_fields_def no_collision_def hashed_messages_def digest_def digest_material_def)
  then show ?thesis
    using assms(1) by (auto simp: signed_fields_def intro!: confirmation_state.equality split: option.splits)
qed

lemma writable_int: "\<bar>i\<bar> < 10 ^ MAX_INT_DIGITS \<Longrightarrow> writable d (JInt i)"
proof -
  assume "\<bar>i\<bar> < 10 ^ MAX_INT_DIGITS"
  then have "nat \<bar>i\<bar> < 10 ^ MAX_INT_DIGITS" by (simp add: nat_less_iff)
  moreover have "0 < MAX_INT_DIGITS" by (simp add: MAX_INT_DIGITS_def)
  ultimately have "length (str_nat (nat \<bar>i\<bar>)) \<le> MAX_INT_DIGITS" by (rule length_str_nat)
  then show ?thesis by simp
qed

definition timestamps_fit :: "confirmation_signer \<Rightarrow> rat \<Rightarrow> bool" where
  "timestamps_fit sg now \<longleftrightarrow> \<bar>trunc now\<bar> < 10 ^ MAX_INT_DIGITS \<and> \<bar>trunc now + sg_ttl_seconds sg\<bar> < 10 ^ MAX_INT_DIGITS"

lemma claims_issued_claims [simp]:
  "claim (claims_issued sg now) ''expires_at'' = JInt (trunc now + sg_ttl_seconds sg)"
  "claim (claims_issued sg now) ''issued_at'' = JInt (trunc now)"
  by (simp_all add: claims_issued_def claim_def dict_get_default_def)

lemma decode_issued:
  assumes "1 \<le> depth" and "timestamps_fit sg now"
  shows "decode_json depth (b64 (utf8 (canonical_json (JObject (claims_issued sg now))))) = Inr (JObject (claims_issued sg now))"
proof -
  have "writable depth (JObject (claims_issued sg now))"
    using assms writable_int unfolding timestamps_fit_def by (auto simp: claims_issued_def simp del: writable.simps(1))
  then show ?thesis by (simp add: decode_json_def loads_canonical_json del: canonical_json.simps)
qed

lemma parse_issued:
  assumes "1 \<le> depth" and "timestamps_fit sg now"
  shows "parse_token depth (issue mac sg now st) =
    Inr (claims_issued sg now, mac_of mac sg (signed_document mac sg st (claims_issued sg now)))"
proof -
  have "set (map fst (claims_issued sg now)) = {''issued_at'', ''expires_at''}"
    by (auto simp: claims_issued_def)
  then show ?thesis
    using decode_issued [OF assms]
    by (simp add: parse_token_def issue_def Let_def split_token int_of_json_def del: canonical_json.simps)
qed

lemma verify_issued:
  assumes "1 \<le> depth" and "timestamps_fit sg now"
    and "no_collision mac (sg_secret sg) (hashed_messages mac sg now st) (hashed_messages mac sg now st')"
  shows "verify mac sg depth later (issue mac sg now st) st' =
    (if st' = st \<and> later \<le> of_int (trunc now + sg_ttl_seconds sg) then Inr () else Inl PreviewConfirmationError)"
proof (cases "st' = st")
  case True
  then show ?thesis
    using parse_issued [OF assms(1,2)] by (simp add: verify_def int_of_json_def not_le)
next
  case False
  let ?c = "claims_issued sg now"
  have "list_all (\<lambda>name. writable 0 (claim ?c name)) [''expires_at'', ''issued_at'']"
    using assms(2) writable_int unfolding timestamps_fit_def by (simp del: writable.simps(1))
  then have "signed_document mac sg st ?c \<noteq> signed_document mac sg st' ?c"
    using False same_fields_same_state [OF _ assms(3)] signed_document_inj by blast
  then have "mac_of mac sg (signed_document mac sg st' ?c) \<noteq> mac_of mac sg (signed_document mac sg st ?c)"
    using assms(3) by (auto simp: no_collision_def hashed_messages_def mac_of_def)
  then show ?thesis
    using False parse_issued [OF assms(1,2)] by (simp add: verify_def)
qed

subsection \<open>What else \<open>verify\<close> can do\<close>

lemma decode_json_errors: "decode_json depth s = Inl e \<Longrightarrow> e = PreviewConfirmationError \<or> e = RecursionError"
  by (auto simp: decode_json_def split: option.splits sum.splits if_splits)

lemma parse_token_errors: "parse_token depth token = Inl e \<Longrightarrow> e = PreviewConfirmationError \<or> e = RecursionError"
  using decode_json_errors
  by (auto simp: parse_token_def split: list.splits if_splits sum.splits option.splits json.splits)

text \<open>A token whose claims open one array more than the scanner can nest.\<close>

lemma parse_too_deep: "2 * d < n \<Longrightarrow> parse_value n d (replicate (Suc d) (CHR ''['')) = Inl JSON_Recursion_Error"
proof (induction d arbitrary: n)
  case 0
  then obtain m where "n = Suc m" by (cases n) simp_all
  then show ?case by (simp add: parse_value.simps)
next
  case (Suc d)
  then obtain k where "n = Suc k" by (cases n) simp_all
  with Suc.prems obtain m where n: "n = Suc (Suc m)" by (cases k) simp_all
  have "parse_value m d (replicate (Suc d) (CHR ''['')) = Inl JSON_Recursion_Error"
    using Suc by (simp add: n)
  then show ?case by (simp add: n parse_value.simps parse_elements.simps skip_ws_def)
qed

lemma loads_too_deep: "loads depth (replicate (Suc depth) (CHR ''['')) = Inl JSON_Recursion_Error"
proof -
  have "skip_ws (replicate (Suc depth) (CHR ''['')) = replicate (Suc depth) (CHR ''['')"
    by (simp add: skip_ws_def)
  moreover have "parse_value (2 * length (replicate (Suc depth) (CHR ''['')) + 2) depth (replicate (Suc depth) (CHR ''['')) =
      Inl JSON_Recursion_Error"
    by (rule parse_too_deep) simp
  ultimately show ?thesis by (simp only: loads_def sum.case)
qed

lemma timestamps_fit_small:
  "\<bar>trunc now\<bar> < 10 ^ 10 \<Longrightarrow> \<bar>trunc now + sg_ttl_seconds sg\<bar> < 10 ^ 10 \<Longrightarrow> timestamps_fit sg now"
proof -
  have "(10::int) ^ 10 \<le> 10 ^ MAX_INT_DIGITS"
    by (rule power_increasing) (simp_all add: MAX_INT_DIGITS_def)
  then show "\<bar>trunc now\<bar> < 10 ^ 10 \<Longrightarrow> \<bar>trunc now + sg_ttl_seconds sg\<bar> < 10 ^ 10 \<Longrightarrow> timestamps_fit sg now"
    unfolding timestamps_fit_def by linarith
qed

subsection \<open>Properties\<close>

definition sample_signer :: confirmation_signer where
  "sample_signer = \<lparr>sg_secret = replicate 32 (CHR ''k''), sg_ttl_seconds = DEFAULT_CONFIRMATION_TTL_SECONDS, sg_durable = True\<rparr>"

definition sample_state :: "pystr \<Rightarrow> confirmation_state" where
  "sample_state payload =
     \<lparr>cf_normalized_document = ''Employee: Ana'', cf_task = ''Summarize.'', cf_document_type = ''note'',
      cf_analysis_mode = ''single'', cf_domain = ''hr'', cf_policy_version = ''1'', cf_purpose = ''summary'',
      cf_requester_role = None, cf_requested_pseudonym_scope = ''document'', cf_governance_provider_class = ''external'',
      cf_provider_class = ''external'', cf_strategy = ''fixed'', cf_treatment = ''B1'', cf_external_payload = payload\<rparr>"

text \<open>
  C40: A token issued for a state is accepted until it expires and for that state only: presented with any other state, or
  later, it is rejected with \<open>PreviewConfirmationError\<close>, provided the messages hashed for the two states have no
  collision at the same place.
\<close>

theorem token_approves_one_state:
  assumes "1 \<le> depth" and "timestamps_fit sg now"
    and "no_collision mac (sg_secret sg) (hashed_messages mac sg now st) (hashed_messages mac sg now st')"
  shows "verify mac sg depth later (issue mac sg now st) st' =
    (if st' = st \<and> later \<le> of_int (trunc now + sg_ttl_seconds sg) then Inr () else Inl PreviewConfirmationError)"
  using assms by (rule verify_issued)

theorem token_approves_one_state_witness:
  "verify (\<lambda>k m. m) sample_signer 5 1900 (issue (\<lambda>k m. m) sample_signer 1000 (sample_state ''a'')) (sample_state ''a'') = Inr () \<and>
   verify (\<lambda>k m. m) sample_signer 5 1901 (issue (\<lambda>k m. m) sample_signer 1000 (sample_state ''a'')) (sample_state ''a'') =
     Inl PreviewConfirmationError \<and>
   verify (\<lambda>k m. m) sample_signer 5 1000 (issue (\<lambda>k m. m) sample_signer 1000 (sample_state ''a'')) (sample_state ''b'') =
     Inl PreviewConfirmationError"
proof -
  have fit: "timestamps_fit sample_signer 1000"
    by (rule timestamps_fit_small) (simp_all add: sample_signer_def trunc_def DEFAULT_CONFIRMATION_TTL_SECONDS_def)
  have free: "no_collision (\<lambda>k m. m) (sg_secret sample_signer) (hashed_messages (\<lambda>k m. m) sample_signer 1000 (sample_state x))
      (hashed_messages (\<lambda>k m. m) sample_signer 1000 (sample_state y))" for x y
    by (simp add: no_collision_def hashed_messages_def)
  have depth: "1 \<le> (5 :: nat)" by simp
  have ends: "trunc 1000 + sg_ttl_seconds sample_signer = 1900"
    by (simp add: sample_signer_def trunc_def DEFAULT_CONFIRMATION_TTL_SECONDS_def)
  have other: "sample_state ''b'' \<noteq> sample_state ''a''" by (simp add: sample_state_def)
  note t = token_approves_one_state [OF depth fit free, unfolded ends]
  show ?thesis unfolding t using other by simp
qed

text \<open>
  \<open>verify\<close> does not raise its own exception on every malformed token: when the claims open one array more than the
  interpreter can nest, the scanner's \<open>RecursionError\<close> passes its handlers.
\<close>

theorem deep_claims_raise_recursion_error:
  "verify mac sg depth now
     (CONFIRMATION_SEMANTICS_VERSION @ ''.'' @ b64 (utf8 (replicate (Suc depth) (CHR ''[''))) @ ''.'' @ b64 tag) st =
   Inl RecursionError"
  using loads_too_deep [of depth]
  by (simp add: verify_def parse_token_def split_token decode_json_def del: replicate.simps)

end
