(* ===== verification/Restore_Handle.thy ===== *)
theory Restore_Handle
  imports Preview_Confirmation Decision_Application
begin

text \<open>
  Restore handles (\<open>application/restore_handle.py\<close>): the sealer that encrypts the pseudonym table of a document into a
  handle and opens a presented handle, and \<open>restore_pseudonyms\<close>, which puts originals back into an edited text.

  The key derivation and the authenticated cipher come from the package \<open>cryptography\<close> and are a parameter, the record
  \<open>aead\<close>; what the code relies on is \<open>opens_what_it_sealed\<close>. The nonce and the clock are read by the caller. The value
  of a JSON float is only compared with 1: \<open>ae_float_is_one\<close> tells whether a literal is 1.0. Spans of the tracer carry
  counts and no state and are left out.

  The lemmas show that an issued handle opens to its entries until it expires, that the size of the plaintext is a
  multiple of the bucket, and what \<open>restore_pseudonyms\<close> can read of the table.
\<close>

datatype handle_error =
    RestoreHandleConfigurationError
  | RestoreUnavailableError
  | RestoreHandleExpiredError
  | RestoreHandleInvalidError
  | Handle_Recursion_Error

definition HANDLE_VERSION :: int where
  "HANDLE_VERSION = 1"

definition HANDLE_PREFIX :: pystr where
  "HANDLE_PREFIX = ''rh1''"

definition DEFAULT_TTL_SECONDS :: int where
  "DEFAULT_TTL_SECONDS = 86400"

definition MAX_TTL_SECONDS :: int where
  "MAX_TTL_SECONDS = 604800"

definition AAD :: pystr where
  "AAD = ''adg-restore-handle-v1''"

definition NONCE_BYTES :: nat where
  "NONCE_BYTES = 12"

definition PADDING_BUCKET_BYTES :: nat where
  "PADDING_BUCKET_BYTES = 256"

record aead =
  ae_derive_key :: "pystr \<Rightarrow> pystr"
  ae_encrypt :: "pystr \<Rightarrow> pystr \<Rightarrow> pystr \<Rightarrow> pystr \<Rightarrow> pystr"
  ae_decrypt :: "pystr \<Rightarrow> pystr \<Rightarrow> pystr \<Rightarrow> pystr \<Rightarrow> pystr option"
  ae_float_is_one :: "pystr \<Rightarrow> bool"

text \<open>Decryption with the same key, nonce and associated data undoes encryption; a ciphertext is not empty.\<close>

definition opens_what_it_sealed :: "aead \<Rightarrow> pystr \<Rightarrow> pystr \<Rightarrow> pystr \<Rightarrow> pystr \<Rightarrow> bool" where
  "opens_what_it_sealed ae aad key nonce plaintext \<longleftrightarrow>
     ae_decrypt ae key nonce (ae_encrypt ae key nonce plaintext aad) aad = Some plaintext \<and>
     ae_encrypt ae key nonce plaintext aad \<noteq> []"

record restore_sealer =
  rs_ttl_seconds :: int
  rs_key :: "pystr option"

definition mk_sealer :: "aead \<Rightarrow> key_material option \<Rightarrow> int \<Rightarrow> handle_error + restore_sealer" where
  "mk_sealer ae secret ttl_seconds =
     (if \<not> (0 < ttl_seconds \<and> ttl_seconds \<le> MAX_TTL_SECONDS) then Inl RestoreHandleConfigurationError
      else (case secret of
              None \<Rightarrow> Inr \<lparr>rs_ttl_seconds = ttl_seconds, rs_key = None\<rparr>
            | Some m \<Rightarrow>
                (let raw = key_bytes m in
                 if length raw < MIN_SECRET_BYTES then Inl RestoreHandleConfigurationError
                 else Inr \<lparr>rs_ttl_seconds = ttl_seconds, rs_key = Some (ae_derive_key ae raw)\<rparr>)))"

definition configured :: "restore_sealer \<Rightarrow> bool" where
  "configured s \<longleftrightarrow> rs_key s \<noteq> None"

definition require_configured :: "restore_sealer \<Rightarrow> handle_error + pystr" where
  "require_configured s = (case rs_key s of None \<Rightarrow> Inl RestoreUnavailableError | Some key \<Rightarrow> Inr key)"

definition with_pad :: "(pystr \<times> json) list \<Rightarrow> nat \<Rightarrow> pystr" where
  "with_pad payload n = utf8 (canonical_json (JObject (dict_set payload ''pad'' (JStr (replicate n (CHR ''0''))))))"

definition pad_to_bucket :: "(pystr \<times> json) list \<Rightarrow> pystr" where
  "pad_to_bucket payload =
     (let base_len = length (with_pad payload 0);
          remainder = base_len mod PADDING_BUCKET_BYTES;
          pad_len = (if remainder = 0 then 0 else PADDING_BUCKET_BYTES - remainder)
      in with_pad payload pad_len)"

record issued_restore_handle =
  ih_handle :: pystr
  ih_expires_at :: int

definition handle_payload :: "int \<Rightarrow> int \<Rightarrow> (pystr \<times> pystr) list \<Rightarrow> (pystr \<times> json) list" where
  "handle_payload issued_at expires_at entries =
     [(''v'', JInt HANDLE_VERSION), (''iat'', JInt issued_at), (''exp'', JInt expires_at),
      (''entries'', JObject (map (\<lambda>(p, orig). (p, JStr orig)) entries))]"

definition issue_handle ::
  "aead \<Rightarrow> restore_sealer \<Rightarrow> rat \<Rightarrow> pystr \<Rightarrow> (pystr \<times> pystr) list \<Rightarrow> handle_error + issued_restore_handle" where
  "issue_handle ae s now nonce entries =
     (case require_configured s of
        Inl e \<Rightarrow> Inl e
      | Inr key \<Rightarrow>
          (let issued_at = trunc now;
               expires_at = issued_at + rs_ttl_seconds s;
               plaintext = pad_to_bucket (handle_payload issued_at expires_at entries);
               ciphertext = ae_encrypt ae key nonce plaintext AAD
           in Inr \<lparr>ih_handle = HANDLE_PREFIX @ ''.'' @ b64 (nonce @ ciphertext), ih_expires_at = expires_at\<rparr>))"

text \<open>\<open>payload.get("v") == HANDLE_VERSION\<close>: \<open>True\<close> and \<open>1.0\<close> are equal to 1.\<close>

definition version_matches :: "aead \<Rightarrow> json option \<Rightarrow> bool" where
  "version_matches ae v =
     (case v of
        Some (JInt i) \<Rightarrow> i = HANDLE_VERSION
      | Some (JBool b) \<Rightarrow> b
      | Some (JFloat literal) \<Rightarrow> ae_float_is_one ae literal
      | _ \<Rightarrow> False)"

definition string_entries :: "(pystr \<times> json) list \<Rightarrow> (pystr \<times> pystr) list option" where
  "string_entries kvs =
     (if list_all (\<lambda>(k, v). case v of JStr _ \<Rightarrow> True | _ \<Rightarrow> False) kvs
      then Some (map (\<lambda>(k, v). (k, case v of JStr s \<Rightarrow> s | _ \<Rightarrow> [])) kvs)
      else None)"

definition read_payload :: "aead \<Rightarrow> json \<Rightarrow> (int \<times> (pystr \<times> pystr) list) option" where
  "read_payload ae payload =
     (case payload of
        JObject kvs \<Rightarrow>
          if \<not> version_matches ae (dict_get kvs ''v'') then None
          else (case (Option.bind (dict_get kvs ''exp'') int_of_json, dict_get kvs ''entries'') of
                  (Some expires_at, Some (JObject entries)) \<Rightarrow> map_option (Pair expires_at) (string_entries entries)
                | _ \<Rightarrow> None)
      | _ \<Rightarrow> None)"

text \<open>
  The envelope, which \<open>application/vault_explorer.py\<close> repeats with a tag and associated data of its own: a tag, a dot, and the
  nonce with the ciphertext.
\<close>

definition unseal :: "aead \<Rightarrow> pystr \<Rightarrow> pystr \<Rightarrow> pystr \<Rightarrow> pystr \<Rightarrow> pystr option" where
  "unseal ae tag aad key handle =
     (let prefix = takeWhile (\<lambda>c. c \<noteq> CHR ''.'') handle;
          blob = tl (dropWhile (\<lambda>c. c \<noteq> CHR ''.'') handle)
      in if blob = [] \<or> prefix \<noteq> tag then None
         else (case unb64 blob of
                 None \<Rightarrow> None
               | Some raw \<Rightarrow>
                   if length raw \<le> NONCE_BYTES then None
                   else ae_decrypt ae key (take NONCE_BYTES raw) (drop NONCE_BYTES raw) aad))"

definition open_handle ::
  "aead \<Rightarrow> restore_sealer \<Rightarrow> nat \<Rightarrow> rat \<Rightarrow> pystr \<Rightarrow> handle_error + (pystr \<times> pystr) list" where
  "open_handle ae s depth now handle =
     (case require_configured s of
        Inl e \<Rightarrow> Inl e
      | Inr key \<Rightarrow>
          (case unseal ae HANDLE_PREFIX AAD key handle of
             None \<Rightarrow> Inl RestoreHandleInvalidError
           | Some plaintext \<Rightarrow>
               (case utf8_decode plaintext of
                  None \<Rightarrow> Inl RestoreHandleInvalidError
                | Some txt \<Rightarrow>
                    (case loads depth txt of
                       Inl e \<Rightarrow> Inl (if e = JSON_Recursion_Error then Handle_Recursion_Error else RestoreHandleInvalidError)
                     | Inr payload \<Rightarrow>
                         (case read_payload ae payload of
                            None \<Rightarrow> Inl RestoreHandleInvalidError
                          | Some (expires_at, entries) \<Rightarrow>
                              if of_int expires_at < now then Inl RestoreHandleExpiredError else Inr entries)))))"

subsection \<open>Restoring a text\<close>

text \<open>\<open>PSEUDO-[A-Za-z0-9_]+-[0-9a-f]{32}(?:-\d+)?\<close>\<close>

definition ascii_word_char :: "char \<Rightarrow> bool" where
  "ascii_word_char c \<longleftrightarrow> is_upper c \<or> is_lower c \<or> is_digit c \<or> c = CHR ''_''"

definition lower_hex_char :: "char \<Rightarrow> bool" where
  "lower_hex_char c \<longleftrightarrow> is_digit c \<or> 97 \<le> (of_char c :: nat) \<and> (of_char c :: nat) \<le> 102"

definition PSEUDONYM_TOKEN_PATTERN :: re where
  "PSEUDONYM_TOKEN_PATTERN =
     sqs [lit ''PSEUDO-'', at_least 1 (Chr ascii_word_char), lit ''-'', times 32 (Chr lower_hex_char),
          opt (Sq (lit ''-'') (at_least 1 digit))]"

definition tokens_in :: "pystr \<Rightarrow> pystr list" where
  "tokens_in txt = map (\<lambda>(a, b, _). slice a b txt) (re_finditer PSEUDONYM_TOKEN_PATTERN txt)"

text \<open>
  \<open>set_order\<close> is the order in which the interpreter iterates over the set of the tokens found; the sort by length is stable
  and keeps it among tokens of equal length.
\<close>

definition restore_pseudonyms ::
  "(pystr list \<Rightarrow> pystr list) \<Rightarrow> pystr \<Rightarrow> (pystr, pystr) dict \<Rightarrow> pystr \<times> nat \<times> nat" where
  "restore_pseudonyms set_order txt mapping =
     (let present_tokens = set_order (remdups (tokens_in txt));
          resolvable = longest_first (filter (dict_has mapping) present_tokens);
          pairs = map (\<lambda>token. (token, the (dict_get mapping token))) resolvable;
          restored_count = length resolvable
      in (replace_ordered txt pairs, restored_count, length present_tokens - restored_count))"


subsection \<open>Written objects\<close>

lemma insort_key_map: "insort_key f (g x) (map g xs) = map g (insort_key (\<lambda>y. f (g y)) x xs)"
  by (induction xs) simp_all

lemma sort_key_map: "sort_key f (map g xs) = map g (sort_key (\<lambda>y. f (g y)) xs)"
  by (induction xs) (simp_all add: insort_key_map)

lemma canonical_json_object:
  "canonical_json (JObject kvs) =
     CHR ''{'' # comma_list (map (\<lambda>(k, v). quote k @ CHR '':'' # canonical_json v) (sort_key fst kvs)) @ ''}''"
  by (simp add: sort_key_map split_def comp_def)

text \<open>The order in which a dict was built does not matter.\<close>

lemma canonical_json_sorted: "canonical_json (JObject kvs) = canonical_json (JObject (sort_key fst kvs))"
  by (simp add: canonical_json_object sort_key_id_if_sorted del: canonical_json.simps)

lemma utf8_len_Cons: "utf8_len (c # s) = (if (of_char c :: nat) < 128 then 1 else 2) + utf8_len s"
  by (simp add: utf8_len_def)

lemma utf8_len_comma_list: "utf8_len (comma_list xs) = (\<Sum>x \<leftarrow> xs. utf8_len x) + (length xs - 1)"
  by (induction xs rule: comma_list.induct) (simp_all add: utf8_len_Cons)

definition member_len :: "pystr \<times> json \<Rightarrow> nat" where
  "member_len kv = utf8_len (quote (fst kv)) + 1 + utf8_len (canonical_json (snd kv))"

lemma sum_list_sort_key: "(\<Sum>x \<leftarrow> sort_key f xs. g x :: nat) = (\<Sum>x \<leftarrow> xs. g x)"
proof -
  have "mset (map g (sort_key f xs)) = mset (map g xs)" by simp
  then show ?thesis by (metis sum_mset_sum_list)
qed

lemma utf8_len_object:
  "utf8_len (canonical_json (JObject kvs)) = 2 + (\<Sum>kv \<leftarrow> kvs. member_len kv) + (length kvs - 1)"
proof -
  have "utf8_len (canonical_json (JObject kvs)) = 2 + (\<Sum>kv \<leftarrow> sort_key fst kvs. member_len kv) + (length kvs - 1)"
    by (simp add: canonical_json_object utf8_len_Cons utf8_len_comma_list member_len_def split_def comp_def
        del: canonical_json.simps)
  then show ?thesis by (simp only: sum_list_sort_key)
qed

lemma sum_list_update:
  "(\<Sum>kv \<leftarrow> AList.update k v kvs. h kv) + h (k, w) = (\<Sum>kv \<leftarrow> AList.update k w kvs. h kv) + (h (k, v) :: nat)"
  by (induction kvs) auto

lemma length_update_value: "length (AList.update k v kvs) = length (AList.update k w kvs)"
  by (induction kvs) auto

lemma utf8_len_zeros: "utf8_len (quote (replicate n (CHR ''0''))) = n + 2"
proof -
  have "concat (map escape_char (replicate n (CHR ''0''))) = replicate n (CHR ''0'')"
    by (induction n) (simp_all add: escape_char_def)
  moreover have "utf8_len (replicate n (CHR ''0'')) = n"
    by (induction n) (simp_all add: utf8_len_Cons)
  ultimately show ?thesis by (simp add: quote_def utf8_len_Cons)
qed

text \<open>The padding adds exactly the bytes it asks for.\<close>

lemma length_with_pad: "length (with_pad payload n) = length (with_pad payload 0) + n"
proof -
  let ?z = "\<lambda>n. JStr (replicate n (CHR ''0''))"
  have "(\<Sum>kv \<leftarrow> dict_set payload ''pad'' (?z n). member_len kv) + member_len (''pad'', ?z 0) =
      (\<Sum>kv \<leftarrow> dict_set payload ''pad'' (?z 0). member_len kv) + member_len (''pad'', ?z n)"
    unfolding dict_set_def by (rule sum_list_update)
  then have "(\<Sum>kv \<leftarrow> dict_set payload ''pad'' (?z n). member_len kv) =
      (\<Sum>kv \<leftarrow> dict_set payload ''pad'' (?z 0). member_len kv) + n"
    using utf8_len_zeros [of n] utf8_len_zeros [of 0] by (simp add: member_len_def)
  moreover have "length (dict_set payload ''pad'' (?z n)) = length (dict_set payload ''pad'' (?z 0))"
    unfolding dict_set_def by (rule length_update_value)
  ultimately show ?thesis
    unfolding with_pad_def length_utf8 utf8_len_object by simp
qed

lemma round_up: "(b::nat) + (if b mod 256 = 0 then 0 else 256 - b mod 256) = 256 * ((b + 255) div 256)"
proof (cases "b mod 256 = 0")
  case True
  then have "(b + 255) div 256 = b div 256" by (intro div_nat_eqI) auto
  then show ?thesis using True by auto
next
  case False
  define q r where "q = b div 256" and "r = b mod 256"
  have b: "b = 256 * q + r" "r < 256" "0 < r" using False by (simp_all add: q_def r_def)
  have "(256 * q + r + 255) div 256 = Suc q" by (rule div_nat_eqI) (use b(2,3) in simp_all)
  then show ?thesis using b by simp
qed

lemma pad_to_bucket_length:
  "length (pad_to_bucket payload) =
     PADDING_BUCKET_BYTES * ((length (with_pad payload 0) + PADDING_BUCKET_BYTES - 1) div PADDING_BUCKET_BYTES)"
proof -
  let ?b = "length (with_pad payload 0)"
  let ?p = "if ?b mod 256 = 0 then 0 else 256 - ?b mod 256"
  have "length (pad_to_bucket payload) = ?b + ?p"
    unfolding pad_to_bucket_def Let_def PADDING_BUCKET_BYTES_def by (rule length_with_pad)
  then show ?thesis unfolding round_up PADDING_BUCKET_BYTES_def by simp
qed


subsection \<open>An issued handle opens\<close>

definition sealed_payload :: "int \<Rightarrow> int \<Rightarrow> (pystr \<times> pystr) list \<Rightarrow> nat \<Rightarrow> (pystr \<times> json) list" where
  "sealed_payload issued_at expires_at entries n =
     [(''entries'', JObject (map (\<lambda>(p, orig). (p, JStr orig)) (sort_key fst entries))), (''exp'', JInt expires_at),
      (''iat'', JInt issued_at), (''pad'', JStr (replicate n (CHR ''0''))), (''v'', JInt HANDLE_VERSION)]"

lemma with_pad_handle_payload:
  "with_pad (handle_payload issued_at expires_at entries) n =
     utf8 (canonical_json (JObject (sealed_payload issued_at expires_at entries n)))"
proof -
  let ?e = "map (\<lambda>(p, orig). (p, JStr orig)) entries"
  let ?rest = "\<lambda>e. [(''v'', JInt HANDLE_VERSION), (''iat'', JInt issued_at), (''exp'', JInt expires_at), (''entries'', e),
      (''pad'', JStr (replicate n (CHR ''0'')))]"
  have set: "dict_set (handle_payload issued_at expires_at entries) ''pad'' (JStr (replicate n (CHR ''0''))) = ?rest (JObject ?e)"
    by (simp add: dict_set_def handle_payload_def)
  have "sort_key fst ?e = map (\<lambda>(p, orig). (p, JStr orig)) (sort_key fst entries)"
    by (simp add: sort_key_map split_def)
  then have inner: "canonical_json (JObject ?e) =
      canonical_json (JObject (map (\<lambda>(p, orig). (p, JStr orig)) (sort_key fst entries)))"
    using canonical_json_sorted [of ?e] by simp
  have "canonical_json (JObject (?rest a)) = canonical_json (JObject (?rest b))" if "canonical_json a = canonical_json b" for a b
    using that by simp
  from this [OF inner] have "canonical_json (JObject (?rest (JObject ?e))) =
      canonical_json (JObject (?rest (JObject (map (\<lambda>(p, orig). (p, JStr orig)) (sort_key fst entries)))))" .
  also have "\<dots> = canonical_json (JObject (sort_key fst
      (?rest (JObject (map (\<lambda>(p, orig). (p, JStr orig)) (sort_key fst entries))))))"
    by (rule canonical_json_sorted)
  also have "sort_key fst (?rest (JObject (map (\<lambda>(p, orig). (p, JStr orig)) (sort_key fst entries)))) =
      sealed_payload issued_at expires_at entries n"
    by (simp add: sealed_payload_def)
  finally show ?thesis by (simp only: with_pad_def set)
qed

lemma pad_to_bucket_is_with_pad: "\<exists>n. pad_to_bucket payload = with_pad payload n"
  by (auto simp: pad_to_bucket_def Let_def)

definition expiry_fits :: "restore_sealer \<Rightarrow> rat \<Rightarrow> bool" where
  "expiry_fits s now \<longleftrightarrow> \<bar>trunc now\<bar> < 10 ^ MAX_INT_DIGITS \<and> \<bar>trunc now + rs_ttl_seconds s\<bar> < 10 ^ MAX_INT_DIGITS"

lemma sealed_payload_writable:
  assumes "2 \<le> depth" and "distinct (map fst entries)"
    and "\<bar>issued_at\<bar> < 10 ^ MAX_INT_DIGITS" and "\<bar>expires_at\<bar> < 10 ^ MAX_INT_DIGITS"
  shows "writable depth (JObject (sealed_payload issued_at expires_at entries n))"
proof -
  have "sorted_wrt (<) (map fst (sort_key fst entries))"
    using assms(2) by (simp add: strict_sorted_iff distinct_map)
  then have "sorted_wrt (<) (map fst (map (\<lambda>(p, orig). (p, JStr orig)) (sort_key fst entries)))"
    by (simp add: split_def comp_def)
  moreover have "writable (depth - 1) (JInt 1)" "writable (depth - 1) (JInt issued_at)" "writable (depth - 1) (JInt expires_at)"
    using writable_int [OF assms(3)] writable_int [OF assms(4)] by (simp_all add: str_nat.simps [of "Suc 0"] MAX_INT_DIGITS_def)
  ultimately show ?thesis
    using assms(1) by (auto simp: sealed_payload_def HANDLE_VERSION_def list_all_iff split_def simp del: writable.simps(1))
qed

lemma string_entries_strings: "string_entries (map (\<lambda>(p, orig). (p, JStr orig)) es) = Some es"
  by (simp add: string_entries_def list_all_iff split_def comp_def)

lemma read_sealed_payload:
  "read_payload ae (JObject (sealed_payload issued_at expires_at entries n)) = Some (expires_at, sort_key fst entries)"
  by (simp add: read_payload_def sealed_payload_def dict_get_def version_matches_def int_of_json_def string_entries_strings)

lemma handle_prefix_no_dot: "CHR ''.'' \<notin> set HANDLE_PREFIX"
  by (simp add: HANDLE_PREFIX_def)

lemma unseal_sealed:
  assumes "CHR ''.'' \<notin> set tag" and "length nonce = NONCE_BYTES" and "opens_what_it_sealed ae aad key nonce plaintext"
  shows "unseal ae tag aad key (tag @ CHR ''.'' # b64 (nonce @ ae_encrypt ae key nonce plaintext aad)) = Some plaintext"
  using assms by (simp add: unseal_def takeWhile_upto dropWhile_upto opens_what_it_sealed_def)

lemma open_issued:
  assumes "rs_key s = Some key" and "length nonce = NONCE_BYTES" and "2 \<le> depth" and "distinct (map fst entries)"
    and "expiry_fits s now"
    and "opens_what_it_sealed ae AAD key nonce (pad_to_bucket (handle_payload (trunc now) (trunc now + rs_ttl_seconds s) entries))"
    and "issue_handle ae s now nonce entries = Inr issued"
  shows "open_handle ae s depth later (ih_handle issued) =
    (if later \<le> of_int (ih_expires_at issued) then Inr (sort_key fst entries) else Inl RestoreHandleExpiredError)"
proof -
  let ?i = "trunc now" and ?e = "trunc now + rs_ttl_seconds s"
  obtain n where n: "pad_to_bucket (handle_payload ?i ?e entries) =
      utf8 (canonical_json (JObject (sealed_payload ?i ?e entries n)))"
    using pad_to_bucket_is_with_pad [of "handle_payload ?i ?e entries"] by (auto simp: with_pad_handle_payload)
  have l: "loads depth (canonical_json (JObject (sealed_payload ?i ?e entries n))) = Inr (JObject (sealed_payload ?i ?e entries n))"
    using assms(3-5) by (intro loads_canonical_json sealed_payload_writable) (simp_all add: expiry_fits_def)
  have "ih_handle issued = HANDLE_PREFIX @ CHR ''.'' # b64 (nonce @
      ae_encrypt ae key nonce (pad_to_bucket (handle_payload ?i ?e entries)) AAD)" "ih_expires_at issued = ?e"
    using assms(1,7) by (auto simp: issue_handle_def require_configured_def Let_def)
  then show ?thesis
    using assms(1) unseal_sealed [OF handle_prefix_no_dot assms(2,6)]
    by (simp add: open_handle_def require_configured_def n l read_sealed_payload not_le del: canonical_json.simps)
qed

subsection \<open>What a restoration can read\<close>

lemma restore_reads_only_tokens_present:
  assumes "\<And>xs. set (set_order xs) = set xs"
    and "\<And>t. t \<in> set (tokens_in txt) \<Longrightarrow> dict_get m t = dict_get m' t"
  shows "restore_pseudonyms set_order txt m = restore_pseudonyms set_order txt m'"
proof -
  let ?present = "set_order (remdups (tokens_in txt))"
  have f: "filter (dict_has m) ?present = filter (dict_has m') ?present"
    using assms by (intro filter_cong) (auto simp: dict_has_get)
  have pairs: "map (\<lambda>t. (t, the (dict_get m t))) (longest_first (filter (dict_has m') ?present)) =
      map (\<lambda>t. (t, the (dict_get m' t))) (longest_first (filter (dict_has m') ?present))"
    using assms by (intro map_cong) (auto simp: longest_first_def)
  show ?thesis by (simp only: restore_pseudonyms_def Let_def f pairs)
qed


subsection \<open>Properties\<close>

text \<open>A cipher for the examples: the key and the nonce are ignored and a tag of one character is checked.\<close>

definition sample_aead :: aead where
  "sample_aead =
     \<lparr>ae_derive_key = (\<lambda>s. s), ae_encrypt = (\<lambda>key nonce plaintext aad. CHR ''!'' # plaintext),
      ae_decrypt = (\<lambda>key nonce c aad. if starts_with (CHR ''!'') c then Some (tl c) else None), ae_float_is_one = (\<lambda>_. False)\<rparr>"

definition sample_sealer :: restore_sealer where
  "sample_sealer = \<lparr>rs_ttl_seconds = DEFAULT_TTL_SECONDS, rs_key = Some (replicate 32 (CHR ''k''))\<rparr>"

text \<open>
  A handle issued for a table of pseudonyms opens, under the same key, to exactly this table (in the order of the
  pseudonyms) until its expiry; later it raises \<open>RestoreHandleExpiredError\<close>.
\<close>

theorem handle_opens_to_its_entries:
  assumes "rs_key s = Some key" and "length nonce = NONCE_BYTES" and "2 \<le> depth" and "distinct (map fst entries)"
    and "expiry_fits s now"
    and "opens_what_it_sealed ae AAD key nonce (pad_to_bucket (handle_payload (trunc now) (trunc now + rs_ttl_seconds s) entries))"
    and "issue_handle ae s now nonce entries = Inr issued"
  shows "open_handle ae s depth later (ih_handle issued) =
    (if later \<le> of_int (ih_expires_at issued) then Inr (sort_key fst entries) else Inl RestoreHandleExpiredError)"
  using assms by (rule open_issued)

theorem handle_opens_to_its_entries_witness:
  "case issue_handle sample_aead sample_sealer 1000 (replicate 12 (CHR ''n'')) [(''PSEUDO-B'', ''Rui''), (''PSEUDO-A'', ''Ana'')] of
     Inl e \<Rightarrow> False
   | Inr issued \<Rightarrow>
       open_handle sample_aead sample_sealer 9 87400 (ih_handle issued) = Inr [(''PSEUDO-A'', ''Ana''), (''PSEUDO-B'', ''Rui'')] \<and>
       open_handle sample_aead sample_sealer 9 87401 (ih_handle issued) = Inl RestoreHandleExpiredError"
proof -
  let ?es = "[(''PSEUDO-B'', ''Rui''), (''PSEUDO-A'', ''Ana'')]" and ?n = "replicate 12 (CHR ''n'')"
  have now: "trunc 1000 = 1000" by (simp add: trunc_def)
  have key: "rs_key sample_sealer = Some (replicate 32 (CHR ''k''))" by (simp add: sample_sealer_def)
  have nonce: "length ?n = NONCE_BYTES" by (simp add: NONCE_BYTES_def)
  have big: "(10::int) ^ 10 \<le> 10 ^ MAX_INT_DIGITS" by (rule power_increasing) (simp_all add: MAX_INT_DIGITS_def)
  have fit: "expiry_fits sample_sealer 1000"
    using big by (simp add: expiry_fits_def now sample_sealer_def DEFAULT_TTL_SECONDS_def)
  have opens: "opens_what_it_sealed sample_aead AAD key nonce p" for key nonce p
    by (simp add: opens_what_it_sealed_def sample_aead_def)
  obtain issued where i: "issue_handle sample_aead sample_sealer 1000 ?n ?es = Inr issued" "ih_expires_at issued = 87400"
    using key by (simp add: issue_handle_def require_configured_def Let_def now sample_sealer_def DEFAULT_TTL_SECONDS_def)
  have sorted: "sort_key fst ?es = [(''PSEUDO-A'', ''Ana''), (''PSEUDO-B'', ''Rui'')]" by simp
  note t = handle_opens_to_its_entries [OF key nonce _ _ fit opens i(1), unfolded i(2) sorted]
  show ?thesis unfolding i(1) using t [of 9 87400] t [of 9 87401] by simp
qed

text \<open>
  The plaintext of a handle is padded to the smallest multiple of 256 bytes that holds it, so its length tells the
  bucket and nothing else of the table.
\<close>

theorem plaintext_fills_buckets:
  "length (pad_to_bucket payload) =
     PADDING_BUCKET_BYTES * ((length (with_pad payload 0) + PADDING_BUCKET_BYTES - 1) div PADDING_BUCKET_BYTES)"
  by (rule pad_to_bucket_length)

text \<open>
  A pseudonym that is followed by a hyphen and digits is read as another token and is not put back, although the table
  holds it.
\<close>

definition sample_token :: pystr where
  "sample_token = ''PSEUDO-NAME-0123456789abcdef0123456789abcdef''"

lemma restored_alone:
  "restore_pseudonyms (\<lambda>xs. xs) sample_token [(sample_token, ''Ana'')] = (''Ana'', 1, 0)"
  by code_simp

lemma suffix_hides_token:
  "restore_pseudonyms (\<lambda>xs. xs) (sample_token @ ''-2024'') [(sample_token, ''Ana'')] = (sample_token @ ''-2024'', 0, 1)"
  by code_simp

end
