(* ===== verification/Vault_Explorer.thy ===== *)
theory Vault_Explorer
  imports Restore_Handle
begin

text \<open>
  The vault explorer (\<open>application/vault_explorer.py\<close>): a sealed reference to the pseudonyms of one decision, and the lookup
  of these pseudonyms in the vault when the reference is presented again. The key is drawn once per process and is an
  argument, like the nonce and the clock. Padding, encoding and envelope are those of \<open>Restore_Handle\<close>, which the source
  repeats verbatim.

  The lemmas show when a reference is issued and that it opens, over every later state of the vault, to the originals that
  the decision recorded.
\<close>

datatype explorer_error = VaultExplorerReferenceError | Explorer_Recursion_Error | Explorer_Value_Error

definition VAULT_EXPLORER_REFERENCE_TTL_SECONDS :: int where
  "VAULT_EXPLORER_REFERENCE_TTL_SECONDS = 900"

definition VX_PREFIX :: pystr where
  "VX_PREFIX = ''vx1''"

definition VX_AAD :: pystr where
  "VX_AAD = ''adg-vault-explorer-ref-v1''"

record vault_explorer_entry =
  ve_category :: pystr
  ve_pseudonym :: pystr
  ve_original :: "pystr option"
  ve_present :: bool

record vault_explorer_view =
  vv_scope :: "pystr option"
  vv_entries :: "vault_explorer_entry list"

subsection \<open>Issuing a reference\<close>

text \<open>The pseudonymized values of a decision, each pair of category and pseudonym once: the loop with its set \<open>seen\<close>.\<close>

fun pseudonymized_entries :: "(pystr \<times> pystr) list \<Rightarrow> transformation list \<Rightarrow> (pystr \<times> pystr \<times> pystr) list" where
  "pseudonymized_entries seen [] = []"
| "pseudonymized_entries seen (t # ts) =
     (case tr_transformed t of
        Some pseudonym \<Rightarrow>
          if tr_action t \<noteq> PSEUDONYMIZE \<or> (tr_category t, pseudonym) \<in> set seen then pseudonymized_entries seen ts
          else (tr_category t, pseudonym, tr_original t) # pseudonymized_entries ((tr_category t, pseudonym) # seen) ts
      | None \<Rightarrow> pseudonymized_entries seen ts)"

definition optional_str :: "pystr option \<Rightarrow> json" where
  "optional_str x = (case x of None \<Rightarrow> JNull | Some s \<Rightarrow> JStr s)"

definition reference_payload ::
  "int \<Rightarrow> pystr option \<Rightarrow> pystr option \<Rightarrow> (pystr \<times> pystr) list \<Rightarrow> (pystr \<times> json) list" where
  "reference_payload expires_at scope partition_key entries =
     [(''v'', JInt 1), (''exp'', JInt expires_at), (''scope'', optional_str scope),
      (''scope_key'', optional_str partition_key),
      (''entries'', JArray (map (\<lambda>(category, pseudonym). JObject [(''pseudonym'', JStr pseudonym), (''category'', JStr category)]) entries))]"

definition seal_reference ::
  "aead \<Rightarrow> pystr \<Rightarrow> rat \<Rightarrow> pystr \<Rightarrow> pystr option \<Rightarrow> pystr option \<Rightarrow> (pystr \<times> pystr) list \<Rightarrow> pystr" where
  "seal_reference ae key now nonce scope partition_key entries =
     (let issued_at = trunc now;
          expires_at = issued_at + VAULT_EXPLORER_REFERENCE_TTL_SECONDS;
          plaintext = pad_to_bucket (reference_payload expires_at scope partition_key entries);
          ciphertext = ae_encrypt ae key nonce plaintext VX_AAD
      in VX_PREFIX @ ''.'' @ b64 (nonce @ ciphertext))"

definition issue_reference ::
  "aead \<Rightarrow> pystr \<Rightarrow> rat \<Rightarrow> pystr \<Rightarrow> 'v vault_ops \<Rightarrow> 'v \<Rightarrow> policy_repository \<Rightarrow> disclosure_result \<Rightarrow>
   governance_context \<Rightarrow> pystr option" where
  "issue_reference ae key now nonce ops v repo res ctx =
     (if rs_status res \<noteq> Allowed then None
      else
        (let pseudonymized = pseudonymized_entries [] (rs_transformations res) in
         if pseudonymized = [] then Some (seal_reference ae key now nonce None None [])
         else
           (let scope = resolve_pseudonym_scope repo ctx in
            if scope = ORGANIZATION then None
            else (case scope_key scope ctx of
                    None \<Rightarrow> None
                  | Some partition_key \<Rightarrow>
                      if list_all (\<lambda>(category, pseudonym, orig). vo_reconstruct ops v scope partition_key pseudonym = Some orig)
                           pseudonymized
                      then Some (seal_reference ae key now nonce (Some (scope_value scope)) (Some partition_key)
                                   (map (\<lambda>(category, pseudonym, _). (category, pseudonym)) pseudonymized))
                      else None))))"

subsection \<open>Opening a reference\<close>

definition read_optional_str :: "json option \<Rightarrow> pystr option option" where
  "read_optional_str v =
     (case v of None \<Rightarrow> Some None | Some JNull \<Rightarrow> Some None | Some (JStr s) \<Rightarrow> Some (Some s) | _ \<Rightarrow> None)"

definition read_entry :: "json \<Rightarrow> (pystr \<times> pystr) option" where
  "read_entry e =
     (case e of
        JObject kvs \<Rightarrow>
          if set (map fst kvs) \<noteq> {''pseudonym'', ''category''} then None
          else (case (dict_get kvs ''category'', dict_get kvs ''pseudonym'') of
                  (Some (JStr category), Some (JStr pseudonym)) \<Rightarrow> Some (category, pseudonym)
                | _ \<Rightarrow> None)
      | _ \<Rightarrow> None)"

fun read_entries :: "json list \<Rightarrow> (pystr \<times> pystr) list option" where
  "read_entries [] = Some []"
| "read_entries (e # es) =
     (case read_entry e of
        None \<Rightarrow> None
      | Some x \<Rightarrow> map_option (Cons x) (read_entries es))"

text \<open>
  \<open>_is_valid_schema\<close>, with what the caller reads of a payload that passes it: the expiry, the scope with its partition key
  and the entries.
\<close>

definition read_reference ::
  "aead \<Rightarrow> json \<Rightarrow> (int \<times> (pystr \<times> pystr) option \<times> (pystr \<times> pystr) list) option" where
  "read_reference ae payload =
     (case payload of
        JObject kvs \<Rightarrow>
          if \<not> version_matches ae (dict_get kvs ''v'') then None
          else
            (case dict_get kvs ''exp'' of
               Some (JInt expires_at) \<Rightarrow>
                 (case (read_optional_str (dict_get kvs ''scope''), read_optional_str (dict_get kvs ''scope_key'')) of
                    (Some scope, Some partition_key) \<Rightarrow>
                      (if (scope = None) \<noteq> (partition_key = None) then None
                       else
                         (case dict_get kvs ''entries'' of
                            Some (JArray es) \<Rightarrow>
                              map_option
                                (\<lambda>entries. (expires_at,
                                   case (scope, partition_key) of (Some s, Some k) \<Rightarrow> Some (s, k) | _ \<Rightarrow> None, entries))
                                (read_entries es)
                          | _ \<Rightarrow> None))
                  | _ \<Rightarrow> None)
             | _ \<Rightarrow> None)
      | _ \<Rightarrow> None)"

definition open_reference ::
  "aead \<Rightarrow> pystr \<Rightarrow> nat \<Rightarrow> rat \<Rightarrow> pystr \<Rightarrow> explorer_error + (pystr \<times> pystr) option \<times> (pystr \<times> pystr) list" where
  "open_reference ae key depth now token =
     (case unseal ae VX_PREFIX VX_AAD key token of
        None \<Rightarrow> Inl VaultExplorerReferenceError
      | Some plaintext \<Rightarrow>
          (case utf8_decode plaintext of
             None \<Rightarrow> Inl VaultExplorerReferenceError
           | Some txt \<Rightarrow>
               (case loads depth txt of
                  Inl e \<Rightarrow> Inl (if e = JSON_Recursion_Error then Explorer_Recursion_Error else VaultExplorerReferenceError)
                | Inr payload \<Rightarrow>
                    (case read_reference ae payload of
                       None \<Rightarrow> Inl VaultExplorerReferenceError
                     | Some (expires_at, place, entries) \<Rightarrow>
                         if of_int expires_at < now then Inl VaultExplorerReferenceError else Inr (place, entries)))))"

text \<open>\<open>PseudonymScope(value)\<close>\<close>

definition scope_of_value :: "pystr \<Rightarrow> pseudonym_scope option" where
  "scope_of_value s = find (\<lambda>x. scope_value x = s) [REQUEST, DOCUMENT, SESSION, ORGANIZATION]"

definition explore ::
  "aead \<Rightarrow> pystr \<Rightarrow> nat \<Rightarrow> rat \<Rightarrow> 'v vault_ops \<Rightarrow> 'v \<Rightarrow> pystr \<Rightarrow> explorer_error + vault_explorer_view" where
  "explore ae key depth now ops v token =
     (case open_reference ae key depth now token of
        Inl e \<Rightarrow> Inl e
      | Inr (None, entries) \<Rightarrow> Inr \<lparr>vv_scope = None, vv_entries = []\<rparr>
      | Inr (Some (scope, partition_key), entries) \<Rightarrow>
          (case scope_of_value scope of
             None \<Rightarrow> Inl Explorer_Value_Error
           | Some s \<Rightarrow>
               Inr \<lparr>vv_scope = Some scope,
                    vv_entries = map (\<lambda>(category, pseudonym).
                      (let orig = vo_reconstruct ops v s partition_key pseudonym in
                       \<lparr>ve_category = category, ve_pseudonym = pseudonym, ve_original = orig, ve_present = orig \<noteq> None\<rparr>))
                      entries\<rparr>))"


subsection \<open>A reference opens to what was sealed\<close>

definition sorted_entry :: "pystr \<times> pystr \<Rightarrow> json" where
  "sorted_entry = (\<lambda>(category, pseudonym). JObject [(''category'', JStr category), (''pseudonym'', JStr pseudonym)])"

definition sealed_reference ::
  "int \<Rightarrow> pystr option \<Rightarrow> pystr option \<Rightarrow> (pystr \<times> pystr) list \<Rightarrow> nat \<Rightarrow> (pystr \<times> json) list" where
  "sealed_reference expires_at scope partition_key entries n =
     [(''entries'', JArray (map sorted_entry entries)), (''exp'', JInt expires_at),
      (''pad'', JStr (replicate n (CHR ''0''))), (''scope'', optional_str scope), (''scope_key'', optional_str partition_key),
      (''v'', JInt 1)]"

lemma canonical_entries:
  "canonical_json (JArray (map (\<lambda>(c, p). JObject [(''pseudonym'', JStr p), (''category'', JStr c)]) entries)) =
     canonical_json (JArray (map sorted_entry entries))"
proof -
  have "canonical_json (JObject [(''pseudonym'', JStr p), (''category'', JStr c)]) = canonical_json (sorted_entry (c, p))" for c p
    unfolding sorted_entry_def prod.case
    using canonical_json_sorted [of "[(''pseudonym'', JStr p), (''category'', JStr c)]"] by simp
  then have "map (canonical_json \<circ> (\<lambda>(c, p). JObject [(''pseudonym'', JStr p), (''category'', JStr c)])) entries =
      map (canonical_json \<circ> sorted_entry) entries"
    by (intro map_cong) (auto simp: split_def)
  then show ?thesis by (simp only: canonical_json.simps map_map)
qed

lemma with_pad_reference:
  "with_pad (reference_payload expires_at scope partition_key entries) n =
     utf8 (canonical_json (JObject (sealed_reference expires_at scope partition_key entries n)))"
proof -
  let ?e = "JArray (map (\<lambda>(c, p). JObject [(''pseudonym'', JStr p), (''category'', JStr c)]) entries)"
  let ?rest = "\<lambda>e. [(''v'', JInt 1), (''exp'', JInt expires_at), (''scope'', optional_str scope),
      (''scope_key'', optional_str partition_key), (''entries'', e), (''pad'', JStr (replicate n (CHR ''0'')))]"
  have set: "dict_set (reference_payload expires_at scope partition_key entries) ''pad'' (JStr (replicate n (CHR ''0''))) = ?rest ?e"
    by (simp add: dict_set_def reference_payload_def)
  have "canonical_json (JObject (?rest a)) = canonical_json (JObject (?rest b))" if "canonical_json a = canonical_json b" for a b
    using that by simp
  from this [OF canonical_entries]
  have "canonical_json (JObject (?rest ?e)) = canonical_json (JObject (?rest (JArray (map sorted_entry entries))))" .
  also have "\<dots> = canonical_json (JObject (sort_key fst (?rest (JArray (map sorted_entry entries)))))"
    by (rule canonical_json_sorted)
  also have "sort_key fst (?rest (JArray (map sorted_entry entries))) = sealed_reference expires_at scope partition_key entries n"
    by (simp add: sealed_reference_def)
  finally show ?thesis by (simp only: with_pad_def set)
qed

lemma sealed_reference_writable:
  assumes "3 \<le> depth" and "\<bar>expires_at\<bar> < 10 ^ MAX_INT_DIGITS"
  shows "writable depth (JObject (sealed_reference expires_at scope partition_key entries n))"
proof -
  have "writable (depth - 1) (JInt expires_at)" "writable (depth - 1) (JInt 1)"
    using writable_int [OF assms(2)] by (simp_all add: str_nat.simps [of "Suc 0"] MAX_INT_DIGITS_def)
  moreover have "writable d (optional_str x)" for d x by (simp add: optional_str_def split: option.split)
  moreover have "writable d (sorted_entry e)" if "1 \<le> d" for d e
    using that by (simp add: sorted_entry_def split_def)
  ultimately show ?thesis
    using assms(1) by (auto simp: sealed_reference_def list_all_iff simp del: writable.simps(1))
qed

lemma read_entries_sorted: "read_entries (map sorted_entry entries) = Some entries"
proof (induction entries)
  case (Cons e es)
  have "read_entry (sorted_entry e) = Some e"
    by (cases e) (auto simp: read_entry_def sorted_entry_def dict_get_def)
  then show ?case using Cons by simp
qed simp

lemma read_sealed_reference:
  "read_reference ae (JObject (sealed_reference expires_at (map_option fst place) (map_option snd place) entries n)) =
     Some (expires_at, place, entries)"
  by (cases place)
    (auto simp: read_reference_def sealed_reference_def dict_get_def version_matches_def HANDLE_VERSION_def
      read_optional_str_def optional_str_def read_entries_sorted)

lemma open_sealed_reference:
  assumes "length nonce = NONCE_BYTES" and "3 \<le> depth" and "\<bar>trunc now + VAULT_EXPLORER_REFERENCE_TTL_SECONDS\<bar> < 10 ^ MAX_INT_DIGITS"
    and "\<And>plaintext. opens_what_it_sealed ae VX_AAD key nonce plaintext"
  shows "open_reference ae key depth later (seal_reference ae key now nonce (map_option fst place) (map_option snd place) entries) =
    (if later \<le> of_int (trunc now + VAULT_EXPLORER_REFERENCE_TTL_SECONDS) then Inr (place, entries)
     else Inl VaultExplorerReferenceError)"
proof -
  let ?e = "trunc now + VAULT_EXPLORER_REFERENCE_TTL_SECONDS"
  let ?scope = "map_option fst place" and ?key = "map_option snd place"
  obtain n where n: "pad_to_bucket (reference_payload ?e ?scope ?key entries) =
      utf8 (canonical_json (JObject (sealed_reference ?e ?scope ?key entries n)))"
    using pad_to_bucket_is_with_pad [of "reference_payload ?e ?scope ?key entries"] by (auto simp: with_pad_reference)
  have l: "loads depth (canonical_json (JObject (sealed_reference ?e ?scope ?key entries n))) =
      Inr (JObject (sealed_reference ?e ?scope ?key entries n))"
    by (rule loads_canonical_json [OF sealed_reference_writable [OF assms(2,3)]])
  have dot: "CHR ''.'' \<notin> set VX_PREFIX" by (simp add: VX_PREFIX_def)
  show ?thesis
    using unseal_sealed [OF dot assms(1,4)]
    by (simp add: open_reference_def seal_reference_def Let_def n l read_sealed_reference not_le del: canonical_json.simps)
qed

lemma scope_of_value_value [simp]: "scope_of_value (scope_value s) = Some s"
  by (cases s) (simp_all add: scope_of_value_def)

text \<open>What a reference shows: each pseudonym of the decision with the original it stands for.\<close>

definition shown_entry :: "pystr \<times> pystr \<times> pystr \<Rightarrow> vault_explorer_entry" where
  "shown_entry = (\<lambda>(category, pseudonym, orig).
     \<lparr>ve_category = category, ve_pseudonym = pseudonym, ve_original = Some orig, ve_present = True\<rparr>)"

lemma explore_issued:
  assumes "issue_reference ae key now nonce ops v repo res ctx = Some token"
    and "length nonce = NONCE_BYTES" and "3 \<le> depth"
    and "\<bar>trunc now + VAULT_EXPLORER_REFERENCE_TTL_SECONDS\<bar> < 10 ^ MAX_INT_DIGITS"
    and "\<And>plaintext. opens_what_it_sealed ae VX_AAD key nonce plaintext"
    and "\<And>s k p x. vo_reconstruct ops v s k p = Some x \<Longrightarrow> vo_reconstruct ops v' s k p = Some x"
    and "later \<le> of_int (trunc now + VAULT_EXPLORER_REFERENCE_TTL_SECONDS)"
  shows "\<exists>scope. explore ae key depth later ops v' token =
    Inr \<lparr>vv_scope = scope, vv_entries = map shown_entry (pseudonymized_entries [] (rs_transformations res))\<rparr>"
proof -
  note opened = open_sealed_reference [OF assms(2-5), where later = later]
  show ?thesis
  proof (cases "pseudonymized_entries [] (rs_transformations res) = []")
    case True
    then have "token = seal_reference ae key now nonce (map_option fst None) (map_option snd None) []"
      using assms(1) by (auto simp: issue_reference_def split: if_splits)
    then show ?thesis using opened [of None "[]"] assms(7) True by (simp add: explore_def)
  next
    case False
    let ?ps = "pseudonymized_entries [] (rs_transformations res)"
    obtain partition_key where k: "scope_key (resolve_pseudonym_scope repo ctx) ctx = Some partition_key"
      "list_all (\<lambda>(_, p, x). vo_reconstruct ops v (resolve_pseudonym_scope repo ctx) partition_key p = Some x) ?ps"
      "token = seal_reference ae key now nonce (map_option fst (Some (scope_value (resolve_pseudonym_scope repo ctx), partition_key)))
         (map_option snd (Some (scope_value (resolve_pseudonym_scope repo ctx), partition_key)))
         (map (\<lambda>(category, pseudonym, _). (category, pseudonym)) ?ps)"
      using assms(1) False
      by (auto simp: issue_reference_def Let_def split: if_splits option.splits)
    have "map (\<lambda>(category, pseudonym). (let orig = vo_reconstruct ops v' (resolve_pseudonym_scope repo ctx) partition_key pseudonym in
         \<lparr>ve_category = category, ve_pseudonym = pseudonym, ve_original = orig, ve_present = orig \<noteq> None\<rparr>))
        (map (\<lambda>(category, pseudonym, _). (category, pseudonym)) ?ps) = map shown_entry ?ps"
      using assms(6) k(2) by (fastforce simp: shown_entry_def Let_def list_all_iff)
    then show ?thesis
      using opened [of "Some (scope_value (resolve_pseudonym_scope repo ctx), partition_key)"] assms(7)
      unfolding k(3) by (simp add: explore_def)
  qed
qed

end
