(* ===== verification/Real_Provider.thy ===== *)
theory Real_Provider
  imports Providers Python_Text
begin

text \<open>
  The adapter of the external provider (\<open>providers/anthropic_api.py\<close>), its configuration (\<open>providers/settings.py\<close>) and the
  local readiness check (\<open>providers/readiness.py\<close>).

  The client library is a parameter, the record \<open>sdk\<close>: what constructing its client and calling it do. Of an exception of
  the library the adapter reads the names of its class and of the bases, from the most specific one; of a message, the
  attributes of \<open>sdk_message\<close>. The environment of the process is the function \<open>getenv\<close>. A call that never ends has no
  duration.

  The lemmas show that a configuration outside the allow-list is never built, that an unknown provider name is never replaced
  by the offline provider, that one call is made at most, and what an answer or a failure of the adapter can carry.
\<close>

record host =
  getenv :: "pystr \<Rightarrow> pystr option"
  sdk_found :: bool
  sdk_installed_version :: "pystr option"

subsection \<open>Configuration\<close>

definition DEFAULT_PROVIDER_NAME :: pystr where
  "DEFAULT_PROVIDER_NAME = ''fake''"

definition ANTHROPIC_PROVIDER_NAME :: pystr where
  "ANTHROPIC_PROVIDER_NAME = ''anthropic''"

definition DEFAULT_ANTHROPIC_MODEL_ID :: pystr where
  "DEFAULT_ANTHROPIC_MODEL_ID = ''claude-opus-5''"

definition SUPPORTED_ANTHROPIC_MODEL_IDS :: "pystr list" where
  "SUPPORTED_ANTHROPIC_MODEL_IDS = [DEFAULT_ANTHROPIC_MODEL_ID]"

definition DEFAULT_API_KEY_ENV_VAR :: pystr where
  "DEFAULT_API_KEY_ENV_VAR = ''ANTHROPIC_API_KEY''"

definition VALID_EFFORT_LEVELS :: "pystr list" where
  "VALID_EFFORT_LEVELS = [''low'', ''medium'', ''high'', ''xhigh'', ''max'']"

definition VALID_THINKING_MODES :: "pystr list" where
  "VALID_THINKING_MODES = [''adaptive'', ''disabled'']"

definition EFFORT_LEVELS_REJECTING_DISABLED_THINKING :: "pystr list" where
  "EFFORT_LEVELS_REJECTING_DISABLED_THINKING = [''xhigh'', ''max'']"

definition PROMPT_SCAFFOLDING_VERSION :: pystr where
  "PROMPT_SCAFFOLDING_VERSION = ''t22-task-then-blank-line-then-payload-v1''"

definition DEFAULT_MAX_OUTPUT_TOKENS :: int where
  "DEFAULT_MAX_OUTPUT_TOKENS = 16000"

definition DEFAULT_EFFORT :: pystr where
  "DEFAULT_EFFORT = ''high''"

definition DEFAULT_THINKING_MODE :: pystr where
  "DEFAULT_THINKING_MODE = ''adaptive''"

definition DEFAULT_ANTHROPIC_TIMEOUT_SECONDS :: py_float where
  "DEFAULT_ANTHROPIC_TIMEOUT_SECONDS = Finite 60"

text \<open>The places that raise \<open>ProviderConfigurationError\<close>.\<close>

datatype configuration_refusal =
    Model_Id_Not_Validated
  | Base_Url_Override
  | Effort_Not_Valid
  | Thinking_Mode_Not_Valid
  | Disabled_Thinking_At_Effort
  | Max_Output_Tokens_Not_Positive
  | Timeout_Not_Positive
  | Not_An_Integer pystr
  | Not_A_Number_Of_Seconds pystr
  | Provider_Not_Recognized

record anthropic_config =
  ac_model_id :: pystr
  ac_max_output_tokens :: int
  ac_effort :: pystr
  ac_thinking_mode :: pystr
  ac_timeout_seconds :: py_float
  ac_base_url :: "pystr option"
  ac_api_key_env_var :: pystr

text \<open>\<open>__post_init__\<close>: the configuration itself, when it is accepted.\<close>

definition checked_config :: "anthropic_config \<Rightarrow> configuration_refusal + anthropic_config" where
  "checked_config cfg =
     (if ac_model_id cfg \<notin> set SUPPORTED_ANTHROPIC_MODEL_IDS then Inl Model_Id_Not_Validated
      else if ac_base_url cfg \<noteq> None then Inl Base_Url_Override
      else if ac_effort cfg \<notin> set VALID_EFFORT_LEVELS then Inl Effort_Not_Valid
      else if ac_thinking_mode cfg \<notin> set VALID_THINKING_MODES then Inl Thinking_Mode_Not_Valid
      else if ac_thinking_mode cfg = ''disabled'' \<and> ac_effort cfg \<in> set EFFORT_LEVELS_REJECTING_DISABLED_THINKING
        then Inl Disabled_Thinking_At_Effort
      else if ac_max_output_tokens cfg \<le> 0 then Inl Max_Output_Tokens_Not_Positive
      else if nonpositive (ac_timeout_seconds cfg) then Inl Timeout_Not_Positive
      else Inr cfg)"

definition default_config :: anthropic_config where
  "default_config =
     \<lparr>ac_model_id = DEFAULT_ANTHROPIC_MODEL_ID, ac_max_output_tokens = DEFAULT_MAX_OUTPUT_TOKENS,
      ac_effort = DEFAULT_EFFORT, ac_thinking_mode = DEFAULT_THINKING_MODE,
      ac_timeout_seconds = DEFAULT_ANTHROPIC_TIMEOUT_SECONDS, ac_base_url = None,
      ac_api_key_env_var = DEFAULT_API_KEY_ENV_VAR\<rparr>"

subsection \<open>The environment\<close>

text \<open>\<open>os.getenv(name) or default\<close>\<close>

definition getenv_or :: "host \<Rightarrow> pystr \<Rightarrow> pystr \<Rightarrow> pystr" where
  "getenv_or h name dflt = (case getenv h name of None \<Rightarrow> dflt | Some v \<Rightarrow> if v = [] then dflt else v)"

definition provider_name :: "host \<Rightarrow> pystr" where
  "provider_name h =
     (let v = str_lower (str_strip (getenv_or h ''ADG_PROVIDER'' []))
      in if v = [] then DEFAULT_PROVIDER_NAME else v)"

definition real_provider_enabled :: "host \<Rightarrow> bool" where
  "real_provider_enabled h \<longleftrightarrow> provider_name h = ANTHROPIC_PROVIDER_NAME"

definition float_env :: "host \<Rightarrow> pystr \<Rightarrow> py_float \<Rightarrow> configuration_refusal + py_float" where
  "float_env h name dflt =
     (case getenv h name of
        None \<Rightarrow> Inr dflt
      | Some raw \<Rightarrow>
          if is_blank raw then Inr dflt
          else (case py_float raw of None \<Rightarrow> Inl (Not_A_Number_Of_Seconds name) | Some x \<Rightarrow> Inr x))"

definition int_env :: "host \<Rightarrow> pystr \<Rightarrow> int \<Rightarrow> configuration_refusal + int" where
  "int_env h name dflt =
     (case getenv h name of
        None \<Rightarrow> Inr dflt
      | Some raw \<Rightarrow>
          if is_blank raw then Inr dflt
          else (case py_int raw of None \<Rightarrow> Inl (Not_An_Integer name) | Some n \<Rightarrow> Inr n))"

definition anthropic_config_from_env :: "host \<Rightarrow> configuration_refusal + anthropic_config" where
  "anthropic_config_from_env h =
     (case int_env h ''ADG_ANTHROPIC_MAX_OUTPUT_TOKENS'' DEFAULT_MAX_OUTPUT_TOKENS of
        Inl e \<Rightarrow> Inl e
      | Inr tokens \<Rightarrow>
          (case float_env h ''ADG_ANTHROPIC_TIMEOUT_SECONDS'' DEFAULT_ANTHROPIC_TIMEOUT_SECONDS of
             Inl e \<Rightarrow> Inl e
           | Inr timeout \<Rightarrow>
               checked_config
                 \<lparr>ac_model_id = getenv_or h ''ADG_ANTHROPIC_MODEL_ID'' DEFAULT_ANTHROPIC_MODEL_ID,
                  ac_max_output_tokens = tokens,
                  ac_effort = getenv_or h ''ADG_ANTHROPIC_EFFORT'' DEFAULT_EFFORT,
                  ac_thinking_mode = getenv_or h ''ADG_ANTHROPIC_THINKING'' DEFAULT_THINKING_MODE,
                  ac_timeout_seconds = timeout,
                  ac_base_url = (let url = getenv_or h ''ADG_ANTHROPIC_BASE_URL'' [] in if url = [] then None else Some url),
                  ac_api_key_env_var = getenv_or h ''ADG_ANTHROPIC_API_KEY_ENV_VAR'' DEFAULT_API_KEY_ENV_VAR\<rparr>))"

text \<open>
  The Python class of a provider, as \<open>isinstance\<close> reads it, with the attributes that the checks of readiness and health read
  of it.
\<close>

datatype provider_type =
    Fake_Provider
  | Anthropic_Provider anthropic_config
  | Other_Provider (other_model_id: "pystr option") (other_model_snapshot: "pystr option")

definition build_provider_from_env :: "host \<Rightarrow> configuration_refusal + provider_type" where
  "build_provider_from_env h =
     (let name = provider_name h
      in if name = DEFAULT_PROVIDER_NAME then Inr Fake_Provider
         else if name = ANTHROPIC_PROVIDER_NAME
           then (case anthropic_config_from_env h of Inl e \<Rightarrow> Inl e | Inr cfg \<Rightarrow> Inr (Anthropic_Provider cfg))
         else Inl Provider_Not_Recognized)"

subsection \<open>Readiness\<close>

definition REASON_PROVIDER_CREDENTIAL_MISSING :: pystr where
  "REASON_PROVIDER_CREDENTIAL_MISSING = ''provider_credential_missing''"

definition REASON_PROVIDER_SDK_UNAVAILABLE :: pystr where
  "REASON_PROVIDER_SDK_UNAVAILABLE = ''provider_sdk_unavailable''"

definition REASON_PROVIDER_UNRECOGNIZED :: pystr where
  "REASON_PROVIDER_UNRECOGNIZED = ''provider_unrecognized''"

definition anthropic_provider_readiness :: "host \<Rightarrow> anthropic_config \<Rightarrow> bool \<times> pystr option" where
  "anthropic_provider_readiness h cfg =
     (case getenv h (ac_api_key_env_var cfg) of
        None \<Rightarrow> (False, Some REASON_PROVIDER_CREDENTIAL_MISSING)
      | Some api_key \<Rightarrow>
          if is_blank api_key then (False, Some REASON_PROVIDER_CREDENTIAL_MISSING)
          else if \<not> sdk_found h then (False, Some REASON_PROVIDER_SDK_UNAVAILABLE)
          else (True, None))"

definition provider_readiness :: "host \<Rightarrow> provider_type \<Rightarrow> bool \<times> pystr option" where
  "provider_readiness h t =
     (case t of
        Fake_Provider \<Rightarrow> (True, None)
      | Anthropic_Provider cfg \<Rightarrow> anthropic_provider_readiness h cfg
      | Other_Provider _ _ \<Rightarrow> (False, Some REASON_PROVIDER_UNRECOGNIZED))"


subsection \<open>The client\<close>

record client_kwargs =
  ck_api_key :: pystr
  ck_timeout :: py_float
  ck_max_retries :: nat
  ck_base_url :: "pystr option"

record message_request =
  rk_model :: pystr
  rk_max_tokens :: int
  rk_messages :: "(pystr \<times> pystr) list"
  rk_effort :: pystr
  rk_thinking :: pystr

record sdk_block =
  bk_type :: "pystr option"
  bk_text :: "pystr option"

record sdk_usage =
  us_input_tokens :: "int option"
  us_output_tokens :: "int option"
  us_cache_creation_input_tokens :: "int option"
  us_cache_read_input_tokens :: "int option"

record sdk_message =
  ms_stop_reason :: "pystr option"
  ms_content :: "sdk_block list option"
  ms_model :: "pystr option"
  ms_usage :: "sdk_usage option"

text \<open>
  Constructing the client yields it, or nothing when that raises. A call yields how long it takes and its message, or the names
  of the classes of the exception it raises, in method resolution order.
\<close>

record 'c sdk =
  sdk_client :: "client_kwargs \<Rightarrow> 'c option"
  sdk_create :: "'c \<Rightarrow> message_request \<Rightarrow> rat option \<times> (pystr list + sdk_message)"

text \<open>The raise sites of the adapter, and an exception that is not a \<open>ProviderError\<close>.\<close>

datatype adapter_failure =
    Sdk_Not_Installed
  | Credential_Missing pystr
  | Call_Failed pystr bool
  | Declined
  | Truncated
  | No_Text_Block
  | Unexpected_Exception

definition TIMEOUT_EXCEPTION_NAMES :: "pystr list" where
  "TIMEOUT_EXCEPTION_NAMES = [''APITimeoutError'']"

definition NORMALIZED_FAILURE_REASONS :: "(pystr, pystr) dict" where
  "NORMALIZED_FAILURE_REASONS =
     [(''AuthenticationError'', ''authentication_rejected''),
      (''PermissionDeniedError'', ''permission_denied''),
      (''NotFoundError'', ''model_or_endpoint_not_found''),
      (''RateLimitError'', ''rate_limited''),
      (''BadRequestError'', ''request_rejected''),
      (''APIStatusError'', ''api_status_error''),
      (''APIConnectionError'', ''connection_failed'')]"

definition UNCLASSIFIED_FAILURE_REASON :: pystr where
  "UNCLASSIFIED_FAILURE_REASON = ''unclassified_provider_failure''"

text \<open>The message of each exception the adapter raises; \<open>repr\<close> of a string is a parameter.\<close>

definition failure_message :: "(pystr \<Rightarrow> pystr) \<Rightarrow> adapter_failure \<Rightarrow> pystr option" where
  "failure_message repr_of f =
     (case f of
        Sdk_Not_Installed \<Rightarrow>
          Some (''the anthropic SDK is not installed; install the 'anthropic' optional extra '' @
                ''before selecting the real provider'')
      | Credential_Missing var \<Rightarrow>
          Some (''no API credential is available for the real provider: environment variable '' @ repr_of var @
                '' is unset or empty'')
      | Call_Failed reason _ \<Rightarrow> Some (''anthropic provider call failed ('' @ reason @ '')'')
      | Declined \<Rightarrow> Some ''anthropic provider declined the request (stop_reason refusal)''
      | Truncated \<Rightarrow>
          Some (''anthropic provider response was truncated at the configured max output token limit '' @
                ''(stop_reason max_tokens)'')
      | No_Text_Block \<Rightarrow> Some ''anthropic provider returned no text block in its response content''
      | Unexpected_Exception \<Rightarrow> None)"

text \<open>How \<open>invoke_provider\<close> sees a failure.\<close>

definition raised :: "adapter_failure \<Rightarrow> generated" where
  "raised f =
     (case f of
        Sdk_Not_Installed \<Rightarrow> Raises_Provider_Error \<lparr>pf_kind = ''ProviderError'', pf_invoked = False\<rparr>
      | Credential_Missing _ \<Rightarrow> Raises_Provider_Error \<lparr>pf_kind = ''ProviderError'', pf_invoked = False\<rparr>
      | Call_Failed _ is_timeout \<Rightarrow>
          Raises_Provider_Error
            \<lparr>pf_kind = (if is_timeout then ''ProviderTimeoutError'' else ''ProviderError''), pf_invoked = True\<rparr>
      | Declined \<Rightarrow> Raises_Provider_Error \<lparr>pf_kind = ''ProviderError'', pf_invoked = True\<rparr>
      | Truncated \<Rightarrow> Raises_Provider_Error \<lparr>pf_kind = ''ProviderError'', pf_invoked = True\<rparr>
      | No_Text_Block \<Rightarrow> Raises_Provider_Error \<lparr>pf_kind = ''ProviderError'', pf_invoked = True\<rparr>
      | Unexpected_Exception \<Rightarrow> Raises_Other)"

definition build_anthropic_client :: "host \<Rightarrow> 'c sdk \<Rightarrow> anthropic_config \<Rightarrow> adapter_failure + 'c" where
  "build_anthropic_client h sdk cfg =
     (if \<not> sdk_found h then Inl Sdk_Not_Installed
      else (case getenv_or h (ac_api_key_env_var cfg) [] of
              [] \<Rightarrow> Inl (Credential_Missing (ac_api_key_env_var cfg))
            | c # cs \<Rightarrow>
                (case sdk_client sdk \<lparr>ck_api_key = c # cs, ck_timeout = ac_timeout_seconds cfg, ck_max_retries = 0,
                                      ck_base_url = ac_base_url cfg\<rparr> of
                   None \<Rightarrow> Inl Unexpected_Exception
                 | Some client \<Rightarrow> Inr client)))"

fun failure_reason :: "pystr list \<Rightarrow> pystr \<times> bool" where
  "failure_reason [] = (UNCLASSIFIED_FAILURE_REASON, False)"
| "failure_reason (name # mro) =
     (if name \<in> set TIMEOUT_EXCEPTION_NAMES then (''transport_timeout'', True)
      else (case dict_get NORMALIZED_FAILURE_REASONS name of
              Some reason \<Rightarrow> (reason, False)
            | None \<Rightarrow> failure_reason mro))"



subsection \<open>The adapter\<close>

text \<open>The provider object; the client is built on the first call and kept.\<close>

record 'c anthropic_provider =
  ap_config :: anthropic_config
  ap_client :: "'c option"

definition PROVIDER_CLASS :: pystr where
  "PROVIDER_CLASS = ''external_llm''"

definition MODEL_SNAPSHOT_UNAVAILABLE :: pystr where
  "MODEL_SNAPSHOT_UNAVAILABLE = ''model_snapshot_unavailable''"

definition repr_anthropic_provider :: "(pystr \<Rightarrow> pystr) \<Rightarrow> 'c anthropic_provider \<Rightarrow> pystr" where
  "repr_anthropic_provider repr_of ap =
     ''AnthropicProvider(model_id='' @ repr_of (ac_model_id (ap_config ap)) @ '', provider_class='' @
     repr_of PROVIDER_CLASS @ '')''"

definition active_client ::
  "host \<Rightarrow> 'c sdk \<Rightarrow> 'c anthropic_provider \<Rightarrow> 'c anthropic_provider \<times> (adapter_failure + 'c)" where
  "active_client h sdk ap =
     (case ap_client ap of
        Some client \<Rightarrow> (ap, Inr client)
      | None \<Rightarrow>
          (case build_anthropic_client h sdk (ap_config ap) of
             Inl f \<Rightarrow> (ap, Inl f)
           | Inr client \<Rightarrow> (ap\<lparr>ap_client := Some client\<rparr>, Inr client)))"

definition request_kwargs :: "anthropic_config \<Rightarrow> provider_request \<Rightarrow> message_request" where
  "request_kwargs cfg request =
     \<lparr>rk_model = ac_model_id cfg, rk_max_tokens = ac_max_output_tokens cfg,
      rk_messages = [(''user'', pq_task request @ [CHR 0x0A, CHR 0x0A] @ pq_payload request)],
      rk_effort = ac_effort cfg,
      rk_thinking = (if ac_thinking_mode cfg = ''disabled'' then ''disabled'' else ''adaptive'')\<rparr>"

definition decoding_config :: "anthropic_config \<Rightarrow> (pystr, config_value) dict" where
  "decoding_config cfg =
     [(''max_tokens'', Config_Number (of_int (ac_max_output_tokens cfg))),
      (''effort'', Config_Text (ac_effort cfg)),
      (''thinking'', Config_Text (ac_thinking_mode cfg)),
      (''temperature'', Config_None),
      (''sampling_parameters_supported'', Config_Bool False),
      (''sampling'', Config_Text ''provider_default'')]"

text \<open>The texts of the blocks of type \<open>text\<close>, in order; absent when such a block has no text, which raises.\<close>

fun text_parts :: "sdk_block list \<Rightarrow> pystr list option" where
  "text_parts [] = Some []"
| "text_parts (b # bs) =
     (if bk_type b = Some ''text'' then
        (case bk_text b of None \<Rightarrow> None | Some t \<Rightarrow> map_option (Cons t) (text_parts bs))
      else text_parts bs)"

fun join_lines :: "pystr list \<Rightarrow> pystr" where
  "join_lines [] = []"
| "join_lines [l] = l"
| "join_lines (l # ls) = l @ [CHR 0x0A] @ join_lines ls"

definition extract_text :: "sdk_message \<Rightarrow> adapter_failure + pystr" where
  "extract_text message =
     (case text_parts (the_default [] (ms_content message)) of
        None \<Rightarrow> Inl Unexpected_Exception
      | Some parts \<Rightarrow> if parts = [] then Inl No_Text_Block else Inr (join_lines parts))"

definition extract_model_snapshot :: "anthropic_config \<Rightarrow> sdk_message \<Rightarrow> pystr" where
  "extract_model_snapshot cfg message =
     (case ms_model message of
        None \<Rightarrow> MODEL_SNAPSHOT_UNAVAILABLE
      | Some served \<Rightarrow> if served \<noteq> [] \<and> served \<noteq> ac_model_id cfg then served else MODEL_SNAPSHOT_UNAVAILABLE)"

definition usage_field :: "sdk_usage option \<Rightarrow> (sdk_usage \<Rightarrow> int option) \<Rightarrow> int option" where
  "usage_field usage field = (case usage of None \<Rightarrow> None | Some u \<Rightarrow> field u)"

definition to_provider_response ::
  "anthropic_config \<Rightarrow> sdk_message \<Rightarrow> provider_request \<Rightarrow> adapter_failure + provider_response" where
  "to_provider_response cfg message request =
     (if ms_stop_reason message = Some ''refusal'' then Inl Declined
      else if ms_stop_reason message = Some ''max_tokens'' then Inl Truncated
      else (case extract_text message of
              Inl f \<Rightarrow> Inl f
            | Inr answer \<Rightarrow>
                Inr \<lparr>pr_text = answer, pr_model_id = ac_model_id cfg,
                     pr_model_snapshot = extract_model_snapshot cfg message,
                     pr_decoding_config = decoding_config cfg,
                     pr_transmitted_bytes = count_transmitted_bytes (pq_payload request),
                     pr_input_tokens = usage_field (ms_usage message) us_input_tokens,
                     pr_output_tokens = usage_field (ms_usage message) us_output_tokens,
                     pr_cache_creation_input_tokens =
                       usage_field (ms_usage message) us_cache_creation_input_tokens,
                     pr_cache_read_input_tokens = usage_field (ms_usage message) us_cache_read_input_tokens\<rparr>))"

text \<open>
  \<open>generate\<close>: the object after the call, the calls made to the client, how long they take and the outcome. Everything but the
  call of the client takes no time.
\<close>

definition generate ::
  "host \<Rightarrow> 'c sdk \<Rightarrow> 'c anthropic_provider \<Rightarrow> provider_request \<Rightarrow>
   'c anthropic_provider \<times> message_request list \<times> rat option \<times> (adapter_failure + provider_response)" where
  "generate h sdk ap request =
     (case active_client h sdk ap of
        (ap', Inl f) \<Rightarrow> (ap', [], Some 0, Inl f)
      | (ap', Inr client) \<Rightarrow>
          (let kwargs = request_kwargs (ap_config ap) request in
           case sdk_create sdk client kwargs of
             (duration, Inl mro) \<Rightarrow>
               (ap', [kwargs], duration, Inl (Call_Failed (fst (failure_reason mro)) (snd (failure_reason mro))))
           | (duration, Inr message) \<Rightarrow> (ap', [kwargs], duration, to_provider_response (ap_config ap) message request)))"

text \<open>
  The adapter as the pipeline sees a provider, before a call. The native deadline is read by \<open>caller_timeout_for_provider\<close>,
  for which a value that is not a positive number is no deadline; an infinite one is left out.
\<close>

definition native_timeout_seconds :: "anthropic_config \<Rightarrow> rat option" where
  "native_timeout_seconds cfg = (case ac_timeout_seconds cfg of Finite q \<Rightarrow> Some q | _ \<Rightarrow> None)"

definition as_provider :: "host \<Rightarrow> 'c sdk \<Rightarrow> 'c anthropic_provider \<Rightarrow> provider" where
  "as_provider h sdk ap =
     \<lparr>pv_class = PROVIDER_CLASS, pv_native_timeout_seconds = native_timeout_seconds (ap_config ap),
      pv_generate =
        (\<lambda>request. case generate h sdk ap request of
           (_, _, duration, Inl f) \<Rightarrow> (duration, raised f)
         | (_, _, duration, Inr response) \<Rightarrow> (duration, Responds response))\<rparr>"

subsection \<open>The record of a configuration\<close>

datatype record_value = Value config_value | Seconds py_float | Nested "(pystr, config_value) dict"

definition sdk_version :: "host \<Rightarrow> pystr" where
  "sdk_version h = the_default ''not_installed'' (sdk_installed_version h)"

definition configuration_record :: "host \<Rightarrow> 'c anthropic_provider \<Rightarrow> (pystr, record_value) dict" where
  "configuration_record h ap =
     [(''provider'', Value (Config_Text ''anthropic'')),
      (''provider_class'', Value (Config_Text PROVIDER_CLASS)),
      (''model_id'', Value (Config_Text (ac_model_id (ap_config ap)))),
      (''model_snapshot_source'',
         Value (Config_Text ''RunIdentity.provider_model_snapshot (recorded per call)'')),
      (''sdk_name'', Value (Config_Text ''anthropic'')),
      (''sdk_version'', Value (Config_Text (sdk_version h))),
      (''transport_timeout_seconds'', Seconds (ac_timeout_seconds (ap_config ap))),
      (''retry_policy'',
         Value (Config_Text ''none (client max_retries=0; invoke_provider attempts exactly once)'')),
      (''fallback_policy'',
         Value (Config_Text ''none (no model fallback, no provider fallback, no fallback to b0)'')),
      (''decoding_config'', Nested (decoding_config (ap_config ap))),
      (''prompt_scaffolding_version'', Value (Config_Text PROMPT_SCAFFOLDING_VERSION)),
      (''base_url_policy'',
         Value (Config_Text ''fixed to the official Anthropic endpoint; override forbidden for this adapter'')),
      (''api_key_env_var'', Value (Config_Text (ac_api_key_env_var (ap_config ap)))),
      (''cost_accounting'', Value (Config_Text ''unavailable (token usage recorded; no pricing table)''))]"

subsection \<open>Facts\<close>

fun_cases text_parts_ConsE: "text_parts (b # bs) = Some parts"

lemma text_parts_are_the_texts:
  "text_parts blocks = Some parts \<Longrightarrow>
   map Some parts = map bk_text (filter (\<lambda>b. bk_type b = Some ''text'') blocks)"
  by (induction blocks arbitrary: parts) (auto elim!: text_parts_ConsE split: if_splits option.splits)

definition closed_reasons :: "pystr list" where
  "closed_reasons = ''transport_timeout'' # UNCLASSIFIED_FAILURE_REASON # map snd NORMALIZED_FAILURE_REASONS"

lemma failure_reason_closed: "fst (failure_reason mro) \<in> set closed_reasons"
proof (induction mro)
  case (Cons name mro)
  have "r \<in> set closed_reasons" if "dict_get NORMALIZED_FAILURE_REASONS name = Some r" for r
    using dict_get_mem [OF that] by (force simp: closed_reasons_def)
  with Cons show ?case by (simp add: closed_reasons_def split: option.splits)
qed (simp add: closed_reasons_def)

text \<open>
  A failure is a timeout exactly when the first class with a meaning is \<open>APITimeoutError\<close>: a subclass decides before its
  bases.
\<close>

definition classified :: "pystr \<Rightarrow> bool" where
  "classified name \<longleftrightarrow> name \<in> set TIMEOUT_EXCEPTION_NAMES \<or> dict_has NORMALIZED_FAILURE_REASONS name"

lemma failure_reason_first:
  "failure_reason (filter (Not \<circ> classified) mro @ name # rest) =
     (if name \<in> set TIMEOUT_EXCEPTION_NAMES then (''transport_timeout'', True)
      else case dict_get NORMALIZED_FAILURE_REASONS name of Some r \<Rightarrow> (r, False) | None \<Rightarrow> failure_reason rest)"
  by (induction mro) (auto simp: classified_def dict_has_get split: option.splits)

lemma checked_configE:
  assumes "checked_config cfg = Inr cfg'"
  obtains "cfg' = cfg" "ac_model_id cfg = DEFAULT_ANTHROPIC_MODEL_ID" "ac_base_url cfg = None"
    "ac_effort cfg \<in> set VALID_EFFORT_LEVELS" "ac_thinking_mode cfg \<in> set VALID_THINKING_MODES"
    "ac_thinking_mode cfg = ''disabled'' \<Longrightarrow> ac_effort cfg \<in> {''low'', ''medium'', ''high''}"
    "0 < ac_max_output_tokens cfg" "\<not> nonpositive (ac_timeout_seconds cfg)"
  using assms
  by (auto simp: checked_config_def SUPPORTED_ANTHROPIC_MODEL_IDS_def VALID_EFFORT_LEVELS_def
      EFFORT_LEVELS_REJECTING_DISABLED_THINKING_def split: if_splits)

lemma build_client_cases:
  obtains (no_sdk) "\<not> sdk_found h" "build_anthropic_client h sdk cfg = Inl Sdk_Not_Installed"
  | (no_key) "sdk_found h" "getenv_or h (ac_api_key_env_var cfg) [] = []"
      "build_anthropic_client h sdk cfg = Inl (Credential_Missing (ac_api_key_env_var cfg))"
  | (called) key where "sdk_found h" "getenv h (ac_api_key_env_var cfg) = Some key" "key \<noteq> []"
      "build_anthropic_client h sdk cfg =
         (case sdk_client sdk \<lparr>ck_api_key = key, ck_timeout = ac_timeout_seconds cfg, ck_max_retries = 0,
                               ck_base_url = ac_base_url cfg\<rparr> of None \<Rightarrow> Inl Unexpected_Exception | Some c \<Rightarrow> Inr c)"
proof (cases "sdk_found h")
  case True
  show thesis
  proof (cases "getenv_or h (ac_api_key_env_var cfg) []")
    case Nil
    with True no_key show ?thesis by (simp add: build_anthropic_client_def)
  next
    case (Cons c cs)
    then have "getenv h (ac_api_key_env_var cfg) = Some (c # cs)"
      by (auto simp: getenv_or_def split: option.splits if_splits)
    with True Cons called [of "c # cs"] show ?thesis by (simp add: build_anthropic_client_def)
  qed
qed (simp add: no_sdk build_anthropic_client_def)

lemma generate_cases:
  obtains (no_client) f where "ap_client ap = None" "build_anthropic_client h sdk (ap_config ap) = Inl f"
      "generate h sdk ap request = (ap, [], Some 0, Inl f)"
  | (failed) client mro duration where "snd (active_client h sdk ap) = Inr client"
      "sdk_create sdk client (request_kwargs (ap_config ap) request) = (duration, Inl mro)"
      "generate h sdk ap request =
         (ap\<lparr>ap_client := Some client\<rparr>, [request_kwargs (ap_config ap) request], duration,
          Inl (Call_Failed (fst (failure_reason mro)) (snd (failure_reason mro))))"
  | (answered) client message duration where "snd (active_client h sdk ap) = Inr client"
      "sdk_create sdk client (request_kwargs (ap_config ap) request) = (duration, Inr message)"
      "generate h sdk ap request =
         (ap\<lparr>ap_client := Some client\<rparr>, [request_kwargs (ap_config ap) request], duration,
          to_provider_response (ap_config ap) message request)"
proof -
  consider f where "active_client h sdk ap = (ap, Inl f)" "ap_client ap = None"
        "build_anthropic_client h sdk (ap_config ap) = Inl f"
    | client where "active_client h sdk ap = (ap\<lparr>ap_client := Some client\<rparr>, Inr client)"
  proof (cases "ap_client ap")
    case None
    with that show ?thesis
      by (cases "build_anthropic_client h sdk (ap_config ap)") (simp_all add: active_client_def)
  next
    case (Some client)
    then have "ap\<lparr>ap_client := Some client\<rparr> = ap" by (metis anthropic_provider.surjective anthropic_provider.update_convs(2))
    with Some that(2) [of client] show ?thesis by (simp add: active_client_def)
  qed
  then show thesis
  proof cases
    case 1
    then show ?thesis by (intro no_client) (auto simp: generate_def)
  next
    case (2 client)
    obtain duration outcome where c: "sdk_create sdk client (request_kwargs (ap_config ap) request) = (duration, outcome)"
      by (cases "sdk_create sdk client (request_kwargs (ap_config ap) request)")
    with 2 show ?thesis
      by (cases outcome) (auto simp: generate_def intro: failed answered)
  qed
qed


lemma to_response_cases:
  assumes "to_provider_response cfg message request = Inr response"
  obtains parts where "ms_stop_reason message \<noteq> Some ''refusal''" "ms_stop_reason message \<noteq> Some ''max_tokens''"
    "text_parts (the_default [] (ms_content message)) = Some parts" "parts \<noteq> []" "pr_text response = join_lines parts"
    "pr_model_id response = ac_model_id cfg" "pr_model_snapshot response = extract_model_snapshot cfg message"
    "pr_decoding_config response = decoding_config cfg"
    "pr_transmitted_bytes response = count_transmitted_bytes (pq_payload request)"
    "pr_input_tokens response = usage_field (ms_usage message) us_input_tokens"
  using assms
  by (auto simp: to_provider_response_def extract_text_def split: if_splits sum.splits option.splits)

lemma to_response_failure:
  assumes "to_provider_response cfg message request = Inl f"
  shows "f \<in> {Declined, Truncated, No_Text_Block, Unexpected_Exception}"
  using assms
  by (auto simp: to_provider_response_def extract_text_def split: if_splits sum.splits option.splits)

text \<open>The client is kept: a later call neither reads the credential nor constructs a client.\<close>

lemma client_is_kept:
  assumes "generate h sdk ap request = (ap', calls, rest)" and "calls \<noteq> []"
  shows "active_client h' sdk' ap' = (ap', snd (active_client h sdk ap)) \<and> ap_config ap' = ap_config ap"
  using assms by (cases rule: generate_cases [of ap h sdk request]) (auto simp: active_client_def)

lemma join_lines_single [simp]: "join_lines [t] = t"
  by simp

definition closed_messages :: "(pystr \<Rightarrow> pystr) \<Rightarrow> anthropic_config \<Rightarrow> pystr list" where
  "closed_messages repr_of cfg =
     map (the \<circ> failure_message repr_of)
       ([Sdk_Not_Installed, Credential_Missing (ac_api_key_env_var cfg), Declined, Truncated, No_Text_Block] @
        map (\<lambda>reason. Call_Failed reason False) closed_reasons)"

subsection \<open>Properties\<close>

text \<open>
  an answer of the adapter is a complete answer to the one call it made. The client was called once, with the task, a
  blank line and the payload as its single user message; it did not refuse or stop at the token limit; the text is that of all
  its text blocks in order and of no other block, and there is one; the model is the configured one, a snapshot is never that
  name again, and the token counts are the reported ones.
\<close>

theorem adapter_answers_are_complete:
  assumes "checked_config (ap_config ap) = Inr (ap_config ap)"
    and "generate h sdk ap request = (ap', calls, duration, Inr response)"
  shows "\<exists>kwargs client message texts.
    calls = [kwargs] \<and>
    rk_messages kwargs = [(''user'', pq_task request @ [CHR 0x0A, CHR 0x0A] @ pq_payload request)] \<and>
    rk_model kwargs = DEFAULT_ANTHROPIC_MODEL_ID \<and>
    snd (active_client h sdk ap) = Inr client \<and> sdk_create sdk client kwargs = (duration, Inr message) \<and>
    ms_stop_reason message \<noteq> Some ''refusal'' \<and> ms_stop_reason message \<noteq> Some ''max_tokens'' \<and>
    map Some texts = map bk_text (filter (\<lambda>b. bk_type b = Some ''text'') (the_default [] (ms_content message))) \<and>
    texts \<noteq> [] \<and> pr_text response = join_lines texts \<and>
    pr_model_id response = DEFAULT_ANTHROPIC_MODEL_ID \<and> pr_model_snapshot response \<noteq> DEFAULT_ANTHROPIC_MODEL_ID \<and>
    pr_input_tokens response = usage_field (ms_usage message) us_input_tokens"
  using assms(2)
proof (cases rule: generate_cases [of ap h sdk request])
  case (answered client message d)
  let ?kwargs = "request_kwargs (ap_config ap) request"
  from answered assms(2) have c: "calls = [?kwargs]" "d = duration"
    and r: "to_provider_response (ap_config ap) message request = Inr response" by auto
  have m: "ac_model_id (ap_config ap) = DEFAULT_ANTHROPIC_MODEL_ID" by (rule checked_configE [OF assms(1)])
  have s: "extract_model_snapshot (ap_config ap) message \<noteq> DEFAULT_ANTHROPIC_MODEL_ID"
    by (auto simp: extract_model_snapshot_def MODEL_SNAPSHOT_UNAVAILABLE_def DEFAULT_ANTHROPIC_MODEL_ID_def m split: option.splits)
  from r show ?thesis
  proof (rule to_response_cases)
    fix parts
    assume p: "text_parts (the_default [] (ms_content message)) = Some parts" "parts \<noteq> []"
      "pr_text response = join_lines parts" "ms_stop_reason message \<noteq> Some ''refusal''"
      "ms_stop_reason message \<noteq> Some ''max_tokens''" "pr_model_id response = ac_model_id (ap_config ap)"
      "pr_model_snapshot response = extract_model_snapshot (ap_config ap) message"
      "pr_input_tokens response = usage_field (ms_usage message) us_input_tokens"
    from answered c p m s text_parts_are_the_texts [OF p(1)] show ?thesis
      by (intro exI [of _ ?kwargs] exI [of _ client] exI [of _ message] exI [of _ parts])
        (simp add: request_kwargs_def)
  qed
qed auto

definition sample_sdk :: "pystr sdk" where
  "sample_sdk =
     \<lparr>sdk_client = (\<lambda>kwargs. Some (ck_api_key kwargs)),
      sdk_create = (\<lambda>client kwargs.
        (Some 45, Inr \<lparr>ms_stop_reason = Some ''end_turn'',
           ms_content = Some [\<lparr>bk_type = Some ''thinking'', bk_text = None\<rparr>, \<lparr>bk_type = Some ''text'', bk_text = Some ''Yes''\<rparr>],
           ms_model = Some (rk_model kwargs), ms_usage = None\<rparr>))\<rparr>"

definition sample_host :: host where
  "sample_host =
     \<lparr>getenv = (\<lambda>name. if name = DEFAULT_API_KEY_ENV_VAR then Some ''key''
                       else if name = ''ADG_PROVIDER'' then Some '' Anthropic '' else None),
      sdk_found = True, sdk_installed_version = Some ''1.0''\<rparr>"

definition sample_adapter :: "pystr anthropic_provider" where
  "sample_adapter = \<lparr>ap_config = default_config, ap_client = None\<rparr>"

lemma sample_adapter_checked: "checked_config (ap_config sample_adapter) = Inr (ap_config sample_adapter)"
  by code_simp

theorem adapter_answers_are_complete_witness:
  "\<exists>texts response ap' calls. generate sample_host sample_sdk sample_adapter \<lparr>pq_payload = ''p'', pq_task = ''t''\<rparr> =
      (ap', calls, Some 45, Inr response) \<and> texts \<noteq> [] \<and> pr_text response = join_lines texts"
proof -
  have "case generate sample_host sample_sdk sample_adapter \<lparr>pq_payload = ''p'', pq_task = ''t''\<rparr> of
      (_, _, d, Inl _) \<Rightarrow> False | (_, _, d, Inr r) \<Rightarrow> d = Some 45"
    by code_simp
  then obtain ap' calls response
    where g: "generate sample_host sample_sdk sample_adapter \<lparr>pq_payload = ''p'', pq_task = ''t''\<rparr> = (ap', calls, Some 45, Inr response)"
    by (auto split: prod.splits sum.splits)
  from adapter_answers_are_complete [OF sample_adapter_checked g] g show ?thesis by blast
qed

text \<open>
  what a failure of the adapter can say. Its message is one of a fixed list that depends on the name of the credential's
  variable alone, so neither the request nor anything the library reports can appear in it; it is reported as a
  provider that was invoked exactly when the client was called.
\<close>

theorem adapter_failures_are_closed:
  assumes "generate h sdk ap request = (ap', calls, duration, Inl f)"
  shows "(case failure_message repr_of f of
            None \<Rightarrow> raised f = Raises_Other
          | Some m \<Rightarrow> m \<in> set (closed_messages repr_of (ap_config ap)) \<and>
              (\<exists>e. raised f = Raises_Provider_Error e \<and> (pf_invoked e \<longleftrightarrow> calls \<noteq> [])))"
proof -
  have call: "\<exists>m. failure_message repr_of (Call_Failed r b) = Some m \<and> m \<in> set (closed_messages repr_of (ap_config ap))"
    if "r \<in> set closed_reasons" for r b
    using that by (force simp: failure_message_def closed_messages_def)
  show ?thesis
    using assms
  proof (cases rule: generate_cases [of ap h sdk request])
    case (no_client f')
    with assms show ?thesis
      by (cases rule: build_client_cases [of h sdk "ap_config ap"])
        (auto simp: failure_message_def raised_def closed_messages_def split: option.splits)
  next
    case (failed client mro d)
    with assms call [OF failure_reason_closed [of mro], of "snd (failure_reason mro)"] show ?thesis
      by (auto simp: raised_def)
  next
    case (answered client message d)
    with assms to_response_failure [of "ap_config ap" message request f] show ?thesis
      by (auto simp: failure_message_def raised_def closed_messages_def)
  qed
qed

definition failing_sdk :: "pystr sdk" where
  "failing_sdk =
     \<lparr>sdk_client = (\<lambda>kwargs. Some (ck_api_key kwargs)),
      sdk_create = (\<lambda>client kwargs.
        (Some 1, Inl [''RateLimitError'', ''APIStatusError'', ''APIError'', ''Exception'', ''object'']))\<rparr>"

theorem adapter_failures_are_closed_witness:
  "''anthropic provider call failed (rate_limited)'' \<in> set (closed_messages id default_config)"
proof -
  let ?f = "Call_Failed ''rate_limited'' False"
  have "case generate sample_host failing_sdk sample_adapter \<lparr>pq_payload = ''p'', pq_task = ''t''\<rparr> of
      (_, _, _, Inr _) \<Rightarrow> False | (_, _, _, Inl f) \<Rightarrow> f = ?f"
    by code_simp
  then obtain ap' calls d
    where g: "generate sample_host failing_sdk sample_adapter \<lparr>pq_payload = ''p'', pq_task = ''t''\<rparr> = (ap', calls, d, Inl ?f)"
    by (auto split: prod.splits sum.splits)
  from adapter_failures_are_closed [OF g, of id] show ?thesis
    by (simp add: failure_message_def sample_adapter_def)
qed


text \<open>What a configuration read from the environment has passed.\<close>

definition accepted_config :: "anthropic_config \<Rightarrow> bool" where
  "accepted_config cfg \<longleftrightarrow>
     ac_model_id cfg = DEFAULT_ANTHROPIC_MODEL_ID \<and> ac_base_url cfg = None \<and>
     ac_effort cfg \<in> set VALID_EFFORT_LEVELS \<and>
     (ac_thinking_mode cfg = ''adaptive'' \<or>
      ac_thinking_mode cfg = ''disabled'' \<and> ac_effort cfg \<in> {''low'', ''medium'', ''high''}) \<and>
     0 < ac_max_output_tokens cfg \<and>
     (positive (ac_timeout_seconds cfg) \<or> ac_timeout_seconds cfg = Not_A_Number)"

lemma not_nonpositive: "\<not> nonpositive x \<longleftrightarrow> positive x \<or> x = Not_A_Number"
  by (cases x) (auto simp: nonpositive_def positive_def)

lemma checked_config_accepted: "checked_config cfg = Inr cfg' \<longleftrightarrow> cfg' = cfg \<and> accepted_config cfg"
  by (auto simp: checked_config_def accepted_config_def not_nonpositive [symmetric] SUPPORTED_ANTHROPIC_MODEL_IDS_def
      VALID_EFFORT_LEVELS_def VALID_THINKING_MODES_def EFFORT_LEVELS_REJECTING_DISABLED_THINKING_def)

lemma config_from_env_accepted:
  assumes "anthropic_config_from_env h = Inr cfg"
  shows "accepted_config cfg"
  using assms by (auto simp: anthropic_config_from_env_def checked_config_accepted split: sum.splits)

text \<open>
  the provider of a deployment is the one its environment names, or there is none. The offline provider is built exactly
  when \<open>ADG_PROVIDER\<close> is absent, blank or \<open>fake\<close>; the external one only when it says \<open>anthropic\<close>, and then with a
  configuration that has passed every check, the official endpoint and the validated model; every other name is refused. A
  client that this configuration then builds gets the credential, makes no retries and goes to the official endpoint.
\<close>

theorem provider_is_never_substituted:
  "(build_provider_from_env h = Inr t \<longrightarrow>
      (case t of
         Fake_Provider \<Rightarrow> provider_name h = ''fake''
       | Anthropic_Provider cfg \<Rightarrow> provider_name h = ''anthropic'' \<and> accepted_config cfg \<and>
           (\<forall>client. build_anthropic_client h sdk cfg = Inr client \<longrightarrow>
              (\<exists>key timeout. getenv h (ac_api_key_env_var cfg) = Some key \<and> key \<noteq> [] \<and>
                 sdk_client sdk \<lparr>ck_api_key = key, ck_timeout = timeout, ck_max_retries = 0, ck_base_url = None\<rparr> = Some client))
       | Other_Provider _ _ \<Rightarrow> False)) \<and>
   (provider_name h \<notin> {''fake'', ''anthropic''} \<longrightarrow> build_provider_from_env h = Inl Provider_Not_Recognized) \<and>
   (provider_name h = ''fake'' \<longleftrightarrow> (\<forall>v. getenv h ''ADG_PROVIDER'' = Some v \<longrightarrow> str_lower (str_strip v) \<in> {[], ''fake''}))"
proof (intro conjI)
  have client: "\<exists>key timeout. getenv h (ac_api_key_env_var cfg) = Some key \<and> key \<noteq> [] \<and>
      sdk_client sdk \<lparr>ck_api_key = key, ck_timeout = timeout, ck_max_retries = 0, ck_base_url = None\<rparr> = Some client"
    if "accepted_config cfg" "build_anthropic_client h sdk cfg = Inr client" for cfg client
    using that by (cases rule: build_client_cases [of h sdk cfg]) (auto simp: accepted_config_def split: option.splits)
  show "build_provider_from_env h = Inr t \<longrightarrow>
      (case t of
         Fake_Provider \<Rightarrow> provider_name h = ''fake''
       | Anthropic_Provider cfg \<Rightarrow> provider_name h = ''anthropic'' \<and> accepted_config cfg \<and>
           (\<forall>client. build_anthropic_client h sdk cfg = Inr client \<longrightarrow>
              (\<exists>key timeout. getenv h (ac_api_key_env_var cfg) = Some key \<and> key \<noteq> [] \<and>
                 sdk_client sdk \<lparr>ck_api_key = key, ck_timeout = timeout, ck_max_retries = 0, ck_base_url = None\<rparr> = Some client))
       | Other_Provider _ _ \<Rightarrow> False)"
    by (auto simp: build_provider_from_env_def Let_def DEFAULT_PROVIDER_NAME_def ANTHROPIC_PROVIDER_NAME_def
        config_from_env_accepted simp del: ex_simps split: if_splits sum.splits
        intro!: client [OF config_from_env_accepted])
  show "provider_name h \<notin> {''fake'', ''anthropic''} \<longrightarrow> build_provider_from_env h = Inl Provider_Not_Recognized"
    by (simp add: build_provider_from_env_def DEFAULT_PROVIDER_NAME_def ANTHROPIC_PROVIDER_NAME_def)
  show "provider_name h = ''fake'' \<longleftrightarrow> (\<forall>v. getenv h ''ADG_PROVIDER'' = Some v \<longrightarrow> str_lower (str_strip v) \<in> {[], ''fake''})"
    by (cases "getenv h ''ADG_PROVIDER''")
      (auto simp: provider_name_def Let_def getenv_or_def DEFAULT_PROVIDER_NAME_def str_strip_def str_lower_def)
qed

theorem provider_is_never_substituted_witness:
  "build_provider_from_env sample_host = Inr (Anthropic_Provider default_config) \<and>
   accepted_config default_config \<and> provider_name sample_host \<noteq> ''fake''"
proof -
  have b: "build_provider_from_env sample_host = Inr (Anthropic_Provider default_config)" by code_simp
  with provider_is_never_substituted [of sample_host "Anthropic_Provider default_config" sample_sdk] show ?thesis by auto
qed

lemma ready_calls:
  assumes "provider_readiness h (Anthropic_Provider (ap_config ap)) = (True, None)"
    and "\<And>kwargs. sdk_client sdk kwargs \<noteq> None"
    and "generate h sdk ap request = (ap', calls, duration, outcome)"
  shows "calls = [request_kwargs (ap_config ap) request]"
  using assms(3)
proof (cases rule: generate_cases [of ap h sdk request])
  case (no_client f)
  have "(case sdk_client sdk kwargs of None \<Rightarrow> Inl Unexpected_Exception | Some c \<Rightarrow> Inr c) \<noteq> Inl f" for kwargs
    using assms(2) [of kwargs] by (auto split: option.splits)
  with no_client assms(1) show ?thesis
    by (cases rule: build_client_cases [of h sdk "ap_config ap"])
      (auto simp: provider_readiness_def anthropic_provider_readiness_def getenv_or_def is_blank_def
        split: option.splits if_splits)
qed (use assms(3) in auto)

text \<open>
  readiness is sound. When the check says that the external provider is ready, no call fails for want of the
  library or of the credential: the first call constructs the client and reaches the service, unless the library itself
  refuses to construct one.
\<close>

theorem ready_provider_reaches_the_service:
  assumes "provider_readiness h (Anthropic_Provider (ap_config ap)) = (True, None)"
    and "\<And>kwargs. sdk_client sdk kwargs \<noteq> None"
    and "generate h sdk ap request = (ap', calls, duration, outcome)"
  shows "calls = [request_kwargs (ap_config ap) request]"
  using assms by (rule ready_calls)

theorem ready_provider_reaches_the_service_witness:
  "fst (snd (generate sample_host failing_sdk sample_adapter \<lparr>pq_payload = ''p'', pq_task = ''t''\<rparr>)) =
     [request_kwargs default_config \<lparr>pq_payload = ''p'', pq_task = ''t''\<rparr>]"
proof -
  obtain ap' calls d r
    where g: "generate sample_host failing_sdk sample_adapter \<lparr>pq_payload = ''p'', pq_task = ''t''\<rparr> = (ap', calls, d, r)"
    by (cases "generate sample_host failing_sdk sample_adapter \<lparr>pq_payload = ''p'', pq_task = ''t''\<rparr>") auto
  have "provider_readiness sample_host (Anthropic_Provider (ap_config sample_adapter)) = (True, None)" by code_simp
  from ready_provider_reaches_the_service [OF this _ g] g show ?thesis
    by (simp add: failing_sdk_def sample_adapter_def)
qed

end
