(* ===== verification/Application_Service.thy ===== *)
theory Application_Service
  imports Application_Contracts Inspection Vault_Explorer Real_Provider
begin

text \<open>
  The use cases of the gateway (\<open>application/service.py\<close>): preview, execute, the confirmed document flow
  (\<open>preview_document\<close>, \<open>execute_document\<close>), export and restore, the vault explorer and the comparison of strategies.

  A service is the record of what its constructor keeps, but for the vault, which is the state of the operations: each
  returns its outcome with the vault after it. The functions of libraries (keyed hashes, the cipher, the iteration order of
  sets) are the record \<open>service_env\<close>; the clock and the nonces that a call reads are its argument \<open>moment\<close>. An operation
  that can reach the provider also returns the requests submitted to it. Durations are left out.

  The lemmas show that no operation but the two \<open>execute\<close> ones can reach the provider, that \<open>execute_document\<close> sends exactly the
  payload whose state the confirmation authenticates, and what the views of a preview say.
\<close>

text \<open>
  What an operation raises; the constructors without a name of the code are raise sites: two of \<open>PreviewConfirmationError\<close>,
  two of \<open>ContentSourceError\<close>, the one of \<open>MissingTaskError\<close>, of \<open>ExampleNotFoundError\<close> and of a \<open>ValueError\<close>; and
  \<open>Examples_Not_Loaded\<close> is whatever \<open>load_corpus\<close> raises on the directory of the examples, which nothing above it catches.
\<close>

datatype service_error =
    Core_Error py_error
  | Confirmation_Error confirmation_error
  | ExportRefusedError
  | UnsafeControlExecutionError
  | DemoVaultExplorerDisabledError
  | Handle_Error handle_error
  | Explorer_Error explorer_error
  | Document_Needs_Confirmation
  | Not_A_Document_Request
  | Content_Sources "pystr list"
  | Incomplete_File_Source
  | Missing_Task pystr
  | Ingestion_Error ingestion_error
  | Preset_Error preset_error
  | No_Examples_Directory
  | Examples_Not_Loaded load_failure
  | Example_Not_Found pystr

record 'k service_env =
  en_audit_hmac :: "'k keyed_hash"
  en_audit_key :: 'k
  en_mac :: "pystr \<Rightarrow> pystr \<Rightarrow> pystr"
  en_aead :: aead
  en_depth :: nat
  en_set_order :: "pystr list \<Rightarrow> pystr list"

record moment =
  mo_now :: rat
  mo_nonce :: pystr

text \<open>
  The record of a service. \<open>svc_examples\<close> is what \<open>load_corpus\<close> makes of the configured directory, if there is one, when the
  operation is called: every operation on the examples loads the directory again, and a bad case file fails the load.
\<close>

record 'v service =
  svc_vault_ops :: "'v vault_ops"
  svc_policy_repository :: policy_repository
  svc_provider :: provider
  svc_provider_type :: provider_type
  svc_task_analyzer :: "task_analyzer option"
  svc_detector :: "detection_rule list option"
  svc_default_context :: governance_context
  svc_examples :: "(load_failure + corpus_case list) option"
  svc_document_parser :: "document_parser option"
  svc_signer :: confirmation_signer
  svc_sealer :: restore_sealer
  svc_demo_inspection_enabled :: bool
  svc_demo_vault_explorer_enabled :: bool
  svc_explorer_key :: pystr

record disclosure_preview =
  dp_summary :: disclosure_summary
  dp_external_payload :: pystr
  dp_payload_byte_count :: nat
  dp_treatment :: treatment
  dp_strategy :: disclosure_strategy
  dp_governance :: safe_governance
  dp_provider_class :: pystr
  dp_inspection :: "disclosure_inspection option"
  dp_vault_explorer_token :: "pystr option"

record document_preview =
  do_preview :: disclosure_preview
  do_confirmation_token :: pystr

record disclosure_execution =
  de_summary :: disclosure_summary
  de_final_answer :: "pystr option"
  de_provider :: provider_stage
  de_reconstruction :: reconstruction_stage
  de_treatment :: treatment
  de_strategy :: disclosure_strategy
  de_governance :: safe_governance

record disclosure_export =
  dx_external_payload :: pystr
  dx_restore_handle :: pystr
  dx_expires_at :: int
  dx_restorable_count :: nat
  dx_treatment :: treatment
  dx_strategy :: disclosure_strategy
  dx_governance :: safe_governance

record disclosure_restore =
  dt_restored_text :: pystr
  dt_restored_count :: nat
  dt_unresolved_count :: nat

subsection \<open>Building\<close>

definition svc_build_treatment :: "'v service \<Rightarrow> application_request \<Rightarrow> 'v disclosure_treatment" where
  "svc_build_treatment svc request =
     build_treatment (svc_vault_ops svc) (svc_policy_repository svc) (svc_task_analyzer svc)
       (resolve_treatment (ap_strategy request))"

definition svc_context :: "'v service \<Rightarrow> application_request \<Rightarrow> governance_context" where
  "svc_context svc request = merge_overrides (svc_default_context svc) (ap_governance request)"

definition build_disclosure_request :: "'v service \<Rightarrow> application_request \<Rightarrow> disclosure_request" where
  "build_disclosure_request svc request =
     \<lparr>rq_text = nc_text (ap_content request), rq_task = ap_task request, rq_context = svc_context svc request\<rparr>"

definition svc_decide :: "'v service \<Rightarrow> 'v \<Rightarrow> application_request \<Rightarrow> (disclosure_decision \<times> 'v) result" where
  "svc_decide svc v request =
     decide_disclosure (svc_build_treatment svc request) (svc_detector svc) v (build_disclosure_request svc request)"

subsection \<open>Preview\<close>

definition preview_of ::
  "'k service_env \<Rightarrow> 'v service \<Rightarrow> moment \<Rightarrow> 'v \<Rightarrow> application_request \<Rightarrow> disclosure_decision \<Rightarrow> bool \<Rightarrow> bool \<Rightarrow>
   service_error + disclosure_preview" where
  "preview_of env svc mo v request decision include_inspection include_vault_explorer_token =
     (let inspection = (if include_inspection then Some (build_inspection (nc_text (ap_content request)) decision) else None);
          token =
            (if include_vault_explorer_token then
               issue_reference (en_aead env) (svc_explorer_key svc) (mo_now mo) (mo_nonce mo) (svc_vault_ops svc) v
                 (svc_policy_repository svc) (dd_result decision) (svc_context svc request)
             else None)
      in case build_disclosure_summary decision of
           Inl e \<Rightarrow> Inl (Core_Error e)
         | Inr summary \<Rightarrow>
             Inr \<lparr>dp_summary = summary, dp_external_payload = rs_external_payload (dd_result decision),
                  dp_payload_byte_count = length (utf8 (rs_external_payload (dd_result decision))),
                  dp_treatment = resolve_treatment (ap_strategy request), dp_strategy = ap_strategy request,
                  dp_governance = safe_governance_view (svc_context svc request),
                  dp_provider_class = pv_class (svc_provider svc),
                  dp_inspection = inspection, dp_vault_explorer_token = token\<rparr>)"

definition preview ::
  "'k service_env \<Rightarrow> 'v service \<Rightarrow> moment \<Rightarrow> 'v \<Rightarrow> application_request \<Rightarrow> (service_error + disclosure_preview) \<times> 'v" where
  "preview env svc mo v request =
     (case svc_decide svc v request of
        Inl e \<Rightarrow> (Inl (Core_Error e), v)
      | Inr (decision, v') \<Rightarrow>
          (preview_of env svc mo v' request decision (svc_demo_inspection_enabled svc) (svc_demo_vault_explorer_enabled svc), v'))"

subsection \<open>Execute\<close>

definition execution_of ::
  "'v service \<Rightarrow> application_request \<Rightarrow> execution_result \<Rightarrow> service_error + disclosure_execution" where
  "execution_of svc request execution =
     (case build_disclosure_summary \<lparr>dd_spans = ex_spans execution, dd_result = ex_disclosure_result execution\<rparr> of
        Inl e \<Rightarrow> Inl (Core_Error e)
      | Inr summary \<Rightarrow>
          Inr \<lparr>de_summary = summary,
               de_final_answer =
                 (case ex_provider_response execution of
                    None \<Rightarrow> None
                  | Some response \<Rightarrow> Some (the_default (pr_text response) (ex_reconstructed_text execution))),
               de_provider = ar_provider (ex_audit execution),
               de_reconstruction = ar_reconstruction (ex_audit execution),
               de_treatment = resolve_treatment (ap_strategy request), de_strategy = ap_strategy request,
               de_governance = safe_governance_view (svc_context svc request)\<rparr>)"

definition execute_unchecked ::
  "'k service_env \<Rightarrow> 'v service \<Rightarrow> 'v \<Rightarrow> application_request \<Rightarrow>
   (service_error + disclosure_execution) \<times> provider_request list \<times> 'v" where
  "execute_unchecked env svc v request =
     (case run_disclosure_case (en_audit_hmac env) (en_audit_key env) (svc_build_treatment svc request) (svc_detector svc) v
             (build_disclosure_request svc request) (svc_provider svc) DEFAULT_TIMEOUT_SECONDS False of
        Inl e \<Rightarrow> (Inl (Core_Error e), [], v)
      | Inr (execution, sent, v') \<Rightarrow> (execution_of svc request execution, sent, v'))"

definition execute ::
  "'k service_env \<Rightarrow> 'v service \<Rightarrow> 'v \<Rightarrow> application_request \<Rightarrow>
   (service_error + disclosure_execution) \<times> provider_request list \<times> 'v" where
  "execute env svc v request =
     (if ap_document request \<noteq> None then (Inl Document_Needs_Confirmation, [], v)
      else execute_unchecked env svc v request)"

subsection \<open>Export and restore\<close>

definition restorable_entries :: "disclosure_result \<Rightarrow> (pystr, pystr) dict" where
  "restorable_entries res =
     foldl (\<lambda>d t. case tr_transformed t of
              Some p \<Rightarrow> if tr_action t = PSEUDONYMIZE then dict_set d p (tr_original t) else d
            | None \<Rightarrow> d)
       [] (rs_transformations res)"

definition export ::
  "'k service_env \<Rightarrow> 'v service \<Rightarrow> moment \<Rightarrow> 'v \<Rightarrow> application_request \<Rightarrow> (service_error + disclosure_export) \<times> 'v" where
  "export env svc mo v request =
     (case svc_decide svc v request of
        Inl e \<Rightarrow> (Inl (Core_Error e), v)
      | Inr (decision, v') \<Rightarrow>
          (if rs_status (dd_result decision) \<noteq> Allowed then Inl ExportRefusedError
           else
             (case preview_of env svc mo v' request decision False False of
                Inl e \<Rightarrow> Inl e
              | Inr pv \<Rightarrow>
                  (let entries = restorable_entries (dd_result decision) in
                   case issue_handle (en_aead env) (svc_sealer svc) (mo_now mo) (mo_nonce mo) entries of
                     Inl e \<Rightarrow> Inl (Handle_Error e)
                   | Inr issued \<Rightarrow>
                       Inr \<lparr>dx_external_payload = dp_external_payload pv, dx_restore_handle = ih_handle issued,
                            dx_expires_at = ih_expires_at issued, dx_restorable_count = length entries,
                            dx_treatment = resolve_treatment (ap_strategy request), dx_strategy = ap_strategy request,
                            dx_governance = dp_governance pv\<rparr>)), v'))"

definition restore ::
  "'k service_env \<Rightarrow> 'v service \<Rightarrow> rat \<Rightarrow> pystr \<Rightarrow> pystr \<Rightarrow> service_error + disclosure_restore" where
  "restore env svc now txt handle =
     (case open_handle (en_aead env) (svc_sealer svc) (en_depth env) now handle of
        Inl e \<Rightarrow> Inl (Handle_Error e)
      | Inr mapping \<Rightarrow>
          (case restore_pseudonyms (en_set_order env) txt mapping of
             (restored_text, n, unresolved) \<Rightarrow>
               Inr \<lparr>dt_restored_text = restored_text, dt_restored_count = n, dt_unresolved_count = unresolved\<rparr>))"

definition explore_vault ::
  "'k service_env \<Rightarrow> 'v service \<Rightarrow> rat \<Rightarrow> 'v \<Rightarrow> pystr \<Rightarrow> service_error + vault_explorer_view" where
  "explore_vault env svc now v token =
     (if \<not> svc_demo_vault_explorer_enabled svc then Inl DemoVaultExplorerDisabledError
      else (case explore (en_aead env) (svc_explorer_key svc) (en_depth env) now (svc_vault_ops svc) v token of
              Inl e \<Rightarrow> Inl (Explorer_Error e)
            | Inr view \<Rightarrow> Inr view))"

subsection \<open>Comparing the strategies\<close>

record strategy_comparison_entry =
  ce_strategy :: disclosure_strategy
  ce_treatment :: treatment
  ce_recommended :: bool
  ce_unsafe_control_baseline :: bool
  ce_summary :: disclosure_summary
  ce_external_payload :: pystr
  ce_payload_byte_count :: nat

record strategy_comparison =
  co_entries :: "strategy_comparison_entry list"
  co_governance :: safe_governance
  co_provider_class :: pystr

text \<open>The loop over the strategies: \<open>mos\<close> is what each preview reads of the clock and the nonces.\<close>

fun compare_loop ::
  "'k service_env \<Rightarrow> 'v service \<Rightarrow> (disclosure_strategy \<Rightarrow> moment) \<Rightarrow> 'v \<Rightarrow> application_request \<Rightarrow>
   disclosure_strategy list \<Rightarrow> (service_error + strategy_comparison_entry list) \<times> 'v" where
  "compare_loop env svc mos v request [] = (Inr [], v)"
| "compare_loop env svc mos v request (s # ss) =
     (let per_strategy_request = request\<lparr>ap_strategy := s\<rparr>
      in case preview env svc (mos s) v per_strategy_request of
           (Inl e, v') \<Rightarrow> (Inl e, v')
         | (Inr pv, v') \<Rightarrow>
             (let entry =
                \<lparr>ce_strategy = s, ce_treatment = dp_treatment pv,
                 ce_recommended = (dp_treatment pv = resolve_treatment RECOMMENDED),
                 ce_unsafe_control_baseline = dt_unsafe_control_baseline (svc_build_treatment svc per_strategy_request),
                 ce_summary = dp_summary pv, ce_external_payload = dp_external_payload pv,
                 ce_payload_byte_count = dp_payload_byte_count pv\<rparr>
              in case compare_loop env svc mos v' request ss of
                   (Inl e, v'') \<Rightarrow> (Inl e, v'')
                 | (Inr entries, v'') \<Rightarrow> (Inr (entry # entries), v'')))"

definition compare_strategies ::
  "'k service_env \<Rightarrow> 'v service \<Rightarrow> (disclosure_strategy \<Rightarrow> moment) \<Rightarrow> 'v \<Rightarrow> application_request \<Rightarrow>
   (service_error + strategy_comparison) \<times> 'v" where
  "compare_strategies env svc mos v request =
     (case compare_loop env svc mos v request CANONICAL_COMPARISON_ORDER of
        (Inl e, v') \<Rightarrow> (Inl e, v')
      | (Inr entries, v') \<Rightarrow>
          (Inr \<lparr>co_entries = entries, co_governance = safe_governance_view (svc_context svc request),
                co_provider_class = pv_class (svc_provider svc)\<rparr>, v'))"

subsection \<open>Examples, health and readiness\<close>

record example_summary =
  es_example_id :: pystr
  es_title :: pystr
  es_domain :: pystr
  es_purpose :: pystr
  es_task :: pystr
  es_character_count :: nat

definition to_summary :: "corpus_case_input \<Rightarrow> example_summary" where
  "to_summary c =
     \<lparr>es_example_id = ci_sample_id c, es_title = ci_sample_id c, es_domain = ci_domain c, es_purpose = ci_purpose c,
      es_task = ci_task c, es_character_count = length (ci_text c)\<rparr>"

text \<open>The two functions of \<open>examples.py\<close>, over what \<open>load_corpus\<close> makes of the directory, and the methods of the service that call them.\<close>

definition list_directory_examples :: "load_failure + corpus_case list \<Rightarrow> service_error + example_summary list" where
  "list_directory_examples corpus =
     (case corpus of
        Inl e \<Rightarrow> Inl (Examples_Not_Loaded e)
      | Inr cases \<Rightarrow> Inr (map (\<lambda>c. to_summary (cc_input c)) cases))"

definition load_directory_example :: "load_failure + corpus_case list \<Rightarrow> pystr \<Rightarrow> service_error + corpus_case_input" where
  "load_directory_example corpus example_id =
     (case corpus of
        Inl e \<Rightarrow> Inl (Examples_Not_Loaded e)
      | Inr cases \<Rightarrow>
          (case find (\<lambda>c. ci_sample_id (cc_input c) = example_id) cases of
             None \<Rightarrow> Inl (Example_Not_Found example_id)
           | Some c \<Rightarrow> Inr (cc_input c)))"

definition list_examples :: "'v service \<Rightarrow> service_error + example_summary list" where
  "list_examples svc =
     (case svc_examples svc of None \<Rightarrow> Inl No_Examples_Directory | Some corpus \<Rightarrow> list_directory_examples corpus)"

definition load_example :: "'v service \<Rightarrow> pystr \<Rightarrow> service_error + corpus_case_input" where
  "load_example svc example_id =
     (case svc_examples svc of
        None \<Rightarrow> Inl No_Examples_Directory
      | Some corpus \<Rightarrow> load_directory_example corpus example_id)"

lemmas example_defs = load_example_def load_directory_example_def list_examples_def list_directory_examples_def

record service_health =
  sh_provider_class :: pystr
  sh_model_id :: "pystr option"
  sh_model_snapshot :: "pystr option"
  sh_deterministic_demo_mode :: bool
  sh_treatments_available :: "treatment list"

definition model_id_of :: "provider_type \<Rightarrow> pystr option" where
  "model_id_of t = (case t of Fake_Provider \<Rightarrow> Some ''fake-provider'' | Anthropic_Provider _ \<Rightarrow> None | Other_Provider m _ \<Rightarrow> m)"

definition model_snapshot_of :: "provider_type \<Rightarrow> pystr option" where
  "model_snapshot_of t =
     (case t of Fake_Provider \<Rightarrow> Some ''fake-provider-2026-09-07'' | Anthropic_Provider _ \<Rightarrow> None | Other_Provider _ s \<Rightarrow> s)"

definition describe_health :: "'v service \<Rightarrow> service_health" where
  "describe_health svc =
     \<lparr>sh_provider_class = pv_class (svc_provider svc), sh_model_id = model_id_of (svc_provider_type svc),
      sh_model_snapshot = model_snapshot_of (svc_provider_type svc),
      sh_deterministic_demo_mode = (svc_provider_type svc = Fake_Provider),
      sh_treatments_available = [DIRECT, STATIC_SANITIZATION, REVERSIBLE_PSEUDONYMIZATION, TASK_AWARE, POLICY_GOVERNED]\<rparr>"

definition REASON_CONFIRMATION_SECRET_NOT_DURABLE :: pystr where
  "REASON_CONFIRMATION_SECRET_NOT_DURABLE = ''confirmation_secret_not_durable''"

definition describe_readiness :: "host \<Rightarrow> 'v service \<Rightarrow> bool \<times> pystr option" where
  "describe_readiness h svc =
     (case provider_readiness h (svc_provider_type svc) of
        (False, reason) \<Rightarrow> (False, reason)
      | (True, _) \<Rightarrow>
          if pv_class (svc_provider svc) \<noteq> DEFAULT_PROVIDER_NAME \<and> \<not> sg_durable (svc_signer svc)
          then (False, Some REASON_CONFIRMATION_SECRET_NOT_DURABLE)
          else (True, None))"

subsection \<open>Building requests\<close>

text \<open>The content source is chosen by which of the arguments are given; \<open>file\<close> when either of its two is.\<close>

definition build_application_request ::
  "'v service \<Rightarrow> pystr option \<Rightarrow> pystr option \<Rightarrow> pystr option \<Rightarrow> pystr option \<Rightarrow> pystr option \<Rightarrow> disclosure_strategy \<Rightarrow>
   governance_overrides option \<Rightarrow> service_error + application_request" where
  "build_application_request svc txt filename file_bytes example_id task strategy governance =
     (let overrides = the_default no_overrides governance;
          mk = (\<lambda>content task' governance'.
            \<lparr>ap_content = content, ap_task = task', ap_strategy = strategy, ap_governance = governance', ap_document = None\<rparr>)
      in case (txt, filename \<noteq> None \<or> file_bytes \<noteq> None, example_id) of
           (Some t, False, None) \<Rightarrow>
             (case normalize_text t of
                Inl e \<Rightarrow> Inl (Ingestion_Error e)
              | Inr content \<Rightarrow>
                  (case task of None \<Rightarrow> Inl (Missing_Task ''direct text'') | Some task' \<Rightarrow> Inr (mk content task' overrides)))
         | (None, True, None) \<Rightarrow>
             (case (filename, file_bytes) of
                (Some name, Some data) \<Rightarrow>
                  (case normalize_text_file (svc_document_parser svc) name data of
                     Inl e \<Rightarrow> Inl (Ingestion_Error e)
                   | Inr content \<Rightarrow>
                       (case task of None \<Rightarrow> Inl (Missing_Task ''file'') | Some task' \<Rightarrow> Inr (mk content task' overrides)))
              | _ \<Rightarrow> Inl Incomplete_File_Source)
         | (None, False, Some i) \<Rightarrow>
             (case load_example svc i of
                Inl e \<Rightarrow> Inl e
              | Inr example \<Rightarrow>
                  (case normalize_text (ci_text example) of
                     Inl e \<Rightarrow> Inl (Ingestion_Error e)
                   | Inr content \<Rightarrow>
                       Inr (mk content (the_default (ci_task example) task)
                         (apply_example_governance_defaults example overrides))))
         | _ \<Rightarrow>
             Inl (Content_Sources
               ((if txt \<noteq> None then [''text''] else []) @
                (if filename \<noteq> None \<or> file_bytes \<noteq> None then [''file''] else []) @
                (if example_id \<noteq> None then [''example_id''] else []))))"

definition build_document_request ::
  "'v service \<Rightarrow> pystr \<Rightarrow> pystr \<Rightarrow> pystr \<Rightarrow> pystr \<Rightarrow> pystr option \<Rightarrow> disclosure_strategy \<Rightarrow>
   service_error + application_request" where
  "build_document_request svc filename file_bytes task document_type analysis_mode strategy =
     (case resolve_governance_preset document_type analysis_mode of
        Inl e \<Rightarrow> Inl (Preset_Error e)
      | Inr overrides \<Rightarrow>
          (case build_application_request svc None (Some filename) (Some file_bytes) None (Some task) strategy (Some overrides) of
             Inl e \<Rightarrow> Inl e
           | Inr request \<Rightarrow>
               (case resolve_analysis_mode document_type analysis_mode of
                  Inl e \<Rightarrow> Inl (Preset_Error e)
                | Inr mode \<Rightarrow>
                    Inr (request\<lparr>ap_document := Some \<lparr>dr_document_type = document_type, dr_analysis_mode = mode\<rparr>\<rparr>))))"

subsection \<open>The confirmed document flow\<close>

definition confirmation_state_of :: "application_request \<Rightarrow> disclosure_preview \<Rightarrow> service_error + confirmation_state" where
  "confirmation_state_of request pv =
     (case ap_document request of
        None \<Rightarrow> Inl Not_A_Document_Request
      | Some document \<Rightarrow>
          (let governance = dp_governance pv in
           Inr \<lparr>cf_normalized_document = nc_text (ap_content request), cf_task = ap_task request,
                cf_document_type = dr_document_type document, cf_analysis_mode = dr_analysis_mode document,
                cf_domain = sv_domain governance, cf_policy_version = sv_policy_version governance,
                cf_purpose = sv_purpose governance, cf_requester_role = sv_requester_role governance,
                cf_requested_pseudonym_scope = scope_value (sv_requested_scope governance),
                cf_governance_provider_class = sv_provider_class governance,
                cf_provider_class = dp_provider_class pv, cf_strategy = strategy_value (dp_strategy pv),
                cf_treatment = treatment_value (dp_treatment pv), cf_external_payload = dp_external_payload pv\<rparr>))"

definition preview_document ::
  "'k service_env \<Rightarrow> 'v service \<Rightarrow> moment \<Rightarrow> 'v \<Rightarrow> application_request \<Rightarrow> (service_error + document_preview) \<times> 'v" where
  "preview_document env svc mo v request =
     (case preview env svc mo v request of
        (Inl e, v') \<Rightarrow> (Inl e, v')
      | (Inr pv, v') \<Rightarrow>
          (case confirmation_state_of request pv of
             Inl e \<Rightarrow> (Inl e, v')
           | Inr st \<Rightarrow>
               (Inr \<lparr>do_preview = pv, do_confirmation_token = issue (en_mac env) (svc_signer svc) (mo_now mo) st\<rparr>, v')))"

text \<open>\<open>_refuse_unsafe_control_outside_the_trust_boundary\<close>\<close>

definition refuse_unsafe_control :: "'v service \<Rightarrow> 'v disclosure_treatment \<Rightarrow> service_error option" where
  "refuse_unsafe_control svc trt =
     (if dt_unsafe_control_baseline trt \<and> pv_class (svc_provider svc) \<noteq> DEFAULT_PROVIDER_NAME
      then Some UnsafeControlExecutionError else None)"

definition execute_document ::
  "'k service_env \<Rightarrow> 'v service \<Rightarrow> moment \<Rightarrow> 'v \<Rightarrow> application_request \<Rightarrow> pystr \<Rightarrow>
   (service_error + disclosure_execution) \<times> provider_request list \<times> 'v" where
  "execute_document env svc mo v request confirmation_token =
     (let trt = svc_build_treatment svc request; disclosure_request = build_disclosure_request svc request
      in case decide_disclosure trt (svc_detector svc) v disclosure_request of
           Inl e \<Rightarrow> (Inl (Core_Error e), [], v)
         | Inr (decision, v') \<Rightarrow>
             (case preview_of env svc mo v' request decision False False of
                Inl e \<Rightarrow> (Inl e, [], v')
              | Inr approved \<Rightarrow>
                  (case confirmation_state_of request approved of
                     Inl e \<Rightarrow> (Inl e, [], v')
                   | Inr st \<Rightarrow>
                       (case verify (en_mac env) (svc_signer svc) (en_depth env) (mo_now mo) confirmation_token st of
                          Inl e \<Rightarrow> (Inl (Confirmation_Error e), [], v')
                        | Inr _ \<Rightarrow>
                            (case refuse_unsafe_control svc trt of
                               Some e \<Rightarrow> (Inl e, [], v')
                             | None \<Rightarrow>
                                 (case execute_disclosure_decision (en_audit_hmac env) (en_audit_key env) trt v'
                                         disclosure_request (svc_provider svc) decision DEFAULT_TIMEOUT_SECONDS False of
                                    (execution, sent) \<Rightarrow> (execution_of svc request execution, sent, v')))))))"

end
