(* ===== verification/Decision_Replay.thy ===== *)
theory Decision_Replay
  imports Treatments
begin

text \<open>
  Decisions over time. The vault only gains pseudonyms, so a decision that was made once is the same again on every later
  vault, and the pseudonyms of an allowed result are in the vault after it.
\<close>

subsection \<open>A decision is the same again on every later vault\<close>

context vault_contract
begin

definition keeps_issued :: "'v \<Rightarrow> 'v \<Rightarrow> bool" where
  "keeps_issued v u \<longleftrightarrow> (\<forall>s k c x p. issued v s k c x p \<longrightarrow> issued u s k c x p)"

lemma keeps_issued_refl [simp]: "keeps_issued v v"
  by (simp add: keeps_issued_def)

lemma transform_span_again:
  assumes "inv v" and "inv u" and "transform_span ops scope key values index v sp act = Inr (transformed, v')"
    and "keeps_issued v' u"
  shows "\<exists>u'. transform_span ops scope key values index u sp act = Inr (transformed, u') \<and> inv u' \<and> keeps_issued u u'"
proof -
  obtain p v1 where p: "vo_pseudonymize ops v scope key (sp_category sp) (sp_value sp) = (p, v1)" by force
  obtain q u1 where q: "vo_pseudonymize ops u scope key (sp_category sp) (sp_value sp) = (q, u1)" by force
  have u1: "inv u1" "keeps_issued u u1"
    using inv_pseudonymize [OF assms(2), of scope key "sp_category sp" "sp_value sp"]
      issued_pseudonymize [OF assms(2), of scope key "sp_category sp" "sp_value sp"] q
    by (simp_all add: keeps_issued_def)
  show ?thesis
  proof (cases "act = PSEUDONYMIZE")
    case True
    then have "transformed = Some p" "v' = v1" using assms(3) p by (simp_all add: transform_span_def)
    then have "issued u scope key (sp_category sp) (sp_value sp) p"
      using assms(4) pseudonymize_issues [OF assms(1), of scope key "sp_category sp" "sp_value sp"] p
      by (simp add: keeps_issued_def)
    then have "q = p" using issued_stable [OF assms(2)] q by force
    then show ?thesis using True \<open>transformed = Some p\<close> q u1 by (simp add: transform_span_def)
  next
    case False
    then show ?thesis
      using assms(2,3) by (cases "dict_get values index") (auto simp: transform_span_def split: if_splits)
  qed
qed

lemma walk_again:
  assumes "inv v" and "inv u" and "allowed_walk ops scope key text values index cursor seen v pairs = Inr w"
    and "keeps_issued (wk_vault w) u"
  shows "\<exists>w'. allowed_walk ops scope key text values index cursor seen u pairs = Inr w' \<and>
    wk_parts w' = wk_parts w \<and> wk_transformations w' = wk_transformations w \<and> wk_decisions w' = wk_decisions w \<and>
    wk_any_pseudonymized w' = wk_any_pseudonymized w \<and> inv (wk_vault w') \<and> keeps_issued u (wk_vault w')"
  using assms
proof (induction pairs arbitrary: index cursor seen v u w)
  case Nil
  then show ?case by auto
next
  case (Cons sd rest)
  obtain sp d where sd: "sd = (sp, d)" by (cases sd)
  from Cons.prems(3) [unfolded sd] show ?case
  proof (cases rule: allowed_walk_ConsE)
    case (1 transformed v' w1)
    note v' = transform_span_vault(1) [OF Cons.prems(1) 1(1)]
    have "keeps_issued v' u"
      using walk_vault [OF v' 1(2)] Cons.prems(4) by (simp add: keeps_issued_def 1(7))
    from transform_span_again [OF Cons.prems(1,2) 1(1) this] obtain u' where
      u': "transform_span ops scope key values index u sp (ad_action d) = Inr (transformed, u')" "inv u'" "keeps_issued u u'"
      by blast
    have "keeps_issued (wk_vault w1) u'"
      using Cons.prems(4) u'(3) by (simp add: keeps_issued_def 1(7))
    from Cons.IH [OF v' u'(2) 1(2) this] u'(1,3) 1 show ?thesis
      by (auto simp: sd allowed_walk.simps(2) keeps_issued_def)
  qed
qed

lemma apply_decisions_again:
  assumes "inv v" and "inv u" and "apply_decisions ops v repo reasons text ordered dec ctx = Inr (outcome, v')"
    and "keeps_issued v' u"
  shows "\<exists>u'. apply_decisions ops u repo reasons text ordered dec ctx = Inr (outcome, u') \<and> inv u' \<and> keeps_issued u u'"
proof -
  obtain decisions vals where d: "resolve_generalize_downgrades dec 0 ordered = Inr (decisions, vals)"
    using assms(3) by (auto simp: apply_decisions_def split: sum.splits)
  let ?scope = "resolve_pseudonym_scope repo ctx"
  show ?thesis
  proof (cases "list_ex (\<lambda>d. ad_action d = BLOCK_REQUEST) decisions \<or> scope_key ?scope ctx = None")
    case True
    then show ?thesis using assms(2,3) d by (auto simp: apply_decisions_def Let_def)
  next
    case False
    then obtain key where key: "scope_key ?scope ctx = Some key" by blast
    then obtain w where w: "allowed_walk ops ?scope key text vals 0 0 [] v (zip ordered decisions) = Inr w" "v' = wk_vault w"
      using assms(3) d False by (auto simp: apply_decisions_def Let_def allowed_result_def split: sum.splits)
    from walk_again [OF assms(1,2) w(1)] assms(4) w(2) obtain w' where
      "allowed_walk ops ?scope key text vals 0 0 [] u (zip ordered decisions) = Inr w'" "wk_parts w' = wk_parts w"
      "wk_transformations w' = wk_transformations w" "wk_decisions w' = wk_decisions w"
      "wk_any_pseudonymized w' = wk_any_pseudonymized w" "inv (wk_vault w')" "keeps_issued u (wk_vault w')" by auto
    then show ?thesis using assms(3) d False key w
      by (auto simp: apply_decisions_def Let_def allowed_result_def)
  qed
qed

lemma sanitize_with_again:
  assumes "inv v" and "inv u" and "sanitize_with ops v repo reasons dec request spans = Inr (res, v')" and "keeps_issued v' u"
  shows "\<exists>u'. sanitize_with ops u repo reasons dec request spans = Inr (res, u') \<and> inv u' \<and> keeps_issued u u'"
proof (cases "spans_are_valid spans (rq_text request)")
  case False
  then show ?thesis using assms(2,3) by (auto simp: sanitize_with_def)
next
  case valid: True
  obtain ordered outcome where o: "resolve_overlaps spans = Inr ordered"
    "apply_decisions ops v repo reasons (rq_text request) ordered (dec ordered) (rq_context request) = Inr (outcome, v')"
    "res = ao_result outcome"
    using assms(3) valid by (auto simp: sanitize_with_def split: sum.splits prod.splits)
  from apply_decisions_again [OF assms(1,2) o(2) assms(4)] show ?thesis
    using valid o(1,3) by (auto simp: sanitize_with_def)
qed

lemma built_again:
  assumes "inv v" and "inv u" and "dt_sanitize (build_treatment ops repo analyzer trt) v request spans = Inr (res, v')"
    and "keeps_issued v' u"
  shows "\<exists>u'. dt_sanitize (build_treatment ops repo analyzer trt) u request spans = Inr (res, u') \<and> inv u' \<and> keeps_issued u u'"
proof (cases trt)
  case DIRECT
  then show ?thesis using assms(2,3) by simp
next
  case STATIC_SANITIZATION
  then show ?thesis using assms(2,3) by (auto simp: stateless_def split: sum.splits)
next
  case REVERSIBLE_PSEUDONYMIZATION
  then show ?thesis using assms by (simp add: reversible_sanitize_with sanitize_with_again)
next
  case TASK_AWARE
  then show ?thesis using assms by (simp add: task_aware_sanitize_with sanitize_with_again)
next
  case POLICY_GOVERNED
  then show ?thesis using assms by (simp add: policy_governed_sanitize_with sanitize_with_again)
qed

lemma decide_again:
  assumes "inv v" and "inv u" and "decide_disclosure (build_treatment ops repo analyzer trt) detector v request = Inr (decision, v')"
    and "keeps_issued v' u"
  shows "\<exists>u'. decide_disclosure (build_treatment ops repo analyzer trt) detector u request = Inr (decision, u') \<and>
    inv u' \<and> keeps_issued u u'"
proof -
  obtain spans res where d: "detect (active_rules detector) (rq_text request) = Inr spans"
    "dt_sanitize (build_treatment ops repo analyzer trt) v request spans = Inr (res, v')"
    using assms(3) by (auto simp: decide_disclosure_def split: sum.splits prod.splits if_splits)
  from built_again [OF assms(1,2) d(2) assms(4)] show ?thesis
    using assms(3) d by (auto simp: decide_disclosure_def split: sum.splits if_splits)
qed

text \<open>Only the three treatments of the shared frame pseudonymize.\<close>

lemma unframed_no_pseudonym:
  assumes "\<not> shares_frame trt" and "dt_sanitize (build_treatment ops repo analyzer trt) v request spans = Inr (res, v')"
    and "t \<in> set (rs_transformations res)"
  shows "tr_action t \<noteq> PSEUDONYMIZE"
proof (cases "trt = DIRECT")
  case True
  then show ?thesis using assms(2,3) by (auto simp: direct_sanitize_def)
next
  case False
  with assms(1) have "trt = STATIC_SANITIZATION" by (cases trt) (auto simp: shares_frame_def)
  then have run: "static_sanitize request spans = Inr res" using assms(2) by (simp add: stateless_def split: sum.splits)
  have acts: "static_resolve_action c \<noteq> PSEUDONYMIZE" for c
    by (auto simp: static_resolve_action_def STATIC_ACTIONS_def dict_get_default_def dict_get_def Let_def)
  show ?thesis
  proof (cases rule: static_sanitize_cases [of spans request])
    case (allowed ordered vals w)
    have "list_all2 describes (decided static_decision ordered) (wk_transformations w)"
      by (rule walk_payload(2) [OF allowed(4,5)])
    then obtain sp where "describes (sp, downgrade (static_decision sp) sp) t"
      using assms(3) allowed(6) run by (auto simp: decided_def elim!: list_all2_memE)
    then show ?thesis using acts
      by (auto simp: describes_def static_decision_def downgrade_def plain_action_def split: if_splits)
  qed (use run assms(3) in \<open>auto simp: blocked_results\<close>)
qed

lemma built_issues:
  assumes "inv v" and "dt_sanitize (build_treatment ops repo analyzer trt) v request spans = Inr (res, v')"
  shows "inv v' \<and> keeps_issued v v' \<and>
    ((\<exists>t \<in> set (rs_transformations res). tr_action t = PSEUDONYMIZE) \<longrightarrow>
       (\<exists>key. scope_key (resolve_pseudonym_scope repo (rq_context request)) (rq_context request) = Some key \<and>
          tokens_issued v' (resolve_pseudonym_scope repo (rq_context request)) key (rs_transformations res)))"
proof (cases "shares_frame trt")
  case True
  show ?thesis
  proof (cases rule: shared_outcomes [OF True assms(2)])
    case (1 ds)
    then show ?thesis using assms(1) by simp
  next
    case (2 f ordered key vals w)
    then show ?thesis using walk_vault [OF assms(1) 2(6)] by (auto simp: keeps_issued_def)
  qed
next
  case False
  then have "trt = DIRECT \<or> trt = STATIC_SANITIZATION" by (cases trt) (auto simp: shares_frame_def)
  then have "v' = v" using assms(2) by (auto simp: stateless_def split: sum.splits)
  then show ?thesis using assms(1) unframed_no_pseudonym [OF False assms(2)] by auto
qed

lemma decide_issues:
  assumes "inv v" and "decide_disclosure (build_treatment ops repo analyzer trt) detector v request = Inr (decision, v')"
  shows "inv v' \<and> keeps_issued v v' \<and>
    ((\<exists>t \<in> set (rs_transformations (dd_result decision)). tr_action t = PSEUDONYMIZE) \<longrightarrow>
       (\<exists>key. scope_key (resolve_pseudonym_scope repo (rq_context request)) (rq_context request) = Some key \<and>
          tokens_issued v' (resolve_pseudonym_scope repo (rq_context request)) key (rs_transformations (dd_result decision))))"
proof -
  obtain spans res where d: "dt_sanitize (build_treatment ops repo analyzer trt) v request spans = Inr (res, v')"
    "dd_result decision = res \<or> rs_transformations (dd_result decision) = []"
    using assms(2) by (auto simp: decide_disclosure_def blocked_for_sensitive_task_def split: sum.splits prod.splits if_splits)
  from built_issues [OF assms(1) d(1)] d(2) show ?thesis by auto
qed

end

end
