(* ===== verification/Confirmed_Flow.thy ===== *)
theory Confirmed_Flow
  imports Application_Service Decision_Replay
begin

text \<open>
  The confirmed document flow: \<open>preview_document\<close>, then \<open>execute_document\<close> with the token of the preview.

  The lemmas show that the state of a request is the same again on every later vault, that what \<open>execute_document\<close> sends is the payload of the state the token was verified against, and so that it is the payload the
  preview showed.
\<close>

subsection \<open>The state an approval is about\<close>

definition state_for_approval ::
  "'k service_env \<Rightarrow> 'v service \<Rightarrow> moment \<Rightarrow> 'v \<Rightarrow> application_request \<Rightarrow> service_error + confirmation_state" where
  "state_for_approval env svc mo v request =
     (case svc_decide svc v request of
        Inl e \<Rightarrow> Inl (Core_Error e)
      | Inr (decision, v') \<Rightarrow>
          (case preview_of env svc mo v' request decision False False of
             Inl e \<Rightarrow> Inl e
           | Inr approved \<Rightarrow> confirmation_state_of request approved))"

lemma preview_document_token:
  assumes "preview_document env svc mo v request = (Inr pd, v')"
  obtains st decision where "state_for_approval env svc mo v request = Inr st"
    and "svc_decide svc v request = Inr (decision, v')"
    and "do_confirmation_token pd = issue (en_mac env) (svc_signer svc) (mo_now mo) st"
    and "cf_external_payload st = dp_external_payload (do_preview pd)"
    and "dp_external_payload (do_preview pd) = rs_external_payload (dd_result decision)"
    and "ds_status (dp_summary (do_preview pd)) = rs_status (dd_result decision)"
proof -
  obtain decision pv st where d: "svc_decide svc v request = Inr (decision, v')"
    "preview_of env svc mo v' request decision (svc_demo_inspection_enabled svc) (svc_demo_vault_explorer_enabled svc) = Inr pv"
    "confirmation_state_of request pv = Inr st"
    "pd = \<lparr>do_preview = pv, do_confirmation_token = issue (en_mac env) (svc_signer svc) (mo_now mo) st\<rparr>"
    using assms by (auto simp: preview_document_def preview_def split: sum.splits prod.splits)
  obtain summary where s: "build_disclosure_summary decision = Inr summary"
    using d(2) by (auto simp: preview_of_def Let_def split: sum.splits)
  have "state_for_approval env svc mo v request = Inr st"
    using d(1-3) s by (auto simp: state_for_approval_def preview_of_def confirmation_state_of_def Let_def split: option.splits)
  moreover have "cf_external_payload st = dp_external_payload pv"
    using d(3) by (auto simp: confirmation_state_of_def Let_def split: option.splits)
  moreover have "dp_external_payload pv = rs_external_payload (dd_result decision)" "dp_summary pv = summary"
    using d(2) s by (auto simp: preview_of_def Let_def)
  moreover have "ds_status summary = rs_status (dd_result decision)"
    using s by (auto simp: build_disclosure_summary_def Let_def split: sum.splits)
  ultimately show thesis using that d(1,4) by simp
qed

lemma execute_document_eq:
  "execute_document env svc mo v request token =
     (case svc_decide svc v request of
        Inl e \<Rightarrow> (Inl (Core_Error e), [], v)
      | Inr (decision, v') \<Rightarrow>
          (case state_for_approval env svc mo v request of
             Inl e \<Rightarrow> (Inl e, [], v')
           | Inr st \<Rightarrow>
               (case verify (en_mac env) (svc_signer svc) (en_depth env) (mo_now mo) token st of
                  Inl e \<Rightarrow> (Inl (Confirmation_Error e), [], v')
                | Inr _ \<Rightarrow>
                    (case refuse_unsafe_control svc (svc_build_treatment svc request) of
                       Some e \<Rightarrow> (Inl e, [], v')
                     | None \<Rightarrow>
                         (case execute_disclosure_decision (en_audit_hmac env) (en_audit_key env) (svc_build_treatment svc request)
                                 v' (build_disclosure_request svc request) (svc_provider svc) decision DEFAULT_TIMEOUT_SECONDS False of
                            (execution, sent) \<Rightarrow> (execution_of svc request execution, sent, v'))))))"
  by (auto simp: execute_document_def state_for_approval_def svc_decide_def Let_def split: sum.split prod.split)

lemma state_for_approval_fields:
  assumes "state_for_approval env svc mo v request = Inr st"
  obtains decision v' document where "svc_decide svc v request = Inr (decision, v')"
    and "ap_document request = Some document"
    and "cf_normalized_document st = nc_text (ap_content request)" and "cf_task st = ap_task request"
    and "cf_document_type st = dr_document_type document" and "cf_analysis_mode st = dr_analysis_mode document"
    and "cf_domain st = ctx_domain (svc_context svc request)" and "cf_purpose st = ctx_purpose (svc_context svc request)"
    and "cf_policy_version st = ctx_policy_version (svc_context svc request)"
    and "cf_governance_provider_class st = ctx_provider_class (svc_context svc request)"
    and "cf_provider_class st = pv_class (svc_provider svc)"
    and "cf_strategy st = strategy_value (ap_strategy request)"
    and "cf_external_payload st = rs_external_payload (dd_result decision)"
  using assms
  by (auto simp: state_for_approval_def preview_of_def confirmation_state_of_def safe_governance_view_def Let_def
      split: sum.splits prod.splits option.splits)

text \<open>What \<open>execute_document\<close> sends is the payload and the task of the state that the token was verified against.\<close>

lemma execute_document_sends:
  assumes "execute_document env svc mo v request token = (outcome, sent, v')" and "sent \<noteq> []"
  obtains st where "state_for_approval env svc mo v request = Inr st"
    and "verify (en_mac env) (svc_signer svc) (en_depth env) (mo_now mo) token st = Inr ()"
    and "sent = [\<lparr>pq_payload = cf_external_payload st, pq_task = cf_task st\<rparr>]"
    and "cf_provider_class st = cf_governance_provider_class st"
    and "refuse_unsafe_control svc (svc_build_treatment svc request) = None"
proof -
  obtain st decision execution where e: "svc_decide svc v request = Inr (decision, v')"
    "state_for_approval env svc mo v request = Inr st"
    "verify (en_mac env) (svc_signer svc) (en_depth env) (mo_now mo) token st = Inr ()"
    "refuse_unsafe_control svc (svc_build_treatment svc request) = None"
    "execute_disclosure_decision (en_audit_hmac env) (en_audit_key env) (svc_build_treatment svc request)
       v' (build_disclosure_request svc request) (svc_provider svc) decision DEFAULT_TIMEOUT_SECONDS False = (execution, sent)"
    using assms by (auto simp: execute_document_eq split: sum.splits option.splits prod.splits)
  have "sent = [\<lparr>pq_payload = cf_external_payload st, pq_task = cf_task st\<rparr>] \<and>
      cf_provider_class st = cf_governance_provider_class st"
    by (rule state_for_approval_fields [OF e(2)], cases rule: execute_cases [OF e(5)])
      (use assms(2) e(1) in \<open>auto simp: build_disclosure_request_def\<close>)
  with e(2-4) that show thesis by blast
qed

subsection \<open>A preview always returns\<close>

definition runs_in_memory :: "in_memory_vault service \<Rightarrow> bool" where
  "runs_in_memory svc \<longleftrightarrow> svc_vault_ops svc = in_memory_ops \<and> list_all rule_ok (active_rules (svc_detector svc))"

lemma decide_service:
  assumes "runs_in_memory svc" and "vault_inv v"
  obtains decision v' where "svc_decide svc v request = Inr (decision, v')" and "vault_inv v'"
    and "resolved (dd_result decision)"
    and "rs_status (dd_result decision) = Allowed \<Longrightarrow> in_available (build_inspection (nc_text (ap_content request)) decision)"
proof -
  let ?trt = "build_treatment in_memory_ops (svc_policy_repository svc) (svc_task_analyzer svc) (resolve_treatment (ap_strategy request))"
  obtain decision v' where d: "decide_disclosure ?trt (svc_detector svc) v (build_disclosure_request svc request) = Inr (decision, v')"
    "vault_inv v'"
    by (rule built_treatment.decide_returns [OF assms(2) conjunct2 [OF assms(1) [unfolded runs_in_memory_def]]])
  have "svc_decide svc v request = Inr (decision, v')"
    using assms(1) d(1) by (simp add: svc_decide_def svc_build_treatment_def runs_in_memory_def)
  moreover have "rs_status (dd_result decision) = Allowed \<Longrightarrow> in_available (build_inspection (nc_text (ap_content request)) decision)"
    using decision_inspected [OF d(1)] by (simp add: build_disclosure_request_def)
  ultimately show thesis using that d(2) decision_resolved [OF d(1)] by blast
qed

lemma preview_of_returns:
  assumes "resolved (dd_result decision)"
  obtains pv where "preview_of env svc mo v request decision ins tok = Inr pv"
    and "dp_external_payload pv = rs_external_payload (dd_result decision)"
    and "ds_status (dp_summary pv) = rs_status (dd_result decision)"
    and "list_all2 (describes_decision decision) (rs_decisions (dd_result decision)) (ds_categories (dp_summary pv))"
    and "dp_inspection pv = (if ins then Some (build_inspection (nc_text (ap_content request)) decision) else None)"
    and "dp_vault_explorer_token pv =
      (if tok then issue_reference (en_aead env) (svc_explorer_key svc) (mo_now mo) (mo_nonce mo) (svc_vault_ops svc) v
         (svc_policy_repository svc) (dd_result decision) (svc_context svc request) else None)"
  using summary_of_resolved [OF assms] by (auto simp: preview_of_def Let_def)

subsection \<open>A confirmed preview is executed\<close>

lemma vault_steps_inv: "vault_step\<^sup>*\<^sup>* v v' \<Longrightarrow> vault_inv v \<Longrightarrow> vault_inv v'"
  by (induction rule: rtranclp_induct) (auto dest: vault_step_inv)

lemma no_collision_self: "no_collision mac key ms ms"
  by (simp add: no_collision_def list_all2_same)

lemma confirmed_state_kept:
  assumes "runs_in_memory svc" and "vault_inv v" and "preview_document env svc mo v request = (Inr pd, v1)"
    and "vault_step\<^sup>*\<^sup>* v1 v2"
  obtains st decision v3 where "state_for_approval env svc mo v request = Inr st"
    and "state_for_approval env svc mo' v2 request = Inr st" and "svc_decide svc v2 request = Inr (decision, v3)"
    and "do_confirmation_token pd = issue (en_mac env) (svc_signer svc) (mo_now mo) st"
    and "cf_external_payload st = dp_external_payload (do_preview pd)"
    and "rs_status (dd_result decision) = ds_status (dp_summary (do_preview pd))"
    and "rs_external_payload (dd_result decision) = dp_external_payload (do_preview pd)"
proof (rule preview_document_token [OF assms(3)])
  fix st decision
  assume st: "state_for_approval env svc mo v request = Inr st" "svc_decide svc v request = Inr (decision, v1)"
    "do_confirmation_token pd = issue (en_mac env) (svc_signer svc) (mo_now mo) st"
    "cf_external_payload st = dp_external_payload (do_preview pd)"
    "dp_external_payload (do_preview pd) = rs_external_payload (dd_result decision)"
    "ds_status (dp_summary (do_preview pd)) = rs_status (dd_result decision)"
  have ops: "svc_vault_ops svc = in_memory_ops" using assms(1) by (simp add: runs_in_memory_def)
  have v1: "vault_inv v1" using decide_service [OF assms(1,2), of request] st(2) by auto
  then have v2: "vault_inv v2" "in_memory.keeps_issued v1 v2"
    using vault_steps_issued [OF assms(4)] vault_steps_inv [OF assms(4)] by (simp_all add: in_memory.keeps_issued_def)
  obtain v3 where v3: "svc_decide svc v2 request = Inr (decision, v3)"
    using in_memory.decide_again [OF assms(2) v2(1) _ v2(2)] st(2) unfolding svc_decide_def svc_build_treatment_def ops by blast
  have "state_for_approval env svc mo' v2 request = Inr st"
    using st(1,2) v3 by (simp add: state_for_approval_def preview_of_def split: sum.splits)
  with that st v3 show thesis by metis
qed

lemma verify_own_token:
  assumes "1 \<le> en_depth env" and "timestamps_fit (svc_signer svc) (mo_now mo)"
    and "later \<le> of_int (trunc (mo_now mo) + sg_ttl_seconds (svc_signer svc))"
  shows "verify (en_mac env) (svc_signer svc) (en_depth env) later (issue (en_mac env) (svc_signer svc) (mo_now mo) st) st = Inr ()"
  using verify_issued [OF assms(1,2) no_collision_self] assms(3) by simp

lemma build_treatment_unsafe [simp]:
  "dt_unsafe_control_baseline (build_treatment ops repo analyzer trt) \<longleftrightarrow> trt = DIRECT"
  by (cases trt) simp_all

lemma execution_of_resolved:
  assumes "resolved (ex_disclosure_result execution)"
  shows "\<exists>out. execution_of svc request execution = Inr out \<and> de_provider out = ar_provider (ex_audit execution) \<and>
    ds_status (de_summary out) = rs_status (ex_disclosure_result execution)"
  using summary_of_resolved [of "\<lparr>dd_spans = ex_spans execution, dd_result = ex_disclosure_result execution\<rparr>"] assms
  by (auto simp: execution_of_def)

lemma confirmed_executes:
  assumes "runs_in_memory svc" and "vault_inv v" and "preview_document env svc mo v request = (Inr pd, v1)"
    and "vault_step\<^sup>*\<^sup>* v1 v2" and "1 \<le> en_depth env" and "timestamps_fit (svc_signer svc) (mo_now mo)"
    and "mo_now mo' \<le> of_int (trunc (mo_now mo) + sg_ttl_seconds (svc_signer svc))"
    and "ds_status (dp_summary (do_preview pd)) = Allowed"
    and "pv_class (svc_provider svc) = ctx_provider_class (svc_context svc request)"
    and "resolve_treatment (ap_strategy request) = DIRECT \<Longrightarrow> pv_class (svc_provider svc) = DEFAULT_PROVIDER_NAME"
  shows "\<exists>out v3. execute_document env svc mo' v2 request (do_confirmation_token pd) =
    (Inr out, [\<lparr>pq_payload = dp_external_payload (do_preview pd), pq_task = ap_task request\<rparr>], v3) \<and> ps_called (de_provider out)"
proof (rule confirmed_state_kept [OF assms(1-4), where mo' = mo'])
  fix st decision v3
  assume st: "state_for_approval env svc mo' v2 request = Inr st" "svc_decide svc v2 request = Inr (decision, v3)"
    "do_confirmation_token pd = issue (en_mac env) (svc_signer svc) (mo_now mo) st"
    "rs_status (dd_result decision) = ds_status (dp_summary (do_preview pd))"
    "rs_external_payload (dd_result decision) = dp_external_payload (do_preview pd)"
  have safe: "refuse_unsafe_control svc (svc_build_treatment svc request) = None"
    using assms(10) by (auto simp: refuse_unsafe_control_def svc_build_treatment_def)
  obtain execution sent where e: "execute_disclosure_decision (en_audit_hmac env) (en_audit_key env) (svc_build_treatment svc request)
       v3 (build_disclosure_request svc request) (svc_provider svc) decision DEFAULT_TIMEOUT_SECONDS False = (execution, sent)"
    by force
  have out: "sent = [\<lparr>pq_payload = dp_external_payload (do_preview pd), pq_task = ap_task request\<rparr>] \<and>
      ps_called (ar_provider (ex_audit execution))"
    by (cases rule: execute_cases [OF e]) (use assms(8,9) st(4,5) in \<open>auto simp: build_disclosure_request_def\<close>)
  have "resolved (dd_result decision)"
    by (rule decision_resolved [OF st(2) [unfolded svc_decide_def svc_build_treatment_def]])
  then obtain view where "execution_of svc request execution = Inr view" "de_provider view = ar_provider (ex_audit execution)"
    using execution_of_resolved [of execution svc request] execute_carries(1) [OF e] by auto
  then show ?thesis
    using st(1-3) safe e out verify_own_token [where env = env and svc = svc and mo = mo, OF assms(5-7)]
    by (simp add: execute_document_eq)
qed

subsection \<open>Properties\<close>

definition sample_service :: "in_memory_vault service" where
  "sample_service =
     \<lparr>svc_vault_ops = in_memory_ops, svc_policy_repository = sample_repository, svc_provider = fake_provider id id,
      svc_provider_type = Fake_Provider, svc_task_analyzer = None, svc_detector = Some [whole_rule ''cpf'' digit],
      svc_default_context = sample_context, svc_examples = None, svc_document_parser = None, svc_signer = sample_signer,
      svc_sealer = sample_sealer, svc_demo_inspection_enabled = True, svc_demo_vault_explorer_enabled = True,
      svc_explorer_key = replicate 32 (CHR ''x'')\<rparr>"

definition sample_env :: "unit service_env" where
  "sample_env =
     \<lparr>en_audit_hmac = (\<lambda>k c. c), en_audit_key = (), en_mac = (\<lambda>k m. m), en_aead = sample_aead, en_depth = 9,
      en_set_order = (\<lambda>xs. xs)\<rparr>"

definition sample_moment :: moment where
  "sample_moment = \<lparr>mo_now = 1000, mo_nonce = replicate 12 (CHR ''n'')\<rparr>"

definition sample_document :: "pystr \<Rightarrow> application_request" where
  "sample_document txt =
     \<lparr>ap_content =
        \<lparr>nc_text = txt, nc_source_kind = Text_File, nc_source_name = Some ''note.txt'', nc_media_type = ''text/plain'',
         nc_character_count = length txt, nc_byte_count = length txt, nc_parser_name = ''native-utf8'',
         nc_parser_version = ''1'', nc_ingestion_version = ''1''\<rparr>,
      ap_task = ''sum up'', ap_strategy = S_B2, ap_governance = no_overrides,
      ap_document = Some \<lparr>dr_document_type = ''hr_record'', dr_analysis_mode = ''hr_record_summary''\<rparr>\<rparr>"

lemma sample_service_runs: "runs_in_memory sample_service"
  by (simp add: runs_in_memory_def sample_service_def active_rules_def rule_ok_def whole_rule_def digit_def)

lemma sample_moment_fits: "timestamps_fit (svc_signer sample_service) (mo_now sample_moment)"
  by (rule timestamps_fit_small)
    (simp_all add: sample_service_def sample_signer_def sample_moment_def trunc_def DEFAULT_CONFIRMATION_TTL_SECONDS_def)

lemma sample_cipher: "length nonce = NONCE_BYTES \<Longrightarrow> opens_what_it_sealed sample_aead aad key nonce plaintext"
  by (simp add: opens_what_it_sealed_def sample_aead_def)

lemma preview_document_returns:
  assumes "runs_in_memory svc" and "vault_inv v" and "ap_document request \<noteq> None"
  obtains pd v' where "preview_document env svc mo v request = (Inr pd, v')"
proof -
  obtain decision v' where d: "svc_decide svc v request = Inr (decision, v')" "resolved (dd_result decision)"
    by (rule decide_service [OF assms(1,2)])
  obtain pv where "preview env svc mo v request = (Inr pv, v')"
    by (rule preview_of_returns [OF d(2)]) (auto simp: preview_def d(1) intro: that)
  then show thesis using that assms(3)
    by (fastforce simp: preview_document_def confirmation_state_of_def Let_def)
qed

lemma sample_preview_allowed:
  assumes "preview_document sample_env sample_service sample_moment (new_vault str_nat) (sample_document ''id 7'') = (Inr pd, v1)"
  shows "ds_status (dp_summary (do_preview pd)) = Allowed \<and> dp_external_payload (do_preview pd) = ''id PSEUDO-cpf-0''"
proof -
  have "case svc_decide sample_service (new_vault str_nat) (sample_document ''id 7'') of
      Inl _ \<Rightarrow> False
    | Inr (decision, v') \<Rightarrow> rs_status (dd_result decision) = Allowed \<and> rs_external_payload (dd_result decision) = ''id PSEUDO-cpf-0''"
    by code_simp
  then show ?thesis by (auto intro: preview_document_token [OF assms])
qed

lemma execute_sends_the_preview:
  assumes "preview_document env svc mo v request = (Inr pd, v1)" and "svc_signer svc' = svc_signer svc"
    and "execute_document env svc' mo' v2 request' (do_confirmation_token pd) = (outcome, sent, v3)"
    and "1 \<le> en_depth env" and "timestamps_fit (svc_signer svc) (mo_now mo)"
    and "\<And>st st'. state_for_approval env svc mo v request = Inr st \<Longrightarrow> state_for_approval env svc' mo' v2 request' = Inr st' \<Longrightarrow>
      no_collision (en_mac env) (sg_secret (svc_signer svc)) (hashed_messages (en_mac env) (svc_signer svc) (mo_now mo) st)
        (hashed_messages (en_mac env) (svc_signer svc) (mo_now mo) st')"
  shows "sent = [] \<or>
    sent = [\<lparr>pq_payload = dp_external_payload (do_preview pd), pq_task = ap_task request\<rparr>] \<and>
    nc_text (ap_content request') = nc_text (ap_content request) \<and> ap_document request' = ap_document request \<and>
    pv_class (svc_provider svc') = pv_class (svc_provider svc) \<and>
    mo_now mo' \<le> of_int (trunc (mo_now mo) + sg_ttl_seconds (svc_signer svc))"
proof (cases "sent = []")
  case False
  then obtain st' where st': "state_for_approval env svc' mo' v2 request' = Inr st'"
    "verify (en_mac env) (svc_signer svc) (en_depth env) (mo_now mo') (do_confirmation_token pd) st' = Inr ()"
    "sent = [\<lparr>pq_payload = cf_external_payload st', pq_task = cf_task st'\<rparr>]"
    using execute_document_sends [OF assms(3)] assms(2) by metis
  obtain st decision where st: "state_for_approval env svc mo v request = Inr st"
    "do_confirmation_token pd = issue (en_mac env) (svc_signer svc) (mo_now mo) st"
    "cf_external_payload st = dp_external_payload (do_preview pd)"
    using preview_document_token [OF assms(1)] by metis
  have same: "st' = st" "mo_now mo' \<le> of_int (trunc (mo_now mo) + sg_ttl_seconds (svc_signer svc))"
    using st'(2) verify_issued [OF assms(4,5) assms(6) [OF st(1) st'(1)]] by (auto simp: st(2) split: if_splits)
  show ?thesis
    by (rule state_for_approval_fields [OF st(1)], rule state_for_approval_fields [OF st'(1)])
      (use st(3) st'(3) same in \<open>simp add: document_request_descriptor.equality\<close>)
qed simp

text \<open>
  C1: What an \<open>execute_document\<close> sends is what its preview showed. If a call presents the token of a preview, on the same
  signer but possibly on another service, request, vault and time, then it either sends nothing or sends exactly one
  request: the payload of that preview with the previewed task. The document, the selected type and mode and the class of the
  provider are then those of the preview and the token has not expired. This is relative to the messages hashed for the two
  states having no collision at the same place.
\<close>

theorem only_the_preview_is_sent:
  assumes "preview_document env svc mo v request = (Inr pd, v1)" and "svc_signer svc' = svc_signer svc"
    and "execute_document env svc' mo' v2 request' (do_confirmation_token pd) = (outcome, sent, v3)"
    and "1 \<le> en_depth env" and "timestamps_fit (svc_signer svc) (mo_now mo)"
    and "\<And>st st'. state_for_approval env svc mo v request = Inr st \<Longrightarrow> state_for_approval env svc' mo' v2 request' = Inr st' \<Longrightarrow>
      no_collision (en_mac env) (sg_secret (svc_signer svc)) (hashed_messages (en_mac env) (svc_signer svc) (mo_now mo) st)
        (hashed_messages (en_mac env) (svc_signer svc) (mo_now mo) st')"
  shows "sent = [] \<or>
    sent = [\<lparr>pq_payload = dp_external_payload (do_preview pd), pq_task = ap_task request\<rparr>] \<and>
    nc_text (ap_content request') = nc_text (ap_content request) \<and> ap_document request' = ap_document request \<and>
    pv_class (svc_provider svc') = pv_class (svc_provider svc) \<and>
    mo_now mo' \<le> of_int (trunc (mo_now mo) + sg_ttl_seconds (svc_signer svc))"
  using assms by (rule execute_sends_the_preview)

theorem only_the_preview_is_sent_witness:
  "\<exists>pd v1 outcome sent v3.
     preview_document sample_env sample_service sample_moment (new_vault str_nat) (sample_document ''id 7'') = (Inr pd, v1) \<and>
     execute_document sample_env sample_service sample_moment (new_vault str_nat) (sample_document ''id 8'')
       (do_confirmation_token pd) = (outcome, sent, v3) \<and> sent = []"
proof -
  obtain pd v1 where p: "preview_document sample_env sample_service sample_moment (new_vault str_nat) (sample_document ''id 7'') = (Inr pd, v1)"
    by (rule preview_document_returns [OF sample_service_runs vault_inv_new, where request = "sample_document ''id 7''"])
      (simp add: sample_document_def)
  obtain outcome sent v3 where e: "execute_document sample_env sample_service sample_moment (new_vault str_nat)
      (sample_document ''id 8'') (do_confirmation_token pd) = (outcome, sent, v3)" by (metis prod_cases3)
  have "sent = []"
    using only_the_preview_is_sent [OF p _ e _ sample_moment_fits]
    by (simp add: sample_env_def no_collision_def hashed_messages_def sample_document_def)
  with p e show ?thesis by blast
qed

text \<open>
  A confirmed preview is executed. Over the in-memory vault, if the preview shows an allowed decision, its token is
  presented in time with the same request, and the provider is of the class the governance names (the in-process one for the
  unsafe control), then \<open>execute_document\<close> returns and submits exactly the previewed payload and task, whatever else has been
  issued by the vault since.
\<close>

theorem confirmed_preview_is_executed:
  assumes "runs_in_memory svc" and "vault_inv v" and "preview_document env svc mo v request = (Inr pd, v1)"
    and "vault_step\<^sup>*\<^sup>* v1 v2" and "1 \<le> en_depth env" and "timestamps_fit (svc_signer svc) (mo_now mo)"
    and "mo_now mo' \<le> of_int (trunc (mo_now mo) + sg_ttl_seconds (svc_signer svc))"
    and "ds_status (dp_summary (do_preview pd)) = Allowed"
    and "pv_class (svc_provider svc) = ctx_provider_class (svc_context svc request)"
    and "resolve_treatment (ap_strategy request) = DIRECT \<Longrightarrow> pv_class (svc_provider svc) = DEFAULT_PROVIDER_NAME"
  shows "\<exists>out v3. execute_document env svc mo' v2 request (do_confirmation_token pd) =
    (Inr out, [\<lparr>pq_payload = dp_external_payload (do_preview pd), pq_task = ap_task request\<rparr>], v3) \<and> ps_called (de_provider out)"
  using assms by (rule confirmed_executes)

theorem confirmed_preview_is_executed_witness:
  "\<exists>pd v1 out v3.
     preview_document sample_env sample_service sample_moment (new_vault str_nat) (sample_document ''id 7'') = (Inr pd, v1) \<and>
     execute_document sample_env sample_service sample_moment (snd (pseudonymize v1 SESSION ''s'' ''cpf'' ''9''))
       (sample_document ''id 7'') (do_confirmation_token pd) =
       (Inr out, [\<lparr>pq_payload = ''id PSEUDO-cpf-0'', pq_task = ''sum up''\<rparr>], v3)"
proof -
  obtain pd v1 where p: "preview_document sample_env sample_service sample_moment (new_vault str_nat) (sample_document ''id 7'') = (Inr pd, v1)"
    by (rule preview_document_returns [OF sample_service_runs vault_inv_new, where request = "sample_document ''id 7''"])
      (simp add: sample_document_def)
  have later: "vault_step\<^sup>*\<^sup>* v1 (snd (pseudonymize v1 SESSION ''s'' ''cpf'' ''9''))"
    by (metis issue prod.collapse r_into_rtranclp)
  note shown = sample_preview_allowed [OF p]
  have in_time: "mo_now sample_moment \<le> of_int (trunc (mo_now sample_moment) + sg_ttl_seconds (svc_signer sample_service))"
    by (simp add: sample_moment_def sample_service_def sample_signer_def trunc_def DEFAULT_CONFIRMATION_TTL_SECONDS_def)
  have depth: "1 \<le> en_depth sample_env" by (simp add: sample_env_def)
  show ?thesis
    using confirmed_preview_is_executed [OF sample_service_runs vault_inv_new p later depth sample_moment_fits in_time] shown p
    by (auto simp: sample_service_def fake_provider_def svc_context_def sample_context_def sample_document_def merge_overrides_def
        no_overrides_def or_keep_def)
qed

end
