(* ===== verification/Review_Surface.thy ===== *)
theory Review_Surface
  imports Confirmed_Flow
begin

text \<open>
  What the reviewing operations of the application service show: \<open>preview\<close> with its summary, its inspection view and its
  vault-explorer reference, and the comparison of the strategies; what a request of the document surface is governed by;
  and the guards of the two operations that can reach the provider.
\<close>

subsection \<open>Decisions of a service\<close>

lemma svc_decide_issues:
  assumes "runs_in_memory svc" and "vault_inv v" and "svc_decide svc v request = Inr (decision, v')"
  shows "vault_inv v'" and "in_memory.keeps_issued v v'"
    and "\<exists>t \<in> set (rs_transformations (dd_result decision)). tr_action t = PSEUDONYMIZE \<Longrightarrow>
      \<exists>key. scope_key (resolve_pseudonym_scope (svc_policy_repository svc) (svc_context svc request)) (svc_context svc request) = Some key \<and>
        in_memory.tokens_issued v' (resolve_pseudonym_scope (svc_policy_repository svc) (svc_context svc request)) key
          (rs_transformations (dd_result decision))"
proof -
  have ops: "svc_vault_ops svc = in_memory_ops" using assms(1) by (simp add: runs_in_memory_def)
  note d = in_memory.decide_issues [OF assms(2) assms(3) [unfolded svc_decide_def svc_build_treatment_def ops]]
  show "vault_inv v'" "in_memory.keeps_issued v v'" using d by simp_all
  show "\<exists>key. scope_key (resolve_pseudonym_scope (svc_policy_repository svc) (svc_context svc request)) (svc_context svc request) = Some key \<and>
        in_memory.tokens_issued v' (resolve_pseudonym_scope (svc_policy_repository svc) (svc_context svc request)) key
          (rs_transformations (dd_result decision))"
    if "\<exists>t \<in> set (rs_transformations (dd_result decision)). tr_action t = PSEUDONYMIZE"
    using d that by (simp add: build_disclosure_request_def)
qed

lemma svc_decide_again:
  assumes "runs_in_memory svc" and "vault_inv v" and "vault_inv u" and "svc_decide svc v request = Inr (decision, v')"
    and "in_memory.keeps_issued v' u"
  shows "\<exists>u'. svc_decide svc u request = Inr (decision, u')"
proof -
  have ops: "svc_vault_ops svc = in_memory_ops" using assms(1) by (simp add: runs_in_memory_def)
  show ?thesis
    using in_memory.decide_again [OF assms(2,3) _ assms(5)] assms(4) unfolding svc_decide_def svc_build_treatment_def ops by blast
qed

lemma keeps_issued_trans:
  "in_memory.keeps_issued v u \<Longrightarrow> in_memory.keeps_issued u w \<Longrightarrow> in_memory.keeps_issued v w"
  by (simp add: in_memory.keeps_issued_def)

subsection \<open>The comparison\<close>

definition entry_of_decision ::
  "in_memory_vault service \<Rightarrow> application_request \<Rightarrow> in_memory_vault \<Rightarrow> strategy_comparison_entry \<Rightarrow> bool" where
  "entry_of_decision svc request v e \<longleftrightarrow>
     (\<exists>decision v'. svc_decide svc v (request\<lparr>ap_strategy := ce_strategy e\<rparr>) = Inr (decision, v') \<and>
        ce_external_payload e = rs_external_payload (dd_result decision) \<and>
        ds_status (ce_summary e) = rs_status (dd_result decision) \<and>
        list_all2 (describes_decision decision) (rs_decisions (dd_result decision)) (ds_categories (ce_summary e)))"

definition entry_labels :: "strategy_comparison_entry \<Rightarrow> bool" where
  "entry_labels e \<longleftrightarrow>
     ce_treatment e = resolve_treatment (ce_strategy e) \<and> (ce_recommended e \<longleftrightarrow> ce_treatment e = POLICY_GOVERNED) \<and>
     (ce_unsafe_control_baseline e \<longleftrightarrow> ce_treatment e = DIRECT)"

lemma preview_of_treatment:
  "preview_of env svc mo v request decision ins tok = Inr pv \<Longrightarrow> dp_treatment pv = resolve_treatment (ap_strategy request)"
  by (auto simp: preview_of_def Let_def split: sum.splits)

lemma compare_loop_returns:
  assumes "runs_in_memory svc" and "vault_inv v"
  shows "\<exists>entries v'. compare_loop env svc mos v request strategies = (Inr entries, v') \<and> vault_inv v' \<and>
    in_memory.keeps_issued v v' \<and> map ce_strategy entries = strategies \<and> list_all entry_labels entries \<and>
    (\<forall>u. vault_inv u \<and> in_memory.keeps_issued v' u \<longrightarrow> list_all (entry_of_decision svc request u) entries)"
  using assms(2)
proof (induction strategies arbitrary: v)
  case Nil
  then show ?case by simp
next
  case (Cons s ss)
  let ?r = "request\<lparr>ap_strategy := s\<rparr>"
  obtain decision v1 where d: "svc_decide svc v ?r = Inr (decision, v1)" "vault_inv v1" "resolved (dd_result decision)"
    by (rule decide_service [OF assms(1) Cons.prems])
  obtain pv where pv: "preview_of env svc (mos s) v1 ?r decision (svc_demo_inspection_enabled svc) (svc_demo_vault_explorer_enabled svc) = Inr pv"
    "dp_external_payload pv = rs_external_payload (dd_result decision)" "ds_status (dp_summary pv) = rs_status (dd_result decision)"
    "list_all2 (describes_decision decision) (rs_decisions (dd_result decision)) (ds_categories (dp_summary pv))"
    by (rule preview_of_returns [OF d(3)])
  have p: "preview env svc (mos s) v ?r = (Inr pv, v1)" using d(1) pv(1) by (simp add: preview_def)
  obtain entries v' where ih: "compare_loop env svc mos v1 request ss = (Inr entries, v')" "vault_inv v'"
    "in_memory.keeps_issued v1 v'" "map ce_strategy entries = ss" "list_all entry_labels entries"
    "\<And>u. vault_inv u \<Longrightarrow> in_memory.keeps_issued v' u \<Longrightarrow> list_all (entry_of_decision svc request u) entries"
    using Cons.IH [OF d(2)] by blast
  have again: "\<exists>u'. svc_decide svc u ?r = Inr (decision, u')" if "vault_inv u" "in_memory.keeps_issued v' u" for u
    by (rule svc_decide_again [OF assms(1) Cons.prems that(1) d(1) keeps_issued_trans [OF ih(3) that(2)]])
  have "in_memory.keeps_issued v v'"
    by (rule keeps_issued_trans [OF svc_decide_issues(2) [OF assms(1) Cons.prems d(1)] ih(3)])
  moreover obtain e where e: "compare_loop env svc mos v request (s # ss) = (Inr (e # entries), v')" "ce_strategy e = s"
    "ce_external_payload e = dp_external_payload pv" "ce_summary e = dp_summary pv" "entry_labels e"
    using ih(1) p preview_of_treatment [OF pv(1)] by (simp add: Let_def entry_labels_def svc_build_treatment_def)
  moreover have "entry_of_decision svc request u e" if "vault_inv u" "in_memory.keeps_issued v' u" for u
    using again [OF that] e(2-4) pv(2-4) unfolding entry_of_decision_def by metis
  ultimately show ?case using ih by auto
qed

subsection \<open>The vault explorer\<close>

lemma pseudonymized_entries_of:
  "(category, pseudonym, orig) \<in> set (pseudonymized_entries seen ts) \<Longrightarrow>
     \<exists>t \<in> set ts. tr_action t = PSEUDONYMIZE \<and> tr_category t = category \<and> tr_transformed t = Some pseudonym \<and> tr_original t = orig"
  by (induction seen ts rule: pseudonymized_entries.induct) (auto split: option.splits if_splits)

text \<open>A reference is refused to an allowed decision of the in-memory vault for pseudonyms of the organization only.\<close>

lemma reference_issued:
  assumes "runs_in_memory svc" and "vault_inv v" and "svc_decide svc v request = Inr (decision, v')"
    and "rs_status (dd_result decision) = Allowed"
    and "resolve_pseudonym_scope (svc_policy_repository svc) (svc_context svc request) \<noteq> ORGANIZATION"
  shows "issue_reference ae key now nonce in_memory_ops v' (svc_policy_repository svc) (dd_result decision) (svc_context svc request) \<noteq> None"
proof (cases "pseudonymized_entries [] (rs_transformations (dd_result decision)) = []")
  case True
  then show ?thesis using assms(4) by (simp add: issue_reference_def)
next
  case False
  let ?scope = "resolve_pseudonym_scope (svc_policy_repository svc) (svc_context svc request)"
  have "\<exists>t \<in> set (rs_transformations (dd_result decision)). tr_action t = PSEUDONYMIZE"
    using False pseudonymized_entries_of by (metis list.set_intros(1) neq_Nil_conv prod_cases3)
  then obtain partition_key where k: "scope_key ?scope (svc_context svc request) = Some partition_key"
    "in_memory.tokens_issued v' ?scope partition_key (rs_transformations (dd_result decision))"
    using svc_decide_issues(3) [OF assms(1-3)] by blast
  have "vo_reconstruct in_memory_ops v' ?scope partition_key pseudonym = Some orig"
    if entry: "(category, pseudonym, orig) \<in> set (pseudonymized_entries [] (rs_transformations (dd_result decision)))"
    for category pseudonym orig
  proof -
    obtain t where t: "t \<in> set (rs_transformations (dd_result decision))" "tr_action t = PSEUDONYMIZE"
      "tr_transformed t = Some pseudonym" "tr_original t = orig"
      using pseudonymized_entries_of [OF entry] by blast
    then have "vault_issued v' ?scope partition_key (tr_category t) orig pseudonym"
      using k(2) by (force simp: in_memory.tokens_issued_def)
    then show ?thesis using in_memory.reconstruct_iff [OF svc_decide_issues(1) [OF assms(1-3)]] by blast
  qed
  then show ?thesis using assms(4,5) k(1) by (auto simp: issue_reference_def Let_def list_all_iff)
qed

lemma vault_steps_reconstruct:
  assumes "vault_step\<^sup>*\<^sup>* v v'" and "vault_inv v" and "vo_reconstruct in_memory_ops v s k p = Some x"
  shows "vo_reconstruct in_memory_ops v' s k p = Some x"
  using in_memory.reconstruct_iff [OF assms(2), of s k p x] in_memory.reconstruct_iff [of v' s k p x]
    vault_steps_issued [OF assms(1,2)] assms(3) by blast

subsection \<open>Properties\<close>

text \<open>
  C13: A preview always returns and tells the truth. Over the in-memory vault with well-formed rules, \<open>preview\<close> returns a view
  of the decision it made: its payload and status are those of the decision; its summary describes every category decision,
  with whether the category crosses the boundary and how often it occurs; and an inspection view is available exactly for an
  allowed decision, its segments then give back the document on one side and the payload on the other.
\<close>

theorem preview_is_truthful:
  assumes "runs_in_memory svc" and "vault_inv v"
  shows "\<exists>decision pv v'. svc_decide svc v request = Inr (decision, v') \<and> preview env svc mo v request = (Inr pv, v') \<and>
    vault_inv v' \<and> dp_external_payload pv = rs_external_payload (dd_result decision) \<and>
    ds_status (dp_summary pv) = rs_status (dd_result decision) \<and>
    list_all2 (describes_decision decision) (rs_decisions (dd_result decision)) (ds_categories (dp_summary pv)) \<and>
    (\<forall>view. dp_inspection pv = Some view \<longrightarrow>
       in_available view = (rs_status (dd_result decision) = Allowed) \<and>
       (in_available view \<longrightarrow> concat (map sg_original (in_segments view)) = nc_text (ap_content request) \<and>
          concat (map sg_disclosed (in_segments view)) = dp_external_payload pv))"
proof -
  obtain decision v' where d: "svc_decide svc v request = Inr (decision, v')" "vault_inv v'" "resolved (dd_result decision)"
    "rs_status (dd_result decision) = Allowed \<Longrightarrow> in_available (build_inspection (nc_text (ap_content request)) decision)"
    by (rule decide_service [OF assms, where request = request]) blast
  obtain pv where pv: "preview_of env svc mo v' request decision (svc_demo_inspection_enabled svc) (svc_demo_vault_explorer_enabled svc) = Inr pv"
    "dp_external_payload pv = rs_external_payload (dd_result decision)" "ds_status (dp_summary pv) = rs_status (dd_result decision)"
    "list_all2 (describes_decision decision) (rs_decisions (dd_result decision)) (ds_categories (dp_summary pv))"
    "dp_inspection pv = (if svc_demo_inspection_enabled svc then Some (build_inspection (nc_text (ap_content request)) decision) else None)"
    by (rule preview_of_returns [OF d(3)])
  have "preview env svc mo v request = (Inr pv, v')" using d(1) pv(1) by (simp add: preview_def)
  with d pv(2-5) build_inspection_available [of "nc_text (ap_content request)" decision] show ?thesis
    by (auto split: if_splits)
qed

theorem preview_is_truthful_witness:
  "\<exists>pv v'. preview sample_env sample_service sample_moment (new_vault str_nat) (sample_document ''id 7'') = (Inr pv, v') \<and> vault_inv v'"
  using preview_is_truthful [OF sample_service_runs vault_inv_new, where request = "sample_document ''id 7''"] by metis

text \<open>
  A comparison shows the five treatments, and shows what later previews will show. It always returns an entry for each
  of B0 to B4 in this order; only B0 is labelled as the unsafe baseline and only B4 as recommended; and on every later vault
  the decision under the strategy of an entry still has the entry's payload, status and summary, so that all entries are of
  one vault.
\<close>

theorem comparison_shows_every_treatment:
  assumes "runs_in_memory svc" and "vault_inv v"
  shows "\<exists>c v'. compare_strategies env svc mos v request = (Inr c, v') \<and> vault_inv v' \<and>
    map ce_treatment (co_entries c) = [DIRECT, STATIC_SANITIZATION, REVERSIBLE_PSEUDONYMIZATION, TASK_AWARE, POLICY_GOVERNED] \<and>
    list_all entry_labels (co_entries c) \<and>
    (\<forall>u. vault_step\<^sup>*\<^sup>* v' u \<longrightarrow> list_all (entry_of_decision svc request u) (co_entries c))"
proof -
  obtain entries v' where c: "compare_loop env svc mos v request CANONICAL_COMPARISON_ORDER = (Inr entries, v')" "vault_inv v'"
    "map ce_strategy entries = CANONICAL_COMPARISON_ORDER" "list_all entry_labels entries"
    "\<And>u. vault_inv u \<Longrightarrow> in_memory.keeps_issued v' u \<Longrightarrow> list_all (entry_of_decision svc request u) entries"
    using compare_loop_returns [OF assms] by blast
  have "map ce_treatment entries = map resolve_treatment (map ce_strategy entries)"
    using c(4) by (simp add: list_all_iff entry_labels_def)
  then have "map ce_treatment entries = [DIRECT, STATIC_SANITIZATION, REVERSIBLE_PSEUDONYMIZATION, TASK_AWARE, POLICY_GOVERNED]"
    by (simp only: c(3)) (simp add: CANONICAL_COMPARISON_ORDER_def)
  moreover have "list_all (entry_of_decision svc request u) entries" if steps: "vault_step\<^sup>*\<^sup>* v' u" for u
    by (rule c(5) [OF vault_steps_inv [OF steps c(2)]])
      (use vault_steps_issued [OF steps c(2)] in \<open>simp add: in_memory.keeps_issued_def\<close>)
  ultimately show ?thesis using c(1,2,4) by (simp add: compare_strategies_def)
qed

theorem comparison_shows_every_treatment_witness:
  "\<exists>c v'. compare_strategies sample_env sample_service (\<lambda>_. sample_moment) (new_vault str_nat) (sample_document ''id 7'') = (Inr c, v') \<and>
     length (co_entries c) = 5"
proof -
  obtain c v' where c: "compare_strategies sample_env sample_service (\<lambda>_. sample_moment) (new_vault str_nat) (sample_document ''id 7'') = (Inr c, v')"
    "map ce_treatment (co_entries c) = [DIRECT, STATIC_SANITIZATION, REVERSIBLE_PSEUDONYMIZATION, TASK_AWARE, POLICY_GOVERNED]"
    using comparison_shows_every_treatment [OF sample_service_runs vault_inv_new, where request = "sample_document ''id 7''"] by metis
  from arg_cong [OF c(2), of length] c(1) show ?thesis by auto
qed

text \<open>
  C14: The vault explorer shows the originals of a previewed decision, and later ones do not disturb it. With the explorer
  enabled, a preview of an allowed decision whose pseudonyms are not of the organization carries a reference; on every later
  vault, until the reference expires, it opens to the pseudonyms of that very decision, each with the original it stands for.
  The cipher is assumed to open what it sealed.
\<close>

theorem explorer_shows_the_previewed_originals:
  assumes "runs_in_memory svc" and "vault_inv v" and "svc_demo_vault_explorer_enabled svc"
    and "svc_decide svc v request = Inr (decision, v1)" and "preview env svc mo v request = (Inr pv, v1)"
    and "rs_status (dd_result decision) = Allowed"
    and "resolve_pseudonym_scope (svc_policy_repository svc) (svc_context svc request) \<noteq> ORGANIZATION"
    and "length (mo_nonce mo) = NONCE_BYTES" and "3 \<le> en_depth env"
    and "\<bar>trunc (mo_now mo) + VAULT_EXPLORER_REFERENCE_TTL_SECONDS\<bar> < 10 ^ MAX_INT_DIGITS"
    and "\<And>plaintext. opens_what_it_sealed (en_aead env) VX_AAD (svc_explorer_key svc) (mo_nonce mo) plaintext"
    and "vault_step\<^sup>*\<^sup>* v1 v2" and "now \<le> of_int (trunc (mo_now mo) + VAULT_EXPLORER_REFERENCE_TTL_SECONDS)"
  shows "\<exists>token scope. dp_vault_explorer_token pv = Some token \<and> explore_vault env svc now v2 token =
    Inr \<lparr>vv_scope = scope, vv_entries = map shown_entry (pseudonymized_entries [] (rs_transformations (dd_result decision)))\<rparr>"
proof -
  have ops: "svc_vault_ops svc = in_memory_ops" using assms(1) by (simp add: runs_in_memory_def)
  obtain token where token: "issue_reference (en_aead env) (svc_explorer_key svc) (mo_now mo) (mo_nonce mo) in_memory_ops v1
      (svc_policy_repository svc) (dd_result decision) (svc_context svc request) = Some token"
    using reference_issued [OF assms(1,2,4,6,7)] by blast
  have "dp_vault_explorer_token pv = Some token"
    using assms(3-5) token by (auto simp: preview_def preview_of_def ops Let_def split: sum.splits)
  moreover note explore_issued [OF token assms(8-11) vault_steps_reconstruct [OF assms(12) svc_decide_issues(1) [OF assms(1,2,4)]] assms(13)]
  ultimately show ?thesis using assms(3) by (auto simp: explore_vault_def ops)
qed

theorem explorer_shows_the_previewed_originals_witness:
  "\<exists>pv v1 token scope. preview sample_env sample_service sample_moment (new_vault str_nat) (sample_document ''id 7'') = (Inr pv, v1) \<and>
     explore_vault sample_env sample_service 1001 v1 token =
       Inr \<lparr>vv_scope = scope, vv_entries =
         [\<lparr>ve_category = ''cpf'', ve_pseudonym = ''PSEUDO-cpf-0'', ve_original = Some ''7'', ve_present = True\<rparr>]\<rparr>"
proof -
  obtain decision v1 where d: "svc_decide sample_service (new_vault str_nat) (sample_document ''id 7'') = Inr (decision, v1)"
    "resolved (dd_result decision)"
    by (rule decide_service [OF sample_service_runs vault_inv_new, where request = "sample_document ''id 7''"]) blast
  have "case svc_decide sample_service (new_vault str_nat) (sample_document ''id 7'') of
      Inl _ \<Rightarrow> False
    | Inr (decision, v') \<Rightarrow> rs_status (dd_result decision) = Allowed \<and>
        pseudonymized_entries [] (rs_transformations (dd_result decision)) = [(''cpf'', ''PSEUDO-cpf-0'', ''7'')]"
    by code_simp
  then have shown: "rs_status (dd_result decision) = Allowed"
    "pseudonymized_entries [] (rs_transformations (dd_result decision)) = [(''cpf'', ''PSEUDO-cpf-0'', ''7'')]"
    by (simp_all add: d(1))
  obtain pv where "preview_of sample_env sample_service sample_moment v1 (sample_document ''id 7'') decision True True = Inr pv"
    by (rule preview_of_returns [OF d(2)])
  then have p: "preview sample_env sample_service sample_moment (new_vault str_nat) (sample_document ''id 7'') = (Inr pv, v1)"
    using d(1) by (simp add: preview_def sample_service_def)
  have scope: "resolve_pseudonym_scope (svc_policy_repository sample_service) (svc_context sample_service (sample_document ''id 7'')) \<noteq> ORGANIZATION"
    by code_simp
  have small: "\<bar>trunc (mo_now sample_moment) + VAULT_EXPLORER_REFERENCE_TTL_SECONDS\<bar> < 10 ^ MAX_INT_DIGITS"
  proof -
    have "(10 :: int) ^ 10 \<le> 10 ^ MAX_INT_DIGITS" by (rule power_increasing) (simp_all add: MAX_INT_DIGITS_def)
    moreover have "\<bar>trunc (mo_now sample_moment) + VAULT_EXPLORER_REFERENCE_TTL_SECONDS\<bar> < 10 ^ 10"
      by (simp add: sample_moment_def trunc_def VAULT_EXPLORER_REFERENCE_TTL_SECONDS_def)
    ultimately show ?thesis by linarith
  qed
  have nonce: "length (mo_nonce sample_moment) = NONCE_BYTES" by (simp add: sample_moment_def NONCE_BYTES_def)
  have env: "3 \<le> en_depth sample_env" "en_aead sample_env = sample_aead" by (simp_all add: sample_env_def)
  have in_time: "1001 \<le> (of_int (trunc (mo_now sample_moment) + VAULT_EXPLORER_REFERENCE_TTL_SECONDS) :: rat)"
    by (simp add: sample_moment_def trunc_def VAULT_EXPLORER_REFERENCE_TTL_SECONDS_def)
  have enabled: "svc_demo_vault_explorer_enabled sample_service" by (simp add: sample_service_def)
  show ?thesis
    using explorer_shows_the_previewed_originals [OF sample_service_runs vault_inv_new enabled d(1) p shown(1) scope nonce env(1) small
        _ rtranclp.rtrancl_refl in_time] sample_cipher [OF nonce] p
    by (auto simp: env(2) shown(2) shown_entry_def)
qed

text \<open>
  A document is governed by a server-side preset and by nothing the client writes. A request that the document surface
  builds is within the ingestion limits, records the selected type and mode, and its governance context is the deployer's
  default with exactly the domain, the policy version, the role and a listed purpose of the preset of that type.
\<close>

theorem documents_are_governed_by_presets:
  assumes "build_document_request svc filename file_bytes task document_type analysis_mode strategy = Inr request"
  shows "within_limits (ap_content request) \<and> ap_task request = task \<and>
    (\<exists>p \<in> set list_document_presets. pr_document_type p = document_type \<and>
       svc_context svc request = (svc_default_context svc)\<lparr>ctx_domain := pr_domain p, ctx_policy_version := pr_policy_version p,
         ctx_purpose := ctx_purpose (svc_context svc request), ctx_requester_role := Some (pr_requester_role p)\<rparr> \<and>
       ctx_purpose (svc_context svc request) \<in> set (pr_analysis_modes p) \<and>
       ap_document request = Some \<lparr>dr_document_type = document_type, dr_analysis_mode = ctx_purpose (svc_context svc request)\<rparr>)"
proof -
  obtain overrides r mode where b: "resolve_governance_preset document_type analysis_mode = Inr overrides"
    "build_application_request svc None (Some filename) (Some file_bytes) None (Some task) strategy (Some overrides) = Inr r"
    "resolve_analysis_mode document_type analysis_mode = Inr mode"
    "request = r\<lparr>ap_document := Some \<lparr>dr_document_type = document_type, dr_analysis_mode = mode\<rparr>\<rparr>"
    using assms by (auto simp: build_document_request_def split: sum.splits)
  obtain content where c: "normalize_text_file (svc_document_parser svc) filename file_bytes = Inr content"
    "r = \<lparr>ap_content = content, ap_task = task, ap_strategy = strategy, ap_governance = overrides, ap_document = None\<rparr>"
    using b(2) by (auto simp: build_application_request_def Let_def split: sum.splits)
  have "go_purpose overrides = Some mode"
    using b(1,3) by (auto simp: resolve_governance_preset_def split: sum.splits)
  then have "ctx_purpose (svc_context svc request) = mode"
    by (simp add: svc_context_def merge_overrides_def or_keep_def b(4) c(2))
  with preset_selects [OF b(1), of "svc_default_context svc"] normalize_text_file_Inr(1) [OF c(1)] show ?thesis
    by (simp add: svc_context_def b(4) c(2))
qed

theorem documents_are_governed_by_presets_witness:
  "case build_document_request sample_service ''a.txt'' ''hello'' ''sum up'' ''hr_record'' None S_B4 of
     Inl _ \<Rightarrow> False | Inr request \<Rightarrow> within_limits (ap_content request) \<and> ap_task request = ''sum up''"
proof -
  have "case build_document_request sample_service ''a.txt'' ''hello'' ''sum up'' ''hr_record'' None S_B4 of
     Inl _ \<Rightarrow> False | Inr _ \<Rightarrow> True" by code_simp
  then obtain r where r: "build_document_request sample_service ''a.txt'' ''hello'' ''sum up'' ''hr_record'' None S_B4 = Inr r"
    by (auto split: sum.splits)
  show ?thesis using documents_are_governed_by_presets [OF r] by (simp add: r)
qed

text \<open>
  C15: The guards of execution. \<open>execute\<close> sends nothing for a request of the document surface. When \<open>execute_document\<close> sends, it
  sends one request, the request is of that surface, \<open>verify\<close> accepted the token against the state recomputed from the request,
  and under the unsafe control B0 the provider is the in-process one.
\<close>

theorem execution_guards:
  "(ap_document request \<noteq> None \<longrightarrow> fst (snd (execute env svc v request)) = []) \<and>
   (execute_document env svc mo v request token = (outcome, sent, v') \<longrightarrow> sent = [] \<or>
      length sent = 1 \<and> ap_document request \<noteq> None \<and>
      (\<exists>st. state_for_approval env svc mo v request = Inr st \<and>
         verify (en_mac env) (svc_signer svc) (en_depth env) (mo_now mo) token st = Inr ()) \<and>
      (resolve_treatment (ap_strategy request) = DIRECT \<longrightarrow> pv_class (svc_provider svc) = DEFAULT_PROVIDER_NAME))"
proof -
  have "length sent = 1 \<and> ap_document request \<noteq> None \<and>
      (\<exists>st. state_for_approval env svc mo v request = Inr st \<and>
         verify (en_mac env) (svc_signer svc) (en_depth env) (mo_now mo) token st = Inr ()) \<and>
      (resolve_treatment (ap_strategy request) = DIRECT \<longrightarrow> pv_class (svc_provider svc) = DEFAULT_PROVIDER_NAME)"
    if e: "execute_document env svc mo v request token = (outcome, sent, v')" and "sent \<noteq> []"
  proof (rule execute_document_sends [OF that])
    fix st
    assume st: "state_for_approval env svc mo v request = Inr st"
      "verify (en_mac env) (svc_signer svc) (en_depth env) (mo_now mo) token st = Inr ()"
      "sent = [\<lparr>pq_payload = cf_external_payload st, pq_task = cf_task st\<rparr>]"
      "refuse_unsafe_control svc (svc_build_treatment svc request) = None"
    have "ap_document request \<noteq> None" by (rule state_for_approval_fields [OF st(1)]) simp
    then show ?thesis using st by (auto simp: refuse_unsafe_control_def svc_build_treatment_def split: if_splits)
  qed
  then show ?thesis by (auto simp: execute_def)
qed

theorem execution_guards_witness:
  "fst (snd (execute sample_env sample_service (new_vault str_nat) (sample_document ''id 7''))) = []"
  using execution_guards [of "sample_document ''id 7''" sample_env sample_service "new_vault str_nat"]
  by (simp add: sample_document_def)

lemma same_class_decides:
  "svc_decide (svc\<lparr>svc_provider := p\<rparr>) v request = svc_decide svc v request"
  "svc_context (svc\<lparr>svc_provider := p\<rparr>) request = svc_context svc request"
  "svc_build_treatment (svc\<lparr>svc_provider := p\<rparr>) request = svc_build_treatment svc request"
  by (simp_all add: svc_decide_def svc_context_def svc_build_treatment_def build_disclosure_request_def)

lemma same_class_previews:
  assumes "pv_class p = pv_class (svc_provider svc)"
  shows "preview_of env (svc\<lparr>svc_provider := p\<rparr>) mo v request decision ins tok = preview_of env svc mo v request decision ins tok"
    and "preview env (svc\<lparr>svc_provider := p\<rparr>) mo v request = preview env svc mo v request"
  using assms by (simp_all add: preview_def preview_of_def same_class_decides Let_def split: sum.split prod.split)

lemma same_class_compares:
  assumes "pv_class p = pv_class (svc_provider svc)"
  shows "compare_loop env (svc\<lparr>svc_provider := p\<rparr>) mos v request ss = compare_loop env svc mos v request ss"
  by (induction ss arbitrary: v) (simp_all add: same_class_previews [OF assms] same_class_decides Let_def split: sum.split prod.split)

text \<open>
  Reviewing never asks the provider. Whatever a provider of the same class would answer, \<open>preview\<close>, \<open>preview_document\<close>,
  \<open>compare_strategies\<close> and \<open>export\<close> return the same, with the same vault after them.
\<close>

theorem reviewing_never_asks_the_provider:
  assumes "pv_class p = pv_class (svc_provider svc)"
  shows "preview env (svc\<lparr>svc_provider := p\<rparr>) mo v request = preview env svc mo v request \<and>
    preview_document env (svc\<lparr>svc_provider := p\<rparr>) mo v request = preview_document env svc mo v request \<and>
    compare_strategies env (svc\<lparr>svc_provider := p\<rparr>) mos v request = compare_strategies env svc mos v request \<and>
    export env (svc\<lparr>svc_provider := p\<rparr>) mo v request = export env svc mo v request"
  by (simp add: preview_document_def compare_strategies_def export_def same_class_previews [OF assms]
      same_class_compares [OF assms] same_class_decides assms split: sum.split prod.split)

theorem reviewing_never_asks_the_provider_witness:
  "export sample_env (sample_service\<lparr>svc_provider := (fake_provider id id)\<lparr>pv_generate := (\<lambda>_. (None, Raises_Other))\<rparr>\<rparr>)
     sample_moment (new_vault str_nat) (sample_document ''id 7'') =
   export sample_env sample_service sample_moment (new_vault str_nat) (sample_document ''id 7'')"
proof -
  have "pv_class ((fake_provider id id)\<lparr>pv_generate := (\<lambda>_. (None, Raises_Other))\<rparr>) = pv_class (svc_provider sample_service)"
    by (simp add: sample_service_def)
  from reviewing_never_asks_the_provider [OF this] show ?thesis by blast
qed

end
