(* ===== verification/Export_Restore.thy ===== *)
theory Export_Restore
  imports Confirmed_Flow Reconstruction
begin

text \<open>
  Exporting a disclosed document and restoring it (\<open>export\<close> and \<open>restore\<close> of \<open>application/service.py\<close>, with the sealed
  handle between them).

  The lemmas show that the table sealed into a handle is that of the pseudonyms of the decision, and that restoring the
  exported payload gives the document back.
\<close>

subsection \<open>The sealed table\<close>

lemma foldl_entries_distinct:
  "distinct (map fst d) \<Longrightarrow>
     distinct (map fst (foldl (\<lambda>d t. case tr_transformed t of
                Some p \<Rightarrow> if tr_action t = PSEUDONYMIZE then dict_set d p (tr_original t) else d
              | None \<Rightarrow> d) d ts))"
  by (induction ts arbitrary: d) (auto simp: dict_set_def distinct_update split: option.split)

lemma restorable_entries_distinct: "distinct (map fst (restorable_entries res))"
  by (simp add: restorable_entries_def foldl_entries_distinct)

lemma foldl_entries_get:
  assumes "\<And>t p. t \<in> set ts \<Longrightarrow> tr_action t = PSEUDONYMIZE \<Longrightarrow> tr_transformed t = Some p \<Longrightarrow> tr_original t = f p"
  shows "dict_get (foldl (\<lambda>d t. case tr_transformed t of
              Some p \<Rightarrow> if tr_action t = PSEUDONYMIZE then dict_set d p (tr_original t) else d
            | None \<Rightarrow> d) d ts) p =
     (if \<exists>t \<in> set ts. tr_action t = PSEUDONYMIZE \<and> tr_transformed t = Some p then Some (f p) else dict_get d p)"
  using assms by (induction ts arbitrary: d) (auto split: option.split)

lemma restorable_entries_get:
  assumes "\<And>t p. t \<in> set (rs_transformations res) \<Longrightarrow> tr_action t = PSEUDONYMIZE \<Longrightarrow> tr_transformed t = Some p \<Longrightarrow> tr_original t = f p"
  shows "dict_get (restorable_entries res) p = (if p \<in> set (pseudonymized_tokens res) then Some (f p) else None)"
  using foldl_entries_get [of "rs_transformations res" f "[]" p] assms
  by (simp add: restorable_entries_def pseudonymized_tokens_iff)

lemma dict_get_sorted: "distinct (map fst d) \<Longrightarrow> dict_get (sort_key fst d) p = dict_get d p"
proof -
  assume d: "distinct (map fst d)"
  have "distinct (map fst (sort_key fst d))"
    using d by (metis distinct_map distinct_sort set_sort)
  then have "map_of (sort_key fst d) = map_of d" using d map_of_inject_set by force
  then show ?thesis by (simp add: dict_get_def)
qed

subsection \<open>A payload put back\<close>

text \<open>What the payload of a decision is made of: pieces that are literal or tokens, and their originals.\<close>

lemma payload_pieces:
  assumes "list_all2 shown_as ordered ts" and "\<forall>t \<in> set ts. tr_action t = PRESERVE \<or> tr_action t = PSEUDONYMIZE"
    and "\<And>t p. t \<in> set ts \<Longrightarrow> tr_action t = PSEUDONYMIZE \<Longrightarrow> tr_transformed t = Some p \<Longrightarrow> tr_original t = f p"
  shows "map (piece_text f) (map piece_of ts) = map sp_value ordered"
  using assms
proof (induction rule: list_all2_induct)
  case (Cons sp sps t ts)
  then have "piece_text f (piece_of t) = sp_value sp"
    by (auto simp: shown_as_def piece_of_def split: option.splits)
  moreover have "map (piece_text f) (map piece_of ts) = map sp_value sps" by (rule Cons.IH) (use Cons.prems in auto)
  ultimately show ?case by simp
qed simp

lemma weave_restores:
  assumes "list_all2 shown_as ordered ts" and "spans_are_valid ordered txt" and "sorted_wrt (\<lambda>a b. hi a \<le> lo b) ordered"
    and "\<forall>t \<in> set ts. tr_action t = PRESERVE \<or> tr_action t = PSEUDONYMIZE"
    and "\<And>t p. t \<in> set ts \<Longrightarrow> tr_action t = PSEUDONYMIZE \<Longrightarrow> tr_transformed t = Some p \<Longrightarrow> tr_original t = f p"
  obtains ps where "render f ps = txt"
    and "render (\<lambda>t. t) ps = weave (gaps txt 0 ordered) (map (\<lambda>t. the_default '''' (tr_transformed t)) ts)"
    and "tokens_of ps \<subseteq> {p. \<exists>t \<in> set ts. tr_action t = PSEUDONYMIZE \<and> tr_transformed t = Some p}"
proof -
  let ?ps = "weave_pieces (gaps txt 0 ordered) (map piece_of ts)"
  have len: "length (gaps txt 0 ordered) = Suc (length (map piece_of ts))"
    using list_all2_lengthD [OF assms(1)] by simp
  have "render f ?ps = weave (gaps txt 0 ordered) (map sp_value ordered)"
    using render_weave [OF len, of f] payload_pieces [OF assms(1,4), of f] assms(5) by (metis (no_types, lifting))
  also have "\<dots> = drop 0 txt" by (rule weave_values [OF assms(2,3)]) simp_all
  finally have "render f ?ps = txt" by simp
  moreover have "render (\<lambda>t. t) ?ps = weave (gaps txt 0 ordered) (map (\<lambda>t. the_default '''' (tr_transformed t)) ts)"
    unfolding render_weave [OF len] by (simp add: comp_def piece_of_text)
  moreover have "tokens_of ?ps \<subseteq> {p. \<exists>t \<in> set ts. tr_action t = PSEUDONYMIZE \<and> tr_transformed t = Some p}"
  proof -
    have "\<exists>t \<in> set ts. tr_action t = PSEUDONYMIZE \<and> tr_transformed t = Some p" if "Tok p \<in> set (map piece_of ts)" for p
      using that by (auto simp: piece_of_def split: option.splits if_splits)
    then show ?thesis using tokens_weave [of "gaps txt 0 ordered" "map piece_of ts"] by blast
  qed
  ultimately show thesis by (rule that)
qed

text \<open>Restoring with a table that has every token of the pieces, all of which the scanner finds.\<close>

lemma restore_pieces:
  assumes "\<And>xs. mset (set_order xs) = mset xs" and "\<And>p. dict_get mapping p = (if p \<in> toks then Some (f p) else None)"
    and "toks \<subseteq> set (tokens_in (render (\<lambda>t. t) ps))" and "tokens_of ps \<subseteq> toks"
    and "\<forall>t \<in> toks. token_ok t" and "prefix_free toks" and "\<not> sublist marker (render f ps)"
  shows "\<exists>unresolved. restore_pseudonyms set_order (render (\<lambda>t. t) ps) mapping = (render f ps, card toks, unresolved)"
proof -
  let ?present = "set_order (remdups (tokens_in (render (\<lambda>t. t) ps)))"
  let ?toks = "filter (dict_has mapping) ?present"
  have present: "set ?present = set (tokens_in (render (\<lambda>t. t) ps))" "distinct ?present"
    using mset_eq_setD [OF assms(1)] mset_eq_imp_distinct_iff [OF assms(1)] by auto
  have toks: "set ?toks = toks" "distinct ?toks" using present assms(2,3) by (auto simp: dict_has_get)
  have get: "map (\<lambda>t. (t, the (dict_get mapping t))) (longest_first ?toks) = map (\<lambda>t. (t, f t)) (longest_first ?toks)"
    using toks(1) assms(2) by (intro map_cong) auto
  have "replace_ordered (render (\<lambda>t. t) ps) (map (\<lambda>t. (t, f t)) (longest_first ?toks)) = render f ps"
    by (rule replace_ordered_restores) (use assms(4-7) toks(1) in \<open>auto simp: image_image\<close>)
  moreover have "length (longest_first ?toks) = card toks"
    using distinct_card [OF toks(2)] toks(1) by (simp add: longest_first_def)
  ultimately show ?thesis by (simp only: restore_pseudonyms_def Let_def get) simp
qed

subsection \<open>Export and restore\<close>

lemma export_sealed:
  assumes "export env svc mo v request = (Inr dx, v')"
  obtains decision issued where "svc_decide svc v request = Inr (decision, v')" and "rs_status (dd_result decision) = Allowed"
    and "issue_handle (en_aead env) (svc_sealer svc) (mo_now mo) (mo_nonce mo) (restorable_entries (dd_result decision)) = Inr issued"
    and "dx_external_payload dx = rs_external_payload (dd_result decision)" and "dx_restore_handle dx = ih_handle issued"
    and "dx_expires_at dx = ih_expires_at issued" and "dx_restorable_count dx = length (restorable_entries (dd_result decision))"
proof -
  obtain decision pv issued where d: "svc_decide svc v request = Inr (decision, v')" "rs_status (dd_result decision) = Allowed"
    "preview_of env svc mo v' request decision False False = Inr pv"
    "issue_handle (en_aead env) (svc_sealer svc) (mo_now mo) (mo_nonce mo) (restorable_entries (dd_result decision)) = Inr issued"
    "dx_external_payload dx = dp_external_payload pv" "dx_restore_handle dx = ih_handle issued"
    "dx_expires_at dx = ih_expires_at issued" "dx_restorable_count dx = length (restorable_entries (dd_result decision))"
    using assms by (auto simp: export_def Let_def split: sum.splits prod.splits if_splits)
  have "dp_external_payload pv = rs_external_payload (dd_result decision)"
    using d(3) by (auto simp: preview_of_def Let_def split: sum.splits)
  with d that show thesis by simp
qed

lemma dict_get_keys: "set (map fst d) = {p. dict_get d p \<noteq> None}"
  by (simp add: dict_get_def dom_map_of_conv_image_fst [symmetric] dom_def)

lemma service_payload_pieces:
  assumes "runs_in_memory svc" and "vault_inv v" and "svc_decide svc v request = Inr (decision, v')"
    and "rs_status (dd_result decision) = Allowed"
    and "\<forall>t \<in> set (rs_transformations (dd_result decision)). tr_action t = PRESERVE \<or> tr_action t = PSEUDONYMIZE"
  obtains f ps where "render f ps = nc_text (ap_content request)"
    and "render (\<lambda>t. t) ps = rs_external_payload (dd_result decision)"
    and "tokens_of ps \<subseteq> set (pseudonymized_tokens (dd_result decision))"
    and "\<And>p. dict_get (restorable_entries (dd_result decision)) p =
      (if p \<in> set (pseudonymized_tokens (dd_result decision)) then Some (f p) else None)"
proof -
  let ?ts = "rs_transformations (dd_result decision)"
  have ops: "svc_vault_ops svc = in_memory_ops" using assms(1) by (simp add: runs_in_memory_def)
  obtain spans where s: "dt_sanitize (build_treatment in_memory_ops (svc_policy_repository svc) (svc_task_analyzer svc)
      (resolve_treatment (ap_strategy request))) v (build_disclosure_request svc request) spans = Inr (dd_result decision, v')"
    using assms(3,4)
    by (auto simp: svc_decide_def svc_build_treatment_def ops decide_disclosure_def blocked_for_sensitive_task_def
        split: sum.splits prod.splits if_splits)
  show thesis
  proof (cases "resolve_treatment (ap_strategy request) = DIRECT")
    case True
    then have "dd_result decision = direct_sanitize (build_disclosure_request svc request) spans" using s by simp
    then show thesis
      using that [of "\<lambda>p. p" "[Lit (nc_text (ap_content request))]"]
      by (simp add: direct_sanitize_def build_disclosure_request_def pseudonymized_tokens_def restorable_entries_def List.map_filter_simps)
  next
    case framed: False
    obtain ordered where o: "spans_are_valid spans (nc_text (ap_content request))" "resolve_overlaps spans = Inr ordered"
      "rs_external_payload (dd_result decision) = weave (gaps (nc_text (ap_content request)) 0 ordered)
         (map (\<lambda>t. the_default '''' (tr_transformed t)) ?ts)" "list_all2 shown_as ordered ?ts"
      using built_layout [OF framed s assms(4)] by (auto simp: build_disclosure_request_def)
    define f where "f p = tr_original (SOME t. t \<in> set ?ts \<and> tr_action t = PSEUDONYMIZE \<and> tr_transformed t = Some p)" for p
    have f: "tr_original t = f p" if t: "t \<in> set ?ts" "tr_action t = PSEUDONYMIZE" "tr_transformed t = Some p" for t p
    proof -
      let ?u = "SOME t. t \<in> set ?ts \<and> tr_action t = PSEUDONYMIZE \<and> tr_transformed t = Some p"
      have u: "?u \<in> set ?ts \<and> tr_action ?u = PSEUDONYMIZE \<and> tr_transformed ?u = Some p" by (rule someI [of _ t]) (use t in simp)
      have "vault_inv v'" "\<exists>scope key. in_memory.tokens_issued v' scope key ?ts"
        using in_memory.built_issues [OF assms(2) s] t(1,2) by blast+
      then show ?thesis using in_memory.tokens_injective [of v' _ _ ?ts t ?u] t u unfolding f_def by metis
    qed
    obtain ps where ps: "render f ps = nc_text (ap_content request)" "render (\<lambda>t. t) ps = rs_external_payload (dd_result decision)"
      "tokens_of ps \<subseteq> {p. \<exists>t \<in> set ?ts. tr_action t = PSEUDONYMIZE \<and> tr_transformed t = Some p}"
      by (rule weave_restores [OF o(4) spans_are_valid_subset [OF o(1) resolve_overlaps_subset [OF o(2)]]
            resolve_overlaps_chain [OF o(2)] assms(5) f]) (use o(3) in simp_all)
    show thesis
      by (rule that [OF ps(1,2) _ restorable_entries_get [of "dd_result decision" f, OF f]])
        (use ps(3) in \<open>auto simp: pseudonymized_tokens_iff\<close>)
  qed
qed

subsection \<open>Property\<close>

text \<open>
  C12: An exported document can be restored. For an export that succeeded, if every detected value was preserved or
  pseudonymized, the pseudonyms are well formed, none is a prefix of another, the document does not contain their marker and
  the scanner finds each of them in the payload, then restoring the payload with the handle until it expires gives back the
  document, with as many restored pseudonyms as the export announced.
\<close>

theorem exported_payload_restores:
  assumes "runs_in_memory svc" and "vault_inv v" and "export env svc mo v request = (Inr dx, v')"
    and "svc_decide svc v request = Inr (decision, v')" and "rs_key (svc_sealer svc) = Some key"
    and "length (mo_nonce mo) = NONCE_BYTES" and "2 \<le> en_depth env" and "expiry_fits (svc_sealer svc) (mo_now mo)"
    and "\<And>plaintext. opens_what_it_sealed (en_aead env) AAD key (mo_nonce mo) plaintext"
    and "\<And>xs. mset (en_set_order env xs) = mset xs"
    and "\<forall>t \<in> set (rs_transformations (dd_result decision)). tr_action t = PRESERVE \<or> tr_action t = PSEUDONYMIZE"
    and "\<forall>t \<in> set (pseudonymized_tokens (dd_result decision)). token_ok t"
    and "prefix_free (set (pseudonymized_tokens (dd_result decision)))"
    and "\<not> sublist marker (nc_text (ap_content request))"
    and "set (pseudonymized_tokens (dd_result decision)) \<subseteq> set (tokens_in (dx_external_payload dx))"
    and "later \<le> of_int (dx_expires_at dx)"
  shows "\<exists>rt. restore env svc later (dx_external_payload dx) (dx_restore_handle dx) = Inr rt \<and>
    dt_restored_text rt = nc_text (ap_content request) \<and> dt_restored_count rt = dx_restorable_count dx"
proof (rule export_sealed [OF assms(3)])
  fix decision' issued
  assume "svc_decide svc v request = Inr (decision', v')"
  then have same: "decision' = decision" using assms(4) by simp
  let ?toks = "set (pseudonymized_tokens (dd_result decision))" and ?es = "restorable_entries (dd_result decision)"
  assume "rs_status (dd_result decision') = Allowed"
    "issue_handle (en_aead env) (svc_sealer svc) (mo_now mo) (mo_nonce mo) (restorable_entries (dd_result decision')) = Inr issued"
    "dx_external_payload dx = rs_external_payload (dd_result decision')" "dx_restore_handle dx = ih_handle issued"
    "dx_expires_at dx = ih_expires_at issued" "dx_restorable_count dx = length (restorable_entries (dd_result decision'))"
  note x = this [unfolded same]
  obtain f ps where ps: "render f ps = nc_text (ap_content request)" "render (\<lambda>t. t) ps = rs_external_payload (dd_result decision)"
    "tokens_of ps \<subseteq> ?toks" "\<And>p. dict_get ?es p = (if p \<in> ?toks then Some (f p) else None)"
    by (rule service_payload_pieces [OF assms(1,2,4) x(1) assms(11)]) blast
  have opened: "open_handle (en_aead env) (svc_sealer svc) (en_depth env) later (ih_handle issued) = Inr (sort_key fst ?es)"
    using open_issued [OF assms(5-7) restorable_entries_distinct assms(8) assms(9) x(2)] assms(16) x(5) by simp
  have get: "dict_get (sort_key fst ?es) p = (if p \<in> ?toks then Some (f p) else None)" for p
    using ps(4) by (simp add: dict_get_sorted [OF restorable_entries_distinct])
  have found: "?toks \<subseteq> set (tokens_in (render (\<lambda>t. t) ps))" and clean: "\<not> sublist marker (render f ps)"
    using assms(14,15) x(3) by (simp_all add: ps(1,2))
  obtain unresolved where r: "restore_pseudonyms (en_set_order env) (rs_external_payload (dd_result decision)) (sort_key fst ?es) =
      (nc_text (ap_content request), card ?toks, unresolved)"
    using restore_pieces [OF assms(10) get found ps(3) assms(12,13) clean] unfolding ps(1,2) by blast
  have "set (map fst ?es) = ?toks" unfolding dict_get_keys ps(4) by simp
  then have "length ?es = card ?toks" using distinct_card [OF restorable_entries_distinct, of "dd_result decision"] by simp
  then show ?thesis using x(3-6) opened r by (simp add: restore_def)
qed

definition hex_vault :: in_memory_vault where
  "hex_vault = new_vault (\<lambda>n. replicate 31 (CHR ''a'') @ str_nat n)"

lemma sample_export_facts:
  "case svc_decide sample_service hex_vault (sample_document ''id 7.'') of
     Inl _ \<Rightarrow> False
   | Inr (decision, v') \<Rightarrow> rs_status (dd_result decision) = Allowed \<and>
       map tr_action (rs_transformations (dd_result decision)) = [PSEUDONYMIZE] \<and>
       pseudonymized_tokens (dd_result decision) = [''PSEUDO-cpf-'' @ replicate 31 (CHR ''a'') @ ''0''] \<and>
       ''PSEUDO-cpf-'' @ replicate 31 (CHR ''a'') @ ''0'' \<in> set (tokens_in (rs_external_payload (dd_result decision)))"
  by code_simp

theorem exported_payload_restores_witness:
  "\<exists>dx v' rt. export sample_env sample_service sample_moment hex_vault (sample_document ''id 7.'') = (Inr dx, v') \<and>
     restore sample_env sample_service 2000 (dx_external_payload dx) (dx_restore_handle dx) = Inr rt \<and>
     dt_restored_text rt = ''id 7.''"
proof -
  let ?r = "sample_document ''id 7.''"
  have inv: "vault_inv hex_vault" by (simp add: hex_vault_def vault_inv_new)
  obtain decision v' where d: "svc_decide sample_service hex_vault ?r = Inr (decision, v')" "resolved (dd_result decision)"
    by (rule decide_service [OF sample_service_runs inv, where request = ?r]) blast
  have x: "rs_status (dd_result decision) = Allowed"
    "map tr_action (rs_transformations (dd_result decision)) = [PSEUDONYMIZE]"
    "pseudonymized_tokens (dd_result decision) = [''PSEUDO-cpf-'' @ replicate 31 (CHR ''a'') @ ''0'']"
    "''PSEUDO-cpf-'' @ replicate 31 (CHR ''a'') @ ''0'' \<in> set (tokens_in (rs_external_payload (dd_result decision)))"
    using sample_export_facts by (simp_all only: d(1) sum.case prod.case)
  obtain pv where pv: "preview_of sample_env sample_service sample_moment v' ?r decision False False = Inr pv"
    "dp_external_payload pv = rs_external_payload (dd_result decision)"
    by (rule preview_of_returns [OF d(2)])
  obtain issued where issued: "issue_handle (en_aead sample_env) (svc_sealer sample_service) (mo_now sample_moment) (mo_nonce sample_moment)
      (restorable_entries (dd_result decision)) = Inr issued"
    by (auto simp: issue_handle_def require_configured_def sample_service_def sample_sealer_def Let_def)
  then have late: "ih_expires_at issued = 87400"
    by (auto simp: issue_handle_def require_configured_def sample_service_def sample_sealer_def sample_moment_def trunc_def
        DEFAULT_TTL_SECONDS_def Let_def)
  obtain dx where dx: "export sample_env sample_service sample_moment hex_vault ?r = (Inr dx, v')"
    "dx_external_payload dx = rs_external_payload (dd_result decision)" "dx_expires_at dx = ih_expires_at issued"
    using x(1) issued by (simp add: export_def d(1) pv Let_def)
  have key: "rs_key (svc_sealer sample_service) = Some (replicate 32 (CHR ''k''))" by (simp add: sample_service_def sample_sealer_def)
  have nonce: "length (mo_nonce sample_moment) = NONCE_BYTES" by (simp add: sample_moment_def NONCE_BYTES_def)
  have small: "expiry_fits (svc_sealer sample_service) (mo_now sample_moment)"
  proof -
    have "(10 :: int) ^ 10 \<le> 10 ^ MAX_INT_DIGITS" by (rule power_increasing) (simp_all add: MAX_INT_DIGITS_def)
    moreover have "\<bar>trunc (mo_now sample_moment)\<bar> < 10 ^ 10"
      "\<bar>trunc (mo_now sample_moment) + rs_ttl_seconds (svc_sealer sample_service)\<bar> < 10 ^ 10"
      by (simp_all add: sample_moment_def trunc_def sample_service_def sample_sealer_def DEFAULT_TTL_SECONDS_def)
    ultimately show ?thesis unfolding expiry_fits_def by linarith
  qed
  have acts: "\<forall>t \<in> set (rs_transformations (dd_result decision)). tr_action t = PRESERVE \<or> tr_action t = PSEUDONYMIZE"
    using x(2) by (metis (no_types, lifting) image_eqI list.set_map empty_iff list.set(1,2) insert_iff)
  have ok: "token_ok (''PSEUDO-cpf-'' @ replicate 31 (CHR ''a'') @ ''0'')" by (simp add: token_ok_def marker_def)
  have clean: "\<not> sublist marker (nc_text (ap_content ?r))" by code_simp
  have env: "2 \<le> en_depth sample_env" "opens_what_it_sealed (en_aead sample_env) AAD key' (mo_nonce sample_moment) p"
    "mset (en_set_order sample_env xs) = mset xs" for key' p xs
    using sample_cipher [OF nonce] by (simp_all add: sample_env_def)
  show ?thesis
    using exported_payload_restores [OF sample_service_runs inv dx(1) d(1) key nonce env(1) small env(2,3) acts _ _ clean, where later = 2000]
      ok x(3,4) dx late by (auto simp: prefix_free_def sample_document_def)
qed

end
