(* ===== verification/Deployment.thy ===== *)
theory Deployment
  imports Confirmed_Flow
begin

text \<open>
  How a deployment builds its service from the environment (\<open>application/settings.py\<close>) and the settings of the HTTP
  application (\<open>api/settings.py\<close>).

  The directory of the repository, the files of the policy directory and of the directory of examples, the readers of a YAML file,
  the client library, the digest and \<open>repr\<close> of a string, the cipher and the two random keys of a process are a parameter, the
  record \<open>installation\<close>. The policies are loaded once, when the service is built; the examples are loaded by each operation that
  needs them, so the service keeps what loading their directory yields.

  The lemmas show that the service of a deployment is consistent with its provider or does not start, and what its deadline
  does to a provider with a longer one.
\<close>

record ('c, 'y) installation =
  is_repo_root :: pystr
  is_policy_files :: "pystr \<Rightarrow> (pystr \<times> 'y) list"
  is_policy_reader :: "'y \<Rightarrow> policy_reading"
  is_example_files :: "pystr \<Rightarrow> 'y corpus_file list"
  is_example_readers :: "'y model_readers"
  is_sdk :: "'c sdk"
  is_sha256_hex :: "pystr \<Rightarrow> pystr"
  is_repr :: "pystr \<Rightarrow> pystr"
  is_aead :: aead
  is_ephemeral_secret :: pystr
  is_explorer_key :: pystr

datatype deployment_error =
    Provider_Configuration configuration_refusal
  | Policies_Unreadable reading_error
  | Signer_Configuration confirmation_error
  | Sealer_Configuration handle_error

subsection \<open>Settings of the service\<close>

definition policy_directory :: "host \<Rightarrow> ('c, 'y) installation \<Rightarrow> pystr" where
  "policy_directory h inst = getenv_or h ''ADG_POLICY_DIR'' (is_repo_root inst @ ''/configs/policies'')"

definition examples_directory :: "host \<Rightarrow> ('c, 'y) installation \<Rightarrow> pystr" where
  "examples_directory h inst = getenv_or h ''ADG_EXAMPLES_DIR'' (is_repo_root inst @ ''/corpus/hr/v1/cases'')"

definition PREVIEW_CONFIRMATION_SECRET_ENV_VAR :: pystr where
  "PREVIEW_CONFIRMATION_SECRET_ENV_VAR = ''ADG_PREVIEW_CONFIRMATION_SECRET''"

text \<open>\<open>raw.strip()\<close> of a variable that is set and not blank.\<close>

definition stripped_env :: "host \<Rightarrow> pystr \<Rightarrow> pystr option" where
  "stripped_env h name =
     (case getenv h name of None \<Rightarrow> None | Some raw \<Rightarrow> if is_blank raw then None else Some (str_strip raw))"

definition with_ephemeral_secret :: "('c, 'y) installation \<Rightarrow> confirmation_error + confirmation_signer" where
  "with_ephemeral_secret inst = mk_signer (Raw_Bytes (is_ephemeral_secret inst)) DEFAULT_CONFIRMATION_TTL_SECONDS False"

definition build_preview_confirmation_signer ::
  "host \<Rightarrow> ('c, 'y) installation \<Rightarrow> pystr \<Rightarrow> confirmation_error + confirmation_signer" where
  "build_preview_confirmation_signer h inst provider_class =
     (case stripped_env h PREVIEW_CONFIRMATION_SECRET_ENV_VAR of
        Some secret \<Rightarrow> mk_signer (Text secret) DEFAULT_CONFIRMATION_TTL_SECONDS True
      | None \<Rightarrow>
          if provider_class = DEFAULT_PROVIDER_NAME then with_ephemeral_secret inst
          else Inl PreviewConfirmationConfigurationError)"

definition RESTORE_HANDLE_SECRET_ENV_VAR :: pystr where
  "RESTORE_HANDLE_SECRET_ENV_VAR = ''ADG_RESTORE_HANDLE_SECRET''"

definition RESTORE_HANDLE_TTL_ENV_VAR :: pystr where
  "RESTORE_HANDLE_TTL_ENV_VAR = ''ADG_RESTORE_HANDLE_TTL_SECONDS''"

definition restore_handle_ttl_seconds :: "host \<Rightarrow> handle_error + int" where
  "restore_handle_ttl_seconds h =
     (case stripped_env h RESTORE_HANDLE_TTL_ENV_VAR of
        None \<Rightarrow> Inr DEFAULT_TTL_SECONDS
      | Some raw \<Rightarrow> (case py_int raw of None \<Rightarrow> Inl RestoreHandleConfigurationError | Some n \<Rightarrow> Inr n))"

definition build_restore_handle_sealer :: "host \<Rightarrow> ('c, 'y) installation \<Rightarrow> handle_error + restore_sealer" where
  "build_restore_handle_sealer h inst =
     (case restore_handle_ttl_seconds h of
        Inl e \<Rightarrow> Inl e
      | Inr ttl \<Rightarrow>
          mk_sealer (is_aead inst) (map_option Text (stripped_env h RESTORE_HANDLE_SECRET_ENV_VAR)) ttl)"

definition DEMO_INSPECTION_ENV_VAR :: pystr where
  "DEMO_INSPECTION_ENV_VAR = ''ADG_ENABLE_DEMO_INSPECTION''"

definition demo_inspection_enabled :: "host \<Rightarrow> bool" where
  "demo_inspection_enabled h \<longleftrightarrow> map_option str_strip (getenv h DEMO_INSPECTION_ENV_VAR) = Some ''1''"

definition DEMO_VAULT_EXPLORER_ENV_VAR :: pystr where
  "DEMO_VAULT_EXPLORER_ENV_VAR = ''ADG_ENABLE_DEMO_VAULT_EXPLORER''"

definition demo_vault_explorer_enabled :: "host \<Rightarrow> bool" where
  "demo_vault_explorer_enabled h \<longleftrightarrow> map_option str_strip (getenv h DEMO_VAULT_EXPLORER_ENV_VAR) = Some ''1''"

text \<open>\<open>os.getenv(name, default)\<close>: an empty value is kept.\<close>

definition getenv_default :: "host \<Rightarrow> pystr \<Rightarrow> pystr \<Rightarrow> pystr" where
  "getenv_default h name dflt = the_default dflt (getenv h name)"

definition default_governance_context :: "host \<Rightarrow> pystr \<Rightarrow> governance_context" where
  "default_governance_context h provider_class =
     \<lparr>ctx_domain = getenv_default h ''ADG_DEFAULT_DOMAIN'' ''hr'',
      ctx_purpose = getenv_default h ''ADG_DEFAULT_PURPOSE'' ''team_summary'',
      ctx_requester_role = Some (getenv_default h ''ADG_DEFAULT_REQUESTER_ROLE'' ''hr_analyst''),
      ctx_requester_id = None, ctx_provider_class = provider_class,
      ctx_policy_version = getenv_default h ''ADG_DEFAULT_POLICY_VERSION'' ''hr-v1'',
      ctx_requested_scope = SESSION, ctx_request_id = None, ctx_document_id = None,
      ctx_session_id = Some (getenv_default h ''ADG_DEFAULT_SESSION_ID'' ''demo-session'')\<rparr>"

text \<open>The object that \<open>build_provider_from_env\<close> returns; it never is one of another class.\<close>

definition provider_object :: "host \<Rightarrow> ('c, 'y) installation \<Rightarrow> provider_type \<Rightarrow> provider option" where
  "provider_object h inst t =
     (case t of
        Fake_Provider \<Rightarrow> Some (fake_provider (is_sha256_hex inst) (is_repr inst))
      | Anthropic_Provider cfg \<Rightarrow> Some (as_provider h (is_sdk inst) \<lparr>ap_config = cfg, ap_client = None\<rparr>)
      | Other_Provider _ _ \<Rightarrow> None)"

definition build_default_service ::
  "host \<Rightarrow> ('c, 'y) installation \<Rightarrow> deployment_error + in_memory_vault service" where
  "build_default_service h inst =
     (case build_provider_from_env h of
        Inl e \<Rightarrow> Inl (Provider_Configuration e)
      | Inr t \<Rightarrow>
          (case provider_object h inst t of
             None \<Rightarrow> Inl (Provider_Configuration Provider_Not_Recognized)
           | Some p \<Rightarrow>
               (case from_directory (is_policy_reader inst) (is_policy_files inst (policy_directory h inst)) of
                  Inl e \<Rightarrow> Inl (Policies_Unreadable e)
                | Inr repo \<Rightarrow>
                    (case build_preview_confirmation_signer h inst (pv_class p) of
                       Inl e \<Rightarrow> Inl (Signer_Configuration e)
                     | Inr signer \<Rightarrow>
                         (case build_restore_handle_sealer h inst of
                            Inl e \<Rightarrow> Inl (Sealer_Configuration e)
                          | Inr sealer \<Rightarrow>
                              Inr \<lparr>svc_vault_ops = in_memory_ops, svc_policy_repository = repo,
                                   svc_provider = p, svc_provider_type = t,
                                   svc_task_analyzer = None, svc_detector = None,
                                   svc_default_context = default_governance_context h (pv_class p),
                                   svc_examples =
                                     Some (load_corpus (is_example_readers inst)
                                       (is_example_files inst (examples_directory h inst))),
                                   svc_document_parser = None, svc_signer = signer, svc_sealer = sealer,
                                   svc_demo_inspection_enabled = demo_inspection_enabled h,
                                   svc_demo_vault_explorer_enabled = demo_vault_explorer_enabled h,
                                   svc_explorer_key = is_explorer_key inst\<rparr>)))))"

subsection \<open>Settings of the HTTP application\<close>

definition DEFAULT_MAX_UPLOAD_BYTES :: int where
  "DEFAULT_MAX_UPLOAD_BYTES = 8 * 1024 * 1024"

definition allowed_origins :: "host \<Rightarrow> pystr list" where
  "allowed_origins h =
     map str_strip (filter (\<lambda>origin. \<not> is_blank origin) (split_on (CHR '','') (getenv_default h ''ADG_ALLOWED_ORIGINS'' [])))"

definition max_upload_bytes :: "host \<Rightarrow> int" where
  "max_upload_bytes h =
     (case getenv h ''ADG_MAX_UPLOAD_BYTES'' of
        None \<Rightarrow> DEFAULT_MAX_UPLOAD_BYTES
      | Some raw \<Rightarrow>
          if is_blank raw then DEFAULT_MAX_UPLOAD_BYTES
          else (case py_int raw of
                  None \<Rightarrow> DEFAULT_MAX_UPLOAD_BYTES
                | Some parsed \<Rightarrow> if 0 < parsed then parsed else DEFAULT_MAX_UPLOAD_BYTES))"

lemma max_upload_bytes_positive: "0 < max_upload_bytes h"
  by (simp add: max_upload_bytes_def DEFAULT_MAX_UPLOAD_BYTES_def split: option.splits)

lemma no_origin_by_default: "getenv h ''ADG_ALLOWED_ORIGINS'' = None \<Longrightarrow> allowed_origins h = []"
  by (simp add: allowed_origins_def getenv_default_def is_blank_def)

lemma allowed_origins_stripped:
  assumes "origin \<in> set (allowed_origins h)"
  shows "origin \<noteq> [] \<and> str_strip origin = origin"
  using assms by (auto simp: allowed_origins_def str_strip_blank)


subsection \<open>The service of a deployment\<close>

lemma signer_of_deployment:
  assumes "build_preview_confirmation_signer h inst cls = Inr signer"
  shows "sg_ttl_seconds signer = DEFAULT_CONFIRMATION_TTL_SECONDS \<and> MIN_SECRET_BYTES \<le> length (sg_secret signer) \<and>
    (sg_durable signer \<longleftrightarrow> stripped_env h PREVIEW_CONFIRMATION_SECRET_ENV_VAR \<noteq> None) \<and>
    (sg_durable signer \<or> cls = DEFAULT_PROVIDER_NAME)"
  using assms
  by (auto simp: build_preview_confirmation_signer_def with_ephemeral_secret_def mk_signer_def Let_def
      split: option.splits if_splits)

lemma sealer_of_deployment:
  assumes "build_restore_handle_sealer h inst = Inr sealer"
  shows "0 < rs_ttl_seconds sealer \<and> rs_ttl_seconds sealer \<le> MAX_TTL_SECONDS \<and>
    (configured sealer \<longleftrightarrow> stripped_env h RESTORE_HANDLE_SECRET_ENV_VAR \<noteq> None)"
  using assms
  by (auto simp: build_restore_handle_sealer_def mk_sealer_def Let_def configured_def split: option.splits if_splits sum.splits)

lemma default_serviceE:
  assumes "build_default_service h inst = Inr svc"
  obtains t p signer sealer where "build_provider_from_env h = Inr t" "provider_object h inst t = Some p"
    "build_preview_confirmation_signer h inst (pv_class p) = Inr signer" "build_restore_handle_sealer h inst = Inr sealer"
    "svc_provider_type svc = t" "svc_provider svc = p" "svc_signer svc = signer" "svc_sealer svc = sealer"
    "svc_default_context svc = default_governance_context h (pv_class p)" "svc_vault_ops svc = in_memory_ops"
    "svc_detector svc = None" "svc_demo_inspection_enabled svc = demo_inspection_enabled h"
    "svc_demo_vault_explorer_enabled svc = demo_vault_explorer_enabled h"
  using assms by (auto simp: build_default_service_def split: sum.splits option.splits)

lemma provider_object_class:
  assumes "build_provider_from_env h = Inr t" and "provider_object h inst t = Some p"
  shows "(pv_class p = DEFAULT_PROVIDER_NAME \<longleftrightarrow> t = Fake_Provider) \<and> pv_class p = (if t = Fake_Provider then ''fake'' else ''external_llm'')"
  using assms
  by (cases t) (auto simp: provider_object_def as_provider_def fake_provider_def DEFAULT_PROVIDER_NAME_def PROVIDER_CLASS_def)

lemma default_service_runs: "build_default_service h inst = Inr svc \<Longrightarrow> runs_in_memory svc"
  by (erule default_serviceE) (simp add: runs_in_memory_def built_in_rules_ok)

text \<open>
  C7: a deployment is consistent or does not start. If its service is built, then the class that policy evaluates by default
  is the class of the provider that is called; it is the in-process one exactly when the offline provider is wired; every
  token is signed with a long enough key, a configured one whenever data can leave the process; readiness depends on
  nothing but the provider; the restore facility works exactly when its secret is configured, with a lifetime in range;
  and each demonstration surface is on only by its own variable.
\<close>

theorem deployments_are_consistent:
  assumes "build_default_service h inst = Inr svc"
  shows "ctx_provider_class (svc_default_context svc) = pv_class (svc_provider svc) \<and>
    (pv_class (svc_provider svc) = ''fake'' \<longleftrightarrow> svc_provider_type svc = Fake_Provider) \<and>
    MIN_SECRET_BYTES \<le> length (sg_secret (svc_signer svc)) \<and>
    (pv_class (svc_provider svc) = ''fake'' \<or>
     (\<exists>raw. getenv h ''ADG_PREVIEW_CONFIRMATION_SECRET'' = Some raw \<and> sg_secret (svc_signer svc) = utf8 (str_strip raw) \<and>
        sg_durable (svc_signer svc))) \<and>
    describe_readiness h svc = provider_readiness h (svc_provider_type svc) \<and>
    (configured (svc_sealer svc) \<longleftrightarrow> (\<exists>raw. getenv h ''ADG_RESTORE_HANDLE_SECRET'' = Some raw \<and> \<not> is_blank raw)) \<and>
    0 < rs_ttl_seconds (svc_sealer svc) \<and> rs_ttl_seconds (svc_sealer svc) \<le> MAX_TTL_SECONDS \<and>
    (svc_demo_inspection_enabled svc \<longleftrightarrow> (\<exists>raw. getenv h ''ADG_ENABLE_DEMO_INSPECTION'' = Some raw \<and> str_strip raw = ''1'')) \<and>
    (svc_demo_vault_explorer_enabled svc \<longleftrightarrow>
       (\<exists>raw. getenv h ''ADG_ENABLE_DEMO_VAULT_EXPLORER'' = Some raw \<and> str_strip raw = ''1''))"
proof (rule default_serviceE [OF assms])
  fix t p signer sealer
  assume t: "build_provider_from_env h = Inr t" "provider_object h inst t = Some p"
    and s: "build_preview_confirmation_signer h inst (pv_class p) = Inr signer"
    and r: "build_restore_handle_sealer h inst = Inr sealer"
    and svc: "svc_provider_type svc = t" "svc_provider svc = p" "svc_signer svc = signer" "svc_sealer svc = sealer"
      "svc_default_context svc = default_governance_context h (pv_class p)"
      "svc_demo_inspection_enabled svc = demo_inspection_enabled h"
      "svc_demo_vault_explorer_enabled svc = demo_vault_explorer_enabled h"
  note kind = provider_object_class [OF t]
  have ready: "describe_readiness h svc = provider_readiness h (svc_provider_type svc)"
    using kind signer_of_deployment [OF s]
    by (cases "provider_readiness h t" rule: prod.exhaust)
      (auto simp: describe_readiness_def svc provider_readiness_def anthropic_provider_readiness_def DEFAULT_PROVIDER_NAME_def
        split: bool.splits provider_type.splits option.splits if_splits)
  have durable: "pv_class p = ''fake'' \<or> (\<exists>raw. getenv h ''ADG_PREVIEW_CONFIRMATION_SECRET'' = Some raw \<and>
      sg_secret signer = utf8 (str_strip raw) \<and> sg_durable signer)"
    using s by (auto simp: build_preview_confirmation_signer_def stripped_env_def PREVIEW_CONFIRMATION_SECRET_ENV_VAR_def
        DEFAULT_PROVIDER_NAME_def mk_signer_def Let_def key_bytes_def split: option.splits if_splits)
  from kind svc ready durable signer_of_deployment [OF s] sealer_of_deployment [OF r] show ?thesis
    by (auto simp: default_governance_context_def stripped_env_def RESTORE_HANDLE_SECRET_ENV_VAR_def demo_inspection_enabled_def
        demo_vault_explorer_enabled_def DEMO_INSPECTION_ENV_VAR_def DEMO_VAULT_EXPLORER_ENV_VAR_def DEFAULT_PROVIDER_NAME_def
        split: option.splits if_splits)
qed


subsection \<open>Properties of a deployment\<close>

definition deployed_host :: host where
  "deployed_host =
     \<lparr>getenv = (\<lambda>name.
        if name = DEFAULT_API_KEY_ENV_VAR then Some ''key'' else if name = ''ADG_PROVIDER'' then Some ''anthropic''
        else if name = PREVIEW_CONFIRMATION_SECRET_ENV_VAR then Some (replicate 32 (CHR ''s'') @ '' '') else None),
      sdk_found = True, sdk_installed_version = None\<rparr>"

definition sample_installation :: "(pystr, nat) installation" where
  "sample_installation =
     \<lparr>is_repo_root = ''/repo'', is_policy_files = (\<lambda>d. [(''v1.yaml'', 0)]), is_policy_reader = (\<lambda>y. Policy_Read sample_policy),
      is_example_files = (\<lambda>d. [sample_file]), is_example_readers = sample_readers, is_sdk = sample_sdk, is_sha256_hex = id, is_repr = id, is_aead = sample_aead, is_ephemeral_secret = replicate 32 (CHR ''e''),
      is_explorer_key = replicate 32 (CHR ''x'')\<rparr>"

lemma deployed_service:
  obtains svc where "build_default_service deployed_host sample_installation = Inr svc"
    and "svc_provider_type svc = Anthropic_Provider default_config" and "sg_secret (svc_signer svc) = replicate 32 (CHR ''s'')"
proof -
  have "case build_default_service deployed_host sample_installation of
      Inl _ \<Rightarrow> False
    | Inr svc \<Rightarrow> svc_provider_type svc = Anthropic_Provider default_config \<and>
        sg_secret (svc_signer svc) = replicate 32 (CHR ''s'')"
    by code_simp
  then show thesis using that by (auto split: sum.splits)
qed

theorem deployments_are_consistent_witness:
  "\<exists>svc. build_default_service deployed_host sample_installation = Inr svc \<and>
     pv_class (svc_provider svc) \<noteq> ''fake'' \<and> sg_durable (svc_signer svc)"
proof -
  obtain svc where svc: "build_default_service deployed_host sample_installation = Inr svc"
    "svc_provider_type svc = Anthropic_Provider default_config"
    by (rule deployed_service)
  with deployments_are_consistent [OF svc(1)] show ?thesis by auto
qed

text \<open>The calls that the client library gets for the requests a use case submits.\<close>

definition calls_of :: "host \<Rightarrow> ('c, 'y) installation \<Rightarrow> anthropic_config \<Rightarrow> provider_request list \<Rightarrow> message_request list" where
  "calls_of h inst cfg sent =
     concat (map (\<lambda>rq. fst (snd (generate h (is_sdk inst) \<lparr>ap_config = cfg, ap_client = None\<rparr> rq))) sent)"

lemma default_provider:
  assumes "build_default_service h inst = Inr svc" and "svc_provider_type svc = Anthropic_Provider cfg"
  shows "svc_provider svc = as_provider h (is_sdk inst) \<lparr>ap_config = cfg, ap_client = None\<rparr>"
  using assms by (elim default_serviceE) (auto simp: provider_object_def)

lemma ready_call:
  assumes "provider_readiness h (Anthropic_Provider cfg) = (True, None)" and "\<And>kwargs. sdk_client (is_sdk inst) kwargs \<noteq> None"
  shows "calls_of h inst cfg [rq] = [request_kwargs cfg rq]"
proof -
  obtain ap calls d out where g: "generate h (is_sdk inst) \<lparr>ap_config = cfg, ap_client = None\<rparr> rq = (ap, calls, d, out)"
    by (cases "generate h (is_sdk inst) \<lparr>ap_config = cfg, ap_client = None\<rparr> rq") auto
  from ready_calls [of h _ "is_sdk inst", OF _ assms(2) g] assms(1) show ?thesis by (simp add: calls_of_def g)
qed

text \<open>
  C6: what a reviewer confirmed is what the external service is asked. Take a deployment whose service is built with the external
  provider, which is ready and whose client can be built, and a document previewed over a vault that satisfies its invariant, for a
  request that names no provider class other than the provider's (another one makes policy refuse the call) and a strategy other than
  the unsafe control B0 (which is never executed outside the process). If the preview shows an allowed decision and its token is
  presented with the same request, in time, after whatever other steps of the vault, then the client library gets exactly
  one call: its one user message is the previewed task, a blank line and the previewed payload, for the validated model. Of the
  JSON parser it is assumed that it can nest once, and of the clock that its seconds have no more digits than Python reads back.
\<close>

theorem the_confirmed_text_is_asked:
  assumes "build_default_service h inst = Inr svc" and "svc_provider_type svc = Anthropic_Provider cfg"
    and "provider_readiness h (Anthropic_Provider cfg) = (True, None)"
    and "\<And>kwargs. sdk_client (is_sdk inst) kwargs \<noteq> None"
    and "vault_inv v" and "preview_document env svc mo v request = (Inr pd, v1)" and "vault_step\<^sup>*\<^sup>* v1 v2"
    and "1 \<le> en_depth env" and "timestamps_fit (svc_signer svc) (mo_now mo)"
    and "mo_now mo' \<le> of_int (trunc (mo_now mo) + sg_ttl_seconds (svc_signer svc))"
    and "ds_status (dp_summary (do_preview pd)) = Allowed"
    and "go_provider_class (ap_governance request) = None \<or>
      go_provider_class (ap_governance request) = Some (pv_class (svc_provider svc))"
    and "resolve_treatment (ap_strategy request) \<noteq> DIRECT"
  shows "\<exists>out sent v3 kwargs. execute_document env svc mo' v2 request (do_confirmation_token pd) = (Inr out, sent, v3) \<and>
    calls_of h inst cfg sent = [kwargs] \<and> rk_model kwargs = ''claude-opus-5'' \<and>
    rk_messages kwargs =
      [(''user'', ap_task request @ [CHR 0x0A, CHR 0x0A] @ dp_external_payload (do_preview pd))]"
proof -
  note p = default_provider [OF assms(1,2)]
  have "svc_default_context svc = default_governance_context h (pv_class (svc_provider svc))"
    using assms(1) by (elim default_serviceE) auto
  then have "pv_class (svc_provider svc) = ctx_provider_class (svc_context svc request)"
    using assms(12) by (auto simp: svc_context_def merge_overrides_def default_governance_context_def)
  from confirmed_executes [OF default_service_runs [OF assms(1)] assms(5-11) this] assms(13)
  obtain out v3 where e: "execute_document env svc mo' v2 request (do_confirmation_token pd) =
      (Inr out, [\<lparr>pq_payload = dp_external_payload (do_preview pd), pq_task = ap_task request\<rparr>], v3)" by auto
  have "accepted_config cfg"
    using assms(1,2) by (elim default_serviceE) (auto simp: build_provider_from_env_def Let_def config_from_env_accepted
        split: if_splits sum.splits)
  with e ready_call [OF assms(3,4)] show ?thesis
    by (intro exI [of _ out]) (auto simp: request_kwargs_def accepted_config_def DEFAULT_ANTHROPIC_MODEL_ID_def)
qed



definition small_document :: application_request where
  "small_document = sample_document ''hi''\<lparr>ap_strategy := S_B1\<rparr>"

lemma deployed_allows:
  assumes "build_default_service deployed_host sample_installation = Inr svc"
    and "preview_document sample_env svc sample_moment (new_vault str_nat) small_document = (Inr pd, v1)"
  shows "ds_status (dp_summary (do_preview pd)) = Allowed \<and> dp_external_payload (do_preview pd) = ''hi''"
proof -
  have "case build_default_service deployed_host sample_installation of
      Inl _ \<Rightarrow> False
    | Inr svc \<Rightarrow> (case svc_decide svc (new_vault str_nat) small_document of
        Inl _ \<Rightarrow> False
      | Inr (decision, v') \<Rightarrow> rs_status (dd_result decision) = Allowed \<and> rs_external_payload (dd_result decision) = ''hi'')"
    by code_simp
  then show ?thesis using assms(1) by (auto intro: preview_document_token [OF assms(2)])
qed

lemma deployed_ttl:
  assumes "build_default_service h inst = Inr svc"
  shows "sg_ttl_seconds (svc_signer svc) = DEFAULT_CONFIRMATION_TTL_SECONDS"
  using assms by (elim default_serviceE) (auto dest: signer_of_deployment)

theorem the_confirmed_text_is_asked_witness:
  "\<exists>svc pd v1 out sent v3 kwargs. build_default_service deployed_host sample_installation = Inr svc \<and>
     preview_document sample_env svc sample_moment (new_vault str_nat) small_document = (Inr pd, v1) \<and>
     execute_document sample_env svc sample_moment v1 small_document (do_confirmation_token pd) = (Inr out, sent, v3) \<and>
     calls_of deployed_host sample_installation default_config sent = [kwargs] \<and>
     rk_messages kwargs = [(''user'', ''sum up'' @ [CHR 0x0A, CHR 0x0A] @ ''hi'')]"
proof -
  obtain svc where svc: "build_default_service deployed_host sample_installation = Inr svc"
    "svc_provider_type svc = Anthropic_Provider default_config"
    by (rule deployed_service)
  obtain pd v1 where p: "preview_document sample_env svc sample_moment (new_vault str_nat) small_document = (Inr pd, v1)"
    by (rule preview_document_returns [OF default_service_runs [OF svc(1)] vault_inv_new, where request = small_document])
      (simp add: small_document_def sample_document_def)
  have fits: "timestamps_fit (svc_signer svc) (mo_now sample_moment)"
    by (rule timestamps_fit_small)
      (simp_all add: deployed_ttl [OF svc(1)] sample_moment_def trunc_def DEFAULT_CONFIRMATION_TTL_SECONDS_def)
  have ready: "provider_readiness deployed_host (Anthropic_Provider default_config) = (True, None)" by code_simp
  have in_time: "mo_now sample_moment \<le> of_int (trunc (mo_now sample_moment) + sg_ttl_seconds (svc_signer svc))"
    by (simp add: deployed_ttl [OF svc(1)] sample_moment_def trunc_def DEFAULT_CONFIRMATION_TTL_SECONDS_def)
  have client: "sdk_client (is_sdk sample_installation) kwargs \<noteq> None" for kwargs
    by (simp add: sample_installation_def sample_sdk_def)
  have depth: "1 \<le> en_depth sample_env" by (simp add: sample_env_def)
  show ?thesis
    using the_confirmed_text_is_asked [OF svc ready client vault_inv_new p rtranclp.rtrancl_refl depth fits in_time] svc(1) p
      deployed_allows [OF svc(1) p]
    by (fastforce simp: small_document_def sample_document_def no_overrides_def)
qed

text \<open>
  C17: the deadline of the use cases ignores the provider's own. \<open>execute\<close> waits \<open>DEFAULT_TIMEOUT_SECONDS\<close>, whatever deadline
  the external provider is configured with: an answer that takes longer is dropped although it comes within the
  transport's deadline, while the deadline that \<open>caller_timeout_for_provider\<close> derives would have waited for it.
\<close>

theorem late_answers_are_dropped:
  assumes "build_default_service h inst = Inr svc" and "svc_provider_type svc = Anthropic_Provider cfg"
    and "\<And>client kwargs. fst (sdk_create (is_sdk inst) client kwargs) = Some t"
    and "30 < t" and "ac_timeout_seconds cfg = Finite native" and "t \<le> native"
    and "execute env svc v request = (Inr execution, sent, v')"
  shows "de_final_answer execution = None \<and> t < caller_timeout_for_provider (svc_provider svc) DEFAULT_TIMEOUT_SECONDS"
proof -
  note p = default_provider [OF assms(1,2)]
  obtain ex where run: "run_disclosure_case (en_audit_hmac env) (en_audit_key env) (svc_build_treatment svc request)
      (svc_detector svc) v (build_disclosure_request svc request) (svc_provider svc) DEFAULT_TIMEOUT_SECONDS False =
      Inr (ex, sent, v')" "execution_of svc request ex = Inr execution"
    using assms(7) by (auto simp: execute_def execute_unchecked_def split: if_splits sum.splits)
  have slow: "d = t" if "pv_generate (svc_provider svc) rq = (Some d, Responds r)" for rq d r
  proof (cases rule: generate_cases [of "\<lparr>ap_config = cfg, ap_client = None\<rparr>" h "is_sdk inst" rq])
    case (answered client message duration)
    have "duration = Some t" using answered(2) assms(3) by (metis fst_conv)
    moreover have "duration = Some d"
      using that answered(3) by (simp add: p as_provider_def split: sum.splits)
    ultimately show ?thesis by simp
  qed (use that in \<open>simp_all add: p as_provider_def raised_def split: adapter_failure.splits\<close>)
  obtain decision where "execute_disclosure_decision (en_audit_hmac env) (en_audit_key env) (svc_build_treatment svc request) v'
      (build_disclosure_request svc request) (svc_provider svc) decision DEFAULT_TIMEOUT_SECONDS False = (ex, sent)"
    by (rule run_caseE [OF run(1)])
  then have "ex_provider_response ex = None"
    using slow assms(4) by (cases rule: execute_cases) (auto simp: DEFAULT_TIMEOUT_SECONDS_def)
  moreover have "t < caller_timeout_for_provider (svc_provider svc) DEFAULT_TIMEOUT_SECONDS"
    using assms(4-6) by (simp add: p as_provider_def native_timeout_seconds_def caller_timeout_for_provider_def
        CALLER_TIMEOUT_GRACE_SECONDS_def)
  ultimately show ?thesis
    using run(2) by (auto simp: execution_of_def split: sum.splits)
qed

theorem late_answers_are_dropped_witness:
  "\<exists>svc execution sent v'. build_default_service deployed_host sample_installation = Inr svc \<and>
     execute sample_env svc (new_vault str_nat) (small_document\<lparr>ap_document := None\<rparr>) = (Inr execution, sent, v') \<and>
     de_final_answer execution = None \<and>
     calls_of deployed_host sample_installation default_config sent \<noteq> []"
proof -
  obtain svc where svc: "build_default_service deployed_host sample_installation = Inr svc"
    "svc_provider_type svc = Anthropic_Provider default_config"
    by (rule deployed_service)
  have "case build_default_service deployed_host sample_installation of
      Inl _ \<Rightarrow> False
    | Inr svc \<Rightarrow> (case execute sample_env svc (new_vault str_nat) (small_document\<lparr>ap_document := None\<rparr>) of
        (Inl _, sent, v') \<Rightarrow> False
      | (Inr execution, sent, v') \<Rightarrow> length (calls_of deployed_host sample_installation default_config sent) = 1)"
    by code_simp
  moreover obtain r sent v'
    where r: "execute sample_env svc (new_vault str_nat) (small_document\<lparr>ap_document := None\<rparr>) = (r, sent, v')"
    by (cases "execute sample_env svc (new_vault str_nat) (small_document\<lparr>ap_document := None\<rparr>)") auto
  ultimately obtain execution
    where e: "execute sample_env svc (new_vault str_nat) (small_document\<lparr>ap_document := None\<rparr>) = (Inr execution, sent, v')"
    "length (calls_of deployed_host sample_installation default_config sent) = 1"
    using svc(1) by (cases r) auto
  have slow: "fst (sdk_create (is_sdk sample_installation) client kwargs) = Some 45" for client kwargs
    by (simp add: sample_installation_def sample_sdk_def)
  have native: "ac_timeout_seconds default_config = Finite 60"
    by (simp add: default_config_def DEFAULT_ANTHROPIC_TIMEOUT_SECONDS_def)
  have "de_final_answer execution = None"
    using late_answers_are_dropped [OF svc slow _ native _ e(1)] by simp
  with svc(1) e show ?thesis by fastforce
qed

end
