(* ===== verification/Body_Limit.thy ===== *)
theory Body_Limit
  imports Json Python_Text
begin

text \<open>
  The middleware that bounds the size of a request body (\<open>api/limits.py\<close>).

  The application behind it and the server in front of it are parameters. An application is a tree of its next
  interaction: it receives a message and goes on with it (or with the exception that the counting \<open>receive\<close> raises), sends
  a message, returns or raises. The server hands out the messages of the connection one by one, \<open>server n\<close> the n-th. A
  run yields the trace of what the application was handed and what the server was told to send, and how it ended. The
  server's own \<open>receive\<close> and \<open>send\<close> do not raise.

  The lemmas show that the application never gets more than the limit, that a body within it passes as if there were no
  middleware, and that a body beyond it is answered with 413 or not at all.
\<close>

definition TOO_LARGE_STATUS_CODE :: nat where
  "TOO_LARGE_STATUS_CODE = 413"

datatype incoming =
    Http_Request "pystr option"
  | Other_Incoming pystr

datatype outgoing =
    Response_Start nat "(pystr \<times> pystr) list"
  | Response_Body pystr
  | Other_Outgoing pystr

datatype receive_result = Received incoming | Request_Body_Too_Large

datatype asgi_app =
    App_Returns
  | App_Raises pystr
  | App_Raises_Too_Large
  | App_Receives "receive_result \<Rightarrow> asgi_app"
  | App_Sends outgoing asgi_app

datatype outcome = Returned | Raised pystr | Raised_Too_Large

text \<open>What happens on the connection: a message handed to the application, a message cut off, a message sent.\<close>

datatype event = Delivered incoming | Cut | Sent outgoing

subsection \<open>The declared length\<close>

definition ascii_lower :: "pystr \<Rightarrow> pystr" where
  "ascii_lower s = map (\<lambda>c. if is_upper c then char_of ((of_char c :: nat) + 32) else c) s"

text \<open>\<open>int(value)\<close> of bytes: as of a text, but only the ASCII spaces around the number are skipped.\<close>

definition is_ascii_space :: "char \<Rightarrow> bool" where
  "is_ascii_space c \<longleftrightarrow> (let n = (of_char c :: nat) in 9 \<le> n \<and> n \<le> 13 \<or> n = 32)"

definition py_int_of_bytes :: "pystr \<Rightarrow> int option" where
  "py_int_of_bytes b =
     int_of_text (rev (dropWhile is_ascii_space (rev (dropWhile is_ascii_space b))))"

fun declared_content_length :: "(pystr \<times> pystr) list \<Rightarrow> int option" where
  "declared_content_length [] = None"
| "declared_content_length ((name, val) # headers) =
     (if ascii_lower name \<noteq> ''content-length'' then declared_content_length headers else py_int_of_bytes val)"

definition too_large_body :: "nat \<Rightarrow> pystr" where
  "too_large_body max_bytes =
     ''{\"detail\": \"request body exceeds the configured limit of '' @ str_nat max_bytes @
     '' bytes\", \"kind\": \"RequestBodyTooLarge\"}''"

text \<open>\<open>_send_too_large\<close>: the two messages it sends.\<close>

definition too_large_response :: "nat \<Rightarrow> outgoing list" where
  "too_large_response max_bytes =
     [Response_Start TOO_LARGE_STATUS_CODE
        [(''content-type'', ''application/json''), (''content-length'', str_nat (length (too_large_body max_bytes)))],
      Response_Body (too_large_body max_bytes)]"

subsection \<open>Counting and guarding\<close>

record limit_state =
  ls_received :: nat
  ls_exceeded :: bool
  ls_forwarded_start :: bool
  ls_answered :: bool
  ls_next :: nat

definition initial_limit_state :: limit_state where
  "initial_limit_state =
     \<lparr>ls_received = 0, ls_exceeded = False, ls_forwarded_start = False, ls_answered = False, ls_next = 0\<rparr>"

definition body_size :: "incoming \<Rightarrow> nat" where
  "body_size m = (case m of Http_Request body \<Rightarrow> length (the_default [] body) | Other_Incoming _ \<Rightarrow> 0)"

definition counting_receive ::
  "nat \<Rightarrow> (nat \<Rightarrow> incoming) \<Rightarrow> limit_state \<Rightarrow> limit_state \<times> event list \<times> receive_result" where
  "counting_receive max_bytes server st =
     (let message = server (ls_next st); st' = st\<lparr>ls_next := Suc (ls_next st)\<rparr>
      in case message of
           Http_Request body \<Rightarrow>
             (let received = ls_received st + length (the_default [] body);
                  st'' = st'\<lparr>ls_received := received\<rparr>
              in if max_bytes < received then (st''\<lparr>ls_exceeded := True\<rparr>, [Cut], Request_Body_Too_Large)
                 else (st'', [Delivered message], Received message))
         | Other_Incoming _ \<Rightarrow> (st', [Delivered message], Received message))"

definition is_start :: "outgoing \<Rightarrow> bool" where
  "is_start m = (case m of Response_Start _ _ \<Rightarrow> True | _ \<Rightarrow> False)"

definition guarded_send :: "nat \<Rightarrow> limit_state \<Rightarrow> outgoing \<Rightarrow> limit_state \<times> event list" where
  "guarded_send max_bytes st message =
     (if ls_exceeded st \<and> \<not> ls_forwarded_start st then
        (if \<not> ls_answered st then (st\<lparr>ls_answered := True\<rparr>, map Sent (too_large_response max_bytes)) else (st, []))
      else (if is_start message then st\<lparr>ls_forwarded_start := True\<rparr> else st, [Sent message]))"

text \<open>The application with the two wrappers, up to its end.\<close>

primrec run_guarded ::
  "nat \<Rightarrow> (nat \<Rightarrow> incoming) \<Rightarrow> asgi_app \<Rightarrow> limit_state \<Rightarrow> limit_state \<times> event list \<times> outcome" where
  "run_guarded max_bytes server App_Returns = (\<lambda>st. (st, [], Returned))"
| "run_guarded max_bytes server (App_Raises e) = (\<lambda>st. (st, [], Raised e))"
| "run_guarded max_bytes server App_Raises_Too_Large = (\<lambda>st. (st, [], Raised_Too_Large))"
| "run_guarded max_bytes server (App_Receives k) =
     (\<lambda>st. case counting_receive max_bytes server st of
        (st', events, result) \<Rightarrow>
          (case run_guarded max_bytes server (k result) st' of (st'', events', out) \<Rightarrow> (st'', events @ events', out)))"
| "run_guarded max_bytes server (App_Sends m a) =
     (\<lambda>st. case guarded_send max_bytes st m of
        (st', events) \<Rightarrow>
          (case run_guarded max_bytes server a st' of (st'', events', out) \<Rightarrow> (st'', events @ events', out)))"

text \<open>The \<open>except\<close> clause.\<close>

definition after_too_large :: "nat \<Rightarrow> limit_state \<times> event list \<times> outcome \<Rightarrow> event list \<times> outcome" where
  "after_too_large max_bytes result =
     (case result of
        (st, events, Raised_Too_Large) \<Rightarrow>
          if ls_forwarded_start st then (events, Raised_Too_Large)
          else if \<not> ls_answered st then (events @ map Sent (too_large_response max_bytes), Returned)
          else (events, Returned)
      | (st, events, out) \<Rightarrow> (events, out))"

text \<open>The application without the middleware.\<close>

primrec run_plain :: "(nat \<Rightarrow> incoming) \<Rightarrow> asgi_app \<Rightarrow> nat \<Rightarrow> event list \<times> outcome" where
  "run_plain server App_Returns = (\<lambda>n. ([], Returned))"
| "run_plain server (App_Raises e) = (\<lambda>n. ([], Raised e))"
| "run_plain server App_Raises_Too_Large = (\<lambda>n. ([], Raised_Too_Large))"
| "run_plain server (App_Receives k) =
     (\<lambda>n. case run_plain server (k (Received (server n))) (Suc n) of
        (events, out) \<Rightarrow> (Delivered (server n) # events, out))"
| "run_plain server (App_Sends m a) =
     (\<lambda>n. case run_plain server a n of (events, out) \<Rightarrow> (Sent m # events, out))"

record scope =
  sc_type :: pystr
  sc_path :: pystr
  sc_headers :: "(pystr \<times> pystr) list"

definition size_limited ::
  "nat \<Rightarrow> (scope \<Rightarrow> asgi_app) \<Rightarrow> scope \<Rightarrow> (nat \<Rightarrow> incoming) \<Rightarrow> event list \<times> outcome" where
  "size_limited max_bytes app scope server =
     (if sc_type scope \<noteq> ''http'' then run_plain server (app scope) 0
      else (case declared_content_length (sc_headers scope) of
              Some declared \<Rightarrow>
                if int max_bytes < declared then (map Sent (too_large_response max_bytes), Returned)
                else after_too_large max_bytes (run_guarded max_bytes server (app scope) initial_limit_state)
            | None \<Rightarrow> after_too_large max_bytes (run_guarded max_bytes server (app scope) initial_limit_state)))"


subsection \<open>Facts\<close>

definition sents :: "event list \<Rightarrow> outgoing list" where
  "sents events = concat (map (\<lambda>e. case e of Sent m \<Rightarrow> [m] | _ \<Rightarrow> []) events)"

definition delivered_size :: "event list \<Rightarrow> nat" where
  "delivered_size events = sum_list (map (\<lambda>e. case e of Delivered m \<Rightarrow> body_size m | _ \<Rightarrow> 0) events)"

lemma sents_simps [simp]:
  "sents [] = []" "sents (Sent m # es) = m # sents es" "sents (Cut # es) = sents es" "sents (Delivered i # es) = sents es"
  "sents (es @ fs) = sents es @ sents fs" "sents (map Sent ms) = ms"
  by (induction ms) (simp_all add: sents_def)

lemma delivered_size_simps [simp]:
  "delivered_size [] = 0" "delivered_size (Sent m # es) = delivered_size es" "delivered_size (Cut # es) = delivered_size es"
  "delivered_size (Delivered i # es) = body_size i + delivered_size es"
  "delivered_size (es @ fs) = delivered_size es + delivered_size fs" "delivered_size (map Sent ms) = 0"
  by (induction ms) (simp_all add: delivered_size_def)

lemma no_cut_in_sends [simp]: "Cut \<notin> set (map Sent ms)"
  by auto

text \<open>The cases of a \<open>receive\<close>, with what each leaves in the state.\<close>

lemma counting_receive_cases:
  obtains (cut) "counting_receive max_bytes server st =
      (st\<lparr>ls_next := Suc (ls_next st), ls_received := ls_received st + body_size (server (ls_next st)), ls_exceeded := True\<rparr>,
       [Cut], Request_Body_Too_Large)" "max_bytes < ls_received st + body_size (server (ls_next st))"
  | (delivered) "counting_receive max_bytes server st =
      (st\<lparr>ls_next := Suc (ls_next st), ls_received := ls_received st + body_size (server (ls_next st))\<rparr>,
       [Delivered (server (ls_next st))], Received (server (ls_next st)))"
      "ls_received st + body_size (server (ls_next st)) \<le> max_bytes \<or> body_size (server (ls_next st)) = 0"
proof (cases "server (ls_next st)")
  case (Http_Request body)
  with that show thesis
    by (cases "max_bytes < ls_received st + length (the_default [] body)")
      (simp_all add: counting_receive_def Let_def body_size_def)
next
  case (Other_Incoming kind)
  with delivered show thesis by (simp add: counting_receive_def Let_def body_size_def)
qed

lemma guarded_send_keeps:
  assumes "guarded_send max_bytes st m = (st', es)"
  shows "ls_received st' = ls_received st \<and> ls_next st' = ls_next st \<and> delivered_size es = 0 \<and> Cut \<notin> set es"
proof -
  have "delivered_size (map Sent (too_large_response max_bytes)) = 0" by (rule delivered_size_simps)
  with assms show ?thesis by (auto simp: guarded_send_def split: if_splits)
qed

text \<open>What the application is handed fits the rest of the limit.\<close>

lemma guarded_delivers: "delivered_size (fst (snd (run_guarded max_bytes server a st))) \<le> max_bytes - ls_received st"
proof (induction a arbitrary: st)
  case (App_Receives k)
  show ?case
  proof (cases rule: counting_receive_cases [of max_bytes server st])
    case cut
    then show ?thesis
      using App_Receives [OF rangeI [of k Request_Body_Too_Large], of
          "st\<lparr>ls_next := Suc (ls_next st), ls_received := ls_received st + body_size (server (ls_next st)), ls_exceeded := True\<rparr>"]
      by (auto split: prod.splits)
  next
    case delivered
    then show ?thesis
      using App_Receives [OF rangeI [of k "Received (server (ls_next st))"], of
          "st\<lparr>ls_next := Suc (ls_next st), ls_received := ls_received st + body_size (server (ls_next st))\<rparr>"]
      by (auto split: prod.splits)
  qed
next
  case (App_Sends m a)
  obtain st1 es where g: "guarded_send max_bytes st m = (st1, es)" by (cases "guarded_send max_bytes st m")
  from App_Sends [of st1] guarded_send_keeps [OF g] show ?case by (auto simp: g split: prod.splits)
qed simp_all

text \<open>Beyond the limit and before a status line, the server is told to send the 413 response once or nothing.\<close>

lemma guarded_exceeded:
  assumes "run_guarded max_bytes server a st = (st', events, out)" and "ls_exceeded st" and "\<not> ls_forwarded_start st"
  shows "sents events = (if ls_answered st' \<and> \<not> ls_answered st then too_large_response max_bytes else []) \<and>
    \<not> ls_forwarded_start st' \<and> (ls_answered st \<longrightarrow> ls_answered st')"
  using assms
proof (induction a arbitrary: st events)
  case (App_Receives k)
  obtain st1 events1 r where c: "counting_receive max_bytes server st = (st1, events1, r)"
    by (cases "counting_receive max_bytes server st")
  have "sents events1 = [] \<and> ls_exceeded st1 \<and> ls_forwarded_start st1 = ls_forwarded_start st \<and> ls_answered st1 = ls_answered st"
    using App_Receives.prems c by (cases rule: counting_receive_cases [of max_bytes server st]) auto
  with App_Receives.prems c App_Receives.IH [OF rangeI [of k r], of st1] show ?case
    by (auto split: prod.splits)
next
  case (App_Sends m a)
  then show ?case
    by (cases "ls_answered st") (fastforce simp: guarded_send_def split: prod.splits)+
qed auto

lemma guarded_cut:
  assumes "run_guarded max_bytes server a st = (st', pre @ Cut # post, out)" and "Cut \<notin> set pre"
    and "\<not> ls_exceeded st" and "\<not> ls_forwarded_start st" and "\<not> ls_answered st" and "\<forall>m \<in> set (sents pre). \<not> is_start m"
  shows "sents post = (if ls_answered st' then too_large_response max_bytes else []) \<and> \<not> ls_forwarded_start st'"
  using assms
proof (induction a arbitrary: st pre)
  case (App_Receives k)
  show ?case
  proof (cases rule: counting_receive_cases [of max_bytes server st])
    case cut
    let ?s = "st\<lparr>ls_next := Suc (ls_next st), ls_received := ls_received st + body_size (server (ls_next st)), ls_exceeded := True\<rparr>"
    from cut App_Receives.prems have "run_guarded max_bytes server (k Request_Body_Too_Large) ?s = (st', post, out)"
      by (cases pre) (auto split: prod.splits)
    from guarded_exceeded [OF this] App_Receives.prems show ?thesis by simp
  next
    case delivered
    let ?s = "st\<lparr>ls_next := Suc (ls_next st), ls_received := ls_received st + body_size (server (ls_next st))\<rparr>"
    from delivered App_Receives.prems obtain pre' where "pre = Delivered (server (ls_next st)) # pre'"
      "run_guarded max_bytes server (k (Received (server (ls_next st)))) ?s = (st', pre' @ Cut # post, out)"
      by (cases pre) (auto split: prod.splits)
    with App_Receives.prems App_Receives.IH [OF rangeI [of k "Received (server (ls_next st))"], of ?s pre'] show ?thesis by simp
  qed
next
  case (App_Sends m a)
  then obtain pre' where "pre = Sent m # pre'" by (cases pre) (auto simp: guarded_send_def split: prod.splits if_splits)
  with App_Sends.prems App_Sends.IH [of st pre'] show ?case by (auto simp: guarded_send_def split: prod.splits)
qed auto

text \<open>Without a cut the wrappers do nothing.\<close>

lemma guarded_uncut:
  assumes "run_guarded max_bytes server a st = (st', events, out)" and "Cut \<notin> set events" and "\<not> ls_exceeded st"
  shows "run_plain server a (ls_next st) = (events, out)"
  using assms
proof (induction a arbitrary: st events)
  case (App_Receives k)
  show ?case
  proof (cases rule: counting_receive_cases [of max_bytes server st])
    case cut
    with App_Receives.prems show ?thesis by (auto split: prod.splits)
  next
    case delivered
    with App_Receives.prems App_Receives.IH [OF rangeI [of k "Received (server (ls_next st))"], of
        "st\<lparr>ls_next := Suc (ls_next st), ls_received := ls_received st + body_size (server (ls_next st))\<rparr>"]
    show ?thesis by (auto split: prod.splits)
  qed
next
  case (App_Sends m a)
  then show ?case by (fastforce simp: guarded_send_def split: prod.splits if_splits dest: App_Sends.IH)
qed auto

lemma guarded_within:
  assumes "\<And>n. (\<Sum>i<n. body_size (server i)) \<le> max_bytes" and "ls_received st = (\<Sum>i<ls_next st. body_size (server i))"
  shows "Cut \<notin> set (fst (snd (run_guarded max_bytes server a st)))"
  using assms(2)
proof (induction a arbitrary: st)
  case (App_Receives k)
  have "ls_received st + body_size (server (ls_next st)) \<le> max_bytes"
    using assms(1) [of "Suc (ls_next st)"] App_Receives.prems by simp
  then show ?case
    using App_Receives.prems App_Receives.IH [OF rangeI [of k "Received (server (ls_next st))"], of
        "st\<lparr>ls_next := Suc (ls_next st), ls_received := ls_received st + body_size (server (ls_next st))\<rparr>"]
    by (cases rule: counting_receive_cases [of max_bytes server st]) (auto split: prod.splits)
next
  case (App_Sends m a)
  obtain st1 es where g: "guarded_send max_bytes st m = (st1, es)" by (cases "guarded_send max_bytes st m")
  from App_Sends.IH [of st1] App_Sends.prems guarded_send_keeps [OF g] show ?case by (auto simp: g split: prod.splits)
qed simp_all


lemma cut_before_sends:
  assumes "xs @ map Sent ms = pre @ Cut # post"
  obtains post' where "xs = pre @ Cut # post'" "post = post' @ map Sent ms"
proof -
  have no: "map Sent ms \<noteq> us @ Cut # vs" for us vs
    using no_cut_in_sends [of ms] by (metis in_set_conv_decomp)
  obtain us where "xs = pre @ us \<and> us @ map Sent ms = Cut # post"
    using assms no by (auto simp: append_eq_append_conv2)
  with no [of "[]" post] that show thesis by (cases us) auto
qed

lemma cut_at_head: "map Sent ms \<noteq> pre @ Cut # post" "pre @ Cut # post \<noteq> map Sent ms"
  using no_cut_in_sends [of ms] by (metis in_set_conv_decomp)+

lemma limited_http_cases:
  assumes "sc_type scope = ''http''"
  obtains (declared) d where "declared_content_length (sc_headers scope) = Some d" "int max_bytes < d"
      "size_limited max_bytes app scope server = (map Sent (too_large_response max_bytes), Returned)"
  | (run) st events out where "run_guarded max_bytes server (app scope) initial_limit_state = (st, events, out)"
      "size_limited max_bytes app scope server = after_too_large max_bytes (st, events, out)"
      "\<forall>d. declared_content_length (sc_headers scope) = Some d \<longrightarrow> d \<le> int max_bytes"
proof (cases "\<exists>d. declared_content_length (sc_headers scope) = Some d \<and> int max_bytes < d")
  case True
  with assms declared show thesis by (auto simp: size_limited_def)
next
  case False
  obtain st events out where "run_guarded max_bytes server (app scope) initial_limit_state = (st, events, out)"
    by (cases "run_guarded max_bytes server (app scope) initial_limit_state")
  with assms False show thesis
    by (intro run) (auto simp: size_limited_def not_less split: option.splits)
qed

subsection \<open>Properties\<close>

text \<open>
  C16: the limit is enforced, whatever the application and the client do. A declared length beyond it is answered with 413
  and nothing is received. In all other cases the chunks that reach the application never sum up to more than the limit; once a
  chunk has been cut off before a status line was sent, the server is told to send the 413 response once, or nothing, whatever
  the application tries to answer, and the internal signal does not escape.
\<close>

theorem body_limit_is_enforced:
  assumes "sc_type scope = ''http''" and "size_limited max_bytes app scope server = (events, out)"
  shows "delivered_size events \<le> max_bytes \<and>
    (\<forall>d. declared_content_length (sc_headers scope) = Some d \<and> int max_bytes < d \<longrightarrow>
       events = map Sent (too_large_response max_bytes) \<and> out = Returned) \<and>
    (\<forall>pre post. events = pre @ Cut # post \<and> Cut \<notin> set pre \<and> (\<forall>m \<in> set (sents pre). \<not> is_start m) \<longrightarrow>
       sents post \<in> {[], too_large_response max_bytes} \<and> out \<noteq> Raised_Too_Large)"
  using assms(1)
proof (cases rule: limited_http_cases [of scope max_bytes app server])
  case (declared d)
  with assms(2) no_cut_in_sends [of "too_large_response max_bytes"] show ?thesis
    by (auto simp: cut_at_head)
next
  case (run st es o')
  obtain ms where ms: "events = es @ map Sent ms" "ms = [] \<or> ms = too_large_response max_bytes \<and> \<not> ls_answered st"
    and o': "ls_forwarded_start st \<or> out \<noteq> Raised_Too_Large"
    using run(2) assms(2) by (cases o') (auto simp: after_too_large_def split: if_splits intro: that [of "[]"])
  have "delivered_size (es @ map Sent ms) = delivered_size es" by (simp only: delivered_size_simps add_0_right)
  then have size: "delivered_size events \<le> max_bytes"
    using guarded_delivers [of max_bytes server "app scope" initial_limit_state] run(1) ms(1)
    by (simp add: initial_limit_state_def)
  have cut: "sents post \<in> {[], too_large_response max_bytes} \<and> out \<noteq> Raised_Too_Large"
    if a: "events = pre @ Cut # post" "Cut \<notin> set pre" "\<forall>m \<in> set (sents pre). \<not> is_start m" for pre post
  proof -
    obtain post' where p: "es = pre @ Cut # post'" "post = post' @ map Sent ms"
      by (rule cut_before_sends [OF trans [OF ms(1) [symmetric] a(1)]])
    have "sents post' = (if ls_answered st then too_large_response max_bytes else []) \<and> \<not> ls_forwarded_start st"
      using guarded_cut [of max_bytes server "app scope" initial_limit_state st pre post' o'] run(1) p(1) a(2,3)
      by (simp add: initial_limit_state_def)
    with p(2) ms(2) o' show ?thesis by auto
  qed
  from size cut run(3) show ?thesis by (auto simp: not_less [symmetric])
qed

definition answering_app :: "scope \<Rightarrow> asgi_app" where
  "answering_app scope =
     App_Receives (\<lambda>result. App_Sends (Response_Start 400 []) (App_Sends (Response_Body ''bad request'') App_Returns))"

definition chunks :: "nat \<Rightarrow> nat \<Rightarrow> incoming" where
  "chunks k n = (if n = 0 then Http_Request (Some (replicate k (CHR ''x''))) else Other_Incoming ''http.disconnect'')"

theorem body_limit_is_enforced_witness:
  "fst (size_limited 3 answering_app \<lparr>sc_type = ''http'', sc_path = ''/ready'', sc_headers = []\<rparr> (chunks 4)) =
     Cut # map Sent (too_large_response 3) \<and>
   delivered_size (fst (size_limited 3 answering_app \<lparr>sc_type = ''http'', sc_path = ''/ready'', sc_headers = []\<rparr> (chunks 4))) \<le> 3"
proof -
  obtain events out where e: "size_limited 3 answering_app \<lparr>sc_type = ''http'', sc_path = ''/ready'', sc_headers = []\<rparr> (chunks 4) = (events, out)"
    by (cases "size_limited 3 answering_app \<lparr>sc_type = ''http'', sc_path = ''/ready'', sc_headers = []\<rparr> (chunks 4)")
  have "fst (size_limited 3 answering_app \<lparr>sc_type = ''http'', sc_path = ''/ready'', sc_headers = []\<rparr> (chunks 4)) =
     Cut # map Sent (too_large_response 3)"
    by (simp add: size_limited_def answering_app_def counting_receive_def chunks_def initial_limit_state_def Let_def
        guarded_send_def after_too_large_def is_start_def)
  with e body_limit_is_enforced [OF _ e] show ?thesis by simp
qed

text \<open>
  a body within the limit passes as if there were no middleware. If no length is declared or one within the limit, and
  however far one reads the chunks never sum up to more than it, then every message the application is handed, every message
  the server is told to send and the outcome are those of the application alone.
\<close>

theorem body_within_limit_passes:
  assumes "\<And>d. declared_content_length (sc_headers scope) = Some d \<Longrightarrow> d \<le> int max_bytes"
    and "\<And>n. (\<Sum>i<n. body_size (server i)) \<le> max_bytes"
    and "snd (run_plain server (app scope) 0) \<noteq> Raised_Too_Large"
  shows "size_limited max_bytes app scope server = run_plain server (app scope) 0"
proof (cases "sc_type scope = ''http''")
  case True
  then show ?thesis
  proof (cases rule: limited_http_cases [of scope max_bytes app server])
    case (declared d)
    with assms(1) show ?thesis by force
  next
    case (run st events out)
    have "Cut \<notin> set events"
      using guarded_within [OF assms(2), of initial_limit_state "app scope"] run(1) by (simp add: initial_limit_state_def)
    from guarded_uncut [OF run(1) this] have "run_plain server (app scope) 0 = (events, out)"
      by (simp add: initial_limit_state_def)
    with run(2) assms(3) show ?thesis by (cases out) (auto simp: after_too_large_def)
  qed
qed (simp add: size_limited_def)

theorem body_within_limit_passes_witness:
  "size_limited 4 answering_app \<lparr>sc_type = ''http'', sc_path = ''/ready'', sc_headers = [(''Content-Length'', ''4'')]\<rparr> (chunks 4) =
   run_plain (chunks 4) (answering_app \<lparr>sc_type = ''http'', sc_path = ''/ready'', sc_headers = [(''Content-Length'', ''4'')]\<rparr>) 0"
proof (rule body_within_limit_passes)
  show "(\<Sum>i<n. body_size (chunks 4 i)) \<le> 4" for n
    by (induction n) (auto simp: chunks_def body_size_def)
  show "d \<le> int 4"
    if "declared_content_length (sc_headers \<lparr>sc_type = ''http'', sc_path = ''/ready'', sc_headers = [(''Content-Length'', ''4'')]\<rparr>) = Some d" for d
  proof -
    have "declared_content_length [(''Content-Length'', ''4'')] = Some 4" by code_simp
    with that show ?thesis by simp
  qed
qed (simp add: answering_app_def)

end
