(* ===== verification/Scoring.thy ===== *)
theory Scoring
  imports Corpus
begin

text \<open>
  The scorers of one case but utility: which transformation belongs to which annotated span (\<open>scoring/span_matching.py\<close>),
  conformance, exposure, unnecessary disclosure, reconstruction (\<open>scoring/conformance.py\<close>, \<open>exposure.py\<close>,
  \<open>unnecessary_disclosure.py\<close>, \<open>reconstruction.py\<close>) and the detector (\<open>detector_capture.py\<close>, \<open>scoring/detector_scoring.py\<close>).

  Rates are exact rational numbers. The lemmas show that an annotated span is judged by its own transformation when detection
  agrees with the annotations, that the detector's counts are those of multisets, and how the scores relate.
\<close>

subsection \<open>Matching spans and transformations\<close>

record resolved_span_record =
  rr_action :: "disclosure_action option"
  rr_transmitted_byte_length :: nat

text \<open>The indices of the annotated spans in the order of their starts.\<close>

definition ordered_indices :: "expected_span list \<Rightarrow> nat list" where
  "ordered_indices spans = sort_key (\<lambda>i. xs_start (spans ! i)) [0..<length spans]"

definition transformation_pools :: "transformation list \<Rightarrow> (pystr, transformation list) dict" where
  "transformation_pools ts = foldl (\<lambda>d t. dict_set d (tr_category t) (dict_get_default d (tr_category t) [] @ [t])) [] ts"

fun match_loop ::
  "expected_span list \<Rightarrow> (pystr, transformation list) dict \<Rightarrow> (pystr, nat) dict \<Rightarrow> transformation option list \<Rightarrow>
   nat list \<Rightarrow> transformation option list" where
  "match_loop spans pools consumed matched [] = matched"
| "match_loop spans pools consumed matched (i # ixs) =
     (let category = xs_category (spans ! i);
          pool = dict_get_default pools category [];
          position = dict_get_default consumed category 0
      in if position < length pool
         then match_loop spans pools (dict_set consumed category (position + 1)) (matched[i := Some (pool ! position)]) ixs
         else match_loop spans pools consumed matched ixs)"

definition resolve_span_transformations ::
  "case_oracle \<Rightarrow> disclosure_result \<Rightarrow> treatment \<Rightarrow> transformation option list" where
  "resolve_span_transformations o' res trt =
     (if rs_status res = Blocked \<or> trt = DIRECT then map (\<lambda>_. None) (oc_expected_spans o')
      else match_loop (oc_expected_spans o') (transformation_pools (rs_transformations res)) []
             (replicate (length (oc_expected_spans o')) None) (ordered_indices (oc_expected_spans o')))"

definition resolve_span_records ::
  "case_oracle \<Rightarrow> disclosure_result \<Rightarrow> treatment \<Rightarrow> resolved_span_record list" where
  "resolve_span_records o' res trt =
     (if rs_status res = Blocked
      then map (\<lambda>_. \<lparr>rr_action = Some BLOCK_REQUEST, rr_transmitted_byte_length = 0\<rparr>) (oc_expected_spans o')
      else if trt = DIRECT
      then map (\<lambda>sp. \<lparr>rr_action = Some PRESERVE, rr_transmitted_byte_length = utf8_len (xs_value sp)\<rparr>) (oc_expected_spans o')
      else map (\<lambda>m. case m of
                      None \<Rightarrow> \<lparr>rr_action = None, rr_transmitted_byte_length = 0\<rparr>
                    | Some t \<Rightarrow>
                        \<lparr>rr_action = Some (tr_action t),
                         rr_transmitted_byte_length = (case tr_transformed t of None \<Rightarrow> 0 | Some s \<Rightarrow> utf8_len s)\<rparr>)
             (resolve_span_transformations o' res trt))"

subsection \<open>Conformance\<close>

datatype conformance_outcome = Conformant | Nonconformant | Conformance_Unscorable

record span_conformance =
  sc_index :: nat
  sc_category :: pystr
  sc_task_necessity :: task_necessity
  sc_resolved_action :: "disclosure_action option"
  sc_expected_actions :: "disclosure_action list"
  sc_outcome :: conformance_outcome

record conformance_score =
  cs_spans :: "span_conformance list"
  cs_conformant_count :: nat
  cs_nonconformant_count :: nat
  cs_unscorable_count :: nat
  cs_total :: nat

definition conformance_of :: "nat \<Rightarrow> expected_span \<Rightarrow> resolved_span_record \<Rightarrow> span_conformance" where
  "conformance_of i sp r =
     \<lparr>sc_index = i, sc_category = xs_category sp, sc_task_necessity = xs_task_necessity sp,
      sc_resolved_action = rr_action r, sc_expected_actions = xs_expected_actions sp,
      sc_outcome =
        (case rr_action r of
           None \<Rightarrow> Conformance_Unscorable
         | Some act \<Rightarrow> if act \<in> set (xs_expected_actions sp) then Conformant else Nonconformant)\<rparr>"

fun conformance_loop ::
  "nat \<Rightarrow> (expected_span \<times> resolved_span_record) list \<Rightarrow> conformance_score \<Rightarrow> conformance_score" where
  "conformance_loop i [] acc = acc"
| "conformance_loop i ((sp, r) # rest) acc =
     (let sc = conformance_of i sp r;
          acc' = (case sc_outcome sc of
                    Conformance_Unscorable \<Rightarrow> acc\<lparr>cs_unscorable_count := cs_unscorable_count acc + 1\<rparr>
                  | Conformant \<Rightarrow> acc\<lparr>cs_conformant_count := cs_conformant_count acc + 1\<rparr>
                  | Nonconformant \<Rightarrow> acc\<lparr>cs_nonconformant_count := cs_nonconformant_count acc + 1\<rparr>)
      in conformance_loop (Suc i) rest (acc'\<lparr>cs_spans := cs_spans acc' @ [sc]\<rparr>))"

definition score_conformance :: "case_oracle \<Rightarrow> disclosure_result \<Rightarrow> treatment \<Rightarrow> conformance_score" where
  "score_conformance o' res trt =
     conformance_loop 0 (zip (oc_expected_spans o') (resolve_span_records o' res trt))
       \<lparr>cs_spans = [], cs_conformant_count = 0, cs_nonconformant_count = 0, cs_unscorable_count = 0,
        cs_total = length (oc_expected_spans o')\<rparr>"

subsection \<open>Exposure\<close>

datatype exposure_outcome = Exposure_Level | Exposure_Block_Request | Exposure_Unscorable

record span_exposure =
  sx_index :: nat
  sx_category :: pystr
  sx_task_necessity :: task_necessity
  sx_outcome :: exposure_outcome
  sx_level :: "disclosure_action option"
  sx_level_rank :: "nat option"

record exposure_score =
  xp_spans :: "span_exposure list"
  xp_blocked :: bool

text \<open>\<open>list.index\<close>, which raises a \<open>ValueError\<close> for a value that is not there.\<close>

fun index_of :: "'a list \<Rightarrow> 'a \<Rightarrow> nat option" where
  "index_of [] x = None"
| "index_of (y # ys) x = (if y = x then Some 0 else map_option Suc (index_of ys x))"

definition exposure_of :: "nat \<Rightarrow> expected_span \<Rightarrow> resolved_span_record \<Rightarrow> span_exposure result" where
  "exposure_of i sp r =
     (let entry = (\<lambda>out level rank.
            \<lparr>sx_index = i, sx_category = xs_category sp, sx_task_necessity = xs_task_necessity sp, sx_outcome = out,
             sx_level = level, sx_level_rank = rank\<rparr>)
      in case rr_action r of
           None \<Rightarrow> Inr (entry Exposure_Unscorable None None)
         | Some act \<Rightarrow>
             if act = BLOCK_REQUEST then Inr (entry Exposure_Block_Request None None)
             else (case index_of CANONICAL_DISCLOSURE_ORDER act of
                     None \<Rightarrow> Inl ValueError
                   | Some rank \<Rightarrow> Inr (entry Exposure_Level (Some act) (Some rank))))"

fun exposure_loop :: "nat \<Rightarrow> (expected_span \<times> resolved_span_record) list \<Rightarrow> span_exposure list result" where
  "exposure_loop i [] = Inr []"
| "exposure_loop i ((sp, r) # rest) =
     (case exposure_of i sp r of
        Inl e \<Rightarrow> Inl e
      | Inr entry \<Rightarrow> (case exposure_loop (Suc i) rest of Inl e \<Rightarrow> Inl e | Inr entries \<Rightarrow> Inr (entry # entries)))"

definition score_exposure :: "case_oracle \<Rightarrow> disclosure_result \<Rightarrow> treatment \<Rightarrow> exposure_score result" where
  "score_exposure o' res trt =
     (case exposure_loop 0 (zip (oc_expected_spans o') (resolve_span_records o' res trt)) of
        Inl e \<Rightarrow> Inl e
      | Inr entries \<Rightarrow> Inr \<lparr>xp_spans = entries, xp_blocked = (rs_status res = Blocked)\<rparr>)"

subsection \<open>Unnecessary disclosure\<close>

record unnecessary_disclosure_score =
  ud_not_required_total :: nat
  ud_not_required_transmitted :: nat
  ud_rate :: "rat option"
  ud_transmitted_bytes :: nat

definition score_unnecessary_disclosure ::
  "case_oracle \<Rightarrow> disclosure_result \<Rightarrow> treatment \<Rightarrow> unnecessary_disclosure_score result" where
  "score_unnecessary_disclosure o' res trt =
     (case score_exposure o' res trt of
        Inl e \<Rightarrow> Inl e
      | Inr xp \<Rightarrow>
          (let records = resolve_span_records o' res trt;
               not_required = filter (\<lambda>i. xs_task_necessity (oc_expected_spans o' ! i) = NECESSITY_NOT_REQUIRED)
                 [0..<length (oc_expected_spans o')];
               transmitted_indices = filter (\<lambda>i. sx_outcome (xp_spans xp ! i) = Exposure_Level \<and>
                 sx_level (xp_spans xp ! i) \<noteq> Some REMOVE) not_required;
               total = length not_required; transmitted = length transmitted_indices
           in Inr \<lparr>ud_not_required_total = total, ud_not_required_transmitted = transmitted,
                   ud_rate = (if total = 0 then None else Some (of_nat transmitted / of_nat total)),
                   ud_transmitted_bytes = sum_list (map (\<lambda>i. rr_transmitted_byte_length (records ! i)) transmitted_indices)\<rparr>))"

subsection \<open>Reconstruction\<close>

datatype category_outcome = Reconstruction_Correct | Reconstruction_Incorrect | Reconstruction_Not_Applicable

record category_reconstruction =
  cr_category :: pystr
  cr_expected_reconstructable :: bool
  cr_outcome :: category_outcome

definition reconstruction_of ::
  "disclosure_result \<Rightarrow> pystr option \<Rightarrow> reconstruction_expectation \<Rightarrow> category_reconstruction" where
  "reconstruction_of res reconstructed_text e =
     (let entry = (\<lambda>out. \<lparr>cr_category = re_category e, cr_expected_reconstructable = re_expected_reconstructable e,
                          cr_outcome = out\<rparr>)
      in case reconstructed_text of
           None \<Rightarrow> entry Reconstruction_Not_Applicable
         | Some txt \<Rightarrow>
             (let pseudonymized_values = map tr_original
                    (filter (\<lambda>t. tr_category t = re_category e \<and> tr_action t = PSEUDONYMIZE) (rs_transformations res));
                  recovered = list_all (\<lambda>v. sublist v txt) pseudonymized_values
              in if pseudonymized_values = [] then entry Reconstruction_Not_Applicable
                 else if re_expected_reconstructable e
                   then entry (if recovered then Reconstruction_Correct else Reconstruction_Incorrect)
                 else entry (if recovered then Reconstruction_Incorrect else Reconstruction_Correct)))"

definition score_reconstruction ::
  "case_oracle \<Rightarrow> disclosure_result \<Rightarrow> pystr option \<Rightarrow> category_reconstruction list" where
  "score_reconstruction o' res reconstructed_text = map (reconstruction_of res reconstructed_text) (oc_reconstruction o')"

subsection \<open>The detector\<close>

record detected_span_ref =
  dr_category :: pystr
  dr_start :: int
  dr_end :: int

definition span_ref :: "expected_span \<Rightarrow> detected_span_ref" where
  "span_ref sp = \<lparr>dr_category = xs_category sp, dr_start = xs_start sp, dr_end = xs_end sp\<rparr>"

text \<open>\<open>_to_refs\<close> on the spans of the detector, whose offsets are always present.\<close>

definition to_refs :: "sensitive_span list \<Rightarrow> detected_span_ref list" where
  "to_refs spans =
     map (\<lambda>sp. \<lparr>dr_category = sp_category sp, dr_start = the_default 0 (sp_start sp), dr_end = the_default 0 (sp_end sp)\<rparr>) spans"

datatype detector_span_outcome = True_Positive | False_Positive | False_Negative

record detector_case_score =
  dc_spans :: "(detected_span_ref \<times> detector_span_outcome) list"
  dc_true_positive_count :: nat
  dc_false_positive_count :: nat
  dc_false_negative_count :: nat
  dc_precision :: "rat option"
  dc_recall :: "rat option"
  dc_f1 :: "rat option"

definition safe_divide :: "nat \<Rightarrow> nat \<Rightarrow> rat option" where
  "safe_divide numerator denominator = (if denominator = 0 then None else Some (of_nat numerator / of_nat denominator))"

definition f1_of :: "rat option \<Rightarrow> rat option \<Rightarrow> rat option" where
  "f1_of precision recall =
     (case (precision, recall) of
        (Some p, Some r) \<Rightarrow> if p + r = 0 then Some 0 else Some (2 * p * r / (p + r))
      | _ \<Rightarrow> None)"

text \<open>The inner loop: the first detected span that is not consumed and equals the annotated one.\<close>

definition match_index :: "detected_span_ref list \<Rightarrow> bool list \<Rightarrow> expected_span \<Rightarrow> nat option" where
  "match_index remaining consumed sp =
     find (\<lambda>i. \<not> consumed ! i \<and> remaining ! i = span_ref sp) [0..<length remaining]"

text \<open>The outer loop: what is consumed, the results, the true positives and the false negatives.\<close>

fun detector_loop ::
  "detected_span_ref list \<Rightarrow> bool list \<times> (detected_span_ref \<times> detector_span_outcome) list \<times> nat \<times> nat \<Rightarrow>
   expected_span list \<Rightarrow> bool list \<times> (detected_span_ref \<times> detector_span_outcome) list \<times> nat \<times> nat" where
  "detector_loop remaining acc [] = acc"
| "detector_loop remaining (consumed, results, tp, fn) (sp # sps) =
     (case match_index remaining consumed sp of
        Some i \<Rightarrow> detector_loop remaining (consumed[i := True], results @ [(span_ref sp, True_Positive)], tp + 1, fn) sps
      | None \<Rightarrow> detector_loop remaining (consumed, results @ [(span_ref sp, False_Negative)], tp, fn + 1) sps)"

definition score_detector_case :: "expected_span list \<Rightarrow> detected_span_ref list \<Rightarrow> detector_case_score" where
  "score_detector_case expected detected =
     (case detector_loop detected (replicate (length detected) False, [], 0, 0) expected of
        (consumed, results, tp, fn) \<Rightarrow>
          (let left = filter (\<lambda>i. \<not> consumed ! i) [0..<length detected];
               fp = length left;
               precision = safe_divide tp (tp + fp);
               recall = safe_divide tp (tp + fn)
           in \<lparr>dc_spans = results @ map (\<lambda>i. (detected ! i, False_Positive)) left,
               dc_true_positive_count = tp, dc_false_positive_count = fp, dc_false_negative_count = fn,
               dc_precision = precision, dc_recall = recall, dc_f1 = f1_of precision recall\<rparr>))"

record detector_aggregate_score =
  da_case_count :: nat
  da_true_positive_count :: nat
  da_false_positive_count :: nat
  da_false_negative_count :: nat
  da_micro_precision :: "rat option"
  da_micro_recall :: "rat option"
  da_micro_f1 :: "rat option"
  da_macro_precision :: "rat option"
  da_macro_recall :: "rat option"
  da_macro_f1 :: "rat option"

text \<open>\<open>mean(values) if values else None\<close>\<close>

definition safe_mean :: "rat list \<Rightarrow> rat option" where
  "safe_mean xs = (if xs = [] then None else Some (sum_list xs / of_nat (length xs)))"

definition somes :: "'a option list \<Rightarrow> 'a list" where
  "somes xs = concat (map (\<lambda>x. case x of None \<Rightarrow> [] | Some v \<Rightarrow> [v]) xs)"

definition aggregate_detector_scores :: "detector_case_score list \<Rightarrow> detector_aggregate_score" where
  "aggregate_detector_scores scores =
     (let tp = sum_list (map dc_true_positive_count scores);
          fp = sum_list (map dc_false_positive_count scores);
          fn = sum_list (map dc_false_negative_count scores);
          micro_precision = safe_divide tp (tp + fp);
          micro_recall = safe_divide tp (tp + fn)
      in \<lparr>da_case_count = length scores, da_true_positive_count = tp, da_false_positive_count = fp,
          da_false_negative_count = fn, da_micro_precision = micro_precision, da_micro_recall = micro_recall,
          da_micro_f1 = f1_of micro_precision micro_recall,
          da_macro_precision = safe_mean (somes (map dc_precision scores)),
          da_macro_recall = safe_mean (somes (map dc_recall scores)),
          da_macro_f1 = safe_mean (somes (map dc_f1 scores))\<rparr>)"

subsection \<open>Facts on matching\<close>

lemma pools_snoc: "transformation_pools (ts @ [t]) =
    dict_set (transformation_pools ts) (tr_category t) (dict_get_default (transformation_pools ts) (tr_category t) [] @ [t])"
  by (simp add: transformation_pools_def)

lemma dict_get_default_Nil [simp]: "dict_get_default [] k v = v"
  by (simp add: dict_get_default_def)

lemma dict_get_default_set [simp]:
  "dict_get_default (dict_set d k v) j w = (if j = k then v else dict_get_default d j w)"
  by (simp add: dict_get_default_def dict_set_def update_conv')

lemma pool_of: "dict_get_default (transformation_pools ts) c [] = filter (\<lambda>t. tr_category t = c) ts"
proof (induction ts arbitrary: c rule: rev_induct)
  case Nil
  show ?case by (simp add: transformation_pools_def dict_get_default_def)
next
  case (snoc t ts)
  then show ?case by (simp add: pools_snoc)
qed

lemma nth_filter_take:
  assumes "k < length xs" and "P (xs ! k)"
  shows "length (filter P (take k xs)) < length (filter P xs) \<and> filter P xs ! length (filter P (take k xs)) = xs ! k"
proof -
  have "xs = take k xs @ xs ! k # drop (Suc k) xs" using assms(1) by (rule id_take_nth_drop)
  then have "filter P xs = filter P (take k xs) @ xs ! k # filter P (drop (Suc k) xs)"
    using assms(2) by (metis filter.simps(2) filter_append)
  then show ?thesis by simp
qed

text \<open>
  The span at the k-th place of the order gets the transformation at its place among those of its category, if there is one.
\<close>

lemma match_loop_nth:
  assumes "distinct ixs" and "k < length ixs" and "\<forall>i \<in> set ixs. i < length matched"
    and "\<forall>c. dict_get_default consumed c 0 \<le> length (dict_get_default pools c [])"
  shows "match_loop spans pools consumed matched ixs ! (ixs ! k) =
    (let c = xs_category (spans ! (ixs ! k)); pool = dict_get_default pools c [];
         p = dict_get_default consumed c 0 + length (filter (\<lambda>j. xs_category (spans ! j) = c) (take k ixs))
     in if p < length pool then Some (pool ! p) else matched ! (ixs ! k))"
  using assms
proof (induction ixs arbitrary: k consumed matched)
  case (Cons i ixs)
  let ?c = "xs_category (spans ! i)"
  let ?pool = "dict_get_default pools ?c []"
  let ?pos = "dict_get_default consumed ?c 0"
  have keep: "match_loop spans pools consumed' matched' ixs' ! j = matched' ! j"
    if "j \<notin> set ixs'" for consumed' matched' ixs' j
    using that by (induction ixs' arbitrary: consumed' matched') (auto simp: Let_def)
  show ?case
  proof (cases k)
    case 0
    with Cons.prems keep [of i ixs] show ?thesis by (simp add: Let_def)
  next
    case (Suc k')
    with Cons.prems have k': "k' < length ixs" "ixs ! k' \<noteq> i" by (auto simp: in_set_conv_nth)
    show ?thesis
    proof (cases "?pos < length ?pool")
      case True
      have le: "\<forall>c. dict_get_default (dict_set consumed ?c (?pos + 1)) c 0 \<le> length (dict_get_default pools c [])"
        using True Cons.prems(4) by auto
      have "\<forall>j \<in> set ixs. j < length (matched[i := Some (?pool ! ?pos)])" using Cons.prems(3) by simp
      from Cons.IH [OF _ k'(1) this le] Cons.prems(1) True Suc k'(2) show ?thesis by (simp add: Let_def)
    next
      case False
      have full: "?pos = length ?pool" using False Cons.prems(4) by (meson le_antisym not_less)
      from Cons.IH [OF _ k'(1) _ Cons.prems(4)] Cons.prems(1,3) False full Suc show ?thesis by (auto simp: Let_def)
    qed
  qed
qed simp

lemma ordered_indices_perm: "distinct (ordered_indices spans) \<and> set (ordered_indices spans) = {..<length spans} \<and>
    length (ordered_indices spans) = length spans"
  by (simp add: ordered_indices_def atLeast0LessThan)


lemma resolve_nth:
  assumes "rs_status res = Allowed" and "trt \<noteq> DIRECT" and "k < length (oc_expected_spans o')"
  shows "resolve_span_transformations o' res trt ! (ordered_indices (oc_expected_spans o') ! k) =
    (let spans = oc_expected_spans o'; ixs = ordered_indices spans; c = xs_category (spans ! (ixs ! k));
         pool = filter (\<lambda>t. tr_category t = c) (rs_transformations res);
         p = length (filter (\<lambda>j. xs_category (spans ! j) = c) (take k ixs))
     in if p < length pool then Some (pool ! p) else None)"
proof -
  let ?spans = "oc_expected_spans o'"
  have "ordered_indices ?spans ! k < length ?spans"
    using ordered_indices_perm [of ?spans] assms(3) nth_mem [of k "ordered_indices ?spans"] by auto
  with match_loop_nth [of "ordered_indices ?spans" k "replicate (length ?spans) None" "[]"
      "transformation_pools (rs_transformations res)" ?spans] ordered_indices_perm [of ?spans] assms
  show ?thesis
    by (simp add: resolve_span_transformations_def pool_of Let_def)
qed

lemma resolve_length: "length (resolve_span_transformations o' res trt) = length (oc_expected_spans o')"
proof -
  have "length (match_loop spans pools consumed matched ixs) = length matched" for spans pools consumed matched ixs
    by (induction spans pools consumed matched ixs rule: match_loop.induct) (auto simp: Let_def)
  then show ?thesis by (simp add: resolve_span_transformations_def)
qed

text \<open>Whatever is matched is of the span's category.\<close>

lemma resolved_category:
  assumes "resolve_span_transformations o' res trt ! i = Some t" and "i < length (oc_expected_spans o')"
  shows "t \<in> set (rs_transformations res) \<and> tr_category t = xs_category (oc_expected_spans o' ! i)"
proof -
  have allowed: "rs_status res = Allowed" "trt \<noteq> DIRECT"
    using assms by (auto simp: resolve_span_transformations_def intro: result_status.exhaust split: if_splits)
  have "i \<in> set (ordered_indices (oc_expected_spans o'))"
    using ordered_indices_perm [of "oc_expected_spans o'"] assms(2) by simp
  then obtain k where k: "k < length (oc_expected_spans o')" "ordered_indices (oc_expected_spans o') ! k = i"
    using ordered_indices_perm [of "oc_expected_spans o'"] by (metis in_set_conv_nth)
  let ?c = "xs_category (oc_expected_spans o' ! i)"
  let ?pool = "filter (\<lambda>t. tr_category t = ?c) (rs_transformations res)"
  obtain p where "p < length ?pool" "t = ?pool ! p"
    using resolve_nth [OF allowed k(1)] assms(1) k(2) by (auto simp: Let_def split: if_splits)
  then have "t \<in> set ?pool" using nth_mem by blast
  then show ?thesis by simp
qed

lemma same_counts:
  assumes "map f xs = map g ys"
  shows "length (filter (\<lambda>x. f x = c) xs) = length (filter (\<lambda>y. g y = c) ys)"
proof -
  have "length (filter (\<lambda>x. h x = c) zs) = length (filter (\<lambda>d. d = c) (map h zs))" for h and zs :: "'z list"
    by (induction zs) auto
  with assms show ?thesis by metis
qed

lemma submultiset_same_size:
  fixes A B :: "'a multiset"
  assumes "A \<subseteq># B" and "size A = size B"
  shows "A = B"
  using assms by (metis mset_subset_size nless_le subset_mset.le_neq_trans)

subsection \<open>Facts on counting\<close>

text \<open>The detected spans that are not consumed, as a multiset.\<close>

definition unconsumed :: "detected_span_ref list \<Rightarrow> bool list \<Rightarrow> detected_span_ref multiset" where
  "unconsumed remaining consumed = image_mset (nth remaining) (mset (filter (\<lambda>i. \<not> consumed ! i) [0..<length remaining]))"

lemma match_index_Some:
  assumes "match_index remaining consumed sp = Some i"
  shows "i < length remaining \<and> \<not> consumed ! i \<and> remaining ! i = span_ref sp"
  using assms by (auto simp: match_index_def find_Some_iff)

lemma match_index_None: "match_index remaining consumed sp = None \<longleftrightarrow> span_ref sp \<notin># unconsumed remaining consumed"
  by (auto simp: match_index_def find_None_iff unconsumed_def image_iff)

lemma unconsumed_update:
  assumes "i < length remaining" and "\<not> consumed ! i" and "length consumed = length remaining"
  shows "unconsumed remaining (consumed[i := True]) = unconsumed remaining consumed - {#remaining ! i#}"
proof -
  let ?free = "filter (\<lambda>j. \<not> consumed ! j) [0..<length remaining]"
  have "filter (\<lambda>j. \<not> consumed[i := True] ! j) [0..<length remaining] = filter (\<lambda>j. i \<noteq> j) ?free"
    using assms(1,3) by (auto simp: nth_list_update intro!: filter_cong split: if_splits)
  also have "\<dots> = remove1 i ?free"
    by (simp add: distinct_remove1_removeAll removeAll_filter_not_eq [of i])
  finally have "mset (filter (\<lambda>j. \<not> consumed[i := True] ! j) [0..<length remaining]) = mset ?free - {#i#}"
    by simp
  moreover have "i \<in># mset (filter (\<lambda>j. \<not> consumed ! j) [0..<length remaining])" using assms by simp
  ultimately show ?thesis by (simp add: unconsumed_def image_mset_Diff)
qed

lemma detector_loop_counts:
  assumes "detector_loop remaining (consumed, results, tp, fn) sps = (consumed', results', tp', fn')"
    and "length consumed = length remaining"
  shows "tp' = tp + size (mset (map span_ref sps) \<inter># unconsumed remaining consumed) \<and>
    tp' + fn' = tp + fn + length sps \<and> length consumed' = length remaining \<and>
    unconsumed remaining consumed' = unconsumed remaining consumed - mset (map span_ref sps)"
  using assms
proof (induction sps arbitrary: consumed results tp fn)
  case (Cons sp sps)
  show ?case
  proof (cases "match_index remaining consumed sp")
    case None
    then have "span_ref sp \<notin># unconsumed remaining consumed" by (simp add: match_index_None)
    with None Cons.prems Cons.IH [of consumed "results @ [(span_ref sp, False_Negative)]" tp "fn + 1"] show ?thesis by (auto simp: inter_add_left1)
  next
    case (Some i)
    note m = match_index_Some [OF Some]
    then have "span_ref sp \<in># unconsumed remaining consumed" using Some match_index_None [of remaining consumed sp] by auto
    moreover have "unconsumed remaining (consumed[i := True]) = unconsumed remaining consumed - {#span_ref sp#}"
      using m Cons.prems(2) by (simp add: unconsumed_update)
    ultimately show ?thesis
      using Some Cons.prems Cons.IH [of "consumed[i := True]" "results @ [(span_ref sp, True_Positive)]" "tp + 1" fn] by (auto simp: inter_add_left2)
  qed
qed simp

text \<open>The spans of a result list that carry an outcome.\<close>

definition labelled ::
  "detector_span_outcome \<Rightarrow> (detected_span_ref \<times> detector_span_outcome) list \<Rightarrow> detected_span_ref multiset" where
  "labelled outcome results = mset (map fst (filter (\<lambda>e. snd e = outcome) results))"

lemma labelled_append [simp]: "labelled outcome (rs @ rs') = labelled outcome rs + labelled outcome rs'"
  and labelled_Nil [simp]: "labelled outcome [] = {#}"
  and labelled_single [simp]: "labelled outcome [(x, outcome')] = (if outcome' = outcome then {#x#} else {#})"
  and labelled_map [simp]: "labelled outcome (map (\<lambda>i. (g i, outcome')) is) = (if outcome' = outcome then mset (map g is) else {#})"
  by (simp_all add: labelled_def filter_map comp_def)

lemma add_mset_minus: "x \<in># B \<Longrightarrow> add_mset x A - B = A - (B - {#x#})"
  by (metis add_mset_diff_bothsides insert_DiffM)

lemma detector_loop_labels:
  assumes "detector_loop remaining (consumed, results, tp, fn) sps = (consumed', results', tp', fn')"
    and "length consumed = length remaining"
  shows "labelled True_Positive results' =
      labelled True_Positive results + (mset (map span_ref sps) \<inter># unconsumed remaining consumed) \<and>
    labelled False_Negative results' =
      labelled False_Negative results + (mset (map span_ref sps) - unconsumed remaining consumed) \<and>
    labelled False_Positive results' = labelled False_Positive results"
  using assms
proof (induction sps arbitrary: consumed results tp fn)
  case (Cons sp sps)
  show ?case
  proof (cases "match_index remaining consumed sp")
    case None
    then have "span_ref sp \<notin># unconsumed remaining consumed" by (simp add: match_index_None)
    with None Cons.prems Cons.IH [of consumed "results @ [(span_ref sp, False_Negative)]" tp "fn + 1"] show ?thesis
      by (simp add: inter_add_left1 add_mset_diff_bothsides diff_single_trivial add_mset_remove_trivial_If)
  next
    case (Some i)
    note m = match_index_Some [OF Some]
    then have "span_ref sp \<in># unconsumed remaining consumed" using Some match_index_None [of remaining consumed sp] by auto
    moreover have "unconsumed remaining (consumed[i := True]) = unconsumed remaining consumed - {#span_ref sp#}"
      using m Cons.prems(2) by (simp add: unconsumed_update)
    ultimately show ?thesis
      using Some Cons.prems Cons.IH [of "consumed[i := True]" "results @ [(span_ref sp, True_Positive)]" "tp + 1" fn]
      by (simp add: inter_add_left2 add_mset_minus)
  qed
qed simp

lemma unconsumed_all: "unconsumed remaining (replicate (length remaining) False) = mset remaining"
proof -
  have "filter (\<lambda>i. \<not> replicate (length remaining) False ! i) [0..<length remaining] = [0..<length remaining]"
    by (simp add: filter_id_conv)
  then have "unconsumed remaining (replicate (length remaining) False) = mset (map (nth remaining) [0..<length remaining])"
    by (simp only: unconsumed_def mset_map)
  then show ?thesis by (simp only: map_nth)
qed


lemma size_diff_inter: "size (B - A) + size (A \<inter># B) = size B" for A B :: "'a multiset"
proof -
  have "(B - A) + (A \<inter># B) = B" by (rule multiset_eqI) (simp add: min_def)
  then show ?thesis by (metis size_union)
qed

lemma detector_case_counts:
  "dc_true_positive_count (score_detector_case expected detected) = size (mset (map span_ref expected) \<inter># mset detected) \<and>
   dc_true_positive_count (score_detector_case expected detected) + dc_false_negative_count (score_detector_case expected detected) =
     length expected \<and>
   dc_true_positive_count (score_detector_case expected detected) + dc_false_positive_count (score_detector_case expected detected) =
     length detected"
proof -
  obtain consumed results tp fn
    where l: "detector_loop detected (replicate (length detected) False, [], 0, 0) expected = (consumed, results, tp, fn)"
    by (cases "detector_loop detected (replicate (length detected) False, [], 0, 0) expected") auto
  let ?E = "mset (map span_ref expected)"
  note c = detector_loop_counts [OF l] unconsumed_all
  have "length (filter (\<lambda>i. \<not> consumed ! i) [0..<length detected]) = size (unconsumed detected consumed)"
    by (simp only: unconsumed_def size_image_mset size_mset)
  also have "\<dots> = size (mset detected - ?E)" using c by simp
  also have "\<dots> + size (?E \<inter># mset detected) = length detected"
    by (simp add: size_diff_inter)
  finally show ?thesis using c l by (simp add: score_detector_case_def Let_def)
qed

lemma detector_case_labels:
  "labelled True_Positive (dc_spans (score_detector_case expected detected)) = mset (map span_ref expected) \<inter># mset detected"
  "labelled False_Negative (dc_spans (score_detector_case expected detected)) = mset (map span_ref expected) - mset detected"
  "labelled False_Positive (dc_spans (score_detector_case expected detected)) = mset detected - mset (map span_ref expected)"
proof -
  obtain consumed results tp fn
    where l: "detector_loop detected (replicate (length detected) False, [], 0, 0) expected = (consumed, results, tp, fn)"
    by (cases "detector_loop detected (replicate (length detected) False, [], 0, 0) expected") auto
  have left: "mset (map (nth detected) (filter (\<lambda>i. \<not> consumed ! i) [0..<length detected])) =
      mset detected - mset (map span_ref expected)"
    using detector_loop_counts [OF l] by (simp only: mset_map unconsumed_def [symmetric] unconsumed_all length_replicate)
  note labels = detector_loop_labels [OF l] unconsumed_all
  have spans: "dc_spans (score_detector_case expected detected) =
      results @ map (\<lambda>i. (detected ! i, False_Positive)) (filter (\<lambda>i. \<not> consumed ! i) [0..<length detected])"
    by (simp add: score_detector_case_def l Let_def)
  show "labelled True_Positive (dc_spans (score_detector_case expected detected)) = mset (map span_ref expected) \<inter># mset detected"
    "labelled False_Negative (dc_spans (score_detector_case expected detected)) = mset (map span_ref expected) - mset detected"
    "labelled False_Positive (dc_spans (score_detector_case expected detected)) = mset detected - mset (map span_ref expected)"
    unfolding spans labelled_append labelled_map left using labels by simp_all
qed

text \<open>The harmonic mean of two rates with the same numerator.\<close>

lemma f1_of_counts:
  "f1_of (safe_divide t d) (safe_divide t e) =
     (if d = 0 \<or> e = 0 then None else Some (2 * of_nat t / (of_nat e + of_nat d)))"
proof (cases "d = 0 \<or> e = 0 \<or> t = 0")
  case True
  then show ?thesis by (auto simp: f1_of_def safe_divide_def)
next
  case False
  then have pos: "(of_nat t :: rat) \<noteq> 0" "(of_nat d :: rat) \<noteq> 0" "(of_nat e :: rat) \<noteq> 0" "(of_nat e + of_nat d :: rat) \<noteq> 0"
    by (simp_all flip: of_nat_add)
  then have sum: "of_nat t / of_nat d + of_nat t / of_nat e = (of_nat t * (of_nat e + of_nat d) / (of_nat d * of_nat e) :: rat)"
    by (simp add: field_simps)
  then have "of_nat t / of_nat d + of_nat t / of_nat e \<noteq> (0 :: rat)" using pos by simp
  moreover have "2 * (of_nat t / of_nat d) * (of_nat t / of_nat e) =
      (2 * of_nat t / (of_nat e + of_nat d)) * (of_nat t / of_nat d + of_nat t / of_nat e :: rat)"
    unfolding sum using pos by simp
  ultimately show ?thesis using False by (simp add: f1_of_def safe_divide_def)
qed

lemma safe_divide_range: "a \<le> b \<Longrightarrow> safe_divide a b = Some r \<Longrightarrow> 0 \<le> r \<and> r \<le> 1"
  by (auto simp: safe_divide_def divide_le_eq split: if_splits)

subsection \<open>Properties\<close>

text \<open>
  each annotated span is judged by its own transformation. Whatever a span is matched with is a transformation of the
  result and of the span's category; and when the decision transformed exactly the annotated categories in the order of the text,
  the k-th span in that order is matched with the k-th transformation, also where a category occurs several times.
\<close>

theorem spans_are_judged_by_their_own:
  "(\<forall>i t. i < length (oc_expected_spans o') \<and> resolve_span_transformations o' res trt ! i = Some t \<longrightarrow>
      t \<in> set (rs_transformations res) \<and> tr_category t = xs_category (oc_expected_spans o' ! i)) \<and>
   (rs_status res = Allowed \<and> trt \<noteq> DIRECT \<and>
    map tr_category (rs_transformations res) =
      map (\<lambda>i. xs_category (oc_expected_spans o' ! i)) (ordered_indices (oc_expected_spans o')) \<longrightarrow>
    (\<forall>k < length (oc_expected_spans o').
       resolve_span_transformations o' res trt ! (ordered_indices (oc_expected_spans o') ! k) = Some (rs_transformations res ! k)))"
proof (intro conjI allI impI)
  fix k
  let ?spans = "oc_expected_spans o'"
  let ?ixs = "ordered_indices ?spans"
  let ?ts = "rs_transformations res"
  assume a: "rs_status res = Allowed \<and> trt \<noteq> DIRECT \<and> map tr_category ?ts = map (\<lambda>i. xs_category (?spans ! i)) ?ixs"
    and k: "k < length ?spans"
  then have len: "length ?ts = length ?spans"
    by (metis length_map ordered_indices_perm)
  have kc: "tr_category (?ts ! k) = xs_category (?spans ! (?ixs ! k))"
    using a k len ordered_indices_perm [of ?spans] by (metis nth_map)
  have "length (filter (\<lambda>j. xs_category (?spans ! j) = c) (take k ?ixs)) = length (filter (\<lambda>t. tr_category t = c) (take k ?ts))" for c
    by (rule same_counts) (use a in \<open>metis take_map\<close>)
  then show "resolve_span_transformations o' res trt ! (?ixs ! k) = Some (?ts ! k)"
    using resolve_nth [of res trt k o'] a k len kc nth_filter_take [of k ?ts "\<lambda>t. tr_category t = xs_category (?spans ! (?ixs ! k))"]
    by (simp add: Let_def)
qed (use resolved_category in blast)+

definition scored_span :: "pystr \<Rightarrow> int \<Rightarrow> expected_span" where
  "scored_span category start =
     \<lparr>xs_category = category, xs_value = ''9'', xs_start = start, xs_end = start + 1,
      xs_task_necessity = NECESSITY_REQUIRED, xs_expected_actions = [REMOVE], xs_helpful = False\<rparr>"

definition scored_result :: disclosure_result where
  "scored_result =
     \<lparr>rs_external_payload = '''', rs_decisions = [],
      rs_transformations = map (\<lambda>(c, v). \<lparr>tr_category = c, tr_original = v, tr_transformed = None, tr_action = REMOVE\<rparr>)
        [(''cpf'', ''1''), (''salary'', ''2''), (''cpf'', ''3'')],
      rs_reconstruction_required = False, rs_status = Allowed\<rparr>"

definition scored_oracle :: case_oracle where
  "scored_oracle = sample_oracle\<lparr>oc_expected_spans := [scored_span ''cpf'' 9, scored_span ''cpf'' 0, scored_span ''salary'' 5]\<rparr>"

theorem spans_are_judged_by_their_own_witness:
  "map_option tr_original (resolve_span_transformations scored_oracle scored_result STATIC_SANITIZATION ! 0) = Some ''3''"
proof -
  have ixs: "ordered_indices (oc_expected_spans scored_oracle) = [1, 2, 0]" by code_simp
  have "map tr_category (rs_transformations scored_result) =
      map (\<lambda>i. xs_category (oc_expected_spans scored_oracle ! i)) (ordered_indices (oc_expected_spans scored_oracle))"
    by code_simp
  moreover have "length (oc_expected_spans scored_oracle) = 3" by (simp add: scored_oracle_def)
  ultimately show ?thesis
    using spans_are_judged_by_their_own [of scored_oracle scored_result STATIC_SANITIZATION] ixs
    by (auto simp: scored_result_def numeral_2_eq_2 dest!: spec [of _ "2 :: nat"])
qed

lemma detector_score_agreement:
  fixes expected :: "expected_span list" and detected :: "detected_span_ref list"
  defines "s \<equiv> score_detector_case expected detected"
  shows "dc_true_positive_count s = size (mset (map span_ref expected) \<inter># mset detected) \<and>
    dc_true_positive_count s + dc_false_negative_count s = length expected \<and>
    dc_true_positive_count s + dc_false_positive_count s = length detected \<and>
    labelled True_Positive (dc_spans s) = mset (map span_ref expected) \<inter># mset detected \<and>
    labelled False_Negative (dc_spans s) = mset (map span_ref expected) - mset detected \<and>
    labelled False_Positive (dc_spans s) = mset detected - mset (map span_ref expected) \<and>
    dc_precision s = (if detected = [] then None else Some (of_nat (dc_true_positive_count s) / of_nat (length detected))) \<and>
    dc_recall s = (if expected = [] then None else Some (of_nat (dc_true_positive_count s) / of_nat (length expected))) \<and>
    dc_f1 s = (if detected = [] \<or> expected = [] then None
      else Some (2 * of_nat (dc_true_positive_count s) / (of_nat (length expected) + of_nat (length detected)))) \<and>
    (\<forall>r. dc_precision s = Some r \<or> dc_recall s = Some r \<longrightarrow> 0 \<le> r \<and> r \<le> 1) \<and>
    (dc_precision s = Some 1 \<and> dc_recall s = Some 1 \<longleftrightarrow>
       expected \<noteq> [] \<and> mset (map span_ref expected) = mset detected)"
proof -
  note c = detector_case_counts [of expected detected, folded s_def]
  let ?E = "mset (map span_ref expected)"
  let ?D = "mset detected"
  have rates: "dc_precision s = safe_divide (dc_true_positive_count s) (length detected)"
    "dc_recall s = safe_divide (dc_true_positive_count s) (length expected)"
    "dc_f1 s = f1_of (dc_precision s) (dc_recall s)"
    using c by (auto simp: s_def score_detector_case_def Let_def split: prod.splits)
  have "dc_f1 s = (if length detected = 0 \<or> length expected = 0 then None
      else Some (2 * of_nat (dc_true_positive_count s) / (of_nat (length expected) + of_nat (length detected))))"
    unfolding rates by (rule f1_of_counts)
  then have f1: "dc_f1 s = (if detected = [] \<or> expected = [] then None
      else Some (2 * of_nat (dc_true_positive_count s) / (of_nat (length expected) + of_nat (length detected))))"
    by (simp only: length_0_conv)
  have explicit:
    "dc_precision s = (if detected = [] then None else Some (of_nat (dc_true_positive_count s) / of_nat (length detected)))"
    "dc_recall s = (if expected = [] then None else Some (of_nat (dc_true_positive_count s) / of_nat (length expected)))"
    unfolding rates(1,2) by (simp_all add: safe_divide_def)
  have one: "safe_divide a b = Some 1 \<longleftrightarrow> a = b \<and> b \<noteq> 0" for a b :: nat
    by (auto simp: safe_divide_def)
  have "?E = ?D" if "size (?E \<inter># ?D) = length expected" "size (?E \<inter># ?D) = length detected"
  proof -
    have "?E \<inter># ?D = ?E" by (rule submultiset_same_size) (use that in simp_all)
    moreover have "?E \<inter># ?D = ?D" by (rule submultiset_same_size) (use that in simp_all)
    ultimately show ?thesis by simp
  qed
  moreover have "size (?E \<inter># ?D) = length expected \<and> size (?E \<inter># ?D) = length detected" if "?E = ?D"
    using that by (metis length_map size_mset subset_mset.inf.idem)
  ultimately have agree: "size (?E \<inter># ?D) = length expected \<and> size (?E \<inter># ?D) = length detected \<longleftrightarrow> ?E = ?D" by blast
  have "dc_precision s = Some 1 \<and> dc_recall s = Some 1 \<longleftrightarrow>
      (size (?E \<inter># ?D) = length expected \<and> size (?E \<inter># ?D) = length detected) \<and> length expected \<noteq> 0"
    unfolding rates one using c by metis
  then have exact: "dc_precision s = Some 1 \<and> dc_recall s = Some 1 \<longleftrightarrow> expected \<noteq> [] \<and> ?E = ?D"
    unfolding agree by simp blast
  have "0 \<le> r \<and> r \<le> 1" if "dc_precision s = Some r \<or> dc_recall s = Some r" for r
    using that
  proof
    assume "dc_precision s = Some r"
    then show ?thesis using c by (intro safe_divide_range [of "dc_true_positive_count s" "length detected"]) (simp_all add: rates)
  next
    assume "dc_recall s = Some r"
    then show ?thesis using c by (intro safe_divide_range [of "dc_true_positive_count s" "length expected"]) (simp_all add: rates)
  qed
  with c exact f1 explicit detector_case_labels [of expected detected, folded s_def] show ?thesis
    by (intro conjI) (assumption | blast)+
qed

text \<open>
  C26: the detector's score counts what it should. The spans it labels true positives are the common part of the annotated and
  the detected spans as multisets of categories and offsets, whatever their orders; those it labels false negatives are the rest of
  the annotated ones, and false positives the rest of the detected ones; the counts are the numbers of these. Precision is the
  share of true positives among the detected spans and recall among the annotated ones, none where there are none, and F1 is twice
  the true positives over both numbers together. So the rates lie between 0 and 1, and precision and recall are both 1 exactly
  when the detector found the annotated spans and nothing else.
\<close>

theorem detector_score_is_multiset_agreement:
  "let s = score_detector_case expected detected in
    dc_true_positive_count s = size (mset (map span_ref expected) \<inter># mset detected) \<and>
    dc_true_positive_count s + dc_false_negative_count s = length expected \<and>
    dc_true_positive_count s + dc_false_positive_count s = length detected \<and>
    labelled True_Positive (dc_spans s) = mset (map span_ref expected) \<inter># mset detected \<and>
    labelled False_Negative (dc_spans s) = mset (map span_ref expected) - mset detected \<and>
    labelled False_Positive (dc_spans s) = mset detected - mset (map span_ref expected) \<and>
    dc_precision s = (if detected = [] then None else Some (of_nat (dc_true_positive_count s) / of_nat (length detected))) \<and>
    dc_recall s = (if expected = [] then None else Some (of_nat (dc_true_positive_count s) / of_nat (length expected))) \<and>
    dc_f1 s = (if detected = [] \<or> expected = [] then None
      else Some (2 * of_nat (dc_true_positive_count s) / (of_nat (length expected) + of_nat (length detected)))) \<and>
    (\<forall>r. dc_precision s = Some r \<or> dc_recall s = Some r \<longrightarrow> 0 \<le> r \<and> r \<le> 1) \<and>
    (dc_precision s = Some 1 \<and> dc_recall s = Some 1 \<longleftrightarrow>
       expected \<noteq> [] \<and> mset (map span_ref expected) = mset detected)"
  unfolding Let_def by (rule detector_score_agreement)

theorem detector_score_is_multiset_agreement_witness:
  "dc_precision (score_detector_case [scored_span ''cpf'' 9] []) = None \<and>
   dc_recall (score_detector_case [scored_span ''cpf'' 9] []) = Some 0"
proof -
  have "dc_true_positive_count (score_detector_case [scored_span ''cpf'' 9] []) = 0" by code_simp
  with detector_score_is_multiset_agreement [of "[scored_span ''cpf'' 9]" "[]"] show ?thesis
    unfolding Let_def by simp
qed

end
