(* ===== verification/Utility.thy ===== *)
theory Utility
  imports Scoring Json
begin

text \<open>
  The scoring of utility (\<open>experiments/scoring/utility.py\<close>, \<open>experiments/post_pilot_protocol.py\<close>): whether the payload
  of a decision still answers what the expected answer of a case depends on.

  A \<open>Decimal\<close> of an amount is the exact rational number; so is a \<open>float\<close> that the frozen rule of the third protocol reads
  from a text. \<open>int\<close> refuses a text of more than 4300 digits. The patterns that end in \<open>$\<close> also accept one
  newline at the end, as in the code.

  The lemmas show that the rule for one reference is exactly the question whether the band decides the relation, that the
  scorer's grammar of amounts, written independently of the one of the treatments, accepts the same texts with the same
  values, that what the treatments make of such an amount is never judged unfaithful, and that a corpus which passes the check
  before a run can be scored.
\<close>

subsection \<open>Protocols\<close>

datatype utility_error =
    UnknownProtocolIdError
  | UnsupportedScoringProtocolError
  | MissingUtilityReferencesError
  | StructuredReferencesRequireV4Error
  | UnsupportedOriginalAmountFormatError
  | Too_Many_Digits

definition FROZEN_PROTOCOL_IDS :: "pystr list" where
  "FROZEN_PROTOCOL_IDS =
     [''post-pilot-v1'', ''post-pilot-v2'', ''post-pilot-v3'', ''post-pilot-v4'', ''post-pilot-v5'']"

definition SCORABLE_PROTOCOL_IDS :: "pystr list" where
  "SCORABLE_PROTOCOL_IDS = [''post-pilot-v3'', ''post-pilot-v4'', ''post-pilot-v5'']"

definition CURRENT_PROTOCOL_ID :: pystr where
  "CURRENT_PROTOCOL_ID = ''post-pilot-v5''"

definition validate_protocol_id :: "pystr \<Rightarrow> utility_error + unit" where
  "validate_protocol_id protocol_id =
     (if protocol_id \<notin> set FROZEN_PROTOCOL_IDS then Inl UnknownProtocolIdError else Inr ())"

definition validate_scorable_protocol_id :: "pystr \<Rightarrow> utility_error + unit" where
  "validate_scorable_protocol_id protocol_id =
     (case validate_protocol_id protocol_id of
        Inl e \<Rightarrow> Inl e
      | Inr _ \<Rightarrow> if protocol_id \<notin> set SCORABLE_PROTOCOL_IDS then Inl UnsupportedScoringProtocolError else Inr ())"

subsection \<open>Outcomes\<close>

datatype utility_outcome = Answerable | Not_Answerable | Indeterminate | Not_Applicable

record category_utility =
  cu_category :: pystr
  cu_outcome :: utility_outcome
  cu_reason :: pystr

record utility_score =
  us_overall :: utility_outcome
  us_by_category :: "category_utility list"

definition NUMERIC_BAND_UTILITY_CATEGORIES :: "pystr list" where
  "NUMERIC_BAND_UTILITY_CATEGORIES = [''salary'', ''contract_value'', ''penalty_amount'']"

subsection \<open>Amounts and bands\<close>

text \<open>\<open>re.match\<close> of a pattern that ends in \<open>$\<close>: at the end of the text or before a newline that ends it.\<close>

definition dollar_at :: "pystr \<Rightarrow> nat \<Rightarrow> bool" where
  "dollar_at s i \<longleftrightarrow> i = length s \<or> Suc i = length s \<and> s ! i = CHR 0x0A"

definition match_to_dollar :: "re \<Rightarrow> pystr \<Rightarrow> captures option" where
  "match_to_dollar r s = map_option snd (find (\<lambda>(j, c). dollar_at s j) (matches r s 0))"

definition the_captured :: "captures \<Rightarrow> pystr \<Rightarrow> pystr \<Rightarrow> pystr" where
  "the_captured caps g s = the_default [] (captured caps g s)"

text \<open>\<open>int(s)\<close> of a text of digits.\<close>

definition int_of_numeral :: "pystr \<Rightarrow> utility_error + nat" where
  "int_of_numeral s = (if MAX_INT_DIGITS < length s then Inl Too_Many_Digits else Inr (int_of_digits s))"

definition cents_of :: "pystr \<Rightarrow> pystr \<Rightarrow> rat" where
  "cents_of units cents = of_nat (int_of_digits (units @ cents)) / 100"

definition ORIGINAL_AMOUNT_PATTERN :: re where
  "ORIGINAL_AMOUNT_PATTERN =
     sqs [lit ''R$ '', Gr ''1'' (sqs [at_least 1 digit, lit ''.'', times 2 digit])]"

definition no_leading_zero :: re where
  "no_leading_zero = Al (lit ''0'') (Sq nonzero_digit (at_least 0 digit))"

definition BAND_STRING_PATTERN :: re where
  "BAND_STRING_PATTERN = sqs [lit ''R$ '', Gr ''1'' no_leading_zero, lit ''-'', Gr ''2'' no_leading_zero]"

definition amount_space :: re where
  "amount_space = Chr (one_of [CHR '' '', CHR 0xA0])"

definition V5_DOTTED_ORIGINAL_PATTERN :: re where
  "V5_DOTTED_ORIGINAL_PATTERN =
     sqs [lit ''R$'', amount_space,
          Gr ''1'' (Al (lit ''0'') (Sq nonzero_digit (between 0 14 digit))), lit ''.'', Gr ''2'' (times 2 digit)]"

definition V5_BRAZIL_ORIGINAL_PATTERN :: re where
  "V5_BRAZIL_ORIGINAL_PATTERN =
     sqs [lit ''R$'', amount_space,
          Gr ''1'' (Al (lit ''0'')
            (Al (sqs [nonzero_digit, between 0 2 digit, between 0 4 (Sq (lit ''.'') (times 3 digit))])
                (Sq nonzero_digit (between 3 14 digit)))), lit '','', Gr ''2'' (times 2 digit)]"

definition V5_BAND_PATTERN :: re where
  "V5_BAND_PATTERN = BAND_STRING_PATTERN"

definition parse_original_amount_v5 :: "pystr option \<Rightarrow> rat option" where
  "parse_original_amount_v5 original =
     (case original of
        None \<Rightarrow> None
      | Some s \<Rightarrow>
          (case re_fullmatch V5_DOTTED_ORIGINAL_PATTERN s of
             Some m \<Rightarrow> Some (cents_of (the_captured m ''1'' s) (the_captured m ''2'' s))
           | None \<Rightarrow>
               (case re_fullmatch V5_BRAZIL_ORIGINAL_PATTERN s of
                  Some m \<Rightarrow>
                    Some (cents_of (filter (\<lambda>c. c \<noteq> CHR ''.'') (the_captured m ''1'' s)) (the_captured m ''2'' s))
                | None \<Rightarrow> None)))"

text \<open>The two numbers of a band that the pattern matched; an inverted or empty band is refused.\<close>

definition read_band :: "captures \<Rightarrow> pystr \<Rightarrow> utility_error + (nat \<times> nat) option" where
  "read_band m s =
     (case int_of_numeral (the_captured m ''1'' s) of
        Inl e \<Rightarrow> Inl e
      | Inr lower \<Rightarrow>
          (case int_of_numeral (the_captured m ''2'' s) of
             Inl e \<Rightarrow> Inl e
           | Inr upper \<Rightarrow> Inr (if upper \<le> lower then None else Some (lower, upper))))"

definition parse_band_v5 :: "pystr option \<Rightarrow> utility_error + (nat \<times> nat) option" where
  "parse_band_v5 transformed =
     (case transformed of
        None \<Rightarrow> Inr None
      | Some s \<Rightarrow> (case re_fullmatch V5_BAND_PATTERN s of None \<Rightarrow> Inr None | Some m \<Rightarrow> read_band m s))"

definition parse_strict_original_amount :: "pystr option \<Rightarrow> rat option" where
  "parse_strict_original_amount original =
     (case original of
        None \<Rightarrow> None
      | Some s \<Rightarrow>
          (case match_to_dollar ORIGINAL_AMOUNT_PATTERN s of
             None \<Rightarrow> None
           | Some m \<Rightarrow> (let (units, cents) = partition_at (CHR ''.'') (the_captured m ''1'' s) in Some (cents_of units cents))))"

definition parse_band :: "pystr option \<Rightarrow> utility_error + (nat \<times> nat) option" where
  "parse_band transformed =
     (case transformed of
        None \<Rightarrow> Inr None
      | Some s \<Rightarrow> (case match_to_dollar BAND_STRING_PATTERN s of None \<Rightarrow> Inr None | Some m \<Rightarrow> read_band m s))"

subsection \<open>Fidelity\<close>

text \<open>The code returns either an outcome with its reason or the two bounds, and tells them apart by type.\<close>

type_synonym judged = "utility_outcome \<times> pystr"

definition fidelity_of :: "rat option \<Rightarrow> utility_error + (nat \<times> nat) option \<Rightarrow> utility_error + (judged + nat \<times> nat)" where
  "fidelity_of original_amount band =
     (case original_amount of
        None \<Rightarrow> Inr (Inl (Not_Answerable, ''generalized_band_unscorable_original''))
      | Some amount \<Rightarrow>
          (case band of
             Inl e \<Rightarrow> Inl e
           | Inr None \<Rightarrow> Inr (Inl (Not_Answerable, ''generalized_band_invalid''))
           | Inr (Some (lower, upper)) \<Rightarrow>
               if \<not> (of_nat lower \<le> amount \<and> amount < of_nat upper)
               then Inr (Inl (Not_Answerable, ''generalized_band_excludes_original''))
               else Inr (Inr (lower, upper))))"

definition check_band_fidelity :: "pystr option \<Rightarrow> pystr option \<Rightarrow> utility_error + (judged + nat \<times> nat)" where
  "check_band_fidelity original transformed =
     fidelity_of (parse_strict_original_amount original) (parse_band transformed)"

definition check_band_fidelity_v5 :: "pystr option \<Rightarrow> pystr option \<Rightarrow> utility_error + (judged + nat \<times> nat)" where
  "check_band_fidelity_v5 original transformed =
     fidelity_of (parse_original_amount_v5 original) (parse_band_v5 transformed)"

subsection \<open>Sufficiency\<close>

definition reference_is_decidable :: "reference_operator \<Rightarrow> rat \<Rightarrow> nat \<Rightarrow> nat \<Rightarrow> bool" where
  "reference_is_decidable operator amount lower upper \<longleftrightarrow>
     (if operator = GREATER_THAN \<or> operator = LESS_THAN_OR_EQUAL
      then amount < of_nat lower \<or> of_nat upper \<le> amount
      else amount \<le> of_nat lower \<or> of_nat upper \<le> amount)"

definition classify_structured_sufficiency :: "nat \<Rightarrow> nat \<Rightarrow> numeric_utility_reference list \<Rightarrow> judged" where
  "classify_structured_sufficiency lower upper references =
     (if references = [] then (Indeterminate, ''generalized_band_no_reference'')
      else if list_all (\<lambda>r. reference_is_decidable (nr_operator r) (reference_amount r) lower upper) references
        then (Answerable, ''generalized_band_decidable'')
      else (Indeterminate, ''generalized_band_ambiguous''))"

definition after_fidelity ::
  "utility_error + (judged + nat \<times> nat) \<Rightarrow> (nat \<Rightarrow> nat \<Rightarrow> judged) \<Rightarrow> utility_error + judged" where
  "after_fidelity fidelity sufficiency =
     (case fidelity of
        Inl e \<Rightarrow> Inl e
      | Inr (Inl verdict) \<Rightarrow> Inr verdict
      | Inr (Inr (lower, upper)) \<Rightarrow> Inr (sufficiency lower upper))"

definition classify_generalized_band :: "pystr option \<Rightarrow> pystr option \<Rightarrow> rat list \<Rightarrow> utility_error + judged" where
  "classify_generalized_band original transformed references =
     after_fidelity (check_band_fidelity original transformed)
       (\<lambda>lower upper.
          if references = [] then (Indeterminate, ''generalized_band_no_reference'')
          else if list_all (\<lambda>r. r < of_nat lower \<or> of_nat upper \<le> r) references
            then (Answerable, ''generalized_band_decidable'')
          else (Indeterminate, ''generalized_band_ambiguous''))"

definition classify_generalized_band_against_references ::
  "pystr option \<Rightarrow> pystr option \<Rightarrow> numeric_utility_reference list \<Rightarrow> utility_error + judged" where
  "classify_generalized_band_against_references original transformed references =
     after_fidelity (check_band_fidelity original transformed)
       (\<lambda>lower upper. classify_structured_sufficiency lower upper references)"

definition classify_generalized_band_against_references_v5 ::
  "pystr option \<Rightarrow> pystr option \<Rightarrow> numeric_utility_reference list \<Rightarrow> utility_error + judged" where
  "classify_generalized_band_against_references_v5 original transformed references =
     after_fidelity (check_band_fidelity_v5 original transformed)
       (\<lambda>lower upper. classify_structured_sufficiency lower upper references)"

subsection \<open>Dates\<close>

definition DATE_UTILITY_REQUIRED_GRANULARITY :: "(pystr, pystr) dict" where
  "DATE_UTILITY_REQUIRED_GRANULARITY = [(''deadline'', ''day'')]"

definition DATE_GRANULARITY_ORDER :: "(pystr, nat) dict" where
  "DATE_GRANULARITY_ORDER = [(''day'', 0), (''month'', 1), (''year'', 2)]"

definition YEAR_ONLY_PATTERN :: re where
  "YEAR_ONLY_PATTERN = Gr ''1'' (times 4 digit)"

definition YEAR_MONTH_PATTERN :: re where
  "YEAR_MONTH_PATTERN = sqs [Gr ''1'' (times 4 digit), lit ''-'', Gr ''2'' (times 2 digit)]"

definition YEAR_MONTH_DAY_PATTERN :: re where
  "YEAR_MONTH_DAY_PATTERN =
     sqs [Gr ''1'' (times 4 digit), lit ''-'', Gr ''2'' (times 2 digit), lit ''-'', Gr ''3'' (times 2 digit)]"

definition number_in :: "captures \<Rightarrow> pystr \<Rightarrow> pystr \<Rightarrow> nat" where
  "number_in m g s = int_of_digits (the_captured m g s)"

text \<open>The code splits the text at the hyphens instead of using groups; \<open>int\<close> ignores the newline the pattern allows.\<close>

definition parse_original_date :: "pystr option \<Rightarrow> (nat \<times> nat \<times> nat) option" where
  "parse_original_date original =
     (case original of
        None \<Rightarrow> None
      | Some s \<Rightarrow>
          (case match_to_dollar YEAR_MONTH_DAY_PATTERN s of
             None \<Rightarrow> None
           | Some m \<Rightarrow>
               (let y = number_in m ''1'' s; mo = number_in m ''2'' s; d = number_in m ''3'' s
                in if valid_date y mo d then Some (y, mo, d) else None)))"

datatype transformed_date = Day_Date nat nat nat | Month_Date nat nat | Year_Date nat

definition parse_transformed_date :: "pystr option \<Rightarrow> transformed_date option" where
  "parse_transformed_date transformed =
     (case transformed of
        None \<Rightarrow> None
      | Some s \<Rightarrow>
          (case match_to_dollar YEAR_MONTH_DAY_PATTERN s of
             Some m \<Rightarrow>
               (let y = number_in m ''1'' s; mo = number_in m ''2'' s; d = number_in m ''3'' s
                in if valid_date y mo d then Some (Day_Date y mo d) else None)
           | None \<Rightarrow>
               (case match_to_dollar YEAR_MONTH_PATTERN s of
                  Some m \<Rightarrow>
                    (let y = number_in m ''1'' s; mo = number_in m ''2'' s
                     in if 1 \<le> mo \<and> mo \<le> 12 then Some (Month_Date y mo) else None)
                | None \<Rightarrow>
                    (case match_to_dollar YEAR_ONLY_PATTERN s of
                       Some m \<Rightarrow> Some (Year_Date (number_in m ''1'' s))
                     | None \<Rightarrow> None))))"

definition granularity_of :: "transformed_date \<Rightarrow> pystr" where
  "granularity_of t = (case t of Day_Date _ _ _ \<Rightarrow> ''day'' | Month_Date _ _ \<Rightarrow> ''month'' | Year_Date _ \<Rightarrow> ''year'')"

text \<open>Whether the components that the transformed date has are those of the original.\<close>

definition same_components :: "transformed_date \<Rightarrow> nat \<times> nat \<times> nat \<Rightarrow> bool" where
  "same_components t original =
     (case original of (o_year, o_month, o_day) \<Rightarrow>
        (case t of
           Day_Date y m d \<Rightarrow> y = o_year \<and> m = o_month \<and> d = o_day
         | Month_Date y m \<Rightarrow> y = o_year \<and> m = o_month
         | Year_Date y \<Rightarrow> y = o_year))"

definition granularity_rank :: "pystr \<Rightarrow> nat" where
  "granularity_rank g = dict_get_default DATE_GRANULARITY_ORDER g 0"

definition classify_generalized_date :: "pystr option \<Rightarrow> pystr option \<Rightarrow> pystr \<Rightarrow> judged" where
  "classify_generalized_date original transformed required =
     (case parse_original_date original of
        None \<Rightarrow> (Not_Answerable, ''generalized_date_unscorable_original'')
      | Some date \<Rightarrow>
          (case parse_transformed_date transformed of
             None \<Rightarrow> (Not_Answerable, ''generalized_date_invalid'')
           | Some t \<Rightarrow>
               if \<not> same_components t date then (Not_Answerable, ''generalized_date_wrong_value'')
               else if granularity_of t = ''day'' then (Not_Answerable, ''generalized_date_excess_precision'')
               else if granularity_rank required < granularity_rank (granularity_of t)
                 then (Not_Answerable, ''generalized_date_insufficient_granularity'')
               else (Answerable, ''generalized_date_sufficient_granularity'')))"

subsection \<open>References in the text\<close>

definition LEGACY_AMOUNT_PATTERN :: re where
  "LEGACY_AMOUNT_PATTERN = sqs [opt (lit ''-''), at_least 1 digit, opt (Sq (lit ''.'') (at_least 1 digit))]"

text \<open>\<open>float\<close> of such a number.\<close>

definition legacy_float :: "pystr \<Rightarrow> rat" where
  "legacy_float s =
     (let negative = (s \<noteq> [] \<and> hd s = CHR ''-''); unsigned = (if negative then tl s else s);
          (units, decimals) = partition_at (CHR ''.'') unsigned;
          size = of_nat (int_of_digits (units @ decimals)) / 10 ^ length decimals
      in if negative then - size else size)"

definition legacy_v3_reference_values :: "pystr \<Rightarrow> (int \<times> int) list \<Rightarrow> rat list" where
  "legacy_v3_reference_values text exclude_spans =
     map (\<lambda>(a, b, c). legacy_float (slice a b text))
       (filter (\<lambda>(a, b, c). \<not> list_ex (\<lambda>(span_start, span_end). span_start \<le> int a \<and> int b \<le> span_end) exclude_spans)
          (re_finditer LEGACY_AMOUNT_PATTERN text))"

subsection \<open>Which corpus a protocol can score\<close>

definition numeric_depends_on :: "case_oracle \<Rightarrow> bool" where
  "numeric_depends_on o' \<longleftrightarrow>
     list_ex (\<lambda>c. c \<in> set NUMERIC_BAND_UTILITY_CATEGORIES) (the_default [] (oc_answer_depends_on_categories o'))"

definition check_case_protocol_compatibility :: "case_oracle \<Rightarrow> pystr \<Rightarrow> utility_error + unit" where
  "check_case_protocol_compatibility o' protocol_id =
     (if oc_expected_block_request o' then Inr ()
      else if protocol_id = ''post-pilot-v4'' \<or> protocol_id = ''post-pilot-v5'' then
        (if oc_utility_references o' = None \<and> numeric_depends_on o' then Inl MissingUtilityReferencesError else Inr ())
      else if protocol_id = ''post-pilot-v3'' then
        (if oc_utility_references o' \<noteq> None then Inl StructuredReferencesRequireV4Error else Inr ())
      else Inl UnsupportedScoringProtocolError)"

definition v5_amount_ok :: "expected_span \<Rightarrow> bool" where
  "v5_amount_ok sp \<longleftrightarrow>
     xs_category sp \<notin> set NUMERIC_BAND_UTILITY_CATEGORIES \<or> parse_original_amount_v5 (Some (xs_value sp)) \<noteq> None"

fun check_v5_original_amount_formats :: "corpus_case list \<Rightarrow> utility_error + unit" where
  "check_v5_original_amount_formats [] = Inr ()"
| "check_v5_original_amount_formats (c # cs) =
     (if list_all v5_amount_ok (oc_expected_spans (cc_oracle c)) then check_v5_original_amount_formats cs
      else Inl UnsupportedOriginalAmountFormatError)"

fun check_cases :: "pystr \<Rightarrow> corpus_case list \<Rightarrow> utility_error + unit" where
  "check_cases protocol_id [] = Inr ()"
| "check_cases protocol_id (c # cs) =
     (case check_case_protocol_compatibility (cc_oracle c) protocol_id of
        Inl e \<Rightarrow> Inl e
      | Inr _ \<Rightarrow> check_cases protocol_id cs)"

definition check_corpus_protocol_compatibility :: "corpus_case list \<Rightarrow> pystr \<Rightarrow> utility_error + unit" where
  "check_corpus_protocol_compatibility cases protocol_id =
     (case validate_scorable_protocol_id protocol_id of
        Inl e \<Rightarrow> Inl e
      | Inr _ \<Rightarrow>
          (case check_cases protocol_id cases of
             Inl e \<Rightarrow> Inl e
           | Inr _ \<Rightarrow>
               if protocol_id = ''post-pilot-v5'' then check_v5_original_amount_formats cases else Inr ()))"

subsection \<open>The score of a case\<close>

text \<open>The first error of a loop over judgements, or all of them.\<close>

fun all_scored :: "(utility_error + 'a) list \<Rightarrow> utility_error + 'a list" where
  "all_scored [] = Inr []"
| "all_scored (r # rs) =
     (case r of
        Inl e \<Rightarrow> Inl e
      | Inr x \<Rightarrow> (case all_scored rs of Inl e \<Rightarrow> Inl e | Inr xs \<Rightarrow> Inr (x # xs)))"

definition uniform_score :: "utility_outcome \<Rightarrow> pystr \<Rightarrow> pystr list \<Rightarrow> utility_score" where
  "uniform_score outcome reason depends_on =
     \<lparr>us_overall = (if depends_on = [] then Not_Applicable else outcome),
      us_by_category = map (\<lambda>c. \<lparr>cu_category = c, cu_outcome = outcome, cu_reason = reason\<rparr>) depends_on\<rparr>"

text \<open>The worst of a list of outcomes.\<close>

definition combined :: "utility_outcome list \<Rightarrow> utility_outcome" where
  "combined outcomes =
     (if Not_Answerable \<in> set outcomes then Not_Answerable
      else if Indeterminate \<in> set outcomes then Indeterminate else Answerable)"

definition judge_generalized ::
  "case_oracle \<Rightarrow> pystr \<Rightarrow> rat list \<Rightarrow> pystr \<Rightarrow> expected_span \<Rightarrow> transformation \<Rightarrow> utility_error + judged" where
  "judge_generalized o' protocol_id legacy_references category sp t =
     (case dict_get DATE_UTILITY_REQUIRED_GRANULARITY category of
        Some required \<Rightarrow> Inr (classify_generalized_date (Some (xs_value sp)) (tr_transformed t) required)
      | None \<Rightarrow>
          if category \<in> set NUMERIC_BAND_UTILITY_CATEGORIES then
            (let category_references =
                   filter (\<lambda>r. nr_category r = category) (the_default [] (oc_utility_references o'))
             in if protocol_id = ''post-pilot-v3''
                  then classify_generalized_band (Some (xs_value sp)) (tr_transformed t) legacy_references
                else if protocol_id = ''post-pilot-v5''
                  then classify_generalized_band_against_references_v5 (Some (xs_value sp)) (tr_transformed t)
                         category_references
                else if protocol_id = ''post-pilot-v4''
                  then classify_generalized_band_against_references (Some (xs_value sp)) (tr_transformed t)
                         category_references
                else Inl UnsupportedScoringProtocolError)
          else Inr (Not_Answerable, ''generalized_category_unregistered''))"

definition judge_span ::
  "case_oracle \<Rightarrow> disclosure_result \<Rightarrow> pystr \<Rightarrow> rat list \<Rightarrow> pystr \<Rightarrow> expected_span \<times> transformation \<Rightarrow>
   utility_error + judged" where
  "judge_span o' res protocol_id legacy_references category entry =
     (case entry of (sp, t) \<Rightarrow>
        (case tr_action t of
           PRESERVE \<Rightarrow> Inr (Answerable, ''preserved'')
         | GENERALIZE \<Rightarrow> judge_generalized o' protocol_id legacy_references category sp t
         | PSEUDONYMIZE \<Rightarrow>
             Inr (if list_ex (\<lambda>e. re_category e = category \<and> re_expected_reconstructable e) (oc_reconstruction o') \<and>
                     rs_reconstruction_required res
                  then (Answerable, ''pseudonymized_but_reconstructable'')
                  else (Not_Answerable, ''pseudonymized_not_reconstructable''))
         | REMOVE \<Rightarrow> Inr (Not_Answerable, ''removed'')
         | _ \<Rightarrow> Inr (Not_Answerable, ''unscorable_action'')))"

fun joined_with :: "pystr \<Rightarrow> pystr list \<Rightarrow> pystr" where
  "joined_with sep [] = []"
| "joined_with sep [s] = s"
| "joined_with sep (s # t # ss) = s @ sep @ joined_with sep (t # ss)"

text \<open>The spans of a category with what each was matched with.\<close>

definition entries_of ::
  "case_oracle \<Rightarrow> transformation option list \<Rightarrow> pystr \<Rightarrow> (expected_span \<times> transformation option) list" where
  "entries_of o' transformations category =
     filter (\<lambda>(sp, t). xs_category sp = category) (zip (oc_expected_spans o') transformations)"

definition judge_category ::
  "case_oracle \<Rightarrow> disclosure_result \<Rightarrow> pystr \<Rightarrow> rat list \<Rightarrow> transformation option list \<Rightarrow> pystr \<Rightarrow>
   utility_error + category_utility" where
  "judge_category o' res protocol_id legacy_references transformations category =
     (let entries = entries_of o' transformations category in
      if entries = [] \<or> list_ex (\<lambda>(sp, t). t = None) entries
      then Inr \<lparr>cu_category = category, cu_outcome = Not_Answerable, cu_reason = ''unscorable''\<rparr>
      else (case all_scored
                   (map (\<lambda>(sp, t). judge_span o' res protocol_id legacy_references category (sp, the t)) entries) of
              Inl e \<Rightarrow> Inl e
            | Inr outcomes \<Rightarrow>
                Inr \<lparr>cu_category = category, cu_outcome = combined (map fst outcomes),
                     cu_reason = joined_with '';'' (sort (remdups (map snd outcomes)))\<rparr>))"

definition score_utility ::
  "corpus_case_input \<Rightarrow> case_oracle \<Rightarrow> disclosure_result \<Rightarrow> treatment \<Rightarrow> pystr \<Rightarrow> utility_error + utility_score" where
  "score_utility case_input o' res trt protocol_id =
     (case validate_scorable_protocol_id protocol_id of
        Inl e \<Rightarrow> Inl e
      | Inr _ \<Rightarrow>
          if oc_expected_block_request o' then Inr \<lparr>us_overall = Not_Applicable, us_by_category = []\<rparr>
          else (case check_case_protocol_compatibility o' protocol_id of
                  Inl e \<Rightarrow> Inl e
                | Inr _ \<Rightarrow>
                    (let depends_on = the_default [] (oc_answer_depends_on_categories o') in
                     if rs_status res = Blocked then Inr (uniform_score Not_Answerable ''unexpected_block'' depends_on)
                     else if trt = DIRECT then Inr (uniform_score Answerable ''direct_disclosure'' depends_on)
                     else
                       (let transformations = resolve_span_transformations o' res trt;
                            exclude_spans = map (\<lambda>sp. (xs_start sp, xs_end sp)) (oc_expected_spans o');
                            legacy_references =
                              (if protocol_id = ''post-pilot-v3''
                               then legacy_v3_reference_values (ci_text case_input) exclude_spans else [])
                        in case all_scored
                                  (map (judge_category o' res protocol_id legacy_references transformations) depends_on) of
                             Inl e \<Rightarrow> Inl e
                           | Inr category_scores \<Rightarrow>
                               Inr \<lparr>us_overall =
                                      (if category_scores = [] then Not_Applicable
                                       else combined (map cu_outcome category_scores)),
                                    us_by_category = category_scores\<rparr>))))"


subsection \<open>What the patterns capture\<close>

lemma match_literal:
  assumes "(k, c) \<in> set (matches (Sq (lit w) b) s i)" and "i \<le> length s"
  shows "drop i s = w @ drop (i + length w) s" and "i + length w \<le> length s" and "(k, c) \<in> set (matches b s (i + length w))"
proof -
  obtain j d e where j: "(j, d) \<in> set (matches (lit w) s i)" "(k, e) \<in> set (matches b s j)" "c = e @ d"
    using assms(1) by (rule matches_SqE)
  note l = matches_lit [OF assms(2) j(1)]
  have "i \<le> j" "j \<le> length s" using matches_end [OF assms(2) j(1)] by simp_all
  with l slice_append_drop [of i j s] show "drop i s = w @ drop (i + length w) s" "i + length w \<le> length s" by simp_all
  from j l show "(k, c) \<in> set (matches b s (i + length w))" by simp
qed

lemma match_group:
  assumes "(k, c) \<in> set (matches (Sq (Gr g r) b) s i)" and "i \<le> length s" and "groups r = []"
  obtains j d where "drop i s = slice i j s @ drop j s" and "j \<le> length s" and "slice i j s \<in> lang r"
    and "(k, d) \<in> set (matches b s j)" and "c = d @ [(g, (i, j))]"
proof -
  obtain j d e where j: "(j, d) \<in> set (matches (Gr g r) s i)" "(k, e) \<in> set (matches b s j)" "c = e @ d"
    using assms(1) by (rule matches_SqE)
  from j(1) obtain d' where d': "(j, d') \<in> set (matches r s i)" "d = (g, (i, j)) # d'" by auto
  have "d' = []" by (rule no_groups_no_captures [OF assms(3,2) d'(1)])
  moreover have ends: "i \<le> j" "j \<le> length s" using matches_end [OF assms(2) d'(1)] by simp_all
  moreover have "slice i j s \<in> lang r" by (rule matches_lang [OF assms(2) d'(1)])
  ultimately show thesis using that [of j e] j d' slice_append_drop [of i j s] by simp
qed

lemma match_space:
  assumes "(k, c) \<in> set (matches (Sq amount_space b) s i)" and "i \<le> length s"
  obtains sep where "drop i s = sep # drop (Suc i) s" and "amount_sep sep" and "Suc i \<le> length s"
    and "(k, c) \<in> set (matches b s (Suc i))"
proof -
  obtain j d e where j: "(j, d) \<in> set (matches amount_space s i)" "(k, e) \<in> set (matches b s j)" "c = e @ d"
    using assms(1) by (rule matches_SqE)
  from j(1) have "i < length s" "amount_sep (s ! i)" "j = Suc i" "d = []"
    unfolding amount_space_def by (auto simp: one_of_def amount_sep_def split: if_splits)
  with j show thesis using that [of "s ! i"] by (simp add: Cons_nth_drop_Suc)
qed

lemma match_end:
  assumes "(k, c) \<in> set (matches (sqs []) s i)"
  shows "k = i" and "c = []"
  using assms by simp_all

definition v5_pattern :: "re \<Rightarrow> char \<Rightarrow> re" where
  "v5_pattern units mark =
     sqs [lit ''R$'', amount_space, Gr ''1'' units, lit [mark], Gr ''2'' (times 2 digit)]"

lemma v5_patterns:
  "V5_DOTTED_ORIGINAL_PATTERN = v5_pattern (Al (lit ''0'') (Sq nonzero_digit (between 0 14 digit))) (CHR ''.'')"
  "V5_BRAZIL_ORIGINAL_PATTERN = v5_pattern (Al (lit ''0'')
            (Al (sqs [nonzero_digit, between 0 2 digit, between 0 4 (Sq (lit ''.'') (times 3 digit))])
                (Sq nonzero_digit (between 3 14 digit)))) (CHR '','')"
  by (simp_all only: V5_DOTTED_ORIGINAL_PATTERN_def V5_BRAZIL_ORIGINAL_PATTERN_def v5_pattern_def)

lemma v5_match:
  assumes "re_fullmatch (v5_pattern units mark) v = Some c" and "groups units = []"
  obtains sep u d where "v = ''R$'' @ sep # u @ mark # d" and "amount_sep sep" and "u \<in> lang units" and "two_digits d"
    and "the_captured c ''1'' v = u" and "the_captured c ''2'' v = d"
proof -
  have m: "(length v, c) \<in> set (matches (v5_pattern units mark) v 0)" by (rule fullmatch_lang [OF assms(1)])
  note l = match_literal [OF m [unfolded v5_pattern_def sqs.simps(2)] le0]
  have two': "0 + length ''R$'' = 2" "Suc 2 = 3" by simp_all
  note l1 = l [unfolded two' drop_0]
  obtain sep where l2: "drop 2 v = sep # drop 3 v" "amount_sep sep" "3 \<le> length v"
    "(length v, c) \<in> set (matches (Sq (Gr ''1'' units) (Sq (lit [mark]) (Sq (Gr ''2'' (times 2 digit)) (sqs [])))) v 3)"
    by (rule match_space [OF l1(3,2)]) (rule that, simp_all only: two')
  obtain j c1 where l3: "drop 3 v = slice 3 j v @ drop j v" "j \<le> length v" "slice 3 j v \<in> lang units"
    "(length v, c1) \<in> set (matches (Sq (lit [mark]) (Sq (Gr ''2'' (times 2 digit)) (sqs []))) v j)"
    "c = c1 @ [(''1'', (3, j))]"
    by (rule match_group [OF l2(4,3) assms(2)])
  have one: "j + length [mark] = Suc j" by simp
  note l4 = match_literal [OF l3(4,2), unfolded one]
  have two: "groups (times 2 digit) = []" by (simp add: times_def digit_def)
  obtain j' c2 where l5: "drop (Suc j) v = slice (Suc j) j' v @ drop j' v" "slice (Suc j) j' v \<in> lang (times 2 digit)"
    "(length v, c2) \<in> set (matches (sqs []) v j')" "c1 = c2 @ [(''2'', (Suc j, j'))]"
    by (rule match_group [OF l4(3) _ two]) (use l4(2) in simp_all)
  have e: "length v = j'" "c2 = []" by (rule match_end [OF l5(3)])+
  show thesis
  proof (rule that [OF _ l2(2) l3(3)])
    show "v = ''R$'' @ sep # slice 3 j v @ mark # slice (Suc j) j' v"
      using l1(1) l2(1) l3(1) l4(1) l5(1) e by simp
    show "two_digits (slice (Suc j) j' v)" using l5(2) by (simp add: lang_times_digits two_digits_def)
    show "the_captured c ''1'' v = slice 3 j v" "the_captured c ''2'' v = slice (Suc j) j' v"
      by (simp_all add: the_captured_def captured_def l3(5) l5(4) e(2))
  qed
qed

lemma v5_lang:
  "w \<in> lang (v5_pattern units mark) \<longleftrightarrow>
     (\<exists>sep u d. w = ''R$'' @ sep # u @ mark # d \<and> amount_sep sep \<and> u \<in> lang units \<and> two_digits d)"
proof -
  have lit: "x \<in> lang (Sq (lit a) r) \<longleftrightarrow> (\<exists>y. x = a @ y \<and> y \<in> lang r)" for x a r
    unfolding mem_Sq lang_lit by simp
  have "u \<in> lang amount_space \<longleftrightarrow> (\<exists>sep. u = [sep] \<and> amount_sep sep)" for u
    by (auto simp: amount_space_def one_of_def amount_sep_def)
  then have space: "x \<in> lang (Sq amount_space r) \<longleftrightarrow> (\<exists>sep y. x = sep # y \<and> amount_sep sep \<and> y \<in> lang r)" for x r
    unfolding mem_Sq by (metis append_Cons append_Nil)
  have units: "x \<in> lang (Sq (Gr ''1'' r) s) \<longleftrightarrow> (\<exists>u y. x = u @ y \<and> u \<in> lang r \<and> y \<in> lang s)" for x r s
    unfolding mem_Sq lang.simps(6) by simp
  have two: "x \<in> lang (times 2 digit) \<longleftrightarrow> two_digits x" for x by (auto simp: lang_times_digits two_digits_def)
  have last: "x \<in> lang (Sq (Gr ''2'' (times 2 digit)) Eps) \<longleftrightarrow> two_digits x" for x
    unfolding mem_Sq lang.simps(6) two lang.simps(1) by simp
  note inside = v5_pattern_def sqs.simps lit space last units
  show ?thesis
  proof
    assume "w \<in> lang (v5_pattern units mark)"
    then obtain sep u d where "w = ''R$'' @ sep # u @ [mark] @ d" "amount_sep sep" "u \<in> lang units" "two_digits d"
      unfolding inside by (elim exE conjE) (rule that, simp_all only:)
    then show "\<exists>sep u d. w = ''R$'' @ sep # u @ mark # d \<and> amount_sep sep \<and> u \<in> lang units \<and> two_digits d"
      by (intro exI [of _ sep] exI [of _ u] exI [of _ d]) simp
  next
    assume "\<exists>sep u d. w = ''R$'' @ sep # u @ mark # d \<and> amount_sep sep \<and> u \<in> lang units \<and> two_digits d"
    then obtain sep u d where w: "w = ''R$'' @ sep # u @ [mark] @ d" "amount_sep sep" "u \<in> lang units" "two_digits d" by auto
    show "w \<in> lang (v5_pattern units mark)"
      unfolding inside w(1)
      by (intro exI [of _ "sep # u @ [mark] @ d"] exI [of _ sep] exI [of _ "u @ [mark] @ d"] exI [of _ u] exI [of _ "[mark] @ d"]
          exI [of _ d] conjI refl w)
  qed
qed


subsection \<open>The two grammars of amounts agree\<close>

lemma int_of_digits_two: "int_of_digits (u @ [a, b]) = 100 * int_of_digits u + int_of_digits [a, b]"
  using int_of_digits_snoc [of "u @ [a]" b] int_of_digits_snoc [of u a] int_of_digits_snoc [of "[a]" b]
    int_of_digits_snoc [of "[]" a]
  by (simp add: int_of_digits_def)

lemma cents_of_two:
  assumes "two_digits c"
  shows "cents_of u c = of_nat (100 * int_of_digits u + int_of_digits c) / 100"
proof -
  obtain a b where "c = [a, b]" using assms by (auto simp: two_digits_def length_Suc_conv numeral_2_eq_2)
  then show ?thesis by (simp only: cents_of_def int_of_digits_two)
qed

lemma no_unit_groups:
  "groups (Al (lit ''0'') (Sq nonzero_digit (between 0 14 digit))) = []"
  "groups (Al (lit ''0'')
            (Al (sqs [nonzero_digit, between 0 2 digit, between 0 4 (Sq (lit ''.'') (times 3 digit))])
                (Sq nonzero_digit (between 3 14 digit)))) = []"
  by (simp_all add: nonzero_digit_def between_def times_def digit_def)

lemma v5_fullmatch_iff:
  assumes "anchor_free units"
  shows "(\<exists>m. re_fullmatch (v5_pattern units mark) v = Some m) \<longleftrightarrow>
    (\<exists>sep u d. v = ''R$'' @ sep # u @ mark # d \<and> amount_sep sep \<and> u \<in> lang units \<and> two_digits d)"
proof -
  have "anchor_free (v5_pattern units mark)"
    using assms by (simp add: v5_pattern_def amount_space_def times_def digit_def)
  from fullmatch_iff_lang [OF this] show ?thesis unfolding v5_lang .
qed

lemma unit_patterns_anchor_free:
  "anchor_free (Al (lit ''0'') (Sq nonzero_digit (between 0 14 digit)))"
  "anchor_free (Al (lit ''0'')
            (Al (sqs [nonzero_digit, between 0 2 digit, between 0 4 (Sq (lit ''.'') (times 3 digit))])
                (Sq nonzero_digit (between 3 14 digit))))"
  by (simp_all add: nonzero_digit_def between_def times_def digit_def)

lemma dotted_original:
  assumes "re_fullmatch V5_DOTTED_ORIGINAL_PATTERN v = Some m"
  obtains u d where "reads_amount v u d"
    and "cents_of (the_captured m ''1'' v) (the_captured m ''2'' v) = of_nat (amount_value u d) / 100"
proof -
  obtain sep u d where r: "v = ''R$'' @ sep # u @ CHR ''.'' # d" "amount_sep sep" "plain_units u" "two_digits d"
    "the_captured m ''1'' v = u" "the_captured m ''2'' v = d"
    by (rule v5_match [OF assms [unfolded v5_patterns] no_unit_groups(1)]) (simp only: lang_plain)
  have "reads_amount v u d" using r unfolding reads_amount_def by blast
  moreover have "cents_of u d = of_nat (amount_value u d) / 100"
    by (simp only: cents_of_two [OF r(4)] amount_value_def filter_no_mark [OF plain_units_digits [OF r(3)]])
  ultimately show thesis using that r by simp
qed

lemma brazil_original:
  assumes "re_fullmatch V5_BRAZIL_ORIGINAL_PATTERN v = Some m"
  obtains u d where "reads_amount v u d"
    and "cents_of (filter (\<lambda>c. c \<noteq> CHR ''.'') (the_captured m ''1'' v)) (the_captured m ''2'' v) =
      of_nat (amount_value u d) / 100"
proof -
  obtain sep u d where r: "v = ''R$'' @ sep # u @ CHR '','' # d" "amount_sep sep" "plain_units u \<or> grouped_units u"
    "two_digits d" "the_captured m ''1'' v = u" "the_captured m ''2'' v = d"
    by (rule v5_match [OF assms [unfolded v5_patterns] no_unit_groups(2)]) (simp only: lang_brazil_units)
  have "reads_amount v u d" using r unfolding reads_amount_def by blast
  moreover have "cents_of (filter (\<lambda>c. c \<noteq> CHR ''.'') u) d = of_nat (amount_value u d) / 100"
    by (simp only: cents_of_two [OF r(4)] amount_value_def)
  ultimately show thesis using that r by simp
qed

lemma original_matched:
  assumes "reads_amount v u d"
  shows "(\<exists>m. re_fullmatch V5_DOTTED_ORIGINAL_PATTERN v = Some m) \<or> (\<exists>m. re_fullmatch V5_BRAZIL_ORIGINAL_PATTERN v = Some m)"
  using assms
  unfolding v5_patterns v5_fullmatch_iff [OF unit_patterns_anchor_free(1)] v5_fullmatch_iff [OF unit_patterns_anchor_free(2)]
    lang_plain lang_brazil_units reads_amount_def
  by blast

lemma originals_agree:
  "parse_original_amount_v5 (Some v) = (case parse_amount v of Inl _ \<Rightarrow> None | Inr n \<Rightarrow> Some (of_nat n / 100))"
proof (cases "parse_original_amount_v5 (Some v)")
  case None
  then have "\<not> reads_amount v u d" for u d
    using original_matched [of v u d] by (auto simp: parse_original_amount_v5_def split: option.splits)
  then show ?thesis using None parse_amount_reads [of v] by (auto split: sum.splits)
next
  case (Some q)
  then consider (dotted) m where "re_fullmatch V5_DOTTED_ORIGINAL_PATTERN v = Some m"
      "q = cents_of (the_captured m ''1'' v) (the_captured m ''2'' v)"
    | (brazil) m where "re_fullmatch V5_BRAZIL_ORIGINAL_PATTERN v = Some m"
      "q = cents_of (filter (\<lambda>c. c \<noteq> CHR ''.'') (the_captured m ''1'' v)) (the_captured m ''2'' v)"
    by (auto simp: parse_original_amount_v5_def split: option.splits)
  then obtain u d where "reads_amount v u d" "q = of_nat (amount_value u d) / 100"
    by cases (auto elim: dotted_original brazil_original)
  then show ?thesis using Some reads_amount_parses by simp
qed


subsection \<open>Bands\<close>

lemma int_of_digits_bound: "list_all is_digit s \<Longrightarrow> int_of_digits s < 10 ^ length s"
proof (induction s rule: rev_induct)
  case Nil
  then show ?case by (simp add: int_of_digits_def)
next
  case (snoc c s)
  have "digit_val c < 10" using snoc.prems by (auto simp: digit_val_def is_digit_def)
  with snoc show ?case by (simp add: int_of_digits_snoc)
qed

lemma grouped_units_shape:
  assumes "grouped_units u"
  shows "length u \<le> 19" and "list_all is_digit (filter (\<lambda>x. x \<noteq> CHR ''.'') u)"
proof -
  obtain h gs where u: "u = h @ concat (map (\<lambda>g. ''.'' @ g) gs)" "list_all is_digit h" "length h \<le> 3" "length gs \<le> 4"
    "list_all (\<lambda>g. length g = 3 \<and> list_all is_digit g) gs"
    using assms by (auto simp: grouped_units_def)
  have "length (concat (map (\<lambda>g. ''.'' @ g) gs)) = 4 * length gs \<and>
      list_all is_digit (filter (\<lambda>x. x \<noteq> CHR ''.'') (concat (map (\<lambda>g. ''.'' @ g) gs)))"
    using u(5) by (induction gs) (auto simp: filter_no_mark)
  with u show "length u \<le> 19" "list_all is_digit (filter (\<lambda>x. x \<noteq> CHR ''.'') u)"
    by (auto simp: filter_no_mark)
qed

lemma amount_bound:
  assumes "parse_amount v = Inr n"
  shows "n div 100 < 10 ^ 19"
proof -
  obtain u c where r: "reads_amount v u c" "n = amount_value u c" using parse_amount_reads [OF assms] by blast
  have c: "int_of_digits c < 100" using r(1) int_of_digits_bound [of c] by (auto simp: reads_amount_def two_digits_def)
  have u: "list_all is_digit (filter (\<lambda>x. x \<noteq> CHR ''.'') u)" "length u \<le> 19"
  proof -
    have "plain_units u \<or> grouped_units u" using r(1) by (auto simp: reads_amount_def)
    moreover have "length u \<le> 19" if "plain_units u" using that by (auto simp: plain_units_def)
    ultimately show "list_all is_digit (filter (\<lambda>x. x \<noteq> CHR ''.'') u)" "length u \<le> 19"
      using grouped_units_shape plain_units_digits filter_no_mark by (metis, blast)
  qed
  have "int_of_digits (filter (\<lambda>x. x \<noteq> CHR ''.'') u) < 10 ^ length (filter (\<lambda>x. x \<noteq> CHR ''.'') u)"
    by (rule int_of_digits_bound [OF u(1)])
  also have "\<dots> \<le> 10 ^ 19"
    using le_trans [OF length_filter_le u(2)] by (intro power_increasing) simp_all
  finally show ?thesis using c r(2) by (simp add: amount_value_def)
qed

lemma band_match:
  assumes "re_fullmatch BAND_STRING_PATTERN v = Some c"
  obtains a b where "v = ''R$ '' @ a @ CHR ''-'' # b" and "a \<in> lang no_leading_zero" and "b \<in> lang no_leading_zero"
    and "the_captured c ''1'' v = a" and "the_captured c ''2'' v = b"
proof -
  have m: "(length v, c) \<in> set (matches BAND_STRING_PATTERN v 0)" by (rule fullmatch_lang [OF assms])
  have g: "groups no_leading_zero = []" by (simp add: no_leading_zero_def nonzero_digit_def at_least_def digit_def)
  have three: "0 + length ''R$ '' = 3" by simp
  note l1 = match_literal [OF m [unfolded BAND_STRING_PATTERN_def sqs.simps(2)] le0, unfolded three drop_0]
  obtain j c1 where l3: "drop 3 v = slice 3 j v @ drop j v" "j \<le> length v" "slice 3 j v \<in> lang no_leading_zero"
    "(length v, c1) \<in> set (matches (Sq (lit ''-'') (Sq (Gr ''2'' no_leading_zero) (sqs []))) v j)"
    "c = c1 @ [(''1'', (3, j))]"
    by (rule match_group [OF l1(3,2) g])
  have one: "j + length ''-'' = Suc j" by simp
  note l4 = match_literal [OF l3(4,2), unfolded one]
  obtain j' c2 where l5: "drop (Suc j) v = slice (Suc j) j' v @ drop j' v" "slice (Suc j) j' v \<in> lang no_leading_zero"
    "(length v, c2) \<in> set (matches (sqs []) v j')" "c1 = c2 @ [(''2'', (Suc j, j'))]"
    by (rule match_group [OF l4(3) _ g]) (use l4(2) in simp_all)
  have e: "length v = j'" "c2 = []" by (rule match_end [OF l5(3)])+
  show thesis
  proof (rule that [OF _ l3(3) l5(2)])
    show "v = ''R$ '' @ slice 3 j v @ CHR ''-'' # slice (Suc j) j' v"
      using l1(1) l3(1) l4(1) l5(1) e by simp
    show "the_captured c ''1'' v = slice 3 j v" "the_captured c ''2'' v = slice (Suc j) j' v"
      by (simp_all add: the_captured_def captured_def l3(5) l5(4) e(2))
  qed
qed

lemma lang_no_leading_zero:
  "w \<in> lang no_leading_zero \<longleftrightarrow> w = ''0'' \<or> w \<noteq> [] \<and> list_all is_digit w \<and> hd w \<noteq> CHR ''0''"
proof -
  have more: "v \<in> lang (at_least 0 digit) \<longleftrightarrow> list_all is_digit v" for v
    unfolding at_least_def digit_def lang_Rp_Chr by simp
  have first: "u \<in> lang nonzero_digit \<longleftrightarrow> (\<exists>c. u = [c] \<and> is_digit c \<and> c \<noteq> CHR ''0'')" for u
    by (auto simp: nonzero_digit_def)
  have "w \<in> lang (Sq nonzero_digit (at_least 0 digit)) \<longleftrightarrow> w \<noteq> [] \<and> list_all is_digit w \<and> hd w \<noteq> CHR ''0''"
    unfolding mem_Sq first more by (cases w) (auto intro: exI [of _ "[hd w]"] exI [of _ "tl w"])
  then show ?thesis unfolding no_leading_zero_def lang.simps(4) Un_iff lang_lit by auto
qed

lemma str_nat_no_leading_zero: "str_nat n \<in> lang no_leading_zero"
proof (cases "n = 0")
  case True
  have "str_nat 0 = ''0''" by code_simp
  with True show ?thesis unfolding lang_no_leading_zero by simp
next
  case False
  with hd_str_nat_zero [of n] have "hd (str_nat n) \<noteq> CHR ''0''" by blast
  then show ?thesis unfolding lang_no_leading_zero using str_nat_digits [of _ n] str_nat_nonempty [of n]
    by (auto simp: list_all_iff)
qed

lemma band_read:
  assumes "length (str_nat lower) \<le> MAX_INT_DIGITS" and "length (str_nat upper) \<le> MAX_INT_DIGITS" and "lower < upper"
  shows "parse_band_v5 (Some (''R$ '' @ str_nat lower @ ''-'' @ str_nat upper)) = Inr (Some (lower, upper))"
proof -
  let ?v = "''R$ '' @ str_nat lower @ ''-'' @ str_nat upper"
  have "anchor_free BAND_STRING_PATTERN"
    by (simp add: BAND_STRING_PATTERN_def no_leading_zero_def nonzero_digit_def at_least_def digit_def)
  moreover have "?v \<in> lang BAND_STRING_PATTERN"
    unfolding BAND_STRING_PATTERN_def sqs.simps mem_Sq lang.simps(6) lang_lit lang.simps(1)
    using str_nat_no_leading_zero by auto
  ultimately obtain c where c: "re_fullmatch BAND_STRING_PATTERN ?v = Some c" using fullmatch_iff_lang by blast
  from band_match [OF c] obtain a b where ab: "?v = ''R$ '' @ a @ CHR ''-'' # b" "a \<in> lang no_leading_zero"
    "the_captured c ''1'' ?v = a" "the_captured c ''2'' ?v = b" by blast
  have "CHR ''-'' \<notin> set a" using ab(2) not_digit_mark(3) by (auto simp: lang_no_leading_zero list_all_iff)
  with ab(1) have "a = str_nat lower" "b = str_nat upper"
    using takeWhile_upto [of "CHR ''-''" a b] takeWhile_upto [of "CHR ''-''" "str_nat lower" "str_nat upper"] str_nat_no_mark(3)
    by auto
  with ab(3,4) c assms show ?thesis
    by (simp add: parse_band_v5_def V5_BAND_PATTERN_def read_band_def int_of_numeral_def)
qed


lemma generalized_band_shape:
  assumes "category \<in> set NUMERIC_BAND_UTILITY_CATEGORIES" and "generalize category v = Inr r"
  obtains n lower upper where "parse_amount v = Inr n" and "r = ''R$ '' @ str_nat lower @ ''-'' @ str_nat upper"
    and "100 * lower \<le> n" and "n < 100 * upper" and "lower < upper"
    and "length (str_nat lower) \<le> 20" and "length (str_nat upper) \<le> 20"
proof -
  obtain w where w: "dict_get GENERALIZATION_STRATEGIES category = Some (NumericBandStrategy (of_nat w) ''R$ '')" "0 < w" "w \<le> 50000"
  proof -
    have "category = ''contract_value'' \<or> category = ''salary'' \<or> category = ''penalty_amount''"
      using assms(1) by (auto simp: NUMERIC_BAND_UTILITY_CATEGORIES_def)
    then show thesis
      using that [of 50000] that [of 5000] by (auto simp: GENERALIZATION_STRATEGIES_def dict_get_def)
  qed
  obtain n where n: "parse_amount v = Inr n" "r = band_of w n ''R$ ''"
    using assms(2) w(1) by (auto simp: generalize_Inr_iff generalize_numeric_def split: sum.splits)
  obtain lower where l: "band_of w n ''R$ '' = ''R$ '' @ str_nat lower @ ''-'' @ str_nat (lower + w)" "100 * lower \<le> n"
    "n < 100 * (lower + w)"
    by (rule band_contains [OF w(2)])
  have "lower \<le> n div 100" using l(2) by linarith
  then have "lower + w < 10 ^ 19 + 50001" using amount_bound [OF n(1)] w(3) by linarith
  also have "\<dots> < (10 :: nat) ^ 20" by simp
  finally have len0: "lower + w < 10 ^ 20" .
  show thesis
  proof (rule that [OF n(1) n(2) [unfolded l(1)] l(2,3)])
    show "lower < lower + w" using w(2) by simp
    show "length (str_nat lower) \<le> 20" "length (str_nat (lower + w)) \<le> 20"
      using length_str_nat [of lower 20] length_str_nat [of "lower + w" 20] len0 by linarith+
  qed
qed

lemma generalized_band_is_faithful:
  assumes "category \<in> set NUMERIC_BAND_UTILITY_CATEGORIES" and "generalize category v = Inr r"
  obtains n lower upper where "parse_amount v = Inr n" and "check_band_fidelity_v5 (Some v) (Some r) = Inr (Inr (lower, upper))"
    and "100 * lower \<le> n" and "n < 100 * upper"
proof -
  obtain n lower upper where n: "parse_amount v = Inr n" "r = ''R$ '' @ str_nat lower @ ''-'' @ str_nat upper"
    "100 * lower \<le> n" "n < 100 * upper" "lower < upper" "length (str_nat lower) \<le> 20" "length (str_nat upper) \<le> 20"
    by (rule generalized_band_shape [OF assms])
  have len: "length (str_nat lower) \<le> MAX_INT_DIGITS" "length (str_nat upper) \<le> MAX_INT_DIGITS"
    using n(6,7) unfolding MAX_INT_DIGITS_def by linarith+
  have band: "parse_band_v5 (Some r) = Inr (Some (lower, upper))"
    unfolding n(2) by (rule band_read [OF len n(5)])
  have "of_nat (100 * lower) \<le> (of_nat n :: rat)" "of_nat n < (of_nat (100 * upper) :: rat)"
    using n(3,4) by (simp_all only: of_nat_le_iff of_nat_less_iff)
  then have "(of_nat lower :: rat) \<le> of_nat n / 100" "of_nat n / 100 < (of_nat upper :: rat)"
    by (simp_all add: field_simps)
  then have "check_band_fidelity_v5 (Some v) (Some r) = Inr (Inr (lower, upper))"
    by (simp add: check_band_fidelity_v5_def fidelity_of_def originals_agree n(1) band)
  with that n(1,3,4) show thesis by blast
qed

subsection \<open>What a reference asks\<close>

fun holds :: "reference_operator \<Rightarrow> rat \<Rightarrow> rat \<Rightarrow> bool" where
  "holds GREATER_THAN x r \<longleftrightarrow> r < x"
| "holds GREATER_THAN_OR_EQUAL x r \<longleftrightarrow> r \<le> x"
| "holds LESS_THAN x r \<longleftrightarrow> x < r"
| "holds LESS_THAN_OR_EQUAL x r \<longleftrightarrow> x \<le> r"

definition in_band :: "nat \<Rightarrow> nat \<Rightarrow> rat \<Rightarrow> bool" where
  "in_band lower upper x \<longleftrightarrow> of_nat lower \<le> x \<and> x < of_nat upper"

lemma decided_uniform:
  assumes "reference_is_decidable operator r lower upper" and "in_band lower upper x" and "in_band lower upper y"
  shows "holds operator x r = holds operator y r"
  using assms by (cases operator) (auto simp: reference_is_decidable_def in_band_def)

lemma undecided_differs:
  assumes "\<not> reference_is_decidable operator r lower upper" and "lower < upper"
  shows "\<exists>x y. in_band lower upper x \<and> in_band lower upper y \<and> holds operator x r \<noteq> holds operator y r"
proof -
  let ?m = "(r + of_nat upper) / 2"
  have r: "of_nat lower \<le> r" "r < of_nat upper"
    using assms(1) by (auto simp: reference_is_decidable_def split: if_splits)
  then have m: "r < ?m" "?m < of_nat upper" by simp_all
  have "in_band lower upper r" "in_band lower upper ?m" "in_band lower upper (of_nat lower)"
    using r m assms(2) by (auto simp: in_band_def)
  moreover have "(holds operator r r \<noteq> holds operator ?m r) \<or> (holds operator r r \<noteq> holds operator (of_nat lower) r)"
    using assms(1) r m by (cases operator) (auto simp: reference_is_decidable_def)
  ultimately show ?thesis by blast
qed

subsection \<open>How a score comes about\<close>

lemma all_scored_Inr: "all_scored rs = Inr xs \<Longrightarrow> rs = map Inr xs"
  by (induction rs arbitrary: xs) (auto split: sum.splits)

lemma all_scored_Inl: "all_scored rs = Inl e \<Longrightarrow> Inl e \<in> set rs"
  by (induction rs) (auto split: sum.splits)

lemma combined_answerable: "combined os = Answerable \<longleftrightarrow> Not_Answerable \<notin> set os \<and> Indeterminate \<notin> set os"
  by (simp add: combined_def)

lemma date_never_answerable: "fst (classify_generalized_date original transformed ''day'') = Not_Answerable"
  by (auto simp: classify_generalized_date_def granularity_of_def granularity_rank_def DATE_GRANULARITY_ORDER_def
      dict_get_default_def dict_get_def split: option.splits transformed_date.splits)

lemma sufficiency_outcome: "fst (classify_structured_sufficiency lower upper references) \<in> {Answerable, Indeterminate}"
  by (simp add: classify_structured_sufficiency_def)

lemma fidelityE:
  assumes "check_band_fidelity_v5 original transformed = Inr (Inr (lower, upper))"
  obtains amount where "parse_original_amount_v5 original = Some amount"
    and "parse_band_v5 transformed = Inr (Some (lower, upper))" and "in_band lower upper amount"
  using assms by (auto simp: check_band_fidelity_v5_def fidelity_of_def in_band_def split: option.splits sum.splits if_splits)

lemma fidelity_verdict:
  "check_band_fidelity_v5 original transformed = Inr (Inl verdict) \<Longrightarrow> fst verdict = Not_Answerable"
  by (auto simp: check_band_fidelity_v5_def fidelity_of_def split: option.splits sum.splits if_splits)

lemma band_v5_judged:
  assumes "classify_generalized_band_against_references_v5 original transformed references = Inr (outcome, reason)"
    and "outcome \<notin> {Not_Answerable, Indeterminate}"
  obtains lower upper amount where "parse_original_amount_v5 original = Some amount"
    and "parse_band_v5 transformed = Inr (Some (lower, upper))" and "in_band lower upper amount" and "references \<noteq> []"
    and "\<And>r. r \<in> set references \<Longrightarrow> reference_is_decidable (nr_operator r) (reference_amount r) lower upper"
proof -
  obtain lower upper where f: "check_band_fidelity_v5 original transformed = Inr (Inr (lower, upper))"
    "classify_structured_sufficiency lower upper references = (outcome, reason)"
    using assms fidelity_verdict [of original transformed]
    by (force simp: classify_generalized_band_against_references_v5_def after_fidelity_def split: sum.splits)
  from f(2) assms(2) have "references \<noteq> []"
    "list_all (\<lambda>r. reference_is_decidable (nr_operator r) (reference_amount r) lower upper) references"
    by (auto simp: classify_structured_sufficiency_def split: if_splits)
  with f(1) show thesis using that by (elim fidelityE) (auto simp: list_all_iff)
qed


lemma numeric_not_date: "category \<in> set NUMERIC_BAND_UTILITY_CATEGORIES \<Longrightarrow> dict_get DATE_UTILITY_REQUIRED_GRANULARITY category = None"
  by (auto simp: NUMERIC_BAND_UTILITY_CATEGORIES_def DATE_UTILITY_REQUIRED_GRANULARITY_def dict_get_def)

lemma required_is_day: "dict_get DATE_UTILITY_REQUIRED_GRANULARITY category = Some required \<Longrightarrow> required = ''day''"
  by (auto simp: DATE_UTILITY_REQUIRED_GRANULARITY_def dict_get_def split: if_splits)

text \<open>What must have happened to a span for its answer to survive, under the current protocol.\<close>

definition answer_survives :: "case_oracle \<Rightarrow> disclosure_result \<Rightarrow> pystr \<Rightarrow> expected_span \<Rightarrow> transformation \<Rightarrow> bool" where
  "answer_survives o' res category sp t \<longleftrightarrow>
     tr_action t = PRESERVE \<or>
     tr_action t = PSEUDONYMIZE \<and> rs_reconstruction_required res \<and>
       (\<exists>e \<in> set (oc_reconstruction o'). re_category e = category \<and> re_expected_reconstructable e) \<or>
     tr_action t = GENERALIZE \<and> category \<in> set NUMERIC_BAND_UTILITY_CATEGORIES \<and>
       (\<exists>lower upper amount references.
          parse_band_v5 (tr_transformed t) = Inr (Some (lower, upper)) \<and>
          parse_original_amount_v5 (Some (xs_value sp)) = Some amount \<and> in_band lower upper amount \<and>
          oc_utility_references o' = Some references \<and> (\<exists>r \<in> set references. nr_category r = category) \<and>
          (\<forall>r \<in> set references. \<forall>x. nr_category r = category \<and> in_band lower upper x \<longrightarrow>
             holds (nr_operator r) x (reference_amount r) = holds (nr_operator r) amount (reference_amount r)))"

lemma judged_survives:
  assumes "judge_span o' res ''post-pilot-v5'' legacy category (sp, t) = Inr (outcome, reason)"
    and "outcome \<notin> {Not_Answerable, Indeterminate}"
  shows "answer_survives o' res category sp t"
proof (cases "tr_action t")
  case GENERALIZE
  then have g: "judge_generalized o' ''post-pilot-v5'' legacy category sp t = Inr (outcome, reason)"
    using assms(1) by (simp add: judge_span_def)
  have nodate: "dict_get DATE_UTILITY_REQUIRED_GRANULARITY category = None"
  proof (cases "dict_get DATE_UTILITY_REQUIRED_GRANULARITY category")
    case (Some required)
    with g have "classify_generalized_date (Some (xs_value sp)) (tr_transformed t) ''day'' = (outcome, reason)"
      using required_is_day [OF Some] by (simp add: judge_generalized_def)
    with assms(2) show ?thesis using date_never_answerable by (metis fst_conv insertI1)
  qed
  let ?refs = "filter (\<lambda>r. nr_category r = category) (the_default [] (oc_utility_references o'))"
  from g nodate assms(2) have num: "category \<in> set NUMERIC_BAND_UTILITY_CATEGORIES"
    "classify_generalized_band_against_references_v5 (Some (xs_value sp)) (tr_transformed t) ?refs = Inr (outcome, reason)"
    by (auto simp: judge_generalized_def Let_def split: if_splits)
  obtain lower upper amount where b: "parse_original_amount_v5 (Some (xs_value sp)) = Some amount"
    "parse_band_v5 (tr_transformed t) = Inr (Some (lower, upper))" "in_band lower upper amount" "?refs \<noteq> []"
    "\<And>r. r \<in> set ?refs \<Longrightarrow> reference_is_decidable (nr_operator r) (reference_amount r) lower upper"
    by (rule band_v5_judged [OF num(2) assms(2)]) blast
  obtain references where refs: "oc_utility_references o' = Some references"
    using b(4) by (cases "oc_utility_references o'") auto
  have "\<exists>r \<in> set references. nr_category r = category" using b(4) refs by (auto simp: filter_empty_conv)
  moreover have "\<forall>r \<in> set references. \<forall>x. nr_category r = category \<and> in_band lower upper x \<longrightarrow>
      holds (nr_operator r) x (reference_amount r) = holds (nr_operator r) amount (reference_amount r)"
    using decided_uniform [OF b(5) _ b(3)] refs by simp
  ultimately show ?thesis unfolding answer_survives_def using GENERALIZE num(1) b(1-3) refs by blast
qed (use assms in \<open>auto simp: judge_span_def answer_survives_def list_ex_iff split: if_splits\<close>)

lemma judged_category_survives:
  assumes "judge_category o' res ''post-pilot-v5'' legacy transformations category = Inr cu" and "cu_outcome cu = Answerable"
    and "(sp, t) \<in> set (zip (oc_expected_spans o') transformations)" and "xs_category sp = category"
  shows "\<exists>tr. t = Some tr \<and> answer_survives o' res category sp tr"
proof -
  let ?entries = "entries_of o' transformations category"
  have mem: "(sp, t) \<in> set ?entries" using assms(3,4) by (simp add: entries_of_def)
  obtain outcomes where os: "\<not> list_ex (\<lambda>(sp, t). t = None) ?entries"
    "all_scored (map (\<lambda>(sp, t). judge_span o' res ''post-pilot-v5'' legacy category (sp, the t)) ?entries) = Inr outcomes"
    "combined (map fst outcomes) = Answerable"
    using assms(1,2) by (auto simp: judge_category_def Let_def split: if_splits sum.splits)
  obtain tr where tr: "t = Some tr" using os(1) mem by (cases t) (auto simp: list_ex_iff)
  let ?judge = "\<lambda>(sp, t). judge_span o' res ''post-pilot-v5'' legacy category (sp, the t)"
  have "?judge (sp, t) \<in> set (map ?judge ?entries)" unfolding set_map using mem by (rule imageI)
  then have "judge_span o' res ''post-pilot-v5'' legacy category (sp, tr) \<in> Inr ` set outcomes"
    unfolding all_scored_Inr [OF os(2)] tr by simp
  then obtain outcome reason where o: "judge_span o' res ''post-pilot-v5'' legacy category (sp, tr) = Inr (outcome, reason)"
    "(outcome, reason) \<in> set outcomes" by auto
  have "outcome \<notin> {Not_Answerable, Indeterminate}"
    using os(3) o(2) unfolding combined_answerable by force
  from judged_survives [OF o(1) this] tr show ?thesis by blast
qed

text \<open>The score of a decision that is scored span by span.\<close>

lemma scoredE:
  assumes "score_utility case_input o' res trt protocol_id = Inr score" and "rs_status res = Allowed" and "trt \<noteq> DIRECT"
    and "\<not> oc_expected_block_request o'"
  obtains legacy where
    "map (judge_category o' res protocol_id legacy (resolve_span_transformations o' res trt))
       (the_default [] (oc_answer_depends_on_categories o')) = map Inr (us_by_category score)"
    and "us_overall score =
      (if us_by_category score = [] then Not_Applicable else combined (map cu_outcome (us_by_category score)))"
  using assms by (auto simp: score_utility_def Let_def split: sum.splits if_splits dest!: all_scored_Inr)

lemma judged_category_name:
  "judge_category o' res protocol_id legacy transformations category = Inr cu \<Longrightarrow>
     cu_category cu = category \<and> cu_outcome cu \<noteq> Not_Applicable"
  by (auto simp: judge_category_def Let_def combined_def split: if_splits sum.splits)


subsection \<open>No error after the check\<close>

lemma length_the_captured: "length (the_captured m g s) \<le> length s"
  by (cases "map_of m g") (auto simp: the_captured_def captured_def slice_def)

lemma read_band_total: "length s \<le> MAX_INT_DIGITS \<Longrightarrow> \<exists>b. read_band m s = Inr b"
  using length_the_captured [of m "''1''" s] length_the_captured [of m "''2''" s]
  by (simp add: read_band_def int_of_numeral_def)

lemma parse_band_total:
  assumes "length (the_default [] transformed) \<le> MAX_INT_DIGITS"
  shows "\<exists>b. parse_band transformed = Inr b" and "\<exists>b. parse_band_v5 transformed = Inr b"
  using assms read_band_total by (auto simp: parse_band_def parse_band_v5_def split: option.splits)

lemma fidelity_total: "\<exists>b. band = Inr b \<Longrightarrow> \<exists>f. fidelity_of original band = Inr f"
  by (auto simp: fidelity_of_def split: option.splits)

lemma after_fidelity_total: "\<exists>f. fidelity = Inr f \<Longrightarrow> \<exists>j. after_fidelity fidelity sufficiency = Inr j"
  by (auto simp: after_fidelity_def split: sum.splits)

text \<open>The only texts the scorer reads a number from are the bands of the numeric categories.\<close>

definition readable_bands :: "disclosure_result \<Rightarrow> bool" where
  "readable_bands res \<longleftrightarrow>
     (\<forall>t \<in> set (rs_transformations res). tr_action t = GENERALIZE \<and> tr_category t \<in> set NUMERIC_BAND_UTILITY_CATEGORIES \<longrightarrow>
        length (the_default [] (tr_transformed t)) \<le> MAX_INT_DIGITS)"

lemma judge_span_total:
  assumes "protocol_id \<in> set SCORABLE_PROTOCOL_IDS"
    and "tr_action t = GENERALIZE \<Longrightarrow> category \<in> set NUMERIC_BAND_UTILITY_CATEGORIES \<Longrightarrow>
      length (the_default [] (tr_transformed t)) \<le> MAX_INT_DIGITS"
  shows "\<exists>j. judge_span o' res protocol_id legacy category (sp, t) = Inr j"
proof -
  have "\<exists>j. judge_generalized o' protocol_id legacy category sp t = Inr j" if "tr_action t = GENERALIZE"
  proof (cases "category \<in> set NUMERIC_BAND_UTILITY_CATEGORIES")
    case True
    note len = assms(2) [OF that True]
    note total = fidelity_total [OF parse_band_total(1) [OF len]] fidelity_total [OF parse_band_total(2) [OF len]]
    show ?thesis
      using assms(1) total [THEN after_fidelity_total]
      by (auto simp: judge_generalized_def SCORABLE_PROTOCOL_IDS_def Let_def classify_generalized_band_def check_band_fidelity_def
          check_band_fidelity_v5_def classify_generalized_band_against_references_def
          classify_generalized_band_against_references_v5_def split: option.splits)
  next
    case False
    then show ?thesis by (auto simp: judge_generalized_def split: option.splits)
  qed
  then show ?thesis by (auto simp: judge_span_def split: disclosure_action.splits)
qed

lemma all_scored_total: "\<forall>r \<in> set rs. \<exists>x. r = Inr x \<Longrightarrow> \<exists>xs. all_scored rs = Inr xs"
  using all_scored_Inl [of rs] by (cases "all_scored rs") auto

lemma entries_matched:
  assumes "(sp, Some t) \<in> set (entries_of o' (resolve_span_transformations o' res trt) category)"
  shows "t \<in> set (rs_transformations res) \<and> tr_category t = category"
proof -
  obtain i where "i < length (oc_expected_spans o')" "resolve_span_transformations o' res trt ! i = Some t"
    "xs_category (oc_expected_spans o' ! i) = category"
    using assms by (auto simp: entries_of_def set_zip)
  with resolved_category show ?thesis by blast
qed

lemma judge_category_total:
  assumes "protocol_id \<in> set SCORABLE_PROTOCOL_IDS"
    and "readable_bands res"
  shows "\<exists>cu. judge_category o' res protocol_id legacy (resolve_span_transformations o' res trt) category = Inr cu"
proof (cases "entries_of o' (resolve_span_transformations o' res trt) category = [] \<or>
    list_ex (\<lambda>(sp, t). t = None) (entries_of o' (resolve_span_transformations o' res trt) category)")
  case False
  let ?entries = "entries_of o' (resolve_span_transformations o' res trt) category"
  have "\<exists>j. judge_span o' res protocol_id legacy category (sp, the t) = Inr j" if "(sp, t) \<in> set ?entries" for sp t
  proof -
    have "\<forall>e \<in> set ?entries. \<not> (case e of (sp, t) \<Rightarrow> t = None)" using False by (simp add: list_ex_iff)
    from bspec [OF this that] have "t \<noteq> None" by simp
    then obtain tr where "t = Some tr" by blast
    with judge_span_total [OF assms(1)] assms(2) entries_matched that show ?thesis by (auto simp: readable_bands_def)
  qed
  then have "\<exists>os. all_scored (map (\<lambda>(sp, t). judge_span o' res protocol_id legacy category (sp, the t)) ?entries) = Inr os"
    by (intro all_scored_total) auto
  with False show ?thesis by (auto simp: judge_category_def Let_def)
qed (simp add: judge_category_def)

lemma check_cases_Inr:
  "check_cases protocol_id cases = Inr u \<Longrightarrow> c \<in> set cases \<Longrightarrow> \<exists>u. check_case_protocol_compatibility (cc_oracle c) protocol_id = Inr u"
  by (induction cases) (auto split: sum.splits)

lemma check_amounts_Inr:
  "check_v5_original_amount_formats cases = Inr u \<Longrightarrow> c \<in> set cases \<Longrightarrow> sp \<in> set (oc_expected_spans (cc_oracle c)) \<Longrightarrow> v5_amount_ok sp"
  by (induction cases) (auto simp: list_all_iff split: if_splits)

lemma scorable: "validate_scorable_protocol_id protocol_id = Inr u \<Longrightarrow> protocol_id \<in> set SCORABLE_PROTOCOL_IDS"
  by (auto simp: validate_scorable_protocol_id_def split: sum.splits if_splits)

lemma numeric_generalizes:
  assumes "category \<in> set NUMERIC_BAND_UTILITY_CATEGORIES"
  shows "(\<exists>r. generalize category v = Inr r) \<longleftrightarrow> (\<exists>n. parse_amount v = Inr n)"
proof -
  obtain w where "dict_get GENERALIZATION_STRATEGIES category = Some (NumericBandStrategy w ''R$ '')"
    using assms by (auto simp: NUMERIC_BAND_UTILITY_CATEGORIES_def GENERALIZATION_STRATEGIES_def dict_get_def)
  then show ?thesis by (auto simp: generalize_Inr_iff generalize_numeric_def split: sum.splits)
qed

text \<open>A case of a corpus that passed the check.\<close>

lemma checked_case:
  assumes "check_corpus_protocol_compatibility cases protocol_id = Inr ()" and "c \<in> set cases"
  shows "validate_scorable_protocol_id protocol_id = Inr ()"
    and "check_case_protocol_compatibility (cc_oracle c) protocol_id = Inr ()"
    and "protocol_id = ''post-pilot-v5'' \<Longrightarrow> sp \<in> set (oc_expected_spans (cc_oracle c)) \<Longrightarrow> v5_amount_ok sp"
proof -
  show "validate_scorable_protocol_id protocol_id = Inr ()"
    using assms(1) by (auto simp: check_corpus_protocol_compatibility_def split: sum.splits)
  obtain u where "check_cases protocol_id cases = Inr u"
    using assms(1) by (auto simp: check_corpus_protocol_compatibility_def split: sum.splits)
  from check_cases_Inr [OF this assms(2)] show "check_case_protocol_compatibility (cc_oracle c) protocol_id = Inr ()" by simp
  show "v5_amount_ok sp" if "protocol_id = ''post-pilot-v5''" "sp \<in> set (oc_expected_spans (cc_oracle c))"
  proof -
    have "check_v5_original_amount_formats cases = Inr ()"
      using assms(1) \<open>protocol_id = ''post-pilot-v5''\<close>
      by (auto simp: check_corpus_protocol_compatibility_def split: sum.splits)
    from check_amounts_Inr [OF this assms(2) that(2)] show ?thesis .
  qed
qed

lemma checked_case_scored:
  assumes "check_corpus_protocol_compatibility cases protocol_id = Inr ()" and "c \<in> set cases"
    and "rs_status res = Allowed \<Longrightarrow> readable_bands res"
  shows "\<exists>score. score_utility (cc_input c) (cc_oracle c) res trt protocol_id = Inr score \<and>
      map cu_category (us_by_category score) =
        (if oc_expected_block_request (cc_oracle c) then []
         else the_default [] (oc_answer_depends_on_categories (cc_oracle c)))"
proof (cases "rs_status res")
  case Blocked
  then show ?thesis
    by (simp add: score_utility_def checked_case(1,2) [OF assms(1,2)] uniform_score_def comp_def Let_def)
next
  case Allowed
  let ?o = "cc_oracle c"
  let ?depends_on = "the_default [] (oc_answer_depends_on_categories ?o)"
  note p = checked_case(1) [OF assms(1,2)] and compatible = checked_case(2) [OF assms(1,2)]
  define legacy where "legacy = (if protocol_id = ''post-pilot-v3''
    then legacy_v3_reference_values (ci_text (cc_input c)) (map (\<lambda>sp. (xs_start sp, xs_end sp)) (oc_expected_spans ?o))
    else [])"
  let ?judge = "judge_category ?o res protocol_id legacy (resolve_span_transformations ?o res trt)"
  obtain scores where s: "all_scored (map ?judge ?depends_on) = Inr scores"
    using all_scored_total [of "map ?judge ?depends_on"] judge_category_total [OF scorable [OF p] assms(3) [OF Allowed]] by auto
  have "map ?judge ds = map Inr scores \<Longrightarrow> map cu_category scores = ds" for ds
    by (induction ds arbitrary: scores) (auto dest: judged_category_name)
  with all_scored_Inr [OF s] have "map cu_category scores = ?depends_on" by blast
  then show ?thesis
    by (simp add: score_utility_def p compatible Let_def legacy_def [symmetric] s uniform_score_def comp_def)
qed

subsection \<open>Properties\<close>

text \<open>
  the rule for one reference is exact. A band settles a question \<open>x > r\<close>, \<open>x >= r\<close>, \<open>x < r\<close> or \<open>x <= r\<close> according to
  the code if and only if all numbers of the half-open band give it the same answer.
\<close>

theorem references_are_decided_exactly:
  assumes "lower < upper"
  shows "reference_is_decidable operator r lower upper \<longleftrightarrow>
    (\<forall>x y. in_band lower upper x \<and> in_band lower upper y \<longrightarrow> holds operator x r = holds operator y r)"
  using decided_uniform undecided_differs [OF _ assms] by blast

theorem references_are_decided_exactly_witness:
  "reference_is_decidable LESS_THAN 5000 5000 10000 \<and> \<not> reference_is_decidable LESS_THAN_OR_EQUAL 5000 5000 10000"
proof -
  note exact = references_are_decided_exactly [of 5000 10000 _ 5000, simplified]
  show ?thesis
  proof
    show "reference_is_decidable LESS_THAN 5000 5000 10000"
      unfolding exact by (simp add: in_band_def)
    have "in_band 5000 10000 5000" "in_band 5000 10000 6000" by (simp_all add: in_band_def)
    moreover have "holds LESS_THAN_OR_EQUAL 5000 5000" "\<not> holds LESS_THAN_OR_EQUAL 6000 5000" by simp_all
    ultimately show "\<not> reference_is_decidable LESS_THAN_OR_EQUAL 5000 5000 10000"
      unfolding exact by blast
  qed
qed

text \<open>
  C38: the scorer and the treatments agree on amounts. The scorer's grammar, two patterns tried in turn, accepts exactly
  the texts that the single pattern of the treatments accepts, with the same value; so for a numeric category the treatments
  can generalize a text exactly when the scorer can score it, and the band they make of it passes the scorer's test of
  fidelity and contains the value.
\<close>

theorem scorer_agrees_with_treatments:
  assumes "category \<in> set NUMERIC_BAND_UTILITY_CATEGORIES"
  shows "(parse_original_amount_v5 (Some v) = Some q \<longleftrightarrow> (\<exists>n. parse_amount v = Inr n \<and> q = of_nat n / 100)) \<and>
    ((\<exists>r. generalize category v = Inr r) \<longleftrightarrow> parse_original_amount_v5 (Some v) \<noteq> None) \<and>
    (generalize category v = Inr r \<and> parse_original_amount_v5 (Some v) = Some q \<longrightarrow>
       (\<exists>lower upper. check_band_fidelity_v5 (Some v) (Some r) = Inr (Inr (lower, upper)) \<and> in_band lower upper q))"
proof (intro conjI impI)
  show "parse_original_amount_v5 (Some v) = Some q \<longleftrightarrow> (\<exists>n. parse_amount v = Inr n \<and> q = of_nat n / 100)"
    by (auto simp: originals_agree split: sum.splits)
  show "(\<exists>r. generalize category v = Inr r) \<longleftrightarrow> parse_original_amount_v5 (Some v) \<noteq> None"
    unfolding numeric_generalizes [OF assms] originals_agree by (cases "parse_amount v") simp_all
  assume a: "generalize category v = Inr r \<and> parse_original_amount_v5 (Some v) = Some q"
  then obtain lower upper where f: "check_band_fidelity_v5 (Some v) (Some r) = Inr (Inr (lower, upper))"
    by (auto elim: generalized_band_is_faithful [OF assms])
  then show "\<exists>lower upper. check_band_fidelity_v5 (Some v) (Some r) = Inr (Inr (lower, upper)) \<and> in_band lower upper q"
    using a by (auto elim!: fidelityE)
qed

theorem scorer_agrees_with_treatments_witness:
  "check_band_fidelity_v5 (Some ''R$ 8.500,00'') (Some ''R$ 5000-10000'') = Inr (Inr (5000, 10000))"
proof -
  have "generalize ''salary'' ''R$ 8.500,00'' = Inr ''R$ 5000-10000''" by code_simp
  moreover have "parse_amount ''R$ 8.500,00'' = Inr 850000" by code_simp
  moreover have "''salary'' \<in> set NUMERIC_BAND_UTILITY_CATEGORIES" by (simp add: NUMERIC_BAND_UTILITY_CATEGORIES_def)
  ultimately obtain lower upper where f: "check_band_fidelity_v5 (Some ''R$ 8.500,00'') (Some ''R$ 5000-10000'') = Inr (Inr (lower, upper))"
    using scorer_agrees_with_treatments [of "''salary''" "''R$ 8.500,00''" "8500" "''R$ 5000-10000''"] by fastforce
  have "parse_band_v5 (Some ''R$ 5000-10000'') = Inr (Some (5000, 10000))" by code_simp
  with f show ?thesis by (auto elim!: fidelityE)
qed


text \<open>
  C37: utility is credited only to what survives. When a decision is scored under the current protocol, a category counts
  as answerable only if every annotated span of it was matched and preserved, or pseudonymized where the answer can be
  reconstructed, or generalized to a band that contains the annotated value and, for each reference the case states for
  that category, of which there is one, gives every number of the band the answer of the value itself. So no generalized
  date counts, and the whole is answerable only if every category the answer depends on is.
\<close>

theorem utility_needs_survival:
  assumes "score_utility case_input o' res trt ''post-pilot-v5'' = Inr score" and "rs_status res = Allowed" and "trt \<noteq> DIRECT"
    and "\<not> oc_expected_block_request o'" and "us_overall score = Answerable"
    and "category \<in> set (the_default [] (oc_answer_depends_on_categories o'))"
    and "(sp, t) \<in> set (zip (oc_expected_spans o') (resolve_span_transformations o' res trt))" and "xs_category sp = category"
  shows "\<exists>tr. t = Some tr \<and> answer_survives o' res category sp tr"
proof -
  obtain legacy where s: "map (judge_category o' res ''post-pilot-v5'' legacy (resolve_span_transformations o' res trt))
       (the_default [] (oc_answer_depends_on_categories o')) = map Inr (us_by_category score)"
    "us_overall score = (if us_by_category score = [] then Not_Applicable else combined (map cu_outcome (us_by_category score)))"
    by (rule scoredE [OF assms(1-4)])
  let ?judge = "judge_category o' res ''post-pilot-v5'' legacy (resolve_span_transformations o' res trt)"
  have "?judge category \<in> set (map ?judge (the_default [] (oc_answer_depends_on_categories o')))"
    unfolding set_map using assms(6) by (rule imageI)
  then obtain cu where cu: "?judge category = Inr cu" "cu \<in> set (us_by_category score)" unfolding s(1) by auto
  have all: "combined (map cu_outcome (us_by_category score)) = Answerable"
    using assms(5) s(2) by (simp split: if_splits)
  have "cu_outcome cu = Answerable"
    using all cu(2) judged_category_name [OF cu(1)] unfolding combined_answerable
    by (cases "cu_outcome cu") (auto simp: image_iff)
  from judged_category_survives [OF cu(1) this assms(7,8)] show ?thesis .
qed

definition salary_case :: corpus_case where
  "salary_case =
     \<lparr>cc_input = sample_input,
      cc_oracle = sample_oracle
        \<lparr>oc_expected_spans := [(scored_span ''salary'' 0)\<lparr>xs_value := ''R$ 8500.00''\<rparr>],
         oc_expected_block_request := False, oc_expected_answer := Some ''yes'', oc_reconstruction := [],
         oc_answer_depends_on_categories := Some [''salary''],
         oc_utility_references :=
           Some [\<lparr>nr_category = ''salary'', nr_operator = GREATER_THAN, nr_value = ''4000.00''\<rparr>]\<rparr>\<rparr>"

definition banded_result :: disclosure_result where
  "banded_result =
     scored_result\<lparr>rs_transformations :=
       [\<lparr>tr_category = ''salary'', tr_original = ''R$ 8500.00'', tr_transformed = Some ''R$ 5000-10000'',
         tr_action = GENERALIZE\<rparr>]\<rparr>"

lemma salary_case_scored:
  "case score_utility (cc_input salary_case) (cc_oracle salary_case) banded_result STATIC_SANITIZATION ''post-pilot-v5'' of
     Inl _ \<Rightarrow> False | Inr score \<Rightarrow> us_overall score = Answerable"
  by code_simp

theorem utility_needs_survival_witness:
  "\<exists>sp tr. sp \<in> set (oc_expected_spans (cc_oracle salary_case)) \<and> tr \<in> set (rs_transformations banded_result) \<and>
     answer_survives (cc_oracle salary_case) banded_result ''salary'' sp tr"
proof -
  let ?sp = "hd (oc_expected_spans (cc_oracle salary_case))" and ?tr = "hd (rs_transformations banded_result)"
  obtain score where s: "score_utility (cc_input salary_case) (cc_oracle salary_case) banded_result STATIC_SANITIZATION
      ''post-pilot-v5'' = Inr score" "us_overall score = Answerable"
    using salary_case_scored by (auto split: sum.splits)
  have matched: "resolve_span_transformations (cc_oracle salary_case) banded_result STATIC_SANITIZATION = [Some ?tr]"
    by code_simp
  have spans: "oc_expected_spans (cc_oracle salary_case) = [?sp]" "xs_category ?sp = ''salary''"
    by (simp_all add: salary_case_def scored_span_def)
  have "(?sp, Some ?tr) \<in> set (zip (oc_expected_spans (cc_oracle salary_case))
      (resolve_span_transformations (cc_oracle salary_case) banded_result STATIC_SANITIZATION))"
    unfolding matched by (subst spans(1)) simp
  from utility_needs_survival [OF s(1) _ _ _ s(2) _ this spans(2)]
  have "answer_survives (cc_oracle salary_case) banded_result ''salary'' ?sp ?tr"
    by (simp add: salary_case_def banded_result_def scored_result_def)
  moreover have "?sp \<in> set (oc_expected_spans (cc_oracle salary_case))" "?tr \<in> set (rs_transformations banded_result)"
    by (simp_all add: salary_case_def banded_result_def)
  ultimately show ?thesis by blast
qed

text \<open>
  the check before a run is enough. When a corpus passes it for a protocol, no case of it makes the scorer raise, whatever
  decision is scored, provided that no band of a numeric category is longer than the digits \<open>int\<close> accepts; the score has one entry for
  each category the answer depends on; and under the current protocol each annotated amount is one that the treatments
  can generalize.
\<close>

theorem checked_corpora_are_scored:
  assumes "check_corpus_protocol_compatibility cases protocol_id = Inr ()" and "c \<in> set cases"
    and "readable_bands res"
  shows "(\<exists>score. score_utility (cc_input c) (cc_oracle c) res trt protocol_id = Inr score \<and>
      map cu_category (us_by_category score) =
        (if oc_expected_block_request (cc_oracle c) then []
         else the_default [] (oc_answer_depends_on_categories (cc_oracle c)))) \<and>
    (protocol_id = ''post-pilot-v5'' \<and> sp \<in> set (oc_expected_spans (cc_oracle c)) \<and>
       xs_category sp \<in> set NUMERIC_BAND_UTILITY_CATEGORIES \<longrightarrow>
     (\<exists>r. generalize (xs_category sp) (xs_value sp) = Inr r))"
proof (intro conjI impI checked_case_scored [OF assms])
  assume a: "protocol_id = ''post-pilot-v5'' \<and> sp \<in> set (oc_expected_spans (cc_oracle c)) \<and>
      xs_category sp \<in> set NUMERIC_BAND_UTILITY_CATEGORIES"
  with checked_case(3) [OF assms(1,2), of sp] have "parse_original_amount_v5 (Some (xs_value sp)) \<noteq> None"
    by (simp add: v5_amount_ok_def)
  then show "\<exists>r. generalize (xs_category sp) (xs_value sp) = Inr r"
    using a by (cases "parse_amount (xs_value sp)") (simp_all add: numeric_generalizes originals_agree)
qed

theorem checked_corpora_are_scored_witness:
  "\<exists>score. score_utility (cc_input salary_case) (cc_oracle salary_case) banded_result STATIC_SANITIZATION ''post-pilot-v4'' =
     Inr score \<and> map cu_category (us_by_category score) = [''salary'']"
proof -
  have c: "check_corpus_protocol_compatibility [salary_case] ''post-pilot-v4'' = Inr ()" by code_simp
  have "readable_bands banded_result"
    by (simp add: readable_bands_def banded_result_def MAX_INT_DIGITS_def)
  from checked_corpora_are_scored [OF c _ this, of salary_case STATIC_SANITIZATION "hd []"] show ?thesis
    by (auto simp: salary_case_def)
qed

end
