(* ===== verification/Wire.thy ===== *)
theory Wire
  imports Application_Service
begin

text \<open>
  The wire form of what the use cases return (\<open>application/wire.py\<close>): each response model is the function from the
  contract to the JSON object that \<open>model_dump\<close> of its \<open>from_domain\<close> gives, field by field in the declared order.

  The duration that the code adds to an execution, and how a number of a decoding configuration is written, are arguments.

  The lemmas show that nothing of a contract is lost on the wire and that a readiness reason is always one of the closed set.
\<close>

definition CONTRACT_VERSION :: pystr where
  "CONTRACT_VERSION = ''t20-application-api-v1''"

definition jopt :: "('a \<Rightarrow> json) \<Rightarrow> 'a option \<Rightarrow> json" where
  "jopt f x = (case x of None \<Rightarrow> JNull | Some v \<Rightarrow> f v)"

definition jnat :: "nat \<Rightarrow> json" where
  "jnat n = JInt (int n)"

subsection \<open>Health, readiness, examples, strategies\<close>

definition provider_health_model :: "service_health \<Rightarrow> json" where
  "provider_health_model h =
     JObject
       [(''provider_class'', JStr (sh_provider_class h)), (''model_id'', jopt JStr (sh_model_id h)),
        (''model_snapshot'', jopt JStr (sh_model_snapshot h)),
        (''deterministic_demo_mode'', JBool (sh_deterministic_demo_mode h))]"

definition health_response :: "service_health \<Rightarrow> json" where
  "health_response h =
     JObject
       [(''status'', JStr ''ok''), (''contract_version'', JStr CONTRACT_VERSION), (''provider'', provider_health_model h),
        (''treatments_available'', JArray (map (\<lambda>t. JStr (treatment_value t)) (sh_treatments_available h)))]"

text \<open>The values of \<open>ReadinessReason\<close>; building the model of another reason raises \<open>ValueError\<close>.\<close>

definition READINESS_REASONS :: "pystr list" where
  "READINESS_REASONS =
     [''provider_credential_missing'', ''provider_sdk_unavailable'', ''confirmation_secret_not_durable'',
      ''provider_unrecognized'']"

definition ready_response :: "bool \<times> pystr option \<Rightarrow> json result" where
  "ready_response readiness =
     (let status = (''status'', JStr (if fst readiness then ''ready'' else ''not_ready''))
      in case snd readiness of
           None \<Rightarrow> Inr (JObject [status])
         | Some reason \<Rightarrow>
             if reason \<in> set READINESS_REASONS then Inr (JObject [status, (''reason'', JStr reason)]) else Inl ValueError)"

definition example_summary_model :: "example_summary \<Rightarrow> json" where
  "example_summary_model e =
     JObject
       [(''example_id'', JStr (es_example_id e)), (''title'', JStr (es_title e)), (''domain'', JStr (es_domain e)),
        (''purpose'', JStr (es_purpose e)), (''task'', JStr (es_task e)), (''character_count'', jnat (es_character_count e))]"

definition examples_response :: "example_summary list \<Rightarrow> json" where
  "examples_response es =
     JObject [(''contract_version'', JStr CONTRACT_VERSION), (''examples'', JArray (map example_summary_model es))]"

definition strategy_info_model :: "strategy_option \<Rightarrow> json" where
  "strategy_info_model o' =
     JObject
       [(''strategy'', JStr (strategy_value (so_strategy o'))), (''treatment_code'', JStr (treatment_value (so_treatment o'))),
        (''recommended'', JBool (so_recommended o'))]"

definition strategies_response :: "strategy_option list \<Rightarrow> json" where
  "strategies_response os =
     JObject [(''contract_version'', JStr CONTRACT_VERSION), (''strategies'', JArray (map strategy_info_model os))]"

subsection \<open>What preview and execute share\<close>

fun outcome_value :: "disclosure_outcome \<Rightarrow> pystr" where
  "outcome_value REMOVED = ''removed''"
| "outcome_value PSEUDONYMIZED = ''pseudonymized''"
| "outcome_value GENERALIZED = ''generalized''"
| "outcome_value PRESERVED = ''preserved''"
| "outcome_value BLOCKED = ''blocked''"

fun status_value :: "result_status \<Rightarrow> pystr" where
  "status_value Allowed = ''allowed''"
| "status_value Blocked = ''blocked''"

definition category_summary_model :: "category_summary \<Rightarrow> json" where
  "category_summary_model c =
     JObject
       [(''category'', JStr (cs_category c)), (''outcome'', JStr (outcome_value (cs_outcome c))),
        (''action'', JStr (action_value (cs_action c))), (''crosses_trust_boundary'', JBool (cs_crosses_trust_boundary c)),
        (''occurrence_count'', jnat (cs_occurrence_count c)), (''required_for_task'', jopt JBool (cs_required_for_task c)),
        (''technical_reason'', JStr (cs_technical_reason c)), (''policy_version'', jopt JStr (cs_policy_version c)),
        (''policy_restricted'', jopt JBool (cs_policy_restricted c)),
        (''impossible_under_policy'', jopt JBool (cs_impossible_under_policy c))]"

definition disclosure_summary_model :: "disclosure_summary \<Rightarrow> json" where
  "disclosure_summary_model s =
     JObject
       [(''status'', JStr (status_value (ds_status s))), (''categories'', JArray (map category_summary_model (ds_categories s))),
        (''detected_span_count'', jnat (ds_detected_span_count s)),
        (''detected_categories'', JArray (map JStr (ds_detected_categories s)))]"

definition safe_governance_model :: "safe_governance \<Rightarrow> json" where
  "safe_governance_model g =
     JObject
       [(''domain'', JStr (sv_domain g)), (''purpose'', JStr (sv_purpose g)), (''policy_version'', JStr (sv_policy_version g)),
        (''provider_class'', JStr (sv_provider_class g)), (''requester_role'', jopt JStr (sv_requester_role g)),
        (''requested_pseudonym_scope'', JStr (scope_value (sv_requested_scope g)))]"

definition provider_mode_model :: "pystr \<Rightarrow> json" where
  "provider_mode_model provider_class = JObject [(''provider_class'', JStr provider_class)]"

definition inspection_segment_model :: "inspection_segment \<Rightarrow> json" where
  "inspection_segment_model s =
     JObject
       [(''action'', jopt (\<lambda>a. JStr (action_value a)) (sg_action s)), (''category'', jopt JStr (sg_category s)),
        (''original'', JStr (sg_original s)), (''disclosed'', JStr (sg_disclosed s))]"

fun unavailable_reason_value :: "unavailable_reason \<Rightarrow> pystr" where
  "unavailable_reason_value Decision_Blocked = ''blocked''"
| "unavailable_reason_value Alignment_Failed = ''alignment_failed''"

definition inspection_model :: "disclosure_inspection \<Rightarrow> json" where
  "inspection_model i =
     JObject
       [(''available'', JBool (in_available i)),
        (''unavailable_reason'', jopt (\<lambda>r. JStr (unavailable_reason_value r)) (in_unavailable_reason i)),
        (''segments'', JArray (map inspection_segment_model (in_segments i)))]"

subsection \<open>Preview\<close>

definition preview_fields :: "disclosure_preview \<Rightarrow> (pystr \<times> json) list" where
  "preview_fields p =
     [(''contract_version'', JStr CONTRACT_VERSION), (''summary'', disclosure_summary_model (dp_summary p)),
      (''external_payload'', JStr (dp_external_payload p)), (''payload_byte_count'', jnat (dp_payload_byte_count p)),
      (''treatment'', JStr (treatment_value (dp_treatment p))), (''strategy'', JStr (strategy_value (dp_strategy p))),
      (''governance'', safe_governance_model (dp_governance p)), (''provider_mode'', provider_mode_model (dp_provider_class p)),
      (''inspection'', jopt inspection_model (dp_inspection p)), (''vault_explorer_token'', jopt JStr (dp_vault_explorer_token p))]"

definition preview_response :: "disclosure_preview \<Rightarrow> json" where
  "preview_response p = JObject (preview_fields p)"

definition document_preview_response :: "document_preview \<Rightarrow> json" where
  "document_preview_response d =
     JObject (preview_fields (do_preview d) @ [(''confirmation_token'', JStr (do_confirmation_token d))])"

subsection \<open>Execute\<close>

definition config_json :: "(rat \<Rightarrow> json) \<Rightarrow> config_value \<Rightarrow> json" where
  "config_json number v =
     (case v of Config_Number x \<Rightarrow> number x | Config_Text s \<Rightarrow> JStr s | Config_Bool b \<Rightarrow> JBool b | Config_None \<Rightarrow> JNull)"

definition provider_stage_model :: "(rat \<Rightarrow> json) \<Rightarrow> provider_stage \<Rightarrow> json" where
  "provider_stage_model number p =
     JObject
       [(''called'', JBool (ps_called p)), (''provider_class'', jopt JStr (ps_provider_class p)),
        (''model_id'', jopt JStr (ps_model_id p)), (''model_snapshot'', jopt JStr (ps_model_snapshot p)),
        (''decoding_config'', jopt (\<lambda>d. JObject (map (\<lambda>(k, v). (k, config_json number v)) d)) (ps_decoding_config p)),
        (''transmitted_bytes'', jopt jnat (ps_transmitted_bytes p)), (''response_hash'', jopt JStr (ps_response_hash p)),
        (''failed'', JBool (ps_failed p)), (''failure_kind'', jopt JStr (ps_failure_kind p))]"

definition reconstruction_stage_model :: "reconstruction_stage \<Rightarrow> json" where
  "reconstruction_stage_model r =
     JObject
       [(''attempted'', JBool (rc_attempted r)), (''reconstructed_hash'', jopt JStr (rc_reconstructed_hash r)),
        (''changed_from_provider_response'', jopt JBool (rc_changed_from_provider_response r))]"

definition execute_response :: "(rat \<Rightarrow> json) \<Rightarrow> json \<Rightarrow> disclosure_execution \<Rightarrow> json" where
  "execute_response number total_ms e =
     JObject
       [(''contract_version'', JStr CONTRACT_VERSION), (''status'', JStr (status_value (ds_status (de_summary e)))),
        (''summary'', disclosure_summary_model (de_summary e)), (''final_answer'', jopt JStr (de_final_answer e)),
        (''provider'', provider_stage_model number (de_provider e)),
        (''reconstruction'', reconstruction_stage_model (de_reconstruction e)),
        (''treatment'', JStr (treatment_value (de_treatment e))), (''strategy'', JStr (strategy_value (de_strategy e))),
        (''governance'', safe_governance_model (de_governance e)), (''total_ms'', total_ms)]"

subsection \<open>Compare, export, restore, explore\<close>

definition comparison_entry_model :: "strategy_comparison_entry \<Rightarrow> json" where
  "comparison_entry_model e =
     JObject
       [(''strategy'', JStr (strategy_value (ce_strategy e))), (''treatment'', JStr (treatment_value (ce_treatment e))),
        (''recommended'', JBool (ce_recommended e)), (''unsafe_control_baseline'', JBool (ce_unsafe_control_baseline e)),
        (''summary'', disclosure_summary_model (ce_summary e)), (''external_payload'', JStr (ce_external_payload e)),
        (''payload_byte_count'', jnat (ce_payload_byte_count e))]"

definition compare_response :: "strategy_comparison \<Rightarrow> json" where
  "compare_response c =
     JObject
       [(''contract_version'', JStr CONTRACT_VERSION), (''entries'', JArray (map comparison_entry_model (co_entries c))),
        (''governance'', safe_governance_model (co_governance c)), (''provider_mode'', provider_mode_model (co_provider_class c))]"

definition export_response :: "disclosure_export \<Rightarrow> json" where
  "export_response x =
     JObject
       [(''contract_version'', JStr CONTRACT_VERSION), (''external_payload'', JStr (dx_external_payload x)),
        (''restore_handle'', JStr (dx_restore_handle x)), (''expires_at'', JInt (dx_expires_at x)),
        (''restorable_count'', jnat (dx_restorable_count x)), (''treatment'', JStr (treatment_value (dx_treatment x))),
        (''strategy'', JStr (strategy_value (dx_strategy x))), (''governance'', safe_governance_model (dx_governance x))]"

definition restore_response :: "disclosure_restore \<Rightarrow> json" where
  "restore_response r =
     JObject
       [(''contract_version'', JStr CONTRACT_VERSION), (''restored_text'', JStr (dt_restored_text r)),
        (''restored_count'', jnat (dt_restored_count r)), (''unresolved_count'', jnat (dt_unresolved_count r))]"

definition explorer_entry_model :: "vault_explorer_entry \<Rightarrow> json" where
  "explorer_entry_model e =
     JObject
       [(''category'', JStr (ve_category e)), (''pseudonym'', JStr (ve_pseudonym e)), (''original'', jopt JStr (ve_original e)),
        (''present'', JBool (ve_present e))]"

definition vault_explorer_response :: "vault_explorer_view \<Rightarrow> json" where
  "vault_explorer_response v =
     (let entries = map explorer_entry_model (vv_entries v) in
      JObject
        [(''contract_version'', JStr CONTRACT_VERSION), (''scope'', jopt JStr (vv_scope v)),
         (''entry_count'', jnat (length entries)), (''entries'', JArray entries)])"

definition error_response :: "pystr \<Rightarrow> pystr \<Rightarrow> json" where
  "error_response detail kind = JObject [(''detail'', JStr detail), (''kind'', JStr kind)]"


subsection \<open>Nothing is lost on the wire\<close>

named_theorems wire_inject

lemma action_value_inject [wire_inject]: "action_value x = action_value y \<longleftrightarrow> x = y"
  by (cases x; cases y; simp)

lemma scope_value_inject [wire_inject]: "scope_value x = scope_value y \<longleftrightarrow> x = y"
  by (cases x; cases y; simp)

lemma treatment_value_inject [wire_inject]: "treatment_value x = treatment_value y \<longleftrightarrow> x = y"
  by (cases x; cases y; simp)

lemma strategy_value_inject [wire_inject]: "strategy_value x = strategy_value y \<longleftrightarrow> x = y"
  by (cases x; cases y; simp)

lemma outcome_value_inject [wire_inject]: "outcome_value x = outcome_value y \<longleftrightarrow> x = y"
  by (cases x; cases y; simp)

lemma status_value_inject [wire_inject]: "status_value x = status_value y \<longleftrightarrow> x = y"
  by (cases x; cases y; simp)

lemma unavailable_reason_value_inject [wire_inject]: "unavailable_reason_value x = unavailable_reason_value y \<longleftrightarrow> x = y"
  by (cases x; cases y; simp)

lemma jnat_inject [wire_inject]: "jnat m = jnat n \<longleftrightarrow> m = n"
  by (simp add: jnat_def)

lemma jopt_inject:
  assumes "\<And>x y. f x = f y \<longleftrightarrow> x = y" and "\<And>x. f x \<noteq> JNull"
  shows "jopt f a = jopt f b \<longleftrightarrow> a = b"
  using assms(2) assms(2)[symmetric] by (auto simp: jopt_def assms(1) split: option.splits)

lemma jopt_str_inject [wire_inject]: "jopt JStr a = jopt JStr b \<longleftrightarrow> a = b"
  by (rule jopt_inject) simp_all

lemma jopt_bool_inject [wire_inject]: "jopt JBool a = jopt JBool b \<longleftrightarrow> a = b"
  by (rule jopt_inject) simp_all

lemma array_inject:
  assumes "\<And>x y. f x = f y \<longleftrightarrow> x = y"
  shows "map f xs = map f ys \<longleftrightarrow> xs = ys"
  using assms by (intro inj_map_eq_map injI) simp

lemma category_summary_inject [wire_inject]: "category_summary_model c = category_summary_model d \<longleftrightarrow> c = d"
  by (auto simp: category_summary_model_def wire_inject intro: category_summary.equality)

lemma summary_inject [wire_inject]: "disclosure_summary_model s = disclosure_summary_model t \<longleftrightarrow> s = t"
  by (auto simp: disclosure_summary_model_def wire_inject array_inject intro: disclosure_summary.equality)

lemma governance_inject [wire_inject]: "safe_governance_model g = safe_governance_model h \<longleftrightarrow> g = h"
  by (auto simp: safe_governance_model_def wire_inject intro: safe_governance.equality)

lemma provider_mode_inject [wire_inject]: "provider_mode_model p = provider_mode_model q \<longleftrightarrow> p = q"
  by (simp add: provider_mode_model_def)

lemma jopt_action_inject [wire_inject]:
  "jopt (\<lambda>a. JStr (action_value a)) a = jopt (\<lambda>a. JStr (action_value a)) b \<longleftrightarrow> a = b"
  by (rule jopt_inject) (simp_all add: wire_inject)

lemma jopt_reason_inject [wire_inject]:
  "jopt (\<lambda>r. JStr (unavailable_reason_value r)) a = jopt (\<lambda>r. JStr (unavailable_reason_value r)) b \<longleftrightarrow> a = b"
  by (rule jopt_inject) (simp_all add: wire_inject)

lemma segment_inject [wire_inject]: "inspection_segment_model s = inspection_segment_model t \<longleftrightarrow> s = t"
  by (auto simp: inspection_segment_model_def wire_inject intro: inspection_segment.equality)

lemma inspection_inject [wire_inject]: "inspection_model i = inspection_model j \<longleftrightarrow> i = j"
  by (auto simp: inspection_model_def wire_inject array_inject intro: disclosure_inspection.equality)

lemma jopt_inspection_inject [wire_inject]: "jopt inspection_model a = jopt inspection_model b \<longleftrightarrow> a = b"
  by (rule jopt_inject) (simp add: wire_inject, simp add: inspection_model_def)

lemma preview_fields_inject [wire_inject]: "preview_fields p = preview_fields q \<longleftrightarrow> p = q"
  by (auto simp: preview_fields_def wire_inject intro: disclosure_preview.equality)

lemma preview_inject [wire_inject]: "preview_response p = preview_response q \<longleftrightarrow> p = q"
  by (simp add: preview_response_def wire_inject)

lemma document_preview_inject [wire_inject]: "document_preview_response d = document_preview_response e \<longleftrightarrow> d = e"
  by (auto simp: document_preview_response_def wire_inject intro: document_preview.equality)

lemma comparison_entry_inject [wire_inject]: "comparison_entry_model a = comparison_entry_model b \<longleftrightarrow> a = b"
  by (auto simp: comparison_entry_model_def wire_inject intro: strategy_comparison_entry.equality)

lemma compare_inject [wire_inject]: "compare_response a = compare_response b \<longleftrightarrow> a = b"
  by (auto simp: compare_response_def wire_inject array_inject intro: strategy_comparison.equality)

lemma export_inject [wire_inject]: "export_response a = export_response b \<longleftrightarrow> a = b"
  by (auto simp: export_response_def wire_inject intro: disclosure_export.equality)

lemma restore_inject [wire_inject]: "restore_response a = restore_response b \<longleftrightarrow> a = b"
  by (auto simp: restore_response_def wire_inject intro: disclosure_restore.equality)

lemma explorer_entry_inject [wire_inject]: "explorer_entry_model a = explorer_entry_model b \<longleftrightarrow> a = b"
  by (auto simp: explorer_entry_model_def wire_inject intro: vault_explorer_entry.equality)

lemma explorer_inject [wire_inject]: "vault_explorer_response a = vault_explorer_response b \<longleftrightarrow> a = b"
  by (auto simp: vault_explorer_response_def Let_def wire_inject array_inject intro: vault_explorer_view.equality)

text \<open>The reason of a readiness is one of the closed set: the readiness route never raises.\<close>

lemma readiness_is_on_the_wire: "\<exists>j. ready_response (describe_readiness h svc) = Inr j"
  by (auto simp: ready_response_def describe_readiness_def provider_readiness_def anthropic_provider_readiness_def
      READINESS_REASONS_def REASON_CONFIRMATION_SECRET_NOT_DURABLE_def REASON_PROVIDER_CREDENTIAL_MISSING_def
      REASON_PROVIDER_SDK_UNAVAILABLE_def REASON_PROVIDER_UNRECOGNIZED_def Let_def
      split: provider_type.splits option.splits if_splits)

end
