(* ===== verification/Http_Api.thy ===== *)
theory Http_Api
  imports Wire Review_Surface Body_Limit
begin

text \<open>
  The HTTP adapter (\<open>api/app.py\<close>, \<open>api/schemas.py\<close>): what each route answers to a request whose body the framework has
  parsed, the handlers that turn what a use case raises into a status and a body, and the middleware that keeps answers of
  the vault explorer out of caches.

  An answer is a status and a JSON value; the rendering of JSON, the parsing of bodies and forms and the routing are the
  framework's. What the routes of an execution write for numbers of a decoding configuration and for the duration are
  arguments.

  The lemmas show which requests can be answered with an internal error, that an error body carries no content, and that a
  confirmed preview is executed over HTTP.
\<close>

subsection \<open>Representations\<close>

text \<open>\<open>repr\<close> of a text: the characters of \<open>char\<close> that are not printable are written by their code.\<close>

definition is_printable :: "char \<Rightarrow> bool" where
  "is_printable c \<longleftrightarrow> (let n = (of_char c :: nat) in 32 \<le> n \<and> n \<le> 126 \<or> 161 \<le> n \<and> n \<noteq> 173)"

definition repr_char :: "char \<Rightarrow> char \<Rightarrow> pystr" where
  "repr_char q c =
     (if c = q \<or> c = CHR 0x5C then [CHR 0x5C, c]
      else if c = CHR 0x09 then [CHR 0x5C, CHR ''t''] else if c = CHR 0x0A then [CHR 0x5C, CHR ''n'']
      else if c = CHR 0x0D then [CHR 0x5C, CHR ''r''] else if is_printable c then [c]
      else [CHR 0x5C, CHR ''x'', hex_digit (of_char c div 16), hex_digit (of_char c mod 16)])"

definition str_repr :: "pystr \<Rightarrow> pystr" where
  "str_repr s =
     (let q = (if CHR 0x27 \<in> set s \<and> CHR 0x22 \<notin> set s then CHR 0x22 else CHR 0x27)
      in [q] @ concat (map (repr_char q) s) @ [q])"

fun commas :: "pystr list \<Rightarrow> pystr" where
  "commas [] = []"
| "commas [x] = x"
| "commas (x # xs) = x @ '', '' @ commas xs"

definition list_repr :: "pystr list \<Rightarrow> pystr" where
  "list_repr xs = ''['' @ commas (map str_repr xs) @ '']''"

definition tuple_repr :: "pystr list \<Rightarrow> pystr" where
  "tuple_repr xs = (case xs of [x] \<Rightarrow> ''('' @ str_repr x @ '',)'' | _ \<Rightarrow> ''('' @ commas (map str_repr xs) @ '')'')"

subsection \<open>Messages\<close>

definition ingestion_message :: "ingestion_error \<Rightarrow> pystr" where
  "ingestion_message e =
     (let file = (\<lambda>kind ext n. kind @ '' with extension '' @ str_repr ext @ '' ('' @ str_nat n @ '' bytes)'')
      in case e of
           Empty_Direct_Text \<Rightarrow> ''direct text input is empty or whitespace-only''
         | Empty_Text_File ext n \<Rightarrow> file ''text file'' ext n @ '' is empty or whitespace-only''
         | Empty_Document ext n \<Rightarrow> file ''document file'' ext n @ '' produced no text''
         | Too_Many_Bytes kind n \<Rightarrow>
             kind @ '' input is '' @ str_nat n @ '' bytes; limit is '' @ str_nat MAX_INPUT_BYTES @ '' bytes''
         | Too_Many_Characters kind n \<Rightarrow>
             kind @ '' normalized text is '' @ str_nat n @ '' characters; limit is '' @ str_nat MAX_NORMALIZED_CHARACTERS @
             '' characters''
         | Not_UTF8 ext n \<Rightarrow> file ''file'' ext n @ '' is not valid UTF-8 text''
         | Unsupported_Extension ext n \<Rightarrow>
             ''unsupported file extension '' @ str_repr ext @ '' ('' @ str_nat n @ '' bytes); supported extensions: '' @
             tuple_repr (sorted_set (map fst TEXT_FILE_MEDIA_TYPES @ map fst DOCUMENT_FILE_MEDIA_TYPES))
         | Parser_Missing ext n \<Rightarrow> file ''document file'' ext n @ '' requires docling; install the documents extra''
         | Not_Parsed ext n \<Rightarrow> file ''document file'' ext n @ '' could not be parsed'')"


definition preset_message :: "preset_error \<Rightarrow> pystr" where
  "preset_message e =
     (case e of
        Unsupported_Document_Type \<Rightarrow>
          ''unsupported document type; supported document types: '' @ tuple_repr (sorted_set (map fst PRESETS))
      | Unsupported_Analysis_Mode modes \<Rightarrow>
          ''unsupported analysis mode for this document type; supported analysis modes: '' @ tuple_repr modes)"

subsection \<open>From what is raised to an answer\<close>

record http_answer =
  ha_status :: nat
  ha_body :: json

text \<open>\<open>_error_response\<close>, with the message and the class of the exception.\<close>

definition error_answer :: "nat \<Rightarrow> pystr \<Rightarrow> pystr \<Rightarrow> http_answer" where
  "error_answer status detail kind = \<lparr>ha_status = status, ha_body = error_response detail kind\<rparr>"

definition internal_error :: http_answer where
  "internal_error = error_answer 500 ''an unexpected error occurred'' ''InternalServerError''"

definition confirmation_rejected :: pystr where
  "confirmation_rejected = ''document preview confirmation is invalid or no longer matches this request''"

text \<open>Of an exception that has a handler: its status, its message and its class.\<close>

definition handle_error_surfaced :: "handle_error \<Rightarrow> (nat \<times> pystr \<times> pystr) option" where
  "handle_error_surfaced e =
     (case e of
        RestoreHandleExpiredError \<Rightarrow> Some (400, ''restore handle has expired'', ''RestoreHandleExpiredError'')
      | RestoreHandleInvalidError \<Rightarrow>
          Some (400, ''restore handle is invalid, malformed, or does not match this deployment's key material'',
            ''RestoreHandleInvalidError'')
      | RestoreUnavailableError \<Rightarrow>
          Some (503,
            ''ADG_RESTORE_HANDLE_SECRET is not configured; export and restore are '' @
            ''unavailable until a deployment secret is set (see .env.example)'', ''RestoreUnavailableError'')
      | _ \<Rightarrow> None)"

definition surfaced :: "service_error \<Rightarrow> (nat \<times> pystr \<times> pystr) option" where
  "surfaced e =
     (case e of
        Ingestion_Error i \<Rightarrow> Some (400, ingestion_message i, ''IngestionError'')
      | Content_Sources supplied \<Rightarrow>
          Some (400,
            ''expected exactly one content source (text, file, example_id); received '' @ str_nat (length supplied) @ '': '' @
            list_repr supplied, ''ContentSourceError'')
      | Incomplete_File_Source \<Rightarrow>
          Some (400, ''the file content source requires both filename and file_bytes'', ''ContentSourceError'')
      | Missing_Task kind \<Rightarrow> Some (400, ''no task supplied for a '' @ kind @ '' content source'', ''MissingTaskError'')
      | Preset_Error p \<Rightarrow> Some (400, preset_message p, ''DocumentAnalysisPresetError'')
      | Confirmation_Error PreviewConfirmationError \<Rightarrow> Some (400, confirmation_rejected, ''PreviewConfirmationError'')
      | Document_Needs_Confirmation \<Rightarrow>
          Some (400,
            ''a request from the structured-document surface is executed only through '' @
            ''execute_document, which verifies the confirmation issued by its preview'', ''PreviewConfirmationError'')
      | Not_A_Document_Request \<Rightarrow>
          Some (400, ''preview confirmation applies to the structured-document surface only'', ''PreviewConfirmationError'')
      | UnsafeControlExecutionError \<Rightarrow>
          Some (400,
            ''the direct/unsafe-control treatment is available for preview and strategy '' @
            ''comparison only; it is never executed against a provider outside the trust '' @
            ''boundary through the document surface'', ''UnsafeControlExecutionError'')
      | ExportRefusedError \<Rightarrow>
          Some (400,
            ''export is available only for a disclosure decision that was allowed; '' @
            ''this request's decision was blocked'', ''ExportRefusedError'')
      | Handle_Error h \<Rightarrow> handle_error_surfaced h
      | Explorer_Error VaultExplorerReferenceError \<Rightarrow>
          Some (400, ''vault explorer reference is invalid, malformed, expired, or was not issued by this process'',
            ''VaultExplorerReferenceError'')
      | Example_Not_Found i \<Rightarrow> Some (404, ''no example found with example_id='' @ str_repr i, ''ExampleNotFoundError'')
      | _ \<Rightarrow> None)"

text \<open>The registered handlers; what no other handler takes is answered by the last one.\<close>

definition handle_exception :: "service_error \<Rightarrow> http_answer" where
  "handle_exception e =
     (if e = DemoVaultExplorerDisabledError then
        \<lparr>ha_status = 404,
         ha_body = JObject [(''detail'', JStr ''not found''), (''kind'', JStr ''DemoVaultExplorerDisabled'')]\<rparr>
      else (case surfaced e of
              None \<Rightarrow> internal_error
            | Some (status, detail, kind) \<Rightarrow> error_answer status detail kind))"

text \<open>An item of the framework's validation errors: its location and type; its message and input are not copied.\<close>

datatype location_part = Loc_Name pystr | Loc_Index nat

definition validation_error_answer :: "(location_part list \<times> pystr) list \<Rightarrow> http_answer" where
  "validation_error_answer errors =
     \<lparr>ha_status = 422,
      ha_body = JObject
        [(''detail'',
          JArray (map (\<lambda>(loc, kind). JObject
            [(''loc'', JArray (map (\<lambda>p. JStr (case p of Loc_Name s \<Rightarrow> s | Loc_Index i \<Rightarrow> str_nat i)) loc)), (''type'', JStr kind),
             (''msg'', JStr ''request body failed validation'')]) errors))]\<rparr>"

definition answer :: "('a \<Rightarrow> json) \<Rightarrow> service_error + 'a \<Rightarrow> http_answer" where
  "answer view outcome = (case outcome of Inl e \<Rightarrow> handle_exception e | Inr x \<Rightarrow> \<lparr>ha_status = 200, ha_body = view x\<rparr>)"

subsection \<open>Requests\<close>

record governance_overrides_body =
  gb_purpose :: "pystr option"
  gb_requester_role :: "pystr option"
  gb_requester_id :: "pystr option"
  gb_provider_class :: "pystr option"
  gb_policy_version :: "pystr option"
  gb_requested_scope :: "pseudonym_scope option"
  gb_session_id :: "pystr option"
  gb_document_id :: "pystr option"
  gb_request_id :: "pystr option"
  gb_domain :: "pystr option"

definition to_domain :: "governance_overrides_body \<Rightarrow> governance_overrides" where
  "to_domain b =
     \<lparr>go_purpose = gb_purpose b, go_requester_role = gb_requester_role b, go_requester_id = gb_requester_id b,
      go_provider_class = gb_provider_class b, go_policy_version = gb_policy_version b,
      go_requested_scope = gb_requested_scope b, go_session_id = gb_session_id b, go_document_id = gb_document_id b,
      go_request_id = gb_request_id b, go_domain = gb_domain b\<rparr>"

record disclosure_request_body =
  db_text :: "pystr option"
  db_filename :: "pystr option"
  db_file_content :: "pystr option"
  db_example_id :: "pystr option"
  db_task :: "pystr option"
  db_strategy :: "disclosure_strategy option"
  db_governance :: "governance_overrides_body option"

definition application_request_from :: "'v service \<Rightarrow> disclosure_request_body \<Rightarrow> service_error + application_request" where
  "application_request_from svc body =
     build_application_request svc (db_text body) (db_filename body) (map_option utf8 (db_file_content body))
       (db_example_id body) (db_task body) (the_default RECOMMENDED (db_strategy body))
       (map_option to_domain (db_governance body))"

text \<open>A multipart form of the document routes.\<close>

record document_form =
  df_filename :: "pystr option"
  df_bytes :: pystr
  df_task :: pystr
  df_document_type :: pystr
  df_analysis_mode :: "pystr option"
  df_strategy :: "disclosure_strategy option"

definition document_application_request :: "'v service \<Rightarrow> document_form \<Rightarrow> service_error + application_request" where
  "document_application_request svc form =
     build_document_request svc (the_default [] (df_filename form)) (df_bytes form) (df_task form) (df_document_type form)
       (df_analysis_mode form) (the_default RECOMMENDED (df_strategy form))"

subsection \<open>Routes\<close>

definition get_health :: "'v service \<Rightarrow> http_answer" where
  "get_health svc = \<lparr>ha_status = 200, ha_body = health_response (describe_health svc)\<rparr>"

definition get_ready :: "host \<Rightarrow> 'v service \<Rightarrow> http_answer" where
  "get_ready h svc =
     (let readiness = describe_readiness h svc
      in case ready_response readiness of
           Inl _ \<Rightarrow> internal_error
         | Inr body \<Rightarrow> \<lparr>ha_status = (if fst readiness then 200 else 503), ha_body = body\<rparr>)"

definition get_examples :: "'v service \<Rightarrow> http_answer" where
  "get_examples svc = answer examples_response (list_examples svc)"

definition get_strategies :: http_answer where
  "get_strategies = \<lparr>ha_status = 200, ha_body = strategies_response list_strategy_options\<rparr>"

definition document_type_model :: "document_analysis_preset \<Rightarrow> json" where
  "document_type_model p =
     JObject
       [(''document_type'', JStr (pr_document_type p)), (''analysis_modes'', JArray (map JStr (pr_analysis_modes p))),
        (''default_analysis_mode'', JStr (default_analysis_mode p))]"

definition document_types_response :: "document_analysis_preset list \<Rightarrow> json" where
  "document_types_response ps =
     JObject [(''contract_version'', JStr CONTRACT_VERSION), (''document_types'', JArray (map document_type_model ps))]"

definition get_document_types :: http_answer where
  "get_document_types = \<lparr>ha_status = 200, ha_body = document_types_response list_document_presets\<rparr>"

definition post_preview ::
  "'k service_env \<Rightarrow> 'v service \<Rightarrow> moment \<Rightarrow> 'v \<Rightarrow> disclosure_request_body \<Rightarrow> http_answer \<times> 'v" where
  "post_preview env svc mo v body =
     (case application_request_from svc body of
        Inl e \<Rightarrow> (handle_exception e, v)
      | Inr request \<Rightarrow> apfst (answer preview_response) (preview env svc mo v request))"

definition post_compare ::
  "'k service_env \<Rightarrow> 'v service \<Rightarrow> (disclosure_strategy \<Rightarrow> moment) \<Rightarrow> 'v \<Rightarrow> disclosure_request_body \<Rightarrow> http_answer \<times> 'v" where
  "post_compare env svc mos v body =
     (case application_request_from svc body of
        Inl e \<Rightarrow> (handle_exception e, v)
      | Inr request \<Rightarrow> apfst (answer compare_response) (compare_strategies env svc mos v request))"

definition post_execute ::
  "(rat \<Rightarrow> json) \<Rightarrow> json \<Rightarrow> 'k service_env \<Rightarrow> 'v service \<Rightarrow> 'v \<Rightarrow> disclosure_request_body \<Rightarrow>
   http_answer \<times> provider_request list \<times> 'v" where
  "post_execute number total_ms env svc v body =
     (case application_request_from svc body of
        Inl e \<Rightarrow> (handle_exception e, [], v)
      | Inr request \<Rightarrow> apfst (answer (execute_response number total_ms)) (execute env svc v request))"

definition post_preview_document ::
  "'k service_env \<Rightarrow> 'v service \<Rightarrow> moment \<Rightarrow> 'v \<Rightarrow> document_form \<Rightarrow> http_answer \<times> 'v" where
  "post_preview_document env svc mo v form =
     (case document_application_request svc form of
        Inl e \<Rightarrow> (handle_exception e, v)
      | Inr request \<Rightarrow> apfst (answer document_preview_response) (preview_document env svc mo v request))"

definition post_execute_document ::
  "(rat \<Rightarrow> json) \<Rightarrow> json \<Rightarrow> 'k service_env \<Rightarrow> 'v service \<Rightarrow> moment \<Rightarrow> 'v \<Rightarrow> document_form \<Rightarrow> pystr \<Rightarrow>
   http_answer \<times> provider_request list \<times> 'v" where
  "post_execute_document number total_ms env svc mo v form confirmation_token =
     (case document_application_request svc form of
        Inl e \<Rightarrow> (handle_exception e, [], v)
      | Inr request \<Rightarrow>
          apfst (answer (execute_response number total_ms)) (execute_document env svc mo v request confirmation_token))"

definition post_export ::
  "'k service_env \<Rightarrow> 'v service \<Rightarrow> moment \<Rightarrow> 'v \<Rightarrow> document_form \<Rightarrow> http_answer \<times> 'v" where
  "post_export env svc mo v form =
     (case document_application_request svc form of
        Inl e \<Rightarrow> (handle_exception e, v)
      | Inr request \<Rightarrow> apfst (answer export_response) (export env svc mo v request))"

definition post_restore :: "'k service_env \<Rightarrow> 'v service \<Rightarrow> rat \<Rightarrow> pystr \<Rightarrow> pystr \<Rightarrow> http_answer" where
  "post_restore env svc now txt restore_handle = answer restore_response (restore env svc now txt restore_handle)"

definition post_vault_explorer :: "'k service_env \<Rightarrow> 'v service \<Rightarrow> rat \<Rightarrow> 'v \<Rightarrow> pystr \<Rightarrow> http_answer" where
  "post_vault_explorer env svc now v token = answer vault_explorer_response (explore_vault env svc now v token)"

subsection \<open>Answers of the explorer are not stored\<close>

definition VAULT_EXPLORER_PATH :: pystr where
  "VAULT_EXPLORER_PATH = ''/demo/vault-explorer''"

definition NO_STORE_HEADERS :: "(pystr \<times> pystr) list" where
  "NO_STORE_HEADERS = [(''cache-control'', ''no-store''), (''pragma'', ''no-cache'')]"

definition with_no_store :: "outgoing \<Rightarrow> outgoing" where
  "with_no_store message =
     (case message of
        Response_Start status headers \<Rightarrow>
          Response_Start status
            (filter (\<lambda>(name, _). ascii_lower name \<notin> set (map fst NO_STORE_HEADERS)) headers @ NO_STORE_HEADERS)
      | _ \<Rightarrow> message)"

text \<open>The middleware around \<open>app\<close>, which stands for everything inside of it with the server it is run on.\<close>

definition no_store ::
  "(scope \<Rightarrow> (nat \<Rightarrow> incoming) \<Rightarrow> event list \<times> outcome) \<Rightarrow> scope \<Rightarrow> (nat \<Rightarrow> incoming) \<Rightarrow> event list \<times> outcome" where
  "no_store app scope server =
     (if sc_type scope \<noteq> ''http'' \<or> sc_path scope \<noteq> VAULT_EXPLORER_PATH then app scope server
      else (case app scope server of
              (events, out) \<Rightarrow> (map (\<lambda>e. case e of Sent m \<Rightarrow> Sent (with_no_store m) | _ \<Rightarrow> e) events, out)))"

text \<open>The application with its middleware: the size limit inside \<open>cors\<close>, the framework's, inside the explorer's.\<close>

definition served ::
  "nat \<Rightarrow> ((scope \<Rightarrow> (nat \<Rightarrow> incoming) \<Rightarrow> event list \<times> outcome) \<Rightarrow> scope \<Rightarrow> (nat \<Rightarrow> incoming) \<Rightarrow> event list \<times> outcome) \<Rightarrow>
   (scope \<Rightarrow> asgi_app) \<Rightarrow> scope \<Rightarrow> (nat \<Rightarrow> incoming) \<Rightarrow> event list \<times> outcome" where
  "served max_bytes cors app = no_store (cors (size_limited max_bytes app))"

subsection \<open>What the use cases can raise over HTTP\<close>

lemma answer_status:
  "ha_status (answer view outcome) = (case outcome of Inl e \<Rightarrow> ha_status (handle_exception e) | Inr _ \<Rightarrow> 200)"
  by (simp add: answer_def split: sum.split)

lemma answer_Inr [simp]: "answer view (Inr x) = \<lparr>ha_status = 200, ha_body = view x\<rparr>"
  and answer_Inl [simp]: "answer view (Inl e) = handle_exception e"
  by (simp_all add: answer_def)

lemmas answer_defs = handle_exception_def surfaced_def handle_error_surfaced_def error_answer_def internal_error_def

lemma handled_status:
  "ha_status (handle_exception (Ingestion_Error i)) = 400" "ha_status (handle_exception (Content_Sources ss)) = 400"
  "ha_status (handle_exception Incomplete_File_Source) = 400" "ha_status (handle_exception (Missing_Task k)) = 400"
  "ha_status (handle_exception (Preset_Error p)) = 400" "ha_status (handle_exception ExportRefusedError) = 400"
  "ha_status (handle_exception (Confirmation_Error PreviewConfirmationError)) = 400"
  "ha_status (handle_exception Not_A_Document_Request) = 400" "ha_status (handle_exception Document_Needs_Confirmation) = 400"
  "ha_status (handle_exception UnsafeControlExecutionError) = 400"
  "ha_status (handle_exception (Explorer_Error VaultExplorerReferenceError)) = 400"
  "ha_status (handle_exception (Handle_Error RestoreHandleExpiredError)) = 400"
  "ha_status (handle_exception (Handle_Error RestoreHandleInvalidError)) = 400"
  "ha_status (handle_exception (Handle_Error RestoreUnavailableError)) = 503"
  "ha_status (handle_exception DemoVaultExplorerDisabledError) = 404" "ha_status (handle_exception (Example_Not_Found x)) = 404"
  "ha_status (handle_exception No_Examples_Directory) = 500" "ha_status (handle_exception (Examples_Not_Loaded f)) = 500" "ha_status (handle_exception (Core_Error c)) = 500"
  "ha_status (handle_exception (Confirmation_Error RecursionError)) = 500"
  by (simp_all add: answer_defs)

text \<open>
  A request by example on a service that has no examples: no directory is configured, or its corpus does not load when the
  request comes.
\<close>

definition no_examples_now :: "'v service \<Rightarrow> bool" where
  "no_examples_now svc \<longleftrightarrow> (case svc_examples svc of Some (Inr _) \<Rightarrow> False | _ \<Rightarrow> True)"

definition asks_absent_examples :: "'v service \<Rightarrow> disclosure_request_body \<Rightarrow> bool" where
  "asks_absent_examples svc body \<longleftrightarrow>
     no_examples_now svc \<and> db_text body = None \<and> db_filename body = None \<and> db_file_content body = None \<and>
     db_example_id body \<noteq> None"

lemma load_example_errors:
  assumes "load_example svc i = Inl e"
  shows "e = Example_Not_Found i \<and> \<not> no_examples_now svc \<or> ha_status (handle_exception e) = 500 \<and> no_examples_now svc"
  using assms by (auto simp: example_defs no_examples_now_def handled_status split: option.splits sum.splits)

lemma no_examples_fail: "no_examples_now svc \<Longrightarrow> \<exists>e. load_example svc i = Inl e \<and> ha_status (handle_exception e) = 500"
  by (auto simp: example_defs no_examples_now_def handled_status split: option.splits sum.splits)

lemma loaded_example: "load_example svc i = Inr c \<Longrightarrow> \<not> no_examples_now svc"
  using no_examples_fail [of svc i] by auto

lemma built_request_errors:
  assumes "build_application_request svc txt filename file_bytes example_id task strategy governance = Inl e"
  shows "ha_status (handle_exception e) = 400 \<or>
    txt = None \<and> filename = None \<and> file_bytes = None \<and> example_id \<noteq> None \<and>
    (e = Example_Not_Found (the example_id) \<and> \<not> no_examples_now svc \<or>
     ha_status (handle_exception e) = 500 \<and> no_examples_now svc)"
  using assms
  by (auto simp: build_application_request_def handled_status Let_def dest: load_example_errors
      split: option.splits sum.splits bool.splits)

lemma built_request_Inr:
  assumes "build_application_request svc txt filename file_bytes example_id task strategy governance = Inr request"
  shows "ap_document request = None"
    and "\<not> (no_examples_now svc \<and> txt = None \<and> filename = None \<and> file_bytes = None \<and> example_id \<noteq> None)"
  using assms
  by (auto simp: build_application_request_def Let_def dest: loaded_example split: option.splits sum.splits bool.splits)

lemma built_absent_examples:
  "no_examples_now svc \<Longrightarrow>
   \<exists>e. build_application_request svc None None None (Some i) task strategy governance = Inl e \<and>
     ha_status (handle_exception e) = 500"
  using no_examples_fail [of svc i] by (auto simp: build_application_request_def)

lemma document_request_errors:
  assumes "document_application_request svc form = Inl e"
  shows "ha_status (handle_exception e) = 400"
proof -
  have "ha_status (handle_exception e') = 400"
    if "build_application_request svc None (Some n) (Some b) None (Some t) s g = Inl e'" for n b t s g e'
    using built_request_errors [OF that] by simp
  then show ?thesis
    using assms by (auto simp: document_application_request_def build_document_request_def handled_status split: sum.splits)
qed

lemma document_requests_are_documents:
  "document_application_request svc form = Inr request \<Longrightarrow> ap_document request \<noteq> None"
  by (auto simp: document_application_request_def build_document_request_def split: sum.splits)

lemma preview_returns:
  assumes "runs_in_memory svc" and "vault_inv v"
  obtains pv v' where "preview env svc mo v request = (Inr pv, v')"
proof -
  obtain decision v' where d: "svc_decide svc v request = Inr (decision, v')" "resolved (dd_result decision)"
    by (rule decide_service [OF assms])
  show thesis
    by (rule preview_of_returns [OF d(2)]) (auto simp: preview_def d(1) intro: that)
qed

lemma compare_returns:
  assumes "runs_in_memory svc" and "vault_inv v"
  obtains c v' where "compare_strategies env svc mos v request = (Inr c, v')"
proof -
  obtain entries v' where "compare_loop env svc mos v request CANONICAL_COMPARISON_ORDER = (Inr entries, v')"
    using compare_loop_returns [OF assms] by blast
  then show thesis using that by (simp add: compare_strategies_def)
qed

lemma execute_returns:
  assumes "runs_in_memory svc" and "vault_inv v" and "ap_document request = None"
  obtains out sent v' where "execute env svc v request = (Inr out, sent, v')"
proof -
  obtain decision v' where d: "svc_decide svc v request = Inr (decision, v')" "resolved (dd_result decision)"
    by (rule decide_service [OF assms(1,2)])
  obtain execution sent where e: "execute_disclosure_decision (en_audit_hmac env) (en_audit_key env) (svc_build_treatment svc request)
       v' (build_disclosure_request svc request) (svc_provider svc) decision DEFAULT_TIMEOUT_SECONDS False = (execution, sent)"
    by force
  obtain out where "execution_of svc request execution = Inr out"
    using execution_of_resolved [of execution svc request] d(2) execute_carries(1) [OF e] by auto
  then show thesis
    using that d(1) e assms(3) by (simp add: execute_def execute_unchecked_def run_disclosure_case_def svc_decide_def)
qed

lemma execute_document_errors:
  assumes "runs_in_memory svc" and "vault_inv v" and "ap_document request \<noteq> None"
    and "execute_document env svc mo v request token = (Inl e, sent, v')"
  shows "e = Confirmation_Error PreviewConfirmationError \<or> e = UnsafeControlExecutionError \<or>
    e = Confirmation_Error RecursionError \<and> parse_token (en_depth env) token = Inl RecursionError" (is ?known)
    and "sent = []"
proof -
  obtain decision v' where d: "svc_decide svc v request = Inr (decision, v')" "resolved (dd_result decision)"
    by (rule decide_service [OF assms(1,2)])
  obtain pv where pv: "preview_of env svc mo v' request decision False False = Inr pv"
    by (rule preview_of_returns [OF d(2)])
  obtain st where st: "state_for_approval env svc mo v request = Inr st"
    using d(1) pv assms(3) by (auto simp: state_for_approval_def confirmation_state_of_def Let_def)
  have returns: "\<exists>out. execution_of svc request execution = Inr out"
    if "execute_disclosure_decision (en_audit_hmac env) (en_audit_key env) (svc_build_treatment svc request)
       v' (build_disclosure_request svc request) (svc_provider svc) decision DEFAULT_TIMEOUT_SECONDS False = (execution, sent)"
    for execution sent
    using execution_of_resolved [of execution svc request] d(2) execute_carries(1) [OF that] by auto
  have "e' = PreviewConfirmationError \<or> e' = RecursionError \<and> parse_token (en_depth env) token = Inl RecursionError"
    if "verify (en_mac env) (svc_signer svc) (en_depth env) (mo_now mo) token st = Inl e'" for e'
    using that parse_token_errors [of "en_depth env" token] by (auto simp: verify_def split: sum.splits if_splits option.splits)
  then show ?known and "sent = []"
    using assms(4) d(1) st returns
    by (fastforce simp: execute_document_eq refuse_unsafe_control_def split: sum.splits option.splits prod.splits if_splits)+
qed

lemma export_errors:
  assumes "runs_in_memory svc" and "vault_inv v" and "export env svc mo v request = (Inl e, v')"
  shows "e = ExportRefusedError \<or> e = Handle_Error RestoreUnavailableError"
proof -
  obtain decision v' where d: "svc_decide svc v request = Inr (decision, v')" "resolved (dd_result decision)"
    by (rule decide_service [OF assms(1,2)])
  obtain pv where pv: "preview_of env svc mo v' request decision False False = Inr pv"
    by (rule preview_of_returns [OF d(2)])
  show ?thesis
    using assms(3) d(1) pv
    by (auto simp: export_def issue_handle_def require_configured_def Let_def split: if_splits sum.splits option.splits)
qed

text \<open>Of the sealed tokens, only a plaintext that was sealed under the key of the deployment gets as far as being parsed.\<close>

lemma restore_errors:
  assumes "restore env svc now txt handle = Inl e"
  shows "ha_status (handle_exception e) \<in> {400, 503} \<or>
    (\<exists>key. rs_key (svc_sealer svc) = Some key \<and> unseal (en_aead env) HANDLE_PREFIX AAD key handle \<noteq> None)"
  using assms
  by (auto simp: restore_def open_handle_def handled_status require_configured_def
      split: sum.splits option.splits if_splits prod.splits)

lemma explore_errors:
  assumes "explore_vault env svc now v token = Inl e"
  shows "ha_status (handle_exception e) \<in> {400, 404} \<or>
    unseal (en_aead env) VX_PREFIX VX_AAD (svc_explorer_key svc) token \<noteq> None"
  using assms
  by (auto simp: explore_vault_def explore_def open_reference_def handled_status
      split: sum.splits option.splits if_splits prod.splits)

text \<open>The status of the routes that take JSON is decided by the request; those that take a form by the use case.\<close>

definition request_status :: "'v service \<Rightarrow> disclosure_request_body \<Rightarrow> nat" where
  "request_status svc body =
     (case application_request_from svc body of Inl e \<Rightarrow> ha_status (handle_exception e) | Inr _ \<Rightarrow> 200)"

lemma json_route_status:
  assumes "runs_in_memory svc" and "vault_inv v"
  shows "ha_status (fst (post_preview env svc mo v body)) = request_status svc body"
    and "ha_status (fst (post_compare env svc mos v body)) = request_status svc body"
    and "ha_status (fst (post_execute number ms env svc v body)) = request_status svc body"
    and "ha_status (fst (post_execute number ms env svc v body)) = 200 \<or> fst (snd (post_execute number ms env svc v body)) = []"
proof -
  have "ha_status (fst (post_preview env svc mo v body)) = request_status svc body \<and>
      ha_status (fst (post_compare env svc mos v body)) = request_status svc body \<and>
      ha_status (fst (post_execute number ms env svc v body)) = request_status svc body \<and>
      (ha_status (fst (post_execute number ms env svc v body)) = 200 \<or> fst (snd (post_execute number ms env svc v body)) = [])"
  proof (cases "application_request_from svc body")
    case (Inl e)
    then show ?thesis by (simp add: post_preview_def post_compare_def post_execute_def request_status_def)
  next
    case (Inr request)
    have "ap_document request = None"
      using built_request_Inr(1) Inr by (fastforce simp: application_request_from_def)
    obtain out sent v1 where x: "execute env svc v request = (Inr out, sent, v1)"
      by (rule execute_returns [OF assms \<open>ap_document request = None\<close>])
    obtain pv v2 where p: "preview env svc mo v request = (Inr pv, v2)" by (rule preview_returns [OF assms])
    obtain c v3 where c: "compare_strategies env svc mos v request = (Inr c, v3)" by (rule compare_returns [OF assms])
    show ?thesis by (simp add: post_preview_def post_compare_def post_execute_def request_status_def Inr x p c)
  qed
  then show "ha_status (fst (post_preview env svc mo v body)) = request_status svc body"
    and "ha_status (fst (post_compare env svc mos v body)) = request_status svc body"
    and "ha_status (fst (post_execute number ms env svc v body)) = request_status svc body"
    and "ha_status (fst (post_execute number ms env svc v body)) = 200 \<or> fst (snd (post_execute number ms env svc v body)) = []"
    by blast+
qed

lemma request_status_cases:
  "request_status svc body = 200 \<longleftrightarrow> (\<exists>r. application_request_from svc body = Inr r)"
  "request_status svc body = 500 \<longleftrightarrow> asks_absent_examples svc body"
  "request_status svc body \<in> {200, 400, 404, 500}"
proof -
  have refused: "ha_status (handle_exception e) = 400 \<or> ha_status (handle_exception e) = 404 \<or>
      ha_status (handle_exception e) = 500 \<and> asks_absent_examples svc body"
    if "application_request_from svc body = Inl e" for e
    using built_request_errors [OF that [unfolded application_request_from_def]]
    by (auto simp: handled_status asks_absent_examples_def)
  have absent: "\<exists>e. application_request_from svc body = Inl e \<and> ha_status (handle_exception e) = 500"
    if "asks_absent_examples svc body"
    using that built_absent_examples by (auto simp: asks_absent_examples_def application_request_from_def)
  show "request_status svc body = 200 \<longleftrightarrow> (\<exists>r. application_request_from svc body = Inr r)"
    and "request_status svc body \<in> {200, 400, 404, 500}"
    using refused by (auto simp: request_status_def split: sum.split)
  show "request_status svc body = 500 \<longleftrightarrow> asks_absent_examples svc body"
    using refused absent by (auto simp: request_status_def handled_status split: sum.split)
qed

lemma examples_status:
  "ha_status (get_examples svc) = (if no_examples_now svc then 500 else 200)"
  by (auto simp: get_examples_def example_defs no_examples_now_def answer_status handled_status
      split: option.split sum.split)

lemma form_route_status:
  assumes "runs_in_memory svc" and "vault_inv v"
  shows "ha_status (fst (post_preview_document env svc mo v form)) \<in> {200, 400}"
    and "ha_status (fst (post_export env svc mo v form)) \<in> {200, 400, 503}"
    and "post_execute_document number ms env svc mo v form token = (a, sent, v') \<Longrightarrow> (ha_status a = 200 \<or> sent = []) \<and>
      (ha_status a \<in> {200, 400} \<or> ha_status a = 500 \<and> parse_token (en_depth env) token = Inl RecursionError)"
proof -
  show "ha_status (fst (post_preview_document env svc mo v form)) \<in> {200, 400}"
  proof (cases "document_application_request svc form")
    case (Inr request)
    obtain pd v' where "preview_document env svc mo v request = (Inr pd, v')"
      by (rule preview_document_returns [OF assms document_requests_are_documents [OF Inr]])
    then show ?thesis by (simp add: post_preview_document_def Inr)
  qed (simp add: post_preview_document_def document_request_errors)
  show "ha_status (fst (post_export env svc mo v form)) \<in> {200, 400, 503}"
  proof (cases "document_application_request svc form")
    case (Inr request)
    show ?thesis
    proof (cases "export env svc mo v request")
      case (Pair outcome v')
      then show ?thesis
        using export_errors [OF assms, of env mo request] by (cases outcome) (auto simp: post_export_def Inr handled_status)
    qed
  qed (simp add: post_export_def document_request_errors)
  show "(ha_status a = 200 \<or> sent = []) \<and>
      (ha_status a \<in> {200, 400} \<or> ha_status a = 500 \<and> parse_token (en_depth env) token = Inl RecursionError)"
    if run: "post_execute_document number ms env svc mo v form token = (a, sent, v')"
  proof (cases "document_application_request svc form")
    case (Inr request)
    obtain outcome where e: "execute_document env svc mo v request token = (outcome, sent, v')"
        "a = answer (execute_response number ms) outcome"
      using run by (cases "execute_document env svc mo v request token") (auto simp: post_execute_document_def Inr)
    show ?thesis
    proof (cases outcome)
      case (Inl e')
      show ?thesis
        using execute_document_errors [OF assms document_requests_are_documents [OF Inr] e(1) [unfolded Inl]] e(2)
        by (auto simp: Inl handled_status)
    qed (simp add: e(2))
  qed (use run document_request_errors in \<open>auto simp: post_execute_document_def\<close>)
qed

subsection \<open>Properties\<close>

text \<open>
  C3: Over the in-memory vault, in a state that satisfies its invariant, an internal error is never the answer to what a caller sent, but for three cases: a request for
  or by example on a service that has no examples then (no directory is configured, or its corpus does not load: each
  request loads it again), a confirmation token whose claims nest too deep to be parsed, and a token that the
  deployment itself sealed. Every content that is accepted is answered with 200, whether the disclosure is allowed or
  blocked and whether the provider answers or fails, and a request that is refused has sent nothing to the provider.
\<close>

theorem internal_errors_are_known:
  assumes "runs_in_memory svc" and "vault_inv v"
  shows "(ha_status (fst (post_preview env svc mo v body)) = 200 \<longleftrightarrow> (\<exists>r. application_request_from svc body = Inr r)) \<and>
    (ha_status (fst (post_preview env svc mo v body)) = 500 \<longleftrightarrow> asks_absent_examples svc body) \<and>
    ha_status (get_examples svc) = (if no_examples_now svc then 500 else 200) \<and>
    ha_status (fst (post_compare env svc mos v body)) = ha_status (fst (post_preview env svc mo v body)) \<and>
    ha_status (fst (post_execute number ms env svc v body)) = ha_status (fst (post_preview env svc mo v body)) \<and>
    (ha_status (fst (post_execute number ms env svc v body)) = 200 \<or> fst (snd (post_execute number ms env svc v body)) = []) \<and>
    ha_status (fst (post_preview_document env svc mo v form)) \<in> {200, 400} \<and>
    ha_status (fst (post_export env svc mo v form)) \<in> {200, 400, 503} \<and>
    (case post_execute_document number ms env svc mo v form token of
       (a, sent, _) \<Rightarrow> (ha_status a = 200 \<or> sent = []) \<and>
         (ha_status a \<in> {200, 400} \<or> ha_status a = 500 \<and> parse_token (en_depth env) token = Inl RecursionError)) \<and>
    (ha_status (post_restore env svc now t token) \<in> {200, 400, 503} \<or>
       (\<exists>key. rs_key (svc_sealer svc) = Some key \<and> unseal (en_aead env) HANDLE_PREFIX AAD key token \<noteq> None)) \<and>
    (ha_status (post_vault_explorer env svc now v token) \<in> {200, 400, 404} \<or>
       unseal (en_aead env) VX_PREFIX VX_AAD (svc_explorer_key svc) token \<noteq> None)"
proof (intro conjI)
  show "case post_execute_document number ms env svc mo v form token of
       (a, sent, _) \<Rightarrow> (ha_status a = 200 \<or> sent = []) \<and>
         (ha_status a \<in> {200, 400} \<or> ha_status a = 500 \<and> parse_token (en_depth env) token = Inl RecursionError)"
    using form_route_status(3) [OF assms, of number ms env mo form token] by (auto split: prod.split)
  show "ha_status (post_restore env svc now t token) \<in> {200, 400, 503} \<or>
       (\<exists>key. rs_key (svc_sealer svc) = Some key \<and> unseal (en_aead env) HANDLE_PREFIX AAD key token \<noteq> None)"
    using restore_errors [of env svc now t token] by (auto simp: post_restore_def answer_status split: sum.split)
  show "ha_status (post_vault_explorer env svc now v token) \<in> {200, 400, 404} \<or>
       unseal (en_aead env) VX_PREFIX VX_AAD (svc_explorer_key svc) token \<noteq> None"
    using explore_errors [of env svc now v token] by (auto simp: post_vault_explorer_def answer_status split: sum.split)
  show "ha_status (fst (post_preview env svc mo v body)) = 200 \<longleftrightarrow> (\<exists>r. application_request_from svc body = Inr r)"
    and "ha_status (fst (post_preview env svc mo v body)) = 500 \<longleftrightarrow> asks_absent_examples svc body"
    by (simp_all only: json_route_status(1) [OF assms] request_status_cases)
  show "ha_status (fst (post_compare env svc mos v body)) = ha_status (fst (post_preview env svc mo v body))"
    and "ha_status (fst (post_execute number ms env svc v body)) = ha_status (fst (post_preview env svc mo v body))"
    by (simp_all only: json_route_status(1-3) [OF assms])
qed (rule json_route_status(4) [OF assms] form_route_status(1,2) [OF assms] examples_status)+

definition example_body :: disclosure_request_body where
  "example_body =
     \<lparr>db_text = None, db_filename = None, db_file_content = None, db_example_id = Some ''hr-1'', db_task = None,
      db_strategy = None, db_governance = None\<rparr>"

theorem internal_errors_are_known_witness:
  "ha_status (fst (post_preview sample_env sample_service sample_moment (new_vault str_nat) example_body)) = 500 \<and>
   ha_status (fst (post_preview sample_env sample_service sample_moment (new_vault str_nat)
     (example_body\<lparr>db_example_id := None, db_text := Some ''id 7'', db_task := Some ''sum up''\<rparr>))) = 200"
proof -
  note known = internal_errors_are_known [OF sample_service_runs vault_inv_new]
  have "asks_absent_examples sample_service example_body"
    by (simp add: asks_absent_examples_def no_examples_now_def sample_service_def example_body_def)
  moreover have "case application_request_from sample_service
      (example_body\<lparr>db_example_id := None, db_text := Some ''id 7'', db_task := Some ''sum up''\<rparr>) of Inl _ \<Rightarrow> False | Inr _ \<Rightarrow> True"
    by code_simp
  then have "\<exists>r. application_request_from sample_service
      (example_body\<lparr>db_example_id := None, db_text := Some ''id 7'', db_task := Some ''sum up''\<rparr>) = Inr r"
    by (auto split: sum.splits)
  ultimately show ?thesis using known by blast
qed

text \<open>What a client reads of an answer.\<close>

definition member :: "json \<Rightarrow> pystr \<Rightarrow> json option" where
  "member j name = (case j of JObject kvs \<Rightarrow> dict_get kvs name | _ \<Rightarrow> None)"

fun path :: "json \<Rightarrow> pystr list \<Rightarrow> json option" where
  "path j [] = Some j"
| "path j (name # names) = (case member j name of None \<Rightarrow> None | Some j' \<Rightarrow> path j' names)"

lemma member_object [simp]: "member (JObject kvs) name = dict_get kvs name"
  by (simp add: member_def)

lemma shown_on_the_wire:
  "path (document_preview_response pd) [''confirmation_token''] = Some (JStr (do_confirmation_token pd))"
  "path (document_preview_response pd) [''external_payload''] = Some (JStr (dp_external_payload (do_preview pd)))"
  "path (document_preview_response pd) [''treatment''] = Some (JStr (treatment_value (dp_treatment (do_preview pd))))"
  "path (document_preview_response pd) [''summary'', ''status''] = Some (JStr (status_value (ds_status (dp_summary (do_preview pd)))))"
  "path (document_preview_response pd) [''governance'', ''provider_class''] = Some (JStr (sv_provider_class (dp_governance (do_preview pd))))"
  "path (document_preview_response pd) [''provider_mode'', ''provider_class''] = Some (JStr (dp_provider_class (do_preview pd)))"
  by (simp_all add: document_preview_response_def preview_fields_def disclosure_summary_model_def safe_governance_model_def
      provider_mode_model_def dict_get_def)

lemma previewed_fields:
  assumes "preview_document env svc mo v request = (Inr pd, v')"
  shows "dp_treatment (do_preview pd) = resolve_treatment (ap_strategy request)"
    and "sv_provider_class (dp_governance (do_preview pd)) = ctx_provider_class (svc_context svc request)"
    and "dp_provider_class (do_preview pd) = pv_class (svc_provider svc)"
  using assms
  by (auto simp: preview_document_def preview_def preview_of_def safe_governance_view_def Let_def
      split: sum.splits prod.splits)

lemma document_request_task: "document_application_request svc form = Inr request \<Longrightarrow> ap_task request = df_task form"
  by (auto simp: document_application_request_def build_document_request_def build_application_request_def Let_def
      split: sum.splits option.splits)

text \<open>
  C2: The confirmed flow over HTTP. Suppose the preview of an upload was answered with a body that shows an allowed
  decision, the same provider class in the governance as in the provider mode, and not the unsafe control outside the process.
  Posting the same form with the token of that body, in time and whatever the vault issued meanwhile, submits to the provider
  exactly the payload of that body with the task of the form, and is answered with 200.
\<close>

theorem http_confirmation_executes:
  assumes "runs_in_memory svc" and "vault_inv v" and "post_preview_document env svc mo v form = (a, v1)" and "ha_status a = 200"
    and "path (ha_body a) [''confirmation_token''] = Some (JStr token)"
    and "path (ha_body a) [''external_payload''] = Some (JStr payload)"
    and "path (ha_body a) [''summary'', ''status''] = Some (JStr ''allowed'')"
    and "path (ha_body a) [''governance'', ''provider_class''] = Some (JStr provider_class)"
    and "path (ha_body a) [''provider_mode'', ''provider_class''] = Some (JStr provider_class)"
    and "path (ha_body a) [''treatment''] \<noteq> Some (JStr ''b0'') \<or> provider_class = DEFAULT_PROVIDER_NAME"
    and "vault_step\<^sup>*\<^sup>* v1 v2" and "1 \<le> en_depth env" and "timestamps_fit (svc_signer svc) (mo_now mo)"
    and "mo_now mo' \<le> of_int (trunc (mo_now mo) + sg_ttl_seconds (svc_signer svc))"
  shows "\<exists>a' v3. post_execute_document number ms env svc mo' v2 form token =
    (a', [\<lparr>pq_payload = payload, pq_task = df_task form\<rparr>], v3) \<and> ha_status a' = 200 \<and>
    path (ha_body a') [''provider'', ''called''] = Some (JBool True)"
proof -
  have not_ok: "ha_status (handle_exception e) \<noteq> 200" for e
    by (cases e) (simp_all add: answer_defs split: handle_error.split confirmation_error.split explorer_error.split)
  obtain request pd where request: "document_application_request svc form = Inr request"
    and pd: "preview_document env svc mo v request = (Inr pd, v1)" "a = \<lparr>ha_status = 200, ha_body = document_preview_response pd\<rparr>"
    using assms(3,4) not_ok by (auto simp: post_preview_document_def apfst_def map_prod_def answer_def split: sum.splits prod.splits)
  note shown = assms(5-10) [unfolded pd(2) http_answer.select_convs shown_on_the_wire]
  have "\<exists>out v3. execute_document env svc mo' v2 request (do_confirmation_token pd) =
      (Inr out, [\<lparr>pq_payload = dp_external_payload (do_preview pd), pq_task = ap_task request\<rparr>], v3) \<and> ps_called (de_provider out)"
  proof (rule confirmed_executes [OF assms(1,2) pd(1) assms(11-14)])
    show "ds_status (dp_summary (do_preview pd)) = Allowed"
      using shown(3) by (cases "ds_status (dp_summary (do_preview pd))") simp_all
    show "pv_class (svc_provider svc) = ctx_provider_class (svc_context svc request)"
      using shown(4,5) previewed_fields(2,3) [OF pd(1)] by simp
    show "pv_class (svc_provider svc) = DEFAULT_PROVIDER_NAME" if "resolve_treatment (ap_strategy request) = DIRECT"
      using shown(5,6) previewed_fields(1,3) [OF pd(1)] that by simp
  qed
  then show ?thesis
    using shown(1,2) document_request_task [OF request]
    by (auto simp: post_execute_document_def request execute_response_def provider_stage_model_def dict_get_def)
qed

definition sample_form :: document_form where
  "sample_form =
     \<lparr>df_filename = Some ''note.txt'', df_bytes = ''id 7'', df_task = ''sum up'', df_document_type = ''hr_record'',
      df_analysis_mode = None, df_strategy = Some S_B2\<rparr>"

lemma sample_form_allowed:
  obtains request decision v' where "document_application_request sample_service sample_form = Inr request"
    and "svc_decide sample_service (new_vault str_nat) request = Inr (decision, v')"
    and "rs_status (dd_result decision) = Allowed" and "rs_external_payload (dd_result decision) = ''id PSEUDO-cpf-0''"
    and "ctx_provider_class (svc_context sample_service request) = ''fake''"
proof -
  have "case document_application_request sample_service sample_form of
      Inl _ \<Rightarrow> False
    | Inr request \<Rightarrow> ctx_provider_class (svc_context sample_service request) = ''fake'' \<and>
        (case svc_decide sample_service (new_vault str_nat) request of
           Inl _ \<Rightarrow> False
         | Inr (decision, v') \<Rightarrow> rs_status (dd_result decision) = Allowed \<and>
             rs_external_payload (dd_result decision) = ''id PSEUDO-cpf-0'')"
    by code_simp
  then show thesis by (auto split: sum.splits intro: that)
qed

theorem http_confirmation_executes_witness:
  "\<exists>a v1 token a' v3.
     post_preview_document sample_env sample_service sample_moment (new_vault str_nat) sample_form = (a, v1) \<and>
     path (ha_body a) [''confirmation_token''] = Some (JStr token) \<and>
     post_execute_document (\<lambda>_. JNull) JNull sample_env sample_service sample_moment v1 sample_form token =
       (a', [\<lparr>pq_payload = ''id PSEUDO-cpf-0'', pq_task = ''sum up''\<rparr>], v3) \<and> ha_status a' = 200"
proof (rule sample_form_allowed)
  fix request decision v'
  assume r: "document_application_request sample_service sample_form = Inr request"
    "svc_decide sample_service (new_vault str_nat) request = Inr (decision, v')"
    "rs_status (dd_result decision) = Allowed" "rs_external_payload (dd_result decision) = ''id PSEUDO-cpf-0''"
    "ctx_provider_class (svc_context sample_service request) = ''fake''"
  obtain pd v1 where pd: "preview_document sample_env sample_service sample_moment (new_vault str_nat) request = (Inr pd, v1)"
    by (rule preview_document_returns [OF sample_service_runs vault_inv_new document_requests_are_documents [OF r(1)]])
  have allowed: "ds_status (dp_summary (do_preview pd)) = Allowed \<and> dp_external_payload (do_preview pd) = ''id PSEUDO-cpf-0''"
    by (rule preview_document_token [OF pd]) (use r(2-4) in auto)
  have same_class: "sv_provider_class (dp_governance (do_preview pd)) = ''fake''" "dp_provider_class (do_preview pd) = ''fake''"
    using previewed_fields(2,3) [OF pd] r(5) by (simp_all add: sample_service_def fake_provider_def)
  let ?a = "\<lparr>ha_status = 200, ha_body = document_preview_response pd\<rparr>"
  have p: "post_preview_document sample_env sample_service sample_moment (new_vault str_nat) sample_form = (?a, v1)"
    by (simp add: post_preview_document_def r(1) pd)
  have in_time: "mo_now sample_moment \<le> of_int (trunc (mo_now sample_moment) + sg_ttl_seconds (svc_signer sample_service))"
    by (simp add: sample_moment_def sample_service_def sample_signer_def trunc_def DEFAULT_CONFIRMATION_TTL_SECONDS_def)
  have depth: "1 \<le> en_depth sample_env" by (simp add: sample_env_def)
  have ok: "ha_status ?a = 200"
    "path (ha_body ?a) [''confirmation_token''] = Some (JStr (do_confirmation_token pd))"
    "path (ha_body ?a) [''external_payload''] = Some (JStr ''id PSEUDO-cpf-0'')"
    "path (ha_body ?a) [''summary'', ''status''] = Some (JStr ''allowed'')"
    "path (ha_body ?a) [''governance'', ''provider_class''] = Some (JStr ''fake'')"
    "path (ha_body ?a) [''provider_mode'', ''provider_class''] = Some (JStr ''fake'')"
    "path (ha_body ?a) [''treatment''] \<noteq> Some (JStr ''b0'') \<or> ''fake'' = DEFAULT_PROVIDER_NAME"
    by (simp_all only: http_answer.select_convs shown_on_the_wire allowed same_class status_value.simps DEFAULT_PROVIDER_NAME_def
        simp_thms)
  show ?thesis
    using http_confirmation_executes [OF sample_service_runs vault_inv_new p ok rtranclp.rtrancl_refl depth sample_moment_fits in_time,
        of "\<lambda>_. JNull" JNull] p ok(2) by (auto simp: sample_form_def)
qed

text \<open>The answers other than 200 that an upload of this extension and size can get from the document routes.\<close>

definition document_refusals :: "pystr \<Rightarrow> nat \<Rightarrow> http_answer list" where
  "document_refusals ext n =
     map handle_exception
       (map Ingestion_Error
          [Empty_Text_File ext n, Empty_Document ext n, Too_Many_Bytes ''file'' n, Not_UTF8 ext n, Unsupported_Extension ext n,
           Parser_Missing ext n, Not_Parsed ext n] @
        map Preset_Error
          (Unsupported_Document_Type # map (\<lambda>p. Unsupported_Analysis_Mode (pr_analysis_modes p)) list_document_presets) @
        [Confirmation_Error PreviewConfirmationError, Confirmation_Error RecursionError, UnsafeControlExecutionError,
         ExportRefusedError, Handle_Error RestoreUnavailableError])"

definition over_the_character_limit :: "nat \<Rightarrow> http_answer list" where
  "over_the_character_limit k =
     map (\<lambda>kind. handle_exception (Ingestion_Error (Too_Many_Characters kind k))) [''text file'', ''document file'']"

definition refused_safely :: "document_form \<Rightarrow> http_answer \<Rightarrow> bool" where
  "refused_safely form a \<longleftrightarrow>
     a \<in> set (document_refusals (extension (the_default [] (df_filename form))) (length (df_bytes form))) \<or>
     (\<exists>k. MAX_NORMALIZED_CHARACTERS < k \<and> a \<in> set (over_the_character_limit k))"

lemma file_refused:
  assumes "normalize_text_file parser filename data = Inl e"
  shows "e \<in> set [Empty_Text_File (extension filename) (length data), Empty_Document (extension filename) (length data),
      Too_Many_Bytes ''file'' (length data), Not_UTF8 (extension filename) (length data),
      Unsupported_Extension (extension filename) (length data), Parser_Missing (extension filename) (length data),
      Not_Parsed (extension filename) (length data)] \<or>
    (\<exists>k. MAX_NORMALIZED_CHARACTERS < k \<and> e \<in> set (map (\<lambda>kind. Too_Many_Characters kind k) [''text file'', ''document file'']))"
  using assms
  by (auto simp: normalize_text_file_def normalize_document_file_def limits_defs Let_def split: if_splits option.splits)

lemma preset_refused:
  assumes "resolve_governance_preset document_type mode = Inl e \<or> resolve_analysis_mode document_type mode = Inl e"
  shows "e \<in> set (Unsupported_Document_Type # map (\<lambda>p. Unsupported_Analysis_Mode (pr_analysis_modes p)) list_document_presets)"
proof -
  have "p \<in> set list_document_presets" if "get_document_preset document_type = Inr p" for p
    using that dict_get_mem [of PRESETS document_type]
    by (cases "dict_get PRESETS document_type") (force simp: get_document_preset_def list_document_presets_def)+
  then show ?thesis
    using assms
    by (auto simp: resolve_governance_preset_def resolve_analysis_mode_def get_document_preset_def
        split: sum.splits option.splits if_splits)
qed

lemma document_request_refused:
  assumes "document_application_request svc form = Inl e"
  shows "refused_safely form (handle_exception e)"
proof -
  consider (upload) i where "e = Ingestion_Error i"
      "normalize_text_file (svc_document_parser svc) (the_default [] (df_filename form)) (df_bytes form) = Inl i"
    | (preset) p where "e = Preset_Error p"
      "resolve_governance_preset (df_document_type form) (df_analysis_mode form) = Inl p \<or>
       resolve_analysis_mode (df_document_type form) (df_analysis_mode form) = Inl p"
    using assms
    by (auto simp: document_application_request_def build_document_request_def build_application_request_def Let_def
        split: sum.splits option.splits)
  then show ?thesis
  proof cases
    case upload
    show ?thesis using file_refused [OF upload(2)]
      by (auto simp: upload(1) refused_safely_def document_refusals_def over_the_character_limit_def)
  next
    case preset
    show ?thesis using preset_refused [OF preset(2)] by (auto simp: preset(1) refused_safely_def document_refusals_def)
  qed
qed

lemma use_case_refused:
  "e \<in> {Confirmation_Error PreviewConfirmationError, Confirmation_Error RecursionError, UnsafeControlExecutionError,
     ExportRefusedError, Handle_Error RestoreUnavailableError} \<Longrightarrow> refused_safely form (handle_exception e)"
  by (auto simp: refused_safely_def document_refusals_def)

text \<open>
  C5: An error body tells nothing of an upload but the extension of its name and its size in bytes. Every answer of the three
  document routes other than 200 is one of a list that these two determine, with texts of the code and the server's own
  vocabulary, or says how many characters, then more than the limit, the text has. The document, the task, the selection, the
  token, the decision and the vault enter only in the choice among these.
\<close>

theorem refusals_tell_nothing:
  assumes "runs_in_memory svc" and "vault_inv v"
    and "a \<in> {fst (post_preview_document env svc mo v form), fst (post_execute_document number ms env svc mo v form token),
      fst (post_export env svc mo v form)}" and "ha_status a \<noteq> 200"
  shows "refused_safely form a"
proof (cases "document_application_request svc form")
  case (Inl e)
  then show ?thesis
    using assms(3) document_request_refused [OF Inl]
    by (auto simp: post_preview_document_def post_execute_document_def post_export_def)
next
  case (Inr request)
  note document = document_requests_are_documents [OF Inr]
  obtain pd v' where pd: "preview_document env svc mo v request = (Inr pd, v')"
    by (rule preview_document_returns [OF assms(1,2) document])
  obtain xo xs xv where x: "execute_document env svc mo v request token = (xo, xs, xv)" by (metis prod_cases3)
  obtain eo ev where e: "export env svc mo v request = (eo, ev)" by force
  from assms(3,4) consider "a = answer (execute_response number ms) xo" | "a = answer export_response eo"
    by (auto simp: post_preview_document_def post_execute_document_def post_export_def Inr pd x e)
  then show ?thesis
  proof cases
    case 1
    then obtain er where "xo = Inl er" "a = handle_exception er" using assms(4) by (cases xo) auto
    then show ?thesis
      using execute_document_errors(1) [OF assms(1,2) document, of env mo token er xs xv] x use_case_refused by auto
  next
    case 2
    then obtain er where "eo = Inl er" "a = handle_exception er" using assms(4) by (cases eo) auto
    then show ?thesis using export_errors [OF assms(1,2), of env mo request er ev] e use_case_refused by auto
  qed
qed

theorem refusals_tell_nothing_witness:
  "refused_safely (sample_form\<lparr>df_filename := Some ''note.exe''\<rparr>)
     (fst (post_export sample_env sample_service sample_moment (new_vault str_nat) (sample_form\<lparr>df_filename := Some ''note.exe''\<rparr>)))"
proof -
  let ?form = "sample_form\<lparr>df_filename := Some ''note.exe''\<rparr>"
  have "ha_status (fst (post_export sample_env sample_service sample_moment (new_vault str_nat) ?form)) \<noteq> 200"
    by code_simp
  then show ?thesis
    using refusals_tell_nothing [OF sample_service_runs vault_inv_new, of _ sample_env sample_moment str_nat ?form] by blast
qed

definition is_no_store :: "(pystr \<times> pystr) list \<Rightarrow> bool" where
  "is_no_store headers \<longleftrightarrow>
     filter (\<lambda>(name, _). ascii_lower name \<in> set (map fst NO_STORE_HEADERS)) headers = NO_STORE_HEADERS"

definition explorer_answers :: "event list \<Rightarrow> bool" where
  "explorer_answers events \<longleftrightarrow>
     (\<forall>status headers. Response_Start status headers \<in> set (sents events) \<longrightarrow> is_no_store headers)"

lemma no_store_headers_kept: "filter (\<lambda>(name, _). ascii_lower name \<in> set (map fst NO_STORE_HEADERS)) NO_STORE_HEADERS = NO_STORE_HEADERS"
  by code_simp

lemma with_no_store_start:
  "with_no_store m = Response_Start status headers \<Longrightarrow> is_no_store headers \<and> (\<exists>hs. m = Response_Start status hs)"
  using no_store_headers_kept
  by (auto simp: with_no_store_def is_no_store_def case_prod_beta filter_empty_conv split: outgoing.splits)

lemma sents_map:
  "sents (map (\<lambda>e. case e of Sent m \<Rightarrow> Sent (f m) | _ \<Rightarrow> e) events) = map f (sents events)"
  by (induction events) (auto split: event.split)

text \<open>
  Nothing the explorer answers is stored. Whatever stands inside of the outermost middleware, every answer on the path of
  the explorer, the 413 of the size limit and every error included, starts with exactly one \<open>no-store\<close> and one \<open>no-cache\<close> header
  and no other header of these names; its status, its body and the way it ends are those of the answer without the middleware,
  and so is everything on the other paths.
\<close>

theorem explorer_answers_are_not_stored:
  "(sc_type scope = ''http'' \<and> sc_path scope = VAULT_EXPLORER_PATH \<longrightarrow>
      explorer_answers (fst (served max_bytes cors app scope server)) \<and>
      map with_no_store (sents (fst (cors (size_limited max_bytes app) scope server))) =
        sents (fst (served max_bytes cors app scope server)) \<and>
      snd (served max_bytes cors app scope server) = snd (cors (size_limited max_bytes app) scope server)) \<and>
   (sc_path scope \<noteq> VAULT_EXPLORER_PATH \<longrightarrow>
      served max_bytes cors app scope server = cors (size_limited max_bytes app) scope server)"
proof -
  have "explorer_answers (fst (no_store inner scope server)) \<and>
      map with_no_store (sents (fst (inner scope server))) = sents (fst (no_store inner scope server)) \<and>
      snd (no_store inner scope server) = snd (inner scope server)"
    if "sc_type scope = ''http''" "sc_path scope = VAULT_EXPLORER_PATH" for inner
    using that with_no_store_start [OF sym]
    by (auto simp: no_store_def explorer_answers_def sents_map split: prod.split)
  then show ?thesis by (simp add: served_def) (simp add: no_store_def)
qed

theorem explorer_answers_are_not_stored_witness:
  "explorer_answers (fst (served 3 (\<lambda>inner. inner) (\<lambda>_. App_Returns)
     \<lparr>sc_type = ''http'', sc_path = ''/demo/vault-explorer'', sc_headers = [(''content-length'', ''4'')]\<rparr> (\<lambda>_. Http_Request None))) \<and>
   sents (fst (served 3 (\<lambda>inner. inner) (\<lambda>_. App_Returns)
     \<lparr>sc_type = ''http'', sc_path = ''/demo/vault-explorer'', sc_headers = [(''content-length'', ''4'')]\<rparr> (\<lambda>_. Http_Request None))) =
   map with_no_store (too_large_response 3)"
proof -
  let ?sc = "\<lparr>sc_type = ''http'', sc_path = ''/demo/vault-explorer'', sc_headers = [(''content-length'', ''4'')]\<rparr>"
  have "sents (fst (size_limited 3 (\<lambda>_. App_Returns) ?sc (\<lambda>_. Http_Request None))) = too_large_response 3"
    by code_simp
  then show ?thesis
    using explorer_answers_are_not_stored [of ?sc 3 "\<lambda>inner. inner" "\<lambda>_. App_Returns" "\<lambda>_. Http_Request None"]
    by (simp add: VAULT_EXPLORER_PATH_def)
qed

text \<open>The readiness route answers 200 or 503, as the readiness says.\<close>

lemma ready_status: "ha_status (get_ready h svc) = (if fst (describe_readiness h svc) then 200 else 503)"
  using readiness_is_on_the_wire [of h svc] by (auto simp: get_ready_def Let_def)

end
