(* ===== verification/Cli.thy ===== *)
theory Cli
  imports Http_Api
begin

text \<open>
  The command line (\<open>cli.py\<close>): what a command prints and how it exits.

  The arguments are those of \<open>argparse\<close>: the namespace of a successful parse with the entries it did not recognise, or the
  code it exits with. The file system, standard input, the text of the usage and the rendering of JSON are arguments. Output
  is the list of the texts printed, each with its end of line.

  The lemmas show that the command line and the HTTP adapter tell the same.
\<close>

definition EXIT_OK :: int where
  "EXIT_OK = 0"

definition EXIT_UNEXPECTED_ERROR :: int where
  "EXIT_UNEXPECTED_ERROR = 1"

definition EXIT_BAD_INPUT :: int where
  "EXIT_BAD_INPUT = 2"

datatype cli_command =
    Cmd_Health | Cmd_Examples | Cmd_Strategies | Cmd_Preview | Cmd_Execute | Cmd_Compare | Cmd_Export | Cmd_Restore

record cli_args =
  ca_json :: bool
  ca_command :: cli_command
  ca_text :: "pystr option"
  ca_file :: "pystr option"
  ca_example :: "pystr option"
  ca_task :: "pystr option"
  ca_strategy :: "pystr option"
  ca_purpose :: "pystr option"
  ca_requester_role :: "pystr option"
  ca_requester_id :: "pystr option"
  ca_provider_class :: "pystr option"
  ca_policy_version :: "pystr option"
  ca_pseudonym_scope :: "pystr option"
  ca_session_id :: "pystr option"
  ca_document_id :: "pystr option"
  ca_request_id :: "pystr option"
  ca_domain :: "pystr option"
  ca_show_payload :: bool
  ca_handle_file :: "pystr option"
  ca_text_file :: "pystr option"

text \<open>What a command raises; an unreadable path gives the name of its \<open>OSError\<close>.\<close>

datatype cli_error = File_Read_Error pystr | Restore_Input_Error | Not_A_Text | Raised_Below service_error

type_synonym disk = "pystr \<Rightarrow> pystr + pystr"

subsection \<open>Building the request\<close>

definition strategy_of_value :: "pystr \<Rightarrow> disclosure_strategy option" where
  "strategy_of_value s = find (\<lambda>x. strategy_value x = s) [RECOMMENDED, S_B0, S_B1, S_B2, S_B3, S_B4]"

definition governance_overrides_from_args :: "cli_args \<Rightarrow> cli_error + governance_overrides" where
  "governance_overrides_from_args args =
     (let mk = (\<lambda>scope. \<lparr>go_purpose = ca_purpose args, go_requester_role = ca_requester_role args,
         go_requester_id = ca_requester_id args, go_provider_class = ca_provider_class args,
         go_policy_version = ca_policy_version args, go_requested_scope = scope, go_session_id = ca_session_id args,
         go_document_id = ca_document_id args, go_request_id = ca_request_id args, go_domain = ca_domain args\<rparr>)
      in case ca_pseudonym_scope args of
           None \<Rightarrow> Inr (mk None)
         | Some s \<Rightarrow>
             (case scope_of_value s of
                None \<Rightarrow> Inl (Raised_Below (Core_Error ValueError))
              | Some scope \<Rightarrow> Inr (mk (Some scope))))"

definition read_disclosed_file :: "disk \<Rightarrow> pystr option \<Rightarrow> cli_error + (pystr option \<times> pystr option)" where
  "read_disclosed_file disk file_path =
     (case file_path of
        None \<Rightarrow> Inr (None, None)
      | Some p \<Rightarrow>
          (case disk p of
             Inl kind \<Rightarrow> Inl (File_Read_Error (''could not read --file '' @ p @ '': '' @ kind))
           | Inr data \<Rightarrow> Inr (Some (path_name p), Some data)))"

definition cli_application_request :: "disk \<Rightarrow> 'v service \<Rightarrow> cli_args \<Rightarrow> cli_error + application_request" where
  "cli_application_request disk svc args =
     (case read_disclosed_file disk (ca_file args) of
        Inl e \<Rightarrow> Inl e
      | Inr (filename, file_bytes) \<Rightarrow>
          (case strategy_of_value (the_default (strategy_value RECOMMENDED) (ca_strategy args)) of
             None \<Rightarrow> Inl (Raised_Below (Core_Error ValueError))
           | Some strategy \<Rightarrow>
               (case governance_overrides_from_args args of
                  Inl e \<Rightarrow> Inl e
                | Inr governance \<Rightarrow>
                    (case build_application_request svc (ca_text args) filename file_bytes (ca_example args) (ca_task args)
                            strategy (Some governance) of
                       Inl e \<Rightarrow> Inl (Raised_Below e)
                     | Inr request \<Rightarrow> Inr request))))"

subsection \<open>Human-readable output\<close>

definition show_bool :: "bool \<Rightarrow> pystr" where
  "show_bool b = (if b then ''True'' else ''False'')"

definition show_optional :: "pystr option \<Rightarrow> pystr" where
  "show_optional x = the_default ''None'' x"

definition show_int :: "int \<Rightarrow> pystr" where
  "show_int i = (if i < 0 then ''-'' @ str_nat (nat (- i)) else str_nat (nat i))"

definition print_health :: "service_health \<Rightarrow> pystr list" where
  "print_health h =
     [''provider_class: '' @ sh_provider_class h, ''model_id: '' @ show_optional (sh_model_id h),
      ''model_snapshot: '' @ show_optional (sh_model_snapshot h),
      ''deterministic_demo_mode: '' @ show_bool (sh_deterministic_demo_mode h),
      ''treatments_available: '' @ commas (map treatment_value (sh_treatments_available h))]"

definition print_examples :: "example_summary list \<Rightarrow> pystr list" where
  "print_examples es =
     (if es = [] then [''(no examples configured)'']
      else map (\<lambda>e. es_example_id e @ ''  domain='' @ es_domain e @ ''  purpose='' @ es_purpose e @ ''  task='' @
             str_repr (es_task e) @ ''  chars='' @ str_nat (es_character_count e)) es)"

definition print_strategies :: "strategy_option list \<Rightarrow> pystr list" where
  "print_strategies os =
     map (\<lambda>o'. strategy_value (so_strategy o') @ '' -> '' @ treatment_value (so_treatment o') @
       (if so_recommended o' then '' (recommended)'' else '''')) os"

definition print_preview :: "bool \<Rightarrow> disclosure_preview \<Rightarrow> pystr list" where
  "print_preview show_payload p =
     [''strategy: '' @ strategy_value (dp_strategy p), ''treatment: '' @ treatment_value (dp_treatment p),
      ''status: '' @ status_value (ds_status (dp_summary p)), ''categories:''] @
     (if ds_categories (dp_summary p) = [] then [''  (none detected)''] else []) @
     map (\<lambda>c. ''  - '' @ cs_category c @ '': '' @ outcome_value (cs_outcome c) @ '' (occurrences='' @
       str_nat (cs_occurrence_count c) @ '', crosses_trust_boundary='' @ show_bool (cs_crosses_trust_boundary c) @ '')'')
       (ds_categories (dp_summary p)) @
     [''payload_byte_count: '' @ str_nat (dp_payload_byte_count p)] @
     (if show_payload then [''external_payload:'', dp_external_payload p] else [])"

definition print_comparison_entry :: "bool \<Rightarrow> strategy_comparison_entry \<Rightarrow> pystr list" where
  "print_comparison_entry show_payload e =
     (let markers =
        (if ce_recommended e then [''recommended''] else []) @
        (if ce_unsafe_control_baseline e then [''UNSAFE CONTROL BASELINE -- sends everything unchanged''] else [])
      in [''=== '' @ strategy_value (ce_strategy e) @ '' -> '' @ treatment_value (ce_treatment e) @
            (if markers \<noteq> [] then ''  ('' @ commas markers @ '')'' else '''') @ '' ==='',
          ''status: '' @ status_value (ds_status (ce_summary e)),
          ''payload_byte_count: '' @ str_nat (ce_payload_byte_count e), ''categories:''] @
         (if ds_categories (ce_summary e) = [] then [''  (none detected)''] else []) @
         map (\<lambda>c. ''  - '' @ cs_category c @ '': '' @ outcome_value (cs_outcome c) @ '' (crosses_trust_boundary='' @
           show_bool (cs_crosses_trust_boundary c) @ '')'') (ds_categories (ce_summary e)) @
         (if show_payload then [''external_payload:'', ce_external_payload e] else []) @ [''''])"

definition print_compare :: "bool \<Rightarrow> strategy_comparison \<Rightarrow> pystr list" where
  "print_compare show_payload c = concat (map (print_comparison_entry show_payload) (co_entries c))"

definition print_export :: "disclosure_export \<Rightarrow> pystr list" where
  "print_export x =
     [''strategy: '' @ strategy_value (dx_strategy x), ''treatment: '' @ treatment_value (dx_treatment x),
      ''restorable_count: '' @ str_nat (dx_restorable_count x), ''expires_at: '' @ show_int (dx_expires_at x),
      ''external_payload:'', dx_external_payload x, ''restore_handle:'', dx_restore_handle x]"

definition print_restore :: "disclosure_restore \<Rightarrow> pystr list" where
  "print_restore r =
     [''restored_count: '' @ str_nat (dt_restored_count r), ''unresolved_count: '' @ str_nat (dt_unresolved_count r),
      ''restored_text:'', dt_restored_text r]"

definition print_execute :: "disclosure_execution \<Rightarrow> pystr list" where
  "print_execute e =
     [''strategy: '' @ strategy_value (de_strategy e), ''treatment: '' @ treatment_value (de_treatment e),
      ''status: '' @ status_value (ds_status (de_summary e)), ''provider_called: '' @ show_bool (ps_called (de_provider e)),
      ''provider_failed: '' @ show_bool (ps_failed (de_provider e))] @
     (case ps_failure_kind (de_provider e) of None \<Rightarrow> [] | Some k \<Rightarrow> [''provider_failure_kind: '' @ k]) @
     [''reconstruction_attempted: '' @ show_bool (rc_attempted (de_reconstruction e)),
      ''final_answer: '' @ show_optional (de_final_answer e)]"

subsection \<open>Commands\<close>

text \<open>\<open>read_text\<close>: the end of a line is one character, whatever it is in the file.\<close>

fun universal_newlines :: "pystr \<Rightarrow> pystr" where
  "universal_newlines [] = []"
| "universal_newlines [c] = [if c = CHR 0x0D then CHR 0x0A else c]"
| "universal_newlines (c # d # cs) =
     (if c = CHR 0x0D then CHR 0x0A # universal_newlines (if d = CHR 0x0A then cs else d # cs)
      else c # universal_newlines (d # cs))"

definition read_restore_file :: "disk \<Rightarrow> pystr \<Rightarrow> cli_error + pystr" where
  "read_restore_file disk file_path =
     (case disk file_path of
        Inl kind \<Rightarrow> Inl (File_Read_Error (''could not read '' @ file_path @ '': '' @ kind))
      | Inr data \<Rightarrow> (case utf8_decode data of None \<Rightarrow> Inl Not_A_Text | Some s \<Rightarrow> Inr (universal_newlines s)))"

definition read_restore_inputs :: "disk \<Rightarrow> pystr \<Rightarrow> cli_args \<Rightarrow> cli_error + pystr \<times> pystr" where
  "read_restore_inputs disk stdin args =
     (if ca_handle_file args = None \<and> ca_text_file args = None then Inl Restore_Input_Error
      else (case (case ca_handle_file args of None \<Rightarrow> Inr stdin | Some p \<Rightarrow> read_restore_file disk p) of
              Inl e \<Rightarrow> Inl e
            | Inr handle \<Rightarrow>
                (case (case ca_text_file args of None \<Rightarrow> Inr stdin | Some p \<Rightarrow> read_restore_file disk p) of
                   Inl e \<Rightarrow> Inl e
                 | Inr s \<Rightarrow> Inr (str_strip handle, s))))"

text \<open>What a command prints of the outcome of its use case.\<close>

definition printed :: "(json \<Rightarrow> pystr) \<Rightarrow> cli_args \<Rightarrow> ('a \<Rightarrow> json) \<Rightarrow> ('a \<Rightarrow> pystr list) \<Rightarrow> service_error + 'a \<Rightarrow>
  cli_error + pystr list" where
  "printed dumps args view human outcome =
     (case outcome of
        Inl e \<Rightarrow> Inl (Raised_Below e)
      | Inr x \<Rightarrow> Inr (if ca_json args then [dumps (view x)] else human x))"

definition run_command ::
  "(json \<Rightarrow> pystr) \<Rightarrow> (rat \<Rightarrow> json) \<Rightarrow> json \<Rightarrow> disk \<Rightarrow> pystr \<Rightarrow> 'k service_env \<Rightarrow> 'v service \<Rightarrow> moment \<Rightarrow>
   (disclosure_strategy \<Rightarrow> moment) \<Rightarrow> 'v \<Rightarrow> cli_args \<Rightarrow> (cli_error + pystr list) \<times> provider_request list \<times> 'v" where
  "run_command dumps number total_ms disk stdin env svc mo mos v args =
     (let with_request = (\<lambda>use_case. case cli_application_request disk svc args of
            Inl e \<Rightarrow> (Inl e, [], v)
          | Inr request \<Rightarrow> use_case request);
          unsent = (\<lambda>(outcome, v'). (outcome, [], v'))
      in case ca_command args of
           Cmd_Health \<Rightarrow> (printed dumps args health_response print_health (Inr (describe_health svc)), [], v)
         | Cmd_Examples \<Rightarrow> (printed dumps args examples_response print_examples (list_examples svc), [], v)
         | Cmd_Strategies \<Rightarrow> (printed dumps args strategies_response print_strategies (Inr list_strategy_options), [], v)
         | Cmd_Preview \<Rightarrow>
             with_request (\<lambda>request. unsent (apfst (printed dumps args preview_response (print_preview (ca_show_payload args)))
               (preview env svc mo v request)))
         | Cmd_Compare \<Rightarrow>
             with_request (\<lambda>request. unsent (apfst (printed dumps args compare_response (print_compare (ca_show_payload args)))
               (compare_strategies env svc mos v request)))
         | Cmd_Execute \<Rightarrow>
             with_request (\<lambda>request. apfst (printed dumps args (execute_response number total_ms) print_execute)
               (execute env svc v request))
         | Cmd_Export \<Rightarrow>
             with_request (\<lambda>request. unsent (apfst (printed dumps args export_response print_export)
               (export env svc mo v request)))
         | Cmd_Restore \<Rightarrow>
             (case read_restore_inputs disk stdin args of
                Inl e \<Rightarrow> (Inl e, [], v)
              | Inr (restore_handle, s) \<Rightarrow>
                  (printed dumps args restore_response print_restore (restore env svc (mo_now mo) s restore_handle), [], v)))"

subsection \<open>Entry point\<close>

record cli_result =
  cr_exit :: int
  cr_stdout :: "pystr list"
  cr_stderr :: "pystr list"

text \<open>The messages of \<open>_BAD_INPUT_EXCEPTIONS\<close>.\<close>

definition bad_input_message :: "cli_error \<Rightarrow> pystr option" where
  "bad_input_message e =
     (case e of
        File_Read_Error message \<Rightarrow> Some message
      | Restore_Input_Error \<Rightarrow>
          Some (''adg restore requires --handle-file and/or --text-file; standard input can supply '' @ ''at most one of the two'')
      | Not_A_Text \<Rightarrow> None
      | Raised_Below s \<Rightarrow>
          (case surfaced s of
             None \<Rightarrow> None
           | Some (_, message, kind) \<Rightarrow>
               if kind \<in> {''IngestionError'', ''ContentSourceError'', ''MissingTaskError'', ''ExampleNotFoundError'',
                   ''ExportRefusedError'', ''RestoreUnavailableError'', ''RestoreHandleInvalidError'',
                   ''RestoreHandleExpiredError''}
               then Some message else None))"

definition finished :: "cli_error + pystr list \<Rightarrow> cli_result" where
  "finished outcome =
     (case outcome of
        Inr output \<Rightarrow> \<lparr>cr_exit = EXIT_OK, cr_stdout = output, cr_stderr = []\<rparr>
      | Inl e \<Rightarrow>
          (case bad_input_message e of
             Some message \<Rightarrow> \<lparr>cr_exit = EXIT_BAD_INPUT, cr_stdout = [], cr_stderr = [message]\<rparr>
           | None \<Rightarrow> \<lparr>cr_exit = EXIT_UNEXPECTED_ERROR, cr_stdout = [], cr_stderr = [''an unexpected error occurred'']\<rparr>))"

fun joined :: "pystr \<Rightarrow> pystr list \<Rightarrow> pystr" where
  "joined sep [] = []"
| "joined sep [x] = x"
| "joined sep (x # xs) = x @ sep @ joined sep xs"

definition report_unrecognized :: "pystr \<Rightarrow> pystr list \<Rightarrow> pystr list" where
  "report_unrecognized usage extras =
     (let named = filter (\<lambda>x. take 1 x = ''-'') extras;
          positional_count = length extras - length named;
          parts =
            (if named \<noteq> [] then [''unrecognized option(s): '' @ joined '' '' named] else []) @
            (if positional_count \<noteq> 0 then
               [str_nat positional_count @ '' unexpected positional argument(s) '' @
                ''(content is deliberately not echoed -- pass text with --text, '' @
                ''a file with --file, or an example with --example)'']
             else [])
      in [rev (dropWhile is_space (rev usage)), ''adg: error: '' @ joined ''; '' parts])"

datatype parsed_argv = Parser_Exits "int option" | Parsed cli_args "pystr list"

definition main ::
  "(json \<Rightarrow> pystr) \<Rightarrow> (rat \<Rightarrow> json) \<Rightarrow> json \<Rightarrow> disk \<Rightarrow> pystr \<Rightarrow> pystr \<Rightarrow> 'k service_env \<Rightarrow> 'v service \<Rightarrow> moment \<Rightarrow>
   (disclosure_strategy \<Rightarrow> moment) \<Rightarrow> 'v \<Rightarrow> parsed_argv \<Rightarrow> cli_result \<times> provider_request list \<times> 'v" where
  "main dumps number total_ms disk stdin usage env svc mo mos v parsed =
     (case parsed of
        Parser_Exits code \<Rightarrow> (\<lparr>cr_exit = the_default EXIT_BAD_INPUT code, cr_stdout = [], cr_stderr = []\<rparr>, [], v)
      | Parsed args extras \<Rightarrow>
          if extras \<noteq> [] then
            (\<lparr>cr_exit = EXIT_BAD_INPUT, cr_stdout = [], cr_stderr = report_unrecognized usage extras\<rparr>, [], v)
          else (case run_command dumps number total_ms disk stdin env svc mo mos v args of
                  (outcome, sent, v') \<Rightarrow> (finished outcome, sent, v')))"

subsection \<open>The two adapters agree\<close>

text \<open>What the command line makes of an HTTP answer, and the JSON request that says the same as the arguments.\<close>

definition terminal_view :: "(json \<Rightarrow> pystr) \<Rightarrow> http_answer \<Rightarrow> cli_result" where
  "terminal_view dumps a =
     (if ha_status a = 200 then \<lparr>cr_exit = EXIT_OK, cr_stdout = [dumps (ha_body a)], cr_stderr = []\<rparr>
      else (case path (ha_body a) [''detail''] of
              Some (JStr detail) \<Rightarrow>
                \<lparr>cr_exit = (if ha_status a = 500 then EXIT_UNEXPECTED_ERROR else EXIT_BAD_INPUT), cr_stdout = [],
                 cr_stderr = [detail]\<rparr>
            | _ \<Rightarrow> \<lparr>cr_exit = EXIT_UNEXPECTED_ERROR, cr_stdout = [], cr_stderr = []\<rparr>))"

definition says_the_same :: "disk \<Rightarrow> cli_args \<Rightarrow> disclosure_request_body \<Rightarrow> bool" where
  "says_the_same disk args body \<longleftrightarrow>
     db_text body = ca_text args \<and> db_example_id body = ca_example args \<and> db_task body = ca_task args \<and>
     read_disclosed_file disk (ca_file args) = Inr (db_filename body, map_option utf8 (db_file_content body)) \<and>
     strategy_of_value (the_default (strategy_value RECOMMENDED) (ca_strategy args)) =
       Some (the_default RECOMMENDED (db_strategy body)) \<and>
     governance_overrides_from_args args = Inr (the_default no_overrides (map_option to_domain (db_governance body)))"

lemma governance_defaulted:
  "build_application_request svc t f b i task s (Some (the_default no_overrides g)) =
   build_application_request svc t f b i task s g"
  by (simp only: build_application_request_def the_default_simps)

lemma same_request:
  assumes "says_the_same disk args body"
  shows "cli_application_request disk svc args =
    (case application_request_from svc body of Inl e \<Rightarrow> Inl (Raised_Below e) | Inr r \<Rightarrow> Inr r)"
  using assms
  by (simp add: says_the_same_def cli_application_request_def application_request_from_def governance_defaulted)

lemma told_alike:
  "finished (Inl (Raised_Below (Ingestion_Error i))) = terminal_view dumps (handle_exception (Ingestion_Error i))"
  "finished (Inl (Raised_Below (Content_Sources ss))) = terminal_view dumps (handle_exception (Content_Sources ss))"
  "finished (Inl (Raised_Below Incomplete_File_Source)) = terminal_view dumps (handle_exception Incomplete_File_Source)"
  "finished (Inl (Raised_Below (Missing_Task k))) = terminal_view dumps (handle_exception (Missing_Task k))"
  "finished (Inl (Raised_Below (Example_Not_Found x))) = terminal_view dumps (handle_exception (Example_Not_Found x))"
  "finished (Inl (Raised_Below No_Examples_Directory)) = terminal_view dumps (handle_exception No_Examples_Directory)"
  "finished (Inl (Raised_Below (Examples_Not_Loaded f))) = terminal_view dumps (handle_exception (Examples_Not_Loaded f))"
  "finished (Inl (Raised_Below (Core_Error c))) = terminal_view dumps (handle_exception (Core_Error c))"
  "finished (Inl (Raised_Below (Handle_Error h))) = terminal_view dumps (handle_exception (Handle_Error h))"
  by (simp_all add: finished_def bad_input_message_def terminal_view_def answer_defs error_response_def dict_get_def
      EXIT_BAD_INPUT_def EXIT_UNEXPECTED_ERROR_def split: handle_error.split)

lemma request_told_alike:
  "application_request_from svc body = Inl e \<Longrightarrow> finished (Inl (Raised_Below e)) = terminal_view dumps (handle_exception e)"
  by (auto simp: application_request_from_def build_application_request_def example_defs told_alike Let_def
      split: option.splits sum.splits bool.splits)

lemma outcome_told_alike:
  assumes "ca_json args" and "\<And>e. outcome = Inl e \<Longrightarrow> (\<exists>c. e = Core_Error c) \<or> (\<exists>h. e = Handle_Error h) \<or>
    e = No_Examples_Directory \<or> (\<exists>f. e = Examples_Not_Loaded f)"
  shows "finished (printed dumps args view human outcome) = terminal_view dumps (answer view outcome)"
proof (cases outcome)
  case (Inl e)
  then show ?thesis using assms(2) [OF Inl] by (auto simp: printed_def told_alike)
next
  case (Inr x)
  then show ?thesis using assms(1) by (simp add: printed_def finished_def terminal_view_def)
qed

lemma preview_raises: "preview env svc mo v request = (Inl e, v') \<Longrightarrow> \<exists>c. e = Core_Error c"
  by (auto simp: preview_def preview_of_def Let_def split: sum.splits prod.splits)

lemma compare_loop_raises: "compare_loop env svc mos v request ss = (Inl e, v') \<Longrightarrow> \<exists>c. e = Core_Error c"
proof (induction ss arbitrary: v v')
  case (Cons s ss)
  show ?case
  proof (cases "preview env svc (mos s) v (request\<lparr>ap_strategy := s\<rparr>)")
    case (Pair outcome v1)
    with Cons show ?thesis
      by (cases outcome) (auto simp: Let_def dest: preview_raises split: sum.splits prod.splits)
  qed
qed simp

lemma compare_raises: "compare_strategies env svc mos v request = (Inl e, v') \<Longrightarrow> \<exists>c. e = Core_Error c"
  by (auto simp: compare_strategies_def dest: compare_loop_raises split: sum.splits prod.splits)

lemma execute_raises: "execute env svc v request = (Inl e, sent, v') \<Longrightarrow> ap_document request = None \<Longrightarrow> \<exists>c. e = Core_Error c"
  by (auto simp: execute_def execute_unchecked_def execution_of_def Let_def split: sum.splits prod.splits)

lemma restore_raises: "restore env svc now s handle = Inl e \<Longrightarrow> \<exists>h. e = Handle_Error h"
  by (auto simp: restore_def split: sum.splits prod.splits)

lemma list_examples_raises: "list_examples svc = Inl e \<Longrightarrow> e = No_Examples_Directory \<or> (\<exists>f. e = Examples_Not_Loaded f)"
  by (auto simp: example_defs split: option.splits sum.splits)

lemmas command_defs = main_def run_command_def Let_def

text \<open>Each command, for arguments whose request is that of the body.\<close>

lemma preview_told:
  assumes "ca_json args" and "ca_command args = Cmd_Preview" and "cli_application_request disk svc args =
    (case application_request_from svc body of Inl e \<Rightarrow> Inl (Raised_Below e) | Inr r \<Rightarrow> Inr r)"
  shows "main dumps number ms disk stdin usage env svc mo mos v (Parsed args []) =
    (case post_preview env svc mo v body of (a, v') \<Rightarrow> (terminal_view dumps a, [], v'))"
proof (cases "application_request_from svc body")
  case (Inl e)
  then show ?thesis by (simp add: command_defs post_preview_def assms(2,3) request_told_alike)
next
  case (Inr request)
  obtain outcome v' where x: "preview env svc mo v request = (outcome, v')" by force
  show ?thesis
    using outcome_told_alike [OF assms(1), of outcome] preview_raises [of env svc mo v request _ v'] x
    by (simp add: command_defs post_preview_def assms(2,3) Inr)
qed

lemma compare_told:
  assumes "ca_json args" and "ca_command args = Cmd_Compare" and "cli_application_request disk svc args =
    (case application_request_from svc body of Inl e \<Rightarrow> Inl (Raised_Below e) | Inr r \<Rightarrow> Inr r)"
  shows "main dumps number ms disk stdin usage env svc mo mos v (Parsed args []) =
    (case post_compare env svc mos v body of (a, v') \<Rightarrow> (terminal_view dumps a, [], v'))"
proof (cases "application_request_from svc body")
  case (Inl e)
  then show ?thesis by (simp add: command_defs post_compare_def assms(2,3) request_told_alike)
next
  case (Inr request)
  obtain outcome v' where x: "compare_strategies env svc mos v request = (outcome, v')" by force
  show ?thesis
    using outcome_told_alike [OF assms(1), of outcome] compare_raises [of env svc mos v request _ v'] x
    by (simp add: command_defs post_compare_def assms(2,3) Inr)
qed

lemma execute_told:
  assumes "ca_json args" and "ca_command args = Cmd_Execute" and "cli_application_request disk svc args =
    (case application_request_from svc body of Inl e \<Rightarrow> Inl (Raised_Below e) | Inr r \<Rightarrow> Inr r)"
  shows "main dumps number ms disk stdin usage env svc mo mos v (Parsed args []) =
    (case post_execute number ms env svc v body of (a, sent, v') \<Rightarrow> (terminal_view dumps a, sent, v'))"
proof (cases "application_request_from svc body")
  case (Inl e)
  then show ?thesis by (simp add: command_defs post_execute_def assms(2,3) request_told_alike)
next
  case (Inr request)
  have "ap_document request = None"
    using built_request_Inr(1) Inr by (fastforce simp: application_request_from_def)
  moreover obtain outcome sent v' where x: "execute env svc v request = (outcome, sent, v')" by (metis prod_cases3)
  ultimately show ?thesis
    using outcome_told_alike [OF assms(1), of outcome] execute_raises [of env svc v request _ sent v']
    by (simp add: command_defs post_execute_def assms(2,3) Inr)
qed

lemma others_told:
  assumes "ca_json args"
  shows "ca_command args = Cmd_Restore \<Longrightarrow> read_restore_inputs disk stdin args = Inr (handle, s) \<Longrightarrow>
      main dumps number ms disk stdin usage env svc mo mos v (Parsed args []) =
      (terminal_view dumps (post_restore env svc (mo_now mo) s handle), [], v)"
    and "ca_command args = Cmd_Health \<Longrightarrow>
      main dumps number ms disk stdin usage env svc mo mos v (Parsed args []) = (terminal_view dumps (get_health svc), [], v)"
    and "ca_command args = Cmd_Examples \<Longrightarrow>
      main dumps number ms disk stdin usage env svc mo mos v (Parsed args []) = (terminal_view dumps (get_examples svc), [], v)"
    and "ca_command args = Cmd_Strategies \<Longrightarrow>
      main dumps number ms disk stdin usage env svc mo mos v (Parsed args []) = (terminal_view dumps get_strategies, [], v)"
proof -
  note told = outcome_told_alike [OF assms]
  show "ca_command args = Cmd_Restore \<Longrightarrow> read_restore_inputs disk stdin args = Inr (handle, s) \<Longrightarrow>
      main dumps number ms disk stdin usage env svc mo mos v (Parsed args []) =
      (terminal_view dumps (post_restore env svc (mo_now mo) s handle), [], v)"
    by (simp add: command_defs post_restore_def, rule told) (blast dest: restore_raises)
  show "ca_command args = Cmd_Examples \<Longrightarrow>
      main dumps number ms disk stdin usage env svc mo mos v (Parsed args []) = (terminal_view dumps (get_examples svc), [], v)"
    by (simp add: command_defs get_examples_def, rule told) (blast dest: list_examples_raises)
  show "ca_command args = Cmd_Health \<Longrightarrow>
      main dumps number ms disk stdin usage env svc mo mos v (Parsed args []) = (terminal_view dumps (get_health svc), [], v)"
    and "ca_command args = Cmd_Strategies \<Longrightarrow>
      main dumps number ms disk stdin usage env svc mo mos v (Parsed args []) = (terminal_view dumps get_strategies, [], v)"
    using assms by (simp_all add: command_defs get_health_def get_strategies_def printed_def finished_def terminal_view_def)
qed

text \<open>
  C4: The command line tells what the HTTP adapter tells. With \<open>--json\<close>, a preview, comparison or execution whose arguments
  say the same as a JSON request, a restoration of the same handle and text, and the three informative commands print exactly
  the body that HTTP answers with 200, as the same effect on the vault and the same requests to the provider; the command
  exits 0 then, 1 with the generic message where HTTP answers 500, and else 2 with the detail of the HTTP error.
\<close>

theorem cli_agrees_with_http:
  assumes "ca_json args" and "says_the_same disk args body"
  shows "let run = (\<lambda>c. main dumps number ms disk stdin usage env svc mo mos v (Parsed (args\<lparr>ca_command := c\<rparr>) []))
    in (case post_preview env svc mo v body of (a, v') \<Rightarrow> run Cmd_Preview = (terminal_view dumps a, [], v')) \<and>
       (case post_compare env svc mos v body of (a, v') \<Rightarrow> run Cmd_Compare = (terminal_view dumps a, [], v')) \<and>
       (case post_execute number ms env svc v body of (a, sent, v') \<Rightarrow> run Cmd_Execute = (terminal_view dumps a, sent, v')) \<and>
       (\<forall>handle s. read_restore_inputs disk stdin args = Inr (handle, s) \<longrightarrow>
          run Cmd_Restore = (terminal_view dumps (post_restore env svc (mo_now mo) s handle), [], v)) \<and>
       run Cmd_Health = (terminal_view dumps (get_health svc), [], v) \<and>
       run Cmd_Examples = (terminal_view dumps (get_examples svc), [], v) \<and>
       run Cmd_Strategies = (terminal_view dumps get_strategies, [], v)"
proof -
  let ?args = "\<lambda>c. args\<lparr>ca_command := c\<rparr>"
  have same: "cli_application_request disk svc (?args c) =
      (case application_request_from svc body of Inl e \<Rightarrow> Inl (Raised_Below e) | Inr r \<Rightarrow> Inr r)" for c
    by (rule same_request) (use assms(2) in \<open>simp add: says_the_same_def governance_overrides_from_args_def\<close>)
  have json: "ca_json (?args c)" for c using assms(1) by simp
  have inputs: "read_restore_inputs disk stdin (?args c) = read_restore_inputs disk stdin args" for c
  proof -
    have "ca_handle_file (?args c) = ca_handle_file args" "ca_text_file (?args c) = ca_text_file args" by simp_all
    then show ?thesis by (simp only: read_restore_inputs_def)
  qed
  show ?thesis
    unfolding Let_def
    by (simp add: preview_told [OF json _ same] compare_told [OF json _ same] execute_told [OF json _ same] others_told [OF json]
        inputs split: prod.split)
qed

definition sample_args :: cli_args where
  "sample_args =
     \<lparr>ca_json = True, ca_command = Cmd_Preview, ca_text = None, ca_file = None, ca_example = Some ''hr-1'', ca_task = None,
      ca_strategy = None, ca_purpose = None, ca_requester_role = None, ca_requester_id = None, ca_provider_class = None,
      ca_policy_version = None, ca_pseudonym_scope = None, ca_session_id = None, ca_document_id = None, ca_request_id = None,
      ca_domain = None, ca_show_payload = False, ca_handle_file = None, ca_text_file = None\<rparr>"

theorem cli_agrees_with_http_witness:
  "fst (main (\<lambda>_. ''{}'') (\<lambda>_. JNull) JNull (\<lambda>_. Inl ''FileNotFoundError'') [] [] sample_env sample_service sample_moment
     (\<lambda>_. sample_moment) (new_vault str_nat) (Parsed (sample_args\<lparr>ca_command := Cmd_Examples\<rparr>) [])) =
   \<lparr>cr_exit = 1, cr_stdout = [], cr_stderr = [''an unexpected error occurred'']\<rparr>"
proof -
  have "says_the_same (\<lambda>_. Inl ''FileNotFoundError'') sample_args example_body" by code_simp
  moreover have "terminal_view (\<lambda>_. ''{}'') (get_examples sample_service) =
    \<lparr>cr_exit = 1, cr_stdout = [], cr_stderr = [''an unexpected error occurred'']\<rparr>" by code_simp
  moreover have "ca_json sample_args" by (simp add: sample_args_def)
  ultimately show ?thesis
    using cli_agrees_with_http [where args = sample_args and disk = "\<lambda>_. Inl ''FileNotFoundError''" and body = example_body
        and dumps = "\<lambda>_. ''{}''" and number = "\<lambda>_. JNull" and ms = JNull and stdin = "[]" and usage = "[]" and env = sample_env
        and svc = sample_service and mo = sample_moment and mos = "\<lambda>_. sample_moment" and v = "new_vault str_nat"]
    by (simp add: Let_def)
qed

text \<open>
  Of the entries that the parser did not recognise, those without a leading hyphen are only counted; of one with it, the whole
  entry is printed, the value after an equals sign included, although the code means to name options only.
\<close>

lemma unrecognized_positionals_are_counted:
  assumes "filter (\<lambda>x. take 1 x = ''-'') xs = filter (\<lambda>x. take 1 x = ''-'') ys" and "length xs = length ys"
  shows "report_unrecognized usage xs = report_unrecognized usage ys"
  using assms by (simp add: report_unrecognized_def Let_def)

lemma unrecognized_option_value_is_printed:
  "report_unrecognized usage [''--txt=the document''] =
     [rev (dropWhile is_space (rev usage)), ''adg: error: unrecognized option(s): --txt=the document'']"
  by (simp add: report_unrecognized_def)

end
