(* ===== verification/Governed_Metadata.thy ===== *)
theory Governed_Metadata
  imports Treatments
begin

text \<open>
  What B4 writes about its own decisions on its span (\<open>transformations/policy_governed.py\<close>) and how the experiment runner
  reads it back (\<open>experiments/b4_span_metadata.py\<close>). The decider fills five sets while it decides; \<open>sanitize\<close>
  writes them, sorted, as attributes of the span. The sets are lists without duplicates here, and \<open>governed_note\<close> is what one
  call of the decider adds to them, branch by branch.

  The lemmas relate the sets to the decisions themselves: which flag or which block puts a category or a class into which set.
\<close>

subsection \<open>The sets that the decider fills\<close>

record governed_marks =
  gm_ambiguous_categories :: "pystr list"
  gm_policy_restricted_categories :: "pystr list"
  gm_impossible_categories :: "pystr list"
  gm_matrix_cells :: "pystr list"
  gm_block_reason_classes :: "pystr list"

definition no_marks :: governed_marks where
  "no_marks =
     \<lparr>gm_ambiguous_categories = [], gm_policy_restricted_categories = [], gm_impossible_categories = [],
      gm_matrix_cells = [], gm_block_reason_classes = []\<rparr>"

definition add_reason :: "pystr \<Rightarrow> governed_marks \<Rightarrow> governed_marks" where
  "add_reason reason m = m\<lparr>gm_block_reason_classes := List.insert reason (gm_block_reason_classes m)\<rparr>"

definition add_flags :: "pystr \<Rightarrow> bool option \<times> bool option \<Rightarrow> governed_marks \<Rightarrow> governed_marks" where
  "add_flags category flags m =
     (case flags of (restricted, impossible) \<Rightarrow>
        m\<lparr>gm_policy_restricted_categories :=
            (if restricted = Some True then List.insert category (gm_policy_restricted_categories m)
             else gm_policy_restricted_categories m),
          gm_impossible_categories :=
            (if impossible = Some True then List.insert category (gm_impossible_categories m)
             else gm_impossible_categories m)\<rparr>)"

text \<open>\<open>policy_decision.policy_version or context.policy_version\<close>\<close>

definition resolved_policy_version :: "policy_decision \<Rightarrow> governance_context \<Rightarrow> pystr" where
  "resolved_policy_version pd ctx =
     (case pd_policy_version pd of
        Some version \<Rightarrow> if version = [] then ctx_policy_version ctx else version
      | None \<Rightarrow> ctx_policy_version ctx)"

text \<open>One call of the decider. Where it raises, what it has added no longer matters.\<close>

definition governed_note ::
  "policy_repository \<Rightarrow> governance_context \<Rightarrow> relevance_map \<Rightarrow> bool \<Rightarrow> sensitive_span \<Rightarrow> governed_marks \<Rightarrow> governed_marks" where
  "governed_note repo ctx relevance analysis_failed sp m =
     (let category = sp_category sp in
      if analysis_failed then add_reason ''analysis_failed'' m
      else
        (let pd = decide repo ctx category;
             m' = m\<lparr>gm_matrix_cells :=
                      List.insert (matrix_cell ctx category (resolved_policy_version pd ctx)) (gm_matrix_cells m)\<rparr>
         in if pd_action pd = BLOCK_REQUEST then add_reason ''policy_block'' m'
            else
              (let level = dict_get relevance category in
               if pd_action pd \<noteq> TASK_DEPENDENT then
                 (case policy_effect category level (pd_action pd) of
                    Inl _ \<Rightarrow> m'
                  | Inr flags \<Rightarrow> add_flags category flags m')
               else
                 (let ordered_space = order_action_space (pd_allowed_actions pd) in
                  if ordered_space = [] \<or> length ordered_space \<noteq> card (set (pd_allowed_actions pd)) then
                    add_reason ''invalid_action_space'' m'
                  else
                    (case level of
                       None \<Rightarrow> add_reason ''analysis_failed'' m'
                     | Some l \<Rightarrow>
                         if l = AMBIGUOUS then
                           m'\<lparr>gm_ambiguous_categories := List.insert category (gm_ambiguous_categories m')\<rparr>
                         else
                           (case select_action_for_relevance l ordered_space of
                              Inl _ \<Rightarrow> m'
                            | Inr chosen \<Rightarrow>
                                (case policy_effect category level chosen of
                                   Inl _ \<Rightarrow> m'
                                 | Inr flags \<Rightarrow> add_flags category flags m')))))))"

definition governed_marks_of ::
  "policy_repository \<Rightarrow> governance_context \<Rightarrow> relevance_map \<Rightarrow> bool \<Rightarrow> sensitive_span list \<Rightarrow> governed_marks" where
  "governed_marks_of repo ctx relevance analysis_failed ordered =
     foldl (\<lambda>m sp. governed_note repo ctx relevance analysis_failed sp m) no_marks ordered"

subsection \<open>The attributes of the span\<close>

record governed_attributes =
  ga_policy_version :: "pystr option"
  ga_span_count :: "nat option"
  ga_blocked :: "bool option"
  ga_block_reason_class :: "pystr option"
  ga_categories :: "pystr list option"
  ga_analysis_failed :: "bool option"
  ga_ambiguous_categories :: "pystr list option"
  ga_policy_restricted_categories :: "pystr list option"
  ga_impossible_under_policy_categories :: "pystr list option"
  ga_matrix_cells :: "pystr list option"
  ga_block_reason_classes :: "pystr list option"
  ga_pseudonym_scope :: "pystr option"

definition governed_attributes_of ::
  "'v vault_ops \<Rightarrow> policy_repository \<Rightarrow> task_analyzer \<Rightarrow> 'v \<Rightarrow> disclosure_request \<Rightarrow> sensitive_span list \<Rightarrow>
     governed_attributes result" where
  "governed_attributes_of ops repo analyze v request spans =
     (if \<not> spans_are_valid spans (rq_text request) then
        Inr \<lparr>ga_policy_version = Some (ctx_policy_version (rq_context request)), ga_span_count = Some (length spans),
             ga_blocked = Some True, ga_block_reason_class = Some ''invalid_spans'',
             ga_categories = Some (sorted_set (map sp_category spans)), ga_analysis_failed = None,
             ga_ambiguous_categories = None, ga_policy_restricted_categories = None,
             ga_impossible_under_policy_categories = None, ga_matrix_cells = None, ga_block_reason_classes = None,
             ga_pseudonym_scope = None\<rparr>
      else
        (case resolve_overlaps spans of
           Inl e \<Rightarrow> Inl e
         | Inr ordered \<Rightarrow>
             (let categories = sorted_set (map sp_category ordered);
                  (relevance, analysis_failed) = analyze_relevance analyze (rq_task request) categories;
                  marks = governed_marks_of repo (rq_context request) relevance analysis_failed ordered
              in case apply_decisions ops v repo POLICY_GOVERNED_REASONS (rq_text request) ordered
                        (policy_governed_decide repo (rq_context request) relevance analysis_failed)
                        (rq_context request) of
                   Inl e \<Rightarrow> Inl e
                 | Inr (outcome, _) \<Rightarrow>
                     (let reasons =
                            (if ao_blocked outcome \<and> gm_block_reason_classes marks = []
                             then [''invalid_spans_or_missing_scope''] else gm_block_reason_classes marks)
                      in Inr \<lparr>ga_policy_version = Some (ctx_policy_version (rq_context request)),
                              ga_span_count = Some (length ordered), ga_blocked = Some (ao_blocked outcome),
                              ga_block_reason_class = None, ga_categories = Some categories,
                              ga_analysis_failed = Some analysis_failed,
                              ga_ambiguous_categories = Some (sorted_set (gm_ambiguous_categories marks)),
                              ga_policy_restricted_categories = Some (sorted_set (gm_policy_restricted_categories marks)),
                              ga_impossible_under_policy_categories = Some (sorted_set (gm_impossible_categories marks)),
                              ga_matrix_cells = Some (sorted_set (gm_matrix_cells marks)),
                              ga_block_reason_classes = Some (sorted_set reasons),
                              ga_pseudonym_scope = map_option scope_value (ao_pseudonym_scope outcome)\<rparr>))))"

subsection \<open>Reading them back\<close>

record b4_metadata =
  bm_matrix_cells :: "pystr list"
  bm_policy_restricted_categories :: "pystr list"
  bm_impossible_under_policy_categories :: "pystr list"
  bm_block_reason_classes :: "pystr list"
  bm_blocked :: "bool option"
  bm_policy_version :: "pystr option"

definition B4_SPAN_NAME :: pystr where
  "B4_SPAN_NAME = ''policy_governed.sanitize''"

text \<open>The finished spans of a run by name; attributes are read of B4's only.\<close>

definition extract_b4_metadata :: "(pystr \<times> governed_attributes) list \<Rightarrow> b4_metadata option" where
  "extract_b4_metadata spans =
     (case find (\<lambda>(name, attributes). name = B4_SPAN_NAME) spans of
        None \<Rightarrow> None
      | Some (_, attributes) \<Rightarrow>
          Some \<lparr>bm_matrix_cells = the_default [] (ga_matrix_cells attributes),
                bm_policy_restricted_categories = the_default [] (ga_policy_restricted_categories attributes),
                bm_impossible_under_policy_categories = the_default [] (ga_impossible_under_policy_categories attributes),
                bm_block_reason_classes = the_default [] (ga_block_reason_classes attributes),
                bm_blocked = ga_blocked attributes, bm_policy_version = ga_policy_version attributes\<rparr>)"

subsection \<open>What a call adds\<close>

lemmas note_defs = governed_note_def add_reason_def add_flags_def no_marks_def Let_def

text \<open>What a call adds does not depend on what is already there.\<close>

definition noted :: "(governed_marks \<Rightarrow> pystr list) \<Rightarrow> bool" where
  "noted field \<longleftrightarrow> (\<forall>repo ctx relevance failed sp m.
     set (field (governed_note repo ctx relevance failed sp m)) =
       set (field m) \<union> set (field (governed_note repo ctx relevance failed sp no_marks)))"

lemma every_field_noted:
  "noted gm_policy_restricted_categories" "noted gm_impossible_categories" "noted gm_matrix_cells"
  "noted gm_block_reason_classes"
  unfolding noted_def note_defs
  by (auto split: option.splits sum.splits prod.splits)

lemma marks_set:
  assumes "noted field" and "field no_marks = []"
  shows "set (field (governed_marks_of repo ctx relevance failed ordered)) =
    (\<Union>sp \<in> set ordered. set (field (governed_note repo ctx relevance failed sp no_marks)))"
proof -
  have "set (field (foldl (\<lambda>m sp. governed_note repo ctx relevance failed sp m) m ordered)) =
      set (field m) \<union> (\<Union>sp \<in> set ordered. set (field (governed_note repo ctx relevance failed sp no_marks)))" for m
  proof (induction ordered arbitrary: m)
    case (Cons sp ordered)
    have "set (field (governed_note repo ctx relevance failed sp m)) =
        set (field m) \<union> set (field (governed_note repo ctx relevance failed sp no_marks))"
      using assms(1) unfolding noted_def by blast
    with Cons.IH [of "governed_note repo ctx relevance failed sp m"] show ?case by auto
  qed simp
  from this [of no_marks] assms(2) show ?thesis by (simp add: governed_marks_of_def)
qed

text \<open>What it adds is what the decision says.\<close>

lemma note_flags:
  assumes "policy_governed_decide repo ctx relevance failed sp = Inr d"
  shows "set (gm_policy_restricted_categories (governed_note repo ctx relevance failed sp no_marks)) =
      {c. c = sp_category sp \<and> ad_policy_restricted d = Some True}"
    and "set (gm_impossible_categories (governed_note repo ctx relevance failed sp no_marks)) =
      {c. c = sp_category sp \<and> ad_impossible_under_policy d = Some True}"
  using assms unfolding policy_governed_decide_def note_defs
  by (auto simp: plain_action_def split: if_splits option.splits sum.splits prod.splits)

lemma note_reasons:
  assumes "policy_governed_decide repo ctx relevance failed sp = Inr d"
  shows "gm_block_reason_classes (governed_note repo ctx relevance failed sp no_marks) \<noteq> [] \<longleftrightarrow> ad_action d = BLOCK_REQUEST"
proof (cases "failed \<or> pd_action (decide repo ctx (sp_category sp)) = BLOCK_REQUEST")
  case True
  then show ?thesis using assms unfolding policy_governed_decide_def note_defs
    by (auto simp: plain_action_def split: if_splits)
next
  case False
  have sel: "select_action_for_relevance l (order_action_space as) = Inr a \<Longrightarrow> a \<noteq> BLOCK_REQUEST" for l as a
    using select_member [of l "order_action_space as" a] order_action_space_mem [of a as] by (auto simp: is_level_iff)
  have hd: "order_action_space as \<noteq> [] \<Longrightarrow> hd (order_action_space as) \<noteq> BLOCK_REQUEST" for as
    using hd_in_set [of "order_action_space as"] order_action_space_mem [of "hd (order_action_space as)" as]
    by (auto simp: is_level_iff)
  show ?thesis using False assms sel hd unfolding policy_governed_decide_def note_defs
    by (auto simp: plain_action_def split: if_splits option.splits sum.splits prod.splits)
qed

lemma note_policy_block:
  "''policy_block'' \<in> set (gm_block_reason_classes (governed_note repo ctx relevance failed sp no_marks)) \<longleftrightarrow>
     \<not> failed \<and> pd_action (decide repo ctx (sp_category sp)) = BLOCK_REQUEST"
  unfolding note_defs by (auto split: option.splits sum.splits prod.splits)

lemma note_classes:
  "set (gm_block_reason_classes (governed_note repo ctx relevance failed sp no_marks)) \<subseteq>
     {''analysis_failed'', ''policy_block'', ''invalid_action_space''}"
  unfolding note_defs by (auto split: option.splits sum.splits prod.splits)

lemma note_cells:
  "set (gm_matrix_cells (governed_note repo ctx relevance failed sp no_marks)) =
     (if failed then {}
      else {matrix_cell ctx (sp_category sp) (resolved_policy_version (decide repo ctx (sp_category sp)) ctx)})"
  unfolding note_defs by (auto split: option.splits sum.splits prod.splits)


lemma flags_of_decision:
  assumes "policy_governed_decide repo ctx relevance failed sp = Inr d" and "ad_impossible_under_policy d \<noteq> None"
  obtains chosen where "policy_effect (sp_category sp) (dict_get relevance (sp_category sp)) chosen =
      Inr (ad_policy_restricted d, ad_impossible_under_policy d)" and "is_level chosen"
proof -
  let ?pd = "decide repo ctx (sp_category sp)"
  have nf: "\<not> failed" and nb: "pd_action ?pd \<noteq> BLOCK_REQUEST"
    using assms by (auto simp: policy_governed_decide_def plain_action_def Let_def split: if_splits)
  show thesis
  proof (cases "pd_action ?pd = TASK_DEPENDENT")
    case False
    with nb have "is_level (pd_action ?pd)" by (simp add: is_level_iff)
    with that policy_governed_hard [OF refl this, of relevance] assms(1) nf show thesis by auto
  next
    case True
    have lv: "list_all is_level (pd_allowed_actions ?pd)"
      using policy_governed_invalid_space [OF True] nf assms by (fastforce simp: plain_action_def)
    obtain l where l: "dict_get relevance (sp_category sp) = Some l"
      using assms True nf by (cases "dict_get relevance (sp_category sp)")
        (auto simp: policy_governed_decide_def plain_action_def Let_def split: if_splits)
    have "l \<noteq> AMBIGUOUS"
      using assms True nf l by (auto simp: policy_governed_decide_def plain_action_def Let_def split: if_splits)
    with policy_governed_task_dependent [OF True lv l] assms(1) nf
    have e: "select_action_for_relevance l (order_action_space (pd_allowed_actions ?pd)) = Inr (ad_action d)"
      "policy_effect (sp_category sp) (Some l) (ad_action d) = Inr (ad_policy_restricted d, ad_impossible_under_policy d)"
      by auto
    have "is_level (ad_action d)" using select_member [OF e(1)] by simp
    with that e(2) l show thesis by simp
  qed
qed

lemma impossible_decision_is_restricted:
  assumes "policy_governed_decide repo ctx relevance failed sp = Inr d" and "ad_impossible_under_policy d = Some True"
  shows "ad_policy_restricted d = Some True"
  by (rule flags_of_decision [OF assms(1)]) (use assms(2) impossible_is_restricted in auto)

lemma marks_classes:
  "set (gm_block_reason_classes (governed_marks_of repo ctx relevance failed ordered)) \<subseteq>
     {''analysis_failed'', ''policy_block'', ''invalid_action_space''}"
proof -
  have "set (gm_block_reason_classes (governed_marks_of repo ctx relevance failed ordered)) =
      (\<Union>sp \<in> set ordered. set (gm_block_reason_classes (governed_note repo ctx relevance failed sp no_marks)))"
    by (rule marks_set [OF every_field_noted(4)]) (simp add: no_marks_def)
  with note_classes show ?thesis by blast
qed

text \<open>The sets after all calls, when the decisions are known.\<close>

lemma marks_of_decisions:
  assumes "\<forall>sp \<in> set ordered. policy_governed_decide repo ctx relevance failed sp = Inr (f sp)"
  shows "set (gm_policy_restricted_categories (governed_marks_of repo ctx relevance failed ordered)) =
      {sp_category sp | sp. sp \<in> set ordered \<and> ad_policy_restricted (f sp) = Some True}"
    and "set (gm_impossible_categories (governed_marks_of repo ctx relevance failed ordered)) =
      {sp_category sp | sp. sp \<in> set ordered \<and> ad_impossible_under_policy (f sp) = Some True}"
    and "gm_block_reason_classes (governed_marks_of repo ctx relevance failed ordered) = [] \<longleftrightarrow>
      (\<forall>sp \<in> set ordered. ad_action (f sp) \<noteq> BLOCK_REQUEST)"
    and "''policy_block'' \<in> set (gm_block_reason_classes (governed_marks_of repo ctx relevance failed ordered)) \<longleftrightarrow>
      \<not> failed \<and> (\<exists>sp \<in> set ordered. pd_action (decide repo ctx (sp_category sp)) = BLOCK_REQUEST)"
    and "set (gm_matrix_cells (governed_marks_of repo ctx relevance failed ordered)) =
      (if failed then {}
       else {matrix_cell ctx (sp_category sp) (resolved_policy_version (decide repo ctx (sp_category sp)) ctx) | sp. sp \<in> set ordered})"
proof -
  have each: "set (gm_policy_restricted_categories (governed_note repo ctx relevance failed sp no_marks)) =
      {c. c = sp_category sp \<and> ad_policy_restricted (f sp) = Some True}"
    "set (gm_impossible_categories (governed_note repo ctx relevance failed sp no_marks)) =
      {c. c = sp_category sp \<and> ad_impossible_under_policy (f sp) = Some True}"
    "set (gm_block_reason_classes (governed_note repo ctx relevance failed sp no_marks)) = {} \<longleftrightarrow> ad_action (f sp) \<noteq> BLOCK_REQUEST"
    if "sp \<in> set ordered" for sp
    using note_flags [OF bspec [OF assms that]] note_reasons [OF bspec [OF assms that]]
    by (simp_all add: set_empty) blast
  have sets: "set (field (governed_marks_of repo ctx relevance failed ordered)) =
      (\<Union>sp \<in> set ordered. set (field (governed_note repo ctx relevance failed sp no_marks)))"
    if "noted field" "field no_marks = []" for field
    using marks_set [OF that] .
  note sets = sets [OF every_field_noted(1)] sets [OF every_field_noted(2)] sets [OF every_field_noted(3)]
    sets [OF every_field_noted(4)]
  show "set (gm_policy_restricted_categories (governed_marks_of repo ctx relevance failed ordered)) =
      {sp_category sp | sp. sp \<in> set ordered \<and> ad_policy_restricted (f sp) = Some True}"
    using sets(1) each(1) by (auto simp: no_marks_def)
  show "set (gm_impossible_categories (governed_marks_of repo ctx relevance failed ordered)) =
      {sp_category sp | sp. sp \<in> set ordered \<and> ad_impossible_under_policy (f sp) = Some True}"
    using sets(2) each(2) by (auto simp: no_marks_def)
  have r: "set (gm_block_reason_classes (governed_marks_of repo ctx relevance failed ordered)) =
      (\<Union>sp \<in> set ordered. set (gm_block_reason_classes (governed_note repo ctx relevance failed sp no_marks)))"
    by (rule sets(4)) (simp add: no_marks_def)
  show "gm_block_reason_classes (governed_marks_of repo ctx relevance failed ordered) = [] \<longleftrightarrow>
      (\<forall>sp \<in> set ordered. ad_action (f sp) \<noteq> BLOCK_REQUEST)"
    unfolding set_empty [symmetric] r using each(3) by (simp only: UNION_empty_conv) blast
  show "''policy_block'' \<in> set (gm_block_reason_classes (governed_marks_of repo ctx relevance failed ordered)) \<longleftrightarrow>
      \<not> failed \<and> (\<exists>sp \<in> set ordered. pd_action (decide repo ctx (sp_category sp)) = BLOCK_REQUEST)"
    unfolding r UN_iff note_policy_block by blast
  show "set (gm_matrix_cells (governed_marks_of repo ctx relevance failed ordered)) =
      (if failed then {}
       else {matrix_cell ctx (sp_category sp) (resolved_policy_version (decide repo ctx (sp_category sp)) ctx) | sp. sp \<in> set ordered})"
  proof -
    have c: "set (gm_matrix_cells (governed_marks_of repo ctx relevance failed ordered)) =
        (\<Union>sp \<in> set ordered. set (gm_matrix_cells (governed_note repo ctx relevance failed sp no_marks)))"
      by (rule sets(3)) (simp add: no_marks_def)
    show ?thesis unfolding c note_cells by auto
  qed
qed

text \<open>When the decision depends on the category only, the decisions of a result are those of all its spans.\<close>

lemma first_decisions_set:
  assumes "\<forall>p \<in> set pairs. snd p = g (sp_category (fst p))"
  shows "set (first_decisions seen pairs) =
    (\<lambda>c. allowed_decision c (g c)) ` (sp_category ` fst ` set pairs - set seen)"
  using assms
proof (induction seen pairs rule: first_decisions.induct)
  case (2 seen sp d rest)
  let ?A = "sp_category ` fst ` set rest"
  have A: "sp_category ` fst ` set ((sp, d) # rest) = insert (sp_category sp) ?A" by simp
  show ?case
  proof (cases "sp_category sp \<in> set seen")
    case True
    then have "insert (sp_category sp) ?A - set seen = ?A - set seen" by blast
    with True 2 show ?thesis unfolding A by simp
  next
    case False
    then have "insert (sp_category sp) ?A - set seen = insert (sp_category sp) (?A - set (sp_category sp # seen))" by auto
    with False 2 show ?thesis unfolding A by simp
  qed
qed simp

text \<open>What reading the metadata of a decision gives.\<close>

lemma read_metadata:
  assumes "policy_governed_sanitize ops repo analyze v request spans = Inr (res, v')"
    and "spans_are_valid spans (rq_text request)"
  shows "\<exists>attributes m. governed_attributes_of ops repo analyze v request spans = Inr attributes \<and>
    extract_b4_metadata [(B4_SPAN_NAME, attributes)] = Some m \<and>
    bm_blocked m = Some (rs_status res = Blocked) \<and>
    (bm_block_reason_classes m = [] \<longleftrightarrow> rs_status res = Allowed) \<and>
    set (bm_impossible_under_policy_categories m) \<subseteq> set (bm_policy_restricted_categories m) \<and>
    (rs_status res = Allowed \<longrightarrow>
       set (bm_policy_restricted_categories m) =
         {pd_category d | d. d \<in> set (rs_decisions res) \<and> pd_policy_restricted d = Some True} \<and>
       set (bm_impossible_under_policy_categories m) =
         {pd_category d | d. d \<in> set (rs_decisions res) \<and> pd_impossible_under_policy d = Some True} \<and>
       set (bm_matrix_cells m) =
         {matrix_cell (rq_context request) (pd_category d)
            (resolved_policy_version (decide repo (rq_context request) (pd_category d)) (rq_context request)) | d.
          d \<in> set (rs_decisions res)}) \<and>
    (''policy_block'' \<in> set (bm_block_reason_classes m) \<longrightarrow>
       (\<exists>sp \<in> set spans. pd_action (decide repo (rq_context request) (sp_category sp)) = BLOCK_REQUEST)) \<and>
    (''invalid_spans_or_missing_scope'' \<in> set (bm_block_reason_classes m) \<longrightarrow>
       scope_key (resolve_pseudonym_scope repo (rq_context request)) (rq_context request) = None \<or>
       (\<exists>sp \<in> set spans. \<exists>e. generalize (sp_category sp) (sp_value sp) = Inl e))"
proof -
  let ?ctx = "rq_context request"
  obtain ordered where ord: "resolve_overlaps spans = Inr ordered"
    using resolve_overlaps_total [OF spans_are_valid_structural [OF assms(2)]] by blast
  have sub: "set ordered \<subseteq> set spans" using resolve_overlaps_subset [OF ord] .
  obtain relevance failed where r: "analyze_relevance analyze (rq_task request) (sorted_set (map sp_category ordered)) =
      (relevance, failed)" by force
  let ?dec = "policy_governed_decide repo ?ctx relevance failed"
  define f where "f sp = outcome_of (?dec sp)" for sp
  have dec: "\<forall>sp \<in> set ordered. ?dec sp = Inr (f sp)"
    using policy_governed_decider_total [of _ ordered repo analyze request] r
    by (simp add: policy_governed_decider_def f_def)
  let ?marks = "governed_marks_of repo ?ctx relevance failed ordered"
  note marks = marks_of_decisions [OF dec]
  obtain outcome where ap: "apply_decisions ops v repo POLICY_GOVERNED_REASONS (rq_text request) ordered ?dec ?ctx =
      Inr (outcome, v')" and res: "res = ao_result outcome"
    using assms r ord by (auto simp: policy_governed_sanitize_def Let_def split: sum.splits)
  define g where "g c = outcome_of (?dec \<lparr>sp_category = c, sp_value = [], sp_start = None, sp_end = None, sp_confidence = None\<rparr>)"
    for c
  have fg: "f sp = g (sp_category sp)" for sp by (simp add: f_def g_def policy_governed_decide_def)
  have acts: "ad_action (f sp) \<noteq> BLOCK_REQUEST" if "\<not> some_block f ordered" "sp \<in> set ordered" for sp
    using that by (auto simp: some_block_def list_ex_iff downgrade_action split: if_splits)
  let ?all = "(ao_blocked outcome \<longleftrightarrow> rs_status res = Blocked) \<and> (rs_status res = Allowed \<longrightarrow> \<not> some_block f ordered \<and>
        set (rs_decisions res) = (\<lambda>c. allowed_decision c (g c)) ` sp_category ` set ordered) \<and>
        (rs_status res = Blocked \<longrightarrow> some_block f ordered \<or> scope_key (resolve_pseudonym_scope repo ?ctx) ?ctx = None)"
  have status: "ao_blocked outcome \<longleftrightarrow> rs_status res = Blocked"
    and allowed: "rs_status res = Allowed \<Longrightarrow> \<not> some_block f ordered \<and>
      set (rs_decisions res) = (\<lambda>c. allowed_decision c (g c)) ` sp_category ` set ordered"
    and blocked: "rs_status res = Blocked \<Longrightarrow> some_block f ordered \<or> scope_key (resolve_pseudonym_scope repo ?ctx) ?ctx = None"
    unfolding atomize_conj atomize_imp
  proof (cases rule: apply_decisions_cases [where ops = ops and v = v and repo = repo and reasons = POLICY_GOVERNED_REASONS
        and ctx = ?ctx, OF dec, of "rq_text request"])
    case 1
    with ap res show ?all
      by (auto simp: shared_blocked_results)
  next
    case 2
    with ap res show ?all
      by (auto simp: shared_blocked_results)
  next
    case (3 key vals w)
    have "\<forall>p \<in> set (decided f ordered). snd p = g (sp_category (fst p))"
    proof
      fix p assume "p \<in> set (decided f ordered)"
      then obtain sp where sp: "sp \<in> set ordered" "p = (sp, downgrade (f sp) sp)" by (auto simp: decided_def)
      then have "ad_action (downgrade (f sp) sp) \<noteq> BLOCK_REQUEST" using 3(1) by (auto simp: some_block_def list_ex_iff)
      with sp show "snd p = g (sp_category (fst p))" by (simp add: downgrade_allowed fg)
    qed
    from first_decisions_set [OF this, of "[]"] allowed_walk_decisions [OF 3(4)]
    have "set (wk_decisions w) = (\<lambda>c. allowed_decision c (g c)) ` sp_category ` set ordered"
      by (simp add: decided_def image_image)
    with 3 ap res show ?all
      by auto
  qed
  define reasons where "reasons = (if ao_blocked outcome \<and> gm_block_reason_classes ?marks = []
    then [''invalid_spans_or_missing_scope''] else gm_block_reason_classes ?marks)"
  define m where "m = \<lparr>bm_matrix_cells = sorted_set (gm_matrix_cells ?marks),
    bm_policy_restricted_categories = sorted_set (gm_policy_restricted_categories ?marks),
    bm_impossible_under_policy_categories = sorted_set (gm_impossible_categories ?marks),
    bm_block_reason_classes = sorted_set reasons, bm_blocked = Some (ao_blocked outcome),
    bm_policy_version = Some (ctx_policy_version ?ctx)\<rparr>"
  have read: "\<exists>attributes. governed_attributes_of ops repo analyze v request spans = Inr attributes \<and>
      extract_b4_metadata [(B4_SPAN_NAME, attributes)] = Some m"
    using assms(2) ord r ap
    by (simp add: governed_attributes_of_def extract_b4_metadata_def m_def reasons_def Let_def)
  have sets: "set (bm_policy_restricted_categories m) =
        {c \<in> sp_category ` set ordered. ad_policy_restricted (g c) = Some True}"
      "set (bm_impossible_under_policy_categories m) =
        {c \<in> sp_category ` set ordered. ad_impossible_under_policy (g c) = Some True}"
    unfolding m_def b4_metadata.select_convs set_sorted_set marks(1,2) fg by auto
  have subset: "set (bm_impossible_under_policy_categories m) \<subseteq> set (bm_policy_restricted_categories m)"
    unfolding sets using dec impossible_decision_is_restricted by (auto simp: fg)
  have of_allowed: "set (bm_policy_restricted_categories m) =
         {pd_category d | d. d \<in> set (rs_decisions res) \<and> pd_policy_restricted d = Some True} \<and>
       set (bm_impossible_under_policy_categories m) =
         {pd_category d | d. d \<in> set (rs_decisions res) \<and> pd_impossible_under_policy d = Some True} \<and>
       set (bm_matrix_cells m) =
         {matrix_cell ?ctx (pd_category d) (resolved_policy_version (decide repo ?ctx (pd_category d)) ?ctx) | d.
          d \<in> set (rs_decisions res)}"
    if "rs_status res = Allowed"
  proof (intro conjI)
    note ds = allowed [OF that, THEN conjunct2]
    show "set (bm_policy_restricted_categories m) =
        {pd_category d | d. d \<in> set (rs_decisions res) \<and> pd_policy_restricted d = Some True}"
      "set (bm_impossible_under_policy_categories m) =
        {pd_category d | d. d \<in> set (rs_decisions res) \<and> pd_impossible_under_policy d = Some True}"
      unfolding sets ds by (force simp: allowed_decision_def)+
    have "ordered = []" if "failed"
    proof (rule ccontr)
      assume "ordered \<noteq> []"
      then have sp: "hd ordered \<in> set ordered" by simp
      have "ad_action (f (hd ordered)) = BLOCK_REQUEST"
        using dec sp that by (simp add: policy_governed_failed plain_action_def) (metis action_decision.select_convs(1) plain_action_action sum.inject(2))
      then show False using acts [OF allowed [OF \<open>rs_status res = Allowed\<close>, THEN conjunct1] sp] by simp
    qed
    then show "set (bm_matrix_cells m) =
        {matrix_cell ?ctx (pd_category d) (resolved_policy_version (decide repo ?ctx (pd_category d)) ?ctx) | d.
          d \<in> set (rs_decisions res)}"
      unfolding m_def b4_metadata.select_convs set_sorted_set marks(5) ds
      by (cases failed) (simp, force simp: allowed_decision_def)
  qed
  have none: "bm_block_reason_classes m = [] \<longleftrightarrow> rs_status res = Allowed"
    using status marks(3) acts allowed
    by (cases "rs_status res") (auto simp: m_def reasons_def)
  have pol: "\<exists>sp \<in> set spans. pd_action (decide repo ?ctx (sp_category sp)) = BLOCK_REQUEST"
    if "''policy_block'' \<in> set (bm_block_reason_classes m)"
    using that marks(4) sub by (auto simp: m_def reasons_def split: if_splits)
  have unnamed: "scope_key (resolve_pseudonym_scope repo ?ctx) ?ctx = None \<or>
      (\<exists>sp \<in> set spans. \<exists>e. generalize (sp_category sp) (sp_value sp) = Inl e)"
    if i: "''invalid_spans_or_missing_scope'' \<in> set (bm_block_reason_classes m)"
  proof -
    have "ao_blocked outcome \<and> gm_block_reason_classes ?marks = []"
    proof (rule ccontr)
      assume "\<not> ?thesis"
      with i have "''invalid_spans_or_missing_scope'' \<in> set (gm_block_reason_classes ?marks)"
        by (simp add: m_def reasons_def)
      then show False using marks_classes by blast
    qed
    then have b: "rs_status res = Blocked" "\<forall>sp \<in> set ordered. ad_action (f sp) \<noteq> BLOCK_REQUEST"
      using status marks(3) by auto
    from blocked [OF b(1)] show ?thesis
      using b(2) sub by (auto simp: some_block_def list_ex_iff downgrade_action split: if_splits)
  qed
  from read status subset of_allowed none pol unnamed show ?thesis
    by (auto simp: m_def)
qed

subsection \<open>Properties\<close>

text \<open>
  C32: the metadata that the runner reads back agrees with what B4 decided. \<open>blocked\<close> is the status of the result, and some class of
  reasons is named exactly when the result is blocked; an impossible category is a restricted one; of an allowed result the
  restricted and the impossible categories are those of the decisions that carry these flags, and the matrix cells are
  those of its decisions. \<open>policy_block\<close> is named only when the policy blocks a detected category. The class
  \<open>invalid_spans_or_missing_scope\<close> is named, for spans that are valid, when no scope identifier is there or, against its name,
  when a value could not be generalized.
\<close>

theorem b4_metadata_is_truthful:
  assumes "policy_governed_sanitize ops repo analyze v request spans = Inr (res, v')"
    and "spans_are_valid spans (rq_text request)"
  shows "\<exists>attributes m. governed_attributes_of ops repo analyze v request spans = Inr attributes \<and>
    extract_b4_metadata [(B4_SPAN_NAME, attributes)] = Some m \<and>
    bm_blocked m = Some (rs_status res = Blocked) \<and>
    (bm_block_reason_classes m = [] \<longleftrightarrow> rs_status res = Allowed) \<and>
    set (bm_impossible_under_policy_categories m) \<subseteq> set (bm_policy_restricted_categories m) \<and>
    (rs_status res = Allowed \<longrightarrow>
       set (bm_policy_restricted_categories m) =
         {pd_category d | d. d \<in> set (rs_decisions res) \<and> pd_policy_restricted d = Some True} \<and>
       set (bm_impossible_under_policy_categories m) =
         {pd_category d | d. d \<in> set (rs_decisions res) \<and> pd_impossible_under_policy d = Some True} \<and>
       set (bm_matrix_cells m) =
         {matrix_cell (rq_context request) (pd_category d)
            (resolved_policy_version (decide repo (rq_context request) (pd_category d)) (rq_context request)) | d.
          d \<in> set (rs_decisions res)}) \<and>
    (''policy_block'' \<in> set (bm_block_reason_classes m) \<longrightarrow>
       (\<exists>sp \<in> set spans. pd_action (decide repo (rq_context request) (sp_category sp)) = BLOCK_REQUEST)) \<and>
    (''invalid_spans_or_missing_scope'' \<in> set (bm_block_reason_classes m) \<longrightarrow>
       scope_key (resolve_pseudonym_scope repo (rq_context request)) (rq_context request) = None \<or>
       (\<exists>sp \<in> set spans. \<exists>e. generalize (sp_category sp) (sp_value sp) = Inl e))"
  by (rule read_metadata [OF assms])

definition sample_b4_attributes :: "pystr \<Rightarrow> governed_attributes result" where
  "sample_b4_attributes salary =
     governed_attributes_of in_memory_ops sample_repository (\<lambda>_ _. Inr [(''salary'', Some RELEVANT_WITH_EXACT_VALUE)])
       (new_vault str_nat) (sample_request (''pay '' @ salary @ '' today'')) [one_span ''salary'' salary 4]"

theorem b4_metadata_is_truthful_witness:
  "\<exists>attributes m. sample_b4_attributes ''100'' = Inr attributes \<and>
     extract_b4_metadata [(B4_SPAN_NAME, attributes)] = Some m \<and> bm_blocked m = Some False \<and> bm_block_reason_classes m = []"
proof -
  have run: "case sample_b4_run (Inr [(''salary'', Some RELEVANT_WITH_EXACT_VALUE)]) of
      Inl _ \<Rightarrow> False | Inr (res, v') \<Rightarrow> rs_status res = Allowed"
    by code_simp
  then obtain res v' where r: "sample_b4_run (Inr [(''salary'', Some RELEVANT_WITH_EXACT_VALUE)]) = Inr (res, v')"
    "rs_status res = Allowed" by (auto split: sum.splits)
  have "spans_are_valid [one_span ''salary'' ''100'' 4] (rq_text (sample_request ''pay 100 today''))" by code_simp
  from b4_metadata_is_truthful [OF r(1) [unfolded sample_b4_run_def] this] r(2) show ?thesis
    by (auto simp: sample_b4_attributes_def)
qed

end
