(* ===== verification/Experiment.thy ===== *)
theory Experiment
  imports Governed_Metadata Utility
begin

text \<open>
  One case of the experiment runner (\<open>experiments/execution.py\<close>, \<open>corpus_source.py\<close>, \<open>run_identity.py\<close>,
  \<open>provider_instrumentation.py\<close>, \<open>stage_timing.py\<close>, \<open>resource_metrics.py\<close>): the request built from an input, the
  delegate that records a provider's calls, the stages' timings read from the spans, and \<open>execute_case\<close>, which never sees an
  oracle.

  What no input determines is a record \<open>case_environment\<close>: the tokens of a fresh vault, the finished spans and the clocks, the
  identifiers. HMAC with the key of the process, SHA-256 and \<open>repr\<close> are the fields of \<open>run_library\<close>. Besides its result,
  \<open>execute_case\<close> yields the requests submitted to the provider and the supplied provider after the call, since
  a delegate that the caller supplies keeps the metrics of its last call. A call abandoned at its deadline records nothing.
\<close>

subsection \<open>Building a request\<close>

definition DEFAULT_HARNESS_SESSION_ID :: pystr where
  "DEFAULT_HARNESS_SESSION_ID = ''t10-experiment-runner-session''"

text \<open>
  \<open>model_copy(update=...)\<close> with texts, the kind of override the contextual matrix uses. A name that is no field of the
  context changes none; the requested scope, which is no text, is not overridden.
\<close>

definition override_one :: "governance_context \<Rightarrow> pystr \<times> pystr \<Rightarrow> governance_context" where
  "override_one ctx entry =
     (case entry of (field, value) \<Rightarrow>
        if field = ''domain'' then ctx\<lparr>ctx_domain := value\<rparr>
        else if field = ''purpose'' then ctx\<lparr>ctx_purpose := value\<rparr>
        else if field = ''requester_role'' then ctx\<lparr>ctx_requester_role := Some value\<rparr>
        else if field = ''requester_id'' then ctx\<lparr>ctx_requester_id := Some value\<rparr>
        else if field = ''provider_class'' then ctx\<lparr>ctx_provider_class := value\<rparr>
        else if field = ''policy_version'' then ctx\<lparr>ctx_policy_version := value\<rparr>
        else if field = ''request_id'' then ctx\<lparr>ctx_request_id := Some value\<rparr>
        else if field = ''document_id'' then ctx\<lparr>ctx_document_id := Some value\<rparr>
        else if field = ''session_id'' then ctx\<lparr>ctx_session_id := Some value\<rparr>
        else ctx)"

definition build_request :: "corpus_case_input \<Rightarrow> pystr \<Rightarrow> (pystr \<times> pystr) list \<Rightarrow> disclosure_request" where
  "build_request case_input default_session_id context_overrides =
     (let request = to_disclosure_request case_input;
          ctx = rq_context request;
          with_session = (if ctx_session_id ctx = None then ctx\<lparr>ctx_session_id := Some default_session_id\<rparr> else ctx)
      in request\<lparr>rq_context := foldl override_one with_session context_overrides\<rparr>)"

subsection \<open>The identity of a run\<close>

definition SCHEMA_VERSION :: pystr where
  "SCHEMA_VERSION = ''t10-experiment-runner-v4''"

definition B3_TASK_AWARE_BASELINE_COMMIT :: pystr where
  "B3_TASK_AWARE_BASELINE_COMMIT = ''31bce08b7ea6a5c905f7a20bbb4bb99a05682bab''"

definition B4_POLICY_GOVERNED_COMMIT :: pystr where
  "B4_POLICY_GOVERNED_COMMIT = ''5abea8514fa10ac64b9bc3714bbfd3f18682f713''"

datatype run_classification = PILOT_DEVELOPMENT | HELD_OUT_CONFIRMATORY

definition TREATMENT_VERSION_BY_TREATMENT :: "(treatment, pystr) dict" where
  "TREATMENT_VERSION_BY_TREATMENT =
     [(TASK_AWARE, B3_TASK_AWARE_BASELINE_COMMIT), (POLICY_GOVERNED, B4_POLICY_GOVERNED_COMMIT)]"

definition TASK_AWARE_BASELINE_VERSION_BY_TREATMENT :: "(treatment, pystr) dict" where
  "TASK_AWARE_BASELINE_VERSION_BY_TREATMENT =
     [(TASK_AWARE, B3_TASK_AWARE_BASELINE_COMMIT), (POLICY_GOVERNED, B3_TASK_AWARE_BASELINE_COMMIT)]"

text \<open>\<open>treatment.name.lower()\<close>\<close>

fun treatment_name :: "treatment \<Rightarrow> pystr" where
  "treatment_name DIRECT = ''direct''"
| "treatment_name STATIC_SANITIZATION = ''static_sanitization''"
| "treatment_name REVERSIBLE_PSEUDONYMIZATION = ''reversible_pseudonymization''"
| "treatment_name TASK_AWARE = ''task_aware''"
| "treatment_name POLICY_GOVERNED = ''policy_governed''"

record run_identity =
  ri_schema_version :: pystr
  ri_run_classification :: run_classification
  ri_corpus_version :: pystr
  ri_case_id :: pystr
  ri_treatment_code :: pystr
  ri_treatment_name :: pystr
  ri_treatment_version :: "pystr option"
  ri_task_aware_baseline_version :: "pystr option"
  ri_policy_version :: "pystr option"
  ri_matrix_cell :: "pystr option"
  ri_provider_name :: pystr
  ri_provider_model_id :: pystr
  ri_provider_model_snapshot :: pystr
  ri_protocol_id :: pystr

record run_metadata =
  rm_experiment_run_id :: pystr
  rm_case_execution_id :: pystr
  rm_generated_at :: pystr

subsection \<open>The recorded provider\<close>

record provider_call_metrics =
  pm_latency_ms :: rat
  pm_payload_bytes :: nat
  pm_task_bytes :: nat
  pm_total_request_bytes :: nat
  pm_response_bytes :: nat
  pm_model_id :: pystr
  pm_model_snapshot :: pystr
  pm_input_tokens :: "int option"
  pm_output_tokens :: "int option"
  pm_cache_creation_input_tokens :: "int option"
  pm_cache_read_input_tokens :: "int option"

definition call_metrics :: "rat \<Rightarrow> provider_request \<Rightarrow> provider_response \<Rightarrow> provider_call_metrics" where
  "call_metrics latency_ms request response =
     (let payload_bytes = count_transmitted_bytes (pq_payload request); task_bytes = utf8_len (pq_task request)
      in \<lparr>pm_latency_ms = latency_ms, pm_payload_bytes = payload_bytes, pm_task_bytes = task_bytes,
          pm_total_request_bytes = payload_bytes + task_bytes, pm_response_bytes = utf8_len (pr_text response),
          pm_model_id = pr_model_id response, pm_model_snapshot = pr_model_snapshot response,
          pm_input_tokens = pr_input_tokens response, pm_output_tokens = pr_output_tokens response,
          pm_cache_creation_input_tokens = pr_cache_creation_input_tokens response,
          pm_cache_read_input_tokens = pr_cache_read_input_tokens response\<rparr>)"

text \<open>A delegate with the provider it wraps, of which it shows the class and the native timeout, and the name of its class.\<close>

record timing_provider_delegate =
  tp_wrapped_name :: pystr
  tp_wrapped :: provider
  tp_last_call :: "provider_call_metrics option"

definition delegate_of :: "pystr \<Rightarrow> provider \<Rightarrow> timing_provider_delegate" where
  "delegate_of name p = \<lparr>tp_wrapped_name = name, tp_wrapped = p, tp_last_call = None\<rparr>"

text \<open>What \<open>generate\<close> records of the requests submitted to it: the metrics of a call that returns in time.\<close>

definition record_call :: "rat \<Rightarrow> rat \<Rightarrow> timing_provider_delegate \<Rightarrow> provider_request \<Rightarrow> timing_provider_delegate" where
  "record_call latency_ms timeout d request =
     (case awaited (pv_generate (tp_wrapped d) request) timeout of
        Some (Responds response) \<Rightarrow> d\<lparr>tp_last_call := Some (call_metrics latency_ms request response)\<rparr>
      | _ \<Rightarrow> d)"

text \<open>A provider as a caller supplies it: a provider with the name of its class, or a delegate.\<close>

datatype supplied_provider = Bare_Provider pystr provider | Timing_Delegate timing_provider_delegate

subsection \<open>The timings of the stages\<close>

record readable_span =
  sn_name :: pystr
  sn_span_id :: nat
  sn_parent :: "nat option"
  sn_start_time :: int
  sn_end_time :: int

record stage_timings =
  st_detection_ms :: "rat option"
  st_task_detection_ms :: "rat option"
  st_treatment_ms :: "rat option"
  st_reconstruction_ms :: "rat option"
  st_pipeline_total_ms :: "rat option"

definition duration_ms :: "readable_span \<Rightarrow> rat" where
  "duration_ms sn = of_int (sn_end_time sn - sn_start_time sn) / 1000000"

definition find_root :: "readable_span list \<Rightarrow> readable_span option" where
  "find_root spans = find (\<lambda>sn. sn_name sn = ''pipeline.run_disclosure_case'') spans"

definition children_of :: "readable_span list \<Rightarrow> readable_span \<Rightarrow> readable_span list" where
  "children_of spans parent = filter (\<lambda>sn. sn_parent sn = Some (sn_span_id parent)) spans"

definition first_ms :: "readable_span list \<Rightarrow> rat option" where
  "first_ms spans = (case spans of [] \<Rightarrow> None | sn # _ \<Rightarrow> Some (duration_ms sn))"

definition extract_stage_timings :: "readable_span list \<Rightarrow> stage_timings" where
  "extract_stage_timings spans =
     (case find_root spans of
        None \<Rightarrow>
          \<lparr>st_detection_ms = None, st_task_detection_ms = None, st_treatment_ms = None, st_reconstruction_ms = None,
           st_pipeline_total_ms = None\<rparr>
      | Some outer \<Rightarrow>
          (let children = children_of spans outer;
               detection_spans = sort_key sn_start_time (filter (\<lambda>sn. sn_name sn = ''detection.detect'') children);
               treatment_spans = filter (\<lambda>sn. suffix ''.sanitize'' (sn_name sn)) children;
               reconstruction_spans = filter (\<lambda>sn. suffix ''.reconstruct'' (sn_name sn)) children
           in \<lparr>st_detection_ms = first_ms detection_spans, st_task_detection_ms = first_ms (drop 1 detection_spans),
               st_treatment_ms = first_ms treatment_spans, st_reconstruction_ms = first_ms reconstruction_spans,
               st_pipeline_total_ms = Some (duration_ms outer)\<rparr>))"

definition b0_treatment_span_is_isolated_from_detection :: "readable_span list \<Rightarrow> bool" where
  "b0_treatment_span_is_isolated_from_detection spans =
     (case find_root spans of
        None \<Rightarrow> False
      | Some outer \<Rightarrow>
          (case (find (\<lambda>sn. sn_name sn = ''detection.detect'') (children_of spans outer),
                 find (\<lambda>sn. sn_name sn = ''direct_disclosure.sanitize'') (children_of spans outer)) of
             (Some detection, Some sanitize) \<Rightarrow>
               (sn_parent detection = Some (sn_span_id outer) \<and> sn_parent sanitize = Some (sn_span_id outer)) \<and>
               sn_end_time detection \<le> sn_start_time sanitize
           | _ \<Rightarrow> False))"

record resource_metrics =
  rx_cpu_time_ms :: rat
  rx_peak_memory_bytes :: nat
  rx_measurement_scope :: pystr

definition RESOURCE_MEASUREMENT_SCOPE :: pystr where
  "RESOURCE_MEASUREMENT_SCOPE =
     ''detection+treatment+provider+reconstruction (whole pipeline.run_disclosure_case call, via run_case_with_span_capture)''"

subsection \<open>Executing a case\<close>

record case_environment =
  ce_token_factory :: "nat \<Rightarrow> pystr"
  ce_finished_spans :: "readable_span list"
  ce_latency_ms :: rat
  ce_cpu_time_ms :: rat
  ce_peak_memory_bytes :: nat
  ce_case_execution_id :: pystr
  ce_generated_at :: pystr

record 'k run_library =
  lb_hmac :: "'k keyed_hash"
  lb_hash_key :: 'k
  lb_sha256_hex :: "pystr \<Rightarrow> pystr"
  lb_repr :: "pystr \<Rightarrow> pystr"

datatype execution_error = Raised py_error | Unscorable utility_error

record case_execution =
  xe_identity :: run_identity
  xe_treatment :: treatment
  xe_execution :: execution_result
  xe_stage_timings :: stage_timings
  xe_provider_metrics :: "provider_call_metrics option"
  xe_b4_metadata :: "b4_metadata option"
  xe_detected_text_spans :: "detected_span_ref list"
  xe_resource_metrics :: resource_metrics
  xe_payload_echo_reconstructed_text :: "pystr option"

text \<open>The delegate a case runs with, and the name of the class of the provider that the caller supplied, or of the default.\<close>

definition active_delegate ::
  "'k run_library \<Rightarrow> governance_context \<Rightarrow> supplied_provider option \<Rightarrow> timing_provider_delegate \<times> pystr" where
  "active_delegate lib ctx supplied =
     (case supplied of
        None \<Rightarrow>
          (delegate_of ''FakeProvider''
             ((fake_provider (lb_sha256_hex lib) (lb_repr lib))\<lparr>pv_class := ctx_provider_class ctx\<rparr>), ''FakeProvider'')
      | Some (Bare_Provider name p) \<Rightarrow> (delegate_of name p, name)
      | Some (Timing_Delegate d) \<Rightarrow> (d, ''TimingProviderDelegate''))"

text \<open>The provider that the caller has afterwards.\<close>

definition supplied_after :: "supplied_provider option \<Rightarrow> timing_provider_delegate \<Rightarrow> supplied_provider option" where
  "supplied_after supplied d =
     (case supplied of Some (Timing_Delegate _) \<Rightarrow> Some (Timing_Delegate d) | _ \<Rightarrow> supplied)"

text \<open>B4's span among the spans of a run, with its attributes.\<close>

definition governed_spans ::
  "treatment \<Rightarrow> policy_repository \<Rightarrow> task_analyzer option \<Rightarrow> in_memory_vault \<Rightarrow> disclosure_request \<Rightarrow>
     sensitive_span list \<Rightarrow> (pystr \<times> governed_attributes) list" where
  "governed_spans trt repo analyzer v request spans =
     (if trt = POLICY_GOVERNED then
        (case governed_attributes_of in_memory_ops repo (analyzer_of analyzer) v request spans of
           Inl _ \<Rightarrow> []
         | Inr attributes \<Rightarrow> [(B4_SPAN_NAME, attributes)])
      else [])"

definition run_identity_of ::
  "run_classification \<Rightarrow> pystr \<Rightarrow> pystr \<Rightarrow> treatment \<Rightarrow> governance_context \<Rightarrow> b4_metadata option \<Rightarrow> pystr \<Rightarrow> pystr \<Rightarrow> pystr \<Rightarrow>
     pystr \<Rightarrow> run_identity" where
  "run_identity_of classification corpus_version case_id trt ctx b4 provider_name model_id model_snapshot protocol_id =
     \<lparr>ri_schema_version = SCHEMA_VERSION, ri_run_classification = classification, ri_corpus_version = corpus_version,
      ri_case_id = case_id, ri_treatment_code = treatment_value trt, ri_treatment_name = treatment_name trt,
      ri_treatment_version = dict_get TREATMENT_VERSION_BY_TREATMENT trt,
      ri_task_aware_baseline_version = dict_get TASK_AWARE_BASELINE_VERSION_BY_TREATMENT trt,
      ri_policy_version = Some (ctx_policy_version ctx),
      ri_matrix_cell =
        (case b4 of
           None \<Rightarrow> None
         | Some m \<Rightarrow> if bm_matrix_cells m = [] then None else Some (joined_with ''|'' (bm_matrix_cells m))),
      ri_provider_name = provider_name, ri_provider_model_id = model_id, ri_provider_model_snapshot = model_snapshot,
      ri_protocol_id = protocol_id\<rparr>"

definition execute_case ::
  "'k run_library \<Rightarrow> case_environment \<Rightarrow> corpus_case_input \<Rightarrow> treatment \<Rightarrow> pystr \<Rightarrow> run_classification \<Rightarrow>
     policy_repository \<Rightarrow> in_memory_vault option \<Rightarrow> task_analyzer option \<Rightarrow> detection_rule list option \<Rightarrow>
     supplied_provider option \<Rightarrow> (pystr \<times> pystr) list \<Rightarrow> bool \<Rightarrow> pystr option \<Rightarrow>
     (execution_error + case_execution) \<times> provider_request list \<times> supplied_provider option" where
  "execute_case lib env case_input trt corpus_version classification repo vault analyzer detector supplied
       context_overrides capture protocol_id =
     (let active_vault = the_default (new_vault (ce_token_factory env)) vault;
          active_treatment = build_treatment in_memory_ops repo analyzer trt;
          request = build_request case_input DEFAULT_HARNESS_SESSION_ID context_overrides;
          (delegate, base_name) = active_delegate lib (rq_context request) supplied;
          timeout = caller_timeout_for_provider (tp_wrapped delegate) DEFAULT_TIMEOUT_SECONDS
      in case run_disclosure_case (lb_hmac lib) (lb_hash_key lib) active_treatment detector active_vault request
                (tp_wrapped delegate) timeout capture of
           Inl e \<Rightarrow> (Inl (Raised e), [], supplied)
         | Inr (exec_result, sent, v') \<Rightarrow>
             (let delegate' = foldl (record_call (ce_latency_ms env) timeout) delegate sent;
                  provider_metrics = tp_last_call delegate';
                  b4 = extract_b4_metadata (governed_spans trt repo analyzer active_vault request (ex_spans exec_result));
                  model_id = (case provider_metrics of Some pm \<Rightarrow> pm_model_id pm | None \<Rightarrow> base_name);
                  model_snapshot = (case provider_metrics of Some pm \<Rightarrow> pm_model_snapshot pm | None \<Rightarrow> ''not_called'');
                  resolved_protocol_id = the_default CURRENT_PROTOCOL_ID protocol_id;
                  res = ex_disclosure_result exec_result
              in (case validate_scorable_protocol_id resolved_protocol_id of
                    Inl e \<Rightarrow> Inl (Unscorable e)
                  | Inr _ \<Rightarrow>
                      Inr \<lparr>xe_identity =
                             run_identity_of classification corpus_version (ci_sample_id case_input) trt
                               (rq_context request) b4 (tp_wrapped_name delegate) model_id model_snapshot
                               resolved_protocol_id,
                           xe_treatment = trt, xe_execution = exec_result,
                           xe_stage_timings = extract_stage_timings (ce_finished_spans env),
                           xe_provider_metrics = provider_metrics, xe_b4_metadata = b4,
                           xe_detected_text_spans = to_refs (ex_spans exec_result),
                           xe_resource_metrics =
                             \<lparr>rx_cpu_time_ms = ce_cpu_time_ms env, rx_peak_memory_bytes = ce_peak_memory_bytes env,
                              rx_measurement_scope = RESOURCE_MEASUREMENT_SCOPE\<rparr>,
                           xe_payload_echo_reconstructed_text =
                             (if rs_status res = Allowed then
                                map_option (\<lambda>f. f v' (rs_external_payload res) res (rq_context request))
                                  (dt_reconstruct active_treatment)
                              else None)\<rparr>,
                  sent, supplied_after supplied delegate')))"


subsection \<open>A run can be scored\<close>

text \<open>Every transformation of a treatment is made at a level, and every band it makes of an amount is short.\<close>

lemma static_action_level: "static_resolve_action c \<noteq> BLOCK_REQUEST \<Longrightarrow> is_level (static_resolve_action c)"
  using static_action_cases [of c] by (auto simp: is_level_iff)

lemma built_levels:
  assumes "dt_sanitize (build_treatment ops repo analyzer trt) v request spans = Inr (res, v')"
    and "t \<in> set (rs_transformations res)"
  shows "is_level (tr_action t)"
proof (cases trt)
  case DIRECT
  with assms show ?thesis by (auto simp: direct_sanitize_def is_level_iff)
next
  case STATIC_SANITIZATION
  then have run: "static_sanitize request spans = Inr res" using assms(1) by (simp add: stateless_def split: sum.splits)
  show ?thesis
  proof (cases rule: static_sanitize_cases [of spans request])
    case (allowed ordered vals w)
    have "list_all2 (\<lambda>sd t. describes sd t \<and> becomes sd t) (decided static_decision ordered) (wk_transformations w)"
      using walk_payload(2,3) [OF allowed(4,5)] by (simp add: list_all2_conv_all_nth)
    moreover have "t \<in> set (wk_transformations w)" using assms(2) run allowed by auto
    ultimately obtain sd where sd: "sd \<in> set (decided static_decision ordered)" "describes sd t" by (blast elim: list_all2_memE)
    then obtain sp where sp: "sp \<in> set ordered" "sd = (sp, downgrade (static_decision sp) sp)" by (auto simp: decided_def)
    then have nb: "ad_action (downgrade (static_decision sp) sp) \<noteq> BLOCK_REQUEST"
      using allowed(3) by (auto simp: some_block_def list_ex_iff)
    then have "tr_action t = static_resolve_action (sp_category sp)"
      using sd(2) sp(2) downgrade_static [OF nb] by (simp add: describes_def static_decision_def)
    with nb downgrade_static [OF nb] static_action_level show ?thesis by (simp add: static_decision_def)
  qed (use run assms(2) in \<open>auto simp: blocked_results\<close>)
next
  case REVERSIBLE_PSEUDONYMIZATION
  then have run: "sanitize_with ops v repo REVERSIBLE_REASONS (\<lambda>_ sp. Inr (reversible_decide sp)) request spans = Inr (res, v')"
    using assms(1) by (simp add: reversible_sanitize_with)
  have total: "\<forall>ordered. resolve_overlaps spans = Inr ordered \<longrightarrow>
      (\<forall>sp \<in> set ordered. Inr (reversible_decide sp) = (Inr (reversible_decide sp) :: action_decision result))" by simp
  obtain ordered sp where "tr_action t = ad_action (reversible_decide sp)" "tr_action t \<noteq> BLOCK_REQUEST"
    by (rule sanitize_with_transformation [OF total run assms(2)]) blast
  then show ?thesis
    using static_action_cases [of "sp_category sp"] by (auto simp: reversible_action_static is_level_iff split: if_splits)
next
  case TASK_AWARE
  then have run: "sanitize_with ops v repo TASK_AWARE_REASONS (task_aware_decider (analyzer_of analyzer) request) request spans =
      Inr (res, v')" using assms(1) by (simp add: task_aware_sanitize_with)
  have total: "\<forall>ordered. resolve_overlaps spans = Inr ordered \<longrightarrow> (\<forall>sp \<in> set ordered.
      task_aware_decider (analyzer_of analyzer) request ordered sp =
        Inr (outcome_of (task_aware_decider (analyzer_of analyzer) request ordered sp)))"
    using task_aware_decider_total by blast
  obtain ordered sp where sp: "sp \<in> set ordered" "tr_action t \<noteq> BLOCK_REQUEST"
      "tr_action t = ad_action (outcome_of (task_aware_decider (analyzer_of analyzer) request ordered sp))"
    by (rule sanitize_with_transformation [OF total run assms(2)]) blast
  obtain relevance failed where "task_aware_decide relevance failed sp =
      Inr (outcome_of (task_aware_decider (analyzer_of analyzer) request ordered sp))"
    using task_aware_decider_total [OF sp(1), of "analyzer_of analyzer" request] by (auto simp: task_aware_decider_def split: prod.splits)
  from task_aware_decide_space [OF this] sp(2,3) show ?thesis
    by (auto simp: canonical_space_def list_all_iff)
next
  case POLICY_GOVERNED
  with assms policy_governed_transformation [of ops repo "analyzer_of analyzer" v request spans res v' t] show ?thesis by simp
qed

lemma built_readable:
  assumes "dt_sanitize (build_treatment ops repo analyzer trt) v request spans = Inr (res, v')"
    and "rs_status res = Allowed"
  shows "readable_bands res"
  unfolding readable_bands_def
proof (intro ballI impI)
  fix t assume t: "t \<in> set (rs_transformations res)" "tr_action t = GENERALIZE \<and> tr_category t \<in> set NUMERIC_BAND_UTILITY_CATEGORIES"
  have "trt \<noteq> DIRECT" using assms(1) t by (cases trt) (auto simp: direct_sanitize_def)
  from built_layout [OF this assms] obtain ordered where "list_all2 shown_as ordered (rs_transformations res)" by blast
  with t(1) obtain sp where "shown_as sp t" by (blast elim: list_all2_memE)
  with t(2) obtain g where g: "tr_transformed t = Some g" "generalize (tr_category t) (tr_original t) = Inr g"
    by (auto simp: shown_as_def)
  obtain lower upper where "g = ''R$ '' @ str_nat lower @ ''-'' @ str_nat upper" "length (str_nat lower) \<le> 20"
    "length (str_nat upper) \<le> 20"
    using generalized_band_shape [OF conjunct2 [OF t(2)] g(2)] by metis
  then show "length (the_default [] (tr_transformed t)) \<le> MAX_INT_DIGITS"
    using g(1) by (simp add: MAX_INT_DIGITS_def)
qed

text \<open>What the scorers of a decision need.\<close>

definition scorable_result :: "disclosure_result \<Rightarrow> bool" where
  "scorable_result res \<longleftrightarrow> (\<forall>t \<in> set (rs_transformations res). is_level (tr_action t)) \<and> (rs_status res = Allowed \<longrightarrow> readable_bands res)"

lemma decided_scorable:
  assumes "decide_disclosure (build_treatment ops repo analyzer trt) detector v request = Inr (decision, v')"
  shows "scorable_result (dd_result decision)"
proof -
  have "\<exists>spans res. dt_sanitize (build_treatment ops repo analyzer trt) v request spans = Inr (res, v') \<and>
      (dd_result decision = res \<or> (\<exists>ts. dd_result decision = blocked_for_sensitive_task ts))"
    using assms by (auto simp: decide_disclosure_def split: sum.splits if_splits) blast+
  then obtain spans res where s: "dt_sanitize (build_treatment ops repo analyzer trt) v request spans = Inr (res, v')"
    "dd_result decision = res \<or> (\<exists>ts. dd_result decision = blocked_for_sensitive_task ts)" by blast
  from s(2) show ?thesis
    using built_levels [OF s(1)] built_readable [OF s(1)]
    by (auto simp: scorable_result_def blocked_for_sensitive_task_def)
qed

lemma run_scorable:
  assumes "run_disclosure_case hmac key (build_treatment ops repo analyzer trt) detector v request p timeout capture =
    Inr (execution, sent, v')"
  shows "scorable_result (ex_disclosure_result execution)"
  using assms decided_scorable by (auto elim!: run_caseE)

lemma index_of_level: "is_level act \<Longrightarrow> \<exists>r. index_of CANONICAL_DISCLOSURE_ORDER act = Some r"
  by (cases act) (simp_all add: is_level_def CANONICAL_DISCLOSURE_ORDER_def)

lemma exposure_loop_total:
  assumes "\<forall>(sp, r) \<in> set pairs. rr_action r = None \<or> rr_action r = Some BLOCK_REQUEST \<or> (\<exists>act. rr_action r = Some act \<and> is_level act)"
  shows "\<exists>entries. exposure_loop i pairs = Inr entries"
  using assms
proof (induction pairs arbitrary: i)
  case (Cons p pairs)
  obtain sp r where p: "p = (sp, r)" by force
  have r: "rr_action r = None \<or> rr_action r = Some BLOCK_REQUEST \<or> (\<exists>act. rr_action r = Some act \<and> is_level act)"
    using Cons.prems by (simp add: p)
  then have "\<exists>entry. exposure_of i sp r = Inr entry"
    using index_of_level by (fastforce simp: exposure_of_def Let_def)
  then obtain entry where "exposure_of i sp r = Inr entry" ..
  moreover obtain entries where "exposure_loop (Suc i) pairs = Inr entries" using Cons by auto
  ultimately show ?case by (simp add: p)
qed simp

lemma records_levels:
  assumes "scorable_result res" and "r \<in> set (resolve_span_records o' res trt)"
  shows "rr_action r = None \<or> rr_action r = Some BLOCK_REQUEST \<or> (\<exists>act. rr_action r = Some act \<and> is_level act)"
proof -
  have lev: "is_level (tr_action t)" if m: "Some t \<in> set (resolve_span_transformations o' res trt)" for t
  proof -
    obtain i where i: "i < length (resolve_span_transformations o' res trt)" "resolve_span_transformations o' res trt ! i = Some t"
      using m unfolding in_set_conv_nth by blast
    from i(1) have "i < length (oc_expected_spans o')" by (simp only: resolve_length)
    with i(2) have "t \<in> set (rs_transformations res)" using resolved_category by blast
    with assms(1) show ?thesis unfolding scorable_result_def by blast
  qed
  consider "rs_status res = Blocked" | "rs_status res \<noteq> Blocked" "trt = DIRECT" | "rs_status res \<noteq> Blocked" "trt \<noteq> DIRECT"
    by blast
  then show ?thesis
  proof cases
    case 3
    with assms(2) obtain m where m: "m \<in> set (resolve_span_transformations o' res trt)"
      "r = (case m of None \<Rightarrow> \<lparr>rr_action = None, rr_transmitted_byte_length = 0\<rparr>
        | Some t \<Rightarrow> \<lparr>rr_action = Some (tr_action t),
            rr_transmitted_byte_length = (case tr_transformed t of None \<Rightarrow> 0 | Some s \<Rightarrow> utf8_len s)\<rparr>)"
      by (auto simp: resolve_span_records_def)
    show ?thesis
    proof (cases m)
      case None
      then show ?thesis by (simp add: m(2))
    next
      case (Some t)
      with lev [of t] m(1) show ?thesis by (simp add: m(2))
    qed
  qed (use assms(2) in \<open>auto simp: resolve_span_records_def is_level_iff\<close>)
qed

lemma score_exposure_total: "scorable_result res \<Longrightarrow> \<exists>xp. score_exposure o' res trt = Inr xp"
  using exposure_loop_total [of "zip (oc_expected_spans o') (resolve_span_records o' res trt)" 0] records_levels [of res _ o' trt]
  by (fastforce simp: score_exposure_def dest: set_zip_rightD)

lemma score_unnecessary_total: "scorable_result res \<Longrightarrow> \<exists>ud. score_unnecessary_disclosure o' res trt = Inr ud"
  using score_exposure_total [of res o' trt] by (auto simp: score_unnecessary_disclosure_def Let_def)


subsection \<open>What executing a case does\<close>

lemma recorded_calls:
  assumes "execute_disclosure_decision hmac key trt v request (tp_wrapped d) decision timeout capture = (execution, sent)"
  shows "tp_last_call (foldl (record_call latency timeout) d sent) =
      (case ex_provider_response execution of
         Some r \<Rightarrow> Some (call_metrics latency (hd sent) r)
       | None \<Rightarrow> tp_last_call d)"
    and "length sent \<le> 1"
proof -
  let ?req = "\<lparr>pq_payload = rs_external_payload (dd_result decision), pq_task = rq_task request\<rparr>"
  note run = assms [unfolded execute_disclosure_decision_def Let_def]
  have both: "tp_last_call (foldl (record_call latency timeout) d sent) =
      (case ex_provider_response execution of
         Some r \<Rightarrow> Some (call_metrics latency (hd sent) r)
       | None \<Rightarrow> tp_last_call d) \<and> length sent \<le> 1"
  proof (cases "rs_status (dd_result decision) = Allowed \<and> pv_class (tp_wrapped d) = ctx_provider_class (rq_context request)")
    case False
    with run show ?thesis by (auto simp: invoke_provider_def split: if_splits)
  next
    case True
    show ?thesis
    proof (cases "awaited (pv_generate (tp_wrapped d) ?req) timeout")
      case None
      with run True show ?thesis by (auto simp: invoke_provider_def record_call_def)
    next
      case (Some g)
      with run True show ?thesis by (cases g) (auto simp: invoke_provider_def record_call_def)
    qed
  qed
  then show "tp_last_call (foldl (record_call latency timeout) d sent) =
      (case ex_provider_response execution of
         Some r \<Rightarrow> Some (call_metrics latency (hd sent) r)
       | None \<Rightarrow> tp_last_call d)" and "length sent \<le> 1" by blast+
qed

text \<open>The run behind an execution.\<close>

definition case_run ::
  "'k run_library \<Rightarrow> case_environment \<Rightarrow> corpus_case_input \<Rightarrow> treatment \<Rightarrow> policy_repository \<Rightarrow> in_memory_vault option \<Rightarrow>
     task_analyzer option \<Rightarrow> detection_rule list option \<Rightarrow> supplied_provider option \<Rightarrow> (pystr \<times> pystr) list \<Rightarrow> bool \<Rightarrow>
     (execution_result \<times> provider_request list \<times> in_memory_vault) result" where
  "case_run lib env case_input trt repo vault analyzer detector supplied context_overrides capture =
     (let request = build_request case_input DEFAULT_HARNESS_SESSION_ID context_overrides;
          p = tp_wrapped (fst (active_delegate lib (rq_context request) supplied))
      in run_disclosure_case (lb_hmac lib) (lb_hash_key lib) (build_treatment in_memory_ops repo analyzer trt) detector
           (the_default (new_vault (ce_token_factory env)) vault) request p
           (caller_timeout_for_provider p DEFAULT_TIMEOUT_SECONDS) capture)"

lemma execute_case_Inr:
  assumes "case_run lib env case_input trt repo vault analyzer detector supplied overrides capture = Inr (execution, sent, v')"
    and "validate_scorable_protocol_id (the_default CURRENT_PROTOCOL_ID protocol_id) = Inr ()"
  obtains x supplied' where
    "execute_case lib env case_input trt corpus_version classification repo vault analyzer detector supplied overrides capture
       protocol_id = (Inr x, sent, supplied')"
    and "xe_execution x = execution" and "xe_treatment x = trt"
    and "ri_case_id (xe_identity x) = ci_sample_id case_input" and "ri_treatment_code (xe_identity x) = treatment_value trt"
    and "ri_protocol_id (xe_identity x) = the_default CURRENT_PROTOCOL_ID protocol_id"
    and "xe_provider_metrics x = (case ex_provider_response execution of
        Some r \<Rightarrow> Some (call_metrics (ce_latency_ms env) (hd sent) r)
      | None \<Rightarrow> (case supplied of Some (Timing_Delegate d) \<Rightarrow> tp_last_call d | _ \<Rightarrow> None))"
    and "xe_b4_metadata x = extract_b4_metadata (governed_spans trt repo analyzer
        (the_default (new_vault (ce_token_factory env)) vault)
        (build_request case_input DEFAULT_HARNESS_SESSION_ID overrides) (ex_spans execution))"
    and "xe_detected_text_spans x = to_refs (ex_spans execution)"
proof -
  let ?request = "build_request case_input DEFAULT_HARNESS_SESSION_ID overrides"
  obtain delegate base_name where d: "active_delegate lib (rq_context ?request) supplied = (delegate, base_name)" by force
  let ?timeout = "caller_timeout_for_provider (tp_wrapped delegate) DEFAULT_TIMEOUT_SECONDS"
  from assms(1) have run: "run_disclosure_case (lb_hmac lib) (lb_hash_key lib) (build_treatment in_memory_ops repo analyzer trt)
      detector (the_default (new_vault (ce_token_factory env)) vault) ?request (tp_wrapped delegate) ?timeout capture =
      Inr (execution, sent, v')" by (simp add: case_run_def d Let_def)
  have fresh: "tp_last_call delegate = (case supplied of Some (Timing_Delegate d) \<Rightarrow> tp_last_call d | _ \<Rightarrow> None)"
    using d by (auto simp: active_delegate_def delegate_of_def split: option.splits supplied_provider.splits)
  obtain decision where "execute_disclosure_decision (lb_hmac lib) (lb_hash_key lib) (build_treatment in_memory_ops repo analyzer trt)
      v' ?request (tp_wrapped delegate) decision ?timeout capture = (execution, sent)"
    by (rule run_caseE [OF run])
  note recorded = recorded_calls(1) [OF this, of "ce_latency_ms env", unfolded fresh]
  have "\<exists>x supplied'. execute_case lib env case_input trt corpus_version classification repo vault analyzer detector supplied
      overrides capture protocol_id = (Inr x, sent, supplied') \<and>
    xe_execution x = execution \<and> xe_treatment x = trt \<and>
    ri_case_id (xe_identity x) = ci_sample_id case_input \<and> ri_treatment_code (xe_identity x) = treatment_value trt \<and>
    ri_protocol_id (xe_identity x) = the_default CURRENT_PROTOCOL_ID protocol_id \<and>
    xe_provider_metrics x = (case ex_provider_response execution of
        Some r \<Rightarrow> Some (call_metrics (ce_latency_ms env) (hd sent) r)
      | None \<Rightarrow> (case supplied of Some (Timing_Delegate d) \<Rightarrow> tp_last_call d | _ \<Rightarrow> None)) \<and>
    xe_b4_metadata x = extract_b4_metadata (governed_spans trt repo analyzer
        (the_default (new_vault (ce_token_factory env)) vault) ?request (ex_spans execution)) \<and>
    xe_detected_text_spans x = to_refs (ex_spans execution)"
    by (simp add: execute_case_def Let_def d run assms(2) run_identity_of_def recorded)
  then show thesis by (elim exE conjE) (rule that)
qed

lemma execute_case_Inl:
  assumes "case_run lib env case_input trt repo vault analyzer detector supplied overrides capture = Inr (execution, sent, v')"
    and "validate_scorable_protocol_id (the_default CURRENT_PROTOCOL_ID protocol_id) = Inl e"
  obtains supplied' where
    "execute_case lib env case_input trt corpus_version classification repo vault analyzer detector supplied overrides capture
       protocol_id = (Inl (Unscorable e), sent, supplied')"
proof -
  let ?request = "build_request case_input DEFAULT_HARNESS_SESSION_ID overrides"
  obtain delegate base_name where d: "active_delegate lib (rq_context ?request) supplied = (delegate, base_name)" by force
  from assms show thesis
    by (intro that) (simp add: execute_case_def case_run_def Let_def d)
qed

lemma case_run_total:
  assumes "vault_inv (the_default (new_vault (ce_token_factory env)) vault)" and "list_all rule_ok (active_rules detector)"
  obtains execution sent v' where
    "case_run lib env case_input trt repo vault analyzer detector supplied overrides capture = Inr (execution, sent, v')"
    and "vault_inv v'"
proof -
  have "\<exists>execution sent v'. case_run lib env case_input trt repo vault analyzer detector supplied overrides capture =
      Inr (execution, sent, v') \<and> vault_inv v'"
    unfolding case_run_def Let_def by (rule built_treatment.run_returns [OF assms])
  then show thesis using that by blast
qed


lemma execute_case_runs:
  assumes "vault_inv (the_default (new_vault (ce_token_factory env)) vault)" and "list_all rule_ok (active_rules detector)"
  shows "\<exists>execution sent v'.
    case_run lib env case_input trt repo vault analyzer detector supplied overrides capture = Inr (execution, sent, v') \<and>
    length sent \<le> 1 \<and>
    detect (active_rules detector) (ci_text case_input) = Inr (ex_spans execution) \<and>
    (case execute_case lib env case_input trt corpus_version classification repo vault analyzer detector supplied overrides
            capture protocol_id of
       (outcome, submitted, supplied') \<Rightarrow>
         submitted = sent \<and>
         (case validate_scorable_protocol_id (the_default CURRENT_PROTOCOL_ID protocol_id) of
            Inl e \<Rightarrow> outcome = Inl (Unscorable e)
          | Inr _ \<Rightarrow>
              (\<exists>x. outcome = Inr x \<and> xe_execution x = execution \<and>
                 xe_detected_text_spans x = to_refs (ex_spans execution) \<and>
                 xe_provider_metrics x =
                   (case ex_provider_response execution of
                      Some r \<Rightarrow> Some (call_metrics (ce_latency_ms env) (hd sent) r)
                    | None \<Rightarrow> (case supplied of Some (Timing_Delegate d) \<Rightarrow> tp_last_call d | _ \<Rightarrow> None)))))"
proof -
  obtain execution sent v' where run: "case_run lib env case_input trt repo vault analyzer detector supplied overrides capture =
      Inr (execution, sent, v')"
    by (rule case_run_total [OF assms])
  note steps = run [unfolded case_run_def Let_def]
  obtain delegate base_name where d: "active_delegate lib
      (rq_context (build_request case_input DEFAULT_HARNESS_SESSION_ID overrides)) supplied = (delegate, base_name)" by force
  obtain decision where decision: "decide_disclosure (build_treatment in_memory_ops repo analyzer trt) detector
      (the_default (new_vault (ce_token_factory env)) vault) (build_request case_input DEFAULT_HARNESS_SESSION_ID overrides) =
      Inr (decision, v')"
    and ex: "execute_disclosure_decision (lb_hmac lib) (lb_hash_key lib) (build_treatment in_memory_ops repo analyzer trt) v'
      (build_request case_input DEFAULT_HARNESS_SESSION_ID overrides) (tp_wrapped delegate) decision
      (caller_timeout_for_provider (tp_wrapped delegate) DEFAULT_TIMEOUT_SECONDS) capture = (execution, sent)"
    by (rule run_caseE [OF steps [unfolded d fst_conv]])
  have spans: "detect (active_rules detector) (ci_text case_input) = Inr (ex_spans execution)"
    using decision execute_carries(2) [OF ex]
    by (auto simp: decide_disclosure_def build_request_def to_disclosure_request_def Let_def split: sum.splits if_splits)
  show ?thesis
  proof (cases "validate_scorable_protocol_id (the_default CURRENT_PROTOCOL_ID protocol_id)")
    case (Inl e)
    from execute_case_Inl [OF run Inl] obtain supplied' where "execute_case lib env case_input trt corpus_version classification
        repo vault analyzer detector supplied overrides capture protocol_id = (Inl (Unscorable e), sent, supplied')" by blast
    with run spans Inl recorded_calls(2) [OF ex] show ?thesis by auto
  next
    case (Inr u)
    then have ok: "validate_scorable_protocol_id (the_default CURRENT_PROTOCOL_ID protocol_id) = Inr ()" by simp
    show ?thesis
      by (rule execute_case_Inr [OF run ok, of corpus_version classification])
        (use run spans ok recorded_calls(2) [OF ex] in auto)
  qed
qed

subsection \<open>Properties\<close>

text \<open>
  C29: executing a case is one run of the pipeline on the case's input. It makes at most one provider call; the detected spans it
  keeps are those of the detector on the case's text; and a fresh provider's metrics are those of the call that was answered,
  or none. A delegate that the caller supplies keeps the metrics of an earlier call when this case is not answered, and
  they are taken for this case's. A protocol that cannot be scored is refused after the run, so its requests have been sent.
\<close>

theorem execute_case_runs_the_pipeline:
  assumes "vault_inv (the_default (new_vault (ce_token_factory env)) vault)" and "list_all rule_ok (active_rules detector)"
  shows "\<exists>execution sent v'.
    case_run lib env case_input trt repo vault analyzer detector supplied overrides capture = Inr (execution, sent, v') \<and>
    length sent \<le> 1 \<and>
    detect (active_rules detector) (ci_text case_input) = Inr (ex_spans execution) \<and>
    (case execute_case lib env case_input trt corpus_version classification repo vault analyzer detector supplied overrides
            capture protocol_id of
       (outcome, submitted, supplied') \<Rightarrow>
         submitted = sent \<and>
         (case validate_scorable_protocol_id (the_default CURRENT_PROTOCOL_ID protocol_id) of
            Inl e \<Rightarrow> outcome = Inl (Unscorable e)
          | Inr _ \<Rightarrow>
              (\<exists>x. outcome = Inr x \<and> xe_execution x = execution \<and>
                 xe_detected_text_spans x = to_refs (ex_spans execution) \<and>
                 xe_provider_metrics x =
                   (case ex_provider_response execution of
                      Some r \<Rightarrow> Some (call_metrics (ce_latency_ms env) (hd sent) r)
                    | None \<Rightarrow> (case supplied of Some (Timing_Delegate d) \<Rightarrow> tp_last_call d | _ \<Rightarrow> None)))))"
  by (rule execute_case_runs [OF assms])

definition sample_library :: "nat run_library" where
  "sample_library = \<lparr>lb_hmac = (\<lambda>k s. s), lb_hash_key = 0, lb_sha256_hex = (\<lambda>s. s), lb_repr = (\<lambda>s. s)\<rparr>"

definition sample_environment :: case_environment where
  "sample_environment =
     \<lparr>ce_token_factory = str_nat, ce_finished_spans = [], ce_latency_ms = 1, ce_cpu_time_ms = 2, ce_peak_memory_bytes = 3,
      ce_case_execution_id = ''e1'', ce_generated_at = ''now''\<rparr>"

definition earlier_call :: provider_call_metrics where
  "earlier_call =
     call_metrics 5 \<lparr>pq_payload = ''earlier'', pq_task = ''task''\<rparr>
       (fake_generate id id \<lparr>pq_payload = ''earlier'', pq_task = ''task''\<rparr>)"

definition used_delegate :: timing_provider_delegate where
  "used_delegate =
     \<lparr>tp_wrapped_name = ''OtherProvider'', tp_wrapped = (fake_provider id id)\<lparr>pv_class := ''other''\<rparr>,
      tp_last_call = Some earlier_call\<rparr>"

theorem execute_case_runs_the_pipeline_witness:
  "\<exists>x supplied'. execute_case sample_library sample_environment sample_input DIRECT ''v1'' PILOT_DEVELOPMENT sample_repository
     None None (Some []) (Some (Timing_Delegate used_delegate)) [] False None = (Inr x, [], supplied') \<and>
     xe_provider_metrics x = Some earlier_call"
proof -
  have "case case_run sample_library sample_environment sample_input DIRECT sample_repository None None (Some [])
      (Some (Timing_Delegate used_delegate)) [] False of
      Inl _ \<Rightarrow> False | Inr (execution, sent, _) \<Rightarrow> ex_provider_response execution = None \<and> sent = []"
    by code_simp
  moreover have "vault_inv (the_default (new_vault (ce_token_factory sample_environment)) None)"
    by (simp add: vault_inv_new)
  moreover have "list_all rule_ok (active_rules (Some []))" by (simp add: active_rules_def)
  moreover have "validate_scorable_protocol_id (the_default CURRENT_PROTOCOL_ID None) = Inr ()" by code_simp
  ultimately show ?thesis
    using execute_case_runs_the_pipeline [of sample_environment None "Some []" sample_library sample_input DIRECT sample_repository
        None "Some (Timing_Delegate used_delegate)" "[]" False None "''v1''" PILOT_DEVELOPMENT]
    by (auto simp: used_delegate_def split: prod.splits)
qed

end
