(* ===== verification/Pilot.thy ===== *)
theory Pilot
  imports Experiment
begin

text \<open>
  Scoring an executed case and running a pilot (\<open>experiments/scoring/__init__.py\<close>, \<open>scoring/outcomes.py\<close>,
  \<open>experiments/case_result.py\<close>, \<open>experiments/runner.py\<close>): the outcome flags, all scores of a case, what of a result is safe
  to store and what of it is reproducible, and the loop over treatments and cases.

  The environment of the n-th execution of a pilot is \<open>envs n\<close>. A pilot yields, besides its results, the requests that were
  submitted to the provider, also when it ends with an error.
\<close>

subsection \<open>Outcomes\<close>

record case_outcome_flags =
  fl_blocked :: bool
  fl_policy_block :: bool
  fl_policy_restricted :: bool
  fl_impossible_under_policy :: bool
  fl_provider_called :: bool
  fl_provider_failure :: bool

definition classify_case_outcomes :: "case_execution \<Rightarrow> case_outcome_flags" where
  "classify_case_outcomes x =
     (let res = ex_disclosure_result (xe_execution x); audit = ex_audit (xe_execution x); b4 = xe_b4_metadata x
      in \<lparr>fl_blocked = (rs_status res = Blocked),
          fl_policy_block = (case b4 of None \<Rightarrow> False | Some m \<Rightarrow> ''policy_block'' \<in> set (bm_block_reason_classes m)),
          fl_policy_restricted = (case b4 of None \<Rightarrow> False | Some m \<Rightarrow> bm_policy_restricted_categories m \<noteq> []),
          fl_impossible_under_policy =
            (case b4 of None \<Rightarrow> False | Some m \<Rightarrow> bm_impossible_under_policy_categories m \<noteq> []),
          fl_provider_called = ps_called (ar_provider audit), fl_provider_failure = ps_failed (ar_provider audit)\<rparr>)"

definition classify_ordinary_utility_failure :: "utility_score \<Rightarrow> case_outcome_flags \<Rightarrow> bool" where
  "classify_ordinary_utility_failure utility outcomes =
     (if us_overall utility \<noteq> Not_Answerable \<and> us_overall utility \<noteq> Indeterminate then False
      else if fl_blocked outcomes then False
      else \<not> fl_impossible_under_policy outcomes)"

subsection \<open>The score of a case\<close>

record case_score =
  sr_conformance :: conformance_score
  sr_exposure :: exposure_score
  sr_unnecessary_disclosure :: unnecessary_disclosure_score
  sr_utility :: utility_score
  sr_reconstruction :: "category_reconstruction list"
  sr_outcomes :: case_outcome_flags
  sr_ordinary_utility_failure :: bool
  sr_detector :: detector_case_score

definition score_case :: "corpus_case_input \<Rightarrow> case_oracle \<Rightarrow> case_execution \<Rightarrow> execution_error + case_score" where
  "score_case case_input o' x =
     (let res = ex_disclosure_result (xe_execution x);
          trt = xe_treatment x;
          conformance = score_conformance o' res trt
      in case score_exposure o' res trt of
           Inl e \<Rightarrow> Inl (Raised e)
         | Inr exposed \<Rightarrow>
             (case score_unnecessary_disclosure o' res trt of
                Inl e \<Rightarrow> Inl (Raised e)
              | Inr unnecessary \<Rightarrow>
                  (case score_utility case_input o' res trt (ri_protocol_id (xe_identity x)) of
                     Inl e \<Rightarrow> Inl (Unscorable e)
                   | Inr utility \<Rightarrow>
                       (let reconstruction = score_reconstruction o' res (xe_payload_echo_reconstructed_text x);
                            outcomes = classify_case_outcomes x
                        in Inr \<lparr>sr_conformance = conformance, sr_exposure = exposed,
                                sr_unnecessary_disclosure = unnecessary, sr_utility = utility,
                                sr_reconstruction = reconstruction, sr_outcomes = outcomes,
                                sr_ordinary_utility_failure = classify_ordinary_utility_failure utility outcomes,
                                sr_detector = score_detector_case (oc_expected_spans o') (xe_detected_text_spans x)\<rparr>))))"

subsection \<open>The result of a case\<close>

record case_result =
  cx_identity :: run_identity
  cx_metadata :: run_metadata
  cx_score :: case_score
  cx_case_execution :: case_execution

text \<open>The mapping that may be stored, by its keys; the raw capture is dropped from the audit.\<close>

record safe_result =
  sf_identity :: run_identity
  sf_metadata :: run_metadata
  sf_stage_timings :: stage_timings
  sf_provider_metrics :: "provider_call_metrics option"
  sf_resource_metrics :: resource_metrics
  sf_b4_metadata :: "b4_metadata option"
  sf_status :: result_status
  sf_score :: case_score
  sf_audit :: audit_record

definition to_safe_dict :: "case_result \<Rightarrow> safe_result" where
  "to_safe_dict r =
     (let x = cx_case_execution r
      in \<lparr>sf_identity = cx_identity r, sf_metadata = cx_metadata r, sf_stage_timings = xe_stage_timings x,
          sf_provider_metrics = xe_provider_metrics x, sf_resource_metrics = xe_resource_metrics x,
          sf_b4_metadata = xe_b4_metadata x, sf_status = rs_status (ex_disclosure_result (xe_execution x)),
          sf_score = cx_score r, sf_audit = (ex_audit (xe_execution x))\<lparr>ar_raw := None\<rparr>\<rparr>)"

text \<open>An audit without its three keyed hashes, and the metrics of a call without its latency. A key that is removed has a fixed value here.\<close>

definition audit_without_process_volatile_hashes :: "audit_record \<Rightarrow> audit_record" where
  "audit_without_process_volatile_hashes audit =
     audit\<lparr>ar_transformation := (ar_transformation audit)\<lparr>ts_payload_hash := []\<rparr>,
           ar_provider := (ar_provider audit)\<lparr>ps_response_hash := None\<rparr>,
           ar_reconstruction := (ar_reconstruction audit)\<lparr>rc_reconstructed_hash := None\<rparr>\<rparr>"

record deterministic_part =
  dk_identity :: run_identity
  dk_b4_metadata :: "b4_metadata option"
  dk_status :: result_status
  dk_score :: case_score
  dk_audit :: audit_record
  dk_provider_metrics_deterministic :: "provider_call_metrics option"

definition deterministic_key :: "case_result \<Rightarrow> deterministic_part" where
  "deterministic_key r =
     (let full = to_safe_dict r
      in \<lparr>dk_identity = sf_identity full, dk_b4_metadata = sf_b4_metadata full, dk_status = sf_status full,
          dk_score = sf_score full, dk_audit = audit_without_process_volatile_hashes (sf_audit full),
          dk_provider_metrics_deterministic = map_option (\<lambda>pm. pm\<lparr>pm_latency_ms := 0\<rparr>) (sf_provider_metrics full)\<rparr>)"

subsection \<open>The pilot\<close>

definition ALL_TREATMENTS :: "treatment list" where
  "ALL_TREATMENTS = [DIRECT, STATIC_SANITIZATION, REVERSIBLE_PSEUDONYMIZATION, TASK_AWARE, POLICY_GOVERNED]"

definition run_case_for_treatment ::
  "'k run_library \<Rightarrow> case_environment \<Rightarrow> corpus_case \<Rightarrow> treatment \<Rightarrow> pystr \<Rightarrow> run_classification \<Rightarrow> policy_repository \<Rightarrow>
     pystr \<Rightarrow> supplied_provider option \<Rightarrow> pystr option \<Rightarrow>
     (execution_error + case_result) \<times> provider_request list \<times> supplied_provider option" where
  "run_case_for_treatment lib env c trt corpus_version classification repo experiment_run_id supplied protocol_id =
     (case execute_case lib env (cc_input c) trt corpus_version classification repo None None None supplied [] False
             protocol_id of
        (outcome, sent, supplied') \<Rightarrow>
          (case outcome of
             Inl e \<Rightarrow> Inl e
           | Inr x \<Rightarrow>
               (case score_case (cc_input c) (cc_oracle c) x of
                  Inl e \<Rightarrow> Inl e
                | Inr score \<Rightarrow>
                    Inr \<lparr>cx_identity = xe_identity x,
                         cx_metadata =
                           \<lparr>rm_experiment_run_id = experiment_run_id,
                            rm_case_execution_id = ce_case_execution_id env, rm_generated_at = ce_generated_at env\<rparr>,
                         cx_score = score, cx_case_execution = x\<rparr>),
           sent, supplied'))"

datatype pilot_error =
    Corpus_Not_Loaded load_failure
  | Corpus_Not_Scorable utility_error
  | Policies_Not_Loaded reading_error
  | Case_Failed execution_error

type_synonym pilot_results = "(treatment, case_result list) dict"

text \<open>The two nested loops, over the pairs of a treatment and a case in their order; \<open>n\<close> executions came before.\<close>

fun pilot_loop ::
  "'k run_library \<Rightarrow> (nat \<Rightarrow> case_environment) \<Rightarrow> pystr \<Rightarrow> run_classification \<Rightarrow> policy_repository \<Rightarrow> pystr \<Rightarrow> pystr \<Rightarrow>
     nat \<Rightarrow> supplied_provider option \<Rightarrow> pilot_results \<Rightarrow> (treatment \<times> corpus_case) list \<Rightarrow>
     (pilot_error + pilot_results) \<times> provider_request list" where
  "pilot_loop lib envs corpus_version classification repo run_id protocol_id n supplied results [] = (Inr results, [])"
| "pilot_loop lib envs corpus_version classification repo run_id protocol_id n supplied results ((trt, c) # rest) =
     (case run_case_for_treatment lib (envs n) c trt corpus_version classification repo run_id supplied (Some protocol_id) of
        (Inl e, sent, _) \<Rightarrow> (Inl (Case_Failed e), sent)
      | (Inr r, sent, supplied') \<Rightarrow>
          (case pilot_loop lib envs corpus_version classification repo run_id protocol_id (Suc n) supplied'
                  (dict_set results trt (dict_get_default results trt [] @ [r])) rest of
             (outcome, sent') \<Rightarrow> (outcome, sent @ sent')))"

definition run_pilot ::
  "'k run_library \<Rightarrow> (nat \<Rightarrow> case_environment) \<Rightarrow> pystr \<Rightarrow> 'y model_readers \<Rightarrow> 'y corpus_file list \<Rightarrow>
     ('f \<Rightarrow> policy_reading) \<Rightarrow> (pystr \<times> 'f) list \<Rightarrow> pystr \<Rightarrow> run_classification \<Rightarrow> treatment list \<Rightarrow>
     pystr option \<Rightarrow> supplied_provider option \<Rightarrow> pystr option \<Rightarrow>
     (pilot_error + pilot_results) \<times> provider_request list" where
  "run_pilot lib envs new_run_id readers corpus_files loader policy_files corpus_version classification treatments
       experiment_run_id supplied protocol_id =
     (let active_experiment_run_id = the_default new_run_id experiment_run_id;
          resolved_protocol_id = the_default CURRENT_PROTOCOL_ID protocol_id
      in case load_corpus readers corpus_files of
           Inl e \<Rightarrow> (Inl (Corpus_Not_Loaded e), [])
         | Inr cases \<Rightarrow>
             (case check_corpus_protocol_compatibility cases resolved_protocol_id of
                Inl e \<Rightarrow> (Inl (Corpus_Not_Scorable e), [])
              | Inr _ \<Rightarrow>
                  (case from_directory loader policy_files of
                     Inl e \<Rightarrow> (Inl (Policies_Not_Loaded e), [])
                   | Inr policy_repository \<Rightarrow>
                       pilot_loop lib envs corpus_version classification policy_repository
                         active_experiment_run_id resolved_protocol_id 0 supplied
                         (foldl (\<lambda>d t. dict_set d t []) [] treatments) (List.product treatments cases))))"


subsection \<open>No case of a checked corpus fails\<close>

lemma score_caseE:
  assumes "score_case case_input o' x = Inr s"
  shows "sr_conformance s = score_conformance o' (ex_disclosure_result (xe_execution x)) (xe_treatment x)"
    and "score_exposure o' (ex_disclosure_result (xe_execution x)) (xe_treatment x) = Inr (sr_exposure s)"
    and "score_unnecessary_disclosure o' (ex_disclosure_result (xe_execution x)) (xe_treatment x) =
      Inr (sr_unnecessary_disclosure s)"
    and "sr_outcomes s = classify_case_outcomes x"
    and "sr_ordinary_utility_failure s = classify_ordinary_utility_failure (sr_utility s) (classify_case_outcomes x)"
  using assms by (auto simp: score_case_def Let_def split: sum.splits)

lemma score_case_total:
  assumes "check_corpus_protocol_compatibility cases (ri_protocol_id (xe_identity x)) = Inr ()" and "c \<in> set cases"
    and "scorable_result (ex_disclosure_result (xe_execution x))"
  shows "\<exists>score. score_case (cc_input c) (cc_oracle c) x = Inr score"
proof -
  let ?res = "ex_disclosure_result (xe_execution x)" and ?trt = "xe_treatment x"
  obtain xp where xp: "score_exposure (cc_oracle c) ?res ?trt = Inr xp" using score_exposure_total [OF assms(3)] by blast
  obtain ud where ud: "score_unnecessary_disclosure (cc_oracle c) ?res ?trt = Inr ud"
    using score_unnecessary_total [OF assms(3)] by blast
  obtain us where "score_utility (cc_input c) (cc_oracle c) ?res ?trt (ri_protocol_id (xe_identity x)) = Inr us"
    using checked_case_scored [OF assms(1,2), of ?res ?trt] assms(3) by (auto simp: scorable_result_def)
  with xp ud show ?thesis by (simp add: score_case_def Let_def)
qed

text \<open>What identifies a result: its case, its treatment, the protocol and the run.\<close>

definition result_for :: "pystr \<Rightarrow> pystr \<Rightarrow> treatment \<times> corpus_case \<Rightarrow> case_result \<Rightarrow> bool" where
  "result_for run_id protocol_id pair r \<longleftrightarrow>
     ri_case_id (cx_identity r) = ci_sample_id (cc_input (snd pair)) \<and>
     ri_treatment_code (cx_identity r) = treatment_value (fst pair) \<and>
     ri_protocol_id (cx_identity r) = protocol_id \<and> rm_experiment_run_id (cx_metadata r) = run_id"

lemma run_case_returns:
  assumes "check_corpus_protocol_compatibility cases protocol_id = Inr ()" and "c \<in> set cases"
  obtains r sent supplied' where
    "run_case_for_treatment lib env c trt corpus_version classification repo run_id supplied (Some protocol_id) =
       (Inr r, sent, supplied')"
    and "result_for run_id protocol_id (trt, c) r" and "length sent \<le> 1"
proof -
  have ok: "validate_scorable_protocol_id (the_default CURRENT_PROTOCOL_ID (Some protocol_id)) = Inr ()"
    using checked_case(1) [OF assms] by simp
  have inv: "vault_inv (the_default (new_vault (ce_token_factory env)) None)" by (simp add: vault_inv_new)
  have rules: "list_all rule_ok (active_rules None)" by (simp add: built_in_rules_ok)
  obtain execution sent v' where run: "case_run lib env (cc_input c) trt repo None None None supplied [] False =
      Inr (execution, sent, v')"
    by (rule case_run_total [OF inv rules])
  have few: "length sent \<le> 1"
    using execute_case_runs [OF inv rules, of lib "cc_input c" trt repo None supplied "[]" False "Some protocol_id"
        corpus_version classification] run by auto
  obtain x supplied' where x: "execute_case lib env (cc_input c) trt corpus_version classification repo None None None supplied
      [] False (Some protocol_id) = (Inr x, sent, supplied')" "xe_execution x = execution" "xe_treatment x = trt"
    "ri_case_id (xe_identity x) = ci_sample_id (cc_input c)" "ri_treatment_code (xe_identity x) = treatment_value trt"
    "ri_protocol_id (xe_identity x) = protocol_id"
    by (rule execute_case_Inr [OF run ok, of corpus_version classification]) (use that in auto)
  have "scorable_result (ex_disclosure_result (xe_execution x))"
    using run run_scorable by (auto simp: case_run_def Let_def x(2))
  then obtain score where "score_case (cc_input c) (cc_oracle c) x = Inr score"
    using score_case_total [of cases x c] assms x(6) by auto
  with x(1,4,5,6) have "\<exists>r. run_case_for_treatment lib env c trt corpus_version classification repo run_id supplied
      (Some protocol_id) = (Inr r, sent, supplied') \<and> result_for run_id protocol_id (trt, c) r"
    by (simp add: run_case_for_treatment_def result_for_def)
  with few that show thesis by blast
qed

text \<open>The loop: one result for each pair, appended under its treatment.\<close>

definition add_result :: "pilot_results \<Rightarrow> (treatment \<times> corpus_case) \<times> case_result \<Rightarrow> pilot_results" where
  "add_result results entry =
     (case entry of ((trt, _), r) \<Rightarrow> dict_set results trt (dict_get_default results trt [] @ [r]))"

lemma add_result_pair: "add_result results ((trt, c), r) = dict_set results trt (dict_get_default results trt [] @ [r])"
  by (simp add: add_result_def)

lemma pilot_loop_returns:
  assumes "check_corpus_protocol_compatibility cases protocol_id = Inr ()" and "snd ` set pairs \<subseteq> set cases"
  shows "\<exists>rs sent. pilot_loop lib envs corpus_version classification repo run_id protocol_id n supplied results pairs =
      (Inr (foldl add_result results (zip pairs rs)), sent) \<and>
    list_all2 (result_for run_id protocol_id) pairs rs \<and> length sent \<le> length pairs"
  using assms(2)
proof (induction pairs arbitrary: n supplied results)
  case (Cons p pairs)
  obtain trt c where p: "p = (trt, c)" by force
  from Cons.prems have c: "c \<in> set cases" by (simp add: p)
  obtain r sent supplied' where r: "run_case_for_treatment lib (envs n) c trt corpus_version classification repo run_id supplied
      (Some protocol_id) = (Inr r, sent, supplied')" "result_for run_id protocol_id (trt, c) r" "length sent \<le> 1"
    by (rule run_case_returns [OF assms(1) c])
  obtain rs sent' where "pilot_loop lib envs corpus_version classification repo run_id protocol_id (Suc n) supplied'
      (add_result results (p, r)) pairs =
      (Inr (foldl add_result (add_result results (p, r)) (zip pairs rs)), sent')"
    "list_all2 (result_for run_id protocol_id) pairs rs" "length sent' \<le> length pairs"
    using Cons.IH [of "Suc n" supplied' "add_result results (p, r)"] Cons.prems by fastforce
  with r show ?case
    by (intro exI [of _ "r # rs"] exI [of _ "sent @ sent'"]) (simp add: p add_result_pair)
qed simp

lemma add_result_get:
  "dict_get_default (add_result results ((t, c), r)) trt [] =
     dict_get_default results trt [] @ (if t = trt then [r] else [])"
  by (simp add: add_result_pair)

lemma added_results:
  "dict_get_default (foldl add_result results (zip pairs rs)) trt [] =
     dict_get_default results trt [] @ map snd (filter (\<lambda>((t, _), _). t = trt) (zip pairs rs))"
proof (induction pairs arbitrary: results rs)
  case (Cons p pairs)
  show ?case
  proof (cases rs)
    case (Cons r rs')
    then show ?thesis by (cases p) (simp add: Cons.IH add_result_get)
  qed simp
qed simp


lemma filter_product:
  assumes "distinct ts" and "t \<in> set ts"
  shows "filter (\<lambda>p. fst p = t) (List.product ts cs) = map (Pair t) cs"
  using assms
proof (induction ts)
  case (Cons t' ts)
  have none: "filter (\<lambda>p. fst p = t) (List.product ts cs) = []" if "t \<notin> set ts" using that by (auto simp: filter_empty_conv)
  show ?case
  proof (cases "t = t'")
    case True
    with Cons.prems none show ?thesis by (simp add: filter_map comp_def)
  next
    case False
    with Cons show ?thesis by (simp add: filter_map comp_def)
  qed
qed simp

lemma matched_keys:
  assumes "list_all2 P pairs rs" and "\<And>p r. P p r \<Longrightarrow> g r = h p"
  shows "map g (map snd (filter (\<lambda>((t, _), _). t = trt) (zip pairs rs))) = map h (filter (\<lambda>p. fst p = trt) pairs)"
  using assms by (induction rule: list_all2_induct) auto

lemma initial_results: "dict_get_default (foldl (\<lambda>d t. dict_set d t []) ([] :: pilot_results) ts) trt [] = []"
proof -
  have "dict_get_default (foldl (\<lambda>d t. dict_set d t []) d ts) trt [] = (if trt \<in> set ts then [] else dict_get_default d trt [])"
    for d :: pilot_results
    by (induction ts arbitrary: d) auto
  then show ?thesis by simp
qed

lemma has_set [simp]: "dict_has (dict_set d k v) j \<longleftrightarrow> j = k \<or> dict_has d j"
  by (simp add: dict_has_get)

lemma set_keys: "map fst (dict_set d k v) = (if dict_has d k then map fst d else map fst d @ [k])"
  by (simp add: dict_set_def dict_has_def update_keys)

lemma initial_keys:
  "distinct (map fst d @ ts) \<Longrightarrow> map fst (foldl (\<lambda>d t. dict_set d t []) d ts) = map fst d @ ts"
proof (induction ts arbitrary: d)
  case (Cons t ts)
  then show ?case using Cons.IH [of "dict_set d t []"] by (simp add: set_keys dict_has_def)
qed simp

lemma added_keys:
  "\<forall>e \<in> set entries. dict_has d (fst (fst e)) \<Longrightarrow> map fst (foldl add_result d entries) = map fst d"
proof (induction entries arbitrary: d)
  case (Cons e entries)
  obtain t c r where e: "e = ((t, c), r)" by (metis prod.exhaust)
  from Cons show ?case by (auto simp: e add_result_pair set_keys)
qed simp

subsection \<open>What does not depend on the environment\<close>

text \<open>Two executions that agree but for measurements, keyed hashes and the raw capture.\<close>

definition stripped_audit :: "audit_record \<Rightarrow> audit_record" where
  "stripped_audit audit = audit_without_process_volatile_hashes (audit\<lparr>ar_raw := None\<rparr>)"

definition same_metrics :: "provider_call_metrics option \<Rightarrow> provider_call_metrics option \<Rightarrow> bool" where
  "same_metrics m m' \<longleftrightarrow> map_option (\<lambda>pm. pm\<lparr>pm_latency_ms := 0\<rparr>) m = map_option (\<lambda>pm. pm\<lparr>pm_latency_ms := 0\<rparr>) m'"

definition alike_executions :: "case_execution \<Rightarrow> case_execution \<Rightarrow> bool" where
  "alike_executions x x' \<longleftrightarrow>
     xe_identity x = xe_identity x' \<and> xe_treatment x = xe_treatment x' \<and>
     ex_disclosure_result (xe_execution x) = ex_disclosure_result (xe_execution x') \<and>
     stripped_audit (ex_audit (xe_execution x)) = stripped_audit (ex_audit (xe_execution x')) \<and>
     same_metrics (xe_provider_metrics x) (xe_provider_metrics x') \<and> xe_b4_metadata x = xe_b4_metadata x' \<and>
     xe_detected_text_spans x = xe_detected_text_spans x' \<and>
     xe_payload_echo_reconstructed_text x = xe_payload_echo_reconstructed_text x'"

lemma stripped_flags:
  "ps_called (ar_provider (stripped_audit a)) = ps_called (ar_provider a)"
  "ps_failed (ar_provider (stripped_audit a)) = ps_failed (ar_provider a)"
  by (simp_all add: stripped_audit_def audit_without_process_volatile_hashes_def)

lemma alike_flags:
  assumes "stripped_audit a = stripped_audit a'"
  shows "ps_called (ar_provider a) = ps_called (ar_provider a') \<and> ps_failed (ar_provider a) = ps_failed (ar_provider a')"
  using assms stripped_flags [of a] stripped_flags [of a'] by simp

lemma alike_scores:
  assumes "alike_executions x x'"
  shows "score_case case_input o' x = score_case case_input o' x'"
proof -
  note a = assms [unfolded alike_executions_def]
  have "ps_called (ar_provider (ex_audit (xe_execution x))) = ps_called (ar_provider (ex_audit (xe_execution x')))"
    "ps_failed (ar_provider (ex_audit (xe_execution x))) = ps_failed (ar_provider (ex_audit (xe_execution x')))"
    using a alike_flags by blast+
  with a have "classify_case_outcomes x = classify_case_outcomes x'" by (simp add: classify_case_outcomes_def Let_def)
  moreover have "xe_identity x = xe_identity x'" "xe_treatment x = xe_treatment x'"
    "ex_disclosure_result (xe_execution x) = ex_disclosure_result (xe_execution x')"
    "xe_detected_text_spans x = xe_detected_text_spans x'"
    "xe_payload_echo_reconstructed_text x = xe_payload_echo_reconstructed_text x'"
    using a by blast+
  ultimately show ?thesis unfolding score_case_def Let_def by (simp only:)
qed

lemma audit_hash_free:
  "stripped_audit (build_audit_record hmac key request spans res trt response cls rec attempted failure capture None) =
   stripped_audit (build_audit_record hmac' key' request spans res trt response cls rec attempted failure capture' None)"
  by (simp add: stripped_audit_def audit_without_process_volatile_hashes_def build_audit_record_def Let_def)

text \<open>An execution without its audit: the response, the reconstruction, what the audit is told of the call, and the requests.\<close>

definition execution_core ::
  "'v disclosure_treatment \<Rightarrow> 'v \<Rightarrow> disclosure_request \<Rightarrow> provider \<Rightarrow> disclosure_decision \<Rightarrow> rat \<Rightarrow>
     provider_response option \<times> pystr option \<times> pystr option \<times> bool \<times> pystr option \<times> provider_request list" where
  "execution_core trt v request p decision timeout =
     (if rs_status (dd_result decision) = Allowed then
        (case invoke_provider p \<lparr>pq_payload = rs_external_payload (dd_result decision), pq_task = rq_task request\<rparr>
                (ctx_provider_class (rq_context request)) timeout of
           (Inl e, sent) \<Rightarrow> (None, None, Some (pv_class p), pf_invoked e, Some (pf_kind e), sent)
         | (Inr response, sent) \<Rightarrow>
             (Some response, map_option (\<lambda>f. f v (pr_text response) (dd_result decision) (rq_context request)) (dt_reconstruct trt),
              Some (pv_class p), True, None, sent))
      else (None, None, None, False, None, []))"

lemma execute_by_core:
  assumes "execution_core trt v request p decision timeout = (response, reconstructed, cls, attempted, failure, sent)"
  shows "execute_disclosure_decision hmac key trt v request p decision timeout capture =
    (\<lparr>ex_disclosure_result = dd_result decision, ex_spans = dd_spans decision, ex_provider_response = response,
      ex_reconstructed_text = reconstructed,
      ex_audit = build_audit_record hmac key request (dd_spans decision) (dd_result decision) (dt_treatment trt) response cls
        reconstructed (Some attempted) failure capture None\<rparr>, sent)"
proof (cases "rs_status (dd_result decision) = Allowed")
  case True
  obtain outcome submitted where "invoke_provider p \<lparr>pq_payload = rs_external_payload (dd_result decision), pq_task = rq_task request\<rparr>
      (ctx_provider_class (rq_context request)) timeout = (outcome, submitted)" by force
  with assms True show ?thesis
    by (cases outcome) (simp_all add: execution_core_def execute_disclosure_decision_def Let_def)
next
  case False
  with assms show ?thesis by (simp add: execution_core_def execute_disclosure_decision_def Let_def)
qed

lemma failed_iff_kind:
  assumes "execute_disclosure_decision hmac key trt v request p decision timeout capture = (e, sent)"
  shows "ps_failed (ar_provider (ex_audit e)) \<longleftrightarrow> ps_failure_kind (ar_provider (ex_audit e)) \<noteq> None"
proof -
  obtain response reconstructed cls attempted failure submitted where
    core: "execution_core trt v request p decision timeout = (response, reconstructed, cls, attempted, failure, submitted)"
    by (metis prod.exhaust)
  show ?thesis using assms [unfolded execute_by_core [OF core]] by (auto simp: build_audit_record_def Let_def)
qed

lemma execute_hash_free:
  assumes "execute_disclosure_decision hmac key trt v request p decision timeout capture = (e, sent)"
    and "execute_disclosure_decision hmac' key' trt v request p decision timeout capture' = (e', sent')"
  shows "sent' = sent \<and> ex_disclosure_result e' = ex_disclosure_result e \<and> ex_spans e' = ex_spans e \<and>
    ex_provider_response e' = ex_provider_response e \<and> stripped_audit (ex_audit e') = stripped_audit (ex_audit e)"
proof -
  obtain response reconstructed cls attempted failure submitted where
    core: "execution_core trt v request p decision timeout = (response, reconstructed, cls, attempted, failure, submitted)"
    by (metis prod.exhaust)
  note e = assms(1) [unfolded execute_by_core [OF core] prod.inject] and e' = assms(2) [unfolded execute_by_core [OF core] prod.inject]
  show ?thesis
    using audit_hash_free [of hmac' key' request "dd_spans decision" "dd_result decision" "dt_treatment trt" response cls
        reconstructed "Some attempted" failure capture' hmac key capture]
    unfolding e [THEN conjunct1, symmetric] e' [THEN conjunct1, symmetric] e [THEN conjunct2, symmetric]
      e' [THEN conjunct2, symmetric] by simp
qed

lemma run_hash_free:
  assumes "run_disclosure_case hmac key trt detector v request p timeout capture = Inr (e, sent, w)"
  obtains e' where "run_disclosure_case hmac' key' trt detector v request p timeout capture' = Inr (e', sent, w)"
    and "ex_disclosure_result e' = ex_disclosure_result e" and "ex_spans e' = ex_spans e"
    and "ex_provider_response e' = ex_provider_response e" and "stripped_audit (ex_audit e') = stripped_audit (ex_audit e)"
proof -
  obtain decision where d: "decide_disclosure trt detector v request = Inr (decision, w)"
    "execute_disclosure_decision hmac key trt w request p decision timeout capture = (e, sent)"
    by (rule run_caseE [OF assms])
  obtain e' sent' where e': "execute_disclosure_decision hmac' key' trt w request p decision timeout capture' = (e', sent')"
    by force
  from execute_hash_free [OF d(2) e'] d(1) e' that show thesis by (simp add: run_disclosure_case_def)
qed

lemma call_metrics_latency: "(call_metrics latency request response)\<lparr>pm_latency_ms := 0\<rparr> = (call_metrics latency' request response)\<lparr>pm_latency_ms := 0\<rparr>"
  by (simp add: call_metrics_def Let_def)

text \<open>The same case executed with other measurements, another key and another capture.\<close>

lemma execute_case_reproducible:
  assumes "execute_case lib env case_input trt corpus_version classification repo vault analyzer detector supplied overrides
      capture protocol_id = (Inr x, sent, s)"
    and "lb_sha256_hex lib' = lb_sha256_hex lib" and "lb_repr lib' = lb_repr lib"
    and "ce_token_factory env' = ce_token_factory env"
  obtains x' s' where "execute_case lib' env' case_input trt corpus_version classification repo vault analyzer detector supplied
      overrides capture' protocol_id = (Inr x', sent, s')" and "alike_executions x x'"
proof -
  let ?request = "build_request case_input DEFAULT_HARNESS_SESSION_ID overrides"
  let ?v = "the_default (new_vault (ce_token_factory env)) vault"
  obtain delegate base_name where d: "active_delegate lib (rq_context ?request) supplied = (delegate, base_name)" by force
  then have d': "active_delegate lib' (rq_context ?request) supplied = (delegate, base_name)"
    unfolding active_delegate_def assms(2,3) .
  let ?timeout = "caller_timeout_for_provider (tp_wrapped delegate) DEFAULT_TIMEOUT_SECONDS"
  let ?trt = "build_treatment in_memory_ops repo analyzer trt"
  note run1 = assms(1) [unfolded execute_case_def Let_def d prod.case]
  obtain e w where r: "run_disclosure_case (lb_hmac lib) (lb_hash_key lib) ?trt detector ?v ?request (tp_wrapped delegate) ?timeout
      capture = Inr (e, sent, w)"
    using run1 by (auto split: sum.splits)
  have ok: "validate_scorable_protocol_id (the_default CURRENT_PROTOCOL_ID protocol_id) = Inr ()"
    using run1 r by (auto split: sum.splits)
  obtain e' where r': "run_disclosure_case (lb_hmac lib') (lb_hash_key lib') ?trt detector ?v ?request (tp_wrapped delegate) ?timeout
      capture' = Inr (e', sent, w)" and same: "ex_disclosure_result e' = ex_disclosure_result e" "ex_spans e' = ex_spans e"
      "ex_provider_response e' = ex_provider_response e" "stripped_audit (ex_audit e') = stripped_audit (ex_audit e)"
    by (rule run_hash_free [OF r])
  obtain dec where "execute_disclosure_decision (lb_hmac lib) (lb_hash_key lib) ?trt w ?request (tp_wrapped delegate) dec ?timeout
      capture = (e, sent)" by (rule run_caseE [OF r])
  note rec = recorded_calls(1) [OF this]
  let ?last = "\<lambda>env. tp_last_call (foldl (record_call (ce_latency_ms env) ?timeout) delegate sent)"
  have metrics: "same_metrics (?last env) (?last env')"
    "map_option pm_model_id (?last env) = map_option pm_model_id (?last env')"
    "map_option pm_model_snapshot (?last env) = map_option pm_model_snapshot (?last env')"
    unfolding rec same_metrics_def using call_metrics_latency
    by (auto simp: call_metrics_def Let_def split: option.splits)
  have ids: "(case ?last env of Some pm \<Rightarrow> pm_model_id pm | None \<Rightarrow> base_name) =
      (case ?last env' of Some pm \<Rightarrow> pm_model_id pm | None \<Rightarrow> base_name)"
    "(case ?last env of Some pm \<Rightarrow> pm_model_snapshot pm | None \<Rightarrow> ''not_called'') =
      (case ?last env' of Some pm \<Rightarrow> pm_model_snapshot pm | None \<Rightarrow> ''not_called'')"
    using metrics(2,3) by (auto split: option.splits)
  have "\<exists>x' s'. execute_case lib' env' case_input trt corpus_version classification repo vault analyzer detector supplied
      overrides capture' protocol_id = (Inr x', sent, s') \<and> alike_executions x x'"
    using run1 metrics(1) ids same
    by (auto simp: execute_case_def Let_def d' assms(4) r r' ok alike_executions_def)
  then show thesis using that by blast
qed

text \<open>What the metadata of a B4 run say, whatever the task check then does.\<close>

lemma governed_flags:
  assumes "decide_disclosure (build_treatment in_memory_ops repo analyzer trt) detector v request = Inr (decision, v')"
    and "list_all rule_ok (active_rules detector)"
    and "extract_b4_metadata (governed_spans trt repo analyzer v request (dd_spans decision)) = Some m"
  shows "trt = POLICY_GOVERNED" and "bm_block_reason_classes m \<noteq> [] \<Longrightarrow> rs_status (dd_result decision) = Blocked"
    and "set (bm_impossible_under_policy_categories m) \<subseteq> set (bm_policy_restricted_categories m)"
proof -
  show trt: "trt = POLICY_GOVERNED"
    using assms(3) by (auto simp: governed_spans_def extract_b4_metadata_def split: if_splits)
  obtain spans where spans: "detect (active_rules detector) (rq_text request) = Inr spans" "spans_are_valid spans (rq_text request)"
    by (rule detect_ok [OF assms(2)])
  have "\<exists>res. policy_governed_sanitize in_memory_ops repo (analyzer_of analyzer) v request spans = Inr (res, v') \<and>
      dd_spans decision = spans \<and> (rs_status res = Blocked \<longrightarrow> rs_status (dd_result decision) = Blocked)"
    using assms(1) by (auto simp: decide_disclosure_def trt spans(1) split: sum.splits if_splits)
  then obtain res where res: "policy_governed_sanitize in_memory_ops repo (analyzer_of analyzer) v request spans = Inr (res, v')"
    "dd_spans decision = spans" "rs_status res = Blocked \<Longrightarrow> rs_status (dd_result decision) = Blocked" by blast
  have "\<exists>attributes m'. governed_attributes_of in_memory_ops repo (analyzer_of analyzer) v request spans = Inr attributes \<and>
      extract_b4_metadata [(B4_SPAN_NAME, attributes)] = Some m' \<and>
      (bm_block_reason_classes m' = [] \<longleftrightarrow> rs_status res = Allowed) \<and>
      set (bm_impossible_under_policy_categories m') \<subseteq> set (bm_policy_restricted_categories m')"
    using read_metadata [OF res(1) spans(2)] by (elim exE conjE) (intro exI conjI, assumption+)
  then obtain attributes m' where m': "governed_attributes_of in_memory_ops repo (analyzer_of analyzer) v request spans = Inr attributes"
    "extract_b4_metadata [(B4_SPAN_NAME, attributes)] = Some m'"
    "bm_block_reason_classes m' = [] \<longleftrightarrow> rs_status res = Allowed"
    "set (bm_impossible_under_policy_categories m') \<subseteq> set (bm_policy_restricted_categories m')"
    by (elim exE conjE) (rule that)
  have "m = m'" using assms(3) m'(1,2) by (simp add: governed_spans_def trt res(2))
  then show "bm_block_reason_classes m \<noteq> [] \<Longrightarrow> rs_status (dd_result decision) = Blocked"
    and "set (bm_impossible_under_policy_categories m) \<subseteq> set (bm_policy_restricted_categories m)"
    using m'(3,4) res(3) by (cases "rs_status res"; simp)+
qed

text \<open>The run behind a result.\<close>

lemma run_caseE_result:
  assumes "run_case_for_treatment lib env c trt corpus_version classification repo run_id supplied protocol_id = (Inr r, sent, s)"
  obtains x where "execute_case lib env (cc_input c) trt corpus_version classification repo None None None supplied [] False
      protocol_id = (Inr x, sent, s)"
    and "score_case (cc_input c) (cc_oracle c) x = Inr (cx_score r)"
    and "cx_identity r = xe_identity x" and "cx_case_execution r = x"
    and "cx_metadata r = \<lparr>rm_experiment_run_id = run_id, rm_case_execution_id = ce_case_execution_id env,
      rm_generated_at = ce_generated_at env\<rparr>"
  using assms by (auto simp: run_case_for_treatment_def split: prod.splits sum.splits)

lemma executed_run:
  assumes "execute_case lib env case_input trt corpus_version classification repo None None None supplied [] False
      protocol_id = (Inr x, sent, s)"
  obtains v' where "case_run lib env case_input trt repo None None None supplied [] False = Inr (xe_execution x, sent, v')"
    and "xe_treatment x = trt"
    and "xe_b4_metadata x = extract_b4_metadata (governed_spans trt repo None (new_vault (ce_token_factory env))
        (build_request case_input DEFAULT_HARNESS_SESSION_ID []) (ex_spans (xe_execution x)))"
proof -
  have inv: "vault_inv (the_default (new_vault (ce_token_factory env)) None)" by (simp add: vault_inv_new)
  have rules: "list_all rule_ok (active_rules None)" by (simp add: built_in_rules_ok)
  obtain execution sent' v' where run: "case_run lib env case_input trt repo None None None supplied [] False =
      Inr (execution, sent', v')"
    by (rule case_run_total [OF inv rules])
  show thesis
  proof (cases "validate_scorable_protocol_id (the_default CURRENT_PROTOCOL_ID protocol_id)")
    case (Inl e)
    show thesis by (rule execute_case_Inl [OF run Inl, of corpus_version classification]) (use assms in simp)
  next
    case (Inr u)
    then have ok: "validate_scorable_protocol_id (the_default CURRENT_PROTOCOL_ID protocol_id) = Inr ()" by simp
    show thesis
      by (rule execute_case_Inr [OF run ok, of corpus_version classification]) (use assms run that in auto)
  qed
qed

lemma separated_outcomes:
  assumes "run_case_for_treatment lib env c trt corpus_version classification repo run_id supplied protocol_id = (Inr r, sent, s)"
    and "flags = sr_outcomes (cx_score r)" and "response = ex_provider_response (xe_execution (cx_case_execution r))"
  shows "(fl_policy_block flags \<longrightarrow> fl_blocked flags) \<and>
    (fl_impossible_under_policy flags \<longrightarrow> fl_policy_restricted flags) \<and>
    (fl_policy_block flags \<or> fl_policy_restricted flags \<longrightarrow> trt = POLICY_GOVERNED) \<and>
    (fl_provider_called flags \<longleftrightarrow> sent \<noteq> []) \<and> (fl_provider_called flags \<longrightarrow> \<not> fl_blocked flags) \<and>
    (response \<noteq> None \<longleftrightarrow> fl_provider_called flags \<and> \<not> fl_provider_failure flags) \<and>
    (sr_ordinary_utility_failure (cx_score r) \<longleftrightarrow>
       us_overall (sr_utility (cx_score r)) \<in> {Not_Answerable, Indeterminate} \<and>
       \<not> fl_blocked flags \<and> \<not> fl_impossible_under_policy flags)"
proof -
  obtain x where x: "execute_case lib env (cc_input c) trt corpus_version classification repo None None None supplied [] False
      protocol_id = (Inr x, sent, s)" "score_case (cc_input c) (cc_oracle c) x = Inr (cx_score r)" "cx_case_execution r = x"
    by (rule run_caseE_result [OF assms(1)])
  let ?request = "build_request (cc_input c) DEFAULT_HARNESS_SESSION_ID []"
  have flags: "flags = classify_case_outcomes x"
    and ordinary: "sr_ordinary_utility_failure (cx_score r) = classify_ordinary_utility_failure (sr_utility (cx_score r)) flags"
    using score_caseE [OF x(2)] assms(2) by auto
  obtain v' where run: "case_run lib env (cc_input c) trt repo None None None supplied [] False = Inr (xe_execution x, sent, v')"
    and b4: "xe_b4_metadata x = extract_b4_metadata (governed_spans trt repo None (new_vault (ce_token_factory env)) ?request
        (ex_spans (xe_execution x)))"
    by (rule executed_run [OF x(1)])
  note steps = run [unfolded case_run_def Let_def the_default_simps]
  obtain decision where decision: "decide_disclosure (build_treatment in_memory_ops repo None trt) None
      (new_vault (ce_token_factory env)) ?request = Inr (decision, v')"
    and ex: "execute_disclosure_decision (lb_hmac lib) (lb_hash_key lib) (build_treatment in_memory_ops repo None trt) v' ?request
      (tp_wrapped (fst (active_delegate lib (rq_context ?request) supplied))) decision
      (caller_timeout_for_provider (tp_wrapped (fst (active_delegate lib (rq_context ?request) supplied))) DEFAULT_TIMEOUT_SECONDS)
      False = (xe_execution x, sent)"
    by (rule run_caseE [OF steps])
  have rules: "list_all rule_ok (active_rules None)" by (simp add: built_in_rules_ok)
  have gov: "trt = POLICY_GOVERNED \<and>
      (bm_block_reason_classes m \<noteq> [] \<longrightarrow> rs_status (ex_disclosure_result (xe_execution x)) = Blocked) \<and>
      set (bm_impossible_under_policy_categories m) \<subseteq> set (bm_policy_restricted_categories m)"
    if m: "xe_b4_metadata x = Some m" for m
    using governed_flags [OF decision rules, of m] m b4 execute_carries [OF ex] by simp
  have calls: "(ps_called (ar_provider (ex_audit (xe_execution x))) \<longleftrightarrow> sent \<noteq> []) \<and>
      (sent \<noteq> [] \<longrightarrow> rs_status (ex_disclosure_result (xe_execution x)) = Allowed) \<and>
      (ex_provider_response (xe_execution x) \<noteq> None \<longleftrightarrow>
         ps_called (ar_provider (ex_audit (xe_execution x))) \<and> \<not> ps_failed (ar_provider (ex_audit (xe_execution x))))"
    by (cases rule: execute_cases [OF ex]) (use failed_iff_kind [OF ex] execute_carries [OF ex] in auto)
  show ?thesis
    using gov calls unfolding flags ordinary assms(3) x(3)
    by (cases "xe_b4_metadata x") (auto simp: classify_case_outcomes_def classify_ordinary_utility_failure_def Let_def)
qed

lemma pilot_returns:
  assumes "load_corpus readers corpus_files = Inr cases"
    and "check_corpus_protocol_compatibility cases (the_default CURRENT_PROTOCOL_ID protocol_id) = Inr ()"
    and "\<forall>file \<in> set policy_files. \<forall>err. loader (snd file) \<noteq> Policy_Raises err"
    and "distinct treatments"
  shows "\<exists>results sent. run_pilot lib envs new_run_id readers corpus_files loader policy_files corpus_version classification
      treatments experiment_run_id supplied protocol_id = (Inr results, sent) \<and>
    length sent \<le> length treatments * length cases \<and>
    map fst results = treatments \<and>
    (\<forall>trt \<in> set treatments. \<exists>rs. dict_get results trt = Some rs \<and>
       map (\<lambda>r. ri_case_id (cx_identity r)) rs = map (\<lambda>c. ci_sample_id (cc_input c)) cases \<and>
       (\<forall>r \<in> set rs. ri_treatment_code (cx_identity r) = treatment_value trt \<and>
          ri_protocol_id (cx_identity r) = the_default CURRENT_PROTOCOL_ID protocol_id \<and>
          rm_experiment_run_id (cx_metadata r) = the_default new_run_id experiment_run_id))"
proof -
  let ?pid = "the_default CURRENT_PROTOCOL_ID protocol_id" and ?run = "the_default new_run_id experiment_run_id"
  let ?pairs = "List.product treatments cases" and ?init = "foldl (\<lambda>d t. dict_set d t []) ([] :: pilot_results) treatments"
  obtain repo where repo: "from_directory loader policy_files = Inr repo"
    using from_directory_total [of loader policy_files] assms(3) by blast
  have "snd ` set ?pairs \<subseteq> set cases" by auto
  from pilot_loop_returns [OF assms(2) this, of lib envs corpus_version classification repo
      ?run 0 supplied ?init]
  obtain rs sent where loop: "pilot_loop lib envs corpus_version classification repo ?run ?pid 0
      supplied ?init ?pairs = (Inr (foldl add_result ?init (zip ?pairs rs)), sent)"
    "list_all2 (result_for ?run ?pid) ?pairs rs" "length sent \<le> length ?pairs"
    by blast
  let ?results = "foldl add_result ?init (zip ?pairs rs)"
  have init: "map fst ?init = treatments" using assms(4) initial_keys [of "[] :: pilot_results" treatments] by simp
  then have "\<forall>e \<in> set (zip ?pairs rs). dict_has ?init (fst (fst e))"
    by (auto simp: dict_has_def simp flip: set_map dest: set_zip_leftD)
  then have keys: "map fst ?results = treatments" by (simp add: added_keys init)
  have each: "\<exists>rs'. dict_get ?results trt = Some rs' \<and>
       map (\<lambda>r. ri_case_id (cx_identity r)) rs' = map (\<lambda>c. ci_sample_id (cc_input c)) cases \<and>
       (\<forall>r \<in> set rs'. ri_treatment_code (cx_identity r) = treatment_value trt \<and>
          ri_protocol_id (cx_identity r) = ?pid \<and> rm_experiment_run_id (cx_metadata r) = ?run)"
    if trt: "trt \<in> set treatments" for trt
  proof -
    let ?rs = "map snd (filter (\<lambda>((t, _), _). t = trt) (zip ?pairs rs))"
    have "dict_get_default ?results trt [] = ?rs" by (simp add: added_results initial_results)
    moreover have "dict_has ?results trt" using keys trt by (simp add: dict_has_def)
    ultimately have got: "dict_get ?results trt = Some ?rs"
      by (auto simp: dict_has_get dict_get_default_def dict_get_def)
    have "map (\<lambda>r. ri_case_id (cx_identity r)) ?rs = map (\<lambda>p. ci_sample_id (cc_input (snd p))) (filter (\<lambda>p. fst p = trt) ?pairs)"
      by (rule matched_keys [OF loop(2)]) (simp add: result_for_def)
    then have ids: "map (\<lambda>r. ri_case_id (cx_identity r)) ?rs = map (\<lambda>c. ci_sample_id (cc_input c)) cases"
      by (simp add: filter_product [OF assms(4) trt] comp_def)
    let ?g = "\<lambda>r. (ri_treatment_code (cx_identity r), ri_protocol_id (cx_identity r), rm_experiment_run_id (cx_metadata r))"
    have "map ?g ?rs = map (\<lambda>p. (treatment_value (fst p), ?pid, ?run)) (filter (\<lambda>p. fst p = trt) ?pairs)"
      by (rule matched_keys [OF loop(2)]) (simp add: result_for_def)
    then have "set (map ?g ?rs) \<subseteq> {(treatment_value trt, ?pid, ?run)}"
      by (simp only: filter_product [OF assms(4) trt]) auto
    then have "\<forall>r \<in> set ?rs. ?g r = (treatment_value trt, ?pid, ?run)" by (simp only: set_map) blast
    with got ids show ?thesis by (intro exI [of _ ?rs]) simp
  qed
  have "run_pilot lib envs new_run_id readers corpus_files loader policy_files corpus_version classification
      treatments experiment_run_id supplied protocol_id = (Inr ?results, sent)"
    using loop(1) assms(1,2) repo by (simp add: run_pilot_def Let_def)
  with loop(3) keys each show ?thesis by (auto simp: length_product)
qed

subsection \<open>Properties\<close>

text \<open>
  C28: a pilot fails before its first call or not at all: when it ends with an error, nothing was sent to the provider, and
  the error is, in this order, that the corpus does not load, that the check refuses it for the protocol, or that reading a file
  of the policy directory raises an error that the loader of the policies does not catch. No case fails.
\<close>

theorem pilots_fail_before_the_first_call:
  assumes "run_pilot lib envs new_run_id readers corpus_files loader policy_files corpus_version classification treatments
    experiment_run_id supplied protocol_id = (Inl e, sent)"
  shows "sent = [] \<and>
    (case e of
       Corpus_Not_Loaded f \<Rightarrow> load_corpus readers corpus_files = Inl f
     | Corpus_Not_Scorable u \<Rightarrow>
         \<exists>cases. load_corpus readers corpus_files = Inr cases \<and>
           check_corpus_protocol_compatibility cases (the_default CURRENT_PROTOCOL_ID protocol_id) = Inl u
     | Policies_Not_Loaded err \<Rightarrow>
         \<exists>cases. load_corpus readers corpus_files = Inr cases \<and>
           check_corpus_protocol_compatibility cases (the_default CURRENT_PROTOCOL_ID protocol_id) = Inr () \<and>
           (\<exists>file \<in> set policy_files. loader (snd file) = Policy_Raises err)
     | Case_Failed _ \<Rightarrow> False)"
proof (cases "load_corpus readers corpus_files")
  case (Inl f)
  with assms show ?thesis by (auto simp: run_pilot_def Let_def)
next
  case (Inr cases)
  note loaded = this
  show ?thesis
  proof (cases "check_corpus_protocol_compatibility cases (the_default CURRENT_PROTOCOL_ID protocol_id)")
    case (Inl u)
    with assms loaded show ?thesis by (auto simp: run_pilot_def Let_def)
  next
    case (Inr u)
    then have ok: "check_corpus_protocol_compatibility cases (the_default CURRENT_PROTOCOL_ID protocol_id) = Inr ()" by simp
    show ?thesis
    proof (cases "from_directory loader policy_files")
      case (Inl err)
      then have e: "e = Policies_Not_Loaded err" "sent = []" using assms loaded ok by (simp_all add: run_pilot_def Let_def)
      show ?thesis unfolding e using loaded ok from_directory_raises [OF Inl] by simp
    next
      case (Inr repo)
      have "snd ` set (List.product treatments cases) \<subseteq> set cases" by auto
      from pilot_loop_returns [OF ok this, of lib envs corpus_version classification repo
          "the_default new_run_id experiment_run_id" 0 supplied "foldl (\<lambda>d t. dict_set d t []) [] treatments"]
        assms loaded ok Inr
      show ?thesis by (auto simp: run_pilot_def Let_def)
    qed
  qed
qed

definition corpus_sample :: corpus_case where
  "corpus_sample = \<lparr>cc_input = sample_input, cc_oracle = sample_oracle\<rparr>"

definition sample_pilot ::
  "treatment list \<Rightarrow> pystr option \<Rightarrow> (pilot_error + pilot_results) \<times> provider_request list" where
  "sample_pilot treatments pid =
     run_pilot sample_library (\<lambda>_. sample_environment) ''run'' sample_readers [sample_file] (\<lambda>y. Policy_Recorded ''unreadable'')
       [(''p.yaml'', ())] ''v1'' PILOT_DEVELOPMENT treatments None None pid"

theorem pilots_fail_before_the_first_call_witness:
  "\<exists>e. sample_pilot ALL_TREATMENTS (Some ''post-pilot-v1'') = (Inl (Corpus_Not_Scorable e), [])"
proof -
  have "case sample_pilot ALL_TREATMENTS (Some ''post-pilot-v1'') of
      (Inl (Corpus_Not_Scorable _), _) \<Rightarrow> True | _ \<Rightarrow> False"
    by code_simp
  then obtain e sent where p: "sample_pilot ALL_TREATMENTS (Some ''post-pilot-v1'') = (Inl (Corpus_Not_Scorable e), sent)"
    by (auto split: prod.splits sum.splits pilot_error.splits)
  from pilots_fail_before_the_first_call [OF p [unfolded sample_pilot_def]] p show ?thesis by simp
qed


text \<open>
  C27: a pilot of different treatments over a corpus that loads and that the protocol can score completes, when reading the policy
  files raises nothing but what the loader of the policies records (a file that is not UTF-8 is not recorded: it ends the pilot).
  Each treatment gets
  one result for each case, in the order of the corpus, under its own code, the resolved protocol and the one identifier of the
  run; and no more requests are sent than there are results.
\<close>

theorem pilots_complete:
  assumes "load_corpus readers corpus_files = Inr cases"
    and "check_corpus_protocol_compatibility cases (the_default CURRENT_PROTOCOL_ID protocol_id) = Inr ()"
    and "\<forall>file \<in> set policy_files. \<forall>err. loader (snd file) \<noteq> Policy_Raises err"
    and "distinct treatments"
  shows "\<exists>results sent. run_pilot lib envs new_run_id readers corpus_files loader policy_files corpus_version classification
      treatments experiment_run_id supplied protocol_id = (Inr results, sent) \<and>
    length sent \<le> length treatments * length cases \<and>
    map fst results = treatments \<and>
    (\<forall>trt \<in> set treatments. \<exists>rs. dict_get results trt = Some rs \<and>
       map (\<lambda>r. ri_case_id (cx_identity r)) rs = map (\<lambda>c. ci_sample_id (cc_input c)) cases \<and>
       (\<forall>r \<in> set rs. ri_treatment_code (cx_identity r) = treatment_value trt \<and>
          ri_protocol_id (cx_identity r) = the_default CURRENT_PROTOCOL_ID protocol_id \<and>
          rm_experiment_run_id (cx_metadata r) = the_default new_run_id experiment_run_id))"
  by (rule pilot_returns [OF assms])

lemma sample_corpus:
  "load_corpus sample_readers [sample_file] = Inr [corpus_sample]"
  "check_corpus_protocol_compatibility [corpus_sample] CURRENT_PROTOCOL_ID = Inr ()"
  by code_simp+

theorem pilots_complete_witness:
  "\<exists>results sent rs. sample_pilot ALL_TREATMENTS None = (Inr results, sent) \<and> length sent \<le> 5 \<and>
     dict_get results POLICY_GOVERNED = Some rs \<and>
     map (\<lambda>r. ri_case_id (cx_identity r)) rs = [ci_sample_id sample_input]"
proof -
  have "check_corpus_protocol_compatibility [corpus_sample] (the_default CURRENT_PROTOCOL_ID None) = Inr ()"
    using sample_corpus(2) by simp
  moreover have "distinct ALL_TREATMENTS" by code_simp
  moreover have "\<forall>file \<in> set [(''p.yaml'', ())]. \<forall>err. (\<lambda>y. Policy_Recorded ''unreadable'') (snd file) \<noteq> Policy_Raises err"
    by simp
  ultimately show ?thesis
    using pilots_complete [OF sample_corpus(1), of None "[(''p.yaml'', ())]" "\<lambda>y. Policy_Recorded ''unreadable''" ALL_TREATMENTS
        sample_library "\<lambda>_. sample_environment" "''run''" "''v1''" PILOT_DEVELOPMENT None None]
    by (fastforce simp: sample_pilot_def ALL_TREATMENTS_def corpus_sample_def)
qed


text \<open>
  C30: the reproducible part of a result depends neither on the measurements, the identifiers, the time and the run nor on the key
  that the audit is hashed with. With the same tokens in the vault and the same provider, running a case again gives the same
  reproducible part and sends the same requests; and what is stored of a result never holds the raw capture.
\<close>

theorem results_are_reproducible:
  assumes "run_case_for_treatment lib env c trt corpus_version classification repo run_id supplied protocol_id = (Inr r, sent, s)"
    and "lb_sha256_hex lib' = lb_sha256_hex lib" and "lb_repr lib' = lb_repr lib"
    and "ce_token_factory env' = ce_token_factory env"
  shows "\<exists>r' s'. run_case_for_treatment lib' env' c trt corpus_version classification repo run_id' supplied protocol_id =
      (Inr r', sent, s') \<and>
    deterministic_key r' = deterministic_key r \<and> ar_raw (sf_audit (to_safe_dict r')) = None"
proof -
  obtain x where x: "execute_case lib env (cc_input c) trt corpus_version classification repo None None None supplied [] False
      protocol_id = (Inr x, sent, s)" "score_case (cc_input c) (cc_oracle c) x = Inr (cx_score r)"
    "cx_identity r = xe_identity x" "cx_case_execution r = x"
    by (rule run_caseE_result [OF assms(1)])
  obtain x' s' where x': "execute_case lib' env' (cc_input c) trt corpus_version classification repo None None None supplied
      [] False protocol_id = (Inr x', sent, s')" "alike_executions x x'"
    by (rule execute_case_reproducible [OF x(1) assms(2-4)])
  have "score_case (cc_input c) (cc_oracle c) x' = Inr (cx_score r)" using x(2) alike_scores [OF x'(2)] by simp
  with x'(1) have run: "run_case_for_treatment lib' env' c trt corpus_version classification repo run_id' supplied protocol_id =
      (Inr \<lparr>cx_identity = xe_identity x', cx_metadata = \<lparr>rm_experiment_run_id = run_id',
          rm_case_execution_id = ce_case_execution_id env', rm_generated_at = ce_generated_at env'\<rparr>,
        cx_score = cx_score r, cx_case_execution = x'\<rparr>, sent, s')"
    by (simp add: run_case_for_treatment_def)
  then show ?thesis
    using x(3,4) x'(2)
    by (simp add: deterministic_key_def to_safe_dict_def Let_def alike_executions_def same_metrics_def stripped_audit_def)
qed

lemma sample_case_runs:
  obtains r sent s where
    "run_case_for_treatment sample_library sample_environment corpus_sample POLICY_GOVERNED ''v1'' PILOT_DEVELOPMENT
       sample_repository ''run'' None (Some CURRENT_PROTOCOL_ID) = (Inr r, sent, s)"
  by (rule run_case_returns [OF sample_corpus(2), of corpus_sample]) (simp, blast)

theorem results_are_reproducible_witness:
  "\<exists>r sent s r' s'.
     run_case_for_treatment sample_library sample_environment corpus_sample POLICY_GOVERNED ''v1'' PILOT_DEVELOPMENT
       sample_repository ''run'' None (Some CURRENT_PROTOCOL_ID) = (Inr r, sent, s) \<and>
     run_case_for_treatment (sample_library\<lparr>lb_hmac := \<lambda>k s. ''h'' @ s\<rparr>)
       (sample_environment\<lparr>ce_latency_ms := 7, ce_case_execution_id := ''e2''\<rparr>) corpus_sample POLICY_GOVERNED ''v1''
       PILOT_DEVELOPMENT sample_repository ''run2'' None (Some CURRENT_PROTOCOL_ID) = (Inr r', sent, s') \<and>
     deterministic_key r' = deterministic_key r"
proof (rule sample_case_runs)
  fix r sent s
  assume r: "run_case_for_treatment sample_library sample_environment corpus_sample POLICY_GOVERNED ''v1'' PILOT_DEVELOPMENT
       sample_repository ''run'' None (Some CURRENT_PROTOCOL_ID) = (Inr r, sent, s)"
  obtain r' s' where
    "run_case_for_treatment (sample_library\<lparr>lb_hmac := \<lambda>k s. ''h'' @ s\<rparr>)
       (sample_environment\<lparr>ce_latency_ms := 7, ce_case_execution_id := ''e2''\<rparr>) corpus_sample POLICY_GOVERNED ''v1''
       PILOT_DEVELOPMENT sample_repository ''run2'' None (Some CURRENT_PROTOCOL_ID) = (Inr r', sent, s')"
    "deterministic_key r' = deterministic_key r"
    using results_are_reproducible [OF r, of "sample_library\<lparr>lb_hmac := \<lambda>k s. ''h'' @ s\<rparr>"
        "sample_environment\<lparr>ce_latency_ms := 7, ce_case_execution_id := ''e2''\<rparr>" "''run2''"]
    by (elim meta_impE exE conjE) simp_all
  with r show ?thesis by (intro exI conjI)
qed

text \<open>
  C31: the outcome flags of a result separate what the protocol wants separated. A block by policy is a block; an impossible
  category is a restricted one; the flags of policy are set for B4 only. The provider is called only for a request that is
  not blocked, and a failure of it leaves no response. An ordinary failure of utility is a case that was not blocked and
  not impossible under policy.
\<close>

theorem outcomes_are_separated:
  assumes "run_case_for_treatment lib env c trt corpus_version classification repo run_id supplied protocol_id = (Inr r, sent, s)"
    and "flags = sr_outcomes (cx_score r)" and "response = ex_provider_response (xe_execution (cx_case_execution r))"
  shows "(fl_policy_block flags \<longrightarrow> fl_blocked flags) \<and>
    (fl_impossible_under_policy flags \<longrightarrow> fl_policy_restricted flags) \<and>
    (fl_policy_block flags \<or> fl_policy_restricted flags \<longrightarrow> trt = POLICY_GOVERNED) \<and>
    (fl_provider_called flags \<longleftrightarrow> sent \<noteq> []) \<and> (fl_provider_called flags \<longrightarrow> \<not> fl_blocked flags) \<and>
    (response \<noteq> None \<longleftrightarrow> fl_provider_called flags \<and> \<not> fl_provider_failure flags) \<and>
    (sr_ordinary_utility_failure (cx_score r) \<longleftrightarrow>
       us_overall (sr_utility (cx_score r)) \<in> {Not_Answerable, Indeterminate} \<and>
       \<not> fl_blocked flags \<and> \<not> fl_impossible_under_policy flags)"
  by (rule separated_outcomes [OF assms])

theorem outcomes_are_separated_witness:
  "\<exists>r sent s. run_case_for_treatment sample_library sample_environment corpus_sample POLICY_GOVERNED ''v1'' PILOT_DEVELOPMENT
       sample_repository ''run'' None (Some CURRENT_PROTOCOL_ID) = (Inr r, sent, s) \<and>
     (fl_provider_called (sr_outcomes (cx_score r)) \<longleftrightarrow> sent \<noteq> [])"
proof (rule sample_case_runs)
  fix r sent s
  assume r: "run_case_for_treatment sample_library sample_environment corpus_sample POLICY_GOVERNED ''v1'' PILOT_DEVELOPMENT
       sample_repository ''run'' None (Some CURRENT_PROTOCOL_ID) = (Inr r, sent, s)"
  from outcomes_are_separated [OF r refl refl] r show ?thesis by blast
qed

end
