(* ===== verification/Aggregation.thy ===== *)
theory Aggregation
  imports Pilot
begin

text \<open>
  What is made of the results of a pilot: summaries of a treatment and comparisons of two (\<open>experiments/aggregation.py\<close>), the
  contextual comparisons of B4 with itself (\<open>experiments/contextual_matrix.py\<close>), and the manifest and the summaries that
  are written (\<open>experiments/artifacts.py\<close>, without the writing).

  Rates and means are exact fractions.
\<close>

subsection \<open>The summary of a treatment\<close>

record treatment_summary =
  ty_treatment_code :: pystr
  ty_case_count :: nat
  ty_blocked_count :: nat
  ty_conformant_count :: nat
  ty_nonconformant_count :: nat
  ty_scored_span_count :: nat
  ty_conformant_rate :: "rat option"
  ty_not_required_total :: nat
  ty_not_required_transmitted :: nat
  ty_unnecessary_disclosure_rate :: "rat option"
  ty_utility_answerable_count :: nat
  ty_utility_scored_count :: nat
  ty_utility_answerable_rate :: "rat option"
  ty_reconstruction_correct_count :: nat
  ty_reconstruction_scored_count :: nat
  ty_mean_treatment_ms :: "rat option"
  ty_mean_provider_ms :: "rat option"
  ty_mean_pipeline_total_ms :: "rat option"
  ty_mean_payload_bytes :: "rat option"
  ty_mean_total_request_bytes :: "rat option"
  ty_policy_restricted_count :: nat
  ty_impossible_under_policy_count :: nat
  ty_policy_block_count :: nat
  ty_ordinary_utility_failure_count :: nat
  ty_provider_failure_count :: nat
  ty_mean_cpu_time_ms :: "rat option"
  ty_mean_peak_memory_bytes :: "rat option"
  ty_resource_measurement_scope :: "pystr option"
  ty_detector :: detector_aggregate_score

definition safe_rate :: "nat \<Rightarrow> nat \<Rightarrow> rat option" where
  "safe_rate numerator denominator = (if denominator = 0 then None else Some (of_nat numerator / of_nat denominator))"

definition count_where :: "('a \<Rightarrow> bool) \<Rightarrow> 'a list \<Rightarrow> nat" where
  "count_where P xs = length (filter P xs)"

definition utility_scores_of :: "case_result list \<Rightarrow> utility_outcome list" where
  "utility_scores_of results =
     filter (\<lambda>u. u \<noteq> Not_Applicable) (map (\<lambda>r. us_overall (sr_utility (cx_score r))) results)"

definition reconstruction_entries_of :: "case_result list \<Rightarrow> category_reconstruction list" where
  "reconstruction_entries_of results =
     filter (\<lambda>entry. cr_outcome entry \<noteq> Reconstruction_Not_Applicable)
       (concat (map (\<lambda>r. sr_reconstruction (cx_score r)) results))"

definition metrics_of :: "case_result list \<Rightarrow> provider_call_metrics list" where
  "metrics_of results = somes (map (\<lambda>r. xe_provider_metrics (cx_case_execution r)) results)"

text \<open>The only element of a set given by a list, if there is one.\<close>

definition the_only :: "'a list \<Rightarrow> 'a option" where
  "the_only xs = (case remdups xs of [x] \<Rightarrow> Some x | _ \<Rightarrow> None)"

definition summarize_treatment :: "case_result list \<Rightarrow> treatment_summary" where
  "summarize_treatment results =
     (let treatment_code = the_default ''mixed'' (the_only (map (\<lambda>r. ri_treatment_code (cx_identity r)) results));
          conformant = sum_list (map (\<lambda>r. cs_conformant_count (sr_conformance (cx_score r))) results);
          nonconformant = sum_list (map (\<lambda>r. cs_nonconformant_count (sr_conformance (cx_score r))) results);
          scored = conformant + nonconformant;
          not_required_total = sum_list (map (\<lambda>r. ud_not_required_total (sr_unnecessary_disclosure (cx_score r))) results);
          not_required_transmitted =
            sum_list (map (\<lambda>r. ud_not_required_transmitted (sr_unnecessary_disclosure (cx_score r))) results);
          utility_scores = utility_scores_of results;
          utility_answerable = count_where (\<lambda>u. u = Answerable) utility_scores;
          reconstruction_entries = reconstruction_entries_of results;
          outcomes = map (\<lambda>r. sr_outcomes (cx_score r)) results;
          timings = map (\<lambda>r. xe_stage_timings (cx_case_execution r)) results;
          metrics = metrics_of results;
          resources = map (\<lambda>r. xe_resource_metrics (cx_case_execution r)) results
      in \<lparr>ty_treatment_code = treatment_code, ty_case_count = length results,
          ty_blocked_count = count_where fl_blocked outcomes,
          ty_conformant_count = conformant, ty_nonconformant_count = nonconformant, ty_scored_span_count = scored,
          ty_conformant_rate = safe_rate conformant scored,
          ty_not_required_total = not_required_total, ty_not_required_transmitted = not_required_transmitted,
          ty_unnecessary_disclosure_rate = safe_rate not_required_transmitted not_required_total,
          ty_utility_answerable_count = utility_answerable, ty_utility_scored_count = length utility_scores,
          ty_utility_answerable_rate = safe_rate utility_answerable (length utility_scores),
          ty_reconstruction_correct_count =
            count_where (\<lambda>entry. cr_outcome entry = Reconstruction_Correct) reconstruction_entries,
          ty_reconstruction_scored_count = length reconstruction_entries,
          ty_mean_treatment_ms = safe_mean (somes (map st_treatment_ms timings)),
          ty_mean_provider_ms = safe_mean (map pm_latency_ms metrics),
          ty_mean_pipeline_total_ms = safe_mean (somes (map st_pipeline_total_ms timings)),
          ty_mean_payload_bytes = safe_mean (map (\<lambda>pm. of_nat (pm_payload_bytes pm)) metrics),
          ty_mean_total_request_bytes = safe_mean (map (\<lambda>pm. of_nat (pm_total_request_bytes pm)) metrics),
          ty_policy_restricted_count = count_where fl_policy_restricted outcomes,
          ty_impossible_under_policy_count = count_where fl_impossible_under_policy outcomes,
          ty_policy_block_count = count_where fl_policy_block outcomes,
          ty_ordinary_utility_failure_count = count_where (\<lambda>r. sr_ordinary_utility_failure (cx_score r)) results,
          ty_provider_failure_count = count_where fl_provider_failure outcomes,
          ty_mean_cpu_time_ms = safe_mean (map rx_cpu_time_ms resources),
          ty_mean_peak_memory_bytes = safe_mean (map (\<lambda>rx. of_nat (rx_peak_memory_bytes rx)) resources),
          ty_resource_measurement_scope = the_only (map rx_measurement_scope resources),
          ty_detector = aggregate_detector_scores (map (\<lambda>r. sr_detector (cx_score r)) results)\<rparr>)"

subsection \<open>Comparing two treatments\<close>

record pairwise_summary =
  py_from_treatment :: pystr
  py_to_treatment :: pystr
  py_case_count :: nat
  py_conformant_rate_from :: "rat option"
  py_conformant_rate_to :: "rat option"
  py_unnecessary_disclosure_rate_from :: "rat option"
  py_unnecessary_disclosure_rate_to :: "rat option"
  py_utility_answerable_rate_from :: "rat option"
  py_utility_answerable_rate_to :: "rat option"
  py_mean_treatment_ms_from :: "rat option"
  py_mean_treatment_ms_to :: "rat option"
  py_mean_payload_bytes_from :: "rat option"
  py_mean_payload_bytes_to :: "rat option"

definition case_id_of :: "case_result \<Rightarrow> pystr" where
  "case_id_of r = ri_case_id (cx_identity r)"

definition matched_pairs :: "case_result list \<Rightarrow> case_result list \<Rightarrow> (case_result \<times> case_result) list" where
  "matched_pairs from_results to_results =
     (let by_case_to = foldl (\<lambda>d r. dict_set d (case_id_of r) r) [] to_results
      in concat (map (\<lambda>r. case dict_get by_case_to (case_id_of r) of None \<Rightarrow> [] | Some s \<Rightarrow> [(r, s)]) from_results))"

definition summarize_pairwise :: "case_result list \<Rightarrow> case_result list \<Rightarrow> pairwise_summary" where
  "summarize_pairwise from_results to_results =
     (let pairs = matched_pairs from_results to_results;
          from_side = map fst pairs; to_side = map snd pairs;
          of_from = (\<lambda>field. if from_side = [] then None else field (summarize_treatment from_side));
          of_to = (\<lambda>field. if to_side = [] then None else field (summarize_treatment to_side));
          code = (\<lambda>results. case results of [] \<Rightarrow> ''unknown'' | r # _ \<Rightarrow> ri_treatment_code (cx_identity r))
      in \<lparr>py_from_treatment = code from_results, py_to_treatment = code to_results, py_case_count = length pairs,
          py_conformant_rate_from = of_from ty_conformant_rate, py_conformant_rate_to = of_to ty_conformant_rate,
          py_unnecessary_disclosure_rate_from = of_from ty_unnecessary_disclosure_rate,
          py_unnecessary_disclosure_rate_to = of_to ty_unnecessary_disclosure_rate,
          py_utility_answerable_rate_from = of_from ty_utility_answerable_rate,
          py_utility_answerable_rate_to = of_to ty_utility_answerable_rate,
          py_mean_treatment_ms_from = of_from ty_mean_treatment_ms, py_mean_treatment_ms_to = of_to ty_mean_treatment_ms,
          py_mean_payload_bytes_from = of_from ty_mean_payload_bytes, py_mean_payload_bytes_to = of_to ty_mean_payload_bytes\<rparr>)"

datatype exposure_direction = B4_Less | B4_More | Same_Exposure | Exposure_Incomparable
datatype utility_direction = B4_Worse | B4_Better | Same_Utility | Utility_Incomparable

record b3_to_b4_case_comparison =
  bc_case_id :: pystr
  bc_same_action_profile :: bool
  bc_policy_restricted :: bool
  bc_impossible_under_policy :: bool
  bc_hard_block_by_b4_not_b3 :: bool
  bc_exposure_direction :: exposure_direction
  bc_utility_direction :: utility_direction

record b3_to_b4_summary =
  bs_cases :: "b3_to_b4_case_comparison list"
  bs_same_action_profile_count :: nat
  bs_policy_restricted_count :: nat
  bs_impossible_under_policy_count :: nat
  bs_hard_block_count :: nat

fun utility_rank :: "utility_outcome \<Rightarrow> nat" where
  "utility_rank Not_Answerable = 0"
| "utility_rank Indeterminate = 1"
| "utility_rank Not_Applicable = 2"
| "utility_rank Answerable = 3"

definition exposure_rank_sum :: "case_result \<Rightarrow> nat option" where
  "exposure_rank_sum r =
     (let spans = xp_spans (sr_exposure (cx_score r)); ranks = somes (map sx_level_rank spans)
      in if length ranks \<noteq> length spans then None else Some (sum_list ranks))"

definition action_profile :: "case_result \<Rightarrow> disclosure_action option list" where
  "action_profile r = map sc_resolved_action (cs_spans (sr_conformance (cx_score r)))"

definition compare_case :: "case_result \<Rightarrow> case_result \<Rightarrow> b3_to_b4_case_comparison" where
  "compare_case b3 b4 =
     (let b3_utility = us_overall (sr_utility (cx_score b3)); b4_utility = us_overall (sr_utility (cx_score b4))
      in \<lparr>bc_case_id = case_id_of b3, bc_same_action_profile = (action_profile b3 = action_profile b4),
          bc_policy_restricted = fl_policy_restricted (sr_outcomes (cx_score b4)),
          bc_impossible_under_policy = fl_impossible_under_policy (sr_outcomes (cx_score b4)),
          bc_hard_block_by_b4_not_b3 =
            (fl_policy_block (sr_outcomes (cx_score b4)) \<and> \<not> fl_blocked (sr_outcomes (cx_score b3))),
          bc_exposure_direction =
            (case (exposure_rank_sum b3, exposure_rank_sum b4) of
               (Some b3_rank, Some b4_rank) \<Rightarrow>
                 if b4_rank < b3_rank then B4_Less else if b3_rank < b4_rank then B4_More else Same_Exposure
             | _ \<Rightarrow> Exposure_Incomparable),
          bc_utility_direction =
            (if b3_utility = Not_Applicable \<or> b4_utility = Not_Applicable then Utility_Incomparable
             else if utility_rank b4_utility < utility_rank b3_utility then B4_Worse
             else if utility_rank b3_utility < utility_rank b4_utility then B4_Better else Same_Utility)\<rparr>)"

definition summarize_b3_to_b4 :: "case_result list \<Rightarrow> case_result list \<Rightarrow> b3_to_b4_summary" where
  "summarize_b3_to_b4 b3_results b4_results =
     (let comparisons = map (\<lambda>(b3, b4). compare_case b3 b4) (matched_pairs b3_results b4_results)
      in \<lparr>bs_cases = comparisons,
          bs_same_action_profile_count = count_where bc_same_action_profile comparisons,
          bs_policy_restricted_count = count_where bc_policy_restricted comparisons,
          bs_impossible_under_policy_count = count_where bc_impossible_under_policy comparisons,
          bs_hard_block_count = count_where bc_hard_block_by_b4_not_b3 comparisons\<rparr>)"

subsection \<open>Comparing contexts\<close>

record contextual_comparison_spec =
  cp_name :: pystr
  cp_dimension :: pystr
  cp_base_sample_id :: pystr
  cp_category :: pystr
  cp_context_a :: "(pystr \<times> pystr) list"
  cp_context_b :: "(pystr \<times> pystr) list"

definition LIFECYCLE_IDENTIFIERS :: "(pystr \<times> pystr) list" where
  "LIFECYCLE_IDENTIFIERS = [(''request_id'', ''ctxmatrix-req-1''), (''document_id'', ''ctxmatrix-doc-1'')]"

text \<open>\<open>{**_LIFECYCLE_IDENTIFIERS, **overrides}\<close>\<close>

definition ctx_of :: "(pystr \<times> pystr) list \<Rightarrow> (pystr \<times> pystr) list" where
  "ctx_of overrides = foldl (\<lambda>d (k, v). dict_set d k v) LIFECYCLE_IDENTIFIERS overrides"

definition CONTEXTUAL_MATRIX_SPECS :: "contextual_comparison_spec list" where
  "CONTEXTUAL_MATRIX_SPECS =
     [\<lparr>cp_name = ''purpose_salary'', cp_dimension = ''purpose'', cp_base_sample_id = ''hr_salary_analysis_001'',
       cp_category = ''salary'',
       cp_context_a = ctx_of [(''purpose'', ''team_summary''), (''policy_version'', ''hr-v2'')],
       cp_context_b = ctx_of [(''purpose'', ''salary_analysis''), (''policy_version'', ''hr-v2'')]\<rparr>,
      \<lparr>cp_name = ''requester_role_salary'', cp_dimension = ''requester_role'', cp_base_sample_id = ''hr_salary_analysis_001'',
       cp_category = ''salary'',
       cp_context_a =
         ctx_of [(''requester_role'', ''hr_viewer''), (''purpose'', ''salary_analysis''), (''policy_version'', ''hr-v2'')],
       cp_context_b =
         ctx_of [(''requester_role'', ''hr_analyst''), (''purpose'', ''salary_analysis''), (''policy_version'', ''hr-v2'')]\<rparr>,
      \<lparr>cp_name = ''requester_role_department'', cp_dimension = ''requester_role'',
       cp_base_sample_id = ''hr_department_aggregation_001'', cp_category = ''department'',
       cp_context_a = ctx_of [(''requester_role'', ''hr_viewer''), (''policy_version'', ''hr-v2'')],
       cp_context_b = ctx_of [(''requester_role'', ''hr_analyst''), (''policy_version'', ''hr-v2'')]\<rparr>,
      \<lparr>cp_name = ''provider_class_employee_name'', cp_dimension = ''provider_class'', cp_base_sample_id = ''hr_team_summary_001'',
       cp_category = ''employee_name'',
       cp_context_a = ctx_of [(''provider_class'', ''internal_llm''), (''policy_version'', ''hr-v2'')],
       cp_context_b = ctx_of [(''provider_class'', ''external_llm''), (''policy_version'', ''hr-v2'')]\<rparr>,
      \<lparr>cp_name = ''policy_version_compensation_review'', cp_dimension = ''policy_version'',
       cp_base_sample_id = ''hr_salary_analysis_002'', cp_category = ''salary'',
       cp_context_a = ctx_of [(''policy_version'', ''hr-v2'')], cp_context_b = ctx_of [(''policy_version'', ''hr-v3'')]\<rparr>]"

record contextual_comparison_result =
  cq_spec :: contextual_comparison_spec
  cq_action_a :: "disclosure_action option"
  cq_action_b :: "disclosure_action option"
  cq_allowed_actions_a :: "disclosure_action list"
  cq_allowed_actions_b :: "disclosure_action list"
  cq_permission_changed :: bool

definition run_contextual_comparison ::
  "'k run_library \<Rightarrow> case_environment \<Rightarrow> case_environment \<Rightarrow> contextual_comparison_spec \<Rightarrow> corpus_case_input \<Rightarrow>
     policy_repository \<Rightarrow> pystr \<Rightarrow> run_classification \<Rightarrow> execution_error + case_execution \<times> case_execution" where
  "run_contextual_comparison lib env_a env_b spec case_input repo corpus_version classification =
     (let side = (\<lambda>env overrides. fst (execute_case lib env case_input POLICY_GOVERNED corpus_version classification repo
            None None None None overrides False None))
      in case side env_a (cp_context_a spec) of
           Inl e \<Rightarrow> Inl e
         | Inr execution_a \<Rightarrow>
             (case side env_b (cp_context_b spec) of
                Inl e \<Rightarrow> Inl e
              | Inr execution_b \<Rightarrow> Inr (execution_a, execution_b)))"

definition decision_for :: "case_execution \<Rightarrow> pystr \<Rightarrow> policy_decision option" where
  "decision_for x category =
     dict_get (foldl (\<lambda>d pd. dict_set d (pd_category pd) pd) [] (rs_decisions (ex_disclosure_result (xe_execution x)))) category"

definition evaluate_contextual_comparison ::
  "contextual_comparison_spec \<Rightarrow> case_execution \<Rightarrow> case_execution \<Rightarrow> contextual_comparison_result" where
  "evaluate_contextual_comparison spec execution_a execution_b =
     (let decision_a = decision_for execution_a (cp_category spec);
          decision_b = decision_for execution_b (cp_category spec);
          action_a = map_option pd_action decision_a;
          action_b = map_option pd_action decision_b;
          allowed_a = (case decision_a of None \<Rightarrow> [] | Some pd \<Rightarrow> pd_allowed_actions pd);
          allowed_b = (case decision_b of None \<Rightarrow> [] | Some pd \<Rightarrow> pd_allowed_actions pd)
      in \<lparr>cq_spec = spec, cq_action_a = action_a, cq_action_b = action_b, cq_allowed_actions_a = allowed_a,
          cq_allowed_actions_b = allowed_b,
          cq_permission_changed = (action_a \<noteq> action_b \<or> allowed_a \<noteq> allowed_b)\<rparr>)"

subsection \<open>What is written of a run\<close>

definition PAIRWISE_SEQUENCE :: "(treatment \<times> treatment) list" where
  "PAIRWISE_SEQUENCE =
     [(DIRECT, STATIC_SANITIZATION), (STATIC_SANITIZATION, REVERSIBLE_PSEUDONYMIZATION),
      (REVERSIBLE_PSEUDONYMIZATION, TASK_AWARE), (TASK_AWARE, POLICY_GOVERNED)]"

definition ARTIFACT_FORMAT_VERSION :: pystr where
  "ARTIFACT_FORMAT_VERSION = ''t10-pilot-artifact-bundle-v2''"

record run_manifest =
  mf_experiment_run_id :: pystr
  mf_schema_version :: pystr
  mf_artifact_format_version :: pystr
  mf_protocol_id :: pystr
  mf_corpus_version :: pystr
  mf_run_classification :: run_classification
  mf_treatments :: "pystr list"
  mf_case_counts :: "(pystr, nat) dict"

record pilot_artifacts =
  pa_results :: "safe_result list"
  pa_summary_by_treatment :: "(pystr, treatment_summary) dict"
  pa_summary_pairwise :: "(pystr, pairwise_summary) dict"
  pa_summary_b3_to_b4 :: "b3_to_b4_summary option"
  pa_contextual_matrix :: "contextual_comparison_result list option"
  pa_manifest :: run_manifest

datatype artifact_error = File_Exists | Mixed_Protocol_Ids

text \<open>
  The contents of the files of a run directory; \<open>exists\<close> tells whether the directory is there already. The free-form
  reproducibility mapping is copied into the manifest as it is and left out here.
\<close>

definition pilot_artifacts_of ::
  "bool \<Rightarrow> pystr \<Rightarrow> pystr \<Rightarrow> run_classification \<Rightarrow> pilot_results \<Rightarrow> contextual_comparison_result list option \<Rightarrow>
     artifact_error + pilot_artifacts" where
  "pilot_artifacts_of exists experiment_run_id corpus_version classification results_by_treatment contextual_results =
     (if exists then Inl File_Exists
      else
        (let all_results = concat (map snd results_by_treatment);
             row_protocol_ids = remdups (map (\<lambda>r. ri_protocol_id (cx_identity r)) all_results)
         in if length row_protocol_ids > 1 then Inl Mixed_Protocol_Ids
            else Inr
              \<lparr>pa_results = map to_safe_dict all_results,
               pa_summary_by_treatment =
                 map (\<lambda>(trt, results). (treatment_value trt, summarize_treatment results)) results_by_treatment,
               pa_summary_pairwise =
                 concat (map (\<lambda>(a, b).
                   case (dict_get results_by_treatment a, dict_get results_by_treatment b) of
                     (Some from_results, Some to_results) \<Rightarrow>
                       [(treatment_value a @ ''_to_'' @ treatment_value b, summarize_pairwise from_results to_results)]
                   | _ \<Rightarrow> []) PAIRWISE_SEQUENCE),
               pa_summary_b3_to_b4 =
                 (case (dict_get results_by_treatment TASK_AWARE, dict_get results_by_treatment POLICY_GOVERNED) of
                    (Some b3, Some b4) \<Rightarrow> Some (summarize_b3_to_b4 b3 b4)
                  | _ \<Rightarrow> None),
               pa_contextual_matrix =
                 (case contextual_results of None \<Rightarrow> None | Some rs \<Rightarrow> if rs = [] then None else Some rs),
               pa_manifest =
                 \<lparr>mf_experiment_run_id = experiment_run_id, mf_schema_version = SCHEMA_VERSION,
                  mf_artifact_format_version = ARTIFACT_FORMAT_VERSION,
                  mf_protocol_id = (case row_protocol_ids of [] \<Rightarrow> CURRENT_PROTOCOL_ID | p # _ \<Rightarrow> p),
                  mf_corpus_version = corpus_version, mf_run_classification = classification,
                  mf_treatments = sort (map (\<lambda>(trt, _). treatment_value trt) results_by_treatment),
                  mf_case_counts = map (\<lambda>(trt, results). (treatment_value trt, length results)) results_by_treatment\<rparr>\<rparr>))"

subsection \<open>Counting\<close>

lemma count_where_map: "count_where P (map f xs) = count_where (\<lambda>x. P (f x)) xs"
  by (simp add: count_where_def filter_map comp_def)

lemma count_where_mono: "(\<And>x. x \<in> set xs \<Longrightarrow> P x \<Longrightarrow> Q x) \<Longrightarrow> count_where P xs \<le> count_where Q xs"
proof (induction xs)
  case (Cons x xs)
  from Cons.IH Cons.prems have "count_where P xs \<le> count_where Q xs" by simp
  with Cons.prems [of x] show ?case by (auto simp: count_where_def)
qed (simp add: count_where_def)

lemma count_where_disjoint:
  "(\<And>x. x \<in> set xs \<Longrightarrow> P x \<Longrightarrow> Q x \<Longrightarrow> False) \<Longrightarrow> count_where P xs + count_where Q xs \<le> length xs"
proof (induction xs)
  case (Cons x xs)
  from Cons.IH Cons.prems have "count_where P xs + count_where Q xs \<le> length xs" by (meson list.set_intros(2))
  with Cons.prems [of x] show ?case by (auto simp: count_where_def)
qed (simp add: count_where_def)

lemma count_where_le: "count_where P xs \<le> length xs"
  by (simp add: count_where_def)

lemma count_where_none: "(\<And>x. x \<in> set xs \<Longrightarrow> \<not> P x) \<Longrightarrow> count_where P xs = 0"
  by (simp add: count_where_def filter_empty_conv)

text \<open>A rate: none without a denominator, a fraction of one otherwise.\<close>

definition a_rate :: "rat option \<Rightarrow> nat \<Rightarrow> nat \<Rightarrow> bool" where
  "a_rate rate numerator denominator \<longleftrightarrow>
     (case rate of
        None \<Rightarrow> denominator = 0
      | Some q \<Rightarrow> 0 < denominator \<and> 0 \<le> q \<and> q \<le> 1 \<and> q * of_nat denominator = of_nat numerator)"

lemma a_rate_safe: "numerator \<le> denominator \<Longrightarrow> a_rate (safe_rate numerator denominator) numerator denominator"
  by (simp add: a_rate_def safe_rate_def)

lemma remdups_const:
  assumes "xs \<noteq> []" and "\<And>x. x \<in> set xs \<Longrightarrow> x = y"
  shows "remdups xs = [y]"
proof -
  from assms have one: "set xs = {y}" by (cases xs) auto
  then have "length (remdups xs) = 1" by (simp add: length_remdups_card_conv)
  then obtain z where z: "remdups xs = [z]" by (auto simp: length_Suc_conv)
  have "set xs = {z}" using arg_cong [OF z, of set] by (simp only: set_remdups list.set)
  with one z show ?thesis by simp
qed

lemma the_only_const: "xs \<noteq> [] \<Longrightarrow> (\<And>x. x \<in> set xs \<Longrightarrow> x = y) \<Longrightarrow> the_only xs = Some y"
  unfolding the_only_def by (subst remdups_const) auto

subsection \<open>Matching by case\<close>

abbreviation (input) by_case :: "case_result list \<Rightarrow> (pystr, case_result) dict" where
  "by_case rs \<equiv> foldl (\<lambda>d r. dict_set d (case_id_of r) r) [] rs"

lemma by_case_get: "dict_get (by_case rs) i = Some s \<Longrightarrow> s \<in> set rs \<and> case_id_of s = i"
  by (induction rs rule: rev_induct) (auto split: if_splits)

lemma by_case_none: "dict_get (by_case rs) i = None \<longleftrightarrow> i \<notin> case_id_of ` set rs"
  by (induction rs rule: rev_induct) auto

lemma matched_pairs_same_case:
  "(r, s) \<in> set (matched_pairs from_results to_results) \<Longrightarrow>
     r \<in> set from_results \<and> s \<in> set to_results \<and> case_id_of s = case_id_of r"
  by (auto simp: matched_pairs_def Let_def split: option.splits dest!: by_case_get [OF sym])

lemma matched_pairs_first:
  "map fst (matched_pairs from_results to_results) =
     filter (\<lambda>r. case_id_of r \<in> case_id_of ` set to_results) from_results"
proof -
  have "map fst (concat (map (\<lambda>r. case dict_get (by_case to_results) (case_id_of r) of None \<Rightarrow> [] | Some s \<Rightarrow> [(r, s)]) rs)) =
      filter (\<lambda>r. case_id_of r \<in> case_id_of ` set to_results) rs" for rs
  proof (induction rs)
    case (Cons r rs)
    then show ?case
      by (cases "dict_get (by_case to_results) (case_id_of r)")
        (use by_case_none [of to_results "case_id_of r"] in auto)
  qed simp
  then show ?thesis by (simp add: matched_pairs_def Let_def)
qed

lemma matched_pairs_all:
  assumes "case_id_of ` set from_results \<subseteq> case_id_of ` set to_results"
  shows "map fst (matched_pairs from_results to_results) = from_results"
  using assms by (simp add: matched_pairs_first filter_id_conv image_subset_iff)

lemma compared_ids: "map bc_case_id (bs_cases (summarize_b3_to_b4 b3 b4)) = map case_id_of (map fst (matched_pairs b3 b4))"
  by (auto simp: summarize_b3_to_b4_def Let_def compare_case_def comp_def split_beta)

lemma compared_count: "py_case_count (summarize_pairwise a b) = length (map fst (matched_pairs a b))"
  by (simp add: summarize_pairwise_def Let_def)

subsection \<open>Facts about results\<close>

lemma executed_codes:
  assumes "execute_case lib env case_input trt corpus_version classification repo vault analyzer detector supplied overrides
      capture protocol_id = (Inr x, sent, s)"
  shows "ri_treatment_code (xe_identity x) = treatment_value trt"
  using assms by (auto simp: execute_case_def run_identity_of_def Let_def split: prod.splits sum.splits)

lemma unnecessary_le:
  assumes "score_unnecessary_disclosure o' res trt = Inr ud"
  shows "ud_not_required_transmitted ud \<le> ud_not_required_total ud"
  using assms by (auto simp: score_unnecessary_disclosure_def Let_def simp del: filter_filter split: sum.splits)

lemma result_facts:
  assumes "run_case_for_treatment lib env c trt corpus_version classification repo run_id supplied protocol_id = (Inr r, sent, s)"
  shows "ri_treatment_code (cx_identity r) = treatment_value trt"
    and "ud_not_required_transmitted (sr_unnecessary_disclosure (cx_score r))
      \<le> ud_not_required_total (sr_unnecessary_disclosure (cx_score r))"
    and "(fl_policy_block (sr_outcomes (cx_score r)) \<longrightarrow> fl_blocked (sr_outcomes (cx_score r))) \<and>
      (fl_impossible_under_policy (sr_outcomes (cx_score r)) \<longrightarrow> fl_policy_restricted (sr_outcomes (cx_score r))) \<and>
      (fl_policy_block (sr_outcomes (cx_score r)) \<or> fl_policy_restricted (sr_outcomes (cx_score r)) \<longrightarrow> trt = POLICY_GOVERNED) \<and>
      \<not> (fl_blocked (sr_outcomes (cx_score r)) \<and> sr_ordinary_utility_failure (cx_score r))"
proof -
  obtain x where x: "execute_case lib env (cc_input c) trt corpus_version classification repo None None None supplied [] False
      protocol_id = (Inr x, sent, s)" "score_case (cc_input c) (cc_oracle c) x = Inr (cx_score r)"
    "cx_identity r = xe_identity x"
    by (rule run_caseE_result [OF assms])
  then show "ri_treatment_code (cx_identity r) = treatment_value trt" using executed_codes by simp
  show "ud_not_required_transmitted (sr_unnecessary_disclosure (cx_score r))
      \<le> ud_not_required_total (sr_unnecessary_disclosure (cx_score r))"
    by (rule unnecessary_le [OF score_caseE(3) [OF x(2)]])
qed (use separated_outcomes [OF assms refl refl] in simp_all)

lemma summary_counts:
  "ty_case_count (summarize_treatment rs) = length rs"
  "ty_blocked_count (summarize_treatment rs) = count_where (\<lambda>r. fl_blocked (sr_outcomes (cx_score r))) rs"
  "ty_policy_block_count (summarize_treatment rs) = count_where (\<lambda>r. fl_policy_block (sr_outcomes (cx_score r))) rs"
  "ty_policy_restricted_count (summarize_treatment rs) = count_where (\<lambda>r. fl_policy_restricted (sr_outcomes (cx_score r))) rs"
  "ty_impossible_under_policy_count (summarize_treatment rs) =
     count_where (\<lambda>r. fl_impossible_under_policy (sr_outcomes (cx_score r))) rs"
  "ty_ordinary_utility_failure_count (summarize_treatment rs) =
     count_where (\<lambda>r. sr_ordinary_utility_failure (cx_score r)) rs"
  "ty_treatment_code (summarize_treatment rs) =
     the_default ''mixed'' (the_only (map (\<lambda>r. ri_treatment_code (cx_identity r)) rs))"
  by (simp_all add: summarize_treatment_def Let_def count_where_map)

lemma summary_rates:
  "a_rate (ty_conformant_rate (summarize_treatment rs)) (ty_conformant_count (summarize_treatment rs))
     (ty_scored_span_count (summarize_treatment rs))"
  "a_rate (ty_utility_answerable_rate (summarize_treatment rs)) (ty_utility_answerable_count (summarize_treatment rs))
     (ty_utility_scored_count (summarize_treatment rs))"
  "ty_not_required_transmitted (summarize_treatment rs) \<le> ty_not_required_total (summarize_treatment rs) \<Longrightarrow>
     a_rate (ty_unnecessary_disclosure_rate (summarize_treatment rs)) (ty_not_required_transmitted (summarize_treatment rs))
       (ty_not_required_total (summarize_treatment rs))"
  by (simp_all add: summarize_treatment_def Let_def count_where_le a_rate_safe)

text \<open>The parts of the artifacts, for rows under one protocol.\<close>

definition pairwise_entry :: "pilot_results \<Rightarrow> treatment \<times> treatment \<Rightarrow> (pystr \<times> pairwise_summary) list" where
  "pairwise_entry results pair =
     (case pair of (a, b) \<Rightarrow>
        (case (dict_get results a, dict_get results b) of
           (Some from_results, Some to_results) \<Rightarrow>
             [(treatment_value a @ ''_to_'' @ treatment_value b, summarize_pairwise from_results to_results)]
         | _ \<Rightarrow> []))"

definition b3_to_b4_entry :: "pilot_results \<Rightarrow> b3_to_b4_summary option" where
  "b3_to_b4_entry results =
     (case (dict_get results TASK_AWARE, dict_get results POLICY_GOVERNED) of
        (Some b3, Some b4) \<Rightarrow> Some (summarize_b3_to_b4 b3 b4)
      | _ \<Rightarrow> None)"

lemma artifacts_of_one_protocol:
  assumes "remdups (map (\<lambda>r. ri_protocol_id (cx_identity r)) (concat (map snd results))) = [pid]"
  obtains art where "pilot_artifacts_of False run_id corpus_version classification results contextual = Inr art"
    and "pa_results art = map to_safe_dict (concat (map snd results))" and "mf_protocol_id (pa_manifest art) = pid"
    and "mf_treatments (pa_manifest art) = sort (map treatment_value (map fst results))"
    and "mf_case_counts (pa_manifest art) = map (\<lambda>(trt, rs). (treatment_value trt, length rs)) results"
    and "pa_summary_pairwise art = concat (map (pairwise_entry results) PAIRWISE_SEQUENCE)"
    and "pa_summary_b3_to_b4 art = b3_to_b4_entry results"
proof -
  have "map (\<lambda>(trt, _). treatment_value trt) results = map treatment_value (map fst results)" by auto
  moreover have "pairwise_entry results = (\<lambda>(a, b). case (dict_get results a, dict_get results b) of
      (Some from_results, Some to_results) \<Rightarrow>
        [(treatment_value a @ ''_to_'' @ treatment_value b, summarize_pairwise from_results to_results)]
    | _ \<Rightarrow> [])" by (simp add: pairwise_entry_def fun_eq_iff)
  ultimately have "\<exists>art. pilot_artifacts_of False run_id corpus_version classification results contextual = Inr art \<and>
      pa_results art = map to_safe_dict (concat (map snd results)) \<and> mf_protocol_id (pa_manifest art) = pid \<and>
      mf_treatments (pa_manifest art) = sort (map treatment_value (map fst results)) \<and>
      mf_case_counts (pa_manifest art) = map (\<lambda>(trt, rs). (treatment_value trt, length rs)) results \<and>
      pa_summary_pairwise art = concat (map (pairwise_entry results) PAIRWISE_SEQUENCE) \<and>
      pa_summary_b3_to_b4 art = b3_to_b4_entry results"
    by (simp only: pilot_artifacts_of_def Let_def assms b3_to_b4_entry_def) simp
  then show thesis by (elim exE conjE) (rule that)
qed

text \<open>The results of a completed pilot, for all its treatments together.\<close>

lemma pilot_rows:
  assumes "load_corpus readers corpus_files = Inr cases"
    and "check_corpus_protocol_compatibility cases (the_default CURRENT_PROTOCOL_ID protocol_id) = Inr ()"
    and "\<forall>file \<in> set policy_files. \<forall>err. loader (snd file) \<noteq> Policy_Raises err"
    and "distinct treatments" and "cases \<noteq> []" and "treatments \<noteq> []"
  obtains results sent where "run_pilot lib envs new_run_id readers corpus_files loader policy_files corpus_version
      classification treatments experiment_run_id supplied protocol_id = (Inr results, sent)"
    and "map fst results = treatments"
    and "\<And>trt. trt \<in> set treatments \<Longrightarrow> \<exists>rs. dict_get results trt = Some rs"
    and "\<And>trt rs. (trt, rs) \<in> set results \<Longrightarrow> map case_id_of rs = map (\<lambda>c. ci_sample_id (cc_input c)) cases"
    and "\<And>r. r \<in> set (concat (map snd results)) \<Longrightarrow>
      ri_protocol_id (cx_identity r) = the_default CURRENT_PROTOCOL_ID protocol_id \<and>
      rm_experiment_run_id (cx_metadata r) = the_default new_run_id experiment_run_id"
    and "length (concat (map snd results)) = length treatments * length cases"
    and "remdups (map (\<lambda>r. ri_protocol_id (cx_identity r)) (concat (map snd results))) =
      [the_default CURRENT_PROTOCOL_ID protocol_id]"
proof -
  let ?pid = "the_default CURRENT_PROTOCOL_ID protocol_id" and ?run = "the_default new_run_id experiment_run_id"
  obtain results sent where pilot: "run_pilot lib envs new_run_id readers corpus_files loader policy_files corpus_version
      classification treatments experiment_run_id supplied protocol_id = (Inr results, sent)"
    and keys: "map fst results = treatments"
    and each: "\<forall>trt \<in> set treatments. \<exists>rs. dict_get results trt = Some rs \<and>
       map (\<lambda>r. ri_case_id (cx_identity r)) rs = map (\<lambda>c. ci_sample_id (cc_input c)) cases \<and>
       (\<forall>r \<in> set rs. ri_treatment_code (cx_identity r) = treatment_value trt \<and>
          ri_protocol_id (cx_identity r) = ?pid \<and> rm_experiment_run_id (cx_metadata r) = ?run)"
    using pilot_returns [OF assms(1-4), of lib envs new_run_id corpus_version classification
        experiment_run_id supplied] by blast
  have entry: "map case_id_of rs = map (\<lambda>c. ci_sample_id (cc_input c)) cases \<and>
      (\<forall>r \<in> set rs. ri_protocol_id (cx_identity r) = ?pid \<and> rm_experiment_run_id (cx_metadata r) = ?run)"
    if "(trt, rs) \<in> set results" for trt rs
  proof -
    have "distinct (map fst results)" using keys assms(4) by simp
    with that have "dict_get results trt = Some rs" by (simp add: dict_get_def)
    moreover have "trt \<in> set treatments" using that keys by force
    ultimately show ?thesis using each by (auto simp: case_id_of_def [abs_def])
  qed
  have sizes: "length rs = length cases" if "(trt, rs) \<in> set results" for trt rs
    using entry [OF that] by (metis length_map)
  let ?all = "concat (map snd results)"
  have rows: "ri_protocol_id (cx_identity r) = ?pid \<and> rm_experiment_run_id (cx_metadata r) = ?run" if "r \<in> set ?all" for r
    using that entry by fastforce
  have count: "length ?all = length treatments * length cases"
  proof -
    have eq: "map (\<lambda>e. length (snd e)) results = map (\<lambda>_. length cases) results"
      by (rule map_cong) (use sizes in auto)
    have "length ?all = sum_list (map (\<lambda>e. length (snd e)) results)" by (simp add: length_concat comp_def)
    also have "\<dots> = length results * length cases" unfolding eq by (simp add: sum_list_triv)
    finally show ?thesis using keys by (metis length_map)
  qed
  have "length ?all \<noteq> 0" unfolding count using assms(5,6) by simp
  then have "?all \<noteq> []" by (metis list.size(3))
  then have ids: "remdups (map (\<lambda>r. ri_protocol_id (cx_identity r)) ?all) = [?pid]"
    by (intro remdups_const) (use rows in auto)
  show thesis by (rule that [OF pilot keys _ _ rows count ids]) (use each entry in blast)+
qed

subsection \<open>The two sides of a contextual comparison\<close>

lemma executed_side:
  "\<exists>x sent s. execute_case lib env case_input POLICY_GOVERNED corpus_version classification repo None None None None
      overrides False None = (Inr x, sent, s) \<and> xe_treatment x = POLICY_GOVERNED \<and>
     detect (active_rules None) (ci_text case_input) = Inr (ex_spans (xe_execution x))"
proof -
  have inv: "vault_inv (the_default (new_vault (ce_token_factory env)) None)" by (simp add: vault_inv_new)
  have rules: "list_all rule_ok (active_rules None)" by (simp add: built_in_rules_ok)
  have ok: "validate_scorable_protocol_id (the_default CURRENT_PROTOCOL_ID None) = Inr ()" by code_simp
  obtain execution sent v' where run: "case_run lib env case_input POLICY_GOVERNED repo None None None None overrides False =
      Inr (execution, sent, v')"
    and spans: "detect (active_rules None) (ci_text case_input) = Inr (ex_spans execution)"
    using execute_case_runs [OF inv rules, of lib case_input POLICY_GOVERNED repo None None overrides False] by blast
  show ?thesis
    by (rule execute_case_Inr [OF run ok, of corpus_version classification]) (use spans in blast)
qed

lemma override_fields:
  "override_one ctx (''purpose'', v) = ctx\<lparr>ctx_purpose := v\<rparr>"
  "override_one ctx (''requester_role'', v) = ctx\<lparr>ctx_requester_role := Some v\<rparr>"
  "override_one ctx (''provider_class'', v) = ctx\<lparr>ctx_provider_class := v\<rparr>"
  "override_one ctx (''policy_version'', v) = ctx\<lparr>ctx_policy_version := v\<rparr>"
  "override_one ctx (''request_id'', v) = ctx\<lparr>ctx_request_id := Some v\<rparr>"
  "override_one ctx (''document_id'', v) = ctx\<lparr>ctx_document_id := Some v\<rparr>"
  by (simp_all add: override_one_def)

lemma built_request:
  obtains request where
    "\<And>overrides. build_request case_input session overrides = request\<lparr>rq_context := foldl override_one (rq_context request) overrides\<rparr>"
proof -
  let ?r = "to_disclosure_request case_input"
  let ?r' = "?r\<lparr>rq_context := (if ctx_session_id (rq_context ?r) = None then (rq_context ?r)\<lparr>ctx_session_id := Some session\<rparr>
      else rq_context ?r)\<rparr>"
  show thesis by (rule that [of ?r']) (simp add: build_request_def Let_def)
qed

lemma contexts_of:
  "ctx_of [(''purpose'', p), (''policy_version'', v)] = LIFECYCLE_IDENTIFIERS @ [(''purpose'', p), (''policy_version'', v)]"
  "ctx_of [(''requester_role'', q), (''purpose'', p), (''policy_version'', v)] =
     LIFECYCLE_IDENTIFIERS @ [(''requester_role'', q), (''purpose'', p), (''policy_version'', v)]"
  "ctx_of [(''requester_role'', q), (''policy_version'', v)] =
     LIFECYCLE_IDENTIFIERS @ [(''requester_role'', q), (''policy_version'', v)]"
  "ctx_of [(''provider_class'', q), (''policy_version'', v)] =
     LIFECYCLE_IDENTIFIERS @ [(''provider_class'', q), (''policy_version'', v)]"
  "ctx_of [(''policy_version'', v)] = LIFECYCLE_IDENTIFIERS @ [(''policy_version'', v)]"
  by (simp_all add: ctx_of_def LIFECYCLE_IDENTIFIERS_def dict_set_def)

lemma specs_vary_one_dimension:
  assumes "spec \<in> set CONTEXTUAL_MATRIX_SPECS"
  shows "\<exists>vb. dict_get (cp_context_b spec) (cp_dimension spec) = Some vb \<and>
    dict_get (cp_context_a spec) (cp_dimension spec) \<noteq> Some vb \<and>
    build_request case_input session (cp_context_b spec) =
      (build_request case_input session (cp_context_a spec))\<lparr>rq_context :=
         override_one (rq_context (build_request case_input session (cp_context_a spec))) (cp_dimension spec, vb)\<rparr>"
proof (rule built_request [of case_input session])
  fix request
  assume r: "\<And>overrides. build_request case_input session overrides =
      request\<lparr>rq_context := foldl override_one (rq_context request) overrides\<rparr>"
  from assms show ?thesis
    unfolding CONTEXTUAL_MATRIX_SPECS_def contexts_of LIFECYCLE_IDENTIFIERS_def list.set insert_iff empty_iff
    by (elim disjE) (simp_all add: r override_fields dict_get_def)
qed

subsection \<open>Properties\<close>

text \<open>
  C34: the summary of a treatment's results adds up. Blocks by policy are among the blocks, impossible cases among the
  restricted ones, and no case is both blocked and an ordinary failure; only B4 has blocks by policy and restricted cases.
  Each rate is the exact fraction of its two counts, at most 1, and there is none exactly when there is nothing to divide by.
\<close>

theorem summaries_are_consistent:
  assumes results: "\<And>r. r \<in> set results \<Longrightarrow> \<exists>env c corpus_version classification run_id supplied protocol_id sent s.
      run_case_for_treatment lib env c trt corpus_version classification repo run_id supplied protocol_id = (Inr r, sent, s)"
    and "sm = summarize_treatment results"
  shows "(results \<noteq> [] \<longrightarrow> ty_treatment_code sm = treatment_value trt) \<and> ty_case_count sm = length results \<and>
    ty_policy_block_count sm \<le> ty_blocked_count sm \<and>
    ty_impossible_under_policy_count sm \<le> ty_policy_restricted_count sm \<and>
    ty_policy_restricted_count sm \<le> ty_case_count sm \<and>
    ty_blocked_count sm + ty_ordinary_utility_failure_count sm \<le> ty_case_count sm \<and>
    (trt \<noteq> POLICY_GOVERNED \<longrightarrow> ty_policy_block_count sm = 0 \<and> ty_policy_restricted_count sm = 0) \<and>
    a_rate (ty_conformant_rate sm) (ty_conformant_count sm) (ty_scored_span_count sm) \<and>
    a_rate (ty_unnecessary_disclosure_rate sm) (ty_not_required_transmitted sm) (ty_not_required_total sm) \<and>
    a_rate (ty_utility_answerable_rate sm) (ty_utility_answerable_count sm) (ty_utility_scored_count sm)"
proof -
  let ?fl = "\<lambda>r. sr_outcomes (cx_score r)"
  have flags: "(fl_policy_block (?fl r) \<longrightarrow> fl_blocked (?fl r)) \<and>
      (fl_impossible_under_policy (?fl r) \<longrightarrow> fl_policy_restricted (?fl r)) \<and>
      (fl_policy_block (?fl r) \<or> fl_policy_restricted (?fl r) \<longrightarrow> trt = POLICY_GOVERNED) \<and>
      \<not> (fl_blocked (?fl r) \<and> sr_ordinary_utility_failure (cx_score r))" if "r \<in> set results" for r
    using results [OF that] by (elim exE) (rule result_facts(3))
  have code: "ri_treatment_code (cx_identity r) = treatment_value trt" if "r \<in> set results" for r
    using results [OF that] by (elim exE) (rule result_facts(1))
  have unnecessary: "ud_not_required_transmitted (sr_unnecessary_disclosure (cx_score r))
      \<le> ud_not_required_total (sr_unnecessary_disclosure (cx_score r))" if "r \<in> set results" for r
    using results [OF that] by (elim exE) (rule result_facts(2))
  have one: "the_only (map (\<lambda>r. ri_treatment_code (cx_identity r)) results) = Some (treatment_value trt)" if "results \<noteq> []"
    by (rule the_only_const) (use that code in auto)
  have le: "ty_not_required_transmitted (summarize_treatment results) \<le> ty_not_required_total (summarize_treatment results)"
    by (simp add: summarize_treatment_def Let_def sum_list_mono unnecessary)
  have block: "count_where (\<lambda>r. fl_policy_block (?fl r)) results \<le> count_where (\<lambda>r. fl_blocked (?fl r)) results"
    and impossible: "count_where (\<lambda>r. fl_impossible_under_policy (?fl r)) results
      \<le> count_where (\<lambda>r. fl_policy_restricted (?fl r)) results"
    by (rule count_where_mono, use flags in blast)+
  have ordinary: "count_where (\<lambda>r. fl_blocked (?fl r)) results + count_where (\<lambda>r. sr_ordinary_utility_failure (cx_score r)) results
      \<le> length results"
    by (rule count_where_disjoint) (use flags in blast)
  have governed: "trt \<noteq> POLICY_GOVERNED \<longrightarrow> count_where (\<lambda>r. fl_policy_block (?fl r)) results = 0 \<and>
      count_where (\<lambda>r. fl_policy_restricted (?fl r)) results = 0"
    by (intro impI conjI count_where_none) (use flags in blast)+
  have code': "results \<noteq> [] \<longrightarrow> the_default ''mixed'' (the_only (map (\<lambda>r. ri_treatment_code (cx_identity r)) results)) =
      treatment_value trt"
    using one by simp
  show ?thesis
    unfolding assms(2) summary_counts
    by (intro conjI code' refl block impossible count_where_le ordinary governed summary_rates(1,2) summary_rates(3) [OF le])
qed

theorem summaries_are_consistent_witness:
  "\<exists>r. ty_treatment_code (summarize_treatment [r]) = treatment_value POLICY_GOVERNED \<and>
     ty_blocked_count (summarize_treatment [r]) + ty_ordinary_utility_failure_count (summarize_treatment [r]) \<le> 1"
proof (rule sample_case_runs)
  fix r sent s
  assume r: "run_case_for_treatment sample_library sample_environment corpus_sample POLICY_GOVERNED ''v1'' PILOT_DEVELOPMENT
       sample_repository ''run'' None (Some CURRENT_PROTOCOL_ID) = (Inr r, sent, s)"
  have "\<exists>env c cv cl run_id supplied protocol_id sent s.
      run_case_for_treatment sample_library env c POLICY_GOVERNED cv cl sample_repository run_id supplied protocol_id =
      (Inr r', sent, s)" if "r' \<in> set [r]" for r'
    using that r by (simp only: list.set empty_iff insert_iff simp_thms) (intro exI)
  from summaries_are_consistent [where results = "[r]", OF this refl] show ?thesis by (intro exI [of _ r]) (simp add: summary_counts(1))
qed

text \<open>
  C33: the artifacts of a completed pilot tell that run; a pilot of different treatments completes when its corpus loads and can be
  scored, and reading the policy files raises nothing but what their loader records; there is at least one treatment and
  one case. The artifacts are refused only when the directory is there already: the rows of one
  pilot never mix protocols. There is one row for each treatment and case, without raw capture, under the run's protocol and
  identifier, and the manifest names that protocol, every treatment and the number of cases of each. Adjacent
  treatments that were both run are compared over all cases, and B3 with B4 case by case in the order of the corpus.
\<close>

theorem artifacts_tell_the_run:
  assumes "load_corpus readers corpus_files = Inr cases"
    and "check_corpus_protocol_compatibility cases (the_default CURRENT_PROTOCOL_ID protocol_id) = Inr ()"
    and "\<forall>file \<in> set policy_files. \<forall>err. loader (snd file) \<noteq> Policy_Raises err"
    and "distinct treatments" and "cases \<noteq> []" and "treatments \<noteq> []"
  shows "\<exists>results sent art. run_pilot lib envs new_run_id readers corpus_files loader policy_files corpus_version classification
      treatments experiment_run_id supplied protocol_id = (Inr results, sent) \<and>
    pilot_artifacts_of True new_run_id corpus_version classification results contextual = Inl File_Exists \<and>
    pilot_artifacts_of False new_run_id corpus_version classification results contextual = Inr art \<and>
    length (pa_results art) = length treatments * length cases \<and>
    (\<forall>row \<in> set (pa_results art). ar_raw (sf_audit row) = None \<and>
       ri_protocol_id (sf_identity row) = the_default CURRENT_PROTOCOL_ID protocol_id \<and>
       rm_experiment_run_id (sf_metadata row) = the_default new_run_id experiment_run_id) \<and>
    mf_protocol_id (pa_manifest art) = the_default CURRENT_PROTOCOL_ID protocol_id \<and>
    mf_treatments (pa_manifest art) = sort (map treatment_value treatments) \<and>
    mf_case_counts (pa_manifest art) = map (\<lambda>trt. (treatment_value trt, length cases)) treatments \<and>
    (\<forall>(a, b) \<in> set PAIRWISE_SEQUENCE. a \<in> set treatments \<and> b \<in> set treatments \<longrightarrow>
       (\<exists>pair. (treatment_value a @ ''_to_'' @ treatment_value b, pair) \<in> set (pa_summary_pairwise art) \<and>
          py_case_count pair = length cases)) \<and>
    (TASK_AWARE \<in> set treatments \<and> POLICY_GOVERNED \<in> set treatments \<longrightarrow>
       (\<exists>b. pa_summary_b3_to_b4 art = Some b \<and>
          map bc_case_id (bs_cases b) = map (\<lambda>c. ci_sample_id (cc_input c)) cases))"
proof -
  let ?pid = "the_default CURRENT_PROTOCOL_ID protocol_id" and ?run = "the_default new_run_id experiment_run_id"
  obtain results sent where pilot: "run_pilot lib envs new_run_id readers corpus_files loader policy_files corpus_version
      classification treatments experiment_run_id supplied protocol_id = (Inr results, sent)"
    and keys: "map fst results = treatments"
    and each: "\<And>trt. trt \<in> set treatments \<Longrightarrow> \<exists>rs. dict_get results trt = Some rs"
    and entry: "\<And>trt rs. (trt, rs) \<in> set results \<Longrightarrow> map case_id_of rs = map (\<lambda>c. ci_sample_id (cc_input c)) cases"
    and rows: "\<And>r. r \<in> set (concat (map snd results)) \<Longrightarrow>
      ri_protocol_id (cx_identity r) = ?pid \<and> rm_experiment_run_id (cx_metadata r) = ?run"
    and count: "length (concat (map snd results)) = length treatments * length cases"
    and ids: "remdups (map (\<lambda>r. ri_protocol_id (cx_identity r)) (concat (map snd results))) = [?pid]"
    using pilot_rows [OF assms, of lib envs new_run_id corpus_version classification experiment_run_id supplied]
    by metis
  let ?all = "concat (map snd results)"
  have sizes: "length rs = length cases" if "(trt, rs) \<in> set results" for trt rs
    using entry [OF that] by (metis length_map)
  have got: "(trt, rs) \<in> set results" if "dict_get results trt = Some rs" for trt rs using that by (rule dict_get_mem)
  have same: "map fst (matched_pairs rs rs') = rs" if "(trt, rs) \<in> set results" "(trt', rs') \<in> set results" for trt rs trt' rs'
    by (rule matched_pairs_all) (metis entry [OF that(1)] entry [OF that(2)] order_refl set_map)
  obtain art where art: "pilot_artifacts_of False new_run_id corpus_version classification results contextual = Inr art"
    and parts: "pa_results art = map to_safe_dict ?all" "mf_protocol_id (pa_manifest art) = ?pid"
    "mf_treatments (pa_manifest art) = sort (map treatment_value (map fst results))"
    "mf_case_counts (pa_manifest art) = map (\<lambda>(trt, rs). (treatment_value trt, length rs)) results"
    "pa_summary_pairwise art = concat (map (pairwise_entry results) PAIRWISE_SEQUENCE)"
    "pa_summary_b3_to_b4 art = b3_to_b4_entry results"
    by (rule artifacts_of_one_protocol [OF ids])
  have counts: "map (\<lambda>(trt, rs). (treatment_value trt, length rs)) results =
      map (\<lambda>trt. (treatment_value trt, length cases)) treatments"
    unfolding keys [symmetric] map_map by (rule map_cong) (use sizes in auto)
  have pairwise: "\<exists>pair. (treatment_value a @ ''_to_'' @ treatment_value b, pair) \<in> set (pa_summary_pairwise art) \<and>
      py_case_count pair = length cases"
    if ab: "(a, b) \<in> set PAIRWISE_SEQUENCE" "a \<in> set treatments" "b \<in> set treatments" for a b
  proof -
    obtain ra rb where g: "dict_get results a = Some ra" "dict_get results b = Some rb" using each ab(2,3) by blast
    then have "map fst (matched_pairs ra rb) = ra" by (intro same got)
    then have "py_case_count (summarize_pairwise ra rb) = length cases" using sizes [OF got [OF g(1)]] by (simp only: compared_count)
    moreover have "(treatment_value a @ ''_to_'' @ treatment_value b, summarize_pairwise ra rb) \<in> set (pa_summary_pairwise art)"
      using ab(1) g unfolding parts(5) by (auto simp: pairwise_entry_def intro!: bexI [of _ "(a, b)"])
    ultimately show ?thesis by blast
  qed
  have governed: "\<exists>b. pa_summary_b3_to_b4 art = Some b \<and> map bc_case_id (bs_cases b) = map (\<lambda>c. ci_sample_id (cc_input c)) cases"
    if ab: "TASK_AWARE \<in> set treatments" "POLICY_GOVERNED \<in> set treatments"
  proof -
    obtain b3 b4 where g: "dict_get results TASK_AWARE = Some b3" "dict_get results POLICY_GOVERNED = Some b4"
      using each ab by blast
    then have "map fst (matched_pairs b3 b4) = b3" by (intro same got)
    then have "map bc_case_id (bs_cases (summarize_b3_to_b4 b3 b4)) = map (\<lambda>c. ci_sample_id (cc_input c)) cases"
      using entry [OF got [OF g(1)]] by (simp only: compared_ids)
    with g show ?thesis by (simp add: parts(6) b3_to_b4_entry_def)
  qed
  have safe: "ar_raw (sf_audit row) = None \<and> ri_protocol_id (sf_identity row) = ?pid \<and>
      rm_experiment_run_id (sf_metadata row) = ?run" if "row \<in> set (pa_results art)" for row
  proof -
    obtain r where "r \<in> set ?all" "row = to_safe_dict r" using \<open>row \<in> set (pa_results art)\<close> unfolding parts(1) set_map by (elim imageE)
    then show ?thesis using rows by (simp add: to_safe_dict_def Let_def)
  qed
  have "pilot_artifacts_of True new_run_id corpus_version classification results contextual = Inl File_Exists"
    by (simp add: pilot_artifacts_of_def)
  moreover have "length (pa_results art) = length treatments * length cases" using count by (simp only: parts(1) length_map)
  moreover have pairs: "\<forall>(a, b) \<in> set PAIRWISE_SEQUENCE. a \<in> set treatments \<and> b \<in> set treatments \<longrightarrow>
      (\<exists>pair. (treatment_value a @ ''_to_'' @ treatment_value b, pair) \<in> set (pa_summary_pairwise art) \<and>
          py_case_count pair = length cases)"
    using pairwise by blast
  ultimately show ?thesis
    using pilot art safe parts(2-4) counts keys governed
    by (intro exI [of _ results] exI [of _ sent] exI [of _ art] conjI ballI impI) (simp_all only: simp_thms)
qed

theorem artifacts_tell_the_run_witness:
  "\<exists>results sent art. sample_pilot ALL_TREATMENTS None = (Inr results, sent) \<and>
     pilot_artifacts_of False ''run'' ''v1'' PILOT_DEVELOPMENT results None = Inr art \<and> length (pa_results art) = 5 \<and>
     mf_protocol_id (pa_manifest art) = CURRENT_PROTOCOL_ID"
proof -
  have "check_corpus_protocol_compatibility [corpus_sample] (the_default CURRENT_PROTOCOL_ID None) = Inr ()"
    using sample_corpus(2) by simp
  moreover have "distinct ALL_TREATMENTS" "ALL_TREATMENTS \<noteq> []" "length ALL_TREATMENTS = 5" by code_simp+
  moreover have "\<forall>file \<in> set [(''p.yaml'', ())]. \<forall>err. (\<lambda>y. Policy_Recorded ''unreadable'') (snd file) \<noteq> Policy_Raises err"
    by simp
  ultimately show ?thesis
    using artifacts_tell_the_run [OF sample_corpus(1), of None "[(''p.yaml'', ())]" "\<lambda>y. Policy_Recorded ''unreadable''"
        ALL_TREATMENTS sample_library "\<lambda>_. sample_environment" "''run''" "''v1''" PILOT_DEVELOPMENT None None None]
    unfolding sample_pilot_def by (elim meta_impE; simp only: the_default_simps) fastforce+
qed

text \<open>
  a contextual comparison varies one dimension of the context. Overriding just the named dimension of one side's request by the
  other side's value gives the other side's request, and the two values differ; both sides run B4 to completion, on the
  same detected spans. (What a side decides is then up to the policies.)
\<close>

theorem contextual_comparisons_isolate_one_dimension:
  assumes "spec \<in> set CONTEXTUAL_MATRIX_SPECS"
  shows "\<exists>xa xb vb. run_contextual_comparison lib env_a env_b spec case_input repo corpus_version classification = Inr (xa, xb) \<and>
    xe_treatment xa = POLICY_GOVERNED \<and> xe_treatment xb = POLICY_GOVERNED \<and>
    ex_spans (xe_execution xa) = ex_spans (xe_execution xb) \<and>
    dict_get (cp_context_b spec) (cp_dimension spec) = Some vb \<and>
    dict_get (cp_context_a spec) (cp_dimension spec) \<noteq> Some vb \<and>
    (let request = build_request case_input DEFAULT_HARNESS_SESSION_ID
     in request (cp_context_b spec) =
        (request (cp_context_a spec))\<lparr>rq_context :=
           override_one (rq_context (request (cp_context_a spec))) (cp_dimension spec, vb)\<rparr>)"
proof -
  have side: "\<exists>x sent s. execute_case lib env case_input POLICY_GOVERNED corpus_version classification repo None None None None
      overrides False None = (Inr x, sent, s) \<and> xe_treatment x = POLICY_GOVERNED \<and>
      detect (active_rules None) (ci_text case_input) = Inr (ex_spans (xe_execution x))" for env overrides
    by (rule executed_side)
  obtain xa sa s where a: "execute_case lib env_a case_input POLICY_GOVERNED corpus_version classification repo None None None None
      (cp_context_a spec) False None = (Inr xa, sa, s)" "xe_treatment xa = POLICY_GOVERNED"
      "detect (active_rules None) (ci_text case_input) = Inr (ex_spans (xe_execution xa))"
    using side by blast
  obtain xb sb s' where b: "execute_case lib env_b case_input POLICY_GOVERNED corpus_version classification repo None None None None
      (cp_context_b spec) False None = (Inr xb, sb, s')" "xe_treatment xb = POLICY_GOVERNED"
      "detect (active_rules None) (ci_text case_input) = Inr (ex_spans (xe_execution xb))"
    using side by blast
  obtain vb where vb: "dict_get (cp_context_b spec) (cp_dimension spec) = Some vb"
    "dict_get (cp_context_a spec) (cp_dimension spec) \<noteq> Some vb"
    "build_request case_input DEFAULT_HARNESS_SESSION_ID (cp_context_b spec) =
      (build_request case_input DEFAULT_HARNESS_SESSION_ID (cp_context_a spec))\<lparr>rq_context :=
         override_one (rq_context (build_request case_input DEFAULT_HARNESS_SESSION_ID (cp_context_a spec)))
           (cp_dimension spec, vb)\<rparr>"
    using specs_vary_one_dimension [OF assms] by blast
  have "run_contextual_comparison lib env_a env_b spec case_input repo corpus_version classification = Inr (xa, xb)"
    by (simp add: run_contextual_comparison_def Let_def a(1) b(1))
  moreover have "ex_spans (xe_execution xa) = ex_spans (xe_execution xb)" using a(3) b(3) by simp
  ultimately show ?thesis using a(2) b(2) vb by (auto simp: Let_def)
qed

theorem contextual_comparisons_isolate_one_dimension_witness:
  "\<exists>xa xb. run_contextual_comparison sample_library sample_environment sample_environment (hd CONTEXTUAL_MATRIX_SPECS) sample_input
     sample_repository ''v1'' PILOT_DEVELOPMENT = Inr (xa, xb) \<and>
     ex_spans (xe_execution xa) = ex_spans (xe_execution xb)"
proof -
  have "hd CONTEXTUAL_MATRIX_SPECS \<in> set CONTEXTUAL_MATRIX_SPECS" by (simp add: CONTEXTUAL_MATRIX_SPECS_def)
  from contextual_comparisons_isolate_one_dimension [OF this, of sample_library sample_environment sample_environment sample_input
      sample_repository "''v1''" PILOT_DEVELOPMENT]
  show ?thesis by blast
qed

end
