(* ===== verification/Markdown_Blocks.thy ===== *)
theory Markdown_Blocks
  imports Ingestion Generalization
begin

text \<open>
  The structural blocks that the document adapter derives from the Markdown of the converter (\<open>_blocks_from_markdown\<close> and
  \<open>DoclingDocumentParser.parse\<close> in \<open>application/ingestion.py\<close>): headings, tables and runs of text with their offsets into the
  document. The converter is a parameter that gives the Markdown of a document, or \<open>None\<close> when it raises.

  The lemmas place the blocks in the text: they are in order and disjoint, and outside them there is only white space.
\<close>

subsection \<open>Lines\<close>

text \<open>The characters that end a line for \<open>str.splitlines\<close>.\<close>

definition is_line_break :: "char \<Rightarrow> bool" where
  "is_line_break c \<longleftrightarrow> (let n = (of_char c :: nat) in 10 \<le> n \<and> n \<le> 13 \<or> 28 \<le> n \<and> n \<le> 30 \<or> n = 133)"

text \<open>\<open>text.splitlines(keepends=True)\<close>; \<open>acc\<close> is the line read so far, backwards.\<close>

fun lines_keeping_ends :: "pystr \<Rightarrow> pystr \<Rightarrow> pystr list" where
  "lines_keeping_ends acc [] = (if acc = [] then [] else [rev acc])"
| "lines_keeping_ends acc (c # cs) =
     (if c = CHR 0x0D \<and> cs \<noteq> [] \<and> hd cs = CHR 0x0A then rev (CHR 0x0A # c # acc) # lines_keeping_ends [] (tl cs)
      else if is_line_break c then rev (c # acc) # lines_keeping_ends [] cs
      else lines_keeping_ends (c # acc) cs)"

text \<open>A line without its end, with its offsets.\<close>

type_synonym text_line = "pystr \<times> nat \<times> nat"

definition without_newlines :: "pystr \<Rightarrow> pystr" where
  "without_newlines l = rev (dropWhile (one_of [CHR 0x0D, CHR 0x0A]) (rev l))"

fun numbered_lines :: "nat \<Rightarrow> pystr list \<Rightarrow> text_line list" where
  "numbered_lines offset [] = []"
| "numbered_lines offset (l # ls) =
     (without_newlines l, offset, offset + length l) # numbered_lines (offset + length l) ls"

subsection \<open>Blocks\<close>

datatype block_kind = Text_Block | Heading_Block | Table_Block

record normalized_block =
  bl_kind :: block_kind
  bl_text :: pystr
  bl_start :: "nat option"
  bl_end :: "nat option"
  bl_level :: "nat option"
  bl_page :: "nat option"

definition plain_block :: "block_kind \<Rightarrow> pystr \<Rightarrow> nat \<Rightarrow> nat \<Rightarrow> normalized_block" where
  "plain_block kind content a b =
     \<lparr>bl_kind = kind, bl_text = content, bl_start = Some a, bl_end = Some b, bl_level = None, bl_page = None\<rparr>"

definition MARKDOWN_HEADING_RE :: re where
  "MARKDOWN_HEADING_RE =
     sqs [LineStart, Gr ''marker'' (between 1 6 (Chr (\<lambda>c. c = CHR ''#''))), at_least 1 (Chr is_space),
          Gr ''heading'' (at_least_lazy 1 (Chr (none_of [CHR 0x0A]))), at_least 0 (Chr is_space), LineEnd]"

definition SEPARATOR_CELL :: re where
  "SEPARATOR_CELL =
     sqs [at_least 0 (Chr is_space), opt (Chr (\<lambda>c. c = CHR '':'')), at_least 3 (Chr (\<lambda>c. c = CHR ''-'')),
          opt (Chr (\<lambda>c. c = CHR '':'')), at_least 0 (Chr is_space)]"

definition MARKDOWN_TABLE_SEPARATOR_RE :: re where
  "MARKDOWN_TABLE_SEPARATOR_RE =
     sqs [LineStart, at_least 0 (Chr is_space), opt (Chr (\<lambda>c. c = CHR ''|'')), SEPARATOR_CELL,
          at_least 1 (Sq (Chr (\<lambda>c. c = CHR ''|'')) SEPARATOR_CELL), opt (Chr (\<lambda>c. c = CHR ''|'')),
          at_least 0 (Chr is_space), LineEnd]"

text \<open>The marker and the text of a heading.\<close>

definition heading_of :: "pystr \<Rightarrow> (pystr \<times> pystr) option" where
  "heading_of line =
     (case re_match MARKDOWN_HEADING_RE line 0 of
        None \<Rightarrow> None
      | Some (_, c) \<Rightarrow>
          (case (captured c ''marker'' line, captured c ''heading'' line) of
             (Some marker, Some heading_text) \<Rightarrow> Some (marker, heading_text)
           | _ \<Rightarrow> None))"

definition is_markdown_table_at :: "text_line list \<Rightarrow> bool" where
  "is_markdown_table_at lines =
     (case lines of
        (current_line, _) # (next_line, _) # _ \<Rightarrow>
          CHR ''|'' \<in> set (str_strip current_line) \<and>
          re_match MARKDOWN_TABLE_SEPARATOR_RE (str_strip next_line) 0 \<noteq> None
      | _ \<Rightarrow> False)"

text \<open>The two inner loops: where a table and a run of text end, and the lines after it.\<close>

fun table_rows :: "nat \<Rightarrow> text_line list \<Rightarrow> nat \<times> text_line list" where
  "table_rows table_end [] = (table_end, [])"
| "table_rows table_end ((line, a, b) # lines) =
     (if CHR ''|'' \<in> set line \<and> \<not> is_blank line then table_rows b lines else (table_end, (line, a, b) # lines))"

fun chunk_rows :: "nat \<Rightarrow> text_line list \<Rightarrow> nat \<times> text_line list" where
  "chunk_rows chunk_end [] = (chunk_end, [])"
| "chunk_rows chunk_end ((line, a, b) # lines) =
     (if is_blank line \<or> heading_of line \<noteq> None \<or> is_markdown_table_at ((line, a, b) # lines)
      then (chunk_end, (line, a, b) # lines) else chunk_rows b lines)"

lemma table_rows_shorter: "(e', rest) = table_rows e lines \<Longrightarrow> length rest \<le> length lines"
  by (induction e lines rule: table_rows.induct) (auto split: if_splits)

lemma chunk_rows_shorter: "(e', rest) = chunk_rows e lines \<Longrightarrow> length rest \<le> length lines"
  by (induction e lines rule: chunk_rows.induct) (auto split: if_splits)

function blocks_of_lines :: "pystr \<Rightarrow> text_line list \<Rightarrow> normalized_block list" where
  "blocks_of_lines doc [] = []"
| "blocks_of_lines doc ((line, a, b) # lines) =
     (if is_blank line then blocks_of_lines doc lines
      else (case heading_of line of
              Some (marker, heading_text) \<Rightarrow>
                (let heading_start = a + length marker + 1
                 in \<lparr>bl_kind = Heading_Block, bl_text = heading_text, bl_start = Some heading_start,
                     bl_end = Some (heading_start + length heading_text), bl_level = Some (length marker),
                     bl_page = None\<rparr> # blocks_of_lines doc lines)
            | None \<Rightarrow>
                if is_markdown_table_at ((line, a, b) # lines) then
                  (case table_rows b lines of
                     (table_end, rest) \<Rightarrow>
                       plain_block Table_Block (slice a table_end doc) a table_end # blocks_of_lines doc rest)
                else
                  (case chunk_rows b lines of
                     (chunk_end, rest) \<Rightarrow>
                       plain_block Text_Block (slice a chunk_end doc) a chunk_end # blocks_of_lines doc rest)))"
  by pat_completeness auto
termination
  by (relation "measure (\<lambda>(doc, lines). length lines)") (auto simp: less_Suc_eq_le dest: table_rows_shorter chunk_rows_shorter)

definition blocks_from_markdown :: "pystr \<Rightarrow> normalized_block list" where
  "blocks_from_markdown doc = blocks_of_lines doc (numbered_lines 0 (lines_keeping_ends [] doc))"

subsection \<open>The document adapter\<close>

text \<open>\<open>ParsedDocument\<close> of an export, and the adapter as a parser of documents. No blocks are derived from a text that is too long.\<close>

definition docling_parse :: "(pystr \<Rightarrow> pystr \<Rightarrow> pystr option) \<Rightarrow> pystr \<Rightarrow> pystr \<Rightarrow> (pystr \<times> normalized_block list) option" where
  "docling_parse convert safe_name data =
     (case convert safe_name data of
        None \<Rightarrow> None
      | Some doc \<Rightarrow>
          if exceeds_normalized_character_limit (length doc) then Some (doc, [])
          else Some (doc, blocks_from_markdown doc))"

definition docling_document_parser :: "pystr \<Rightarrow> (pystr \<Rightarrow> pystr \<Rightarrow> pystr option) \<Rightarrow> document_parser" where
  "docling_document_parser version convert =
     \<lparr>dp_name = ''docling'', dp_version = version,
      dp_parse = (\<lambda>safe_name data. map_option fst (docling_parse convert safe_name data))\<rparr>"

subsection \<open>Where the lines lie\<close>

lemma concat_lines: "concat (lines_keeping_ends acc s) = rev acc @ s"
  by (induction acc s rule: lines_keeping_ends.induct) (auto simp: neq_Nil_conv)

lemma lines_not_empty: "l \<in> set (lines_keeping_ends acc s) \<Longrightarrow> l \<noteq> []"
  by (induction acc s rule: lines_keeping_ends.induct) (auto split: if_splits)

lemma without_newlines_append:
  "list_all (one_of [CHR 0x0D, CHR 0x0A]) ys \<Longrightarrow> without_newlines (xs @ ys) = without_newlines xs"
  unfolding without_newlines_def rev_append by (subst dropWhile_append2) (auto simp: list_all_iff)

lemma newline_facts: "one_of [CHR 0x0D, CHR 0x0A] c \<Longrightarrow> is_space c" "is_line_break (CHR 0x0A)"
  by (auto simp: one_of_def is_space_def is_line_break_def)

lemma without_newlines_split:
  obtains ys where "l = without_newlines l @ ys" and "list_all is_space ys"
proof -
  let ?p = "one_of [CHR 0x0D, CHR 0x0A]"
  have "rev l = takeWhile ?p (rev l) @ dropWhile ?p (rev l)" by simp
  then have "l = without_newlines l @ rev (takeWhile ?p (rev l))"
    unfolding without_newlines_def by (metis rev_append rev_rev_ident)
  moreover have "is_space c" if "c \<in> set (rev (takeWhile ?p (rev l)))" for c
    using that set_takeWhileD [of c ?p "rev l"] newline_facts(1) by auto
  ultimately show thesis using that by (simp add: list_all_iff)
qed

lemma without_newlines_subset: "set (without_newlines l) \<subseteq> set l"
  by (auto simp: without_newlines_def dest: set_dropWhileD)

lemma line_inside:
  "\<forall>c \<in> set acc. \<not> is_line_break c \<Longrightarrow> l \<in> set (lines_keeping_ends acc s) \<Longrightarrow> CHR 0x0A \<notin> set (without_newlines l)"
proof (induction acc s rule: lines_keeping_ends.induct)
  case (1 acc)
  then show ?case using without_newlines_subset [of l] newline_facts(2) by (auto split: if_splits)
next
  case (2 acc c cs)
  have lf: "CHR 0x0A \<notin> set acc" using "2.prems"(1) newline_facts(2) by auto
  show ?case
  proof (cases "c = CHR 0x0D \<and> cs \<noteq> [] \<and> hd cs = CHR 0x0A")
    case True
    then consider "l = rev acc @ [CHR 0x0D, CHR 0x0A]" | "l \<in> set (lines_keeping_ends [] (tl cs))" using "2.prems"(2) by auto
    then show ?thesis
    proof cases
      case 1
      then have "without_newlines l = without_newlines (rev acc)" by (simp add: without_newlines_append one_of_def)
      then show ?thesis using without_newlines_subset [of "rev acc"] lf by auto
    qed (use "2.IH"(1) True in auto)
  next
    case outer: False
    show ?thesis
    proof (cases "is_line_break c")
      case True
      then consider "l = rev acc @ [c]" | "l \<in> set (lines_keeping_ends [] cs)" using "2.prems"(2) outer by auto
      then show ?thesis
      proof cases
        case 1
        show ?thesis
        proof (cases "c = CHR 0x0A")
          case True
          then have "without_newlines l = without_newlines (rev acc)" by (simp add: 1 without_newlines_append one_of_def)
          then show ?thesis using without_newlines_subset [of "rev acc"] lf by auto
        next
          case False
          then show ?thesis using without_newlines_subset [of l] lf 1 by auto
        qed
      qed (use "2.IH"(2) outer True in auto)
    next
      case False
      then show ?thesis using "2.IH"(3) "2.prems" outer by auto
    qed
  qed
qed

text \<open>Lines that follow each other in the document from an offset on, each with nothing but white space after it.\<close>

fun chained :: "pystr \<Rightarrow> nat \<Rightarrow> text_line list \<Rightarrow> bool" where
  "chained doc i [] \<longleftrightarrow> i = length doc"
| "chained doc i ((l, a, b) # ls) \<longleftrightarrow>
     a = i \<and> i < b \<and> b \<le> length doc \<and> i + length l \<le> b \<and> slice i (i + length l) doc = l \<and>
     list_all is_space (slice (i + length l) b doc) \<and> CHR 0x0A \<notin> set l \<and> chained doc b ls"

lemma numbered_lines_chained:
  assumes "drop i doc = concat raw" and "i \<le> length doc" and "\<forall>l \<in> set raw. l \<noteq> [] \<and> CHR 0x0A \<notin> set (without_newlines l)"
  shows "chained doc i (numbered_lines i raw)"
  using assms
proof (induction raw arbitrary: i)
  case (Cons l ls)
  obtain ys where ys: "l = without_newlines l @ ys" "list_all is_space ys" by (rule without_newlines_split)
  let ?w = "without_newlines l"
  have d: "drop i doc = ?w @ ys @ concat ls" using Cons.prems(1) ys(1) by (metis append.assoc concat.simps(2))
  have len: "length l = length ?w + length ys" using ys(1) by (metis length_append)
  have total: "length doc - i = length ?w + length ys + length (concat ls)" using arg_cong [OF d, of length] by simp
  have "drop (i + length l) doc = drop (length l) (drop i doc)" by (simp add: add.commute)
  also have "\<dots> = concat ls" unfolding d by (simp add: len)
  finally have rest: "drop (i + length l) doc = concat ls" .
  have w: "slice i (i + length ?w) doc = ?w" unfolding slice_def d by simp
  have "drop (i + length ?w) doc = drop (length ?w) (drop i doc)" by (simp add: add.commute)
  also have "\<dots> = ys @ concat ls" unfolding d by simp
  finally have y: "slice (i + length ?w) (i + length l) doc = ys" unfolding slice_def by (simp add: len)
  have b: "i + length l \<le> length doc" using total len Cons.prems(2) by linarith
  have "0 < length l" "CHR 0x0A \<notin> set ?w" using Cons.prems(3) by simp_all
  moreover have "chained doc (i + length l) (numbered_lines (i + length l) ls)"
    using Cons.IH [OF rest b] Cons.prems(3) by simp
  ultimately show ?case using w y ys(2) b len by simp
qed simp

lemma document_chained: "chained doc 0 (numbered_lines 0 (lines_keeping_ends [] doc))"
proof (rule numbered_lines_chained)
  show "drop 0 doc = concat (lines_keeping_ends [] doc)" by (simp add: concat_lines)
  show "\<forall>l \<in> set (lines_keeping_ends [] doc). l \<noteq> [] \<and> CHR 0x0A \<notin> set (without_newlines l)"
    using lines_not_empty line_inside [of "[]"] by auto
qed simp

lemma table_rows_chained:
  "(e', rest) = table_rows i lines \<Longrightarrow> chained doc i lines \<Longrightarrow> i \<le> length doc \<Longrightarrow>
     chained doc e' rest \<and> i \<le> e' \<and> e' \<le> length doc"
  by (induction i lines rule: table_rows.induct) (auto split: if_splits)

lemma chunk_rows_chained:
  "(e', rest) = chunk_rows i lines \<Longrightarrow> chained doc i lines \<Longrightarrow> i \<le> length doc \<Longrightarrow>
     chained doc e' rest \<and> i \<le> e' \<and> e' \<le> length doc"
  by (induction i lines rule: chunk_rows.induct) (auto split: if_splits)
subsection \<open>Where a heading lies in its line\<close>

lemma run_of_chars:
  assumes "i \<le> length s" and "(j, c) \<in> set (matches (Rp g mn mx (Chr p)) s i)"
  shows "i \<le> j" and "j \<le> length s" and "c = []" and "list_all p (slice i j s)" and "mn \<le> j - i"
    and "case mx of None \<Rightarrow> True | Some x \<Rightarrow> j - i \<le> x"
proof -
  show ij: "i \<le> j" "j \<le> length s" using matches_end [OF assms] by simp_all
  have "slice i j s \<in> lang (Rp g mn mx (Chr p))" by (rule matches_lang [OF assms])
  then show "list_all p (slice i j s)" "mn \<le> j - i" "case mx of None \<Rightarrow> True | Some x \<Rightarrow> j - i \<le> x"
    unfolding lang_Rp_Chr by (simp_all add: length_slice ij(2) split: option.splits)
  show "c = []" by (rule no_groups_no_captures [OF _ assms]) simp
qed

lemma heading_facts:
  assumes "heading_of l = Some (marker, h)" and "CHR 0x0A \<notin> set l"
  shows "\<exists>d. 1 \<le> length marker \<and> length marker \<le> 6 \<and> h \<noteq> [] \<and>
    slice (length marker + 1 + d) (length marker + 1 + d + length h) l = h \<and> length marker + 1 + d + length h \<le> length l \<and>
    take (length marker) l = marker \<and> list_all (\<lambda>c. c = CHR ''#'') marker \<and>
    list_all is_space (slice (length marker) (length marker + 1 + d) l) \<and>
    list_all is_space (drop (length marker + 1 + d + length h) l)"
proof -
  obtain j c where m: "re_match MARKDOWN_HEADING_RE l 0 = Some (j, c)"
    and caps: "captured c ''marker'' l = Some marker" "captured c ''heading'' l = Some h"
    using assms(1) by (auto simp: heading_of_def split: option.splits)
  from m have mem: "(j, c) \<in> set (matches MARKDOWN_HEADING_RE l 0)" by (auto simp: re_match_def split: list.splits)
  obtain k1 c1 k2 c2 k3 c3 k4 c4 where
    1: "(k1, c1) \<in> set (matches (between 1 6 (Chr (\<lambda>c. c = CHR ''#''))) l 0)"
    and 2: "(k2, c2) \<in> set (matches (at_least 1 (Chr is_space)) l k1)"
    and 3: "(k3, c3) \<in> set (matches (at_least_lazy 1 (Chr (none_of [CHR 0x0A]))) l k2)"
    and 4: "(k4, c4) \<in> set (matches (at_least 0 (Chr is_space)) l k3)"
    and 5: "line_end_at l k4" and c: "c = c4 @ ((''heading'', k2, k3) # c3) @ c2 @ (''marker'', 0, k1) # c1"
    using mem by (auto simp: MARKDOWN_HEADING_RE_def split: if_splits)
  note r1 = run_of_chars [OF le0 1 [unfolded between_def]]
  note r2 = run_of_chars [OF r1(2) 2 [unfolded at_least_def]]
  note r3 = run_of_chars [OF r2(2) 3 [unfolded at_least_lazy_def]]
  note r4 = run_of_chars [OF r3(2) 4 [unfolded at_least_def]]
  have k4: "k4 = length l" using 5 assms(2) unfolding line_end_at_def by (metis nth_mem)
  have "marker = slice 0 k1 l" "h = slice k2 k3 l"
    using caps by (auto simp: captured_def c r2(3) r3(3) r4(3))
  then have lens: "length marker = k1" "length h = k3 - k2" using r1(2) r3(2) by (simp_all add: length_slice)
  then have "length marker + 1 + (k2 - k1 - 1) = k2" "k2 + length h = k3" using r2(1,5) r3(1) by simp_all
  then show ?thesis
    using r1 r2 r3 r4 k4 lens \<open>marker = slice 0 k1 l\<close> \<open>h = slice k2 k3 l\<close>
    by (intro exI [of _ "k2 - k1 - 1"]) (auto simp: slice_0_drop slice_beyond)
qed
subsection \<open>The layout of the blocks\<close>

text \<open>
  A block between two positions of the document. A block of text or a table is what the document says there. A heading is its
  marker, white space and its text, at the very end; the offsets recorded for it take the white space for one character, and
  are off by the further ones, of which there are \<open>d\<close>.
\<close>

definition block_lies :: "pystr \<Rightarrow> nat \<Rightarrow> nat \<Rightarrow> normalized_block \<Rightarrow> bool" where
  "block_lies doc lo hi b \<longleftrightarrow>
     lo < hi \<and> hi \<le> length doc \<and>
     (if bl_kind b = Heading_Block then
        \<exists>m d. 1 \<le> m \<and> m \<le> 6 \<and> bl_level b = Some m \<and> list_all (\<lambda>c. c = CHR ''#'') (slice lo (lo + m) doc) \<and>
          list_all is_space (slice (lo + m) (lo + m + 1 + d) doc) \<and>
          bl_text b = slice (lo + m + 1 + d) hi doc \<and> bl_text b \<noteq> [] \<and>
          bl_start b = Some (lo + m + 1) \<and> bl_end b = Some (hi - d)
      else bl_level b = None \<and> bl_start b = Some lo \<and> bl_end b = Some hi \<and> bl_text b = slice lo hi doc)"

text \<open>Blocks in order from a position on, with only white space around them.\<close>

fun laid_out :: "pystr \<Rightarrow> nat \<Rightarrow> normalized_block list \<Rightarrow> bool" where
  "laid_out doc i [] \<longleftrightarrow> i \<le> length doc \<and> list_all is_space (drop i doc)"
| "laid_out doc i (b # bs) \<longleftrightarrow>
     (\<exists>lo hi. i \<le> lo \<and> list_all is_space (slice i lo doc) \<and> block_lies doc lo hi b \<and> laid_out doc hi bs)"

lemma space_slices:
  "i \<le> j \<Longrightarrow> j \<le> k \<Longrightarrow> list_all is_space (slice i j doc) \<Longrightarrow> list_all is_space (slice j k doc) \<Longrightarrow>
     list_all is_space (slice i k doc)"
  using slice_append_slice [of i j k doc] by (metis list_all_append)

lemma laid_out_earlier:
  assumes "laid_out doc j bs" and "i \<le> j" and "list_all is_space (slice i j doc)"
  shows "laid_out doc i bs"
proof (cases bs)
  case Nil
  with assms have "list_all is_space (slice i j doc @ drop j doc)" "i \<le> length doc" by auto
  then show ?thesis using Nil slice_append_drop [OF assms(2), of doc] by simp
next
  case (Cons b bs')
  with assms(1) obtain lo hi where "j \<le> lo" "list_all is_space (slice j lo doc)" "block_lies doc lo hi b" "laid_out doc hi bs'"
    by auto
  then have "i \<le> lo" "list_all is_space (slice i lo doc)" using assms(2,3) space_slices [of i j lo doc] by auto
  with \<open>block_lies doc lo hi b\<close> \<open>laid_out doc hi bs'\<close> show ?thesis unfolding Cons laid_out.simps by (intro exI conjI)
qed

lemma laid_out_first:
  assumes "block_lies doc i hi b" and "laid_out doc hi bs"
  shows "laid_out doc i (b # bs)"
  unfolding laid_out.simps by (rule exI [of _ i], rule exI [of _ hi]) (simp add: assms)

lemma slice_slice: "b \<le> d - c \<Longrightarrow> slice a b (slice c d s) = slice (c + a) (c + b) s"
  by (simp add: slice_def drop_take min_def add.commute)

lemma drop_slice: "drop a (slice c d s) = slice (c + a) d s"
  by (simp add: slice_def drop_take add.commute)

lemma chained_end: "chained doc i lines \<Longrightarrow> i \<le> length doc"
  by (cases "(doc, i, lines)" rule: chained.cases) auto

lemma heading_block_lies:
  assumes "heading_of line = Some (marker, h)" and "CHR 0x0A \<notin> set line" and "slice i (i + length line) doc = line"
    and "i + length line \<le> length doc"
  shows "\<exists>hi. hi \<le> i + length line \<and> list_all is_space (slice hi (i + length line) doc) \<and>
    block_lies doc i hi \<lparr>bl_kind = Heading_Block, bl_text = h, bl_start = Some (i + length marker + 1),
      bl_end = Some (i + length marker + 1 + length h), bl_level = Some (length marker), bl_page = None\<rparr>"
proof -
  let ?m = "length marker"
  obtain d where d: "1 \<le> ?m" "?m \<le> 6" "h \<noteq> []" "slice (?m + 1 + d) (?m + 1 + d + length h) line = h"
    "?m + 1 + d + length h \<le> length line" "take ?m line = marker" "list_all (\<lambda>c. c = CHR ''#'') marker"
    "list_all is_space (slice ?m (?m + 1 + d) line)" "list_all is_space (drop (?m + 1 + d + length h) line)"
    using heading_facts [OF assms(1,2)] by blast
  let ?hi = "i + (?m + 1 + d + length h)"
  have part: "slice a b line = slice (i + a) (i + b) doc" if "b \<le> length line" for a b
    using slice_slice [of b "i + length line" i a doc] that assms(3) by simp
  have content: "h = slice (i + ?m + 1 + d) ?hi doc" using d(4) part [OF d(5), of "?m + 1 + d"] by (simp add: add.assoc)
  have marker: "marker = slice i (i + ?m) doc" using d(5,6) part [of ?m 0] by (simp add: slice_0_drop)
  have white: "list_all is_space (slice (i + ?m) (i + ?m + 1 + d) doc)"
    using d(5,8) part [of "?m + 1 + d" ?m] by (simp add: add.assoc)
  have "list_all is_space (slice ?hi (i + length line) doc)"
    using d(9) drop_slice [of "?m + 1 + d + length h" i "i + length line" doc] assms(3) by (simp add: add.assoc)
  moreover have "block_lies doc i ?hi \<lparr>bl_kind = Heading_Block, bl_text = h, bl_start = Some (i + ?m + 1),
      bl_end = Some (i + ?m + 1 + length h), bl_level = Some ?m, bl_page = None\<rparr>"
    unfolding block_lies_def
    using d(1-3,5,7) assms(4) content marker white by (auto intro!: exI [of _ d])
  moreover have "?hi \<le> i + length line" using d(5) by simp
  ultimately show ?thesis by blast
qed

lemma plain_block_lies:
  "kind \<noteq> Heading_Block \<Longrightarrow> a < b \<Longrightarrow> b \<le> length doc \<Longrightarrow> block_lies doc a b (plain_block kind (slice a b doc) a b)"
  by (simp add: block_lies_def plain_block_def)

lemma blocks_of_lines_laid_out: "chained doc i lines \<Longrightarrow> laid_out doc i (blocks_of_lines doc lines)"
proof (induction doc lines arbitrary: i rule: blocks_of_lines.induct)
  case (1 doc)
  then show ?case by simp
next
  case (2 doc line a b lines)
  from "2.prems" have a: "a = i" and line: "i < b" "b \<le> length doc" "i + length line \<le> b" "slice i (i + length line) doc = line"
    "list_all is_space (slice (i + length line) b doc)" "CHR 0x0A \<notin> set line" "chained doc b lines" by simp_all
  show ?case
  proof (cases "is_blank line")
    case True
    have "list_all is_space (slice i b doc)"
      using space_slices [of i "i + length line" b doc] line(3-5) True by (simp add: is_blank_def)
    with "2.IH"(1) [OF True line(7)] True line(1) show ?thesis by (simp add: laid_out_earlier)
  next
    case nb: False
    show ?thesis
    proof (cases "heading_of line")
      case (Some mh)
      obtain marker h where mh: "mh = (marker, h)" by force
      have "i + length line \<le> length doc" using line(2,3) by simp
      from heading_block_lies [OF Some [unfolded mh] line(6,4) this] obtain hi where
        hi: "hi \<le> i + length line" "list_all is_space (slice hi (i + length line) doc)"
        "block_lies doc i hi \<lparr>bl_kind = Heading_Block, bl_text = h, bl_start = Some (i + length marker + 1),
          bl_end = Some (i + length marker + 1 + length h), bl_level = Some (length marker), bl_page = None\<rparr>" by blast
      have "list_all is_space (slice hi b doc)" using space_slices [OF hi(1) line(3) hi(2) line(5)] .
      then have "laid_out doc hi (blocks_of_lines doc lines)"
        using "2.IH"(4) [OF nb Some mh [symmetric] refl line(7)] hi(1) line(3) by (auto intro: laid_out_earlier)
      from laid_out_first [OF hi(3) this] show ?thesis by (simp add: nb Some mh a Let_def del: laid_out.simps)
    next
      case None
      show ?thesis
      proof (cases "is_markdown_table_at ((line, a, b) # lines)")
        case True
        obtain e rest where e: "(e, rest) = table_rows b lines" by (metis prod.exhaust)
        have c: "chained doc e rest \<and> b \<le> e \<and> e \<le> length doc" by (rule table_rows_chained [OF e line(7,2)])
        then have "block_lies doc i e (plain_block Table_Block (slice i e doc) i e)" using line(1) by (simp add: plain_block_lies)
        moreover have "laid_out doc e (blocks_of_lines doc rest)" using "2.IH"(2) [OF nb None True e] c by simp
        ultimately show ?thesis using laid_out_first by (simp add: nb None True [unfolded a] a e [symmetric] del: laid_out.simps)
      next
        case False
        obtain e rest where e: "(e, rest) = chunk_rows b lines" by (metis prod.exhaust)
        have c: "chained doc e rest \<and> b \<le> e \<and> e \<le> length doc" by (rule chunk_rows_chained [OF e line(7,2)])
        then have "block_lies doc i e (plain_block Text_Block (slice i e doc) i e)" using line(1) by (simp add: plain_block_lies)
        moreover have "laid_out doc e (blocks_of_lines doc rest)" using "2.IH"(3) [OF nb None False e] c by simp
        ultimately show ?thesis using laid_out_first by (simp add: nb None False [unfolded a] a e [symmetric] del: laid_out.simps)
      qed
    qed
  qed
qed

subsection \<open>Properties\<close>

text \<open>
  C35: the blocks of a Markdown export lie in it in order, disjoint, and leave out nothing but white space; the text of a block is
  that of the document there. The offsets of a block are those of its text, except that a heading whose marker is followed by
  more than one white space character gets offsets that are too small: as many characters as there are further ones.
\<close>

theorem blocks_lie_in_the_text:
  "laid_out doc 0 (blocks_from_markdown doc) \<and>
   (\<exists>doc' b. blocks_from_markdown doc' = [b] \<and> slice (the (bl_start b)) (the (bl_end b)) doc' \<noteq> bl_text b)"
proof (intro conjI)
  show "laid_out doc 0 (blocks_from_markdown doc)"
    unfolding blocks_from_markdown_def by (rule blocks_of_lines_laid_out [OF document_chained])
  have "case blocks_from_markdown ''#  A'' of [b] \<Rightarrow> slice (the (bl_start b)) (the (bl_end b)) ''#  A'' \<noteq> bl_text b | _ \<Rightarrow> False"
    by code_simp
  then show "\<exists>doc' b. blocks_from_markdown doc' = [b] \<and> slice (the (bl_start b)) (the (bl_end b)) doc' \<noteq> bl_text b"
    by (intro exI [of _ "''#  A''"]) (auto split: list.splits)
qed

end
