(* ===== verification/Spec2Isabelle.thy ===== *)
theory Spec2Isabelle
  imports Treatments Regex_Language Review_Surface Export_Restore Deployment Body_Limit Scoring Utility Cli Aggregation Markdown_Blocks
begin

text \<open>
  The adaptive disclosure gateway (\<open>src/src/adaptive_disclosure_gateway\<close>) stands between a user's text and an
  external language-model provider. It detects sensitive spans, asks a treatment (B0 to B4) what to do with
  each, sends the resulting payload, reconstructs pseudonyms in the response and writes an audit record. This
  library models that core, in the order the data flow through it:

  \<^item> \<open>Domain\<close> (\<open>domain.py\<close>), \<open>Policies\<close> (\<open>policies.py\<close>): the shared types; policy resolution and its
    repository, whose loader records some failures of reading a file and lets others end the load.
  \<^item> \<open>Regex\<close>, \<open>Regex_Language\<close>: the backtracking matcher that stands for the part of Python's \<open>re\<close> the source uses,
    and its equivalence with the regular language of a pattern.
  \<^item> \<open>Overlap\<close>, \<open>Detection\<close> (\<open>detection/\<close>): overlap resolution, the rules and the detector.
  \<^item> \<open>Vault\<close> (\<open>vault/\<close>): the locale \<open>vault_contract\<close> states what a treatment may assume of a vault; the in-memory vault
    interprets it. Its reachable states are the inductive relation \<open>reachable_vault\<close>.
  \<^item> \<open>Generalization\<close> (\<open>transformations/generalization.py\<close>): bands of amounts, months of dates.
  \<^item> \<open>Decision_Application\<close> (\<open>decision_application.py\<close>): what B2, B3 and B4 share. \<open>sanitize_with\<close> is their common frame.
  \<^item> \<open>Static_Sanitization\<close> (B0, B1), \<open>Reversible_Pseudonymization\<close> (B2), \<open>Task_Aware\<close> with \<open>Relevance_Selection\<close> (B3),
    \<open>Policy_Governed\<close> (B4): the treatments; \<open>Reconstruction\<close>: replacing tokens in a response.
  \<^item> \<open>Task_Analysis\<close> (\<open>task_analysis/\<close>): the deterministic analyzer of the task.
  \<^item> \<open>Providers\<close> (\<open>providers/base.py\<close>, \<open>fake.py\<close>), \<open>Audit_Record\<close> (\<open>audit.py\<close>): the one provider entry point; the record.
  \<^item> \<open>Pipeline\<close> (\<open>pipeline.py\<close>, \<open>treatment_factory.py\<close>): the locale \<open>treatment_contract\<close> states what the pipeline asks of a
    treatment; it is interpreted on the five treatments that \<open>build_treatment\<close> makes. \<open>Treatments\<close>: facts common to them.
  \<^item> \<open>Encoding\<close>, \<open>Json\<close>: UTF-8, URL-safe base64 and JSON as the components below use them, with their round trips.
  \<^item> \<open>Preview_Confirmation\<close> (\<open>application/preview_confirmation.py\<close>): the signer that ties an execution to a reviewed
    preview. \<open>Restore_Handle\<close> (\<open>application/restore_handle.py\<close>): sealing and opening a document's table of pseudonyms, and
    putting originals back into an edited text.
  \<^item> \<open>Ingestion\<close> (\<open>application/ingestion.py\<close>): what text gets past the boundary. \<open>Markdown_Blocks\<close>: the blocks
    that the document adapter finds in the converter's Markdown. \<open>Application_Contracts\<close>
    (\<open>contracts.py\<close>, \<open>presets.py\<close>, \<open>requests.py\<close>, \<open>summaries.py\<close>): strategies, governance presets and overrides, summaries.
    \<open>Inspection\<close> (\<open>inspection.py\<close>): the aligned view of a decision. \<open>Vault_Explorer\<close> (\<open>vault_explorer.py\<close>): sealed references
    to the pseudonyms of a decision.
  \<^item> \<open>Python_Text\<close>: stripping and splitting a text, and reading a number from one, as Python does. \<open>Real_Provider\<close>
    (\<open>providers/settings.py\<close>, \<open>readiness.py\<close>, \<open>anthropic_api.py\<close>): the configuration of a provider from the environment, its
    readiness, and the adapter of the external service over the client library as a parameter.
  \<^item> \<open>Application_Service\<close> (\<open>application/service.py\<close>, \<open>examples.py\<close>): the use cases, over the vault as state; the examples are
    what the loader of \<open>Corpus\<close> makes of their directory when an operation needs them, a failure to load included. \<open>Decision_Replay\<close>: a
    decision is the same again on every later vault. \<open>Confirmed_Flow\<close>, \<open>Review_Surface\<close>, \<open>Export_Restore\<close>: what the use
    cases guarantee together.
  \<^item> \<open>Deployment\<close> (\<open>application/settings.py\<close>, \<open>api/settings.py\<close>): the service that a process builds from its environment,
    and what a confirmed preview makes its external provider send. \<open>Body_Limit\<close> (\<open>api/limits.py\<close>): the middleware that bounds
    the body of a request, around an application that may receive and send in any order.
  \<^item> \<open>Corpus\<close> (\<open>corpus/\<close>): the models of a test case, their validators and the loader; the application's examples are its inputs. \<open>Scoring\<close> (\<open>experiments/scoring/\<close>):
    how a decision is matched with the annotations of a case and judged, and the scores of the detector. \<open>Utility\<close>
    (\<open>scoring/utility.py\<close>, \<open>post_pilot_protocol.py\<close>): whether the payload still answers the question of a case.
  \<^item> \<open>Governed_Metadata\<close> (\<open>policy_governed.py\<close>, \<open>b4_span_metadata.py\<close>): what B4 writes about its decisions and how it is read
    back. \<open>Experiment\<close> (\<open>execution.py\<close> and what it calls): one case through one treatment. \<open>Pilot\<close> (\<open>runner.py\<close>,
    \<open>case_result.py\<close>, \<open>scoring/outcomes.py\<close>): the scores of a case and the run over a corpus. \<open>Aggregation\<close>
    (\<open>aggregation.py\<close>, \<open>contextual_matrix.py\<close>, \<open>artifacts.py\<close>): summaries, comparisons and what is written of a run.
  \<^item> \<open>Wire\<close> and \<open>Http_Api\<close> (\<open>api/\<close>): the bodies and statuses of the HTTP routes, their handlers of exceptions and the headers of
    the vault explorer. \<open>Cli\<close> (\<open>cli.py\<close>): the commands over the same service.

  Conventions. A Python exception is the left value of a sum (\<open>py_error\<close>, or the error type of a component; what reading a YAML
  file raises past the handlers of its loader is a \<open>reading_error\<close>), an early return a branch; a dict is
  an association list with Python's insertion order; a mutable vault is a state that each operation
  returns; a clock is a rational number that the caller reads. Strings are lists of 8-bit characters, so a span's offsets are indices into that list; byte counts use
  \<open>utf8_len\<close>. Integers are unbounded, as in Python; amounts are exact numbers of cents. Loops are structural or have a
  termination proof; only the JSON scanner runs on fuel, twice the length of its text plus two, and
  \<open>loads_never_starves\<close> shows that this is always enough.

  Properties. Each property carries its number C1, C2, ... in the text before it; those about one component stand at the
  end of its theory, those about the whole pipeline below.

  Parameters. The token factory, HMAC and SHA-256, \<open>repr\<close>, the YAML loader and the reading of a model's fields from a mapping,
  a provider's \<open>generate\<close> and any other task analyzer, the client library of the external provider, the authenticated cipher and
  its key derivation, and the environment are arguments of the definitions that use them. A floating-point number that is
  read from a text is the exact number it writes, and the rates of the scores are exact fractions.

  Not modelled: the tracing spans, but for B4's attributes and for the times the runner reads from them; the parsing that
  libraries do (argparse's of a command line, the web framework's of a request, its routing, CORS and rendering of JSON);
  the converter that extracts a document (PDF, DOCX, images); the scripts that start a pilot, and the writing of files.
\<close>

section \<open>Properties of the whole pipeline\<close>

text \<open>A run over a small case, with the detection rules it uses; the theorems below are applied to it.\<close>

definition sample_run ::
  "detection_rule list \<Rightarrow> treatment \<Rightarrow> disclosure_request \<Rightarrow>
     (execution_result \<times> provider_request list \<times> in_memory_vault) result" where
  "sample_run rules trt request =
     run_disclosure_case (\<lambda>k c. c) () (build_treatment in_memory_ops sample_repository None trt) (Some rules)
       (new_vault str_nat) request (fake_provider id id) DEFAULT_TIMEOUT_SECONDS False"

lemma no_rules_ok: "list_all rule_ok (active_rules (Some []))"
  by (simp add: active_rules_def)

text \<open>
  C8: a run never raises. Whatever the treatment, the text and the task, the policies, the context, the analyzer and
  the provider (which may answer, fail, time out or hang), the pipeline returns a result with its audit record and
  leaves the vault in a consistent state.
\<close>

theorem run_always_returns:
  assumes "vault_inv v" and "list_all rule_ok (active_rules detector)"
  shows "\<exists>execution sent v'.
    run_disclosure_case hmac key (build_treatment in_memory_ops repo analyzer trt) detector v request p timeout capture =
      Inr (execution, sent, v') \<and> vault_inv v'"
  by (rule built_treatment.run_returns [OF assms])

theorem run_always_returns_witness:
  "\<exists>execution sent v'. run_disclosure_case (\<lambda>k c. c) () (build_treatment in_memory_ops sample_repository None POLICY_GOVERNED)
      None (new_vault str_nat) (sample_request ''Employee: Ana'') (fake_provider id id) 30 False =
    Inr (execution, sent, v') \<and> vault_inv v'"
  by (rule run_always_returns) (simp_all add: vault_inv_new built_in_rules_ok)

text \<open>
  C9: nothing reaches a provider but what was approved. Every request a run submits carries the payload of the
  decision that the run returns, and that decision is \<open>allowed\<close>; it carries the task unchanged; the provider is of the class
  that policy evaluated; and, but for the unsafe control B0, no rule of the detector finds anything in the task.
\<close>

theorem only_approved_is_sent:
  assumes "vault_inv v" and "list_all rule_ok (active_rules detector)"
    and "run_disclosure_case hmac key (build_treatment in_memory_ops repo analyzer trt) detector v request p timeout capture =
      Inr (execution, sent, v')"
    and "m \<in> set sent"
  shows "m = \<lparr>pq_payload = rs_external_payload (ex_disclosure_result execution), pq_task = rq_task request\<rparr> \<and>
    rs_status (ex_disclosure_result execution) = Allowed \<and> pv_class p = ctx_provider_class (rq_context request) \<and>
    (trt = DIRECT \<or> detect (active_rules detector) (rq_task request) = Inr [])"
  using built_treatment.run_sends [OF assms] by (cases trt) auto

theorem only_approved_is_sent_witness:
  "\<exists>execution sent v'. sample_run [] STATIC_SANITIZATION (sample_request ''hello'') = Inr (execution, sent, v') \<and>
     sent = [\<lparr>pq_payload = rs_external_payload (ex_disclosure_result execution), pq_task = ''sum up''\<rparr>]"
proof -
  have "case sample_run [] STATIC_SANITIZATION (sample_request ''hello'') of
      Inl _ \<Rightarrow> False | Inr (execution, sent, v') \<Rightarrow> length sent = 1"
    by code_simp
  then obtain execution m v' where r: "sample_run [] STATIC_SANITIZATION (sample_request ''hello'') = Inr (execution, [m], v')"
    by (auto split: sum.splits simp: length_Suc_conv)
  from only_approved_is_sent [OF vault_inv_new _ r [unfolded sample_run_def], of m] r show ?thesis
    by (simp add: active_rules_def sample_request_def)
qed

text \<open>
  C10: the audit record tells what happened. At most one request is submitted, the record says that the provider
  was called exactly when one was, a response exists only if one was, text is reconstructed only from a response, and a
  submitted request either has its response or is recorded as failed.
\<close>

theorem audit_tells_what_happened:
  assumes "run_disclosure_case hmac key trt detector v request p timeout capture = Inr (execution, sent, v')"
  shows "length sent \<le> 1 \<and> (ps_called (ar_provider (ex_audit execution)) \<longleftrightarrow> sent \<noteq> []) \<and>
    (ex_provider_response execution = None \<or> sent \<noteq> []) \<and>
    (ex_reconstructed_text execution = None \<or> ex_provider_response execution \<noteq> None) \<and>
    (sent = [] \<or> (ex_provider_response execution = None \<longleftrightarrow> ps_failure_kind (ar_provider (ex_audit execution)) \<noteq> None))"
proof -
  obtain decision where "execute_disclosure_decision hmac key trt v' request p decision timeout capture = (execution, sent)"
    by (rule run_caseE [OF assms])
  then show ?thesis by (cases rule: execute_cases) auto
qed

theorem audit_tells_what_happened_witness:
  "\<exists>execution sent v'. sample_run [] DIRECT (sample_request ''hello'') = Inr (execution, sent, v') \<and>
     (ps_called (ar_provider (ex_audit execution)) \<longleftrightarrow> sent \<noteq> [])"
proof -
  obtain execution sent v' where r: "sample_run [] DIRECT (sample_request ''hello'') = Inr (execution, sent, v')"
    using built_treatment.run_returns [OF vault_inv_new no_rules_ok] unfolding sample_run_def by metis
  from audit_tells_what_happened [OF r [unfolded sample_run_def]] r show ?thesis by blast
qed

text \<open>
  a sensitive task stops the request. If the detector finds anything in the task, then under every treatment but B0 the
  run is blocked, sends nothing and returns a result that carries nothing out.
\<close>

theorem sensitive_task_is_blocked:
  assumes "vault_inv v" and "list_all rule_ok (active_rules detector)" and "trt \<noteq> DIRECT"
    and "detect (active_rules detector) (rq_task request) = Inr found" and "found \<noteq> []"
    and "run_disclosure_case hmac key (build_treatment in_memory_ops repo analyzer trt) detector v request p timeout capture =
      Inr (execution, sent, v')"
  shows "sent = [] \<and> rs_status (ex_disclosure_result execution) = Blocked \<and> carries_nothing (ex_disclosure_result execution)"
proof -
  let ?trt = "build_treatment in_memory_ops repo analyzer trt"
  obtain decision where d: "decide_disclosure ?trt detector v request = Inr (decision, v')"
    "execute_disclosure_decision hmac key ?trt v' request p decision timeout capture = (execution, sent)"
    by (rule run_caseE [OF assms(6)])
  have unsafe: "\<not> dt_unsafe_control_baseline ?trt" using assms(3) by (cases trt) simp_all
  obtain decision' v'' where d': "decide_disclosure ?trt detector v request = Inr (decision', v'')"
    "rs_status (dd_result decision') = Blocked \<longrightarrow> carries_nothing (dd_result decision')"
    "rs_status (dd_result decision') = Allowed \<and> \<not> dt_unsafe_control_baseline ?trt \<longrightarrow>
       detect (active_rules detector) (rq_task request) = Inr []"
    by (rule built_treatment.decide_returns [OF assms(1,2)])
  have "decision' = decision" using d(1) d'(1) by simp
  then have "rs_status (dd_result decision) = Blocked" "carries_nothing (dd_result decision)"
    using d'(2,3) unsafe assms(4,5) by (cases "rs_status (dd_result decision)"; simp)+
  with d(2) show ?thesis by (auto elim: execute_cases)
qed

theorem sensitive_task_is_blocked_witness:
  "\<exists>execution v'. sample_run [whole_rule ''code'' digit] STATIC_SANITIZATION ((sample_request ''hi'')\<lparr>rq_task := ''7''\<rparr>) =
     Inr (execution, [], v')"
proof -
  let ?r = "(sample_request ''hi'')\<lparr>rq_task := ''7''\<rparr>"
  have ok: "list_all rule_ok (active_rules (Some [whole_rule ''code'' digit]))"
    by (simp add: active_rules_def rule_ok_def whole_rule_def digit_def)
  have "case detect [whole_rule ''code'' digit] ''7'' of Inl _ \<Rightarrow> False | Inr found \<Rightarrow> found \<noteq> []" by code_simp
  then obtain found where f: "detect (active_rules (Some [whole_rule ''code'' digit])) (rq_task ?r) = Inr found" "found \<noteq> []"
    by (auto simp: active_rules_def split: sum.splits)
  obtain execution sent v' where r: "sample_run [whole_rule ''code'' digit] STATIC_SANITIZATION ?r = Inr (execution, sent, v')"
    using built_treatment.run_returns [OF vault_inv_new ok] unfolding sample_run_def by metis
  from sensitive_task_is_blocked [OF vault_inv_new ok _ f r [unfolded sample_run_def]] r show ?thesis by simp
qed

text \<open>
  C11: B1 sends nothing about the values it removes or bands. Two requests to one provider class with one task, whose
  texts agree outside the detected spans, and whose spans agree in category and in the band of every banded value (the
  removed values are arbitrary), send exactly the same to the provider and get the same response.
\<close>

theorem static_sends_no_removed_value:
  assumes "list_all rule_ok (active_rules detector)"
    and "detect (active_rules detector) (rq_text r1) = Inr s1" and "detect (active_rules detector) (rq_text r2) = Inr s2"
    and "gaps (rq_text r1) 0 s1 = gaps (rq_text r2) 0 s2" and "list_all2 (alike static_decision) s1 s2"
    and "rq_task r1 = rq_task r2" and "ctx_provider_class (rq_context r1) = ctx_provider_class (rq_context r2)"
    and "run_disclosure_case hmac key (build_treatment ops repo analyzer STATIC_SANITIZATION) detector v r1 p timeout capture =
      Inr (x1, sent1, v1)"
    and "run_disclosure_case hmac key (build_treatment ops repo analyzer STATIC_SANITIZATION) detector v r2 p timeout capture =
      Inr (x2, sent2, v2)"
  shows "sent1 = sent2 \<and> ex_provider_response x1 = ex_provider_response x2 \<and>
    ex_reconstructed_text x1 = ex_reconstructed_text x2"
proof -
  obtain a b where ab: "static_sanitize r1 s1 = Inr a" "static_sanitize r2 s2 = Inr b"
    using static_sanitize_total by metis
  have s1: "spans_are_valid s1 (rq_text r1)" "resolve_overlaps s1 = Inr s1"
    by (rule detect_ok [OF assms(1), of "rq_text r1"]; use assms(2) in simp)+
  have s2: "spans_are_valid s2 (rq_text r2)" "resolve_overlaps s2 = Inr s2"
    by (rule detect_ok [OF assms(1), of "rq_text r2"]; use assms(3) in simp)+
  have same: "rs_external_payload a = rs_external_payload b" "rs_status a = rs_status b"
    using static_only_disclosed [OF s1 ab(1) s2 ab(2) assms(4,5)] by simp_all
  obtain task where task: "detect (active_rules detector) (rq_task r1) = Inr task"
    by (rule detect_ok [OF assms(1)])
  define res where "res r = (if rs_status a = Allowed \<and> task \<noteq> [] then blocked_for_sensitive_task task else r)" for r
  have final: "rs_external_payload (res a) = rs_external_payload (res b)" "rs_status (res a) = rs_status (res b)"
    using same by (simp_all add: res_def)
  have d1: "decide_disclosure (build_treatment ops repo analyzer STATIC_SANITIZATION) detector v r1 =
      Inr (\<lparr>dd_spans = s1, dd_result = res a\<rparr>, v)"
    using assms(2) task by (simp add: decide_disclosure_def stateless_def ab res_def)
  have d2: "decide_disclosure (build_treatment ops repo analyzer STATIC_SANITIZATION) detector v r2 =
      Inr (\<lparr>dd_spans = s2, dd_result = res b\<rparr>, v)"
    using assms(3,6) task same(2) by (simp add: decide_disclosure_def stateless_def ab res_def)
  show ?thesis
    using assms(8,9) final assms(6,7) unfolding run_disclosure_case_def d1 d2 execute_disclosure_decision_def Let_def
    by (auto split: if_splits prod.splits sum.splits)
qed

definition digit_rules :: "detection_rule list" where
  "digit_rules = [whole_rule ''cpf'' digit]"

lemma digit_rules_ok: "list_all rule_ok (active_rules (Some digit_rules))"
  by (simp add: active_rules_def rule_ok_def whole_rule_def digit_def digit_rules_def)

lemma digit_rules_find:
  "detect (active_rules (Some digit_rules)) ''id 7.'' = Inr [(one_span ''cpf'' ''7'' 3)\<lparr>sp_confidence := Some 1\<rparr>]"
  "detect (active_rules (Some digit_rules)) ''id 8.'' = Inr [(one_span ''cpf'' ''8'' 3)\<lparr>sp_confidence := Some 1\<rparr>]"
  by code_simp+

theorem static_sends_no_removed_value_witness:
  "\<exists>x1 x2 sent v1 v2. sample_run digit_rules STATIC_SANITIZATION (sample_request ''id 7.'') = Inr (x1, sent, v1) \<and>
     sample_run digit_rules STATIC_SANITIZATION (sample_request ''id 8.'') = Inr (x2, sent, v2)"
proof -
  obtain x1 sent1 v1 where r1: "sample_run digit_rules STATIC_SANITIZATION (sample_request ''id 7.'') = Inr (x1, sent1, v1)"
    using built_treatment.run_returns [OF vault_inv_new digit_rules_ok] unfolding sample_run_def by metis
  obtain x2 sent2 v2 where r2: "sample_run digit_rules STATIC_SANITIZATION (sample_request ''id 8.'') = Inr (x2, sent2, v2)"
    using built_treatment.run_returns [OF vault_inv_new digit_rules_ok] unfolding sample_run_def by metis
  have find: "detect (active_rules (Some digit_rules)) (rq_text (sample_request ''id 7.'')) =
      Inr [(one_span ''cpf'' ''7'' 3)\<lparr>sp_confidence := Some 1\<rparr>]"
    "detect (active_rules (Some digit_rules)) (rq_text (sample_request ''id 8.'')) =
      Inr [(one_span ''cpf'' ''8'' 3)\<lparr>sp_confidence := Some 1\<rparr>]"
    using digit_rules_find by (simp_all add: sample_request_def)
  have "sent1 = sent2"
    using static_sends_no_removed_value [OF digit_rules_ok find _ _ _ _ r1 [unfolded sample_run_def] r2 [unfolded sample_run_def]]
    by (simp add: sample_request_def one_span_def alike_def static_decision_def downgrade_def plain_action_def
        static_resolve_action_def STATIC_ACTIONS_def dict_get_default_def lo_def hi_def slice_def)
  with r1 r2 show ?thesis by blast
qed

text \<open>
  pseudonymization can be undone. Under B2, B3 or B4 with the in-memory vault, if every transformed span was
  preserved or pseudonymized, then reconstructing the payload itself in the same context gives back the original text,
  provided that reconstruction is authorized, the tokens are well formed and none is a prefix of another, and the text does
  not contain the token marker.
\<close>

theorem payload_reconstructs:
  assumes "shares_frame trt" and "vault_inv v"
    and "dt_sanitize (build_treatment in_memory_ops repo analyzer trt) v request spans = Inr (res, v')"
    and "dt_reconstruct (build_treatment in_memory_ops repo analyzer trt) = Some rec"
    and "rs_status res = Allowed" and "is_reconstruction_authorized repo (rq_context request)"
    and "\<forall>t \<in> set (rs_transformations res). tr_action t = PRESERVE \<or> tr_action t = PSEUDONYMIZE"
    and "\<forall>t \<in> set (pseudonymized_tokens res). token_ok t" and "prefix_free (set (pseudonymized_tokens res))"
    and "\<not> sublist marker (rq_text request)"
  shows "rec v' (rs_external_payload res) res (rq_context request) = rq_text request"
proof (cases rule: shared_outcomes [OF assms(1,3)])
  case (1 ds)
  with assms(5) show ?thesis by simp
next
  case (2 f ordered key vals w)
  note payload = walk_payload [OF 2(5,6)]
  have "ad_action (downgrade (f sp) sp) \<in> {PRESERVE, PSEUDONYMIZE}" if sp: "sp \<in> set ordered" for sp
  proof -
    obtain t where "t \<in> set (wk_transformations w)" "describes (sp, downgrade (f sp) sp) t"
      using payload(2) sp by (blast dest: decided_described)
    then show ?thesis using assms(7) 2(9) by (auto simp: describes_def)
  qed
  then have restored: "weave (gaps (rq_text request) 0 ordered) (map restored (wk_transformations w)) = rq_text request"
    using restored_text [OF _ resolve_overlaps_chain [OF 2(2)] payload(2,3)]
      spans_are_valid_subset [OF 2(1) resolve_overlaps_subset [OF 2(2)]] by blast
  have "ro_text (reconstruct in_memory_ops (wk_vault w) repo (concat (wk_parts w)) res (rq_context request)) =
      weave (gaps (rq_text request) 0 ordered) (map restored (wk_transformations w))"
    by (rule in_memory.walk_reconstruct [OF assms(2) 2(5,6,9) assms(6) 2(4) assms(8,9)])
      (use restored assms(10) in simp)
  then show ?thesis using restored shared_reconstruct [OF assms(1,4)] 2(7,8) by simp
qed

definition sample_b2 :: "(disclosure_result \<times> in_memory_vault) result" where
  "sample_b2 = reversible_sanitize in_memory_ops sample_repository (new_vault str_nat) (sample_request ''id 7.'')
     [one_span ''cpf'' ''7'' 3]"

lemma sample_b2_run:
  "case sample_b2 of
     Inl _ \<Rightarrow> False
   | Inr (res, v') \<Rightarrow> rs_status res = Allowed \<and> map tr_action (rs_transformations res) = [PSEUDONYMIZE] \<and>
       pseudonymized_tokens res = [''PSEUDO-cpf-0''] \<and> rs_external_payload res = ''id PSEUDO-cpf-0.''"
  by code_simp

theorem payload_reconstructs_witness:
  "\<exists>res v'. sample_b2 = Inr (res, v') \<and> rs_external_payload res = ''id PSEUDO-cpf-0.'' \<and>
     reversible_reconstruct in_memory_ops sample_repository v' ''id PSEUDO-cpf-0.'' res sample_context = ''id 7.''"
proof -
  let ?req = "sample_request ''id 7.''"
  obtain res v' where r: "sample_b2 = Inr (res, v')" "rs_status res = Allowed"
    "map tr_action (rs_transformations res) = [PSEUDONYMIZE]" "pseudonymized_tokens res = [''PSEUDO-cpf-0'']"
    "rs_external_payload res = ''id PSEUDO-cpf-0.''"
    using sample_b2_run by (auto split: sum.splits)
  have run: "dt_sanitize (build_treatment in_memory_ops sample_repository None REVERSIBLE_PSEUDONYMIZATION) (new_vault str_nat)
      ?req [one_span ''cpf'' ''7'' 3] = Inr (res, v')"
    using r(1) by (simp add: sample_b2_def)
  have auth: "is_reconstruction_authorized sample_repository (rq_context ?req)" by code_simp
  have acts: "\<forall>t \<in> set (rs_transformations res). tr_action t = PRESERVE \<or> tr_action t = PSEUDONYMIZE"
    using r(3) by (metis (no_types, lifting) image_eqI list.set_map empty_iff list.set(1,2) insert_iff)
  have "token_ok ''PSEUDO-cpf-0''" by (simp add: token_ok_def marker_def)
  then have tok: "\<forall>t \<in> set (pseudonymized_tokens res). token_ok t" "prefix_free (set (pseudonymized_tokens res))"
    by (simp_all add: r(4) prefix_free_def)
  have "\<not> sublist marker (rq_text ?req)" by code_simp
  from payload_reconstructs [OF _ vault_inv_new run _ r(2) auth acts tok this, of "reversible_reconstruct in_memory_ops sample_repository"]
  show ?thesis using r(1,5) by (auto simp: shares_frame_def sample_request_def)
qed

text \<open>
  C19: only detected spans change. An allowed result of B1 to B4 is the text with every span that overlap resolution kept
  replaced by what its transformation shows of it, and everything outside these spans is copied verbatim: nothing for
  a removed span, a band or a month for a generalized one, a token for a pseudonymized one, the value for a preserved one.
\<close>

theorem only_spans_change:
  assumes "trt \<noteq> DIRECT" and "dt_sanitize (build_treatment ops repo analyzer trt) v request spans = Inr (res, v')"
    and "rs_status res = Allowed"
  shows "\<exists>ordered. spans_are_valid spans (rq_text request) \<and> resolve_overlaps spans = Inr ordered \<and>
    rs_external_payload res = weave (gaps (rq_text request) 0 ordered)
      (map (\<lambda>t. the_default '''' (tr_transformed t)) (rs_transformations res)) \<and>
    list_all2 shown_as ordered (rs_transformations res)"
  by (rule built_layout [OF assms]) blast

theorem only_spans_change_witness:
  "\<exists>res v'. sample_b2 = Inr (res, v') \<and> spans_are_valid [one_span ''cpf'' ''7'' 3] ''id 7.''"
proof -
  obtain res v' where r: "sample_b2 = Inr (res, v')" "rs_status res = Allowed"
    using sample_b2_run by (auto split: sum.splits)
  have run: "dt_sanitize (build_treatment in_memory_ops sample_repository None REVERSIBLE_PSEUDONYMIZATION) (new_vault str_nat)
      (sample_request ''id 7.'') [one_span ''cpf'' ''7'' 3] = Inr (res, v')"
    using r(1) by (simp add: sample_b2_def)
  from only_spans_change [OF _ run r(2)] r(1) show ?thesis by (auto simp: sample_request_def)
qed

text \<open>
  a blocked request leaves no trace in the vault. Under B2, B3 and B4, over any vault, a result that is not allowed
  carries nothing out and no pseudonym was minted on the way to it.
\<close>

theorem blocked_mints_nothing:
  assumes "shares_frame trt" and "dt_sanitize (build_treatment ops repo analyzer trt) v request spans = Inr (res, v')"
    and "rs_status res \<noteq> Allowed"
  shows "v' = v \<and> carries_nothing res"
  by (cases rule: shared_outcomes [OF assms(1,2)]) (use assms(3) in auto)

theorem blocked_mints_nothing_witness:
  "\<exists>res v'. reversible_sanitize in_memory_ops sample_repository (new_vault str_nat) (sample_request ''id 7.'')
     [one_span ''cpf'' ''9'' 3] = Inr (res, v') \<and> v' = new_vault str_nat"
proof -
  let ?run = "dt_sanitize (build_treatment in_memory_ops sample_repository None REVERSIBLE_PSEUDONYMIZATION) (new_vault str_nat)
      (sample_request ''id 7.'') [one_span ''cpf'' ''9'' 3]"
  have "case ?run of Inl _ \<Rightarrow> False | Inr (res, v') \<Rightarrow> rs_status res \<noteq> Allowed" by code_simp
  then obtain res v' where r: "?run = Inr (res, v')" "rs_status res \<noteq> Allowed" by (auto split: sum.splits)
  from blocked_mints_nothing [OF _ r] r(1) show ?thesis by (auto simp: shares_frame_def)
qed

text \<open>
  C20: a pseudonym stands for one value. In a result of B2, B3 or B4, two pseudonymized spans carry the same token exactly when
  they have the same category and the same value, and each token reconstructs to the value of its span.
\<close>

theorem tokens_stand_for_values:
  assumes "shares_frame trt" and "vault_inv v"
    and "dt_sanitize (build_treatment in_memory_ops repo analyzer trt) v request spans = Inr (res, v')"
    and "t \<in> set (rs_transformations res)" and "tr_action t = PSEUDONYMIZE"
    and "u \<in> set (rs_transformations res)" and "tr_action u = PSEUDONYMIZE"
  shows "(tr_transformed t = tr_transformed u \<longleftrightarrow> tr_category t = tr_category u \<and> tr_original t = tr_original u) \<and>
    (\<exists>token key. tr_transformed t = Some token \<and>
       scope_key (resolve_pseudonym_scope repo (rq_context request)) (rq_context request) = Some key \<and>
       vault_reconstruct v' (resolve_pseudonym_scope repo (rq_context request)) key token = Some (tr_original t))"
proof (cases rule: shared_outcomes [OF assms(1,3)])
  case (1 ds)
  with assms(4) show ?thesis by simp
next
  case (2 f ordered key vals w)
  let ?scope = "resolve_pseudonym_scope repo (rq_context request)"
  from in_memory.walk_vault [OF assms(2) 2(6)] have w: "vault_inv v'"
    "in_memory.tokens_issued v' ?scope key (rs_transformations res)"
    by (simp_all add: 2(7,9))
  then obtain token where token: "tr_transformed t = Some token"
    "vault_issued v' ?scope key (tr_category t) (tr_original t) token"
    using assms(4,5) unfolding in_memory.tokens_issued_def by blast
  then have "vault_reconstruct v' ?scope key token = Some (tr_original t)"
    using in_memory.reconstruct_iff [OF w(1)] by (auto simp: in_memory_ops_def)
  with token(1) 2(4) in_memory.tokens_injective [OF w assms(4,6,5,7)] show ?thesis by blast
qed

theorem tokens_stand_for_values_witness:
  "\<exists>res v' t. sample_b2 = Inr (res, v') \<and> t \<in> set (rs_transformations res) \<and>
     (\<exists>token key. tr_transformed t = Some token \<and> vault_reconstruct v' REQUEST key token = Some (tr_original t))"
proof -
  obtain res v' where r: "sample_b2 = Inr (res, v')" "map tr_action (rs_transformations res) = [PSEUDONYMIZE]"
    using sample_b2_run by (auto split: sum.splits)
  then obtain t where t: "t \<in> set (rs_transformations res)" "tr_action t = PSEUDONYMIZE" by auto
  have run: "dt_sanitize (build_treatment in_memory_ops sample_repository None REVERSIBLE_PSEUDONYMIZATION) (new_vault str_nat)
      (sample_request ''id 7.'') [one_span ''cpf'' ''7'' 3] = Inr (res, v')"
    using r(1) by (simp add: sample_b2_def)
  have scope: "resolve_pseudonym_scope sample_repository (rq_context (sample_request ''id 7.'')) = REQUEST" by code_simp
  obtain token key where "tr_transformed t = Some token" "vault_reconstruct v' REQUEST key token = Some (tr_original t)"
    using tokens_stand_for_values [OF _ vault_inv_new run t t, unfolded scope] by (auto simp: shares_frame_def)
  with r(1) t(1) show ?thesis by blast
qed

definition pseudonymized_instead :: "transformation \<Rightarrow> transformation \<Rightarrow> bool" where
  "pseudonymized_instead t u \<longleftrightarrow> tr_category u = tr_category t \<and> tr_original u = tr_original t \<and>
     (if tr_action t = REMOVE then tr_action u = PSEUDONYMIZE
      else tr_action u = tr_action t \<and> tr_transformed u = tr_transformed t)"

text \<open>
  C24: B2 is B1 with removal turned into pseudonymization. Whenever B2 allows a request, so does B1, and span by span B2
  does what B1 does, with the same text shown, except that what B1 removes B2 replaces by a token.
\<close>

theorem reversible_refines_static:
  assumes "static_sanitize request spans = Inr a"
    and "reversible_sanitize ops repo v request spans = Inr (b, v')" and "rs_status b = Allowed"
  shows "rs_status a = Allowed \<and>
    list_all2 pseudonymized_instead (rs_transformations a) (rs_transformations b)"
proof -
  have total: "\<forall>ordered. resolve_overlaps spans = Inr ordered \<longrightarrow> (\<forall>sp \<in> set ordered.
      Inr (reversible_decide sp) = (Inr (reversible_decide sp) :: action_decision result))" by simp
  note run2 = assms(2) [unfolded reversible_sanitize_with]
  obtain ordered vals w where b: "spans_are_valid spans (rq_text request)" "resolve_overlaps spans = Inr ordered"
    "\<not> some_block reversible_decide ordered"
    "list_all2 describes (decided reversible_decide ordered) (rs_transformations b)"
    "list_all2 becomes (decided reversible_decide ordered) (rs_transformations b)"
  proof (cases rule: sanitize_with_outcomes [OF total run2])
    case (1 ds)
    with assms(3) show thesis by simp
  next
    case (2 ordered key vals w)
    with walk_payload [OF 2(5,6)] that show thesis by simp
  qed
  have nb: "\<not> some_block static_decision ordered" using b(3) reversible_block_static by simp
  obtain vals' w' where w': "values_for vals' 0 (decided static_decision ordered)"
    "allowed_walk no_vault REQUEST '''' (rq_text request) vals' 0 0 [] () (decided static_decision ordered) = Inr w'"
    "rs_status a = Allowed" "rs_transformations a = wk_transformations w'"
    by (cases rule: static_sanitize_cases [of spans request]) (use assms(1) b(1,2) nb in auto)
  note a = w'(3) walk_payload(2) [OF w'(1,2), folded w'(4)] walk_payload(3) [OF w'(1,2), folded w'(4)]
  have same: "pseudonymized_instead t u"
    if "describes (sp, downgrade (static_decision sp) sp) t" "becomes (sp, downgrade (static_decision sp) sp) t"
      "describes (sp, downgrade (reversible_decide sp) sp) u" "becomes (sp, downgrade (reversible_decide sp) sp) u"
      "ad_action (downgrade (static_decision sp) sp) \<noteq> BLOCK_REQUEST"
      "ad_action (downgrade (reversible_decide sp) sp) \<noteq> BLOCK_REQUEST" for sp t u
    using that static_action_cases [of "sp_category sp"]
    by (auto simp: pseudonymized_instead_def describes_def becomes_def downgrade_allowed static_decision_def
        reversible_action_static)
  have len: "length (rs_transformations a) = length ordered" "length (rs_transformations b) = length ordered"
    using list_all2_lengthD [OF a(2)] list_all2_lengthD [OF b(4)] by (simp_all add: decided_def)
  have "ad_action (downgrade (static_decision (ordered ! i)) (ordered ! i)) \<noteq> BLOCK_REQUEST \<and>
      ad_action (downgrade (reversible_decide (ordered ! i)) (ordered ! i)) \<noteq> BLOCK_REQUEST" if "i < length ordered" for i
    using that nb b(3) unfolding some_block_def list_ex_length by simp
  with a b(4,5) len have "\<forall>i < length ordered. pseudonymized_instead (rs_transformations a ! i) (rs_transformations b ! i)"
    by (intro allI impI same) (auto simp: list_all2_conv_all_nth decided_def)
  with a(1) len show ?thesis by (simp add: list_all2_conv_all_nth)
qed

theorem reversible_refines_static_witness:
  "\<exists>a. static_sanitize (sample_request ''id 7.'') [one_span ''cpf'' ''7'' 3] = Inr a \<and> rs_status a = Allowed"
proof -
  obtain a where a: "static_sanitize (sample_request ''id 7.'') [one_span ''cpf'' ''7'' 3] = Inr a"
    using static_sanitize_total by blast
  obtain res v' where r: "sample_b2 = Inr (res, v')" "rs_status res = Allowed"
    using sample_b2_run by (auto split: sum.splits)
  from reversible_refines_static [OF a r(1) [unfolded sample_b2_def] r(2)] a show ?thesis by blast
qed

text \<open>
  without authorization nothing is reconstructed. When no policy of the context's domain is loaded under the
  named version, or the scope's identifier is missing, every response is returned as the provider gave it.
\<close>

theorem unauthorized_response_unchanged:
  assumes "shares_frame trt" and "dt_reconstruct (build_treatment ops repo analyzer trt) = Some rec"
    and "\<not> is_reconstruction_authorized repo ctx \<or> scope_key (resolve_pseudonym_scope repo ctx) ctx = None"
  shows "rec v response res ctx = response"
  using assms(3) shared_reconstruct [OF assms(1,2)] by (auto simp: reconstruct_def Let_def)

theorem unauthorized_response_unchanged_witness:
  "reversible_reconstruct in_memory_ops \<lparr>re_policies = [], re_load_errors = []\<rparr> (new_vault str_nat) ''PSEUDO-cpf-0''
     (blocked_with []) sample_context = ''PSEUDO-cpf-0''"
  by (rule unauthorized_response_unchanged [of REVERSIBLE_PSEUDONYMIZATION in_memory_ops _ None])
    (simp add: shares_frame_def, simp, rule disjI1, code_simp)

end
